(* ===== verification/JsValue.thy ===== *)
theory JsValue
  imports Prelude
begin

text \<open>
  The values of the language the panel is written in, and the operations of the
  language on them that its code uses: truthiness, property reads (which throw on
  undefined and null), default parameters, the operators ?? and ||, spread and
  Object.assign, conversions to number and to string, and the wire: what an object
  is after \<open>JSON.parse(JSON.stringify(o))\<close>, the form in which the browser and the
  server exchange a configuration.

  Numbers are exact: a finite number is a rational (double rounding is not modelled
  here), with NaN and the infinities beside it. Objects are association lists of own
  properties in insertion order; inherited properties and the key \<open>__proto__\<close> are not
  modelled. Values are immutable, so two references to one array are two equal values.
\<close>

section \<open>Values\<close>

datatype jnum = Fin rat | NaN | Inf bool

datatype jsv =
    JUndef
  | JNull
  | JBool bool
  | JNum jnum
  | JStr string
  | JArr "jsv list"
  | JObj "(string \<times> jsv) list"

type_synonym entries = "(string \<times> jsv) list"

abbreviation jint :: "int \<Rightarrow> jsv" where
  "jint n \<equiv> JNum (Fin (of_int n))"

fun is_prim :: "jsv \<Rightarrow> bool" where
  "is_prim (JArr _) = False"
| "is_prim (JObj _) = False"
| "is_prim _ = True"

fun is_array :: "jsv \<Rightarrow> bool" where
  "is_array (JArr _) = True"
| "is_array _ = False"

fun js_typeof :: "jsv \<Rightarrow> string" where
  "js_typeof JUndef = ''undefined''"
| "js_typeof JNull = ''object''"
| "js_typeof (JBool _) = ''boolean''"
| "js_typeof (JNum _) = ''number''"
| "js_typeof (JStr _) = ''string''"
| "js_typeof (JArr _) = ''object''"
| "js_typeof (JObj _) = ''object''"

fun truthy :: "jsv \<Rightarrow> bool" where
  "truthy JUndef = False"
| "truthy JNull = False"
| "truthy (JBool b) = b"
| "truthy (JNum (Fin q)) = (q \<noteq> 0)"
| "truthy (JNum NaN) = False"
| "truthy (JNum (Inf _)) = True"
| "truthy (JStr s) = (s \<noteq> [])"
| "truthy (JArr _) = True"
| "truthy (JObj _) = True"

section \<open>Operators\<close>

text \<open>
  \<open>dflt v d\<close> is a parameter with default d called with v; \<open>nullish v d\<close> is v ?? d;
  \<open>js_or v d\<close> is v || d; \<open>opt_val b v\<close> is b ? v : undefined.
\<close>

definition dflt :: "jsv \<Rightarrow> jsv \<Rightarrow> jsv" where
  "dflt v d = (if v = JUndef then d else v)"

definition nullish :: "jsv \<Rightarrow> jsv \<Rightarrow> jsv" where
  "nullish v d = (if v = JUndef \<or> v = JNull then d else v)"

definition js_or :: "jsv \<Rightarrow> jsv \<Rightarrow> jsv" where
  "js_or v d = (if truthy v then v else d)"

definition opt_val :: "bool \<Rightarrow> jsv \<Rightarrow> jsv" where
  "opt_val b v = (if b then v else JUndef)"

text \<open>
  Strict equality. Two arrays or two objects are equal only when they are one
  reference; the values compared here come from two different objects, so they never are.
\<close>

fun strict_eq :: "jsv \<Rightarrow> jsv \<Rightarrow> bool" where
  "strict_eq (JNum (Fin a)) (JNum (Fin b)) = (a = b)"
| "strict_eq (JNum (Inf a)) (JNum (Inf b)) = (a = b)"
| "strict_eq (JNum _) (JNum _) = False"
| "strict_eq (JArr _) (JArr _) = False"
| "strict_eq (JObj _) (JObj _) = False"
| "strict_eq a b = (a = b)"

lemma dflt_simps [simp]:
  "dflt JUndef d = d" "v \<noteq> JUndef \<Longrightarrow> dflt v d = v"
  by (simp_all add: dflt_def)

lemma dflt_JUndef_iff: "dflt v d = JUndef \<longleftrightarrow> v = JUndef \<and> d = JUndef"
  by (auto simp: dflt_def)

lemma nullish_simps [simp]:
  "nullish JUndef d = d" "nullish JNull d = d"
  "v \<noteq> JUndef \<Longrightarrow> v \<noteq> JNull \<Longrightarrow> nullish v d = v"
  by (simp_all add: nullish_def)

lemma js_or_simps [simp]:
  "truthy v \<Longrightarrow> js_or v d = v" "\<not> truthy v \<Longrightarrow> js_or v d = d"
  by (simp_all add: js_or_def)

lemma opt_val_simps [simp]: "opt_val True v = v" "opt_val False v = JUndef"
  by (simp_all add: opt_val_def)

lemma truthy_not_undef: "truthy v \<Longrightarrow> v \<noteq> JUndef \<and> v \<noteq> JNull"
  by auto

lemma strict_eq_prim:
  "is_prim a \<Longrightarrow> a \<noteq> JNum NaN \<Longrightarrow> strict_eq a b \<longleftrightarrow> a = b"
  by (induction a b rule: strict_eq.induct) auto

lemma strict_eq_imp_eq: "strict_eq a b \<Longrightarrow> a = b"
  by (induction a b rule: strict_eq.induct) auto

lemma strict_eq_JStr [simp]:
  "strict_eq (JStr s) v \<longleftrightarrow> v = JStr s" "strict_eq v (JStr s) \<longleftrightarrow> v = JStr s"
  by (cases v; auto)+

section \<open>Objects\<close>

definition look :: "entries \<Rightarrow> string \<Rightarrow> jsv" where
  "look kvs k = (case map_of kvs k of None \<Rightarrow> JUndef | Some v \<Rightarrow> v)"

text \<open>Assignment to a property keeps the place of a key that is already there.\<close>

fun obj_set :: "entries \<Rightarrow> string \<Rightarrow> jsv \<Rightarrow> entries" where
  "obj_set [] k v = [(k, v)]"
| "obj_set ((k', v') # kvs) k v = (if k' = k then (k, v) # kvs else (k', v') # obj_set kvs k v)"

definition obj_del :: "entries \<Rightarrow> string \<Rightarrow> entries" where
  "obj_del kvs k = filter (\<lambda>(k', _). k' \<noteq> k) kvs"

text \<open>\<open>Object.assign({...base}, ext)\<close> and the spread of ext after base.\<close>

definition obj_assign :: "entries \<Rightarrow> entries \<Rightarrow> entries" where
  "obj_assign base ext = foldl (\<lambda>ob (k, v). obj_set ob k v) base ext"

primrec keys :: "entries \<Rightarrow> string list" where
  "keys [] = []"
| "keys (e # es) = fst e # keys es"

lemma keys_conv: "keys kvs = map fst kvs"
  by (induction kvs) auto

lemma keys_append [simp]: "keys (xs @ ys) = keys xs @ keys ys"
  by (simp add: keys_conv)

lemma look_Nil [simp]: "look [] k = JUndef"
  by (simp add: look_def)

lemma look_Cons [simp]: "look ((k', v) # kvs) k = (if k' = k then v else look kvs k)"
  by (simp add: look_def)

lemma look_append: "look (xs @ ys) k = (if k \<in> set (keys xs) then look xs k else look ys k)"
  by (induction xs) auto

lemma look_notin: "k \<notin> set (keys kvs) \<Longrightarrow> look kvs k = JUndef"
  by (induction kvs) auto

lemma look_obj_set: "look (obj_set kvs k v) k' = (if k' = k then v else look kvs k')"
  by (induction kvs) auto

lemma keys_obj_set: "set (keys (obj_set kvs k v)) = insert k (set (keys kvs))"
proof (induction kvs)
  case (Cons e kvs)
  then show ?case by (cases e) (simp add: insert_commute)
qed simp

lemma keys_obj_set_present: "k \<in> set (keys kvs) \<Longrightarrow> keys (obj_set kvs k v) = keys kvs"
  by (induction kvs) auto

lemma distinct_obj_set: "distinct (keys kvs) \<Longrightarrow> distinct (keys (obj_set kvs k v))"
  by (induction kvs) (auto simp: keys_obj_set)

lemma look_obj_del: "look (obj_del kvs k) k' = (if k' = k then JUndef else look kvs k')"
  by (induction kvs) (auto simp: obj_del_def)

lemma keys_obj_del: "keys (obj_del kvs k) = filter (\<lambda>k'. k' \<noteq> k) (keys kvs)"
  by (induction kvs) (auto simp: obj_del_def)

lemma distinct_obj_del: "distinct (keys kvs) \<Longrightarrow> distinct (keys (obj_del kvs k))"
  by (simp add: keys_obj_del)

lemma obj_assign_simps [simp]:
  "obj_assign base [] = base"
  "obj_assign base ((k, v) # ext) = obj_assign (obj_set base k v) ext"
  by (simp_all add: obj_assign_def)

lemma look_obj_assign:
  "distinct (keys ext) \<Longrightarrow>
   look (obj_assign base ext) k = (if k \<in> set (keys ext) then look ext k else look base k)"
  by (induction ext arbitrary: base) (auto simp: look_obj_set look_notin)

lemma distinct_obj_assign: "distinct (keys base) \<Longrightarrow> distinct (keys (obj_assign base ext))"
  by (induction ext arbitrary: base) (auto simp: distinct_obj_set)

lemma keys_obj_assign: "set (keys (obj_assign base ext)) = set (keys base) \<union> set (keys ext)"
proof (induction ext arbitrary: base)
  case (Cons e ext)
  then show ?case by (cases e) (simp add: keys_obj_set)
qed simp

lemma obj_set_fresh: "k \<notin> set (keys kvs) \<Longrightarrow> obj_set kvs k v = kvs @ [(k, v)]"
  by (induction kvs) auto

lemma obj_assign_fresh:
  "distinct (keys ext) \<Longrightarrow> set (keys base) \<inter> set (keys ext) = {} \<Longrightarrow>
   obj_assign base ext = base @ ext"
proof (induction ext arbitrary: base)
  case (Cons e ext)
  obtain k v where e: "e = (k, v)" by (cases e)
  from Cons.prems have "k \<notin> set (keys base)" by (auto simp: e)
  then have "obj_set base k v = base @ [(k, v)]" by (rule obj_set_fresh)
  with Cons show ?case by (auto simp: e)
qed simp

lemma obj_assign_Nil: "distinct (keys ext) \<Longrightarrow> obj_assign [] ext = ext"
  by (simp add: obj_assign_fresh)

section \<open>Property reads\<close>

text \<open>
  \<open>js_get v k\<close> is v.k: None is the TypeError of a read from undefined or null. Arrays
  and strings have the property length; \<open>js_index v i\<close> is v[i] for a natural i.
  \<open>js_get_opt\<close> is v?.k.
\<close>

fun js_get :: "jsv \<Rightarrow> string \<Rightarrow> jsv option" where
  "js_get JUndef k = None"
| "js_get JNull k = None"
| "js_get (JObj kvs) k = Some (look kvs k)"
| "js_get (JArr vs) k = Some (if k = ''length'' then jint (int (length vs)) else JUndef)"
| "js_get (JStr s) k = Some (if k = ''length'' then jint (int (length s)) else JUndef)"
| "js_get _ k = Some JUndef"

fun js_get_opt :: "jsv \<Rightarrow> string \<Rightarrow> jsv" where
  "js_get_opt JUndef k = JUndef"
| "js_get_opt JNull k = JUndef"
| "js_get_opt v k = (case js_get v k of None \<Rightarrow> JUndef | Some w \<Rightarrow> w)"

fun js_index :: "jsv \<Rightarrow> nat \<Rightarrow> jsv option" where
  "js_index JUndef i = None"
| "js_index JNull i = None"
| "js_index (JArr vs) i = Some (if i < length vs then vs ! i else JUndef)"
| "js_index (JStr s) i = Some (if i < length s then JStr [s ! i] else JUndef)"
| "js_index (JObj kvs) i = Some (look kvs (show_nat i))"
| "js_index _ i = Some JUndef"

lemma js_get_None_iff: "js_get v k = None \<longleftrightarrow> v = JUndef \<or> v = JNull"
  by (cases v) auto

text \<open>The entries of an object, as \<open>Object.keys\<close> and the spread see them.\<close>

fun own_entries :: "jsv \<Rightarrow> entries" where
  "own_entries (JObj kvs) = kvs"
| "own_entries (JArr vs) = map (\<lambda>(i, v). (show_nat i, v)) (zip [0..<length vs] vs)"
| "own_entries (JStr s) = map (\<lambda>(i, c). (show_nat i, JStr [c])) (zip [0..<length s] s)"
| "own_entries _ = []"

text \<open>\<open>Object.keys(v)\<close> throws on undefined and null.\<close>

definition object_keys :: "jsv \<Rightarrow> string list option" where
  "object_keys v = (if v = JUndef \<or> v = JNull then None else Some (keys (own_entries v)))"

end
