(* ===== verification/Wire.thy ===== *)
theory Wire
  imports JsValue
begin

text \<open>
  The wire between the panel's pages and its server: an object is printed with
  \<open>JSON.stringify\<close> and read back with \<open>JSON.parse\<close>. \<open>wire\<close> is the composition of the
  two: properties that are undefined disappear, undefined array elements and
  non-finite numbers become null, everything else is kept.

  \<open>json_codec\<close> is the contract of a configuration class: what its \<open>toJson\<close> prints,
  its \<open>fromJson\<close> reads back. The classes of the model interpret it, and the lists of
  their instances inherit the round trip from it.
\<close>

section \<open>JSON.parse after JSON.stringify\<close>

function wire :: "jsv \<Rightarrow> jsv" where
  "wire JUndef = JUndef"
| "wire JNull = JNull"
| "wire (JBool b) = JBool b"
| "wire (JNum n) = (case n of Fin q \<Rightarrow> JNum (Fin q) | _ \<Rightarrow> JNull)"
| "wire (JStr s) = JStr s"
| "wire (JArr vs) = JArr (map (\<lambda>v. if v = JUndef then JNull else wire v) vs)"
| "wire (JObj kvs) =
     JObj (map (\<lambda>e. (fst e, wire (snd e))) (filter (\<lambda>e. snd e \<noteq> JUndef) kvs))"
  by pat_completeness auto
termination
proof (relation "measure size")
  fix kvs :: entries and e
  assume "e \<in> set (filter (\<lambda>e. snd e \<noteq> JUndef) kvs)"
  then have "e \<in> set kvs" by simp
  then have "size (snd e) \<le> size_list (size_prod (\<lambda>_. 0) size) kvs"
    by (induction kvs) (auto simp: less_imp_le_nat le_SucI)
  then show "(snd e, JObj kvs) \<in> measure size" by simp
next
  fix vs :: "jsv list" and v
  assume "v \<in> set vs"
  then have "size v \<le> size_list size vs" by (induction vs) auto
  then show "(v, JArr vs) \<in> measure size" by simp
qed auto

lemma wire_eq_undef [simp]: "wire v = JUndef \<longleftrightarrow> v = JUndef"
  by (cases v) (auto split: jnum.splits)

lemma wire_JObj_not [simp]:
  "wire (JObj kvs) \<noteq> JUndef" "wire (JObj kvs) \<noteq> JNull" "wire (JObj kvs) \<noteq> JStr s"
  "wire (JObj kvs) \<noteq> JArr vs" "wire (JObj kvs) \<noteq> JNum n" "wire (JObj kvs) \<noteq> JBool b"
  by simp_all

lemma is_array_wire [simp]: "is_array (wire v) = is_array v"
  by (cases v) (auto split: jnum.splits)

lemma truthy_wire_JObj [simp]: "truthy (wire (JObj kvs))"
  by simp

text \<open>What a property of the sent object reads on the other side.\<close>

lemma keys_wire:
  "keys (map (\<lambda>e. (fst e, wire (snd e))) (filter (\<lambda>e. snd e \<noteq> JUndef) kvs)) =
   keys (filter (\<lambda>e. snd e \<noteq> JUndef) kvs)"
  by (induction kvs) auto

lemma look_wire:
  "distinct (keys kvs) \<Longrightarrow>
   look (map (\<lambda>e. (fst e, wire (snd e))) (filter (\<lambda>e. snd e \<noteq> JUndef) kvs)) k =
   wire (look kvs k)"
proof (induction kvs)
  case Nil
  show ?case by simp
next
  case (Cons e kvs)
  show ?case
  proof (cases "snd e = JUndef \<and> fst e = k")
    case True
    with Cons.prems have "look kvs k = JUndef" by (auto intro: look_notin)
    with True Cons show ?thesis by (cases e) auto
  next
    case False
    with Cons show ?thesis by (cases e) auto
  qed
qed

lemma js_get_wire:
  "distinct (keys kvs) \<Longrightarrow> js_get (wire (JObj kvs)) k = Some (wire (look kvs k))"
  by (simp add: look_wire)

lemma object_keys_wire:
  "object_keys (wire (JObj kvs)) = Some (keys (filter (\<lambda>e. snd e \<noteq> JUndef) kvs))"
  by (simp add: object_keys_def keys_wire)

declare wire.simps(7) [simp del]

section \<open>Values that survive the wire\<close>

text \<open>\<open>json_val\<close>: what \<open>JSON.parse\<close> can return. \<open>field_ok\<close>: such a value, so not undefined.\<close>

fun json_val :: "jsv \<Rightarrow> bool" where
  "json_val JUndef = False"
| "json_val JNull = True"
| "json_val (JBool b) = True"
| "json_val (JNum n) = (case n of Fin q \<Rightarrow> True | _ \<Rightarrow> False)"
| "json_val (JStr s) = True"
| "json_val (JArr vs) = list_all json_val vs"
| "json_val (JObj kvs) = (distinct (keys kvs) \<and> list_all (\<lambda>e. json_val (snd e)) kvs)"

lemma json_val_wire [simp]: "json_val v \<Longrightarrow> wire v = v"
proof (induction v rule: wire.induct)
  case (6 vs)
  have "JUndef \<notin> set vs"
    using 6(2) by (auto simp: list_all_iff)
  with 6 show ?case by (auto simp: list_all_iff intro!: map_idI)
next
  case (7 kvs)
  have keep: "filter (\<lambda>e. snd e \<noteq> JUndef) kvs = kvs"
    using 7(2) by (auto simp: list_all_iff filter_id_conv)
  have "map (\<lambda>e. (fst e, wire (snd e))) kvs = kvs"
    using 7(1) 7(2) unfolding keep by (auto simp: list_all_iff intro!: map_idI)
  then show ?case by (simp only: wire.simps(7) keep)
qed (auto split: jnum.splits)

lemma json_val_not_undef [simp]: "json_val v \<Longrightarrow> v \<noteq> JUndef"
  by auto

lemma wire_idem [simp]: "wire (wire v) = wire v"
proof (induction v rule: wire.induct)
  case (6 vs)
  then show ?case by auto
next
  case (7 kvs)
  then show ?case by (simp add: wire.simps(7) filter_map comp_def)
qed (auto split: jnum.splits)

definition field_ok :: "jsv \<Rightarrow> bool" where
  "field_ok v \<longleftrightarrow> v \<noteq> JUndef \<and> wire v = v"

definition opt_field_ok :: "jsv \<Rightarrow> bool" where
  "opt_field_ok v \<longleftrightarrow> wire v = v"

lemma field_okD [dest]: "field_ok v \<Longrightarrow> v \<noteq> JUndef \<and> wire v = v"
  by (simp add: field_ok_def)

lemma opt_field_okD [dest]: "opt_field_ok v \<Longrightarrow> wire v = v"
  by (simp add: opt_field_ok_def)

lemma field_ok_prims [simp]:
  "field_ok (JStr s)" "field_ok (JBool b)" "field_ok (JNum (Fin q))" "field_ok JNull"
  "\<not> field_ok JUndef"
  by (simp_all add: field_ok_def)

lemma json_val_field_ok: "json_val v \<Longrightarrow> field_ok v"
  by (simp add: field_ok_def)

section \<open>The contract of a configuration class\<close>

text \<open>\<open>v.map(f)\<close>: a TypeError unless v is an array.\<close>

fun js_map :: "(jsv \<Rightarrow> 'a option) \<Rightarrow> jsv \<Rightarrow> 'a list option" where
  "js_map f (JArr vs) = mapM f vs"
| "js_map f _ = None"

text \<open>
  \<open>XrayCommonClass.toJsonArray\<close>. An encoder that throws is None, like a decoder.
\<close>

definition toJsonArray :: "('a \<Rightarrow> jsv option) \<Rightarrow> 'a list \<Rightarrow> jsv option" where
  "toJsonArray enc xs = do { vs \<leftarrow> mapM enc xs; Some (JArr vs) }"

locale json_codec =
  fixes enc :: "'a \<Rightarrow> jsv option"
    and dec :: "jsv \<Rightarrow> 'a option"
    and ok :: "'a \<Rightarrow> bool"
  assumes enc_total: "ok x \<Longrightarrow> \<exists>v. enc x = Some v \<and> v \<noteq> JUndef"
    and dec_enc: "ok x \<Longrightarrow> enc x = Some v \<Longrightarrow> dec (wire v) = Some x"
begin

lemma saved:
  assumes "ok x"
  obtains v where "enc x = Some v" "v \<noteq> JUndef" "dec (wire v) = Some x"
  using enc_total [OF assms] dec_enc [OF assms] by blast

lemma enc_inject:
  assumes "ok x" and "ok y" and "enc x = Some v" and "enc y = Some w" and "wire v = wire w"
  shows "x = y"
  using dec_enc [OF assms(1,3)] dec_enc [OF assms(2,4)] assms(5) by simp

text \<open>Loading what was saved and saving it again sends the same object.\<close>

lemma resave:
  "ok x \<Longrightarrow> enc x = Some v \<Longrightarrow> dec (wire v) = Some y \<Longrightarrow> enc y = Some v"
  using dec_enc [of x v] by simp

lemma array_saved:
  "list_all ok xs \<Longrightarrow> \<exists>vs. mapM enc xs = Some vs \<and> JUndef \<notin> set vs \<and> mapM dec (map wire vs) = Some xs"
proof (induction xs)
  case (Cons x xs)
  then show ?case using saved [of x] by fastforce
qed simp

lemma array_roundtrip:
  assumes "list_all ok xs"
  shows "\<exists>v. toJsonArray enc xs = Some v \<and> v \<noteq> JUndef \<and> is_array v \<and> js_map dec (wire v) = Some xs"
proof -
  obtain vs where vs: "mapM enc xs = Some vs" "JUndef \<notin> set vs" "mapM dec (map wire vs) = Some xs"
    using array_saved [OF assms] by blast
  then have "map (\<lambda>v. if v = JUndef then JNull else wire v) vs = map wire vs"
    by (intro map_cong) auto
  then have "js_map dec (wire (JArr vs)) = Some xs" using vs(3) by (simp only: wire.simps js_map.simps)
  with vs(1) show ?thesis by (simp add: toJsonArray_def)
qed

end

end
