(* ===== verification/JsConvert.thy ===== *)
theory JsConvert
  imports Wire
begin

text \<open>
  Conversions of the language between its types: ToNumber, ToString and the comparisons
  that use them. A finite number is a rational here, and its decimal text is exact where it
  has one with at most twenty fractional digits (every integer and every number the panel's
  forms produce); beyond that the digits are cut off.
\<close>

section \<open>Numbers from text\<close>

definition read_digits :: "string \<Rightarrow> string \<times> string" where
  "read_digits s = (takeWhile is_digit s, dropWhile is_digit s)"

fun read_sign :: "string \<Rightarrow> rat \<times> string" where
  "read_sign (CHR ''-'' # s) = (- 1, s)"
| "read_sign (CHR ''+'' # s) = (1, s)"
| "read_sign s = (1, s)"

fun read_fraction :: "string \<Rightarrow> string \<times> string" where
  "read_fraction (CHR ''.'' # s) = read_digits s"
| "read_fraction s = ('''', s)"

definition rat_pow10 :: "int \<Rightarrow> rat" where
  "rat_pow10 e = (if 0 \<le> e then 10 ^ nat e else 1 / 10 ^ nat (- e))"

text \<open>The exponent part; None when there is text after it that is none.\<close>

fun read_exponent :: "string \<Rightarrow> int option" where
  "read_exponent '''' = Some 0"
| "read_exponent (c # s) =
     (if c = CHR ''e'' \<or> c = CHR ''E''
      then (let (sg, r) = read_sign s in
            if r \<noteq> '''' \<and> list_all is_digit r then Some (\<lfloor>sg\<rfloor> * int (read_nat r)) else None)
      else None)"

definition read_decimal :: "string \<Rightarrow> rat option" where
  "read_decimal s =
     (let (whole, r) = read_digits s; (frac, r) = read_fraction r in
      if whole = '''' \<and> frac = '''' then None
      else do { e \<leftarrow> read_exponent r;
                Some ((of_nat (read_nat whole) + of_nat (read_nat frac) / 10 ^ length frac) * rat_pow10 e) })"

definition hex_val :: "char \<Rightarrow> nat option" where
  "hex_val c = (let n = of_char c :: nat in
     if 48 \<le> n \<and> n \<le> 57 then Some (n - 48)
     else if 97 \<le> n \<and> n \<le> 102 then Some (n - 87)
     else if 65 \<le> n \<and> n \<le> 70 then Some (n - 55) else None)"

definition read_radix :: "nat \<Rightarrow> string \<Rightarrow> rat option" where
  "read_radix b s =
     (if s = '''' then None
      else do { ds \<leftarrow> mapM hex_val s;
                if list_all (\<lambda>d. d < b) ds then Some (of_nat (foldl (\<lambda>n d. b * n + d) 0 ds)) else None })"

definition fin_or_nan :: "rat option \<Rightarrow> jnum" where
  "fin_or_nan v = (case v of None \<Rightarrow> NaN | Some q \<Rightarrow> Fin q)"

definition str_to_number :: "string \<Rightarrow> jnum" where
  "str_to_number s =
     (let t = trim s; p = take 2 t in
      if t = '''' then Fin 0
      else if p = ''0x'' \<or> p = ''0X'' then fin_or_nan (read_radix 16 (drop 2 t))
      else if p = ''0o'' \<or> p = ''0O'' then fin_or_nan (read_radix 8 (drop 2 t))
      else if p = ''0b'' \<or> p = ''0B'' then fin_or_nan (read_radix 2 (drop 2 t))
      else (let (sg, r) = read_sign t in
            if r = ''Infinity'' then Inf (0 < sg)
            else fin_or_nan (map_option ((*) sg) (read_decimal r))))"

section \<open>Text from values\<close>

definition rat_floor :: "rat \<Rightarrow> int" where
  "rat_floor q = (case quotient_of q of (a, b) \<Rightarrow> a div b)"

lemma rat_floor_floor: "rat_floor q = \<lfloor>q\<rfloor>"
proof -
  obtain a b where q: "quotient_of q = (a, b)" by (cases "quotient_of q")
  then have "q = of_int a / of_int b" by (rule quotient_of_div)
  then show ?thesis using q by (simp add: rat_floor_def floor_divide_of_int_eq)
qed

fun show_fraction :: "nat \<Rightarrow> rat \<Rightarrow> string" where
  "show_fraction 0 q = ''''"
| "show_fraction (Suc n) q =
     (if q = 0 then ''''
      else (let d = rat_floor (10 * q) in show_nat (nat d) @ show_fraction n (10 * q - of_int d)))"

definition show_rat :: "rat \<Rightarrow> string" where
  "show_rat q =
     (let a = \<bar>q\<bar>; i = rat_floor a; f = a - of_int i in
      (if q < 0 then ''-'' else '''') @ show_nat (nat i) @
      (if f = 0 then '''' else ''.'' @ show_fraction 20 f))"

fun show_num :: "jnum \<Rightarrow> string" where
  "show_num (Fin q) = show_rat q"
| "show_num NaN = ''NaN''"
| "show_num (Inf pos) = (if pos then ''Infinity'' else ''-Infinity'')"

function js_to_string :: "jsv \<Rightarrow> string" where
  "js_to_string JUndef = ''undefined''"
| "js_to_string JNull = ''null''"
| "js_to_string (JBool b) = (if b then ''true'' else ''false'')"
| "js_to_string (JNum n) = show_num n"
| "js_to_string (JStr s) = s"
| "js_to_string (JArr vs) =
     join '','' (map (\<lambda>v. if v = JUndef \<or> v = JNull then '''' else js_to_string v) vs)"
| "js_to_string (JObj _) = ''[object Object]''"
  by pat_completeness auto
termination
proof (relation "measure size")
  fix vs :: "jsv list" and v
  assume "v \<in> set vs"
  then have "size v \<le> size_list size vs" by (induction vs) auto
  then show "(v, JArr vs) \<in> measure size" by simp
qed auto

fun js_to_number :: "jsv \<Rightarrow> jnum" where
  "js_to_number JUndef = NaN"
| "js_to_number JNull = Fin 0"
| "js_to_number (JBool b) = Fin (if b then 1 else 0)"
| "js_to_number (JNum n) = n"
| "js_to_number (JStr s) = str_to_number s"
| "js_to_number v = str_to_number (js_to_string v)"

section \<open>Comparisons\<close>

fun num_less :: "jnum \<Rightarrow> jnum \<Rightarrow> bool" where
  "num_less (Fin a) (Fin b) = (a < b)"
| "num_less (Fin a) (Inf pos) = pos"
| "num_less (Inf pos) (Fin b) = (\<not> pos)"
| "num_less (Inf a) (Inf b) = (\<not> a \<and> b)"
| "num_less _ _ = False"

text \<open>\<open>a < b\<close> where at least one operand is a number, and its mirror and negations.\<close>

definition js_lt :: "jsv \<Rightarrow> jsv \<Rightarrow> bool" where
  "js_lt a b = num_less (js_to_number a) (js_to_number b)"

definition js_gt :: "jsv \<Rightarrow> jsv \<Rightarrow> bool" where
  "js_gt a b = js_lt b a"

definition is_nullish :: "jsv \<Rightarrow> bool" where
  "is_nullish v \<longleftrightarrow> v = JUndef \<or> v = JNull"

lemma js_lt_numbers [simp]: "js_lt (JNum (Fin a)) (JNum (Fin b)) \<longleftrightarrow> a < b"
  by (simp add: js_lt_def)

lemma js_gt_numbers [simp]: "js_gt (JNum (Fin a)) (JNum (Fin b)) \<longleftrightarrow> b < a"
  by (simp add: js_gt_def)

lemma is_nullish_simps [simp]:
  "is_nullish JUndef" "is_nullish JNull" "\<not> is_nullish (JStr s)" "\<not> is_nullish (JNum n)"
  "\<not> is_nullish (JBool b)" "\<not> is_nullish (JArr vs)" "\<not> is_nullish (JObj kvs)"
  by (simp_all add: is_nullish_def)

section \<open>Small operations on arrays and parameters\<close>

text \<open>A parameter whose default is a new object; \<open>xs.splice(i, 1)\<close>.\<close>

definition opt_new :: "'a option \<Rightarrow> 'a \<Rightarrow> 'a" where
  "opt_new v d = (case v of None \<Rightarrow> d | Some x \<Rightarrow> x)"

lemma opt_new_simps [simp]: "opt_new None d = d" "opt_new (Some x) d = x"
  by (simp_all add: opt_new_def)

definition splice1 :: "nat \<Rightarrow> 'a list \<Rightarrow> 'a list" where
  "splice1 i xs = take i xs @ drop (Suc i) xs"

lemma length_splice1: "length (splice1 i xs) = (if i < length xs then length xs - 1 else length xs)"
  by (simp add: splice1_def)

lemma splice1_snoc [simp]: "splice1 (length xs) (xs @ [x]) = xs"
  by (simp add: splice1_def)

fun is_string :: "jsv \<Rightarrow> bool" where
  "is_string (JStr _) = True"
| "is_string _ = False"

lemma is_string_iff: "is_string v \<longleftrightarrow> (\<exists>s. v = JStr s)"
  by (cases v) auto

section \<open>Building the contract of a class\<close>

lemma json_codecI:
  assumes "\<And>x. ok x \<Longrightarrow> \<exists>v. enc x = Some v \<and> v \<noteq> JUndef \<and> dec (wire v) = Some x"
  shows "json_codec enc dec ok"
  using assms by unfold_locales force+

lemma json_codec_totalI:
  assumes "\<And>x. ok x \<Longrightarrow> dec (wire (enc x)) = Some x" and "\<And>x. enc x \<noteq> JUndef"
  shows "json_codec (\<lambda>x. Some (enc x)) dec ok"
  using assms by unfold_locales auto

end
