(* ===== verification/XrayCommon.thy ===== *)
theory XrayCommon
  imports JsConvert "HOL-Library.Multiset"
begin

text \<open>
  XrayCommonClass of web/assets/js/model/inbound.js: the conversion between the header
  list that the forms edit and the header object of the configuration. A header value of
  the object is a string or a list of strings; the form has one row for each value.
\<close>

section \<open>Header rows\<close>

record header =
  h_name :: string
  h_value :: jsv

definition isEmpty :: "jsv \<Rightarrow> bool" where
  "isEmpty v \<longleftrightarrow> v = JNull \<or> v = JUndef \<or> v = JStr ''''"

text \<open>
  The names every object inherits, for which \<open>in\<close> holds on an empty object.
\<close>

definition proto_names :: "string list" where
  "proto_names = [''__proto__'', ''constructor'', ''hasOwnProperty'', ''isPrototypeOf'',
     ''propertyIsEnumerable'', ''toLocaleString'', ''toString'', ''valueOf'',
     ''__defineGetter__'', ''__defineSetter__'', ''__lookupGetter__'', ''__lookupSetter__'']"

text \<open>
  The elements that \<open>for (i = 0; i < v.length; ++i) v[i]\<close> visits. A value that is neither
  string nor array has no length here, and the loop does not run on it.
\<close>

fun loop_elems :: "jsv \<Rightarrow> jsv list option" where
  "loop_elems JUndef = None"
| "loop_elems JNull = None"
| "loop_elems (JArr vs) = Some vs"
| "loop_elems (JStr s) = Some (map (\<lambda>c. JStr [c]) s)"
| "loop_elems _ = Some []"

definition header_rows :: "string \<times> jsv \<Rightarrow> header list option" where
  "header_rows e = (case snd e of
     JStr s \<Rightarrow> Some [\<lparr>h_name = fst e, h_value = JStr s\<rparr>]
   | v \<Rightarrow> do { vs \<leftarrow> loop_elems v; Some (map (\<lambda>x. \<lparr>h_name = fst e, h_value = x\<rparr>) vs) })"

definition toHeaders :: "jsv \<Rightarrow> header list option" where
  "toHeaders v2Headers =
     (if truthy v2Headers
      then do { rows \<leftarrow> mapM header_rows (own_entries v2Headers); Some (concat rows) }
      else Some [])"

text \<open>
  One row put into the object. A name that the object inherits is never set as a list: the
  inherited value has no \<open>push\<close>, and the call throws.
\<close>

definition put_header :: "bool \<Rightarrow> entries \<Rightarrow> header \<Rightarrow> entries option" where
  "put_header arr v2 h =
     (let name = h_name h; value = h_value h in
      if isEmpty (JStr name) \<or> isEmpty value then Some v2
      else if name \<notin> set (keys v2) \<and> name \<notin> set proto_names
      then Some (obj_set v2 name (if arr then JArr [value] else value))
      else if arr
      then (case look v2 name of
              JArr vs \<Rightarrow> Some (obj_set v2 name (JArr (vs @ [value])))
            | _ \<Rightarrow> None)
      else if name = ''__proto__'' then Some v2
      else Some (obj_set v2 name value))"

definition toV2Headers :: "header list \<Rightarrow> bool \<Rightarrow> entries option" where
  "toV2Headers headers arr =
     foldl (\<lambda>v2 h. Option.bind v2 (\<lambda>v2. put_header arr v2 h)) (Some []) headers"

section \<open>The rows that survive\<close>

definition header_ok :: "header \<Rightarrow> bool" where
  "header_ok h \<longleftrightarrow> h_name h \<noteq> '''' \<and> h_name h \<notin> set proto_names \<and>
     (\<exists>s. h_value h = JStr s \<and> s \<noteq> '''')"

text \<open>Rows grouped by name, the names in the order of their first rows.\<close>

definition rows_of :: "string \<Rightarrow> header list \<Rightarrow> header list" where
  "rows_of n hs = filter (\<lambda>h. h_name h = n) hs"

definition first_names :: "header list \<Rightarrow> string list" where
  "first_names hs = foldl (\<lambda>ns h. if h_name h \<in> set ns then ns else ns @ [h_name h]) [] hs"

definition group_headers :: "header list \<Rightarrow> header list" where
  "group_headers hs = concat (map (\<lambda>n. rows_of n hs) (first_names hs))"

definition grouped_object :: "header list \<Rightarrow> entries" where
  "grouped_object hs = map (\<lambda>n. (n, JArr (map h_value (rows_of n hs)))) (first_names hs)"

lemma first_names_snoc:
  "first_names (hs @ [h]) =
   (if h_name h \<in> set (first_names hs) then first_names hs else first_names hs @ [h_name h])"
  by (simp add: first_names_def)

lemma first_names_Nil [simp]: "first_names [] = []"
  by (simp add: first_names_def)

lemma set_first_names: "set (first_names hs) = h_name ` set hs"
  by (induction hs rule: rev_induct) (auto simp: first_names_snoc)

lemma distinct_first_names: "distinct (first_names hs)"
  by (induction hs rule: rev_induct) (auto simp: first_names_snoc)

lemma rows_of_snoc:
  "rows_of n (hs @ [h]) = (if h_name h = n then rows_of n hs @ [h] else rows_of n hs)"
  by (simp add: rows_of_def)

lemma toV2Headers_snoc:
  "toV2Headers (hs @ [h]) arr = Option.bind (toV2Headers hs arr) (\<lambda>v2. put_header arr v2 h)"
  by (simp add: toV2Headers_def)

lemma toV2Headers_Nil [simp]: "toV2Headers [] arr = Some []"
  by (simp add: toV2Headers_def)

lemma keys_map_pair: "keys (map (\<lambda>n. (n, f n)) ns) = ns"
  by (induction ns) auto

lemma look_map_pair: "look (map (\<lambda>n. (n, f n)) ns) n = (if n \<in> set ns then f n else JUndef)"
  by (induction ns) auto

lemma obj_set_map_pair:
  "distinct ns \<Longrightarrow> n \<in> set ns \<Longrightarrow>
   obj_set (map (\<lambda>n. (n, f n)) ns) n v = map (\<lambda>m. (m, if m = n then v else f m)) ns"
  by (induction ns) auto

lemma rows_of_fresh: "n \<notin> set (first_names hs) \<Longrightarrow> rows_of n hs = []"
  by (auto simp: rows_of_def set_first_names filter_empty_conv)

text \<open>In list mode the object holds each name once, with all its values in row order.\<close>

lemma toV2Headers_grouped:
  "list_all header_ok hs \<Longrightarrow> toV2Headers hs True = Some (grouped_object hs)"
proof (induction hs rule: rev_induct)
  case Nil
  show ?case by (simp add: grouped_object_def)
next
  case (snoc h hs)
  then have IH: "toV2Headers hs True = Some (grouped_object hs)" and h: "header_ok h" by auto
  from h have ne: "\<not> isEmpty (JStr (h_name h))" "\<not> isEmpty (h_value h)"
    "h_name h \<notin> set proto_names" by (auto simp: header_ok_def isEmpty_def)
  show ?case
  proof (cases "h_name h \<in> set (first_names hs)")
    case False
    then have "put_header True (grouped_object hs) h =
        Some (grouped_object hs @ [(h_name h, JArr [h_value h])])"
      using ne by (simp add: put_header_def grouped_object_def keys_map_pair obj_set_fresh)
    moreover have "grouped_object (hs @ [h]) = grouped_object hs @ [(h_name h, JArr [h_value h])]"
      using False by (auto simp: grouped_object_def first_names_snoc rows_of_snoc rows_of_fresh)
    ultimately show ?thesis by (simp add: toV2Headers_snoc IH)
  next
    case True
    then have "put_header True (grouped_object hs) h = Some (map (\<lambda>m. (m,
        if m = h_name h then JArr (map h_value (rows_of (h_name h) hs) @ [h_value h])
        else JArr (map h_value (rows_of m hs)))) (first_names hs))"
      using ne by (simp add: put_header_def Let_def grouped_object_def keys_map_pair look_map_pair
          obj_set_map_pair distinct_first_names)
    also have "\<dots> = Some (grouped_object (hs @ [h]))"
      using True by (auto simp: grouped_object_def first_names_snoc rows_of_snoc)
    finally show ?thesis by (simp add: toV2Headers_snoc IH)
  qed
qed

lemma header_rows_list:
  "list_all (\<lambda>h. h_name h = n) hs \<Longrightarrow> header_rows (n, JArr (map h_value hs)) = Some hs"
  by (auto simp: header_rows_def list_all_iff intro!: map_idI)

lemma wire_grouped:
  "list_all header_ok hs \<Longrightarrow> wire (JObj (grouped_object hs)) = JObj (grouped_object hs)"
  by (auto simp: wire.simps(7) grouped_object_def rows_of_def header_ok_def list_all_iff comp_def)

lemma toHeaders_grouped:
  assumes "list_all header_ok hs"
  shows "toHeaders (wire (JObj (grouped_object hs))) = Some (group_headers hs)"
proof -
  have "mapM header_rows (grouped_object hs) = Some (map (\<lambda>n. rows_of n hs) (first_names hs))"
    unfolding grouped_object_def
    by (intro mapM_Some_map header_rows_list) (simp add: rows_of_def list_all_iff)
  then show ?thesis
    by (simp add: wire_grouped [OF assms] toHeaders_def group_headers_def)
qed

lemma mset_rows_of:
  "n \<notin> N \<Longrightarrow> mset (rows_of n hs) + mset (filter (\<lambda>h. h_name h \<in> N) hs) =
    mset (filter (\<lambda>h. h_name h \<in> insert n N) hs)"
  by (induction hs) (auto simp: rows_of_def)

lemma mset_group_headers: "mset (group_headers hs) = mset hs"
proof -
  have "mset (concat (map (\<lambda>n. rows_of n hs) ns)) = mset (filter (\<lambda>h. h_name h \<in> set ns) hs)"
    if "distinct ns" for ns
    using that
  proof (induction ns)
    case (Cons n ns)
    then show ?case using mset_rows_of [of n "set ns" hs] by simp
  qed simp
  from this [OF distinct_first_names, of hs]
  have "mset (group_headers hs) = mset (filter (\<lambda>h. h_name h \<in> h_name ` set hs) hs)"
    by (simp only: group_headers_def set_first_names)
  also have "filter (\<lambda>h. h_name h \<in> h_name ` set hs) hs = hs" by simp
  finally show ?thesis .
qed

text \<open>In single-value mode with distinct names nothing is lost and the order is kept.\<close>

definition header_object :: "header list \<Rightarrow> entries" where
  "header_object hs = map (\<lambda>h. (h_name h, h_value h)) hs"

lemma keys_header_object: "keys (header_object hs) = map h_name hs"
  by (induction hs) (auto simp: header_object_def)

lemma toV2Headers_single:
  "list_all header_ok hs \<Longrightarrow> distinct (map h_name hs) \<Longrightarrow>
   toV2Headers hs False = Some (header_object hs)"
proof (induction hs rule: rev_induct)
  case Nil
  show ?case by (simp add: header_object_def)
next
  case (snoc h hs)
  then have IH: "toV2Headers hs False = Some (header_object hs)"
    and h: "header_ok h" "h_name h \<notin> set (keys (header_object hs))"
    by (auto simp: keys_header_object)
  then have "put_header False (header_object hs) h = Some (header_object hs @ [(h_name h, h_value h)])"
    by (auto simp: put_header_def header_ok_def isEmpty_def Let_def obj_set_fresh)
  then show ?case by (simp add: toV2Headers_snoc IH) (simp add: header_object_def)
qed

lemma toHeaders_single:
  assumes "list_all header_ok hs"
  shows "toHeaders (wire (JObj (header_object hs))) = Some hs"
proof -
  have w: "wire (JObj (header_object hs)) = JObj (header_object hs)"
    using assms by (induction hs) (auto simp: wire.simps(7) header_object_def header_ok_def)
  have "mapM header_rows (header_object hs) = Some (map (\<lambda>h. [h]) hs)"
    unfolding header_object_def
    using assms by (intro mapM_Some_map) (auto simp: header_rows_def header_ok_def list_all_iff)
  then show ?thesis by (simp add: w toHeaders_def)
qed

section \<open>Header lists that a class can save\<close>

definition single_headers_ok :: "header list \<Rightarrow> bool" where
  "single_headers_ok hs \<longleftrightarrow> list_all header_ok hs \<and> distinct (map h_name hs)"

definition multi_headers_ok :: "header list \<Rightarrow> bool" where
  "multi_headers_ok hs \<longleftrightarrow> list_all header_ok hs \<and> group_headers hs = hs"

lemma single_headers:
  "single_headers_ok hs \<Longrightarrow> toV2Headers hs False = Some (header_object hs)"
  "single_headers_ok hs \<Longrightarrow> toHeaders (wire (JObj (header_object hs))) = Some hs"
  by (simp_all add: single_headers_ok_def toV2Headers_single toHeaders_single)

lemma multi_headers:
  "multi_headers_ok hs \<Longrightarrow> toV2Headers hs True = Some (grouped_object hs)"
  "multi_headers_ok hs \<Longrightarrow> toHeaders (wire (JObj (grouped_object hs))) = Some hs"
  by (simp_all add: multi_headers_ok_def toV2Headers_grouped toHeaders_grouped)

section \<open>Any header list\<close>

definition blank_row :: "header \<Rightarrow> bool" where
  "blank_row h \<longleftrightarrow> h_name h = '''' \<or> isEmpty (h_value h)"

definition filled_rows :: "header list \<Rightarrow> header list" where
  "filled_rows hs = filter (\<lambda>h. \<not> blank_row h) hs"

lemma put_blank [simp]: "blank_row h \<Longrightarrow> put_header arr v2 h = Some v2"
  by (auto simp: put_header_def blank_row_def isEmpty_def)

lemma toV2Headers_filled: "toV2Headers hs arr = toV2Headers (filled_rows hs) arr"
proof (induction hs rule: rev_induct)
  case (snoc h hs)
  then show ?case by (cases "blank_row h") (simp_all add: toV2Headers_snoc filled_rows_def)
qed (simp add: filled_rows_def)

lemma rows_of_append: "rows_of n (xs @ ys) = rows_of n xs @ rows_of n ys"
  by (simp add: rows_of_def)

lemma rows_of_rows: "rows_of n (rows_of m hs) = (if n = m then rows_of n hs else [])"
  by (auto simp: rows_of_def filter_empty_conv)

lemma rows_of_grouped: "rows_of n (group_headers hs) = rows_of n hs"
proof -
  have "rows_of n (concat (map (\<lambda>m. rows_of m hs) ns)) = (if n \<in> set ns then rows_of n hs else [])"
    if "distinct ns" for ns
    using that by (induction ns) (auto simp: rows_of_append rows_of_rows, auto simp: rows_of_def)
  then show ?thesis
    using rows_of_fresh [of n hs] by (simp add: group_headers_def distinct_first_names)
qed

definition list_object :: "entries \<Rightarrow> bool" where
  "list_object v2 \<longleftrightarrow> list_all (\<lambda>e. is_array (snd e) \<and> fst e \<notin> set proto_names) v2"

lemma list_object_look: "list_object v2 \<Longrightarrow> n \<in> set (keys v2) \<Longrightarrow> is_array (look v2 n) \<and> n \<notin> set proto_names"
  by (induction v2) (auto simp: list_object_def)

lemma list_object_set: "list_object v2 \<Longrightarrow> n \<notin> set proto_names \<Longrightarrow> list_object (obj_set v2 n (JArr vs))"
  by (induction v2) (auto simp: list_object_def)

lemma put_header_list:
  assumes "list_object v2"
  shows "case put_header True v2 h of
     None \<Rightarrow> \<not> blank_row h \<and> h_name h \<in> set proto_names
   | Some v3 \<Rightarrow> list_object v3 \<and> (blank_row h \<or> h_name h \<notin> set proto_names)"
proof (cases "h_name h \<in> set (keys v2)")
  case True
  then obtain vs where "look v2 (h_name h) = JArr vs" "h_name h \<notin> set proto_names"
    using list_object_look [OF assms True] by (cases "look v2 (h_name h)") auto
  then show ?thesis using assms True list_object_set [OF assms]
    by (auto simp: put_header_def blank_row_def Let_def isEmpty_def)
next
  case False
  then have "look v2 (h_name h) = JUndef" by (simp add: look_notin)
  then show ?thesis using False assms list_object_set [OF assms]
    by (auto simp: put_header_def blank_row_def Let_def isEmpty_def)
qed

lemma toV2Headers_list:
  "case toV2Headers hs True of
     None \<Rightarrow> \<exists>h \<in> set hs. \<not> blank_row h \<and> h_name h \<in> set proto_names
   | Some v2 \<Rightarrow> list_object v2 \<and> (\<forall>h \<in> set hs. blank_row h \<or> h_name h \<notin> set proto_names)"
proof (induction hs rule: rev_induct)
  case (snoc h hs)
  then show ?case
  proof (cases "toV2Headers hs True")
    case (Some v2)
    then show ?thesis using snoc put_header_list [of v2 h]
      by (cases "put_header True v2 h") (auto simp: toV2Headers_snoc)
  qed (simp add: toV2Headers_snoc)
qed (simp add: list_object_def)

text \<open>
  C15: saving a header list as lists and loading it loses only blank rows. For rows with string
  values and no name inherited by every object, \<open>toV2Headers\<close> followed by \<open>toHeaders\<close> of
  the saved object returns a rearrangement of exactly the rows with a name and a value, and
  the rows of each name keep their order.
\<close>
theorem headers_saved:
  assumes "list_all (\<lambda>h. h_name h \<notin> set proto_names \<and> (\<exists>s. h_value h = JStr s)) hs"
  shows "\<exists>v2 rows. toV2Headers hs True = Some v2 \<and> toHeaders (wire (JObj v2)) = Some rows \<and>
    mset rows = mset (filled_rows hs) \<and> (\<forall>n. rows_of n rows = rows_of n (filled_rows hs))"
proof -
  have ok: "list_all header_ok (filled_rows hs)"
    using assms by (auto simp: list_all_iff filled_rows_def blank_row_def header_ok_def isEmpty_def)
  show ?thesis
    using toV2Headers_grouped [OF ok] toHeaders_grouped [OF ok]
    by (subst toV2Headers_filled) (auto simp: mset_group_headers rows_of_grouped)
qed

theorem headers_saved_witness:
  "let row = (\<lambda>n v. \<lparr>h_name = n, h_value = JStr v\<rparr>);
       hs = [row ''Host'' ''a.com'', row ''Accept'' ''x'', row ''Host'' '''', row ''Host'' ''b.com'']
   in \<exists>v2 rows. toV2Headers hs True = Some v2 \<and> toHeaders (wire (JObj v2)) = Some rows \<and>
        mset rows = mset (filled_rows hs) \<and> (\<forall>n. rows_of n rows = rows_of n (filled_rows hs))"
  unfolding Let_def by (rule headers_saved) (simp add: proto_names_def)

text \<open>
  \<open>toV2Headers\<close> in list mode throws exactly when a filled row has a name that every
  JavaScript object inherits, such as "constructor": \<open>in\<close> finds the inherited member, and that
  member has no \<open>push\<close>. It never throws otherwise.
\<close>
theorem toV2Headers_throws:
  "toV2Headers hs True = None \<longleftrightarrow>
    (\<exists>h \<in> set hs. h_name h \<noteq> '''' \<and> \<not> isEmpty (h_value h) \<and> h_name h \<in> set proto_names)"
  using toV2Headers_list [of hs] by (auto simp: blank_row_def split: option.splits)

end
