(* ===== verification/InTransport.thy ===== *)
theory InTransport
  imports XrayCommon
begin

text \<open>
  The transports of an inbound (web/assets/js/model/inbound.js): one record per class with
  the fields of the class, its constructor with the default parameters, \<open>fromJson\<close>, which
  reads every property from the parsed object, and \<open>toJson\<close>. The \<open>ok\<close> predicate of a class
  says that every field holds a value which survives the wire; for such an instance
  \<open>fromJson\<close> inverts \<open>toJson\<close>.
\<close>

section \<open>KcpStreamSettings\<close>

record KcpStreamSettings =
  kcp_mtu :: jsv
  kcp_tti :: jsv
  kcp_upCap :: jsv
  kcp_downCap :: jsv
  kcp_cwndMultiplier :: jsv
  kcp_maxSendingWindow :: jsv

definition new_KcpStreamSettings ::
  "jsv \<Rightarrow> jsv \<Rightarrow> jsv \<Rightarrow> jsv \<Rightarrow> jsv \<Rightarrow> jsv \<Rightarrow>
   KcpStreamSettings" where
  "new_KcpStreamSettings
     mtu tti uplinkCapacity downlinkCapacity cwndMultiplier maxSendingWindow =
     \<lparr>kcp_mtu = dflt mtu (jint 1350),
       kcp_tti = dflt tti (jint 20),
       kcp_upCap = dflt uplinkCapacity (jint 5),
       kcp_downCap = dflt downlinkCapacity (jint 20),
       kcp_cwndMultiplier = dflt cwndMultiplier (jint 1),
       kcp_maxSendingWindow = dflt maxSendingWindow (jint 2097152)\<rparr>"

definition default_KcpStreamSettings :: KcpStreamSettings where
  "default_KcpStreamSettings =
     new_KcpStreamSettings JUndef JUndef JUndef JUndef JUndef JUndef"

definition KcpStreamSettings_fromJson :: "jsv \<Rightarrow> KcpStreamSettings option" where
  "KcpStreamSettings_fromJson json =
     (let json = dflt json (JObj []) in
      do { mtu \<leftarrow> js_get json ''mtu'';
           tti \<leftarrow> js_get json ''tti'';
           uplinkCapacity \<leftarrow> js_get json ''uplinkCapacity'';
           downlinkCapacity \<leftarrow> js_get json ''downlinkCapacity'';
           cwndMultiplier \<leftarrow> js_get json ''cwndMultiplier'';
           maxSendingWindow \<leftarrow> js_get json ''maxSendingWindow'';
           Some (new_KcpStreamSettings mtu tti uplinkCapacity downlinkCapacity cwndMultiplier
            maxSendingWindow) })"

definition KcpStreamSettings_toJson :: "KcpStreamSettings \<Rightarrow> jsv" where
  "KcpStreamSettings_toJson x = JObj
       [(''mtu'', kcp_mtu x),
        (''tti'', kcp_tti x),
        (''uplinkCapacity'', kcp_upCap x),
        (''downlinkCapacity'', kcp_downCap x),
        (''cwndMultiplier'', kcp_cwndMultiplier x),
        (''maxSendingWindow'', kcp_maxSendingWindow x)]"

definition KcpStreamSettings_ok :: "KcpStreamSettings \<Rightarrow> bool" where
  "KcpStreamSettings_ok x \<longleftrightarrow>
     field_ok (kcp_mtu x) \<and>
     field_ok (kcp_tti x) \<and>
     field_ok (kcp_upCap x) \<and>
     field_ok (kcp_downCap x) \<and>
     field_ok (kcp_cwndMultiplier x) \<and>
     field_ok (kcp_maxSendingWindow x)"

lemma KcpStreamSettings_roundtrip: "KcpStreamSettings_ok x \<Longrightarrow> KcpStreamSettings_fromJson (wire (KcpStreamSettings_toJson x)) = Some x"
  by (simp add: KcpStreamSettings_ok_def KcpStreamSettings_toJson_def KcpStreamSettings_fromJson_def new_KcpStreamSettings_def js_get_wire
      field_ok_def opt_new_def)

interpretation kcp_codec: json_codec "\<lambda>x. Some (KcpStreamSettings_toJson x)" KcpStreamSettings_fromJson KcpStreamSettings_ok
  by (rule json_codecI) (simp add: KcpStreamSettings_roundtrip, simp add: KcpStreamSettings_toJson_def)

section \<open>WsStreamSettings\<close>

record WsStreamSettings =
  ws_acceptProxyProtocol :: jsv
  ws_path :: jsv
  ws_host :: jsv
  ws_headers :: "header list"
  ws_heartbeatPeriod :: jsv

definition new_WsStreamSettings ::
  "jsv \<Rightarrow> jsv \<Rightarrow> jsv \<Rightarrow> header list option \<Rightarrow> jsv \<Rightarrow>
   WsStreamSettings" where
  "new_WsStreamSettings
     acceptProxyProtocol path host headers heartbeatPeriod =
     \<lparr>ws_acceptProxyProtocol = dflt acceptProxyProtocol (JBool False),
       ws_path = dflt path (JStr ''/''),
       ws_host = dflt host (JStr ''''),
       ws_headers = opt_new headers [],
       ws_heartbeatPeriod = dflt heartbeatPeriod (jint 0)\<rparr>"

definition default_WsStreamSettings :: WsStreamSettings where
  "default_WsStreamSettings =
     new_WsStreamSettings JUndef JUndef JUndef None JUndef"

definition WsStreamSettings_fromJson :: "jsv \<Rightarrow> WsStreamSettings option" where
  "WsStreamSettings_fromJson json =
     (let json = dflt json (JObj []) in
      do { acceptProxyProtocol \<leftarrow> js_get json ''acceptProxyProtocol'';
           path \<leftarrow> js_get json ''path'';
           host \<leftarrow> js_get json ''host'';
           headers \<leftarrow> js_get json ''headers'';
           hs \<leftarrow> toHeaders headers;
           heartbeatPeriod \<leftarrow> js_get json ''heartbeatPeriod'';
           Some (new_WsStreamSettings acceptProxyProtocol path host (Some hs) heartbeatPeriod) })"

definition WsStreamSettings_toJson :: "WsStreamSettings \<Rightarrow> jsv option" where
  "WsStreamSettings_toJson x =
     do { v2 \<leftarrow> toV2Headers (ws_headers x) False;
          Some (JObj
       [(''acceptProxyProtocol'', ws_acceptProxyProtocol x),
        (''path'', ws_path x),
        (''host'', ws_host x),
        (''headers'', JObj v2),
        (''heartbeatPeriod'', ws_heartbeatPeriod x)]) }"

definition WsStreamSettings_ok :: "WsStreamSettings \<Rightarrow> bool" where
  "WsStreamSettings_ok x \<longleftrightarrow>
     field_ok (ws_acceptProxyProtocol x) \<and>
     field_ok (ws_path x) \<and>
     field_ok (ws_host x) \<and>
     single_headers_ok (ws_headers x) \<and>
     field_ok (ws_heartbeatPeriod x)"

definition WsStreamSettings_addHeader :: "string \<Rightarrow> jsv \<Rightarrow> WsStreamSettings \<Rightarrow> WsStreamSettings" where
  "WsStreamSettings_addHeader name value x = x\<lparr>ws_headers := ws_headers x @ [\<lparr>h_name = name, h_value = value\<rparr>]\<rparr>"

definition WsStreamSettings_removeHeader :: "nat \<Rightarrow> WsStreamSettings \<Rightarrow> WsStreamSettings" where
  "WsStreamSettings_removeHeader index x = x\<lparr>ws_headers := splice1 index (ws_headers x)\<rparr>"

lemma WsStreamSettings_roundtrip:
  "WsStreamSettings_ok x \<Longrightarrow> \<exists>v. WsStreamSettings_toJson x = Some v \<and> v \<noteq> JUndef \<and> WsStreamSettings_fromJson (wire v) = Some x"
  by (simp add: WsStreamSettings_ok_def WsStreamSettings_toJson_def WsStreamSettings_fromJson_def new_WsStreamSettings_def js_get_wire
      single_headers field_ok_def opt_new_def)

interpretation ws_codec: json_codec WsStreamSettings_toJson WsStreamSettings_fromJson WsStreamSettings_ok
  by (rule json_codecI) (rule WsStreamSettings_roundtrip)

section \<open>GrpcStreamSettings\<close>

record GrpcStreamSettings =
  grpc_serviceName :: jsv
  grpc_authority :: jsv
  grpc_multiMode :: jsv

definition new_GrpcStreamSettings ::
  "jsv \<Rightarrow> jsv \<Rightarrow> jsv \<Rightarrow> GrpcStreamSettings" where
  "new_GrpcStreamSettings
     serviceName authority multiMode =
     \<lparr>grpc_serviceName = dflt serviceName (JStr ''''),
       grpc_authority = dflt authority (JStr ''''),
       grpc_multiMode = dflt multiMode (JBool False)\<rparr>"

definition default_GrpcStreamSettings :: GrpcStreamSettings where
  "default_GrpcStreamSettings =
     new_GrpcStreamSettings JUndef JUndef JUndef"

definition GrpcStreamSettings_fromJson :: "jsv \<Rightarrow> GrpcStreamSettings option" where
  "GrpcStreamSettings_fromJson json =
     (let json = dflt json (JObj []) in
      do { serviceName \<leftarrow> js_get json ''serviceName'';
           authority \<leftarrow> js_get json ''authority'';
           multiMode \<leftarrow> js_get json ''multiMode'';
           Some (new_GrpcStreamSettings serviceName authority multiMode) })"

definition GrpcStreamSettings_toJson :: "GrpcStreamSettings \<Rightarrow> jsv" where
  "GrpcStreamSettings_toJson x = JObj
       [(''serviceName'', grpc_serviceName x),
        (''authority'', grpc_authority x),
        (''multiMode'', grpc_multiMode x)]"

definition GrpcStreamSettings_ok :: "GrpcStreamSettings \<Rightarrow> bool" where
  "GrpcStreamSettings_ok x \<longleftrightarrow>
     field_ok (grpc_serviceName x) \<and>
     field_ok (grpc_authority x) \<and>
     field_ok (grpc_multiMode x)"

lemma GrpcStreamSettings_roundtrip: "GrpcStreamSettings_ok x \<Longrightarrow> GrpcStreamSettings_fromJson (wire (GrpcStreamSettings_toJson x)) = Some x"
  by (simp add: GrpcStreamSettings_ok_def GrpcStreamSettings_toJson_def GrpcStreamSettings_fromJson_def new_GrpcStreamSettings_def js_get_wire
      field_ok_def opt_new_def)

interpretation grpc_codec: json_codec "\<lambda>x. Some (GrpcStreamSettings_toJson x)" GrpcStreamSettings_fromJson GrpcStreamSettings_ok
  by (rule json_codecI) (simp add: GrpcStreamSettings_roundtrip, simp add: GrpcStreamSettings_toJson_def)

section \<open>HTTPUpgradeStreamSettings\<close>

record HTTPUpgradeStreamSettings =
  hu_acceptProxyProtocol :: jsv
  hu_path :: jsv
  hu_host :: jsv
  hu_headers :: "header list"

definition new_HTTPUpgradeStreamSettings ::
  "jsv \<Rightarrow> jsv \<Rightarrow> jsv \<Rightarrow> header list option \<Rightarrow>
   HTTPUpgradeStreamSettings" where
  "new_HTTPUpgradeStreamSettings
     acceptProxyProtocol path host headers =
     \<lparr>hu_acceptProxyProtocol = dflt acceptProxyProtocol (JBool False),
       hu_path = dflt path (JStr ''/''),
       hu_host = dflt host (JStr ''''),
       hu_headers = opt_new headers []\<rparr>"

definition default_HTTPUpgradeStreamSettings :: HTTPUpgradeStreamSettings where
  "default_HTTPUpgradeStreamSettings =
     new_HTTPUpgradeStreamSettings JUndef JUndef JUndef None"

definition HTTPUpgradeStreamSettings_fromJson :: "jsv \<Rightarrow> HTTPUpgradeStreamSettings option" where
  "HTTPUpgradeStreamSettings_fromJson json =
     (let json = dflt json (JObj []) in
      do { acceptProxyProtocol \<leftarrow> js_get json ''acceptProxyProtocol'';
           path \<leftarrow> js_get json ''path'';
           host \<leftarrow> js_get json ''host'';
           headers \<leftarrow> js_get json ''headers'';
           hs \<leftarrow> toHeaders headers;
           Some (new_HTTPUpgradeStreamSettings acceptProxyProtocol path host (Some hs)) })"

definition HTTPUpgradeStreamSettings_toJson :: "HTTPUpgradeStreamSettings \<Rightarrow> jsv option" where
  "HTTPUpgradeStreamSettings_toJson x =
     do { v2 \<leftarrow> toV2Headers (hu_headers x) False;
          Some (JObj
       [(''acceptProxyProtocol'', hu_acceptProxyProtocol x),
        (''path'', hu_path x),
        (''host'', hu_host x),
        (''headers'', JObj v2)]) }"

definition HTTPUpgradeStreamSettings_ok :: "HTTPUpgradeStreamSettings \<Rightarrow> bool" where
  "HTTPUpgradeStreamSettings_ok x \<longleftrightarrow>
     field_ok (hu_acceptProxyProtocol x) \<and>
     field_ok (hu_path x) \<and>
     field_ok (hu_host x) \<and>
     single_headers_ok (hu_headers x)"

definition HTTPUpgradeStreamSettings_addHeader :: "string \<Rightarrow> jsv \<Rightarrow> HTTPUpgradeStreamSettings \<Rightarrow> HTTPUpgradeStreamSettings" where
  "HTTPUpgradeStreamSettings_addHeader name value x = x\<lparr>hu_headers := hu_headers x @ [\<lparr>h_name = name, h_value = value\<rparr>]\<rparr>"

definition HTTPUpgradeStreamSettings_removeHeader :: "nat \<Rightarrow> HTTPUpgradeStreamSettings \<Rightarrow> HTTPUpgradeStreamSettings" where
  "HTTPUpgradeStreamSettings_removeHeader index x = x\<lparr>hu_headers := splice1 index (hu_headers x)\<rparr>"

lemma HTTPUpgradeStreamSettings_roundtrip:
  "HTTPUpgradeStreamSettings_ok x \<Longrightarrow> \<exists>v. HTTPUpgradeStreamSettings_toJson x = Some v \<and> v \<noteq> JUndef \<and> HTTPUpgradeStreamSettings_fromJson (wire v) = Some x"
  by (simp add: HTTPUpgradeStreamSettings_ok_def HTTPUpgradeStreamSettings_toJson_def HTTPUpgradeStreamSettings_fromJson_def new_HTTPUpgradeStreamSettings_def js_get_wire
      single_headers field_ok_def opt_new_def)

interpretation hu_codec: json_codec HTTPUpgradeStreamSettings_toJson HTTPUpgradeStreamSettings_fromJson HTTPUpgradeStreamSettings_ok
  by (rule json_codecI) (rule HTTPUpgradeStreamSettings_roundtrip)

section \<open>xHTTPStreamSettings\<close>

record xHTTPStreamSettings =
  xh_path :: jsv
  xh_host :: jsv
  xh_headers :: "header list"
  xh_scMaxBufferedPosts :: jsv
  xh_scMaxEachPostBytes :: jsv
  xh_scStreamUpServerSecs :: jsv
  xh_noSSEHeader :: jsv
  xh_xPaddingBytes :: jsv
  xh_mode :: jsv
  xh_xPaddingObfsMode :: jsv
  xh_xPaddingKey :: jsv
  xh_xPaddingHeader :: jsv
  xh_xPaddingPlacement :: jsv
  xh_xPaddingMethod :: jsv
  xh_uplinkHTTPMethod :: jsv
  xh_sessionPlacement :: jsv
  xh_sessionKey :: jsv
  xh_seqPlacement :: jsv
  xh_seqKey :: jsv
  xh_uplinkDataPlacement :: jsv
  xh_uplinkDataKey :: jsv
  xh_uplinkChunkSize :: jsv

definition new_xHTTPStreamSettings ::
  "jsv \<Rightarrow> jsv \<Rightarrow> header list option \<Rightarrow> jsv \<Rightarrow> jsv \<Rightarrow>
   jsv \<Rightarrow> jsv \<Rightarrow> jsv \<Rightarrow> jsv \<Rightarrow> jsv \<Rightarrow> jsv \<Rightarrow>
   jsv \<Rightarrow> jsv \<Rightarrow> jsv \<Rightarrow> jsv \<Rightarrow> jsv \<Rightarrow> jsv \<Rightarrow>
   jsv \<Rightarrow> jsv \<Rightarrow> jsv \<Rightarrow> jsv \<Rightarrow> jsv \<Rightarrow> xHTTPStreamSettings" where
  "new_xHTTPStreamSettings
     path host headers scMaxBufferedPosts scMaxEachPostBytes scStreamUpServerSecs noSSEHeader
     xPaddingBytes mode xPaddingObfsMode xPaddingKey xPaddingHeader xPaddingPlacement
     xPaddingMethod uplinkHTTPMethod sessionPlacement sessionKey seqPlacement seqKey
     uplinkDataPlacement uplinkDataKey uplinkChunkSize =
     \<lparr>xh_path = dflt path (JStr ''/''),
       xh_host = dflt host (JStr ''''),
       xh_headers = opt_new headers [],
       xh_scMaxBufferedPosts = dflt scMaxBufferedPosts (jint 30),
       xh_scMaxEachPostBytes = dflt scMaxEachPostBytes (JStr ''1000000''),
       xh_scStreamUpServerSecs = dflt scStreamUpServerSecs (JStr ''20-80''),
       xh_noSSEHeader = dflt noSSEHeader (JBool False),
       xh_xPaddingBytes = dflt xPaddingBytes (JStr ''100-1000''),
       xh_mode = dflt mode (JStr ''auto''),
       xh_xPaddingObfsMode = dflt xPaddingObfsMode (JBool False),
       xh_xPaddingKey = dflt xPaddingKey (JStr ''''),
       xh_xPaddingHeader = dflt xPaddingHeader (JStr ''''),
       xh_xPaddingPlacement = dflt xPaddingPlacement (JStr ''''),
       xh_xPaddingMethod = dflt xPaddingMethod (JStr ''''),
       xh_uplinkHTTPMethod = dflt uplinkHTTPMethod (JStr ''''),
       xh_sessionPlacement = dflt sessionPlacement (JStr ''''),
       xh_sessionKey = dflt sessionKey (JStr ''''),
       xh_seqPlacement = dflt seqPlacement (JStr ''''),
       xh_seqKey = dflt seqKey (JStr ''''),
       xh_uplinkDataPlacement = dflt uplinkDataPlacement (JStr ''''),
       xh_uplinkDataKey = dflt uplinkDataKey (JStr ''''),
       xh_uplinkChunkSize = dflt uplinkChunkSize (jint 0)\<rparr>"

definition default_xHTTPStreamSettings :: xHTTPStreamSettings where
  "default_xHTTPStreamSettings =
     new_xHTTPStreamSettings JUndef JUndef None JUndef JUndef JUndef JUndef JUndef JUndef JUndef
     JUndef JUndef JUndef JUndef JUndef JUndef JUndef JUndef JUndef JUndef JUndef JUndef"

definition xHTTPStreamSettings_fromJson :: "jsv \<Rightarrow> xHTTPStreamSettings option" where
  "xHTTPStreamSettings_fromJson json =
     (let json = dflt json (JObj []) in
      do { path \<leftarrow> js_get json ''path'';
           host \<leftarrow> js_get json ''host'';
           headers \<leftarrow> js_get json ''headers'';
           hs \<leftarrow> toHeaders headers;
           scMaxBufferedPosts \<leftarrow> js_get json ''scMaxBufferedPosts'';
           scMaxEachPostBytes \<leftarrow> js_get json ''scMaxEachPostBytes'';
           scStreamUpServerSecs \<leftarrow> js_get json ''scStreamUpServerSecs'';
           noSSEHeader \<leftarrow> js_get json ''noSSEHeader'';
           xPaddingBytes \<leftarrow> js_get json ''xPaddingBytes'';
           mode \<leftarrow> js_get json ''mode'';
           xPaddingObfsMode \<leftarrow> js_get json ''xPaddingObfsMode'';
           xPaddingKey \<leftarrow> js_get json ''xPaddingKey'';
           xPaddingHeader \<leftarrow> js_get json ''xPaddingHeader'';
           xPaddingPlacement \<leftarrow> js_get json ''xPaddingPlacement'';
           xPaddingMethod \<leftarrow> js_get json ''xPaddingMethod'';
           uplinkHTTPMethod \<leftarrow> js_get json ''uplinkHTTPMethod'';
           sessionPlacement \<leftarrow> js_get json ''sessionPlacement'';
           sessionKey \<leftarrow> js_get json ''sessionKey'';
           seqPlacement \<leftarrow> js_get json ''seqPlacement'';
           seqKey \<leftarrow> js_get json ''seqKey'';
           uplinkDataPlacement \<leftarrow> js_get json ''uplinkDataPlacement'';
           uplinkDataKey \<leftarrow> js_get json ''uplinkDataKey'';
           uplinkChunkSize \<leftarrow> js_get json ''uplinkChunkSize'';
           Some (new_xHTTPStreamSettings path host (Some hs) scMaxBufferedPosts scMaxEachPostBytes
            scStreamUpServerSecs noSSEHeader xPaddingBytes mode xPaddingObfsMode xPaddingKey
            xPaddingHeader xPaddingPlacement xPaddingMethod uplinkHTTPMethod sessionPlacement
            sessionKey seqPlacement seqKey uplinkDataPlacement uplinkDataKey uplinkChunkSize) })"

definition xHTTPStreamSettings_toJson :: "xHTTPStreamSettings \<Rightarrow> jsv option" where
  "xHTTPStreamSettings_toJson x =
     do { v2 \<leftarrow> toV2Headers (xh_headers x) False;
          Some (JObj
       [(''path'', xh_path x),
        (''host'', xh_host x),
        (''headers'', JObj v2),
        (''scMaxBufferedPosts'', xh_scMaxBufferedPosts x),
        (''scMaxEachPostBytes'', xh_scMaxEachPostBytes x),
        (''scStreamUpServerSecs'', xh_scStreamUpServerSecs x),
        (''noSSEHeader'', xh_noSSEHeader x),
        (''xPaddingBytes'', xh_xPaddingBytes x),
        (''mode'', xh_mode x),
        (''xPaddingObfsMode'', xh_xPaddingObfsMode x),
        (''xPaddingKey'', xh_xPaddingKey x),
        (''xPaddingHeader'', xh_xPaddingHeader x),
        (''xPaddingPlacement'', xh_xPaddingPlacement x),
        (''xPaddingMethod'', xh_xPaddingMethod x),
        (''uplinkHTTPMethod'', xh_uplinkHTTPMethod x),
        (''sessionPlacement'', xh_sessionPlacement x),
        (''sessionKey'', xh_sessionKey x),
        (''seqPlacement'', xh_seqPlacement x),
        (''seqKey'', xh_seqKey x),
        (''uplinkDataPlacement'', xh_uplinkDataPlacement x),
        (''uplinkDataKey'', xh_uplinkDataKey x),
        (''uplinkChunkSize'', xh_uplinkChunkSize x)]) }"

definition xHTTPStreamSettings_ok :: "xHTTPStreamSettings \<Rightarrow> bool" where
  "xHTTPStreamSettings_ok x \<longleftrightarrow>
     field_ok (xh_path x) \<and>
     field_ok (xh_host x) \<and>
     single_headers_ok (xh_headers x) \<and>
     field_ok (xh_scMaxBufferedPosts x) \<and>
     field_ok (xh_scMaxEachPostBytes x) \<and>
     field_ok (xh_scStreamUpServerSecs x) \<and>
     field_ok (xh_noSSEHeader x) \<and>
     field_ok (xh_xPaddingBytes x) \<and>
     field_ok (xh_mode x) \<and>
     field_ok (xh_xPaddingObfsMode x) \<and>
     field_ok (xh_xPaddingKey x) \<and>
     field_ok (xh_xPaddingHeader x) \<and>
     field_ok (xh_xPaddingPlacement x) \<and>
     field_ok (xh_xPaddingMethod x) \<and>
     field_ok (xh_uplinkHTTPMethod x) \<and>
     field_ok (xh_sessionPlacement x) \<and>
     field_ok (xh_sessionKey x) \<and>
     field_ok (xh_seqPlacement x) \<and>
     field_ok (xh_seqKey x) \<and>
     field_ok (xh_uplinkDataPlacement x) \<and>
     field_ok (xh_uplinkDataKey x) \<and>
     field_ok (xh_uplinkChunkSize x)"

definition xHTTPStreamSettings_addHeader :: "string \<Rightarrow> jsv \<Rightarrow> xHTTPStreamSettings \<Rightarrow> xHTTPStreamSettings" where
  "xHTTPStreamSettings_addHeader name value x = x\<lparr>xh_headers := xh_headers x @ [\<lparr>h_name = name, h_value = value\<rparr>]\<rparr>"

definition xHTTPStreamSettings_removeHeader :: "nat \<Rightarrow> xHTTPStreamSettings \<Rightarrow> xHTTPStreamSettings" where
  "xHTTPStreamSettings_removeHeader index x = x\<lparr>xh_headers := splice1 index (xh_headers x)\<rparr>"

lemma xHTTPStreamSettings_roundtrip:
  "xHTTPStreamSettings_ok x \<Longrightarrow> \<exists>v. xHTTPStreamSettings_toJson x = Some v \<and> v \<noteq> JUndef \<and> xHTTPStreamSettings_fromJson (wire v) = Some x"
  by (simp add: xHTTPStreamSettings_ok_def xHTTPStreamSettings_toJson_def xHTTPStreamSettings_fromJson_def new_xHTTPStreamSettings_def js_get_wire
      single_headers field_ok_def opt_new_def)

interpretation xh_codec: json_codec xHTTPStreamSettings_toJson xHTTPStreamSettings_fromJson xHTTPStreamSettings_ok
  by (rule json_codecI) (rule xHTTPStreamSettings_roundtrip)

section \<open>HysteriaMasquerade\<close>

record HysteriaMasquerade =
  masq_type :: jsv
  masq_dir :: jsv
  masq_url :: jsv
  masq_rewriteHost :: jsv
  masq_insecure :: jsv
  masq_content :: jsv
  masq_headers :: "header list"
  masq_statusCode :: jsv

definition new_HysteriaMasquerade ::
  "jsv \<Rightarrow> jsv \<Rightarrow> jsv \<Rightarrow> jsv \<Rightarrow> jsv \<Rightarrow> jsv \<Rightarrow>
   header list option \<Rightarrow> jsv \<Rightarrow> HysteriaMasquerade" where
  "new_HysteriaMasquerade
     type_v dir url rewriteHost insecure content headers statusCode =
     \<lparr>masq_type = dflt type_v (JStr ''proxy''),
       masq_dir = dflt dir (JStr ''''),
       masq_url = dflt url (JStr ''''),
       masq_rewriteHost = dflt rewriteHost (JBool False),
       masq_insecure = dflt insecure (JBool False),
       masq_content = dflt content (JStr ''''),
       masq_headers = opt_new headers [],
       masq_statusCode = dflt statusCode (jint 0)\<rparr>"

definition default_HysteriaMasquerade :: HysteriaMasquerade where
  "default_HysteriaMasquerade =
     new_HysteriaMasquerade JUndef JUndef JUndef JUndef JUndef JUndef None JUndef"

definition HysteriaMasquerade_fromJson :: "jsv \<Rightarrow> HysteriaMasquerade option" where
  "HysteriaMasquerade_fromJson json =
     (let json = dflt json (JObj []) in
      do { type_v \<leftarrow> js_get json ''type'';
           dir \<leftarrow> js_get json ''dir'';
           url \<leftarrow> js_get json ''url'';
           rewriteHost \<leftarrow> js_get json ''rewriteHost'';
           insecure \<leftarrow> js_get json ''insecure'';
           content \<leftarrow> js_get json ''content'';
           headers \<leftarrow> js_get json ''headers'';
           hs \<leftarrow> toHeaders headers;
           statusCode \<leftarrow> js_get json ''statusCode'';
           Some (new_HysteriaMasquerade type_v dir url rewriteHost insecure content (Some hs) statusCode) })"

definition HysteriaMasquerade_toJson :: "HysteriaMasquerade \<Rightarrow> jsv option" where
  "HysteriaMasquerade_toJson x =
     do { v2 \<leftarrow> toV2Headers (masq_headers x) False;
          Some (JObj
       [(''type'', masq_type x),
        (''dir'', masq_dir x),
        (''url'', masq_url x),
        (''rewriteHost'', masq_rewriteHost x),
        (''insecure'', masq_insecure x),
        (''content'', masq_content x),
        (''headers'', JObj v2),
        (''statusCode'', masq_statusCode x)]) }"

definition HysteriaMasquerade_ok :: "HysteriaMasquerade \<Rightarrow> bool" where
  "HysteriaMasquerade_ok x \<longleftrightarrow>
     field_ok (masq_type x) \<and>
     field_ok (masq_dir x) \<and>
     field_ok (masq_url x) \<and>
     field_ok (masq_rewriteHost x) \<and>
     field_ok (masq_insecure x) \<and>
     field_ok (masq_content x) \<and>
     single_headers_ok (masq_headers x) \<and>
     field_ok (masq_statusCode x)"

definition HysteriaMasquerade_addHeader :: "string \<Rightarrow> jsv \<Rightarrow> HysteriaMasquerade \<Rightarrow> HysteriaMasquerade" where
  "HysteriaMasquerade_addHeader name value x = x\<lparr>masq_headers := masq_headers x @ [\<lparr>h_name = name, h_value = value\<rparr>]\<rparr>"

definition HysteriaMasquerade_removeHeader :: "nat \<Rightarrow> HysteriaMasquerade \<Rightarrow> HysteriaMasquerade" where
  "HysteriaMasquerade_removeHeader index x = x\<lparr>masq_headers := splice1 index (masq_headers x)\<rparr>"

lemma HysteriaMasquerade_roundtrip:
  "HysteriaMasquerade_ok x \<Longrightarrow> \<exists>v. HysteriaMasquerade_toJson x = Some v \<and> v \<noteq> JUndef \<and> HysteriaMasquerade_fromJson (wire v) = Some x"
  by (simp add: HysteriaMasquerade_ok_def HysteriaMasquerade_toJson_def HysteriaMasquerade_fromJson_def new_HysteriaMasquerade_def js_get_wire
      single_headers field_ok_def opt_new_def)

interpretation masq_codec: json_codec HysteriaMasquerade_toJson HysteriaMasquerade_fromJson HysteriaMasquerade_ok
  by (rule json_codecI) (rule HysteriaMasquerade_roundtrip)

section \<open>TlsStreamSettings.Settings\<close>

record TlsSettings =
  tlss_fingerprint :: jsv
  tlss_echConfigList :: jsv

definition new_TlsSettings ::
  "jsv \<Rightarrow> jsv \<Rightarrow> TlsSettings" where
  "new_TlsSettings
     fingerprint echConfigList =
     \<lparr>tlss_fingerprint = dflt fingerprint (JStr ''chrome''),
       tlss_echConfigList = dflt echConfigList (JStr '''')\<rparr>"

definition default_TlsSettings :: TlsSettings where
  "default_TlsSettings =
     new_TlsSettings JUndef JUndef"

definition TlsSettings_fromJson :: "jsv \<Rightarrow> TlsSettings option" where
  "TlsSettings_fromJson json =
     (let json = dflt json (JObj []) in
      do { fingerprint \<leftarrow> js_get json ''fingerprint'';
           echConfigList \<leftarrow> js_get json ''echConfigList'';
           Some (new_TlsSettings fingerprint echConfigList) })"

definition TlsSettings_toJson :: "TlsSettings \<Rightarrow> jsv" where
  "TlsSettings_toJson x = JObj
       [(''fingerprint'', tlss_fingerprint x),
        (''echConfigList'', tlss_echConfigList x)]"

definition TlsSettings_ok :: "TlsSettings \<Rightarrow> bool" where
  "TlsSettings_ok x \<longleftrightarrow>
     field_ok (tlss_fingerprint x) \<and>
     field_ok (tlss_echConfigList x)"

lemma TlsSettings_roundtrip: "TlsSettings_ok x \<Longrightarrow> TlsSettings_fromJson (wire (TlsSettings_toJson x)) = Some x"
  by (simp add: TlsSettings_ok_def TlsSettings_toJson_def TlsSettings_fromJson_def new_TlsSettings_def js_get_wire
      field_ok_def opt_new_def)

interpretation tlss_codec: json_codec "\<lambda>x. Some (TlsSettings_toJson x)" TlsSettings_fromJson TlsSettings_ok
  by (rule json_codecI) (simp add: TlsSettings_roundtrip, simp add: TlsSettings_toJson_def)

section \<open>RealityStreamSettings.Settings\<close>

record RealitySettings =
  reals_publicKey :: jsv
  reals_fingerprint :: jsv
  reals_serverName :: jsv
  reals_spiderX :: jsv
  reals_mldsa65Verify :: jsv

definition new_RealitySettings ::
  "jsv \<Rightarrow> jsv \<Rightarrow> jsv \<Rightarrow> jsv \<Rightarrow> jsv \<Rightarrow> RealitySettings" where
  "new_RealitySettings
     publicKey fingerprint serverName spiderX mldsa65Verify =
     \<lparr>reals_publicKey = dflt publicKey (JStr ''''),
       reals_fingerprint = dflt fingerprint (JStr ''chrome''),
       reals_serverName = dflt serverName (JStr ''''),
       reals_spiderX = dflt spiderX (JStr ''/''),
       reals_mldsa65Verify = dflt mldsa65Verify (JStr '''')\<rparr>"

definition default_RealitySettings :: RealitySettings where
  "default_RealitySettings =
     new_RealitySettings JUndef JUndef JUndef JUndef JUndef"

definition RealitySettings_fromJson :: "jsv \<Rightarrow> RealitySettings option" where
  "RealitySettings_fromJson json =
     (let json = dflt json (JObj []) in
      do { publicKey \<leftarrow> js_get json ''publicKey'';
           fingerprint \<leftarrow> js_get json ''fingerprint'';
           serverName \<leftarrow> js_get json ''serverName'';
           spiderX \<leftarrow> js_get json ''spiderX'';
           mldsa65Verify \<leftarrow> js_get json ''mldsa65Verify'';
           Some (new_RealitySettings publicKey fingerprint serverName spiderX mldsa65Verify) })"

definition RealitySettings_toJson :: "RealitySettings \<Rightarrow> jsv" where
  "RealitySettings_toJson x = JObj
       [(''publicKey'', reals_publicKey x),
        (''fingerprint'', reals_fingerprint x),
        (''serverName'', reals_serverName x),
        (''spiderX'', reals_spiderX x),
        (''mldsa65Verify'', reals_mldsa65Verify x)]"

definition RealitySettings_ok :: "RealitySettings \<Rightarrow> bool" where
  "RealitySettings_ok x \<longleftrightarrow>
     field_ok (reals_publicKey x) \<and>
     field_ok (reals_fingerprint x) \<and>
     field_ok (reals_serverName x) \<and>
     field_ok (reals_spiderX x) \<and>
     field_ok (reals_mldsa65Verify x)"

lemma RealitySettings_roundtrip: "RealitySettings_ok x \<Longrightarrow> RealitySettings_fromJson (wire (RealitySettings_toJson x)) = Some x"
  by (simp add: RealitySettings_ok_def RealitySettings_toJson_def RealitySettings_fromJson_def new_RealitySettings_def js_get_wire
      field_ok_def opt_new_def)

interpretation reals_codec: json_codec "\<lambda>x. Some (RealitySettings_toJson x)" RealitySettings_fromJson RealitySettings_ok
  by (rule json_codecI) (simp add: RealitySettings_roundtrip, simp add: RealitySettings_toJson_def)


end
