(* ===== verification/InMask.thy ===== *)
theory InMask
  imports InTransport
begin

text \<open>
  The final masks of an inbound (web/assets/js/model/inbound.js): the disguises of UDP and
  TCP packets, the QUIC parameters, and FinalMaskStreamSettings, which holds them. A mask
  keeps the settings of its type only; saving drops from every item of a custom mask the
  properties that its kind does not use.
\<close>

section \<open>Shared parts\<close>

definition array_or_empty :: "jsv \<Rightarrow> jsv" where
  "array_or_empty v = (if is_array v then v else JArr [])"

text \<open>\<open>cleanItem\<close>: the copy of an item without the properties of the other kind.\<close>

definition clean_item :: "jsv \<Rightarrow> jsv" where
  "clean_item item =
     (let out = obj_assign [] (own_entries item) in
      JObj (if look out ''type'' = JStr ''array'' then obj_del out ''packet''
            else obj_del (obj_del out ''rand'') ''randRange''))"

definition map_array :: "(jsv \<Rightarrow> jsv) \<Rightarrow> jsv \<Rightarrow> jsv" where
  "map_array f v = (case v of JArr vs \<Rightarrow> JArr (map f vs) | _ \<Rightarrow> v)"

definition sent_settings :: "jsv \<Rightarrow> jsv" where
  "sent_settings settings =
     (if truthy settings \<and> own_entries settings \<noteq> [] then settings else JUndef)"

section \<open>UdpMask\<close>

record UdpMask =
  udp_type :: jsv
  udp_settings :: jsv

definition udp_default_settings :: "jsv \<Rightarrow> jsv \<Rightarrow> jsv option" where
  "udp_default_settings type_v settings =
     (let settings = dflt settings (JObj []) in
      case type_v of JStr t \<Rightarrow>
        if t \<in> {''salamander'', ''mkcp-aes128gcm''}
        then do { password \<leftarrow> js_get settings ''password'';
                  Some (JObj [(''password'', js_or password (JStr ''''))]) }
        else if t = ''header-dns''
        then do { domain \<leftarrow> js_get settings ''domain'';
                  Some (JObj [(''domain'', js_or domain (JStr ''''))]) }
        else if t = ''xdns''
        then do { domains \<leftarrow> js_get settings ''domains'';
                  Some (JObj [(''domains'', array_or_empty domains)]) }
        else if t = ''xicmp''
        then do { ip \<leftarrow> js_get settings ''ip'';
                  ident \<leftarrow> js_get settings ''id'';
                  Some (JObj [(''ip'', js_or ip (JStr '''')), (''id'', nullish ident (jint 0))]) }
        else if t \<in> {''mkcp-original'', ''header-dtls'', ''header-srtp'', ''header-utp'', ''header-wechat'',
               ''header-wireguard''}
        then Some (JObj [])
        else if t = ''header-custom''
        then do { client \<leftarrow> js_get settings ''client'';
                  server \<leftarrow> js_get settings ''server'';
                  Some (JObj [(''client'', array_or_empty client), (''server'', array_or_empty server)]) }
        else if t = ''noise''
        then do { reset \<leftarrow> js_get settings ''reset'';
                  noise \<leftarrow> js_get settings ''noise'';
                  Some (JObj [(''reset'', nullish reset (jint 0)), (''noise'', array_or_empty noise)]) }
        else Some settings
      | _ \<Rightarrow> Some settings)"

definition new_UdpMask :: "jsv \<Rightarrow> jsv \<Rightarrow> UdpMask option" where
  "new_UdpMask type_v settings =
     (let type_v = dflt type_v (JStr ''salamander''); settings = dflt settings (JObj []) in
      do { s \<leftarrow> udp_default_settings type_v settings;
           Some \<lparr>udp_type = type_v, udp_settings = s\<rparr> })"

definition UdpMask_fromJson :: "jsv \<Rightarrow> UdpMask option" where
  "UdpMask_fromJson json =
     (let json = dflt json (JObj []) in
      do { type_v \<leftarrow> js_get json ''type'';
           settings \<leftarrow> js_get json ''settings'';
           new_UdpMask (js_or type_v (JStr ''salamander'')) (js_or settings (JObj [])) })"

definition udp_clean :: "jsv \<Rightarrow> jsv \<Rightarrow> jsv" where
  "udp_clean type_v settings =
     (let noise = js_get_opt settings ''noise'' in
      if type_v = JStr ''noise'' \<and> truthy settings \<and> is_array noise
      then JObj (obj_set (own_entries settings) ''noise'' (map_array clean_item noise))
      else if type_v = JStr ''header-custom'' \<and> truthy settings
      then JObj (obj_set (obj_set (own_entries settings) ''client''
                   (map_array clean_item (js_get_opt settings ''client'')))
                 ''server'' (map_array clean_item (js_get_opt settings ''server'')))
      else settings)"

definition UdpMask_toJson :: "UdpMask \<Rightarrow> jsv" where
  "UdpMask_toJson x = JObj
     [(''type'', udp_type x),
      (''settings'', sent_settings (udp_clean (udp_type x) (udp_settings x)))]"

section \<open>TcpMask\<close>

record TcpMask =
  tmask_type :: jsv
  tmask_settings :: jsv

definition tcp_default_settings :: "jsv \<Rightarrow> jsv \<Rightarrow> jsv option" where
  "tcp_default_settings type_v settings =
     (let settings = dflt settings (JObj []) in
      case type_v of JStr t \<Rightarrow>
        if t = ''fragment''
        then do { packets \<leftarrow> js_get settings ''packets'';
                  len \<leftarrow> js_get settings ''length'';
                  delay \<leftarrow> js_get settings ''delay'';
                  maxSplit \<leftarrow> js_get settings ''maxSplit'';
                  Some (JObj [(''packets'', nullish packets (JStr ''tlshello'')),
                    (''length'', nullish len (JStr '''')),
                    (''delay'', nullish delay (JStr '''')),
                    (''maxSplit'', nullish maxSplit (JStr ''''))]) }
        else if t = ''sudoku''
        then do { password \<leftarrow> js_get settings ''password'';
                  ascii \<leftarrow> js_get settings ''ascii'';
                  customTable \<leftarrow> js_get settings ''customTable'';
                  customTables \<leftarrow> js_get settings ''customTables'';
                  paddingMin \<leftarrow> js_get settings ''paddingMin'';
                  paddingMax \<leftarrow> js_get settings ''paddingMax'';
                  Some (JObj [(''password'', nullish password (JStr '''')),
                    (''ascii'', nullish ascii (JStr '''')),
                    (''customTable'', nullish customTable (JStr '''')),
                    (''customTables'', array_or_empty customTables),
                    (''paddingMin'', nullish paddingMin (jint 0)),
                    (''paddingMax'', nullish paddingMax (jint 0))]) }
        else if t = ''header-custom''
        then do { clients \<leftarrow> js_get settings ''clients'';
                  servers \<leftarrow> js_get settings ''servers'';
                  Some (JObj [(''clients'', array_or_empty clients), (''servers'', array_or_empty servers)]) }
        else Some settings
      | _ \<Rightarrow> Some settings)"

definition new_TcpMask :: "jsv \<Rightarrow> jsv \<Rightarrow> TcpMask option" where
  "new_TcpMask type_v settings =
     (let type_v = dflt type_v (JStr ''fragment''); settings = dflt settings (JObj []) in
      do { s \<leftarrow> tcp_default_settings type_v settings;
           Some \<lparr>tmask_type = type_v, tmask_settings = s\<rparr> })"

definition TcpMask_fromJson :: "jsv \<Rightarrow> TcpMask option" where
  "TcpMask_fromJson json =
     (let json = dflt json (JObj []) in
      do { type_v \<leftarrow> js_get json ''type'';
           settings \<leftarrow> js_get json ''settings'';
           new_TcpMask (js_or type_v (JStr ''fragment'')) (js_or settings (JObj [])) })"

text \<open>The custom mask of TCP has groups of items.\<close>

definition tcp_clean :: "jsv \<Rightarrow> jsv \<Rightarrow> jsv" where
  "tcp_clean type_v settings =
     (let clean_group = map_array clean_item in
      if type_v = JStr ''header-custom'' \<and> truthy settings
      then JObj (obj_set (obj_set (own_entries settings) ''clients''
                   (map_array clean_group (js_get_opt settings ''clients'')))
                 ''servers'' (map_array clean_group (js_get_opt settings ''servers'')))
      else settings)"

definition TcpMask_toJson :: "TcpMask \<Rightarrow> jsv" where
  "TcpMask_toJson x = JObj
     [(''type'', tmask_type x),
      (''settings'', sent_settings (tcp_clean (tmask_type x) (tmask_settings x)))]"

section \<open>Masks that are in normal form\<close>

text \<open>
  A mask is normal when its settings are those of its type and clean. Saving keeps a normal
  mask, and what is saved of any mask loads as a normal one.
\<close>

definition UdpMask_ok :: "UdpMask \<Rightarrow> bool" where
  "UdpMask_ok x \<longleftrightarrow>
     is_string (udp_type x) \<and> udp_type x \<noteq> JStr '''' \<and> field_ok (udp_settings x) \<and>
     (\<exists>kvs. udp_settings x = JObj kvs) \<and>
     udp_default_settings (udp_type x) (udp_settings x) = Some (udp_settings x) \<and>
     udp_clean (udp_type x) (udp_settings x) = udp_settings x"

definition TcpMask_ok :: "TcpMask \<Rightarrow> bool" where
  "TcpMask_ok x \<longleftrightarrow>
     is_string (tmask_type x) \<and> tmask_type x \<noteq> JStr '''' \<and> field_ok (tmask_settings x) \<and>
     (\<exists>kvs. tmask_settings x = JObj kvs) \<and>
     tcp_default_settings (tmask_type x) (tmask_settings x) = Some (tmask_settings x) \<and>
     tcp_clean (tmask_type x) (tmask_settings x) = tmask_settings x"

lemma sent_JObj: "sent_settings (JObj kvs) = (if kvs = [] then JUndef else JObj kvs)"
  by (simp add: sent_settings_def)

lemma UdpMask_new_saved:
  assumes "UdpMask_ok x"
  shows "new_UdpMask (udp_type x) (wire (sent_settings (udp_clean (udp_type x) (udp_settings x)))) = Some x"
  using assms by (auto simp: UdpMask_ok_def new_UdpMask_def sent_JObj is_string_iff field_ok_def)

lemma TcpMask_new_saved:
  assumes "TcpMask_ok x"
  shows "new_TcpMask (tmask_type x) (wire (sent_settings (tcp_clean (tmask_type x) (tmask_settings x)))) = Some x"
  using assms by (auto simp: TcpMask_ok_def new_TcpMask_def sent_JObj is_string_iff field_ok_def)

lemma entries_set: "list_all (\<lambda>e. P (snd e)) kvs \<Longrightarrow> P v \<Longrightarrow> list_all (\<lambda>e. P (snd e)) (obj_set kvs k v)"
  by (induction kvs) auto

lemma entries_assign:
  "list_all (\<lambda>e. P (snd e)) base \<Longrightarrow> list_all (\<lambda>e. P (snd e)) ext \<Longrightarrow>
   list_all (\<lambda>e. P (snd e)) (obj_assign base ext)"
  by (induction ext arbitrary: base) (auto simp: entries_set)

lemma entries_del: "list_all (\<lambda>e. P (snd e)) kvs \<Longrightarrow> list_all (\<lambda>e. P (snd e)) (obj_del kvs k)"
  by (auto simp: obj_del_def list_all_iff)

lemma json_own_entries: "json_val v \<Longrightarrow> list_all (\<lambda>e. json_val (snd e)) (own_entries v)"
  by (cases v) (auto simp: list_all_iff in_set_zip)

lemma json_look: "json_val (JObj kvs) \<Longrightarrow> look kvs k = JUndef \<or> json_val (look kvs k)"
  by (induction kvs) (auto split: if_splits)

lemma json_clean_item: "json_val v \<Longrightarrow> json_val (clean_item v)"
  by (simp add: clean_item_def Let_def entries_del entries_assign json_own_entries distinct_obj_del distinct_obj_assign)

lemma obj_del_fresh: "k \<notin> set (keys kvs) \<Longrightarrow> obj_del kvs k = kvs"
  by (induction kvs) (auto simp: obj_del_def)

lemma clean_item_idem [simp]: "clean_item (clean_item v) = clean_item v"
proof -
  define out where "out = obj_assign [] (own_entries v)"
  have d: "distinct (keys out)" by (simp add: out_def distinct_obj_assign)
  let ?a = "obj_del out ''packet''" and ?b = "obj_del (obj_del out ''rand'') ''randRange''"
  have fix_a: "obj_assign [] ?a = ?a" and fix_b: "obj_assign [] ?b = ?b"
    using d by (simp_all add: obj_assign_Nil distinct_obj_del)
  have da: "obj_del ?a ''packet'' = ?a" "obj_del (obj_del ?b ''rand'') ''randRange'' = ?b"
    by (simp_all add: obj_del_fresh keys_obj_del)
  have c: "clean_item v = JObj (if look out ''type'' = JStr ''array'' then ?a else ?b)"
    by (simp add: clean_item_def out_def Let_def)
  show ?thesis
    by (simp add: c) (auto simp: clean_item_def Let_def fix_a fix_b da look_obj_del)
qed

lemma map_array_simps [simp]: "map_array f (JArr vs) = JArr (map f vs)" "is_array (map_array f v) = is_array v"
  by (cases v; simp add: map_array_def)+

lemma map_array_idem: "(\<And>v. f (f v) = f v) \<Longrightarrow> map_array f (map_array f v) = map_array f v"
  by (cases v) (simp_all add: map_array_def)

lemma json_map_array: "(\<And>v. json_val v \<Longrightarrow> json_val (f v)) \<Longrightarrow> json_val v \<Longrightarrow> json_val (map_array f v)"
  by (cases v) (auto simp: list_all_iff map_array_def)

lemmas clean_lists = map_array_idem [OF clean_item_idem] map_array_idem [OF map_array_idem [OF clean_item_idem]]

lemma json_or: "v = JUndef \<or> json_val v \<Longrightarrow> json_val d \<Longrightarrow> json_val (js_or v d)"
  and json_nullish: "v = JUndef \<or> json_val v \<Longrightarrow> json_val d \<Longrightarrow> json_val (nullish v d)"
  and json_array_or_empty: "v = JUndef \<or> json_val v \<Longrightarrow> json_val (array_or_empty v)"
  by (auto simp: js_or_def nullish_def array_or_empty_def)

lemma array_or_empty_simps [simp]:
  "is_array (array_or_empty v)" "is_array v \<Longrightarrow> array_or_empty v = v"
  "array_or_empty (map_array f (array_or_empty v)) = map_array f (array_or_empty v)"
  by (simp_all add: array_or_empty_def)

lemma default_idem [simp]:
  "js_or (js_or v d) d = js_or v d" "nullish (nullish v d) d = nullish v d"
  by (simp_all add: js_or_def nullish_def)

lemmas json_parts = json_look json_or json_nullish json_array_or_empty
  json_map_array [OF json_clean_item] json_map_array [OF json_map_array [OF json_clean_item]]

lemma udp_normal_form:
  assumes "json_val (JObj kvs)" and "udp_default_settings (JStr t) (JObj kvs) = Some s"
  shows "json_val (udp_clean (JStr t) s)" "\<exists>kvs. udp_clean (JStr t) s = JObj kvs"
    and "udp_default_settings (JStr t) (udp_clean (JStr t) s) = Some (udp_clean (JStr t) s)"
    and "udp_clean (JStr t) (udp_clean (JStr t) s) = udp_clean (JStr t) s"
proof -
  have "json_val (udp_clean (JStr t) s) \<and> (\<exists>kvs. udp_clean (JStr t) s = JObj kvs) \<and>
     udp_default_settings (JStr t) (udp_clean (JStr t) s) = Some (udp_clean (JStr t) s) \<and>
     udp_clean (JStr t) (udp_clean (JStr t) s) = udp_clean (JStr t) s"
  proof (cases "t = ''noise'' \<or> t = ''header-custom''")
    case True
    then show ?thesis
      using assms(2)
      by (auto simp: udp_default_settings_def udp_clean_def Let_def clean_lists json_look [OF assms(1)] json_parts)
  next
    case False
    then have "udp_clean (JStr t) v = v" for v by (simp add: udp_clean_def Let_def)
    then have e: "udp_clean (JStr t) s = s" .
    note l = json_look [OF assms(1)]
    have sv: "s = the (udp_default_settings (JStr t) (JObj kvs))" using assms(2) by simp
    note forms = udp_default_settings_def Let_def json_or json_nullish json_array_or_empty
    consider "t \<in> {''salamander'', ''mkcp-aes128gcm''}" | "t = ''header-dns''" | "t = ''xdns''" | "t = ''xicmp''"
      | "t \<in> {''mkcp-original'', ''header-dtls'', ''header-srtp'', ''header-utp'', ''header-wechat'', ''header-wireguard''}"
      | "udp_default_settings (JStr t) = (\<lambda>s. Some (dflt s (JObj [])))"
      using False by (force simp: udp_default_settings_def Let_def)
    then have "json_val s \<and> (\<exists>kvs. s = JObj kvs) \<and> udp_default_settings (JStr t) s = Some s"
    proof cases
      case 1
      then show ?thesis using l unfolding sv by (elim insertE emptyE; hypsubst) (simp_all add: forms)
    next
      case 2
      then show ?thesis using l unfolding sv by (simp add: forms)
    next
      case 3
      then show ?thesis using l unfolding sv by (simp add: forms)
    next
      case 4
      then show ?thesis using l unfolding sv by (simp add: forms)
    next
      case 5
      then show ?thesis unfolding sv by (elim insertE emptyE; hypsubst) (simp_all add: forms)
    next
      case 6
      with assms show ?thesis by (auto simp del: json_val.simps(7))
    qed
    then show ?thesis by (simp add: e)
  qed
  then show "json_val (udp_clean (JStr t) s)" "\<exists>kvs. udp_clean (JStr t) s = JObj kvs"
    "udp_default_settings (JStr t) (udp_clean (JStr t) s) = Some (udp_clean (JStr t) s)"
    "udp_clean (JStr t) (udp_clean (JStr t) s) = udp_clean (JStr t) s" by blast+
qed

lemma tcp_normal_form:
  assumes "json_val (JObj kvs)" and "tcp_default_settings (JStr t) (JObj kvs) = Some s"
  shows "json_val (tcp_clean (JStr t) s)" "\<exists>kvs. tcp_clean (JStr t) s = JObj kvs"
    and "tcp_default_settings (JStr t) (tcp_clean (JStr t) s) = Some (tcp_clean (JStr t) s)"
    and "tcp_clean (JStr t) (tcp_clean (JStr t) s) = tcp_clean (JStr t) s"
proof -
  note l = json_look [OF assms(1)]
  have "json_val (tcp_clean (JStr t) s) \<and> (\<exists>kvs. tcp_clean (JStr t) s = JObj kvs) \<and>
     tcp_default_settings (JStr t) (tcp_clean (JStr t) s) = Some (tcp_clean (JStr t) s) \<and>
     tcp_clean (JStr t) (tcp_clean (JStr t) s) = tcp_clean (JStr t) s"
  proof (cases "t = ''header-custom''")
    case True
    then show ?thesis
      using assms(2)
      by (auto simp: tcp_default_settings_def tcp_clean_def Let_def clean_lists l json_parts)
  next
    case False
    then have e: "tcp_clean (JStr t) s = s" by (simp add: tcp_clean_def Let_def)
    consider "t = ''fragment''" | "t = ''sudoku''"
      | "tcp_default_settings (JStr t) = (\<lambda>s. Some (dflt s (JObj [])))"
      using False by (force simp: tcp_default_settings_def Let_def)
    then have "json_val s \<and> (\<exists>kvs. s = JObj kvs) \<and> tcp_default_settings (JStr t) s = Some s"
    proof cases
      case 3
      with assms show ?thesis by (auto simp del: json_val.simps(7))
    qed (use assms(2) in \<open>auto simp: tcp_default_settings_def Let_def json_or json_nullish json_array_or_empty l\<close>)
    then show ?thesis by (simp add: e tcp_clean_def False)
  qed
  then show "json_val (tcp_clean (JStr t) s)" "\<exists>kvs. tcp_clean (JStr t) s = JObj kvs"
    "tcp_default_settings (JStr t) (tcp_clean (JStr t) s) = Some (tcp_clean (JStr t) s)"
    "tcp_clean (JStr t) (tcp_clean (JStr t) s) = tcp_clean (JStr t) s" by blast+
qed

lemma UdpMask_saved_ok:
  assumes "json_val (JObj kvs)" "t \<noteq> []" "new_UdpMask (JStr t) (JObj kvs) = Some m"
  shows "UdpMask_ok (m\<lparr>udp_settings := udp_clean (udp_type m) (udp_settings m)\<rparr>)"
proof -
  obtain s where s: "udp_default_settings (JStr t) (JObj kvs) = Some s"
    and m: "m = \<lparr>udp_type = JStr t, udp_settings = s\<rparr>"
    using assms(3) by (auto simp: new_UdpMask_def Let_def split: bind_splits)
  note n = udp_normal_form [OF assms(1) s]
  show ?thesis
    using n(2) json_val_field_ok [OF n(1)] assms(2) by (simp add: m UdpMask_ok_def n(3,4))
qed

lemma TcpMask_saved_ok:
  assumes "json_val (JObj kvs)" "t \<noteq> []" "new_TcpMask (JStr t) (JObj kvs) = Some m"
  shows "TcpMask_ok (m\<lparr>tmask_settings := tcp_clean (tmask_type m) (tmask_settings m)\<rparr>)"
proof -
  obtain s where s: "tcp_default_settings (JStr t) (JObj kvs) = Some s"
    and m: "m = \<lparr>tmask_type = JStr t, tmask_settings = s\<rparr>"
    using assms(3) by (auto simp: new_TcpMask_def Let_def split: bind_splits)
  note n = tcp_normal_form [OF assms(1) s]
  show ?thesis
    using n(2) json_val_field_ok [OF n(1)] assms(2) by (simp add: m TcpMask_ok_def n(3,4))
qed

lemma UdpMask_roundtrip: "UdpMask_ok x \<Longrightarrow> UdpMask_fromJson (wire (UdpMask_toJson x)) = Some x"
proof -
  assume ok: "UdpMask_ok x"
  then have t: "truthy (udp_type x)" "wire (udp_type x) = udp_type x" "udp_type x \<noteq> JUndef"
    by (auto simp: UdpMask_ok_def is_string_iff)
  obtain kvs where k: "udp_settings x = JObj kvs" "wire (JObj kvs) = JObj kvs"
    using ok by (auto simp: UdpMask_ok_def field_ok_def)
  have c: "udp_clean (udp_type x) (JObj kvs) = JObj kvs"
    "udp_default_settings (udp_type x) (JObj kvs) = Some (JObj kvs)"
    using ok k by (simp_all add: UdpMask_ok_def)
  show ?thesis using k(1)
    by (cases x) (use t k(2) c in \<open>auto simp: UdpMask_toJson_def UdpMask_fromJson_def new_UdpMask_def
        js_get_wire Let_def sent_JObj\<close>)
qed

section \<open>QuicParams\<close>

record QuicParams =
  quic_congestion :: jsv
  quic_debug :: jsv
  quic_brutalUp :: jsv
  quic_brutalDown :: jsv
  quic_udpHop :: jsv
  quic_initStreamReceiveWindow :: jsv
  quic_maxStreamReceiveWindow :: jsv
  quic_initConnectionReceiveWindow :: jsv
  quic_maxConnectionReceiveWindow :: jsv
  quic_maxIdleTimeout :: jsv
  quic_keepAlivePeriod :: jsv
  quic_disablePathMTUDiscovery :: jsv
  quic_maxIncomingStreams :: jsv

definition new_QuicParams ::
  "jsv \<Rightarrow> jsv \<Rightarrow> jsv \<Rightarrow> jsv \<Rightarrow> jsv \<Rightarrow> jsv \<Rightarrow>
   jsv \<Rightarrow> jsv \<Rightarrow> jsv \<Rightarrow> jsv \<Rightarrow> jsv \<Rightarrow> jsv \<Rightarrow>
   jsv \<Rightarrow> QuicParams" where
  "new_QuicParams
     congestion debug brutalUp brutalDown udpHop initStreamReceiveWindow maxStreamReceiveWindow
     initConnectionReceiveWindow maxConnectionReceiveWindow maxIdleTimeout keepAlivePeriod
     disablePathMTUDiscovery maxIncomingStreams =
     \<lparr>quic_congestion = dflt congestion (JStr ''bbr''),
       quic_debug = dflt debug (JBool False),
       quic_brutalUp = dflt brutalUp (JStr ''''),
       quic_brutalDown = dflt brutalDown (JStr ''''),
       quic_udpHop = udpHop,
       quic_initStreamReceiveWindow = dflt initStreamReceiveWindow (jint 8388608),
       quic_maxStreamReceiveWindow = dflt maxStreamReceiveWindow (jint 8388608),
       quic_initConnectionReceiveWindow = dflt initConnectionReceiveWindow (jint 20971520),
       quic_maxConnectionReceiveWindow = dflt maxConnectionReceiveWindow (jint 20971520),
       quic_maxIdleTimeout = dflt maxIdleTimeout (jint 30),
       quic_keepAlivePeriod = dflt keepAlivePeriod (jint 0),
       quic_disablePathMTUDiscovery = dflt disablePathMTUDiscovery (JBool False),
       quic_maxIncomingStreams = dflt maxIncomingStreams (jint 1024)\<rparr>"

definition default_QuicParams :: QuicParams where
  "default_QuicParams =
     new_QuicParams JUndef JUndef JUndef JUndef JUndef JUndef JUndef JUndef JUndef JUndef JUndef
     JUndef JUndef"

definition quic_hasUdpHop :: "QuicParams \<Rightarrow> bool" where
  "quic_hasUdpHop x \<longleftrightarrow> \<not> is_nullish (quic_udpHop x)"

definition quic_set_hasUdpHop :: "bool \<Rightarrow> QuicParams \<Rightarrow> QuicParams" where
  "quic_set_hasUdpHop value x =
     x\<lparr>quic_udpHop := if value
        then js_or (quic_udpHop x) (JObj [(''ports'', JStr ''20000-50000''), (''interval'', JStr ''5-10'')])
        else JUndef\<rparr>"

text \<open>The outer option is the TypeError, the inner None is undefined.\<close>

definition QuicParams_fromJson :: "jsv \<Rightarrow> QuicParams option option" where
  "QuicParams_fromJson json =
     (let json = dflt json (JObj []) in
      if \<not> truthy json then Some None else
      do { ks \<leftarrow> object_keys json;
           if ks = [] then Some None else
      do { congestion \<leftarrow> js_get json ''congestion'';
           debug \<leftarrow> js_get json ''debug'';
           brutalUp \<leftarrow> js_get json ''brutalUp'';
           brutalDown \<leftarrow> js_get json ''brutalDown'';
           udpHop \<leftarrow> js_get json ''udpHop'';
           udpHop \<leftarrow> (if truthy udpHop
             then do { ports \<leftarrow> js_get udpHop ''ports'';
                       interval \<leftarrow> js_get udpHop ''interval'';
                       Some (JObj [(''ports'', ports), (''interval'', interval)]) }
             else Some JUndef);
           initStreamReceiveWindow \<leftarrow> js_get json ''initStreamReceiveWindow'';
           maxStreamReceiveWindow \<leftarrow> js_get json ''maxStreamReceiveWindow'';
           initConnectionReceiveWindow \<leftarrow> js_get json ''initConnectionReceiveWindow'';
           maxConnectionReceiveWindow \<leftarrow> js_get json ''maxConnectionReceiveWindow'';
           maxIdleTimeout \<leftarrow> js_get json ''maxIdleTimeout'';
           keepAlivePeriod \<leftarrow> js_get json ''keepAlivePeriod'';
           disablePathMTUDiscovery \<leftarrow> js_get json ''disablePathMTUDiscovery'';
           maxIncomingStreams \<leftarrow> js_get json ''maxIncomingStreams'';
           Some (Some (new_QuicParams congestion debug brutalUp brutalDown udpHop initStreamReceiveWindow
            maxStreamReceiveWindow initConnectionReceiveWindow maxConnectionReceiveWindow
            maxIdleTimeout keepAlivePeriod disablePathMTUDiscovery maxIncomingStreams)) } })"

text \<open>\<open>if (c) result.k = v\<close>.\<close>

definition set_if :: "bool \<Rightarrow> string \<Rightarrow> jsv \<Rightarrow> entries \<Rightarrow> entries" where
  "set_if c k v r = (if c then obj_set r k v else r)"

definition quic_entries :: "QuicParams \<Rightarrow> entries" where
  "quic_entries x =
     (let result = [(''congestion'', quic_congestion x)];
          result = set_if (truthy (quic_debug x)) ''debug'' (quic_debug x) result;
          result = set_if (truthy (quic_brutalUp x)) ''brutalUp'' (quic_brutalUp x) result;
          result = set_if (truthy (quic_brutalDown x)) ''brutalDown'' (quic_brutalDown x) result;
          result = set_if (truthy (quic_udpHop x)) ''udpHop'' (JObj [(''ports'', js_get_opt (quic_udpHop x) ''ports''), (''interval'', js_get_opt (quic_udpHop x) ''interval'')]) result;
          result = set_if (js_gt (quic_initStreamReceiveWindow x) (jint 0)) ''initStreamReceiveWindow'' (quic_initStreamReceiveWindow x) result;
          result = set_if (js_gt (quic_maxStreamReceiveWindow x) (jint 0)) ''maxStreamReceiveWindow'' (quic_maxStreamReceiveWindow x) result;
          result = set_if (js_gt (quic_initConnectionReceiveWindow x) (jint 0)) ''initConnectionReceiveWindow'' (quic_initConnectionReceiveWindow x) result;
          result = set_if (js_gt (quic_maxConnectionReceiveWindow x) (jint 0)) ''maxConnectionReceiveWindow'' (quic_maxConnectionReceiveWindow x) result;
          result = set_if (quic_maxIdleTimeout x \<noteq> jint 30 \<and> js_gt (quic_maxIdleTimeout x) (jint 0)) ''maxIdleTimeout'' (quic_maxIdleTimeout x) result;
          result = set_if (js_gt (quic_keepAlivePeriod x) (jint 0)) ''keepAlivePeriod'' (quic_keepAlivePeriod x) result;
          result = set_if (truthy (quic_disablePathMTUDiscovery x)) ''disablePathMTUDiscovery'' (quic_disablePathMTUDiscovery x) result;
          result = set_if (js_gt (quic_maxIncomingStreams x) (jint 0)) ''maxIncomingStreams'' (quic_maxIncomingStreams x) result
      in result)"

definition QuicParams_toJson :: "QuicParams \<Rightarrow> jsv" where
  "QuicParams_toJson x = JObj (quic_entries x)"

lemma look_set_if: "look (set_if c k v r) k' = (if c \<and> k' = k then v else look r k')"
  by (simp add: set_if_def look_obj_set)

lemma distinct_set_if: "distinct (keys r) \<Longrightarrow> distinct (keys (set_if c k v r))"
  by (simp add: set_if_def distinct_obj_set)

text \<open>
  The parameters that come back from the wire as they are: flags and texts that are sent when
  set, windows and counts that are positive numbers. A zero or negative window is not sent,
  and comes back as the default of the constructor.
\<close>

fun js_flag :: "jsv \<Rightarrow> bool" where
  "js_flag (JBool _) = True"
| "js_flag _ = False"

fun positive :: "jsv \<Rightarrow> bool" where
  "positive (JNum (Fin q)) = (0 < q)"
| "positive _ = False"

definition QuicParams_ok :: "QuicParams \<Rightarrow> bool" where
  "QuicParams_ok x \<longleftrightarrow>
     field_ok (quic_congestion x) \<and> js_flag (quic_debug x) \<and>
     is_string (quic_brutalUp x) \<and> is_string (quic_brutalDown x) \<and>
     (quic_udpHop x = JUndef \<or>
      (\<exists>p i. quic_udpHop x = JObj [(''ports'', p), (''interval'', i)] \<and> field_ok p \<and> field_ok i)) \<and>
     positive (quic_initStreamReceiveWindow x) \<and> positive (quic_maxStreamReceiveWindow x) \<and>
     positive (quic_initConnectionReceiveWindow x) \<and> positive (quic_maxConnectionReceiveWindow x) \<and>
     positive (quic_maxIdleTimeout x) \<and>
     (positive (quic_keepAlivePeriod x) \<or> quic_keepAlivePeriod x = jint 0) \<and>
     js_flag (quic_disablePathMTUDiscovery x) \<and> positive (quic_maxIncomingStreams x)"

lemma positive_sent: "positive v \<Longrightarrow> js_gt v (jint 0) \<and> wire v = v \<and> v \<noteq> JUndef"
  by (induction v rule: positive.induct) auto

lemma flag_sent: "js_flag v \<Longrightarrow> dflt (wire (if truthy v then v else JUndef)) (JBool False) = v"
  by (cases v) auto

lemma string_sent: "is_string v \<Longrightarrow> dflt (wire (if truthy v then v else JUndef)) (JStr '''') = v"
  by (cases v) auto

text \<open>
  What a form holds: JSON values in every field, and a hop that is absent or an object of ports and
  interval. Everything that is loaded, the defaults and the switch of the form keep to it.
\<close>

definition quic_hop :: "jsv \<Rightarrow> bool" where
  "quic_hop u \<longleftrightarrow> u = JUndef \<or> (\<exists>p i. u = JObj [(''ports'', p), (''interval'', i)] \<and> opt_field_ok p \<and> opt_field_ok i)"

definition quic_held :: "QuicParams \<Rightarrow> bool" where
  "quic_held x \<longleftrightarrow>
     list_all field_ok [quic_congestion x, quic_debug x, quic_brutalUp x, quic_brutalDown x,
       quic_initStreamReceiveWindow x, quic_maxStreamReceiveWindow x, quic_initConnectionReceiveWindow x,
       quic_maxConnectionReceiveWindow x, quic_maxIdleTimeout x, quic_keepAlivePeriod x,
       quic_disablePathMTUDiscovery x, quic_maxIncomingStreams x] \<and> quic_hop (quic_udpHop x)"

text \<open>What is left of the parameters after a save: a value that is not sent gives way to the reader's default.\<close>

definition above_0 :: "jsv \<Rightarrow> jsv \<Rightarrow> jsv" where
  "above_0 v d = (if js_gt v (jint 0) then v else d)"

definition quic_restored :: "QuicParams \<Rightarrow> QuicParams" where
  "quic_restored x =
     \<lparr>quic_congestion = quic_congestion x,
       quic_debug = js_or (quic_debug x) (JBool False),
       quic_brutalUp = js_or (quic_brutalUp x) (JStr ''''),
       quic_brutalDown = js_or (quic_brutalDown x) (JStr ''''),
       quic_udpHop = quic_udpHop x,
       quic_initStreamReceiveWindow = above_0 (quic_initStreamReceiveWindow x) (jint 8388608),
       quic_maxStreamReceiveWindow = above_0 (quic_maxStreamReceiveWindow x) (jint 8388608),
       quic_initConnectionReceiveWindow = above_0 (quic_initConnectionReceiveWindow x) (jint 20971520),
       quic_maxConnectionReceiveWindow = above_0 (quic_maxConnectionReceiveWindow x) (jint 20971520),
       quic_maxIdleTimeout = above_0 (quic_maxIdleTimeout x) (jint 30),
       quic_keepAlivePeriod = above_0 (quic_keepAlivePeriod x) (jint 0),
       quic_disablePathMTUDiscovery = js_or (quic_disablePathMTUDiscovery x) (JBool False),
       quic_maxIncomingStreams = above_0 (quic_maxIncomingStreams x) (jint 1024)\<rparr>"

lemma above_0_sent: "field_ok v \<Longrightarrow> dflt (wire (if js_gt v (jint 0) then v else JUndef)) d = above_0 v d"
  by (auto simp: above_0_def)

lemma or_sent: "field_ok v \<Longrightarrow> dflt (wire (if truthy v then v else JUndef)) d = js_or v d"
  by (auto simp: js_or_def)

lemma idle_sent:
  "field_ok v \<Longrightarrow> dflt (wire (if v \<noteq> d \<and> js_gt v (jint 0) then v else JUndef)) d = above_0 v d"
  by (auto simp: above_0_def)

lemma above_0_idem: "above_0 (above_0 v d) d = above_0 v d"
  by (simp add: above_0_def)

lemma quic_restored_idem: "quic_restored (quic_restored x) = quic_restored x"
  by (simp add: quic_restored_def above_0_idem)

lemma distinct_quic_entries: "distinct (keys (quic_entries x))"
  unfolding quic_entries_def Let_def by (intro distinct_set_if) simp

lemma look_sent_nonempty: "look kvs k \<noteq> JUndef \<Longrightarrow> keys (filter (\<lambda>e. snd e \<noteq> JUndef) kvs) \<noteq> []"
proof (induction kvs)
  case (Cons e kvs)
  then show ?case by (cases e) (auto split: if_splits)
qed simp

lemma look_quic_entries:
  "look (quic_entries x) ''congestion'' = quic_congestion x"
  "look (quic_entries x) ''debug'' = (if truthy (quic_debug x) then quic_debug x else JUndef)"
  "look (quic_entries x) ''brutalUp'' = (if truthy (quic_brutalUp x) then quic_brutalUp x else JUndef)"
  "look (quic_entries x) ''brutalDown'' = (if truthy (quic_brutalDown x) then quic_brutalDown x else JUndef)"
  "look (quic_entries x) ''udpHop'' = (if truthy (quic_udpHop x)
     then JObj [(''ports'', js_get_opt (quic_udpHop x) ''ports''), (''interval'', js_get_opt (quic_udpHop x) ''interval'')]
     else JUndef)"
  "look (quic_entries x) ''initStreamReceiveWindow'' =
     (if js_gt (quic_initStreamReceiveWindow x) (jint 0) then quic_initStreamReceiveWindow x else JUndef)"
  "look (quic_entries x) ''maxStreamReceiveWindow'' =
     (if js_gt (quic_maxStreamReceiveWindow x) (jint 0) then quic_maxStreamReceiveWindow x else JUndef)"
  "look (quic_entries x) ''initConnectionReceiveWindow'' =
     (if js_gt (quic_initConnectionReceiveWindow x) (jint 0) then quic_initConnectionReceiveWindow x else JUndef)"
  "look (quic_entries x) ''maxConnectionReceiveWindow'' =
     (if js_gt (quic_maxConnectionReceiveWindow x) (jint 0) then quic_maxConnectionReceiveWindow x else JUndef)"
  "look (quic_entries x) ''maxIdleTimeout'' =
     (if quic_maxIdleTimeout x \<noteq> jint 30 \<and> js_gt (quic_maxIdleTimeout x) (jint 0)
      then quic_maxIdleTimeout x else JUndef)"
  "look (quic_entries x) ''keepAlivePeriod'' =
     (if js_gt (quic_keepAlivePeriod x) (jint 0) then quic_keepAlivePeriod x else JUndef)"
  "look (quic_entries x) ''disablePathMTUDiscovery'' =
     (if truthy (quic_disablePathMTUDiscovery x) then quic_disablePathMTUDiscovery x else JUndef)"
  "look (quic_entries x) ''maxIncomingStreams'' =
     (if js_gt (quic_maxIncomingStreams x) (jint 0) then quic_maxIncomingStreams x else JUndef)"
  by (simp_all only: quic_entries_def Let_def look_set_if look_Cons look_Nil) simp_all

lemma hop_sent:
  assumes "quic_hop u"
  shows "(let v = wire (if truthy u then JObj [(''ports'', js_get_opt u ''ports''), (''interval'', js_get_opt u ''interval'')] else JUndef)
     in if truthy v then do { ports \<leftarrow> js_get v ''ports''; interval \<leftarrow> js_get v ''interval'';
                              Some (JObj [(''ports'', ports), (''interval'', interval)]) } else Some JUndef) = Some u"
proof (cases "u = JUndef")
  case False
  then obtain p i where "u = JObj [(''ports'', p), (''interval'', i)]" "wire p = p" "wire i = i"
    using assms by (auto simp: quic_hop_def opt_field_ok_def)
  then show ?thesis by (simp add: js_get_wire)
qed simp

lemma QuicParams_reloaded:
  assumes "quic_held x"
  shows "QuicParams_fromJson (wire (QuicParams_toJson x)) = Some (Some (quic_restored x))"
proof -
  have f: "field_ok (quic_congestion x)" "field_ok (quic_debug x)" "field_ok (quic_brutalUp x)" "field_ok (quic_brutalDown x)"
    "field_ok (quic_initStreamReceiveWindow x)" "field_ok (quic_maxStreamReceiveWindow x)"
    "field_ok (quic_initConnectionReceiveWindow x)" "field_ok (quic_maxConnectionReceiveWindow x)"
    "field_ok (quic_maxIdleTimeout x)" "field_ok (quic_keepAlivePeriod x)" "field_ok (quic_disablePathMTUDiscovery x)"
    "field_ok (quic_maxIncomingStreams x)" and hop: "quic_hop (quic_udpHop x)"
    using assms by (simp_all add: quic_held_def)
  have c: "look (quic_entries x) ''congestion'' \<noteq> JUndef" using f(1) by (auto simp: look_quic_entries)
  have get: "js_get (wire (JObj (quic_entries x))) k = Some (wire (look (quic_entries x) k))" for k
    by (rule js_get_wire [OF distinct_quic_entries])
  have vals: "dflt (wire (quic_congestion x)) d = quic_congestion x" for d using f(1) by auto
  note read = vals or_sent [OF f(2)] or_sent [OF f(3)] or_sent [OF f(4)] above_0_sent [OF f(5)] above_0_sent [OF f(6)]
    above_0_sent [OF f(7)] above_0_sent [OF f(8)] idle_sent [OF f(9)] above_0_sent [OF f(10)] or_sent [OF f(11)]
    above_0_sent [OF f(12)]
  have fields: "dflt (wire (look (quic_entries x) ''congestion'')) (JStr ''bbr'') = quic_congestion (quic_restored x)"
    "dflt (wire (look (quic_entries x) ''debug'')) (JBool False) = quic_debug (quic_restored x)"
    "dflt (wire (look (quic_entries x) ''brutalUp'')) (JStr '''') = quic_brutalUp (quic_restored x)"
    "dflt (wire (look (quic_entries x) ''brutalDown'')) (JStr '''') = quic_brutalDown (quic_restored x)"
    "dflt (wire (look (quic_entries x) ''initStreamReceiveWindow'')) (JNum (Fin 8388608)) = quic_initStreamReceiveWindow (quic_restored x)"
    "dflt (wire (look (quic_entries x) ''maxStreamReceiveWindow'')) (JNum (Fin 8388608)) = quic_maxStreamReceiveWindow (quic_restored x)"
    "dflt (wire (look (quic_entries x) ''initConnectionReceiveWindow'')) (JNum (Fin 20971520)) = quic_initConnectionReceiveWindow (quic_restored x)"
    "dflt (wire (look (quic_entries x) ''maxConnectionReceiveWindow'')) (JNum (Fin 20971520)) = quic_maxConnectionReceiveWindow (quic_restored x)"
    "dflt (wire (look (quic_entries x) ''maxIdleTimeout'')) (JNum (Fin 30)) = quic_maxIdleTimeout (quic_restored x)"
    "dflt (wire (look (quic_entries x) ''keepAlivePeriod'')) (JNum (Fin 0)) = quic_keepAlivePeriod (quic_restored x)"
    "dflt (wire (look (quic_entries x) ''disablePathMTUDiscovery'')) (JBool False) = quic_disablePathMTUDiscovery (quic_restored x)"
    "dflt (wire (look (quic_entries x) ''maxIncomingStreams'')) (JNum (Fin 1024)) = quic_maxIncomingStreams (quic_restored x)"
    unfolding look_quic_entries using read by (simp_all add: quic_restored_def)
  define w where "w = wire (JObj (quic_entries x))"
  define h where "h = wire (look (quic_entries x) ''udpHop'')"
  have w: "dflt w (JObj []) = w" "truthy w" by (simp_all add: w_def wire.simps(7))
  obtain ks where ks: "object_keys w = Some ks" "ks \<noteq> []"
    using look_sent_nonempty [OF c] by (simp add: w_def object_keys_wire)
  have hs: "(if truthy h then do { ports \<leftarrow> js_get h ''ports''; interval \<leftarrow> js_get h ''interval'';
      Some (JObj [(''ports'', ports), (''interval'', interval)]) } else Some JUndef) = Some (quic_udpHop (quic_restored x))"
    using hop_sent [OF hop] unfolding h_def look_quic_entries Let_def by (simp only: quic_restored_def QuicParams.select_convs)
  show ?thesis
    unfolding QuicParams_fromJson_def QuicParams_toJson_def w_def [symmetric]
    by (simp add: w ks get [folded w_def] h_def [symmetric] hs Let_def new_QuicParams_def fields)
qed

lemma QuicParams_ok_kept: "QuicParams_ok x \<Longrightarrow> quic_held x \<and> quic_restored x = x"
proof -
  assume ok: "QuicParams_ok x"
  have p: "positive v \<Longrightarrow> field_ok v \<and> above_0 v d = v" for v d
    using positive_sent [of v] by (simp add: field_ok_def above_0_def)
  have fl: "js_flag v \<Longrightarrow> field_ok v \<and> js_or v (JBool False) = v" for v by (cases v) (auto simp: js_or_def)
  have st: "is_string v \<Longrightarrow> field_ok v \<and> js_or v (JStr '''') = v" for v by (cases v) (auto simp: js_or_def)
  have z: "above_0 (JNum (Fin 0)) (JNum (Fin 0)) = JNum (Fin 0)" by (simp add: above_0_def)
  have "quic_hop (quic_udpHop x)" using ok by (auto simp: QuicParams_ok_def quic_hop_def opt_field_ok_def)
  then show ?thesis
    using ok by (cases x) (auto simp: QuicParams_ok_def quic_held_def quic_restored_def p fl st z)
qed

lemma QuicParams_roundtrip: "QuicParams_ok x \<Longrightarrow> QuicParams_fromJson (wire (QuicParams_toJson x)) = Some (Some x)"
  using QuicParams_reloaded [of x] QuicParams_ok_kept [of x] by simp

text \<open>Every set of parameters that the program makes is held.\<close>

lemma quic_held_default: "quic_held default_QuicParams"
  by (simp add: quic_held_def quic_hop_def default_QuicParams_def new_QuicParams_def)

lemma quic_held_switch: "quic_held x \<Longrightarrow> quic_held (quic_set_hasUdpHop b x)"
  by (auto simp: quic_held_def quic_hop_def quic_set_hasUdpHop_def js_or_def opt_field_ok_def)

lemma json_get: "json_val j \<Longrightarrow> j \<noteq> JNull \<Longrightarrow> \<exists>v. js_get j k = Some v \<and> (v = JUndef \<or> json_val v)"
  by (cases j) (auto simp del: json_val.simps(7) dest: json_look)

lemma json_gets:
  assumes "json_val j" and "j \<noteq> JNull"
  obtains g where "\<And>k. js_get j k = Some (g k)" "\<And>k. g k = JUndef \<or> json_val (g k)"
  using json_get [OF assms] by metis

lemma quic_held_loaded:
  assumes "json_val j" and "QuicParams_fromJson j = Some (Some x)"
  shows "quic_held x"
proof -
  have j: "truthy j" "dflt j (JObj []) = j" "j \<noteq> JNull"
    using assms by (auto simp: QuicParams_fromJson_def Let_def split: if_splits)
  obtain g where get: "\<And>k. js_get j k = Some (g k)" and val: "\<And>k. g k = JUndef \<or> json_val (g k)"
    using json_gets [OF assms(1) j(3)] by blast
  define hop where "hop = (if truthy (g ''udpHop'')
      then do { ports \<leftarrow> js_get (g ''udpHop'') ''ports''; interval \<leftarrow> js_get (g ''udpHop'') ''interval'';
                Some (JObj [(''ports'', ports), (''interval'', interval)]) } else Some JUndef)"
  have "do { ks \<leftarrow> object_keys j; if ks = [] then Some None else
      do { u \<leftarrow> hop; Some (Some (new_QuicParams (g ''congestion'') (g ''debug'') (g ''brutalUp'') (g ''brutalDown'') u
       (g ''initStreamReceiveWindow'') (g ''maxStreamReceiveWindow'') (g ''initConnectionReceiveWindow'')
       (g ''maxConnectionReceiveWindow'') (g ''maxIdleTimeout'') (g ''keepAlivePeriod'') (g ''disablePathMTUDiscovery'')
       (g ''maxIncomingStreams''))) } } = Some (Some x)"
    using assms(2) j(1) unfolding QuicParams_fromJson_def Let_def hop_def j(2) by (simp add: get cong: if_cong)
  then obtain u where u: "hop = Some u"
    and x: "x = new_QuicParams (g ''congestion'') (g ''debug'') (g ''brutalUp'') (g ''brutalDown'') u
       (g ''initStreamReceiveWindow'') (g ''maxStreamReceiveWindow'') (g ''initConnectionReceiveWindow'')
       (g ''maxConnectionReceiveWindow'') (g ''maxIdleTimeout'') (g ''keepAlivePeriod'') (g ''disablePathMTUDiscovery'')
       (g ''maxIncomingStreams'')"
    by (auto split: bind_splits if_splits)
  have d: "field_ok (dflt (g k) d)" if "field_ok d" for k d
    using val [of k] that by (auto simp: dflt_def json_val_field_ok)
  have "quic_hop u"
  proof (cases "truthy (g ''udpHop'')")
    case True
    then have "json_val (g ''udpHop'')" "g ''udpHop'' \<noteq> JNull" using val [of "''udpHop''"] truthy_not_undef [of "g ''udpHop''"] by auto
    then obtain h where "\<And>k. js_get (g ''udpHop'') k = Some (h k)" "\<And>k. h k = JUndef \<or> json_val (h k)"
      using json_gets [of "g ''udpHop''"] by blast
    moreover have "v = JUndef \<or> json_val v \<Longrightarrow> opt_field_ok v" for v by (auto simp: opt_field_ok_def)
    ultimately show ?thesis using u True by (auto simp: hop_def quic_hop_def)
  next
    case False
    then show ?thesis using u by (simp add: hop_def quic_hop_def)
  qed
  then show ?thesis by (simp add: x quic_held_def new_QuicParams_def d)
qed

text \<open>
  The settings of a document may be any JSON value. The types with settings of their own read
  nothing from a value that is no object, and the other types keep it as it is.
\<close>

definition udp_known :: "string list" where
  "udp_known = [''salamander'', ''mkcp-aes128gcm'', ''header-dns'', ''xdns'', ''xicmp'', ''mkcp-original'', ''header-dtls'',
     ''header-srtp'', ''header-utp'', ''header-wechat'', ''header-wireguard'', ''header-custom'', ''noise'']"

lemma udp_other_type:
  assumes "\<not> (\<exists>t \<in> set udp_known. v = JStr t)"
  shows "udp_default_settings v = (\<lambda>s. Some (dflt s (JObj [])))" "udp_clean v s = s"
proof -
  show "udp_default_settings v = (\<lambda>s. Some (dflt s (JObj [])))"
    using assms by (cases v) (auto simp: udp_default_settings_def udp_known_def Let_def)
  show "udp_clean v s = s" using assms by (auto simp: udp_clean_def udp_known_def Let_def)
qed

lemma js_get_no_object:
  "v \<noteq> JUndef \<Longrightarrow> v \<noteq> JNull \<Longrightarrow> (\<And>kvs. v \<noteq> JObj kvs) \<Longrightarrow> k \<noteq> ''length'' \<Longrightarrow> js_get v k = Some JUndef"
  by (cases v) auto

lemma udp_known_no_object:
  assumes "t \<in> set udp_known" and "v \<noteq> JUndef" "v \<noteq> JNull" "\<And>kvs. v \<noteq> JObj kvs"
  shows "udp_default_settings (JStr t) v = udp_default_settings (JStr t) (JObj [])"
  using js_get_no_object [OF assms(2-4)] assms(1,2) unfolding udp_known_def
  by (auto simp: udp_default_settings_def Let_def)

lemma udp_settled_object:
  assumes "json_val (JObj kvs)" and "t \<noteq> []" and "new_UdpMask (JStr t) (JObj kvs) = Some m"
  shows "\<exists>m'. UdpMask_fromJson (wire (UdpMask_toJson m)) = Some m' \<and> udp_type m' = JStr t \<and>
    UdpMask_toJson m' = UdpMask_toJson m \<and> UdpMask_fromJson (wire (UdpMask_toJson m')) = Some m'"
proof -
  let ?m = "m\<lparr>udp_settings := udp_clean (udp_type m) (udp_settings m)\<rparr>"
  have ok: "UdpMask_ok ?m" by (rule UdpMask_saved_ok [OF assms])
  then have same: "UdpMask_toJson ?m = UdpMask_toJson m" by (simp add: UdpMask_ok_def UdpMask_toJson_def)
  moreover have "udp_type ?m = JStr t" using assms(3) by (auto simp: new_UdpMask_def Let_def split: bind_splits)
  ultimately show ?thesis using UdpMask_roundtrip [OF ok] by auto
qed

lemma udp_settled_other:
  assumes "\<not> (\<exists>t \<in> set udp_known. v = JStr t)" and "truthy v" "json_val v" "truthy s" "json_val s"
  shows "\<exists>m m'. new_UdpMask v s = Some m \<and> udp_type m = v \<and> UdpMask_fromJson (wire (UdpMask_toJson m)) = Some m' \<and> udp_type m' = v \<and>
    UdpMask_toJson m' = UdpMask_toJson m \<and> UdpMask_fromJson (wire (UdpMask_toJson m')) = Some m'"
proof -
  define r where "r = sent_settings s"
  define s' where "s' = js_or r (JObj [])"
  have n: "new_UdpMask v u = Some \<lparr>udp_type = v, udp_settings = u\<rparr>" if "truthy u" for u
    using that assms(2) truthy_not_undef [of u] truthy_not_undef [of v]
    by (simp add: new_UdpMask_def udp_other_type [OF assms(1)])
  have j: "UdpMask_toJson \<lparr>udp_type = v, udp_settings = u\<rparr> = JObj [(''type'', v), (''settings'', sent_settings u)]" for u
    by (simp add: UdpMask_toJson_def udp_other_type [OF assms(1)])
  have r: "wire r = r" "sent_settings s' = r" "truthy s'" using assms(4,5) by (auto simp: r_def s'_def sent_settings_def js_or_def)
  have "UdpMask_fromJson (wire (JObj [(''type'', v), (''settings'', r)])) = new_UdpMask v s'"
    using assms(2,3) r(1) by (simp add: UdpMask_fromJson_def js_get_wire Let_def js_or_def s'_def)
  then show ?thesis using n [OF assms(4)] n [OF r(3)] by (simp add: j r(2) r_def [symmetric])
qed

text \<open>
  C21: a UDP mask read from any JSON document reaches its saved form in one save. A document that is
  null throws; every other one, whatever its type and settings are or lack, is read as a mask, and
  loading the saved form of that mask gives a mask of the same type that saves identically and
  from then on is its own round trip: the items of the noise and custom masks are cleaned once,
  and never lose a key again.
\<close>
theorem udp_mask_settles:
  assumes "json_val j" and "j \<noteq> JNull"
  shows "UdpMask_fromJson JNull = None \<and>
    (\<exists>m m'. UdpMask_fromJson j = Some m \<and> UdpMask_fromJson (wire (UdpMask_toJson m)) = Some m' \<and> udp_type m' = udp_type m \<and>
      UdpMask_toJson m' = UdpMask_toJson m \<and> UdpMask_fromJson (wire (UdpMask_toJson m')) = Some m')"
proof -
  obtain t s where g: "js_get j ''type'' = Some t" "t = JUndef \<or> json_val t" "js_get j ''settings'' = Some s" "s = JUndef \<or> json_val s"
    using json_get [OF assms] by metis
  define v where "v = js_or t (JStr ''salamander'')"
  define u where "u = js_or s (JObj [])"
  have vu: "truthy v" "json_val v" "truthy u" "json_val u" using g(2,4) by (auto simp: v_def u_def js_or_def)
  have f: "UdpMask_fromJson j = new_UdpMask v u"
    using assms(1) by (simp add: UdpMask_fromJson_def g(1,3) v_def u_def)
  have "\<exists>m m'. new_UdpMask v u = Some m \<and> UdpMask_fromJson (wire (UdpMask_toJson m)) = Some m' \<and> udp_type m' = udp_type m \<and>
      UdpMask_toJson m' = UdpMask_toJson m \<and> UdpMask_fromJson (wire (UdpMask_toJson m')) = Some m'"
  proof (cases "\<exists>t \<in> set udp_known. v = JStr t")
    case True
    then obtain w where w: "w \<in> set udp_known" "v = JStr w" by blast
    define u' where "u' = (case u of JObj kvs \<Rightarrow> u | _ \<Rightarrow> JObj [])"
    obtain kvs where k: "u' = JObj kvs" "json_val (JObj kvs)" using vu(4) by (cases u) (auto simp: u'_def)
    have "udp_default_settings v u = udp_default_settings v u'"
      using udp_known_no_object [OF w(1), of u] vu(3) by (cases u) (auto simp: w(2) u'_def)
    then have n: "new_UdpMask v u = new_UdpMask (JStr w) (JObj kvs)"
      using truthy_not_undef [OF vu(3)] k(1) by (simp add: new_UdpMask_def w(2))
    obtain d where "udp_default_settings (JStr w) (JObj kvs) = Some d"
      by (cases "udp_default_settings (JStr w) (JObj kvs)") (use w(1) in \<open>auto simp: udp_default_settings_def Let_def udp_known_def\<close>)
    then have m: "new_UdpMask (JStr w) (JObj kvs) = Some \<lparr>udp_type = JStr w, udp_settings = d\<rparr>" by (simp add: new_UdpMask_def)
    have "w \<noteq> []" using w(1) by (auto simp: udp_known_def)
    from udp_settled_object [OF k(2) this m] show ?thesis by (auto simp: n m)
  next
    case False
    from udp_settled_other [OF this vu] show ?thesis by auto
  qed
  then show ?thesis by (simp add: f) (simp add: UdpMask_fromJson_def)
qed

theorem udp_mask_settles_witness:
  "let item = JObj [(''type'', JStr ''array''), (''packet'', JStr ''x''), (''rand'', jint 5)];
       j = JObj [(''type'', JStr ''noise''), (''settings'', JObj [(''noise'', JArr [item]), (''other'', JNull)])]
   in UdpMask_fromJson JNull = None \<and>
    (\<exists>m m'. UdpMask_fromJson j = Some m \<and> UdpMask_fromJson (wire (UdpMask_toJson m)) = Some m' \<and> udp_type m' = udp_type m \<and>
      UdpMask_toJson m' = UdpMask_toJson m \<and> UdpMask_fromJson (wire (UdpMask_toJson m')) = Some m')"
  unfolding Let_def by (rule udp_mask_settles) simp_all

lemma same_value_kept:
  "0 < q \<Longrightarrow> above_0 v (JNum (Fin q)) = v \<longleftrightarrow> js_gt v (JNum (Fin 0))"
  "above_0 v (JNum (Fin 0)) = v \<longleftrightarrow> js_gt v (JNum (Fin 0)) \<or> v = JNum (Fin 0)"
  "js_or v d = v \<longleftrightarrow> truthy v \<or> v = d"
  by (auto simp: above_0_def js_or_def)

lemma quic_unchanged:
  "quic_restored x = x \<longleftrightarrow>
     list_all (\<lambda>v. js_gt v (jint 0)) [quic_initStreamReceiveWindow x, quic_maxStreamReceiveWindow x,
       quic_initConnectionReceiveWindow x, quic_maxConnectionReceiveWindow x, quic_maxIncomingStreams x, quic_maxIdleTimeout x] \<and>
     (js_gt (quic_keepAlivePeriod x) (jint 0) \<or> quic_keepAlivePeriod x = jint 0) \<and>
     (truthy (quic_debug x) \<or> quic_debug x = JBool False) \<and>
     (truthy (quic_disablePathMTUDiscovery x) \<or> quic_disablePathMTUDiscovery x = JBool False) \<and>
     (truthy (quic_brutalUp x) \<or> quic_brutalUp x = JStr '''') \<and> (truthy (quic_brutalDown x) \<or> quic_brutalDown x = JStr '''')"
  by (cases x) (simp add: quic_restored_def same_value_kept, blast)

text \<open>
  C36: what a save does to QUIC parameters. Only some of the thirteen fields are written: a window, the
  count of streams and the keep-alive period only above zero, the idle timeout only above zero
  and when it is not thirty seconds, flags and rates only when they are set. For every set of parameters that a
  form can hold (zero, negative and non-numeric values included) loading what was written
  succeeds and gives \<open>quic_restored\<close>: a value that was written comes back as it was, and in the
  place of one that was not comes the reader's default, so a window, timeout or count of
  zero or less turns into 8388608, 20971520, 30 or 1024. A second save changes nothing more, and the
  parameters come back unchanged exactly when they have none of these values.
\<close>
theorem QuicParams_saved:
  assumes "quic_held x"
  shows "QuicParams_fromJson (wire (QuicParams_toJson x)) = Some (Some (quic_restored x)) \<and>
    QuicParams_fromJson (wire (QuicParams_toJson (quic_restored x))) = Some (Some (quic_restored x)) \<and>
    (quic_restored x = x \<longleftrightarrow>
       list_all (\<lambda>v. js_gt v (jint 0)) [quic_initStreamReceiveWindow x, quic_maxStreamReceiveWindow x,
         quic_initConnectionReceiveWindow x, quic_maxConnectionReceiveWindow x, quic_maxIncomingStreams x, quic_maxIdleTimeout x] \<and>
       (js_gt (quic_keepAlivePeriod x) (jint 0) \<or> quic_keepAlivePeriod x = jint 0) \<and>
       (truthy (quic_debug x) \<or> quic_debug x = JBool False) \<and>
       (truthy (quic_disablePathMTUDiscovery x) \<or> quic_disablePathMTUDiscovery x = JBool False) \<and>
       (truthy (quic_brutalUp x) \<or> quic_brutalUp x = JStr '''') \<and> (truthy (quic_brutalDown x) \<or> quic_brutalDown x = JStr ''''))"
proof -
  have "quic_held (quic_restored x)" using assms by (simp add: quic_held_def quic_restored_def above_0_def js_or_def)
  then have "QuicParams_fromJson (wire (QuicParams_toJson (quic_restored x))) = Some (Some (quic_restored x))"
    using QuicParams_reloaded [of "quic_restored x"] by (simp add: quic_restored_idem)
  with QuicParams_reloaded [OF assms] show ?thesis by (simp add: quic_unchanged)
qed

theorem QuicParams_saved_witness:
  "let x = (quic_set_hasUdpHop True default_QuicParams)\<lparr>quic_maxIdleTimeout := jint 45, quic_maxIncomingStreams := jint (-1)\<rparr>;
       y = x\<lparr>quic_maxIncomingStreams := jint 1024\<rparr>
   in QuicParams_fromJson (wire (QuicParams_toJson x)) = Some (Some y) \<and>
      QuicParams_fromJson (wire (QuicParams_toJson y)) = Some (Some y)"
proof -
  define x where "x = (quic_set_hasUdpHop True default_QuicParams)\<lparr>quic_maxIdleTimeout := jint 45, quic_maxIncomingStreams := jint (-1)\<rparr>"
  have "quic_held (quic_set_hasUdpHop True default_QuicParams)" by (rule quic_held_switch [OF quic_held_default])
  then have h: "quic_held x" by (simp add: x_def quic_held_def)
  have r: "quic_restored x = x\<lparr>quic_maxIncomingStreams := jint 1024\<rparr>"
    by (simp add: x_def quic_restored_def quic_set_hasUdpHop_def default_QuicParams_def new_QuicParams_def above_0_def js_or_def)
  have "QuicParams_fromJson (wire (QuicParams_toJson x)) = Some (Some (x\<lparr>quic_maxIncomingStreams := jint 1024\<rparr>)) \<and>
      QuicParams_fromJson (wire (QuicParams_toJson (x\<lparr>quic_maxIncomingStreams := jint 1024\<rparr>))) =
        Some (Some (x\<lparr>quic_maxIncomingStreams := jint 1024\<rparr>))"
    using QuicParams_saved [OF h] unfolding r by blast
  then show ?thesis unfolding x_def Let_def .
qed

end
