(* ===== verification/InFinal.thy ===== *)
theory InFinal
  imports InMask
begin

text \<open>
  FinalMaskStreamSettings of web/assets/js/model/inbound.js: the lists of TCP and UDP masks
  and the optional QUIC parameters of a stream.
\<close>

record FinalMask =
  fm_tcp :: "TcpMask list"
  fm_udp :: "UdpMask list"
  fm_quicParams :: "QuicParams option"

text \<open>
  The constructor on parsed values: every element becomes a mask of its own type, and a
  single UDP mask that is no list becomes a list of one.
\<close>

definition tcp_mask_of :: "jsv \<Rightarrow> TcpMask option" where
  "tcp_mask_of t = do { type_v \<leftarrow> js_get t ''type''; settings \<leftarrow> js_get t ''settings''; new_TcpMask type_v settings }"

definition udp_mask_of :: "jsv \<Rightarrow> UdpMask option" where
  "udp_mask_of u = do { type_v \<leftarrow> js_get u ''type''; settings \<leftarrow> js_get u ''settings''; new_UdpMask type_v settings }"

definition new_FinalMask :: "jsv \<Rightarrow> jsv \<Rightarrow> QuicParams option \<Rightarrow> FinalMask option" where
  "new_FinalMask tcp udp quicParams =
     (let tcp = dflt tcp (JArr []); udp = dflt udp (JArr []) in
      do { ts \<leftarrow> (if is_array tcp then js_map tcp_mask_of tcp else Some []);
           us \<leftarrow> (if is_array udp then js_map udp_mask_of udp
                  else do { u \<leftarrow> udp_mask_of udp; Some [u] });
           Some \<lparr>fm_tcp = ts, fm_udp = us, fm_quicParams = quicParams\<rparr> })"

definition default_FinalMask :: FinalMask where
  "default_FinalMask = \<lparr>fm_tcp = [], fm_udp = [], fm_quicParams = None\<rparr>"

definition fm_enableQuicParams :: "FinalMask \<Rightarrow> bool" where
  "fm_enableQuicParams x \<longleftrightarrow> fm_quicParams x \<noteq> None"

definition fm_set_enableQuicParams :: "bool \<Rightarrow> FinalMask \<Rightarrow> FinalMask" where
  "fm_set_enableQuicParams value x =
     x\<lparr>fm_quicParams := if value then Some (opt_new (fm_quicParams x) default_QuicParams) else None\<rparr>"

definition FinalMask_fromJson :: "jsv \<Rightarrow> FinalMask option" where
  "FinalMask_fromJson json =
     (let json = dflt json (JObj []) in
      do { tcp \<leftarrow> js_get json ''tcp'';
           udp \<leftarrow> js_get json ''udp'';
           quicParams \<leftarrow> js_get json ''quicParams'';
           q \<leftarrow> (if truthy quicParams then QuicParams_fromJson quicParams else Some None);
           new_FinalMask (js_or tcp (JArr [])) (js_or udp (JArr [])) q })"

definition fm_entries :: "FinalMask \<Rightarrow> entries" where
  "fm_entries x =
     (let result = [];
          result = set_if (fm_tcp x \<noteq> []) ''tcp'' (JArr (map TcpMask_toJson (fm_tcp x))) result;
          result = set_if (fm_udp x \<noteq> []) ''udp'' (JArr (map UdpMask_toJson (fm_udp x))) result;
          result = set_if (fm_quicParams x \<noteq> None) ''quicParams''
            (case fm_quicParams x of Some q \<Rightarrow> QuicParams_toJson q | None \<Rightarrow> JUndef) result
      in result)"

definition FinalMask_toJson :: "FinalMask \<Rightarrow> jsv" where
  "FinalMask_toJson x = JObj (fm_entries x)"

definition FinalMask_ok :: "FinalMask \<Rightarrow> bool" where
  "FinalMask_ok x \<longleftrightarrow>
     list_all TcpMask_ok (fm_tcp x) \<and> list_all UdpMask_ok (fm_udp x) \<and> pred_option QuicParams_ok (fm_quicParams x)"

lemma tcp_mask_of_saved: "TcpMask_ok m \<Longrightarrow> tcp_mask_of (wire (TcpMask_toJson m)) = Some m"
proof -
  assume ok: "TcpMask_ok m"
  then have "wire (tmask_type m) = tmask_type m" by (auto simp: TcpMask_ok_def is_string_iff)
  then show ?thesis using TcpMask_new_saved [OF ok] by (simp add: tcp_mask_of_def TcpMask_toJson_def js_get_wire)
qed

lemma udp_mask_of_saved: "UdpMask_ok m \<Longrightarrow> udp_mask_of (wire (UdpMask_toJson m)) = Some m"
proof -
  assume ok: "UdpMask_ok m"
  then have "wire (udp_type m) = udp_type m" by (auto simp: UdpMask_ok_def is_string_iff)
  then show ?thesis using UdpMask_new_saved [OF ok] by (simp add: udp_mask_of_def UdpMask_toJson_def js_get_wire)
qed

lemma map_saved:
  assumes "list_all ok xs" and "\<And>x. ok x \<Longrightarrow> dec (wire (enc x)) = Some x" and "\<And>x. enc x \<noteq> JUndef"
  shows "js_map dec (wire (JArr (map enc xs))) = Some xs"
proof -
  have "map (\<lambda>v. if v = JUndef then JNull else wire v) (map enc xs) = map (\<lambda>x. wire (enc x)) xs"
    using assms(3) by simp
  moreover have "mapM dec (map (\<lambda>x. wire (enc x)) xs) = Some xs"
    using assms(1,2) by (intro mapM_inverse) (simp add: list_all_iff)
  ultimately show ?thesis by (simp only: wire.simps js_map.simps)
qed

lemma toJson_defined [simp]:
  "TcpMask_toJson m \<noteq> JUndef" "UdpMask_toJson u \<noteq> JUndef" "QuicParams_toJson q \<noteq> JUndef"
  "truthy (wire (QuicParams_toJson q))"
  by (simp_all add: TcpMask_toJson_def UdpMask_toJson_def QuicParams_toJson_def)

lemma FinalMask_roundtrip:
  assumes "FinalMask_ok x"
  shows "FinalMask_fromJson (wire (FinalMask_toJson x)) = Some x"
proof -
  have d: "distinct (keys (fm_entries x))"
    unfolding fm_entries_def Let_def by (intro distinct_set_if) simp
  have get: "js_get (wire (FinalMask_toJson x)) k = Some (wire (look (fm_entries x) k))" for k
    unfolding FinalMask_toJson_def by (rule js_get_wire [OF d])
  have look: "look (fm_entries x) ''tcp'' = (if fm_tcp x \<noteq> [] then JArr (map TcpMask_toJson (fm_tcp x)) else JUndef)"
    "look (fm_entries x) ''udp'' = (if fm_udp x \<noteq> [] then JArr (map UdpMask_toJson (fm_udp x)) else JUndef)"
    "look (fm_entries x) ''quicParams'' = (case fm_quicParams x of Some q \<Rightarrow> QuicParams_toJson q | None \<Rightarrow> JUndef)"
    by (simp_all add: fm_entries_def Let_def look_set_if split: option.splits)
  have t: "js_map tcp_mask_of (wire (JArr (map TcpMask_toJson (fm_tcp x)))) = Some (fm_tcp x)"
    "js_map udp_mask_of (wire (JArr (map UdpMask_toJson (fm_udp x)))) = Some (fm_udp x)"
    using assms unfolding FinalMask_ok_def
    by (intro map_saved [where ok = TcpMask_ok] map_saved [where ok = UdpMask_ok];
        simp add: tcp_mask_of_saved udp_mask_of_saved)+
  have a: "truthy (wire (JArr vs))" "is_array (wire (JArr vs))" "wire (JArr vs) \<noteq> JUndef" for vs by simp_all
  have q: "\<And>q. fm_quicParams x = Some q \<Longrightarrow> QuicParams_fromJson (wire (QuicParams_toJson q)) = Some (Some q)"
    using assms QuicParams_roundtrip by (simp add: FinalMask_ok_def)
  have tcp: "(if is_array v then js_map tcp_mask_of v else Some []) = Some (fm_tcp x)"
    if "v = dflt (js_or (wire (look (fm_entries x) ''tcp'')) (JArr [])) (JArr [])" for v
    using that t(1) by (cases "fm_tcp x = []") (simp_all add: look a del: wire.simps(6))
  have udp: "(if is_array v then js_map udp_mask_of v else do { u \<leftarrow> udp_mask_of v; Some [u] }) = Some (fm_udp x)"
    if "v = dflt (js_or (wire (look (fm_entries x) ''udp'')) (JArr [])) (JArr [])" for v
    using that t(2) by (cases "fm_udp x = []") (simp_all add: look a del: wire.simps(6))
  have quic: "(if truthy (wire (look (fm_entries x) ''quicParams''))
      then QuicParams_fromJson (wire (look (fm_entries x) ''quicParams'')) else Some None) = Some (fm_quicParams x)"
    by (cases "fm_quicParams x") (simp_all add: look q)
  have ne: "dflt (wire (FinalMask_toJson x)) (JObj []) = wire (FinalMask_toJson x)"
    by (simp add: FinalMask_toJson_def)
  show ?thesis
    by (simp only: FinalMask_fromJson_def new_FinalMask_def Let_def ne get bind.bind_lunit
        tcp [OF refl] udp [OF refl] quic) simp
qed

interpretation fm_codec: json_codec "\<lambda>x. Some (FinalMask_toJson x)" FinalMask_fromJson FinalMask_ok
  by (rule json_codec_totalI) (simp_all add: FinalMask_roundtrip, simp add: FinalMask_toJson_def)

end
