(* ===== verification/Base64.thy ===== *)
theory Base64
  imports XrayCommon
begin

text \<open>
  The class Base64 of web/assets/js/util/index.js over the browser's \<open>btoa\<close>, \<open>atob\<close>,
  \<open>TextEncoder\<close> and \<open>TextDecoder\<close>, which are modelled as the web standards describe them:
  RFC 4648 with padding, the forgiving decoder (white space dropped, padding optional,
  failure as None), and UTF-8. A decoded code point above 255 has no character here, and
  the decoder of the model returns None for it.
\<close>

section \<open>The alphabet\<close>

definition b64_code :: "nat \<Rightarrow> nat" where
  "b64_code n = (if n < 26 then 65 + n else if n < 52 then 71 + n else if n < 62 then n - 4
     else if n = 62 then 43 else 47)"

definition b64_char :: "nat \<Rightarrow> char" where
  "b64_char n = char_of (b64_code n)"

definition b64_val :: "char \<Rightarrow> nat option" where
  "b64_val ch = (let c = of_char ch :: nat in
     if 65 \<le> c \<and> c \<le> 90 then Some (c - 65)
     else if 97 \<le> c \<and> c \<le> 122 then Some (c - 71)
     else if 48 \<le> c \<and> c \<le> 57 then Some (c + 4)
     else if c = 43 then Some 62 else if c = 47 then Some 63 else None)"

lemma b64_code_range: "n < 64 \<Longrightarrow> 43 \<le> b64_code n \<and> b64_code n < 123 \<and> b64_code n \<noteq> 61"
  by (auto simp: b64_code_def)

lemma of_b64_char: "n < 64 \<Longrightarrow> (of_char (b64_char n) :: nat) = b64_code n"
  using b64_code_range [of n] by (simp add: b64_char_def)

lemma b64_val_char [simp]: "n < 64 \<Longrightarrow> b64_val (b64_char n) = Some n"
  by (auto simp: b64_val_def of_b64_char b64_code_def Let_def)

section \<open>btoa and atob\<close>

fun enc_bytes :: "nat list \<Rightarrow> string" where
  "enc_bytes [] = []"
| "enc_bytes [a] = [b64_char (a div 4), b64_char (a mod 4 * 16), CHR ''='', CHR ''='']"
| "enc_bytes [a, b] =
     [b64_char (a div 4), b64_char (a mod 4 * 16 + b div 16), b64_char (b mod 16 * 4), CHR ''='']"
| "enc_bytes (a # b # c # r) =
     [b64_char (a div 4), b64_char (a mod 4 * 16 + b div 16), b64_char (b mod 16 * 4 + c div 64),
      b64_char (c mod 64)] @ enc_bytes r"

fun dec_sextets :: "nat list \<Rightarrow> nat list" where
  "dec_sextets (a # b # c # d # r) =
     [a * 4 + b div 16, b mod 16 * 16 + c div 4, c mod 4 * 64 + d] @ dec_sextets r"
| "dec_sextets [a, b, c] = [a * 4 + b div 16, b mod 16 * 16 + c div 4]"
| "dec_sextets [a, b] = [a * 4 + b div 16]"
| "dec_sextets _ = []"

definition btoa :: "string \<Rightarrow> string" where
  "btoa s = enc_bytes (map of_char s)"

definition b64_space :: "char \<Rightarrow> bool" where
  "b64_space c \<longleftrightarrow> of_char c \<in> {9, 10, 12, 13, 32 :: nat}"

definition strip_pad :: "string \<Rightarrow> string" where
  "strip_pad s =
     (if length s mod 4 = 0
      then if 2 \<le> length s \<and> drop (length s - 2) s = ''=='' then take (length s - 2) s
           else if 1 \<le> length s \<and> last s = CHR ''='' then butlast s else s
      else s)"

definition atob :: "string \<Rightarrow> string option" where
  "atob s =
     (let t = strip_pad (filter (\<lambda>c. \<not> b64_space c) s) in
      if length t mod 4 = 1 then None
      else do { vs \<leftarrow> mapM b64_val t; Some (map char_of (dec_sextets vs)) })"

lemma enc_bytes_append: "length xs mod 3 = 0 \<Longrightarrow> enc_bytes (xs @ ys) = enc_bytes xs @ enc_bytes ys"
  by (induction xs rule: enc_bytes.induct) auto

lemma length_enc_bytes: "length (enc_bytes bs) = 4 * ((length bs + 2) div 3)"
  by (induction bs rule: enc_bytes.induct) (simp_all; presburger)+

text \<open>The encoding without its padding, and the sextets it spells.\<close>

fun sextets :: "nat list \<Rightarrow> nat list" where
  "sextets [] = []"
| "sextets [a] = [a div 4, a mod 4 * 16]"
| "sextets [a, b] = [a div 4, a mod 4 * 16 + b div 16, b mod 16 * 4]"
| "sextets (a # b # c # r) =
     [a div 4, a mod 4 * 16 + b div 16, b mod 16 * 4 + c div 64, c mod 64] @ sextets r"

lemma sextet_mid: "a mod 4 * 16 + b div 16 < 64" "b mod 16 * 4 + c div 64 < 64"
  if "(b :: nat) < 256" "(c :: nat) < 256" for a b c :: nat
proof -
  have "a mod 4 \<le> 3" "b div 16 \<le> 15" "b mod 16 \<le> 15" "c div 64 \<le> 3" using that by auto
  then show "a mod 4 * 16 + b div 16 < 64" "b mod 16 * 4 + c div 64 < 64" by linarith+
qed

lemma sextets_range: "list_all (\<lambda>b. b < 256) bs \<Longrightarrow> v \<in> set (sextets bs) \<Longrightarrow> v < 64"
  by (induction bs rule: sextets.induct)
    (auto simp: sextet_mid intro: sextet_mid(1) [where c = 0] sextet_mid(2) [where c = 0, simplified])

lemma sextet_bytes:
  fixes a b c :: nat
  assumes "a < 256" "b < 256" "c < 256"
  shows "a div 4 * 4 + (a mod 4 * 16 + b div 16) div 16 = a"
    and "(a mod 4 * 16 + b div 16) mod 16 * 16 + (b mod 16 * 4 + c div 64) div 4 = b"
    and "(b mod 16 * 4 + c div 64) mod 4 * 64 + c mod 64 = c"
proof -
  have "b div 16 < 16" "c div 64 < 4" using assms by auto
  then have "(a mod 4 * 16 + b div 16) div 16 = a mod 4" "(a mod 4 * 16 + b div 16) mod 16 = b div 16"
    "(b mod 16 * 4 + c div 64) div 4 = b mod 16" "(b mod 16 * 4 + c div 64) mod 4 = c div 64"
    by simp_all
  then show "a div 4 * 4 + (a mod 4 * 16 + b div 16) div 16 = a"
    "(a mod 4 * 16 + b div 16) mod 16 * 16 + (b mod 16 * 4 + c div 64) div 4 = b"
    "(b mod 16 * 4 + c div 64) mod 4 * 64 + c mod 64 = c" by simp_all
qed

lemma dec_sextets_inverse: "list_all (\<lambda>b. b < 256) bs \<Longrightarrow> dec_sextets (sextets bs) = bs"
proof (induction bs rule: sextets.induct)
  case (4 a b c r)
  then show ?case using sextet_bytes [of a b c] by simp
next
  case (3 a b)
  then show ?case using sextet_bytes [of a b 0] by simp
next
  case (2 a)
  then show ?case using sextet_bytes [of a 0 0] by simp
qed simp

definition padding :: "nat \<Rightarrow> string" where
  "padding n = (if n mod 3 = 1 then ''=='' else if n mod 3 = 2 then ''='' else '''')"

lemma enc_bytes_sextets: "enc_bytes bs = map b64_char (sextets bs) @ padding (length bs)"
  by (induction bs rule: enc_bytes.induct) (simp_all add: padding_def)

lemma length_sextets: "length (sextets bs) = (4 * length bs + 2) div 3"
  by (induction bs rule: sextets.induct) auto

lemma b64_char_not_eq: "n < 64 \<Longrightarrow> b64_char n \<noteq> CHR ''=''"
  using of_b64_char [of n] b64_code_range [of n] by auto

lemma b64_char_not_space: "n < 64 \<Longrightarrow> \<not> b64_space (b64_char n)"
  using of_b64_char [of n] b64_code_range [of n] by (auto simp: b64_space_def)

lemma strip_pad_enc:
  assumes "list_all (\<lambda>b. b < 256) bs"
  shows "strip_pad (enc_bytes bs) = map b64_char (sextets bs)"
proof -
  let ?s = "map b64_char (sextets bs)"
  have no: "CHR ''='' \<notin> set ?s"
    using sextets_range [OF assms] b64_char_not_eq by fastforce
  have len: "length ?s = (4 * length bs + 2) div 3" by (simp add: length_sextets)
  consider "length bs mod 3 = 1" | "length bs mod 3 = 2" | "length bs mod 3 = 0" by linarith
  then show ?thesis
  proof cases
    case 1
    then have "(length ?s + 2) mod 4 = 0" unfolding len by presburger
    with 1 show ?thesis by (simp add: enc_bytes_sextets padding_def strip_pad_def)
  next
    case 2
    then have l: "(length ?s + 1) mod 4 = 0" unfolding len by presburger
    then have "?s \<noteq> []" by auto
    then obtain u c where u: "?s = u @ [c]" by (metis rev_exhaust)
    with no have "c \<noteq> CHR ''=''" by auto
    then have "strip_pad (?s @ ''='') = ?s"
      unfolding u using l u by (simp add: strip_pad_def butlast_append)
    with 2 show ?thesis by (simp add: enc_bytes_sextets padding_def)
  next
    case 3
    have "?s = [] \<or> last ?s \<noteq> CHR ''=''" using no last_in_set [of ?s] by fastforce
    moreover have "drop (length ?s - 2) ?s \<noteq> ''==''"
      using no by (metis in_set_dropD list.set_intros(1))
    ultimately show ?thesis using 3 by (auto simp: enc_bytes_sextets padding_def strip_pad_def)
  qed
qed

lemma atob_enc_bytes:
  assumes "list_all (\<lambda>b. b < 256) bs"
  shows "atob (enc_bytes bs) = Some (map char_of bs)"
proof -
  have "\<not> b64_space c" if "c \<in> set (enc_bytes bs)" for c
    using that sextets_range [OF assms] b64_char_not_space
    by (auto simp: enc_bytes_sextets padding_def b64_space_def split: if_splits)
  then have f: "filter (\<lambda>c. \<not> b64_space c) (enc_bytes bs) = enc_bytes bs" by simp
  have "length (sextets bs) mod 4 \<noteq> 1" unfolding length_sextets by presburger
  moreover have "mapM b64_val (map b64_char (sextets bs)) = Some (sextets bs)"
    using sextets_range [OF assms] by (intro mapM_inverse) auto
  ultimately show ?thesis
    by (simp add: atob_def f strip_pad_enc [OF assms] dec_sextets_inverse [OF assms])
qed

lemma byte_codes: "list_all (\<lambda>b. b < (256 :: nat)) (map of_char s)"
  by (simp add: list_all_iff)

lemma atob_btoa [simp]: "atob (btoa s) = Some s"
  by (simp add: btoa_def atob_enc_bytes byte_codes comp_def)

section \<open>UTF-8\<close>

fun utf8_encode :: "string \<Rightarrow> string" where
  "utf8_encode [] = []"
| "utf8_encode (c # s) = (let n = of_char c :: nat in
     if n < 128 then c # utf8_encode s
     else char_of (192 + n div 64) # char_of (128 + n mod 64) # utf8_encode s)"

fun utf8_chars :: "nat list \<Rightarrow> string option" where
  "utf8_chars [] = Some []"
| "utf8_chars [a] = (if a < 128 then Some [char_of a] else None)"
| "utf8_chars (a # b # r) =
     (if a < 128 then map_option ((#) (char_of a)) (utf8_chars (b # r))
      else if (a = 194 \<or> a = 195) \<and> 128 \<le> b \<and> b < 192
      then map_option ((#) (char_of ((a - 192) * 64 + (b - 128)))) (utf8_chars r)
      else None)"

text \<open>The decoder drops a leading byte order mark.\<close>

definition utf8_decode :: "string \<Rightarrow> string option" where
  "utf8_decode s =
     (let bs = map of_char s in utf8_chars (if take 3 bs = [239, 187, 191] then drop 3 bs else bs))"

lemma utf8_pair:
  fixes n :: nat
  assumes "n < 256" "\<not> n < 128"
  shows "192 + n div 64 = 194 \<or> 192 + n div 64 = 195" "128 + n mod 64 < 192"
    and "(192 + n div 64 - 192) * 64 + (128 + n mod 64 - 128) = n"
proof -
  have "n div 64 \<ge> 2" "n div 64 < 4" using assms by linarith+
  then show "192 + n div 64 = 194 \<or> 192 + n div 64 = 195" by linarith
qed simp_all

lemma utf8_chars_pair:
  assumes "\<not> (of_char c :: nat) < 128"
  shows "utf8_chars ((192 + of_char c div 64) # (128 + of_char c mod 64) # r) = map_option ((#) c) (utf8_chars r)"
proof -
  define n where "n = (of_char c :: nat)"
  have n: "n < 256" "\<not> n < 128" "char_of n = c" using assms by (simp_all add: n_def)
  have "utf8_chars ((192 + n div 64) # (128 + n mod 64) # r) =
      map_option ((#) (char_of ((192 + n div 64 - 192) * 64 + (128 + n mod 64 - 128)))) (utf8_chars r)"
    using utf8_pair(1,2) [OF n(1,2)] by (simp del: add_diff_cancel_left')
  then show ?thesis unfolding utf8_pair(3) [OF n(1,2)] n(3) by (simp only: n_def)
qed

lemma utf8_chars_encode: "utf8_chars (map of_char (utf8_encode s)) = Some s"
proof (induction s)
  case (Cons c s)
  have "(of_char c :: nat) div 64 < 4" using nat_of_char_less_256 [of c] by linarith
  then have b: "192 + of_char c div 64 < (256 :: nat)" "128 + of_char c mod 64 < (256 :: nat)" by simp_all
  show ?case
  proof (cases "(of_char c :: nat) < 128")
    case True
    with Cons show ?thesis
      by (cases "map of_char (utf8_encode s) :: nat list") auto
  next
    case False
    then have "map of_char (utf8_encode (c # s)) =
        (192 + of_char c div 64) # (128 + of_char c mod 64 :: nat) # map of_char (utf8_encode s)"
      using b by (simp add: Let_def)
    with Cons show ?thesis by (simp only: utf8_chars_pair [OF False]) simp
  qed
qed simp

lemma utf8_no_bom: "take 3 (map of_char (utf8_encode s)) \<noteq> [239, 187, 191 :: nat]"
proof
  assume bom: "take 3 (map of_char (utf8_encode s)) = [239, 187, 191 :: nat]"
  then obtain c r where s: "s = c # r" by (cases s) auto
  have "(of_char c :: nat) < 256" by simp
  then have "(of_char c :: nat) div 64 < 4" by linarith
  then have "hd (map of_char (utf8_encode s)) =
      (if (of_char c :: nat) < 128 then of_char c else 192 + of_char c div 64 :: nat)"
    by (simp add: s Let_def)
  moreover have "hd (map of_char (utf8_encode s)) = (239 :: nat)"
    by (metis bom hd_take list.sel(1) zero_less_numeral)
  moreover have "(if n < 128 then n else 192 + n div 64) \<noteq> 239" if "n div 64 < 4" for n :: nat
    using that by auto
  ultimately show False using \<open>(of_char c :: nat) div 64 < 4\<close> by metis
qed

lemma utf8_decode_encode [simp]: "utf8_decode (utf8_encode s) = Some s"
  using utf8_no_bom [of s] by (simp add: utf8_decode_def utf8_chars_encode Let_def)

section \<open>The class\<close>

definition to_url_safe :: "string \<Rightarrow> string" where
  "to_url_safe s = map (\<lambda>c. if c = CHR ''/'' then CHR ''_'' else c)
     (filter (\<lambda>c. c \<noteq> CHR ''='') (map (\<lambda>c. if c = CHR ''+'' then CHR ''-'' else c) s))"

definition Base64_encode :: "string \<Rightarrow> bool \<Rightarrow> string" where
  "Base64_encode content safe =
     (if safe then to_url_safe (btoa (utf8_encode content)) else btoa (utf8_encode content))"

definition Base64_alternativeEncode :: "string \<Rightarrow> string" where
  "Base64_alternativeEncode content = btoa content"

definition Base64_decode :: "string \<Rightarrow> string option" where
  "Base64_decode content = do { s \<leftarrow> atob content; utf8_decode s }"

lemma Base64_decode_encode [simp]: "Base64_decode (Base64_encode s False) = Some s"
  by (simp add: Base64_decode_def Base64_encode_def)

text \<open>The reader of the URL-safe form undoes the two replacements; padding is optional.\<close>

definition from_url_safe :: "string \<Rightarrow> string" where
  "from_url_safe s = map (\<lambda>c. if c = CHR ''-'' then CHR ''+'' else if c = CHR ''_'' then CHR ''/'' else c) s"

lemma atob_unpadded:
  assumes "list_all (\<lambda>b. b < 256) bs"
  shows "atob (map b64_char (sextets bs)) = Some (map char_of bs)"
proof -
  let ?s = "map b64_char (sextets bs)"
  have v: "v < 64" if "v \<in> set (sextets bs)" for v using sextets_range [OF assms that] .
  have no: "CHR ''='' \<notin> set ?s" using v b64_char_not_eq by fastforce
  have f: "filter (\<lambda>c. \<not> b64_space c) ?s = ?s" using v b64_char_not_space by auto
  have "?s = [] \<or> last ?s \<noteq> CHR ''=''" using no last_in_set [of ?s] by fastforce
  moreover have "drop (length ?s - 2) ?s \<noteq> ''==''" using no by (metis in_set_dropD list.set_intros(1))
  ultimately have p: "strip_pad ?s = ?s" by (auto simp: strip_pad_def)
  have "length (sextets bs) mod 4 \<noteq> 1" unfolding length_sextets by presburger
  moreover have "mapM b64_val ?s = Some (sextets bs)" using v by (intro mapM_inverse) auto
  ultimately show ?thesis
    by (simp only: atob_def f p Let_def) (simp add: dec_sextets_inverse [OF assms])
qed

lemma b64_char_not_safe: "n < 64 \<Longrightarrow> b64_char n \<noteq> CHR ''-'' \<and> b64_char n \<noteq> CHR ''_''"
proof -
  assume n: "n < 64"
  have "(of_char (b64_char n) :: nat) \<noteq> 45 \<and> (of_char (b64_char n) :: nat) \<noteq> 95"
    using of_b64_char [OF n] n by (auto simp: b64_code_def)
  then show ?thesis by auto
qed

lemma url_safe_btoa:
  shows "from_url_safe (to_url_safe (btoa s)) = map b64_char (sextets (map of_char s))"
    and "set (to_url_safe (btoa s)) \<inter> set ''+/='' = {}"
proof -
  let ?bs = "map of_char s :: nat list"
  have v: "v < 64" if "v \<in> set (sextets ?bs)" for v using sextets_range [OF byte_codes that] .
  have p: "to_url_safe (padding n) = ''''" for n by (auto simp: padding_def to_url_safe_def)
  have a: "to_url_safe (xs @ ys) = to_url_safe xs @ to_url_safe ys" for xs ys by (simp add: to_url_safe_def)
  have "from_url_safe (to_url_safe (map b64_char vs)) = map b64_char vs"
    if "\<forall>v \<in> set vs. v < 64" for vs
    using that by (induction vs) (auto simp: from_url_safe_def to_url_safe_def dest: b64_char_not_eq b64_char_not_safe)
  then show "from_url_safe (to_url_safe (btoa s)) = map b64_char (sextets ?bs)"
    using v by (simp add: btoa_def enc_bytes_sextets a p)
  show "set (to_url_safe (btoa s)) \<inter> set ''+/='' = {}"
    by (auto simp: to_url_safe_def split: if_splits)
qed

text \<open>
  C34: \<open>Base64.decode\<close> inverts \<open>Base64.encode\<close> on every text, accented letters included, through
  the UTF-8 bytes. The URL-safe form holds none of the characters plus, slash and equals, and
  with its two replacements undone it decodes to the same text although its padding is gone.
\<close>
theorem Base64_roundtrip:
  "Base64_decode (Base64_encode content False) = Some content \<and>
   Base64_decode (from_url_safe (Base64_encode content True)) = Some content \<and>
   set (Base64_encode content True) \<inter> set ''+/='' = {}"
  using url_safe_btoa [of "utf8_encode content"]
  by (simp add: Base64_encode_def Base64_decode_def atob_unpadded byte_codes comp_def)

end
