(* ===== verification/JsInt.thy ===== *)
theory JsInt
  imports Prelude "HOL-Library.Log_Nat"
begin

unbundle bit_operations_syntax

text \<open>
  Integer arithmetic as JavaScript computes it. A number that holds an integer is a
  double: \<open>dbl\<close> rounds the exact result of an operation to 53 significant bits, to
  nearest and ties to even, and is the identity up to 2^53. The bitwise operators first
  reduce their operands to 32-bit two's complement (\<open>ToInt32\<close>).
\<close>

section \<open>Doubles that hold integers\<close>

definition dbl :: "int \<Rightarrow> int" where
  "dbl x =
     (let m = \<bar>x\<bar>; e = nat (bitlen m - 53); q = m div 2 ^ e; r = m mod 2 ^ e;
          q' = (if 2 * r > 2 ^ e \<or> 2 * r = 2 ^ e \<and> odd q then q + 1 else q)
      in sgn x * (q' * 2 ^ e))"

lemma dbl_exact: "\<bar>x\<bar> \<le> 2 ^ 53 \<Longrightarrow> dbl x = x"
proof (cases "\<bar>x\<bar> = 2 ^ 53")
  case True
  have "bitlen (2 ^ 53 :: int) \<le> 54" "\<not> bitlen (2 ^ 53 :: int) \<le> 53"
    by (simp_all add: bitlen_le_iff_power)
  then have "bitlen (2 ^ 53 :: int) = 54" by linarith
  with True show ?thesis by (simp add: dbl_def Let_def sgn_if abs_if split: if_splits)
next
  case False
  assume "\<bar>x\<bar> \<le> 2 ^ 53"
  with False have "\<bar>x\<bar> < 2 ^ 53" by simp
  then have "bitlen \<bar>x\<bar> \<le> 53" by (simp add: bitlen_le_iff_power)
  then show ?thesis by (simp add: dbl_def Let_def sgn_if abs_if)
qed

section \<open>The bitwise operators\<close>

definition to_int32 :: "int \<Rightarrow> int" where
  "to_int32 x = signed_take_bit 31 x"

definition i32_and :: "int \<Rightarrow> int \<Rightarrow> int" where
  "i32_and a b = to_int32 a AND to_int32 b"

definition i32_or :: "int \<Rightarrow> int \<Rightarrow> int" where
  "i32_or a b = to_int32 a OR to_int32 b"

definition i32_xor :: "int \<Rightarrow> int \<Rightarrow> int" where
  "i32_xor a b = to_int32 a XOR to_int32 b"

definition i32_not :: "int \<Rightarrow> int" where
  "i32_not a = NOT (to_int32 a)"

definition i32_shr :: "int \<Rightarrow> nat \<Rightarrow> int" where
  "i32_shr a n = drop_bit n (to_int32 a)"

definition i32_shl :: "int \<Rightarrow> nat \<Rightarrow> int" where
  "i32_shl a n = to_int32 (push_bit n a)"

definition u32_shr :: "int \<Rightarrow> nat \<Rightarrow> int" where
  "u32_shr a n = drop_bit n (take_bit 32 a)"

text \<open>Storing into a \<open>Uint8Array\<close>.\<close>

definition to_u8 :: "int \<Rightarrow> int" where
  "to_u8 x = x mod 256"

lemma to_int32_id: "- (2 ^ 31) \<le> x \<Longrightarrow> x < 2 ^ 31 \<Longrightarrow> to_int32 x = x"
  by (simp add: to_int32_def signed_take_bit_int_eq_self)

lemma to_int32_range: "- (2 ^ 31) \<le> to_int32 x \<and> to_int32 x < 2 ^ 31"
  using signed_take_bit_int_greater_eq_minus_exp [of 31 x]
    signed_take_bit_int_less_exp [of 31 x] by (simp add: to_int32_def)

lemma i32_and_mask: "n \<le> 31 \<Longrightarrow> i32_and x (mask n) = x mod 2 ^ n"
proof -
  assume n: "n \<le> 31"
  have "(2 :: int) ^ n \<le> 2 ^ 31" using n by (intro power_increasing) auto
  then have "mask n < (2 ^ 31 :: int)" by (simp add: mask_eq_exp_minus_1)
  then have "to_int32 (mask n) = mask n"
    by (intro to_int32_id) (auto intro: order_trans [of _ 0])
  then have "i32_and x (mask n) = take_bit n (signed_take_bit 31 x)"
    by (simp add: i32_and_def to_int32_def take_bit_eq_mask)
  also have "\<dots> = take_bit n x"
    using n by (simp add: take_bit_signed_take_bit)
  finally show ?thesis by (simp add: take_bit_eq_mod)
qed

lemma i32_and_65535 [limb_simps]: "i32_and x 65535 = x mod 65536"
  using i32_and_mask [of 16 x] by (simp add: mask_eq_exp_minus_1)

lemma i32_and_255 [limb_simps]: "i32_and x 255 = x mod 256"
  using i32_and_mask [of 8 x] by (simp add: mask_eq_exp_minus_1)

lemma i32_and_1 [limb_simps]: "i32_and x 1 = x mod 2"
  using i32_and_mask [of 1 x] by (simp add: mask_eq_exp_minus_1)

lemma i32_shr_div:
  "- (2 ^ 31) \<le> x \<Longrightarrow> x < 2 ^ 31 \<Longrightarrow> i32_shr x n = x div 2 ^ n"
  by (simp add: i32_shr_def to_int32_id drop_bit_eq_div)

end
