(* ===== verification/RandomUtil.thy ===== *)
theory RandomUtil
  imports Base64 JsInt
begin

text \<open>
  RandomUtil of web/assets/js/util/index.js and getRandomRealityTarget of
  web/assets/js/model/reality_targets.js. Whatever the browser supplies is the state
  \<open>world\<close>: the stream of 32-bit words behind \<open>crypto.getRandomValues\<close> and \<open>Math.random\<close>
  with the number of words drawn so far, whether the page was loaded over https, and the
  order into which \<open>Array.prototype.sort\<close> puts a list under a random comparison, which the
  language leaves open beyond its being a permutation.
\<close>

section \<open>The browser as a source of random values\<close>

record world =
  w_words :: "nat \<Rightarrow> nat"
  w_pos :: nat
  w_https :: bool
  w_random_order :: "nat list \<Rightarrow> nat list"

definition draw :: "world \<Rightarrow> nat \<times> world" where
  "draw w = (w_words w (w_pos w) mod 2 ^ 32, w\<lparr>w_pos := Suc (w_pos w)\<rparr>)"

primrec draws :: "nat \<Rightarrow> world \<Rightarrow> nat list \<times> world" where
  "draws 0 w = ([], w)"
| "draws (Suc n) w = (let (v, w) = draw w; (vs, w) = draws n w in (v # vs, w))"

definition draw_bytes :: "nat \<Rightarrow> world \<Rightarrow> nat list \<times> world" where
  "draw_bytes n w = (let (vs, w) = draws n w in (map (\<lambda>v. v mod 256) vs, w))"

lemma draws_length [simp]: "length (fst (draws n w)) = n"
  by (induction n arbitrary: w) (auto simp: Let_def split_beta)

lemma draws_range: "v \<in> set (fst (draws n w)) \<Longrightarrow> v < 2 ^ 32"
  by (induction n arbitrary: w) (auto simp: Let_def draw_def split_beta)

lemma draw_bytes_length [simp]: "length (fst (draw_bytes n w)) = n"
  by (simp add: draw_bytes_def Let_def split_beta)

lemma draw_bytes_range: "v \<in> set (fst (draw_bytes n w)) \<Longrightarrow> v < 256"
  by (auto simp: draw_bytes_def Let_def split_beta)

lemma world_rest [simp]:
  "w_https (snd (draws n w)) = w_https w" "w_random_order (snd (draws n w)) = w_random_order w"
  by (induction n arbitrary: w) (auto simp: Let_def draw_def split_beta)

section \<open>Strings over an alphabet\<close>

record seq_options =
  so_hex :: bool
  so_numbers :: bool
  so_lowercase :: bool
  so_uppercase :: bool

definition default_seq :: seq_options where
  "default_seq = \<lparr>so_hex = False, so_numbers = True, so_lowercase = True, so_uppercase = True\<rparr>"

definition getSeq :: "seq_options \<Rightarrow> string" where
  "getSeq opts =
     (if so_hex opts then ''0123456789abcdef''
      else (if so_numbers opts then ''0123456789'' else '''') @
        (if so_lowercase opts then ''abcdefghijklmnopqrstuvwxyz'' else '''') @
        (if so_uppercase opts then ''ABCDEFGHIJKLMNOPQRSTUVWXYZ'' else ''''))"

text \<open>
  An index outside the alphabet would join the empty string for undefined; with the empty
  alphabet the remainder is NaN and every element is undefined.
\<close>

definition seq_at :: "string \<Rightarrow> nat \<Rightarrow> string" where
  "seq_at seq v = (if seq = '''' then '''' else [seq ! (v mod length seq)])"

definition randomSeq :: "nat \<Rightarrow> seq_options \<Rightarrow> world \<Rightarrow> string \<times> world" where
  "randomSeq n opts w =
     (let seq = getSeq opts; (vs, w) = draws n w in (concat (map (seq_at seq) vs), w))"

definition randomInteger :: "int \<Rightarrow> int \<Rightarrow> world \<Rightarrow> int \<times> world" where
  "randomInteger mn mx w =
     (let range = mx - mn + 1; (v, w) = draw w in (int v * range div 2 ^ 32 + mn, w))"

primrec mapW :: "('a \<Rightarrow> world \<Rightarrow> 'b \<times> world) \<Rightarrow> 'a list \<Rightarrow> world \<Rightarrow> 'b list \<times> world" where
  "mapW f [] w = ([], w)"
| "mapW f (x # xs) w = (let (y, w) = f x w; (ys, w) = mapW f xs w in (y # ys, w))"

definition randomShortIds :: "world \<Rightarrow> string \<times> world" where
  "randomShortIds w =
     (let lengths = w_random_order w [2, 4, 6, 8, 10, 12, 14, 16];
          (ids, w) = mapW (\<lambda>len. randomSeq len (default_seq\<lparr>so_hex := True\<rparr>)) lengths w
      in (join '','' ids, w))"

definition randomLowerAndNum :: "nat \<Rightarrow> world \<Rightarrow> string \<times> world" where
  "randomLowerAndNum len = randomSeq len (default_seq\<lparr>so_uppercase := False\<rparr>)"

definition hex_digit :: "nat \<Rightarrow> char" where
  "hex_digit n = ''0123456789abcdef'' ! n"

text \<open>
  Over https the browser's \<open>crypto.randomUUID\<close>: sixteen random bytes with the version and
  variant bits set, in the 8-4-4-4-12 form. Otherwise the template of the code, one byte
  for every x and y.
\<close>

definition hex_byte :: "nat \<Rightarrow> string" where
  "hex_byte b = [hex_digit (b div 16), hex_digit (b mod 16)]"

definition crypto_uuid :: "world \<Rightarrow> string \<times> world" where
  "crypto_uuid w =
     (let (bs, w) = draw_bytes 16 w;
          bs = bs[6 := 64 + bs ! 6 mod 16];
          bs = bs[8 := 128 + bs ! 8 mod 64];
          h = (\<lambda>i n. concat (map hex_byte (take n (drop i bs))))
      in (join ''-'' [h 0 4, h 4 2, h 6 2, h 8 2, h 10 6], w))"

definition uuid_char :: "char \<Rightarrow> world \<Rightarrow> char \<times> world" where
  "uuid_char c w =
     (if c = CHR ''x'' \<or> c = CHR ''y''
      then (let (v, w) = draw w; randomValue = v mod 256 mod 16;
                calculated = (if c = CHR ''x'' then int randomValue
                              else i32_or (i32_and (int randomValue) 3) 8)
            in (hex_digit (nat calculated), w))
      else (c, w))"

definition randomUUID :: "world \<Rightarrow> string \<times> world" where
  "randomUUID w =
     (if w_https w then crypto_uuid w
      else mapW uuid_char ''xxxxxxxx-xxxx-4xxx-yxxx-xxxxxxxxxxxx'' w)"

section \<open>Random bytes as text\<close>

definition randomShadowsocksPassword :: "string \<Rightarrow> world \<Rightarrow> string \<times> world" where
  "randomShadowsocksPassword method w =
     (let len = (if method = ''2022-blake3-aes-128-gcm'' then 16 else 32);
          (bs, w) = draw_bytes len w
      in (Base64_alternativeEncode (map char_of bs), w))"

definition randomBase64 :: "nat \<Rightarrow> world \<Rightarrow> string \<times> world" where
  "randomBase64 len w =
     (let (bs, w) = draw_bytes len w in (Base64_alternativeEncode (map char_of bs), w))"

definition base32_char :: "int \<Rightarrow> char" where
  "base32_char v = ''ABCDEFGHIJKLMNOPQRSTUVWXYZ234567'' ! nat (i32_and v 31)"

text \<open>
  One byte: eight more bits in the buffer, then a character for every five. The inner loop
  runs once or twice, since at most four bits are left from the byte before.
\<close>

function base32_emit :: "int \<Rightarrow> nat \<Rightarrow> string \<Rightarrow> nat \<times> string" where
  "base32_emit buffer bits result =
     (if 5 \<le> bits
      then base32_emit buffer (bits - 5) (result @ [base32_char (u32_shr buffer (bits - 5))])
      else (bits, result))"
  by pat_completeness auto
termination by (relation "measure (\<lambda>(_, bits, _). bits)") auto

declare base32_emit.simps [simp del]

definition base32_byte :: "string \<times> nat \<times> int \<Rightarrow> nat \<Rightarrow> string \<times> nat \<times> int" where
  "base32_byte st b =
     (let (result, bits, buffer) = st;
          buffer = i32_or (i32_shl buffer 8) (int b);
          (bits, result) = base32_emit buffer (bits + 8) result
      in (result, bits, buffer))"

definition base32_text :: "nat list \<Rightarrow> string" where
  "base32_text bs =
     (let (result, bits, buffer) = foldl base32_byte ('''', 0, 0) bs
      in if 0 < bits then result @ [base32_char (i32_shl buffer (5 - bits))] else result)"

definition randomBase32String :: "nat \<Rightarrow> world \<Rightarrow> string \<times> world" where
  "randomBase32String len w = (let (bs, w) = draw_bytes len w in (base32_text bs, w))"

section \<open>Reality targets\<close>

definition REALITY_TARGETS :: "(string \<times> string) list" where
  "REALITY_TARGETS =
     [(''www.apple.com:443'', ''www.apple.com''),
      (''www.icloud.com:443'', ''www.icloud.com''),
      (''www.amazon.com:443'', ''www.amazon.com''),
      (''aws.amazon.com:443'', ''aws.amazon.com''),
      (''www.oracle.com:443'', ''www.oracle.com''),
      (''www.nvidia.com:443'', ''www.nvidia.com''),
      (''www.amd.com:443'', ''www.amd.com''),
      (''www.intel.com:443'', ''www.intel.com''),
      (''www.tesla.com:443'', ''www.tesla.com''),
      (''www.sony.com:443'', ''www.sony.com'')]"

text \<open>\<open>Math.random()\<close> is one word scaled into [0, 1).\<close>

definition getRandomRealityTarget :: "world \<Rightarrow> (string \<times> string) \<times> world" where
  "getRandomRealityTarget w =
     (let (v, w) = draw w in (REALITY_TARGETS ! (v * length REALITY_TARGETS div 2 ^ 32), w))"

text \<open>A source for concrete runs.\<close>

definition sample_world :: world where
  "sample_world = \<lparr>w_words = (\<lambda>i. 2654435761 * Suc i), w_pos = 0, w_https = True, w_random_order = rev\<rparr>"

section \<open>What the generators return\<close>

lemma randomSeq_spec:
  assumes "getSeq opts \<noteq> ''''"
  shows "length (fst (randomSeq n opts w)) = n" "set (fst (randomSeq n opts w)) \<subseteq> set (getSeq opts)"
  using assms
  by (auto simp: randomSeq_def Let_def split_beta seq_at_def length_concat comp_def sum_list_triv)

lemma world_rest_randomSeq [simp]:
  "w_https (snd (randomSeq n opts w)) = w_https w"
  "w_random_order (snd (randomSeq n opts w)) = w_random_order w"
  by (simp_all add: randomSeq_def Let_def split_beta)

lemma mapW_all:
  assumes "\<And>x w. x \<in> set xs \<Longrightarrow> P x (fst (f x w))"
  shows "list_all2 P xs (fst (mapW f xs w))"
  using assms by (induction xs arbitrary: w) (auto simp: Let_def split_beta)

lemma list_all2_lengths:
  "list_all2 (\<lambda>n s. length s = n \<and> Q s) ns ss \<Longrightarrow> map length ss = ns \<and> list_all Q ss"
  by (induction rule: list_all2_induct) auto

lemma getSeq_hex: "getSeq (default_seq\<lparr>so_hex := True\<rparr>) = ''0123456789abcdef''"
  by (simp add: getSeq_def)

definition is_hex :: "string \<Rightarrow> bool" where
  "is_hex s \<longleftrightarrow> set s \<subseteq> set ''0123456789abcdef''"

lemma shortIds_core:
  assumes "w_random_order w [2, 4, 6, 8, 10, 12, 14, 16] = ns" and "ns \<noteq> []"
  shows "map length (split_on CHR '','' (fst (randomShortIds w))) = ns \<and>
    list_all is_hex (split_on CHR '','' (fst (randomShortIds w)))"
proof -
  let ?ids = "fst (mapW (\<lambda>len. randomSeq len (default_seq\<lparr>so_hex := True\<rparr>)) ns w)"
  have "list_all2 (\<lambda>n s. length s = n \<and> is_hex s) ns ?ids"
    using randomSeq_spec [of "default_seq\<lparr>so_hex := True\<rparr>", unfolded getSeq_hex]
    by (intro mapW_all) (simp add: is_hex_def)
  then have ids: "map length ?ids = ns" "list_all is_hex ?ids"
    by (auto dest: list_all2_lengths)
  have "?ids \<noteq> []" using ids(1) assms(2) by auto
  moreover have "CHR '','' \<notin> set s" if "s \<in> set ?ids" for s
  proof -
    have "is_hex s" using ids(2) that by (auto simp: list_all_iff)
    then show ?thesis by (auto simp: is_hex_def)
  qed
  ultimately have "split_on CHR '','' (join '','' ?ids) = ?ids" by (rule split_join)
  moreover have "fst (randomShortIds w) = join '','' ?ids"
    by (simp add: randomShortIds_def assms(1) Let_def split_beta)
  ultimately show ?thesis using ids by simp
qed

lemma randomInteger_core:
  assumes "mn \<le> mx"
  shows "mn \<le> fst (randomInteger mn mx w) \<and> fst (randomInteger mn mx w) \<le> mx"
proof -
  have r: "0 < mx - mn + 1" using assms by simp
  define v where "v = int (fst (draw w))"
  have "fst (draw w) < 2 ^ 32" by (simp add: draw_def)
  then have v: "0 \<le> v" "v < 2 ^ 32" by (simp_all add: v_def)
  then have "v * (mx - mn + 1) < 2 ^ 32 * (mx - mn + 1)" using r by (intro mult_strict_right_mono) auto
  then have u: "v * (mx - mn + 1) div 2 ^ 32 < mx - mn + 1"
    by (simp add: div_less_iff_less_mult mult.commute)
  have l: "0 \<le> v * (mx - mn + 1) div 2 ^ 32" using v r by (simp add: pos_imp_zdiv_nonneg_iff)
  have "fst (randomInteger mn mx w) = v * (mx - mn + 1) div 2 ^ 32 + mn"
    by (simp only: randomInteger_def Let_def split_beta fst_conv v_def)
  then show ?thesis using u l by linarith
qed

lemma target_in_list: "fst (getRandomRealityTarget w) \<in> set REALITY_TARGETS"
proof -
  have "length REALITY_TARGETS = 10" by (simp add: REALITY_TARGETS_def)
  moreover have "fst (draw w) < 2 ^ 32" by (simp add: draw_def)
  then have "fst (draw w) * 10 div 2 ^ 32 < 10" by (simp add: div_less_iff_less_mult)
  ultimately show ?thesis by (simp add: getRandomRealityTarget_def Let_def split_beta)
qed

section \<open>The form of an identifier\<close>

definition uuid_at :: "char \<Rightarrow> char \<Rightarrow> bool" where
  "uuid_at p c \<longleftrightarrow>
     (if p = CHR ''x'' then c \<in> set ''0123456789abcdef''
      else if p = CHR ''y'' then c \<in> set ''89ab'' else c = p)"

definition is_uuid4 :: "string \<Rightarrow> bool" where
  "is_uuid4 s \<longleftrightarrow> list_all2 uuid_at ''xxxxxxxx-xxxx-4xxx-yxxx-xxxxxxxxxxxx'' s"

lemma hex_table:
  "\<forall>n \<in> set [0..<16]. uuid_at CHR ''x'' (hex_digit n) \<and>
     uuid_at CHR ''y'' (hex_digit (nat (i32_or (i32_and (int n) 3) 8))) \<and>
     uuid_at CHR ''x'' (hex_digit n) \<and> (n div 4 = 2 \<longrightarrow> uuid_at CHR ''y'' (hex_digit n))"
  by code_simp

lemma hex_digit_at:
  "n < 16 \<Longrightarrow> uuid_at CHR ''x'' (hex_digit n)"
  "n < 16 \<Longrightarrow> n div 4 = 2 \<Longrightarrow> uuid_at CHR ''y'' (hex_digit n)"
  "n < 16 \<Longrightarrow> uuid_at CHR ''y'' (hex_digit (nat (i32_or (i32_and (int n) 3) 8)))"
  "uuid_at CHR ''4'' (hex_digit 4)" "uuid_at CHR ''-'' CHR ''-''"
  using hex_table by (simp_all add: uuid_at_def hex_digit_def)

lemma uuid_char_at: "uuid_at c (fst (uuid_char c w))"
proof -
  have r: "fst (draw w) mod 256 mod 16 < 16" by simp
  note y = hex_digit_at(3) [OF r] and x = hex_digit_at(1) [OF r]
  show ?thesis
  proof (cases "c = CHR ''x'' \<or> c = CHR ''y''")
    case True
    then show ?thesis using x y by (auto simp: uuid_char_def Let_def split_beta)
  qed (simp add: uuid_char_def uuid_at_def)
qed

lemma list_all2_mapW: "(\<And>x w. P x (fst (f x w))) \<Longrightarrow> list_all2 P xs (fst (mapW f xs w))"
  by (rule mapW_all) simp

lemma crypto_uuid_form: "is_uuid4 (fst (crypto_uuid w))"
proof -
  obtain bs where bs: "fst (draw_bytes 16 w) = bs" "length bs = 16" "list_all (\<lambda>b. b < 256) bs"
    using draw_bytes_range [of _ 16 w] by (auto simp: list_all_iff)
  obtain b0 b1 b2 b3 b4 b5 b6 b7 b8 b9 b10 b11 b12 b13 b14 b15 where
    l: "bs = [b0, b1, b2, b3, b4, b5, b6, b7, b8, b9, b10, b11, b12, b13, b14, b15]"
    using bs(2) by (auto simp: length_Suc_conv numeral_eq_Suc)
  have d: "b div 16 < 16" "b mod 16 < 16" if "b < 256" for b :: nat using that by auto
  have v: "(64 + b mod 16) div 16 = 4" "(64 + b mod 16) mod 16 < 16"
      "(128 + b mod 64) div 16 < 16" "(128 + b mod 64) div 16 div 4 = 2" for b :: nat
    by (simp_all add: div_mult2_eq [symmetric])
  show ?thesis
    using bs(1,3) unfolding l
    by (simp add: is_uuid4_def crypto_uuid_def split_beta Let_def hex_byte_def hex_digit_at d v)
qed

text \<open>
  C37: every identifier that \<open>RandomUtil.randomUUID\<close> hands out is a version-4 UUID. Over https
  (the browser's generator) and over http (the template of the code, filled from random
  bytes) it has the 8-4-4-4-12 form in lower-case hexadecimal, the version digit 4 and a
  variant digit among 8, 9, a and b.
\<close>
theorem randomUUID_version4: "is_uuid4 (fst (randomUUID w))"
  using crypto_uuid_form list_all2_mapW [of uuid_at uuid_char, OF uuid_char_at]
  by (simp add: randomUUID_def is_uuid4_def del: mapW.simps)

text \<open>
  \<open>RandomUtil.randomShortIds\<close> returns eight Reality short ids whatever order the random
  sort leaves: split at its commas the text gives pieces whose lengths are a permutation of
  2, 4, ..., 16, every one in lower-case hexadecimal (so each is an even number of digits,
  as Xray requires).
\<close>
theorem randomShortIds_permutation:
  assumes "mset (w_random_order w [2, 4, 6, 8, 10, 12, 14, 16]) = mset [2, 4, 6, 8, 10, 12, 14, 16]"
  shows "mset (map length (split_on CHR '','' (fst (randomShortIds w)))) =
      mset [2, 4, 6, 8, 10, 12, 14, 16] \<and>
    list_all is_hex (split_on CHR '','' (fst (randomShortIds w)))"
proof -
  have "w_random_order w [2, 4, 6, 8, 10, 12, 14, 16] \<noteq> []" using assms by auto
  from shortIds_core [OF refl this] assms show ?thesis by simp
qed

theorem randomShortIds_permutation_witness:
  "let w = \<lparr>w_words = (\<lambda>i. 7 * i), w_pos = 0, w_https = True, w_random_order = rev\<rparr>
   in mset (map length (split_on CHR '','' (fst (randomShortIds w)))) = mset [2, 4, 6, 8, 10, 12, 14, 16] \<and>
      list_all is_hex (split_on CHR '','' (fst (randomShortIds w)))"
  unfolding Let_def by (rule randomShortIds_permutation) simp

section \<open>Base32\<close>

text \<open>
  The unpadded base32 of RFC 4648: the bytes as one number, filled with zero bits to a multiple
  of five, and its digits in base 32 from the top.
\<close>

definition bytes_num :: "nat list \<Rightarrow> int" where
  "bytes_num bs = foldl (\<lambda>a b. 256 * a + int b) 0 bs"

definition base32_digit :: "int \<Rightarrow> char" where
  "base32_digit v = ''ABCDEFGHIJKLMNOPQRSTUVWXYZ234567'' ! nat (v mod 32)"

definition base32_rfc :: "nat list \<Rightarrow> string" where
  "base32_rfc bs =
     (let n = 8 * length bs; l = (n + 4) div 5; v = bytes_num bs * 2 ^ (5 * l - n)
      in map (\<lambda>i. base32_digit (v div 2 ^ (5 * (l - Suc i)))) [0..<l])"

lemma base32_char_digit: "base32_char v = base32_digit v"
proof -
  have "(31 :: int) = mask 5" by (simp add: mask_eq_exp_minus_1)
  then show ?thesis using i32_and_mask [of 5 v] by (simp add: base32_char_def base32_digit_def)
qed

lemma take_to_int32: "take_bit 32 (to_int32 x) = take_bit 32 x"
  by (simp add: to_int32_def take_bit_signed_take_bit)

lemma buffer_step:
  assumes "take_bit 32 buffer = take_bit 32 v" and "b < 256"
  shows "take_bit 32 (i32_or (i32_shl buffer 8) (int b)) = take_bit 32 (256 * v + int b)"
proof -
  have b: "bit (int b) n \<Longrightarrow> n < 8" for n
  proof -
    have "take_bit 8 (int b) = int b" using assms(2) by (simp add: take_bit_int_eq_self)
    then show "bit (int b) n \<Longrightarrow> n < 8" by (metis bit_take_bit_iff)
  qed
  have "256 * v + int b = push_bit 8 v + int b" by (simp add: push_bit_eq_mult)
  also have "\<dots> = push_bit 8 v OR int b"
    by (rule disjunctive_add) (auto simp: bit_push_bit_iff dest: b)
  finally have s: "256 * v + int b = push_bit 8 v OR int b" .
  have "take_bit 24 buffer = take_bit 24 v"
    using arg_cong [OF assms(1), of "take_bit 24"] by (simp add: take_bit_take_bit)
  then have "take_bit 32 (push_bit 8 buffer) = take_bit 32 (push_bit 8 v)"
    by (simp add: take_bit_push_bit)
  then show ?thesis
    by (simp add: s i32_or_def i32_shl_def take_to_int32 take_bit_or)
qed

lemma emit_digit:
  assumes "take_bit 32 buffer = take_bit 32 v" and "s \<le> 27"
  shows "base32_char (u32_shr buffer s) = base32_digit (v div 2 ^ s)"
proof -
  have "take_bit 5 (drop_bit s (take_bit 32 v)) = take_bit 5 (drop_bit s v)"
    using assms(2) by (simp add: take_bit_drop_bit min_def)
  then have "take_bit 5 (u32_shr buffer s) = take_bit 5 (drop_bit s v)"
    by (simp only: u32_shr_def assms(1))
  then have "u32_shr buffer s mod 32 = v div 2 ^ s mod 32"
    by (simp add: take_bit_eq_mod drop_bit_eq_div)
  then show ?thesis by (simp add: base32_char_digit base32_digit_def)
qed

lemma base32_emit_all:
  "base32_emit buffer bits result =
     (bits mod 5, result @ map (\<lambda>j. base32_char (u32_shr buffer (bits - 5 * Suc j))) [0..<bits div 5])"
proof (induction buffer bits result rule: base32_emit.induct)
  case (1 buffer bits result)
  show ?case
  proof (cases "5 \<le> bits")
    case True
    then have m: "(bits - 5) mod 5 = bits mod 5" and d: "bits div 5 = Suc ((bits - 5) div 5)"
      by (simp_all add: le_mod_geq le_div_geq)
    show ?thesis
      using 1 [OF True] True
      by (subst base32_emit.simps) (simp add: m d map_upt_Suc del: upt.simps)
  qed (subst base32_emit.simps, simp)
qed

lemma bytes_num_snoc: "bytes_num (bs @ [b]) = 256 * bytes_num bs + int b"
  by (simp add: bytes_num_def)

definition base32_inv :: "nat list \<Rightarrow> string \<times> nat \<times> int \<Rightarrow> bool" where
  "base32_inv bs st \<longleftrightarrow>
     fst (snd st) = 8 * length bs mod 5 \<and>
     take_bit 32 (snd (snd st)) = take_bit 32 (bytes_num bs) \<and>
     fst st = map (\<lambda>i. base32_digit (bytes_num bs div 2 ^ (8 * length bs - 5 * Suc i))) [0..<8 * length bs div 5]"

lemma digit_count: "8 * Suc n div 5 = 8 * n div 5 + (8 * n mod 5 + 8) div 5"
proof -
  have "8 * Suc n = (8 * n mod 5 + 8) + 5 * (8 * n div 5)" by simp
  then show ?thesis by (metis add.commute div_mult_self2 zero_neq_numeral)
qed

lemma no_last_digit:
  assumes "m mod 5 = 0"
  shows "(m + 4) div 5 = m div 5" "5 * (m div 5) = (m :: nat)"
  using assms by (auto elim!: dvdE simp: mod_eq_0_iff_dvd)

lemma last_digit:
  assumes "r = m mod 5" and "r \<noteq> 0"
  shows "(m + 4) div 5 = Suc (m div 5)" "5 * Suc (m div 5) - m = 5 - (r :: nat)"
proof -
  have m: "m = r + 5 * (m div 5)" and r: "r < 5" using assms(1) by simp_all
  then have "m + 4 = (r + 4) + 5 * (m div 5)" by simp
  then have "(m + 4) div 5 = m div 5 + (r + 4) div 5" by (metis div_mult_self2 zero_neq_numeral)
  moreover have "(r + 4) div 5 = 1" using r assms(2) by simp
  ultimately show "(m + 4) div 5 = Suc (m div 5)" by simp
  show "5 * Suc (m div 5) - m = 5 - r" using m by simp
qed

lemma digit_below: "i < m div 5 \<Longrightarrow> 5 * Suc i \<le> (m :: nat)"
  using less_eq_div_iff_mult_less_eq [of 5 "Suc i" m] by (simp add: mult.commute)

lemma shift_arith1: "5 * Suc i \<le> 8 * n \<Longrightarrow> 8 * Suc n - 5 * Suc i = 8 + (8 * n - 5 * Suc i)"
  by (metis Nat.add_diff_assoc mult_Suc_right)

lemma shift_arith2:
  assumes "q * 5 + r = 8 * n"
  shows "8 * Suc n - 5 * Suc (q + j) = r + 8 - 5 * Suc j"
proof -
  have "8 * Suc n = 5 * q + (r + 8)" "5 * Suc (q + j) = 5 * q + 5 * Suc j" using assms by simp_all
  then show ?thesis by (simp only: diff_cancel)
qed

lemma shift_arith3:
  assumes "5 * Suc i \<le> m" and "m \<le> 5 * l"
  shows "5 * (l - Suc i) = (5 * l - m) + (m - 5 * Suc i)"
proof -
  have "5 * (l - Suc i) = 5 * l - 5 * Suc i" by (simp only: diff_mult_distrib2)
  also have "\<dots> = (5 * l - m) + (m - 5 * Suc i)" using assms by simp
  finally show ?thesis .
qed

lemma older_digit:
  assumes "i < 8 * n div 5" and "b < 256"
  shows "(256 * v + int b) div 2 ^ (8 * Suc n - 5 * Suc i) = v div 2 ^ (8 * n - 5 * Suc i)"
proof -
  have "8 * Suc n - 5 * Suc i = 8 + (8 * n - 5 * Suc i)" by (rule shift_arith1 [OF digit_below [OF assms(1)]])
  moreover have "(256 * v + int b) div 2 ^ 8 = v" using assms(2) by simp
  moreover have "x div 2 ^ (8 + k) = x div 2 ^ 8 div 2 ^ k" for x :: int and k
    by (simp only: power_add) (rule zdiv_zmult2_eq, simp)
  ultimately show ?thesis by (simp only:)
qed

lemma base32_step:
  assumes "base32_inv bs st" and "b < 256"
  shows "base32_inv (bs @ [b]) (base32_byte st b)"
proof -
  let ?n = "length bs" and ?v = "256 * bytes_num bs + int b"
  obtain result bits buffer where st: "st = (result, bits, buffer)" by (cases st)
  let ?buf = "i32_or (i32_shl buffer 8) (int b)"
  have i: "bits = 8 * ?n mod 5" "take_bit 32 buffer = take_bit 32 (bytes_num bs)"
    "result = map (\<lambda>i. base32_digit (bytes_num bs div 2 ^ (8 * ?n - 5 * Suc i))) [0..<8 * ?n div 5]"
    using assms(1) by (simp_all add: base32_inv_def st)
  note buf = buffer_step [OF i(2) assms(2)]
  have new: "base32_char (u32_shr ?buf (bits + 8 - 5 * Suc j)) =
      base32_digit (?v div 2 ^ (8 * Suc ?n - 5 * Suc (8 * ?n div 5 + j)))" if "j < (bits + 8) div 5" for j
  proof -
    have "bits < 5" using i(1) by simp
    then have "bits + 8 - 5 * Suc j \<le> 27" by simp
    moreover have "8 * Suc ?n - 5 * Suc (8 * ?n div 5 + j) = bits + 8 - 5 * Suc j"
      using div_mult_mod_eq [of "8 * ?n" 5] unfolding i(1) [symmetric] by (rule shift_arith2)
    ultimately show ?thesis using emit_digit [OF buf] by simp
  qed
  have "map (\<lambda>i. base32_digit (?v div 2 ^ (8 * Suc ?n - 5 * Suc i))) [0..<8 * Suc ?n div 5] =
      result @ map (\<lambda>j. base32_char (u32_shr ?buf (bits + 8 - 5 * Suc j))) [0..<(bits + 8) div 5]"
    unfolding digit_count i(1) [symmetric]
    by (rule nth_equalityI) (auto simp: i(3) nth_append new older_digit assms(2) simp del: mult_Suc_right)
  moreover have "(bits + 8) mod 5 = 8 * Suc ?n mod 5" by (simp add: i(1) mod_simps add.commute)
  ultimately show ?thesis
    using buf by (simp add: base32_inv_def st base32_byte_def Let_def base32_emit_all bytes_num_snoc)
qed

lemma base32_fold: "list_all (\<lambda>b. b < 256) bs \<Longrightarrow> base32_inv bs (foldl base32_byte ('''', 0, 0) bs)"
proof (induction bs rule: rev_induct)
  case (snoc b bs)
  then show ?case using base32_step by simp
qed (simp add: base32_inv_def bytes_num_def)

lemma take_shifted:
  assumes "take_bit 32 buffer = take_bit 32 v" and "k \<le> 5"
  shows "take_bit 5 (push_bit k buffer) = take_bit 5 (push_bit k (v :: int))"
proof -
  have "take_bit (5 - k) buffer = take_bit (5 - k) (take_bit 32 buffer)"
    by (simp add: take_bit_take_bit)
  also have "\<dots> = take_bit (5 - k) v" by (simp add: assms(1) take_bit_take_bit)
  finally show ?thesis by (simp add: take_bit_push_bit)
qed

lemma base32_text_rfc:
  assumes "list_all (\<lambda>b. b < 256) bs"
  shows "base32_text bs = base32_rfc bs"
proof -
  let ?n = "8 * length bs" and ?v = "bytes_num bs"
  obtain result bits buffer where f: "foldl base32_byte ('''', 0, 0) bs = (result, bits, buffer)"
    by (cases "foldl base32_byte ('''', 0, 0) bs")
  have i: "bits = ?n mod 5" "take_bit 32 buffer = take_bit 32 ?v"
    "result = map (\<lambda>i. base32_digit (?v div 2 ^ (?n - 5 * Suc i))) [0..<?n div 5]"
    using base32_fold [OF assms] by (simp_all add: base32_inv_def f)
  have older: "?v * 2 ^ (5 * l - ?n) div 2 ^ (5 * (l - Suc i)) = ?v div 2 ^ (?n - 5 * Suc i)"
    if "i < ?n div 5" "?n \<le> 5 * l" for i l
  proof -
    have "5 * (l - Suc i) = (5 * l - ?n) + (?n - 5 * Suc i)" by (rule shift_arith3 [OF digit_below [OF that(1)] that(2)])
    then show ?thesis by (simp add: power_add)
  qed
  show ?thesis
  proof (cases "bits = 0")
    case True
    then have l: "(?n + 4) div 5 = ?n div 5" "5 * (?n div 5) = ?n"
      using no_last_digit [of ?n] i(1) by simp_all
    show ?thesis using True older [of _ "?n div 5"]
      by (simp add: base32_text_def f base32_rfc_def Let_def l i(3))
  next
    case False
    then have l: "(?n + 4) div 5 = Suc (?n div 5)" and p: "5 * Suc (?n div 5) - ?n = 5 - bits"
      using last_digit [OF i(1)] by blast+
    have "take_bit 5 (to_int32 (push_bit (5 - bits) buffer)) = take_bit 5 (push_bit (5 - bits) buffer)"
      by (simp add: to_int32_def take_bit_signed_take_bit)
    then have "take_bit 5 (i32_shl buffer (5 - bits)) = take_bit 5 (push_bit (5 - bits) ?v)"
      using take_shifted [OF i(2)] by (simp add: i32_shl_def)
    then have "base32_char (i32_shl buffer (5 - bits)) = base32_digit (?v * 2 ^ (5 - bits))"
      by (simp add: base32_char_digit base32_digit_def take_bit_eq_mod push_bit_eq_mult)
    moreover have "?v * 2 ^ (5 - bits) div 2 ^ (5 * (Suc (?n div 5) - Suc i)) = ?v div 2 ^ (?n - 5 * Suc i)"
      if "i < ?n div 5" for i
      using older [OF that, of "Suc (?n div 5)"] l p by simp
    ultimately show ?thesis using False p
      by (simp add: base32_text_def f base32_rfc_def Let_def l i(3) del: mult_Suc_right)
  qed
qed

text \<open>
  C20: the bit buffer of \<open>RandomUtil.randomBase32String\<close> computes the unpadded base32 of
  RFC 4648. Although the buffer is a 32-bit integer that overflows after four bytes, the text
  is, for every length, the base-32 digits of the random bytes read as one big-endian number,
  filled with zero bits at the end.
\<close>
theorem randomBase32String_rfc:
  "fst (randomBase32String n w) = base32_rfc (fst (draw_bytes n w)) \<and>
   length (fst (randomBase32String n w)) = (8 * n + 4) div 5"
proof -
  have "list_all (\<lambda>b. b < 256) (fst (draw_bytes n w))"
    using draw_bytes_range by (auto simp: list_all_iff)
  then have "fst (randomBase32String n w) = base32_rfc (fst (draw_bytes n w))"
    by (simp add: randomBase32String_def split_beta base32_text_rfc)
  then show ?thesis by (simp add: base32_rfc_def Let_def)
qed

end
