(* ===== verification/InTls.thy ===== *)
theory InTls
  imports InTransport RandomUtil
begin

text \<open>
  The security layers and the socket options of an inbound (web/assets/js/model/inbound.js):
  TLS with its certificates, Reality, and SockoptStreamSettings. A new Reality instance
  draws its short ids, and a target when it is given none, from the browser's random source,
  which is passed along as \<open>world\<close>.
\<close>

section \<open>TlsStreamSettings.Cert\<close>

text \<open>\<open>v.join(sep)\<close> and \<open>v.split(c)\<close>: only arrays join, only strings split.\<close>

fun js_join :: "string \<Rightarrow> jsv \<Rightarrow> jsv option" where
  "js_join sep (JArr vs) =
     Some (JStr (join sep (map (\<lambda>v. if v = JUndef \<or> v = JNull then '''' else js_to_string v) vs)))"
| "js_join sep _ = None"

fun js_split :: "char \<Rightarrow> jsv \<Rightarrow> jsv option" where
  "js_split c (JStr s) = Some (JArr (map JStr (split_on c s)))"
| "js_split c _ = None"

text \<open>\<open>k in v\<close>: a TypeError unless v is an object.\<close>

fun js_in :: "string \<Rightarrow> jsv \<Rightarrow> bool option" where
  "js_in k (JObj kvs) = Some (k \<in> set (keys kvs) \<or> k \<in> set proto_names)"
| "js_in k (JArr vs) = Some (k = ''length'' \<or> k \<in> set (keys (own_entries (JArr vs))))"
| "js_in k _ = None"

definition newline :: char where
  "newline = CHR 0x0A"

definition join_lines :: "jsv \<Rightarrow> jsv" where
  "join_lines v = (if is_array v then (case js_join [newline] v of Some s \<Rightarrow> s | None \<Rightarrow> v) else v)"

record TlsCert =
  cert_useFile :: jsv
  cert_certFile :: jsv
  cert_keyFile :: jsv
  cert_cert :: jsv
  cert_key :: jsv
  cert_oneTimeLoading :: jsv
  cert_usage :: jsv
  cert_buildChain :: jsv

definition new_TlsCert ::
  "jsv \<Rightarrow> jsv \<Rightarrow> jsv \<Rightarrow> jsv \<Rightarrow> jsv \<Rightarrow> jsv \<Rightarrow> jsv \<Rightarrow> jsv \<Rightarrow> TlsCert" where
  "new_TlsCert useFile certificateFile keyFile certificate key oneTimeLoading usage buildChain =
     \<lparr>cert_useFile = dflt useFile (JBool True),
      cert_certFile = dflt certificateFile (JStr ''''),
      cert_keyFile = dflt keyFile (JStr ''''),
      cert_cert = join_lines (dflt certificate (JStr '''')),
      cert_key = join_lines (dflt key (JStr '''')),
      cert_oneTimeLoading = dflt oneTimeLoading (JBool False),
      cert_usage = dflt usage (JStr ''encipherment''),
      cert_buildChain = dflt buildChain (JBool False)\<rparr>"

definition default_TlsCert :: TlsCert where
  "default_TlsCert = new_TlsCert JUndef JUndef JUndef JUndef JUndef JUndef JUndef JUndef"

definition TlsCert_fromJson :: "jsv \<Rightarrow> TlsCert option" where
  "TlsCert_fromJson json =
     (let json = dflt json (JObj []) in
      do { hasCert \<leftarrow> js_in ''certificateFile'' json;
           hasKey \<leftarrow> js_in ''keyFile'' json;
           oneTimeLoading \<leftarrow> js_get json ''oneTimeLoading'';
           usage \<leftarrow> js_get json ''usage'';
           buildChain \<leftarrow> js_get json ''buildChain'';
           if hasCert \<and> hasKey
           then do { certificateFile \<leftarrow> js_get json ''certificateFile'';
                     keyFile \<leftarrow> js_get json ''keyFile'';
                     Some (new_TlsCert (JBool True) certificateFile keyFile (JStr '''') (JStr '''')
                       oneTimeLoading usage buildChain) }
           else do { certificate \<leftarrow> js_get json ''certificate'';
                     cert \<leftarrow> js_join [newline] certificate;
                     key \<leftarrow> js_get json ''key'';
                     k \<leftarrow> js_join [newline] key;
                     Some (new_TlsCert (JBool False) (JStr '''') (JStr '''') cert k
                       oneTimeLoading usage buildChain) } })"

definition TlsCert_toJson :: "TlsCert \<Rightarrow> jsv option" where
  "TlsCert_toJson x =
     (if truthy (cert_useFile x)
      then Some (JObj
        [(''certificateFile'', cert_certFile x),
         (''keyFile'', cert_keyFile x),
         (''oneTimeLoading'', cert_oneTimeLoading x),
         (''usage'', cert_usage x),
         (''buildChain'', cert_buildChain x)])
      else do { certificate \<leftarrow> js_split newline (cert_cert x);
                key \<leftarrow> js_split newline (cert_key x);
                Some (JObj
                  [(''certificate'', certificate),
                   (''key'', key),
                   (''oneTimeLoading'', cert_oneTimeLoading x),
                   (''usage'', cert_usage x),
                   (''buildChain'', cert_buildChain x)]) })"

text \<open>A certificate is given by its files or by its text, and only that form is sent.\<close>

definition TlsCert_ok :: "TlsCert \<Rightarrow> bool" where
  "TlsCert_ok x \<longleftrightarrow>
     field_ok (cert_oneTimeLoading x) \<and> field_ok (cert_usage x) \<and> field_ok (cert_buildChain x) \<and>
     (if cert_useFile x = JBool True
      then field_ok (cert_certFile x) \<and> field_ok (cert_keyFile x) \<and>
        cert_cert x = JStr '''' \<and> cert_key x = JStr ''''
      else cert_useFile x = JBool False \<and> cert_certFile x = JStr '''' \<and> cert_keyFile x = JStr '''' \<and>
        is_string (cert_cert x) \<and> is_string (cert_key x))"

lemma wire_strings: "wire (JArr (map JStr ss)) = JArr (map JStr ss)"
  by (simp add: comp_def)

lemma join_split_strings [simp]: "js_join [c] (JArr (map JStr (split_on c s))) = Some (JStr s)"
  by (simp add: comp_def)

lemma join_lines_simps [simp]: "join_lines (JStr s) = JStr s"
  by (simp add: join_lines_def)

lemma js_in_wire:
  "js_in k (wire (JObj kvs)) =
     Some (k \<in> set (keys (filter (\<lambda>e. snd e \<noteq> JUndef) kvs)) \<or> k \<in> set proto_names)"
  by (simp add: wire.simps(7) keys_wire)

lemma TlsCert_roundtrip:
  assumes "TlsCert_ok x"
  shows "\<exists>v. TlsCert_toJson x = Some v \<and> v \<noteq> JUndef \<and> TlsCert_fromJson (wire v) = Some x"
proof (cases "cert_useFile x = JBool True")
  case True
  with assms show ?thesis
    by (simp add: TlsCert_ok_def TlsCert_toJson_def TlsCert_fromJson_def new_TlsCert_def
        js_get_wire js_in_wire field_ok_def)
next
  case False
  with assms obtain c k where "cert_cert x = JStr c" "cert_key x = JStr k"
    by (auto simp: TlsCert_ok_def is_string_iff)
  with False assms show ?thesis
    by (simp add: TlsCert_ok_def TlsCert_toJson_def TlsCert_fromJson_def new_TlsCert_def
        js_get_wire js_in_wire field_ok_def wire_strings proto_names_def del: wire.simps(6) js_join.simps)
qed

interpretation cert_codec: json_codec TlsCert_toJson TlsCert_fromJson TlsCert_ok
  by (rule json_codecI) (rule TlsCert_roundtrip)

section \<open>TlsStreamSettings\<close>

record TlsStreamSettings =
  tls_sni :: jsv
  tls_minVersion :: jsv
  tls_maxVersion :: jsv
  tls_cipherSuites :: jsv
  tls_rejectUnknownSni :: jsv
  tls_disableSystemRoot :: jsv
  tls_enableSessionResumption :: jsv
  tls_certs :: "TlsCert list"
  tls_alpn :: jsv
  tls_echServerKeys :: jsv
  tls_echForceQuery :: jsv
  tls_settings :: TlsSettings

definition new_TlsStreamSettings ::
  "jsv \<Rightarrow> jsv \<Rightarrow> jsv \<Rightarrow> jsv \<Rightarrow> jsv \<Rightarrow> jsv \<Rightarrow> jsv \<Rightarrow> TlsCert list option \<Rightarrow> jsv \<Rightarrow> jsv \<Rightarrow>
   jsv \<Rightarrow> TlsSettings option \<Rightarrow> TlsStreamSettings" where
  "new_TlsStreamSettings serverName minVersion maxVersion cipherSuites rejectUnknownSni
     disableSystemRoot enableSessionResumption certificates alpn echServerKeys echForceQuery settings =
     \<lparr>tls_sni = dflt serverName (JStr ''''),
      tls_minVersion = dflt minVersion (JStr ''1.2''),
      tls_maxVersion = dflt maxVersion (JStr ''1.3''),
      tls_cipherSuites = dflt cipherSuites (JStr ''''),
      tls_rejectUnknownSni = dflt rejectUnknownSni (JBool False),
      tls_disableSystemRoot = dflt disableSystemRoot (JBool False),
      tls_enableSessionResumption = dflt enableSessionResumption (JBool False),
      tls_certs = opt_new certificates [default_TlsCert],
      tls_alpn = dflt alpn (JArr [JStr ''h2'', JStr ''http/1.1'']),
      tls_echServerKeys = dflt echServerKeys (JStr ''''),
      tls_echForceQuery = dflt echForceQuery (JStr ''none''),
      tls_settings = opt_new settings default_TlsSettings\<rparr>"

definition default_TlsStreamSettings :: TlsStreamSettings where
  "default_TlsStreamSettings =
     new_TlsStreamSettings JUndef JUndef JUndef JUndef JUndef JUndef JUndef None JUndef JUndef JUndef None"

definition TlsStreamSettings_addCert :: "TlsStreamSettings \<Rightarrow> TlsStreamSettings" where
  "TlsStreamSettings_addCert x = x\<lparr>tls_certs := tls_certs x @ [default_TlsCert]\<rparr>"

definition TlsStreamSettings_removeCert :: "nat \<Rightarrow> TlsStreamSettings \<Rightarrow> TlsStreamSettings" where
  "TlsStreamSettings_removeCert index x = x\<lparr>tls_certs := splice1 index (tls_certs x)\<rparr>"

definition TlsStreamSettings_fromJson :: "jsv \<Rightarrow> TlsStreamSettings option" where
  "TlsStreamSettings_fromJson json =
     (let json = dflt json (JObj []) in
      do { certificates \<leftarrow> js_get json ''certificates'';
           certs \<leftarrow> (if \<not> isEmpty certificates then map_option Some (js_map TlsCert_fromJson certificates)
                     else Some None);
           settings \<leftarrow> js_get json ''settings'';
           settings \<leftarrow> (if \<not> isEmpty settings
             then do { fingerprint \<leftarrow> js_get settings ''fingerprint'';
                       echConfigList \<leftarrow> js_get settings ''echConfigList'';
                       Some (Some (new_TlsSettings fingerprint echConfigList)) }
             else Some None);
           serverName \<leftarrow> js_get json ''serverName'';
           minVersion \<leftarrow> js_get json ''minVersion'';
           maxVersion \<leftarrow> js_get json ''maxVersion'';
           cipherSuites \<leftarrow> js_get json ''cipherSuites'';
           rejectUnknownSni \<leftarrow> js_get json ''rejectUnknownSni'';
           disableSystemRoot \<leftarrow> js_get json ''disableSystemRoot'';
           enableSessionResumption \<leftarrow> js_get json ''enableSessionResumption'';
           alpn \<leftarrow> js_get json ''alpn'';
           echServerKeys \<leftarrow> js_get json ''echServerKeys'';
           echForceQuery \<leftarrow> js_get json ''echForceQuery'';
           Some (new_TlsStreamSettings serverName minVersion maxVersion cipherSuites rejectUnknownSni
             disableSystemRoot enableSessionResumption certs alpn echServerKeys echForceQuery settings) })"

text \<open>The nested settings are printed as the instance itself: its own fields.\<close>

definition TlsStreamSettings_toJson :: "TlsStreamSettings \<Rightarrow> jsv option" where
  "TlsStreamSettings_toJson x =
     do { certificates \<leftarrow> toJsonArray TlsCert_toJson (tls_certs x);
          Some (JObj
            [(''serverName'', tls_sni x),
             (''minVersion'', tls_minVersion x),
             (''maxVersion'', tls_maxVersion x),
             (''cipherSuites'', tls_cipherSuites x),
             (''rejectUnknownSni'', tls_rejectUnknownSni x),
             (''disableSystemRoot'', tls_disableSystemRoot x),
             (''enableSessionResumption'', tls_enableSessionResumption x),
             (''certificates'', certificates),
             (''alpn'', tls_alpn x),
             (''echServerKeys'', tls_echServerKeys x),
             (''echForceQuery'', tls_echForceQuery x),
             (''settings'', JObj
               [(''fingerprint'', tlss_fingerprint (tls_settings x)),
                (''echConfigList'', tlss_echConfigList (tls_settings x))])]) }"

definition TlsStreamSettings_ok :: "TlsStreamSettings \<Rightarrow> bool" where
  "TlsStreamSettings_ok x \<longleftrightarrow>
     field_ok (tls_sni x) \<and> field_ok (tls_minVersion x) \<and> field_ok (tls_maxVersion x) \<and>
     field_ok (tls_cipherSuites x) \<and> field_ok (tls_rejectUnknownSni x) \<and>
     field_ok (tls_disableSystemRoot x) \<and> field_ok (tls_enableSessionResumption x) \<and>
     list_all TlsCert_ok (tls_certs x) \<and> field_ok (tls_alpn x) \<and> field_ok (tls_echServerKeys x) \<and>
     field_ok (tls_echForceQuery x) \<and> TlsSettings_ok (tls_settings x)"

lemma isEmpty_simps [simp]:
  "\<not> isEmpty (JObj kvs)" "\<not> isEmpty (JArr vs)" "isEmpty JUndef" "isEmpty JNull"
  "isEmpty (JStr s) \<longleftrightarrow> s = ''''"
  by (auto simp: isEmpty_def)

lemma isEmpty_wire_JObj [simp]: "\<not> isEmpty (wire (JObj kvs))"
  by (simp add: isEmpty_def)

lemma isEmpty_array: "is_array v \<Longrightarrow> \<not> isEmpty (wire v)"
  by (cases v) auto

lemma TlsStreamSettings_roundtrip:
  assumes "TlsStreamSettings_ok x"
  shows "\<exists>v. TlsStreamSettings_toJson x = Some v \<and> v \<noteq> JUndef \<and> TlsStreamSettings_fromJson (wire v) = Some x"
proof -
  have "list_all TlsCert_ok (tls_certs x)" using assms by (simp add: TlsStreamSettings_ok_def)
  then obtain cs where cs: "toJsonArray TlsCert_toJson (tls_certs x) = Some cs" "cs \<noteq> JUndef" "is_array cs"
    "js_map TlsCert_fromJson (wire cs) = Some (tls_certs x)"
    using cert_codec.array_roundtrip by blast
  have "TlsSettings_ok (tls_settings x)" using assms by (simp add: TlsStreamSettings_ok_def)
  then have s: "new_TlsSettings (tlss_fingerprint (tls_settings x)) (tlss_echConfigList (tls_settings x)) = tls_settings x"
    "wire (tlss_fingerprint (tls_settings x)) = tlss_fingerprint (tls_settings x)"
    "wire (tlss_echConfigList (tls_settings x)) = tlss_echConfigList (tls_settings x)"
    by (simp_all add: TlsSettings_ok_def new_TlsSettings_def field_ok_def)
  show ?thesis
    using assms
    by (simp add: cs s isEmpty_array TlsStreamSettings_ok_def TlsStreamSettings_toJson_def TlsStreamSettings_fromJson_def
        new_TlsStreamSettings_def js_get_wire field_ok_def)
qed

interpretation tls_codec: json_codec TlsStreamSettings_toJson TlsStreamSettings_fromJson TlsStreamSettings_ok
  by (rule json_codecI) (rule TlsStreamSettings_roundtrip)

section \<open>RealityStreamSettings\<close>

record RealityStreamSettings =
  real_show :: jsv
  real_xver :: jsv
  real_target :: jsv
  real_serverNames :: jsv
  real_privateKey :: jsv
  real_minClientVer :: jsv
  real_maxClientVer :: jsv
  real_maxTimediff :: jsv
  real_shortIds :: jsv
  real_mldsa65Seed :: jsv
  real_settings :: RealitySettings

definition join_commas :: "jsv \<Rightarrow> jsv" where
  "join_commas v = (if is_array v then (case js_join '','' v of Some s \<Rightarrow> s | None \<Rightarrow> v) else v)"

definition new_RealityStreamSettings ::
  "jsv \<Rightarrow> jsv \<Rightarrow> jsv \<Rightarrow> jsv \<Rightarrow> jsv \<Rightarrow> jsv \<Rightarrow> jsv \<Rightarrow> jsv \<Rightarrow> jsv \<Rightarrow> jsv \<Rightarrow> RealitySettings option \<Rightarrow>
   world \<Rightarrow> RealityStreamSettings \<times> world" where
  "new_RealityStreamSettings show_v xver target serverNames privateKey minClientVer maxClientVer
     maxTimediff shortIds mldsa65Seed settings w =
     (let target = dflt target (JStr '''');
          serverNames = dflt serverNames (JStr '''');
          (shortIds, w) = (if shortIds = JUndef
             then (let (ids, w) = randomShortIds w in (JStr ids, w)) else (shortIds, w));
          (target, serverNames, w) = (if \<not> truthy target \<and> \<not> truthy serverNames
             then (let ((t, sni), w) = getRandomRealityTarget w in (JStr t, JStr sni, w))
             else (target, serverNames, w))
      in (\<lparr>real_show = dflt show_v (JBool False),
           real_xver = dflt xver (jint 0),
           real_target = target,
           real_serverNames = join_commas serverNames,
           real_privateKey = dflt privateKey (JStr ''''),
           real_minClientVer = dflt minClientVer (JStr ''''),
           real_maxClientVer = dflt maxClientVer (JStr ''''),
           real_maxTimediff = dflt maxTimediff (jint 0),
           real_shortIds = join_commas shortIds,
           real_mldsa65Seed = dflt mldsa65Seed (JStr ''''),
           real_settings = opt_new settings default_RealitySettings\<rparr>, w))"

definition RealityStreamSettings_fromJson :: "jsv \<Rightarrow> world \<Rightarrow> (RealityStreamSettings \<times> world) option" where
  "RealityStreamSettings_fromJson json w =
     (let json = dflt json (JObj []) in
      do { settings \<leftarrow> js_get json ''settings'';
           settings \<leftarrow> (if \<not> isEmpty settings
             then do { publicKey \<leftarrow> js_get settings ''publicKey'';
                       fingerprint \<leftarrow> js_get settings ''fingerprint'';
                       serverName \<leftarrow> js_get settings ''serverName'';
                       spiderX \<leftarrow> js_get settings ''spiderX'';
                       mldsa65Verify \<leftarrow> js_get settings ''mldsa65Verify'';
                       Some (Some (new_RealitySettings publicKey fingerprint serverName spiderX mldsa65Verify)) }
             else Some None);
           show_v \<leftarrow> js_get json ''show'';
           xver \<leftarrow> js_get json ''xver'';
           target \<leftarrow> js_get json ''target'';
           serverNames \<leftarrow> js_get json ''serverNames'';
           privateKey \<leftarrow> js_get json ''privateKey'';
           minClientVer \<leftarrow> js_get json ''minClientVer'';
           maxClientVer \<leftarrow> js_get json ''maxClientVer'';
           maxTimediff \<leftarrow> js_get json ''maxTimediff'';
           shortIds \<leftarrow> js_get json ''shortIds'';
           mldsa65Seed \<leftarrow> js_get json ''mldsa65Seed'';
           Some (new_RealityStreamSettings show_v xver target serverNames privateKey minClientVer
             maxClientVer maxTimediff shortIds mldsa65Seed settings w) })"

definition RealityStreamSettings_toJson :: "RealityStreamSettings \<Rightarrow> jsv option" where
  "RealityStreamSettings_toJson x =
     do { serverNames \<leftarrow> js_split CHR '','' (real_serverNames x);
          shortIds \<leftarrow> js_split CHR '','' (real_shortIds x);
          Some (JObj
            [(''show'', real_show x),
             (''xver'', real_xver x),
             (''target'', real_target x),
             (''serverNames'', serverNames),
             (''privateKey'', real_privateKey x),
             (''minClientVer'', real_minClientVer x),
             (''maxClientVer'', real_maxClientVer x),
             (''maxTimediff'', real_maxTimediff x),
             (''shortIds'', shortIds),
             (''mldsa65Seed'', real_mldsa65Seed x),
             (''settings'', JObj
               [(''publicKey'', reals_publicKey (real_settings x)),
                (''fingerprint'', reals_fingerprint (real_settings x)),
                (''serverName'', reals_serverName (real_settings x)),
                (''spiderX'', reals_spiderX (real_settings x)),
                (''mldsa65Verify'', reals_mldsa65Verify (real_settings x))])]) }"

definition RealityStreamSettings_ok :: "RealityStreamSettings \<Rightarrow> bool" where
  "RealityStreamSettings_ok x \<longleftrightarrow>
     field_ok (real_show x) \<and> field_ok (real_xver x) \<and> field_ok (real_target x) \<and>
     is_string (real_serverNames x) \<and> field_ok (real_privateKey x) \<and> field_ok (real_minClientVer x) \<and>
     field_ok (real_maxClientVer x) \<and> field_ok (real_maxTimediff x) \<and> is_string (real_shortIds x) \<and>
     field_ok (real_mldsa65Seed x) \<and> RealitySettings_ok (real_settings x)"

lemma RealityStreamSettings_roundtrip:
  assumes "RealityStreamSettings_ok x"
  shows "\<exists>v. RealityStreamSettings_toJson x = Some v \<and> v \<noteq> JUndef \<and>
    RealityStreamSettings_fromJson (wire v) w = Some (x, w)"
proof -
  obtain sn si where n: "real_serverNames x = JStr sn" "real_shortIds x = JStr si"
    using assms by (auto simp: RealityStreamSettings_ok_def is_string_iff)
  have "RealitySettings_ok (real_settings x)" using assms by (simp add: RealityStreamSettings_ok_def)
  then have s: "new_RealitySettings (reals_publicKey (real_settings x)) (reals_fingerprint (real_settings x))
      (reals_serverName (real_settings x)) (reals_spiderX (real_settings x)) (reals_mldsa65Verify (real_settings x)) = real_settings x"
    "wire (reals_publicKey (real_settings x)) = reals_publicKey (real_settings x)"
    "wire (reals_fingerprint (real_settings x)) = reals_fingerprint (real_settings x)"
    "wire (reals_serverName (real_settings x)) = reals_serverName (real_settings x)"
    "wire (reals_spiderX (real_settings x)) = reals_spiderX (real_settings x)"
    "wire (reals_mldsa65Verify (real_settings x)) = reals_mldsa65Verify (real_settings x)"
    by (simp_all add: RealitySettings_ok_def new_RealitySettings_def field_ok_def)
  show ?thesis
    using assms
    by (simp add: n s RealityStreamSettings_ok_def RealityStreamSettings_toJson_def RealityStreamSettings_fromJson_def
        new_RealityStreamSettings_def js_get_wire field_ok_def wire_strings join_commas_def
        del: wire.simps(6) js_join.simps)
qed

interpretation real_codec: json_codec RealityStreamSettings_toJson
    "\<lambda>v. map_option fst (RealityStreamSettings_fromJson v w)" RealityStreamSettings_ok for w
proof (rule json_codecI)
  fix x assume "RealityStreamSettings_ok x"
  then show "\<exists>v. RealityStreamSettings_toJson x = Some v \<and> v \<noteq> JUndef \<and>
      map_option fst (RealityStreamSettings_fromJson (wire v) w) = Some x"
    using RealityStreamSettings_roundtrip [of x w] by auto
qed

section \<open>SockoptStreamSettings\<close>

record SockoptStreamSettings =
  so_acceptProxyProtocol :: jsv
  so_tcpFastOpen :: jsv
  so_mark :: jsv
  so_tproxy :: jsv
  so_tcpMptcp :: jsv
  so_penetrate :: jsv
  so_domainStrategy :: jsv
  so_tcpMaxSeg :: jsv
  so_dialerProxy :: jsv
  so_tcpKeepAliveInterval :: jsv
  so_tcpKeepAliveIdle :: jsv
  so_tcpUserTimeout :: jsv
  so_tcpcongestion :: jsv
  so_V6Only :: jsv
  so_tcpWindowClamp :: jsv
  so_interfaceName :: jsv
  so_trustedXForwardedFor :: jsv

definition new_SockoptStreamSettings ::
  "jsv \<Rightarrow> jsv \<Rightarrow> jsv \<Rightarrow> jsv \<Rightarrow> jsv \<Rightarrow> jsv \<Rightarrow>
   jsv \<Rightarrow> jsv \<Rightarrow> jsv \<Rightarrow> jsv \<Rightarrow> jsv \<Rightarrow> jsv \<Rightarrow>
   jsv \<Rightarrow> jsv \<Rightarrow> jsv \<Rightarrow> jsv \<Rightarrow> jsv \<Rightarrow>
   SockoptStreamSettings" where
  "new_SockoptStreamSettings
     acceptProxyProtocol tcpFastOpen mark tproxy tcpMptcp penetrate domainStrategy tcpMaxSeg
     dialerProxy tcpKeepAliveInterval tcpKeepAliveIdle tcpUserTimeout tcpcongestion V6Only
     tcpWindowClamp interfaceName trustedXForwardedFor =
     \<lparr>so_acceptProxyProtocol = dflt acceptProxyProtocol (JBool False),
       so_tcpFastOpen = dflt tcpFastOpen (JBool False),
       so_mark = dflt mark (jint 0),
       so_tproxy = dflt tproxy (JStr ''off''),
       so_tcpMptcp = dflt tcpMptcp (JBool False),
       so_penetrate = dflt penetrate (JBool False),
       so_domainStrategy = dflt domainStrategy (JStr ''UseIP''),
       so_tcpMaxSeg = dflt tcpMaxSeg (jint 1440),
       so_dialerProxy = dflt dialerProxy (JStr ''''),
       so_tcpKeepAliveInterval = dflt tcpKeepAliveInterval (jint 0),
       so_tcpKeepAliveIdle = dflt tcpKeepAliveIdle (jint 300),
       so_tcpUserTimeout = dflt tcpUserTimeout (jint 10000),
       so_tcpcongestion = dflt tcpcongestion (JStr ''bbr''),
       so_V6Only = dflt V6Only (JBool False),
       so_tcpWindowClamp = dflt tcpWindowClamp (jint 600),
       so_interfaceName = dflt interfaceName (JStr ''''),
       so_trustedXForwardedFor = dflt trustedXForwardedFor (JArr [])\<rparr>"

definition default_SockoptStreamSettings :: SockoptStreamSettings where
  "default_SockoptStreamSettings =
     new_SockoptStreamSettings JUndef JUndef JUndef JUndef JUndef JUndef JUndef JUndef JUndef
     JUndef JUndef JUndef JUndef JUndef JUndef JUndef JUndef"

text \<open>The outer option is the TypeError, the inner None is undefined: no options at all.\<close>

definition SockoptStreamSettings_fromJson :: "jsv \<Rightarrow> SockoptStreamSettings option option" where
  "SockoptStreamSettings_fromJson json =
     (let json = dflt json (JObj []) in
      do { ks \<leftarrow> object_keys json;
           if ks = [] then Some None else
           do { acceptProxyProtocol \<leftarrow> js_get json ''acceptProxyProtocol'';
           tcpFastOpen \<leftarrow> js_get json ''tcpFastOpen'';
           mark \<leftarrow> js_get json ''mark'';
           tproxy \<leftarrow> js_get json ''tproxy'';
           tcpMptcp \<leftarrow> js_get json ''tcpMptcp'';
           penetrate \<leftarrow> js_get json ''penetrate'';
           domainStrategy \<leftarrow> js_get json ''domainStrategy'';
           tcpMaxSeg \<leftarrow> js_get json ''tcpMaxSeg'';
           dialerProxy \<leftarrow> js_get json ''dialerProxy'';
           tcpKeepAliveInterval \<leftarrow> js_get json ''tcpKeepAliveInterval'';
           tcpKeepAliveIdle \<leftarrow> js_get json ''tcpKeepAliveIdle'';
           tcpUserTimeout \<leftarrow> js_get json ''tcpUserTimeout'';
           tcpcongestion \<leftarrow> js_get json ''tcpcongestion'';
           V6Only \<leftarrow> js_get json ''V6Only'';
           tcpWindowClamp \<leftarrow> js_get json ''tcpWindowClamp'';
           interface_v \<leftarrow> js_get json ''interface'';
           trustedXForwardedFor \<leftarrow> js_get json ''trustedXForwardedFor'';
           Some (Some (new_SockoptStreamSettings acceptProxyProtocol tcpFastOpen mark tproxy tcpMptcp penetrate
            domainStrategy tcpMaxSeg dialerProxy tcpKeepAliveInterval tcpKeepAliveIdle
            tcpUserTimeout tcpcongestion V6Only tcpWindowClamp interface_v (js_or
            trustedXForwardedFor (JArr [])))) } })"

definition SockoptStreamSettings_toJson :: "SockoptStreamSettings \<Rightarrow> jsv option" where
  "SockoptStreamSettings_toJson x =
     (let result =
       [(''acceptProxyProtocol'', so_acceptProxyProtocol x),
        (''tcpFastOpen'', so_tcpFastOpen x),
        (''mark'', so_mark x),
        (''tproxy'', so_tproxy x),
        (''tcpMptcp'', so_tcpMptcp x),
        (''penetrate'', so_penetrate x),
        (''domainStrategy'', so_domainStrategy x),
        (''tcpMaxSeg'', so_tcpMaxSeg x),
        (''dialerProxy'', so_dialerProxy x),
        (''tcpKeepAliveInterval'', so_tcpKeepAliveInterval x),
        (''tcpKeepAliveIdle'', so_tcpKeepAliveIdle x),
        (''tcpUserTimeout'', so_tcpUserTimeout x),
        (''tcpcongestion'', so_tcpcongestion x),
        (''V6Only'', so_V6Only x),
        (''tcpWindowClamp'', so_tcpWindowClamp x),
        (''interface'', so_interfaceName x)];
        trusted = so_trustedXForwardedFor x in
      do { more \<leftarrow> (if truthy trusted
             then do { len \<leftarrow> js_get trusted ''length''; Some (js_gt len (jint 0)) }
             else Some False);
           Some (JObj (if more then obj_set result ''trustedXForwardedFor'' trusted else result)) })"

definition SockoptStreamSettings_ok :: "SockoptStreamSettings \<Rightarrow> bool" where
  "SockoptStreamSettings_ok x \<longleftrightarrow>
     field_ok (so_acceptProxyProtocol x) \<and>
     field_ok (so_tcpFastOpen x) \<and>
     field_ok (so_mark x) \<and>
     field_ok (so_tproxy x) \<and>
     field_ok (so_tcpMptcp x) \<and>
     field_ok (so_penetrate x) \<and>
     field_ok (so_domainStrategy x) \<and>
     field_ok (so_tcpMaxSeg x) \<and>
     field_ok (so_dialerProxy x) \<and>
     field_ok (so_tcpKeepAliveInterval x) \<and>
     field_ok (so_tcpKeepAliveIdle x) \<and>
     field_ok (so_tcpUserTimeout x) \<and>
     field_ok (so_tcpcongestion x) \<and>
     field_ok (so_V6Only x) \<and>
     field_ok (so_tcpWindowClamp x) \<and>
     field_ok (so_interfaceName x) \<and>
     field_ok (so_trustedXForwardedFor x) \<and>
     is_array (so_trustedXForwardedFor x)"


lemma array_length_positive:
  "is_array v \<Longrightarrow> v \<noteq> JArr [] \<Longrightarrow> \<exists>l. js_get v ''length'' = Some l \<and> js_gt l (jint 0)"
  by (cases v) (auto simp del: of_int_of_nat_eq)

lemma SockoptStreamSettings_roundtrip:
  assumes "SockoptStreamSettings_ok x"
  shows "\<exists>v. SockoptStreamSettings_toJson x = Some v \<and> v \<noteq> JUndef \<and>
    SockoptStreamSettings_fromJson (wire v) = Some (Some x)"
proof (cases "so_trustedXForwardedFor x = JArr []")
  case True
  with assms show ?thesis
    by (simp add: SockoptStreamSettings_ok_def SockoptStreamSettings_toJson_def SockoptStreamSettings_fromJson_def
        new_SockoptStreamSettings_def js_get_wire field_ok_def object_keys_wire)
next
  case False
  with assms obtain l where "js_get (so_trustedXForwardedFor x) ''length'' = Some l" "js_gt l (jint 0)"
    using array_length_positive by (auto simp: SockoptStreamSettings_ok_def)
  moreover have "truthy (so_trustedXForwardedFor x)"
    using assms by (cases "so_trustedXForwardedFor x") (auto simp: SockoptStreamSettings_ok_def)
  ultimately show ?thesis using assms
    by (simp add: SockoptStreamSettings_ok_def SockoptStreamSettings_toJson_def SockoptStreamSettings_fromJson_def
        new_SockoptStreamSettings_def js_get_wire field_ok_def object_keys_wire)
qed

end

