(* ===== verification/Clients.thy ===== *)
theory Clients
  imports InTls
begin

text \<open>
  The clients of the Xray protocols (web/assets/js/model/inbound.js): Inbound.ClientBase with
  the quota fields, and the client classes of VMess, VLESS, Trojan, Shadowsocks and Hysteria,
  which add their credentials. Constructors take what a caller leaves out from the random
  source, so loading runs on the \<open>world\<close>; the contract \<open>world_codec\<close> says that loading what
  was saved draws nothing and returns the instance.
\<close>

section \<open>Codecs that may draw random values\<close>

locale world_codec =
  fixes enc :: "'a \<Rightarrow> jsv option"
    and dec :: "jsv \<Rightarrow> world \<Rightarrow> ('a \<times> world) option"
    and ok :: "'a \<Rightarrow> bool"
  assumes enc_some: "ok x \<Longrightarrow> \<exists>v. enc x = Some v \<and> v \<noteq> JUndef"
    and dec_same_world: "ok x \<Longrightarrow> enc x = Some v \<Longrightarrow> dec (wire v) w = Some (x, w)"

lemma world_codecI:
  assumes "\<And>x. ok x \<Longrightarrow> \<exists>v. enc x = Some v \<and> v \<noteq> JUndef \<and> (\<forall>w. dec (wire v) w = Some (x, w))"
  shows "world_codec enc dec ok"
  using assms by unfold_locales force+

text \<open>\<open>v.map(f)\<close> with a function that draws from the world.\<close>

primrec mapMW :: "('a \<Rightarrow> world \<Rightarrow> ('b \<times> world) option) \<Rightarrow> 'a list \<Rightarrow> world \<Rightarrow> ('b list \<times> world) option" where
  "mapMW f [] w = Some ([], w)"
| "mapMW f (x # xs) w =
     do { (y, w) \<leftarrow> f x w; (ys, w) \<leftarrow> mapMW f xs w; Some (y # ys, w) }"

fun js_mapW :: "(jsv \<Rightarrow> world \<Rightarrow> ('a \<times> world) option) \<Rightarrow> jsv \<Rightarrow> world \<Rightarrow> ('a list \<times> world) option" where
  "js_mapW f (JArr vs) w = mapMW f vs w"
| "js_mapW f _ w = None"

context world_codec
begin

lemma saved_list:
  "list_all ok xs \<Longrightarrow> \<exists>vs. mapM enc xs = Some vs \<and> JUndef \<notin> set vs \<and>
     (\<forall>w. mapMW dec (map wire vs) w = Some (xs, w))"
proof (induction xs)
  case (Cons x xs)
  then obtain v vs where "enc x = Some v" "v \<noteq> JUndef" "mapM enc xs = Some vs" "JUndef \<notin> set vs"
    "\<forall>w. mapMW dec (map wire vs) w = Some (xs, w)"
    using enc_some [of x] by auto
  with Cons.prems dec_same_world [of x v] show ?case by simp
qed simp

lemma array_loaded:
  assumes "list_all ok xs"
  shows "\<exists>v. toJsonArray enc xs = Some v \<and> is_array v \<and> (\<forall>w. js_mapW dec (wire v) w = Some (xs, w))"
proof -
  obtain vs where vs: "mapM enc xs = Some vs" "JUndef \<notin> set vs" "\<forall>w. mapMW dec (map wire vs) w = Some (xs, w)"
    using saved_list [OF assms] by blast
  then have "map (\<lambda>v. if v = JUndef then JNull else wire v) vs = map wire vs" by (intro map_cong) auto
  then have "\<forall>w. js_mapW dec (wire (JArr vs)) w = Some (xs, w)"
    using vs(3) by (simp only: wire.simps js_mapW.simps simp_thms)
  with vs(1) show ?thesis by (auto simp: toJsonArray_def)
qed

text \<open>\<open>(json.clients || []).map(f)\<close> on what was sent.\<close>

lemma clients_loaded:
  assumes "list_all ok xs"
  shows "\<exists>v. toJsonArray enc xs = Some v \<and> v \<noteq> JUndef \<and>
    (\<forall>w. js_mapW dec (js_or (wire v) (JArr [])) w = Some (xs, w))"
proof -
  obtain v where v: "toJsonArray enc xs = Some v" "is_array v" "\<forall>w. js_mapW dec (wire v) w = Some (xs, w)"
    using array_loaded [OF assms] by blast
  then have "truthy (wire v)" "v \<noteq> JUndef" by (cases v; simp)+
  with v show ?thesis by auto
qed

end

sublocale world_codec \<subseteq> json_codec enc "\<lambda>v. map_option fst (dec v w)" ok for w
  by unfold_locales (simp_all add: enc_some dec_same_world)

section \<open>Inbound.ClientBase\<close>

record ClientBase =
  cb_email :: jsv
  cb_limitIp :: jsv
  cb_totalGB :: jsv
  cb_expiryTime :: jsv
  cb_enable :: jsv
  cb_tgId :: jsv
  cb_subId :: jsv
  cb_comment :: jsv
  cb_reset :: jsv
  cb_created_at :: jsv
  cb_updated_at :: jsv

text \<open>A parameter whose default is random: the default is computed when it is missing.\<close>

definition random_dflt :: "jsv \<Rightarrow> (world \<Rightarrow> string \<times> world) \<Rightarrow> world \<Rightarrow> jsv \<times> world" where
  "random_dflt v gen w = (if v = JUndef then (let (s, w) = gen w in (JStr s, w)) else (v, w))"

lemma random_dflt_given [simp]: "v \<noteq> JUndef \<Longrightarrow> random_dflt v gen w = (v, w)"
  by (simp add: random_dflt_def)

type_synonym base_args = "jsv \<times> jsv \<times> jsv \<times> jsv \<times> jsv \<times> jsv \<times> jsv \<times> jsv \<times> jsv \<times> jsv \<times> jsv"

definition new_ClientBase :: "base_args \<Rightarrow> world \<Rightarrow> ClientBase \<times> world" where
  "new_ClientBase args w =
     (case args of (email, limitIp, totalGB, expiryTime, enable, tgId, subId, comment, reset, created_at, updated_at) \<Rightarrow>
        let (email, w) = random_dflt email (randomLowerAndNum 8) w;
            (subId, w) = random_dflt subId (randomLowerAndNum 16) w
        in (\<lparr>cb_email = email,
             cb_limitIp = dflt limitIp (jint 0),
             cb_totalGB = dflt totalGB (jint 0),
             cb_expiryTime = dflt expiryTime (jint 0),
             cb_enable = dflt enable (JBool True),
             cb_tgId = dflt tgId (JStr ''''),
             cb_subId = subId,
             cb_comment = dflt comment (JStr ''''),
             cb_reset = dflt reset (jint 0),
             cb_created_at = created_at,
             cb_updated_at = updated_at\<rparr>, w))"

definition commonArgsFromJson :: "jsv \<Rightarrow> base_args option" where
  "commonArgsFromJson json =
     (let json = dflt json (JObj []) in
      do { email \<leftarrow> js_get json ''email'';
           limitIp \<leftarrow> js_get json ''limitIp'';
           totalGB \<leftarrow> js_get json ''totalGB'';
           expiryTime \<leftarrow> js_get json ''expiryTime'';
           enable \<leftarrow> js_get json ''enable'';
           tgId \<leftarrow> js_get json ''tgId'';
           subId \<leftarrow> js_get json ''subId'';
           comment \<leftarrow> js_get json ''comment'';
           reset \<leftarrow> js_get json ''reset'';
           created_at \<leftarrow> js_get json ''created_at'';
           updated_at \<leftarrow> js_get json ''updated_at'';
           Some (email, limitIp, totalGB, expiryTime, enable, tgId, subId, comment, reset, created_at, updated_at) })"

definition clientBaseToJson :: "ClientBase \<Rightarrow> entries" where
  "clientBaseToJson x =
     [(''email'', cb_email x),
      (''limitIp'', cb_limitIp x),
      (''totalGB'', cb_totalGB x),
      (''expiryTime'', cb_expiryTime x),
      (''enable'', cb_enable x),
      (''tgId'', cb_tgId x),
      (''subId'', cb_subId x),
      (''comment'', cb_comment x),
      (''reset'', cb_reset x),
      (''created_at'', cb_created_at x),
      (''updated_at'', cb_updated_at x)]"

text \<open>
  The form edits the expiry as nothing, as a number of days after first use (kept negative,
  in milliseconds), or as a date, an object of the library moment that wraps the time.
\<close>

datatype expiry_view = NoExpiry | AfterDays jnum | OnDate jsv

fun num_scale :: "rat \<Rightarrow> jnum \<Rightarrow> jnum" where
  "num_scale c (Fin q) = Fin (c * q)"
| "num_scale c NaN = NaN"
| "num_scale c (Inf pos) = Inf (pos = (0 < c))"

definition get_expiryTime :: "jsv \<Rightarrow> expiry_view" where
  "get_expiryTime expiryTime =
     (if expiryTime = jint 0 \<or> expiryTime = JStr '''' then NoExpiry
      else if js_lt expiryTime (jint 0) then AfterDays (num_scale (- 1 / 86400000) (js_to_number expiryTime))
      else OnDate expiryTime)"

definition set_expiryTime :: "jsv \<Rightarrow> jsv" where
  "set_expiryTime t = (if is_nullish t \<or> t = JStr '''' then jint 0 else t)"

text \<open>\<open>NumberFormatter.toFixed\<close>, and the total in gigabytes of 2^30 bytes.\<close>

fun toFixed_num :: "jnum \<Rightarrow> nat \<Rightarrow> jnum" where
  "toFixed_num (Fin q) n = Fin (of_int (rat_floor (q * 10 ^ n)) / 10 ^ n)"
| "toFixed_num v n = v"

definition get_totalGB :: "jsv \<Rightarrow> jnum" where
  "get_totalGB totalGB = toFixed_num (num_scale (1 / 2 ^ 30) (js_to_number totalGB)) 2"

definition set_totalGB :: "jsv \<Rightarrow> jsv" where
  "set_totalGB gb = JNum (toFixed_num (num_scale (2 ^ 30) (js_to_number gb)) 0)"

definition ClientBase_ok :: "ClientBase \<Rightarrow> bool" where
  "ClientBase_ok x \<longleftrightarrow>
     field_ok (cb_email x) \<and> field_ok (cb_limitIp x) \<and> field_ok (cb_totalGB x) \<and>
     field_ok (cb_expiryTime x) \<and> field_ok (cb_enable x) \<and> field_ok (cb_tgId x) \<and>
     field_ok (cb_subId x) \<and> field_ok (cb_comment x) \<and> field_ok (cb_reset x) \<and>
     opt_field_ok (cb_created_at x) \<and> opt_field_ok (cb_updated_at x)"

text \<open>
  The quota fields of a client object are read back as they were, whatever its first keys
  are, as long as these are other names.
\<close>

lemma clientBase_keys: "keys (clientBaseToJson x) =
  [''email'', ''limitIp'', ''totalGB'', ''expiryTime'', ''enable'', ''tgId'', ''subId'', ''comment'',
   ''reset'', ''created_at'', ''updated_at'']"
  by (simp add: clientBaseToJson_def)

lemma new_ClientBase_same:
  "ClientBase_ok x \<Longrightarrow>
   new_ClientBase (cb_email x, cb_limitIp x, cb_totalGB x, cb_expiryTime x, cb_enable x, cb_tgId x,
     cb_subId x, cb_comment x, cb_reset x, cb_created_at x, cb_updated_at x) w = (x, w)"
  by (simp add: new_ClientBase_def ClientBase_ok_def field_ok_def)

lemma clientBase_loaded:
  assumes "ClientBase_ok x" and "distinct (keys (pre @ clientBaseToJson x))"
  shows "\<exists>args. commonArgsFromJson (wire (JObj (pre @ clientBaseToJson x))) = Some args \<and>
    (\<forall>w. new_ClientBase args w = (x, w))"
proof -
  let ?kvs = "pre @ clientBaseToJson x"
  have g: "js_get (wire (JObj ?kvs)) k = Some (wire (look ?kvs k))" for k
    using assms(2) by (rule js_get_wire)
  have "look ?kvs k = look (clientBaseToJson x) k" if "k \<in> set (keys (clientBaseToJson x))" for k
    using assms(2) that by (auto simp: look_append)
  then have l: "look ?kvs ''email'' = cb_email x" "look ?kvs ''limitIp'' = cb_limitIp x"
    "look ?kvs ''totalGB'' = cb_totalGB x" "look ?kvs ''expiryTime'' = cb_expiryTime x"
    "look ?kvs ''enable'' = cb_enable x" "look ?kvs ''tgId'' = cb_tgId x" "look ?kvs ''subId'' = cb_subId x"
    "look ?kvs ''comment'' = cb_comment x" "look ?kvs ''reset'' = cb_reset x"
    "look ?kvs ''created_at'' = cb_created_at x" "look ?kvs ''updated_at'' = cb_updated_at x"
    unfolding clientBase_keys by (simp_all add: clientBaseToJson_def)
  have j: "dflt (wire (JObj ?kvs)) (JObj []) = wire (JObj ?kvs)" by simp
  have w: "wire (cb_email x) = cb_email x" "wire (cb_limitIp x) = cb_limitIp x" "wire (cb_totalGB x) = cb_totalGB x" "wire (cb_expiryTime x) = cb_expiryTime x" "wire (cb_enable x) = cb_enable x" "wire (cb_tgId x) = cb_tgId x" "wire (cb_subId x) = cb_subId x" "wire (cb_comment x) = cb_comment x" "wire (cb_reset x) = cb_reset x" "wire (cb_created_at x) = cb_created_at x" "wire (cb_updated_at x) = cb_updated_at x"
    using assms(1) by (simp_all add: ClientBase_ok_def field_ok_def opt_field_ok_def)
  show ?thesis
    unfolding commonArgsFromJson_def j Let_def g l bind.bind_lunit w
    by (simp add: new_ClientBase_same [OF assms(1)])
qed

end
