(* ===== verification/InClients.thy ===== *)
theory InClients
  imports Clients
begin

text \<open>
  The client classes of the Xray protocols and the fallbacks of VLESS and Trojan
  (web/assets/js/model/inbound.js).
\<close>

section \<open>Inbound.VmessSettings.VMESS\<close>

record VMESS =
  vm_id :: jsv
  vm_security :: jsv
  vm_base :: ClientBase

definition new_VMESS :: "jsv \<Rightarrow> jsv \<Rightarrow> base_args \<Rightarrow> world \<Rightarrow> VMESS \<times> world" where
  "new_VMESS id_v security args w =
     (let (id_v, w) = random_dflt id_v (randomUUID) w;
          (base, w) = new_ClientBase args w
      in (\<lparr>vm_id = id_v, vm_security = dflt security (JStr ''auto''), vm_base = base\<rparr>, w))"

definition VMESS_fromJson :: "jsv \<Rightarrow> world \<Rightarrow> (VMESS \<times> world) option" where
  "VMESS_fromJson json w =
     (let json = dflt json (JObj []) in
      do { id_v \<leftarrow> js_get json ''id'';
           security \<leftarrow> js_get json ''security'';
           args \<leftarrow> commonArgsFromJson json;
           Some (new_VMESS id_v security args w) })"

definition VMESS_toJson :: "VMESS \<Rightarrow> jsv" where
  "VMESS_toJson x = JObj ([(''id'', vm_id x), (''security'', vm_security x)] @ clientBaseToJson (vm_base x))"

definition VMESS_ok :: "VMESS \<Rightarrow> bool" where
  "VMESS_ok x \<longleftrightarrow> field_ok (vm_id x) \<and> field_ok (vm_security x) \<and> ClientBase_ok (vm_base x)"

lemma VMESS_roundtrip:
  assumes "VMESS_ok x"
  shows "VMESS_fromJson (wire (VMESS_toJson x)) w = Some (x, w)"
proof -
  let ?kvs = "[(''id'', vm_id x), (''security'', vm_security x)] @ clientBaseToJson (vm_base x)"
  have d: "distinct (keys ?kvs)" by (simp add: clientBase_keys)
  have "ClientBase_ok (vm_base x)" using assms by (simp add: VMESS_ok_def)
  then obtain args where a: "commonArgsFromJson (wire (JObj ?kvs)) = Some args"
    "\<forall>w. new_ClientBase args w = (vm_base x, w)"
    using clientBase_loaded [OF _ d] by blast
  have g: "js_get (wire (JObj ?kvs)) k = Some (wire (look ?kvs k))" for k by (rule js_get_wire [OF d])
  have l: "look ?kvs ''id'' = vm_id x" "look ?kvs ''security'' = vm_security x" by simp_all
  have j: "dflt (wire (JObj ?kvs)) (JObj []) = wire (JObj ?kvs)" by simp
  show ?thesis
    unfolding VMESS_fromJson_def VMESS_toJson_def Let_def j g l a(1) bind.bind_lunit new_VMESS_def
    using assms by (cases x) (simp add: a(2) VMESS_ok_def field_ok_def)
qed

interpretation vm_codec: world_codec "\<lambda>x. Some (VMESS_toJson x)" VMESS_fromJson VMESS_ok
  by (rule world_codecI) (simp add: VMESS_roundtrip, simp add: VMESS_toJson_def)

section \<open>Inbound.VLESSSettings.VLESS\<close>

record VLESS =
  vl_id :: jsv
  vl_flow :: jsv
  vl_base :: ClientBase

definition new_VLESS :: "jsv \<Rightarrow> jsv \<Rightarrow> base_args \<Rightarrow> world \<Rightarrow> VLESS \<times> world" where
  "new_VLESS id_v flow args w =
     (let (id_v, w) = random_dflt id_v (randomUUID) w;
          (base, w) = new_ClientBase args w
      in (\<lparr>vl_id = id_v, vl_flow = dflt flow (JStr ''''), vl_base = base\<rparr>, w))"

definition VLESS_fromJson :: "jsv \<Rightarrow> world \<Rightarrow> (VLESS \<times> world) option" where
  "VLESS_fromJson json w =
     (let json = dflt json (JObj []) in
      do { id_v \<leftarrow> js_get json ''id'';
           flow \<leftarrow> js_get json ''flow'';
           args \<leftarrow> commonArgsFromJson json;
           Some (new_VLESS id_v flow args w) })"

definition VLESS_toJson :: "VLESS \<Rightarrow> jsv" where
  "VLESS_toJson x = JObj ([(''id'', vl_id x), (''flow'', vl_flow x)] @ clientBaseToJson (vl_base x))"

definition VLESS_ok :: "VLESS \<Rightarrow> bool" where
  "VLESS_ok x \<longleftrightarrow> field_ok (vl_id x) \<and> field_ok (vl_flow x) \<and> ClientBase_ok (vl_base x)"

lemma VLESS_roundtrip:
  assumes "VLESS_ok x"
  shows "VLESS_fromJson (wire (VLESS_toJson x)) w = Some (x, w)"
proof -
  let ?kvs = "[(''id'', vl_id x), (''flow'', vl_flow x)] @ clientBaseToJson (vl_base x)"
  have d: "distinct (keys ?kvs)" by (simp add: clientBase_keys)
  have "ClientBase_ok (vl_base x)" using assms by (simp add: VLESS_ok_def)
  then obtain args where a: "commonArgsFromJson (wire (JObj ?kvs)) = Some args"
    "\<forall>w. new_ClientBase args w = (vl_base x, w)"
    using clientBase_loaded [OF _ d] by blast
  have g: "js_get (wire (JObj ?kvs)) k = Some (wire (look ?kvs k))" for k by (rule js_get_wire [OF d])
  have l: "look ?kvs ''id'' = vl_id x" "look ?kvs ''flow'' = vl_flow x" by simp_all
  have j: "dflt (wire (JObj ?kvs)) (JObj []) = wire (JObj ?kvs)" by simp
  show ?thesis
    unfolding VLESS_fromJson_def VLESS_toJson_def Let_def j g l a(1) bind.bind_lunit new_VLESS_def
    using assms by (cases x) (simp add: a(2) VLESS_ok_def field_ok_def)
qed

interpretation vl_codec: world_codec "\<lambda>x. Some (VLESS_toJson x)" VLESS_fromJson VLESS_ok
  by (rule world_codecI) (simp add: VLESS_roundtrip, simp add: VLESS_toJson_def)

section \<open>Inbound.TrojanSettings.Trojan\<close>

record Trojan =
  tj_password :: jsv
  tj_base :: ClientBase

definition new_Trojan :: "jsv \<Rightarrow> base_args \<Rightarrow> world \<Rightarrow> Trojan \<times> world" where
  "new_Trojan password args w =
     (let (password, w) = random_dflt password (randomSeq 10 default_seq) w;
          (base, w) = new_ClientBase args w
      in (\<lparr>tj_password = password, tj_base = base\<rparr>, w))"

definition Trojan_fromJson :: "jsv \<Rightarrow> world \<Rightarrow> (Trojan \<times> world) option" where
  "Trojan_fromJson json w =
     (let json = dflt json (JObj []) in
      do { password \<leftarrow> js_get json ''password'';
           args \<leftarrow> commonArgsFromJson json;
           Some (new_Trojan password args w) })"

definition Trojan_toJson :: "Trojan \<Rightarrow> jsv" where
  "Trojan_toJson x = JObj ([(''password'', tj_password x)] @ clientBaseToJson (tj_base x))"

definition Trojan_ok :: "Trojan \<Rightarrow> bool" where
  "Trojan_ok x \<longleftrightarrow> field_ok (tj_password x) \<and> ClientBase_ok (tj_base x)"

lemma Trojan_roundtrip:
  assumes "Trojan_ok x"
  shows "Trojan_fromJson (wire (Trojan_toJson x)) w = Some (x, w)"
proof -
  let ?kvs = "[(''password'', tj_password x)] @ clientBaseToJson (tj_base x)"
  have d: "distinct (keys ?kvs)" by (simp add: clientBase_keys)
  have "ClientBase_ok (tj_base x)" using assms by (simp add: Trojan_ok_def)
  then obtain args where a: "commonArgsFromJson (wire (JObj ?kvs)) = Some args"
    "\<forall>w. new_ClientBase args w = (tj_base x, w)"
    using clientBase_loaded [OF _ d] by blast
  have g: "js_get (wire (JObj ?kvs)) k = Some (wire (look ?kvs k))" for k by (rule js_get_wire [OF d])
  have l: "look ?kvs ''password'' = tj_password x" by simp_all
  have j: "dflt (wire (JObj ?kvs)) (JObj []) = wire (JObj ?kvs)" by simp
  show ?thesis
    unfolding Trojan_fromJson_def Trojan_toJson_def Let_def j g l a(1) bind.bind_lunit new_Trojan_def
    using assms by (cases x) (simp add: a(2) Trojan_ok_def field_ok_def)
qed

interpretation tj_codec: world_codec "\<lambda>x. Some (Trojan_toJson x)" Trojan_fromJson Trojan_ok
  by (rule world_codecI) (simp add: Trojan_roundtrip, simp add: Trojan_toJson_def)

section \<open>Inbound.ShadowsocksSettings.Shadowsocks\<close>

record Shadowsocks =
  shs_method :: jsv
  shs_password :: jsv
  shs_base :: ClientBase

definition new_Shadowsocks :: "jsv \<Rightarrow> jsv \<Rightarrow> base_args \<Rightarrow> world \<Rightarrow> Shadowsocks \<times> world" where
  "new_Shadowsocks method' password args w =
     (let (password, w) = random_dflt password (randomShadowsocksPassword ''2022-blake3-aes-256-gcm'') w;
          (base, w) = new_ClientBase args w
      in (\<lparr>shs_method = dflt method' (JStr ''''), shs_password = password, shs_base = base\<rparr>, w))"

definition Shadowsocks_fromJson :: "jsv \<Rightarrow> world \<Rightarrow> (Shadowsocks \<times> world) option" where
  "Shadowsocks_fromJson json w =
     (let json = dflt json (JObj []) in
      do { method' \<leftarrow> js_get json ''method'';
           password \<leftarrow> js_get json ''password'';
           args \<leftarrow> commonArgsFromJson json;
           Some (new_Shadowsocks method' password args w) })"

definition Shadowsocks_toJson :: "Shadowsocks \<Rightarrow> jsv" where
  "Shadowsocks_toJson x = JObj ([(''method'', shs_method x), (''password'', shs_password x)] @ clientBaseToJson (shs_base x))"

definition Shadowsocks_ok :: "Shadowsocks \<Rightarrow> bool" where
  "Shadowsocks_ok x \<longleftrightarrow> field_ok (shs_method x) \<and> field_ok (shs_password x) \<and> ClientBase_ok (shs_base x)"

lemma Shadowsocks_roundtrip:
  assumes "Shadowsocks_ok x"
  shows "Shadowsocks_fromJson (wire (Shadowsocks_toJson x)) w = Some (x, w)"
proof -
  let ?kvs = "[(''method'', shs_method x), (''password'', shs_password x)] @ clientBaseToJson (shs_base x)"
  have d: "distinct (keys ?kvs)" by (simp add: clientBase_keys)
  have "ClientBase_ok (shs_base x)" using assms by (simp add: Shadowsocks_ok_def)
  then obtain args where a: "commonArgsFromJson (wire (JObj ?kvs)) = Some args"
    "\<forall>w. new_ClientBase args w = (shs_base x, w)"
    using clientBase_loaded [OF _ d] by blast
  have g: "js_get (wire (JObj ?kvs)) k = Some (wire (look ?kvs k))" for k by (rule js_get_wire [OF d])
  have l: "look ?kvs ''method'' = shs_method x" "look ?kvs ''password'' = shs_password x" by simp_all
  have j: "dflt (wire (JObj ?kvs)) (JObj []) = wire (JObj ?kvs)" by simp
  show ?thesis
    unfolding Shadowsocks_fromJson_def Shadowsocks_toJson_def Let_def j g l a(1) bind.bind_lunit new_Shadowsocks_def
    using assms by (cases x) (simp add: a(2) Shadowsocks_ok_def field_ok_def)
qed

interpretation shs_codec: world_codec "\<lambda>x. Some (Shadowsocks_toJson x)" Shadowsocks_fromJson Shadowsocks_ok
  by (rule world_codecI) (simp add: Shadowsocks_roundtrip, simp add: Shadowsocks_toJson_def)

section \<open>Inbound.HysteriaSettings.Hysteria\<close>

record Hysteria =
  hya_auth :: jsv
  hya_base :: ClientBase

definition new_Hysteria :: "jsv \<Rightarrow> base_args \<Rightarrow> world \<Rightarrow> Hysteria \<times> world" where
  "new_Hysteria auth args w =
     (let (auth, w) = random_dflt auth (randomSeq 10 default_seq) w;
          (base, w) = new_ClientBase args w
      in (\<lparr>hya_auth = auth, hya_base = base\<rparr>, w))"

definition Hysteria_fromJson :: "jsv \<Rightarrow> world \<Rightarrow> (Hysteria \<times> world) option" where
  "Hysteria_fromJson json w =
     (let json = dflt json (JObj []) in
      do { auth \<leftarrow> js_get json ''auth'';
           args \<leftarrow> commonArgsFromJson json;
           Some (new_Hysteria auth args w) })"

definition Hysteria_toJson :: "Hysteria \<Rightarrow> jsv" where
  "Hysteria_toJson x = JObj ([(''auth'', hya_auth x)] @ clientBaseToJson (hya_base x))"

definition Hysteria_ok :: "Hysteria \<Rightarrow> bool" where
  "Hysteria_ok x \<longleftrightarrow> field_ok (hya_auth x) \<and> ClientBase_ok (hya_base x)"

lemma Hysteria_roundtrip:
  assumes "Hysteria_ok x"
  shows "Hysteria_fromJson (wire (Hysteria_toJson x)) w = Some (x, w)"
proof -
  let ?kvs = "[(''auth'', hya_auth x)] @ clientBaseToJson (hya_base x)"
  have d: "distinct (keys ?kvs)" by (simp add: clientBase_keys)
  have "ClientBase_ok (hya_base x)" using assms by (simp add: Hysteria_ok_def)
  then obtain args where a: "commonArgsFromJson (wire (JObj ?kvs)) = Some args"
    "\<forall>w. new_ClientBase args w = (hya_base x, w)"
    using clientBase_loaded [OF _ d] by blast
  have g: "js_get (wire (JObj ?kvs)) k = Some (wire (look ?kvs k))" for k by (rule js_get_wire [OF d])
  have l: "look ?kvs ''auth'' = hya_auth x" by simp_all
  have j: "dflt (wire (JObj ?kvs)) (JObj []) = wire (JObj ?kvs)" by simp
  show ?thesis
    unfolding Hysteria_fromJson_def Hysteria_toJson_def Let_def j g l a(1) bind.bind_lunit new_Hysteria_def
    using assms by (cases x) (simp add: a(2) Hysteria_ok_def field_ok_def)
qed

interpretation hya_codec: world_codec "\<lambda>x. Some (Hysteria_toJson x)" Hysteria_fromJson Hysteria_ok
  by (rule world_codecI) (simp add: Hysteria_roundtrip, simp add: Hysteria_toJson_def)

section \<open>Fallback\<close>

text \<open>
  Inbound.VLESSSettings.Fallback and Inbound.TrojanSettings.Fallback: two classes with the
  same text. \<open>Number.isInteger\<close> holds of finite numbers without a fraction; anything else in
  \<open>xver\<close> is sent as 0. \<open>for (x of v)\<close> runs over arrays and strings, and throws otherwise.
\<close>

record Fallback =
  fb_name :: jsv
  fb_alpn :: jsv
  fb_path :: jsv
  fb_dest :: jsv
  fb_xver :: jsv

definition new_Fallback :: "jsv \<Rightarrow> jsv \<Rightarrow> jsv \<Rightarrow> jsv \<Rightarrow> jsv \<Rightarrow> Fallback" where
  "new_Fallback name alpn path dest xver =
     \<lparr>fb_name = dflt name (JStr ''''), fb_alpn = dflt alpn (JStr ''''), fb_path = dflt path (JStr ''''),
      fb_dest = dflt dest (JStr ''''), fb_xver = dflt xver (jint 0)\<rparr>"

definition default_Fallback :: Fallback where
  "default_Fallback = new_Fallback JUndef JUndef JUndef JUndef JUndef"

fun is_integer :: "jsv \<Rightarrow> bool" where
  "is_integer (JNum (Fin q)) = (of_int (rat_floor q) = q)"
| "is_integer _ = False"

definition Fallback_toJson :: "Fallback \<Rightarrow> jsv" where
  "Fallback_toJson x =
     (let xver = (if \<not> is_integer (fb_xver x) then jint 0 else fb_xver x) in
      JObj [(''name'', fb_name x),
            (''alpn'', fb_alpn x),
            (''path'', fb_path x),
            (''dest'', fb_dest x),
            (''xver'', xver)])"

fun js_iter :: "jsv \<Rightarrow> jsv list option" where
  "js_iter (JArr vs) = Some vs"
| "js_iter (JStr s) = Some (map (\<lambda>c. JStr [c]) s)"
| "js_iter _ = None"

definition fallback_of :: "jsv \<Rightarrow> Fallback option" where
  "fallback_of fallback =
     do { name \<leftarrow> js_get fallback ''name'';
          alpn \<leftarrow> js_get fallback ''alpn'';
          path \<leftarrow> js_get fallback ''path'';
          dest \<leftarrow> js_get fallback ''dest'';
          xver \<leftarrow> js_get fallback ''xver'';
          Some (new_Fallback name alpn path dest xver) }"

definition Fallback_fromJson :: "jsv \<Rightarrow> Fallback list option" where
  "Fallback_fromJson json = do { vs \<leftarrow> js_iter (dflt json (JArr [])); mapM fallback_of vs }"

text \<open>The class of Trojan is the same.\<close>

type_synonym TrojanFallback = Fallback

definition TrojanFallback_toJson :: "TrojanFallback \<Rightarrow> jsv" where
  "TrojanFallback_toJson = Fallback_toJson"

definition TrojanFallback_fromJson :: "jsv \<Rightarrow> TrojanFallback list option" where
  "TrojanFallback_fromJson = Fallback_fromJson"

definition Fallback_ok :: "Fallback \<Rightarrow> bool" where
  "Fallback_ok x \<longleftrightarrow> field_ok (fb_name x) \<and> field_ok (fb_alpn x) \<and> field_ok (fb_path x) \<and>
     field_ok (fb_dest x) \<and> is_integer (fb_xver x)"

lemma is_integer_sent: "is_integer v \<Longrightarrow> wire v = v \<and> v \<noteq> JUndef"
  by (induction v rule: is_integer.induct) auto

lemma fallback_of_saved: "Fallback_ok x \<Longrightarrow> fallback_of (wire (Fallback_toJson x)) = Some x"
  using is_integer_sent [of "fb_xver x"]
  by (simp add: Fallback_ok_def Fallback_toJson_def fallback_of_def new_Fallback_def js_get_wire field_ok_def)

interpretation fb_codec: json_codec "\<lambda>x. Some (Fallback_toJson x)" fallback_of Fallback_ok
  by (rule json_codecI) (simp add: fallback_of_saved, simp add: Fallback_toJson_def Let_def)

lemma js_map_iter: "js_map f v = Some xs \<Longrightarrow> do { vs \<leftarrow> js_iter v; mapM f vs } = Some xs"
  by (cases v) auto

lemma fallbacks_loaded:
  assumes "list_all Fallback_ok xs"
  shows "\<exists>v. toJsonArray (\<lambda>x. Some (Fallback_toJson x)) xs = Some v \<and> v \<noteq> JUndef \<and> is_array v \<and>
    Fallback_fromJson (wire v) = Some xs"
proof -
  obtain v where v: "toJsonArray (\<lambda>x. Some (Fallback_toJson x)) xs = Some v" "v \<noteq> JUndef" "is_array v"
    "js_map fallback_of (wire v) = Some xs"
    using fb_codec.array_roundtrip [OF assms] by blast
  with js_map_iter [OF v(4)] show ?thesis by (simp add: Fallback_fromJson_def)
qed

end
