(* ===== verification/InXray.thy ===== *)
theory InXray
  imports InClients InMask
begin

text \<open>
  The protocol settings of VMess, VLESS, Trojan, Shadowsocks and Hysteria inbounds
  (web/assets/js/model/inbound.js). Every class also stores the protocol name it is
  constructed with; nothing reads that property, and it is left out here.
\<close>

section \<open>Inbound.VmessSettings\<close>

record VmessSettings =
  vms_vmesses :: "VMESS list"

text \<open>A missing client list is one new client.\<close>

definition one_new :: "(world \<Rightarrow> 'a \<times> world) \<Rightarrow> 'a list option \<Rightarrow> world \<Rightarrow> 'a list \<times> world" where
  "one_new gen xs w = (case xs of Some ys \<Rightarrow> (ys, w) | None \<Rightarrow> (let (x, w) = gen w in ([x], w)))"

lemma one_new_given [simp]: "one_new gen (Some xs) w = (xs, w)"
  by (simp add: one_new_def)

definition no_args :: base_args where
  "no_args = (JUndef, JUndef, JUndef, JUndef, JUndef, JUndef, JUndef, JUndef, JUndef, JUndef, JUndef)"

definition new_VmessSettings :: "VMESS list option \<Rightarrow> world \<Rightarrow> VmessSettings \<times> world" where
  "new_VmessSettings vmesses w =
     (let (vmesses, w) = one_new (new_VMESS JUndef JUndef no_args) vmesses w
      in (\<lparr>vms_vmesses = vmesses\<rparr>, w))"

fun find_index :: "('a \<Rightarrow> bool) \<Rightarrow> 'a list \<Rightarrow> nat option" where
  "find_index P [] = None"
| "find_index P (x # xs) = (if P x then Some 0 else map_option Suc (find_index P xs))"

text \<open>\<open>findIndex\<close> with None for -1. Adding a known id returns false and changes nothing.\<close>

definition indexOfVmessById :: "jsv \<Rightarrow> VmessSettings \<Rightarrow> nat option" where
  "indexOfVmessById i s = find_index (\<lambda>c. strict_eq (vm_id c) i) (vms_vmesses s)"

definition addVmess :: "VMESS \<Rightarrow> VmessSettings \<Rightarrow> jsv \<times> VmessSettings" where
  "addVmess c s =
     (if indexOfVmessById (vm_id c) s \<noteq> None then (JBool False, s)
      else (JUndef, s\<lparr>vms_vmesses := vms_vmesses s @ [c]\<rparr>))"

definition delVmess :: "VMESS \<Rightarrow> VmessSettings \<Rightarrow> VmessSettings" where
  "delVmess c s =
     (case indexOfVmessById (vm_id c) s of
        Some i \<Rightarrow> s\<lparr>vms_vmesses := splice1 i (vms_vmesses s)\<rparr>
      | None \<Rightarrow> s)"

definition VmessSettings_fromJson :: "jsv \<Rightarrow> world \<Rightarrow> (VmessSettings \<times> world) option" where
  "VmessSettings_fromJson json w =
     (let json = dflt json (JObj []) in
      do { clients \<leftarrow> js_get json ''clients'';
           (vmesses, w) \<leftarrow> js_mapW VMESS_fromJson (js_or clients (JArr [])) w;
           Some (new_VmessSettings (Some vmesses) w) })"

definition VmessSettings_toJson :: "VmessSettings \<Rightarrow> jsv option" where
  "VmessSettings_toJson x =
     do { clients \<leftarrow> toJsonArray (\<lambda>c. Some (VMESS_toJson c)) (vms_vmesses x);
          Some (JObj [(''clients'', clients)]) }"

definition VmessSettings_ok :: "VmessSettings \<Rightarrow> bool" where
  "VmessSettings_ok x \<longleftrightarrow> list_all VMESS_ok (vms_vmesses x)"

lemma VmessSettings_roundtrip:
  assumes "VmessSettings_ok x"
  shows "\<exists>v. VmessSettings_toJson x = Some v \<and> v \<noteq> JUndef \<and> (\<forall>w. VmessSettings_fromJson (wire v) w = Some (x, w))"
proof -
  obtain v where "toJsonArray (\<lambda>c. Some (VMESS_toJson c)) (vms_vmesses x) = Some v" "v \<noteq> JUndef"
    "\<forall>w. js_mapW VMESS_fromJson (js_or (wire v) (JArr [])) w = Some (vms_vmesses x, w)"
    using vm_codec.clients_loaded assms unfolding VmessSettings_ok_def by blast
  then show ?thesis
    by (simp add: VmessSettings_toJson_def VmessSettings_fromJson_def js_get_wire new_VmessSettings_def)
qed

interpretation vms_codec: world_codec VmessSettings_toJson VmessSettings_fromJson VmessSettings_ok
  by (rule world_codecI) (rule VmessSettings_roundtrip)

section \<open>Inbound.VLESSSettings\<close>

record VLESSSettings =
  vls_vlesses :: "VLESS list"
  vls_decryption :: jsv
  vls_encryption :: jsv
  vls_fallbacks :: "Fallback list"
  vls_selectedAuth :: jsv
  vls_testseed :: jsv

definition default_testseed :: jsv where
  "default_testseed = JArr [jint 900, jint 500, jint 900, jint 256]"

definition new_VLESSSettings ::
  "VLESS list option \<Rightarrow> jsv \<Rightarrow> jsv \<Rightarrow> Fallback list option \<Rightarrow> jsv \<Rightarrow> jsv \<Rightarrow> world \<Rightarrow> VLESSSettings \<times> world" where
  "new_VLESSSettings vlesses decryption encryption fallbacks selectedAuth testseed w =
     (let (vlesses, w) = one_new (new_VLESS JUndef JUndef no_args) vlesses w
      in (\<lparr>vls_vlesses = vlesses,
           vls_decryption = dflt decryption (JStr ''none''),
           vls_encryption = dflt encryption (JStr ''none''),
           vls_fallbacks = opt_new fallbacks [],
           vls_selectedAuth = selectedAuth,
           vls_testseed = dflt testseed default_testseed\<rparr>, w))"

definition VLESS_addFallback :: "VLESSSettings \<Rightarrow> VLESSSettings" where
  "VLESS_addFallback s = s\<lparr>vls_fallbacks := vls_fallbacks s @ [default_Fallback]\<rparr>"

definition VLESS_delFallback :: "nat \<Rightarrow> VLESSSettings \<Rightarrow> VLESSSettings" where
  "VLESS_delFallback index s = s\<lparr>vls_fallbacks := splice1 index (vls_fallbacks s)\<rparr>"

text \<open>\<open>v && v.length >= 4\<close>.\<close>

definition at_least_4 :: "jsv \<Rightarrow> bool" where
  "at_least_4 v \<longleftrightarrow> truthy v \<and> (case js_get_opt v ''length'' of JNum (Fin q) \<Rightarrow> 4 \<le> q | _ \<Rightarrow> False)"

definition VLESSSettings_fromJson :: "jsv \<Rightarrow> world \<Rightarrow> (VLESSSettings \<times> world) option" where
  "VLESSSettings_fromJson json w =
     (let json = dflt json (JObj []) in
      do { testseed \<leftarrow> js_get json ''testseed'';
           let testseed = (if is_array testseed \<and> at_least_4 testseed then testseed else default_testseed);
           clients \<leftarrow> js_get json ''clients'';
           (vlesses, w) \<leftarrow> js_mapW VLESS_fromJson (js_or clients (JArr [])) w;
           decryption \<leftarrow> js_get json ''decryption'';
           encryption \<leftarrow> js_get json ''encryption'';
           fallbacks \<leftarrow> js_get json ''fallbacks'';
           fbs \<leftarrow> Fallback_fromJson (js_or fallbacks (JArr []));
           selectedAuth \<leftarrow> js_get json ''selectedAuth'';
           Some (new_VLESSSettings (Some vlesses) decryption encryption (Some fbs) selectedAuth testseed w) })"

definition vless_hasFlow :: "VLESSSettings \<Rightarrow> bool" where
  "vless_hasFlow x \<longleftrightarrow> list_ex (\<lambda>c. truthy (vl_flow c) \<and> vl_flow c \<noteq> JStr '''') (vls_vlesses x)"

definition vless_entries :: "VLESSSettings \<Rightarrow> jsv \<Rightarrow> jsv \<Rightarrow> entries" where
  "vless_entries x clients fallbacks =
     (let json = [(''clients'', clients)];
          json = set_if (truthy (vls_decryption x)) ''decryption'' (vls_decryption x) json;
          json = set_if (truthy (vls_encryption x)) ''encryption'' (vls_encryption x) json;
          json = set_if (vls_fallbacks x \<noteq> []) ''fallbacks'' fallbacks json;
          json = set_if (truthy (vls_selectedAuth x)) ''selectedAuth'' (vls_selectedAuth x) json;
          json = set_if (vless_hasFlow x \<and> at_least_4 (vls_testseed x)) ''testseed'' (vls_testseed x) json
      in json)"

definition VLESSSettings_toJson :: "VLESSSettings \<Rightarrow> jsv option" where
  "VLESSSettings_toJson x =
     do { clients \<leftarrow> toJsonArray (\<lambda>c. Some (VLESS_toJson c)) (vls_vlesses x);
          fallbacks \<leftarrow> toJsonArray (\<lambda>f. Some (Fallback_toJson f)) (vls_fallbacks x);
          Some (JObj (vless_entries x clients fallbacks)) }"

text \<open>
  What comes back: the two algorithms are non-empty values, the seed is sent only while
  some client has a flow and is the default otherwise.
\<close>

definition VLESSSettings_ok :: "VLESSSettings \<Rightarrow> bool" where
  "VLESSSettings_ok x \<longleftrightarrow>
     list_all VLESS_ok (vls_vlesses x) \<and>
     field_ok (vls_decryption x) \<and> truthy (vls_decryption x) \<and>
     field_ok (vls_encryption x) \<and> truthy (vls_encryption x) \<and>
     list_all Fallback_ok (vls_fallbacks x) \<and>
     (vls_selectedAuth x = JUndef \<or> field_ok (vls_selectedAuth x) \<and> truthy (vls_selectedAuth x)) \<and>
     (if vless_hasFlow x
      then is_array (vls_testseed x) \<and> at_least_4 (vls_testseed x) \<and> field_ok (vls_testseed x)
      else vls_testseed x = default_testseed)"

lemma look_vless_entries:
  "look (vless_entries x cs fs) ''clients'' = cs"
  "look (vless_entries x cs fs) ''decryption'' = (if truthy (vls_decryption x) then vls_decryption x else JUndef)"
  "look (vless_entries x cs fs) ''encryption'' = (if truthy (vls_encryption x) then vls_encryption x else JUndef)"
  "look (vless_entries x cs fs) ''fallbacks'' = (if vls_fallbacks x \<noteq> [] then fs else JUndef)"
  "look (vless_entries x cs fs) ''selectedAuth'' =
     (if truthy (vls_selectedAuth x) then vls_selectedAuth x else JUndef)"
  "look (vless_entries x cs fs) ''testseed'' =
     (if vless_hasFlow x \<and> at_least_4 (vls_testseed x) then vls_testseed x else JUndef)"
  by (simp_all only: vless_entries_def Let_def look_set_if look_Cons look_Nil) simp_all

lemma distinct_vless_entries: "distinct (keys (vless_entries x cs fs))"
  unfolding vless_entries_def Let_def by (intro distinct_set_if) simp

lemma VLESSSettings_roundtrip:
  assumes "VLESSSettings_ok x"
  shows "\<exists>v. VLESSSettings_toJson x = Some v \<and> v \<noteq> JUndef \<and> (\<forall>w. VLESSSettings_fromJson (wire v) w = Some (x, w))"
proof -
  note ok = assms [unfolded VLESSSettings_ok_def]
  obtain cs where cs: "toJsonArray (\<lambda>c. Some (VLESS_toJson c)) (vls_vlesses x) = Some cs" "cs \<noteq> JUndef"
    "\<forall>w. js_mapW VLESS_fromJson (js_or (wire cs) (JArr [])) w = Some (vls_vlesses x, w)"
    using vl_codec.clients_loaded ok by blast
  obtain fs where fs: "toJsonArray (\<lambda>f. Some (Fallback_toJson f)) (vls_fallbacks x) = Some fs" "fs \<noteq> JUndef"
    "is_array fs" "Fallback_fromJson (wire fs) = Some (vls_fallbacks x)"
    using fallbacks_loaded ok by blast
  let ?o = "vless_entries x cs fs"
  have g: "js_get (wire (JObj ?o)) k = Some (wire (look ?o k))" for k
    by (rule js_get_wire [OF distinct_vless_entries])
  have "truthy (wire fs)" using fs(3) by (cases fs) auto
  then have f: "Fallback_fromJson (js_or (wire (look ?o ''fallbacks'')) (JArr [])) = Some (vls_fallbacks x)"
    using fs(4) by (cases "vls_fallbacks x = []") (simp_all add: look_vless_entries Fallback_fromJson_def)
  have seed: "(if is_array (wire (look ?o ''testseed'')) \<and> at_least_4 (wire (look ?o ''testseed''))
      then wire (look ?o ''testseed'') else default_testseed) = vls_testseed x"
    using ok by (auto simp: look_vless_entries split: if_splits)
  have d: "dflt (wire (look ?o ''decryption'')) v = vls_decryption x"
    "dflt (wire (look ?o ''encryption'')) v = vls_encryption x"
    "wire (look ?o ''selectedAuth'') = vls_selectedAuth x" for v
    using ok by (auto simp: look_vless_entries)
  have seed_dflt: "dflt (vls_testseed x) default_testseed = vls_testseed x"
    by (simp add: dflt_def)
       (use ok in \<open>auto simp: default_testseed_def split: if_splits\<close>)
  have j: "dflt (wire (JObj ?o)) (JObj []) = wire (JObj ?o)" by simp
  have "VLESSSettings_fromJson (wire (JObj ?o)) w = Some (x, w)" for w
    unfolding VLESSSettings_fromJson_def j Let_def g bind.bind_lunit seed
    by (simp only: look_vless_entries(1) cs(3) f bind.bind_lunit prod.case new_VLESSSettings_def
        d seed_dflt one_new_given opt_new_simps Let_def) simp
  then show ?thesis by (simp add: VLESSSettings_toJson_def cs(1) fs(1))
qed

interpretation vls_codec: world_codec VLESSSettings_toJson VLESSSettings_fromJson VLESSSettings_ok
  by (rule world_codecI) (rule VLESSSettings_roundtrip)

section \<open>Inbound.TrojanSettings\<close>

record TrojanSettings =
  tjs_trojans :: "Trojan list"
  tjs_fallbacks :: "TrojanFallback list"

definition new_TrojanSettings ::
  "Trojan list option \<Rightarrow> TrojanFallback list option \<Rightarrow> world \<Rightarrow> TrojanSettings \<times> world" where
  "new_TrojanSettings trojans fallbacks w =
     (let (trojans, w) = one_new (new_Trojan JUndef no_args) trojans w
      in (\<lparr>tjs_trojans = trojans, tjs_fallbacks = opt_new fallbacks []\<rparr>, w))"

definition Trojan_addFallback :: "TrojanSettings \<Rightarrow> TrojanSettings" where
  "Trojan_addFallback s = s\<lparr>tjs_fallbacks := tjs_fallbacks s @ [default_Fallback]\<rparr>"

definition Trojan_delFallback :: "nat \<Rightarrow> TrojanSettings \<Rightarrow> TrojanSettings" where
  "Trojan_delFallback index s = s\<lparr>tjs_fallbacks := splice1 index (tjs_fallbacks s)\<rparr>"

definition TrojanSettings_fromJson :: "jsv \<Rightarrow> world \<Rightarrow> (TrojanSettings \<times> world) option" where
  "TrojanSettings_fromJson json w =
     (let json = dflt json (JObj []) in
      do { clients \<leftarrow> js_get json ''clients'';
           (trojans, w) \<leftarrow> js_mapW Trojan_fromJson (js_or clients (JArr [])) w;
           fallbacks \<leftarrow> js_get json ''fallbacks'';
           fbs \<leftarrow> TrojanFallback_fromJson fallbacks;
           Some (new_TrojanSettings (Some trojans) (Some fbs) w) })"

definition TrojanSettings_toJson :: "TrojanSettings \<Rightarrow> jsv option" where
  "TrojanSettings_toJson x =
     do { clients \<leftarrow> toJsonArray (\<lambda>c. Some (Trojan_toJson c)) (tjs_trojans x);
          fallbacks \<leftarrow> toJsonArray (\<lambda>f. Some (TrojanFallback_toJson f)) (tjs_fallbacks x);
          Some (JObj [(''clients'', clients), (''fallbacks'', fallbacks)]) }"

definition TrojanSettings_ok :: "TrojanSettings \<Rightarrow> bool" where
  "TrojanSettings_ok x \<longleftrightarrow> list_all Trojan_ok (tjs_trojans x) \<and> list_all Fallback_ok (tjs_fallbacks x)"

lemma TrojanSettings_roundtrip:
  assumes "TrojanSettings_ok x"
  shows "\<exists>v. TrojanSettings_toJson x = Some v \<and> v \<noteq> JUndef \<and> (\<forall>w. TrojanSettings_fromJson (wire v) w = Some (x, w))"
proof -
  note ok = assms [unfolded TrojanSettings_ok_def]
  obtain cs where "toJsonArray (\<lambda>c. Some (Trojan_toJson c)) (tjs_trojans x) = Some cs" "cs \<noteq> JUndef"
    "\<forall>w. js_mapW Trojan_fromJson (js_or (wire cs) (JArr [])) w = Some (tjs_trojans x, w)"
    using tj_codec.clients_loaded ok by blast
  moreover obtain fs where "toJsonArray (\<lambda>f. Some (Fallback_toJson f)) (tjs_fallbacks x) = Some fs" "fs \<noteq> JUndef"
    "is_array fs" "Fallback_fromJson (wire fs) = Some (tjs_fallbacks x)"
    using fallbacks_loaded ok by blast
  ultimately show ?thesis
    by (simp add: TrojanSettings_toJson_def TrojanSettings_fromJson_def js_get_wire new_TrojanSettings_def
        TrojanFallback_toJson_def TrojanFallback_fromJson_def)
qed

interpretation tjs_codec: world_codec TrojanSettings_toJson TrojanSettings_fromJson TrojanSettings_ok
  by (rule world_codecI) (rule TrojanSettings_roundtrip)

section \<open>Inbound.ShadowsocksSettings\<close>

record ShadowsocksSettings =
  sss_method :: jsv
  sss_password :: jsv
  sss_network :: jsv
  sss_shadowsockses :: "Shadowsocks list"
  sss_ivCheck :: jsv

definition new_ShadowsocksSettings ::
  "jsv \<Rightarrow> jsv \<Rightarrow> jsv \<Rightarrow> Shadowsocks list option \<Rightarrow> jsv \<Rightarrow> world \<Rightarrow> ShadowsocksSettings \<times> world" where
  "new_ShadowsocksSettings method' password network shadowsockses ivCheck w =
     (let (password, w) = random_dflt password (randomShadowsocksPassword ''2022-blake3-aes-256-gcm'') w;
          (shadowsockses, w) = one_new (new_Shadowsocks JUndef JUndef no_args) shadowsockses w
      in (\<lparr>sss_method = dflt method' (JStr ''2022-blake3-aes-256-gcm''),
           sss_password = password,
           sss_network = dflt network (JStr ''tcp,udp''),
           sss_shadowsockses = shadowsockses,
           sss_ivCheck = dflt ivCheck (JBool False)\<rparr>, w))"

definition ShadowsocksSettings_fromJson :: "jsv \<Rightarrow> world \<Rightarrow> (ShadowsocksSettings \<times> world) option" where
  "ShadowsocksSettings_fromJson json w =
     (let json = dflt json (JObj []) in
      do { method' \<leftarrow> js_get json ''method'';
           password \<leftarrow> js_get json ''password'';
           network \<leftarrow> js_get json ''network'';
           clients \<leftarrow> js_get json ''clients'';
           (shadowsockses, w) \<leftarrow> js_mapW Shadowsocks_fromJson (js_or clients (JArr [])) w;
           ivCheck \<leftarrow> js_get json ''ivCheck'';
           Some (new_ShadowsocksSettings method' password network (Some shadowsockses) ivCheck w) })"

definition ShadowsocksSettings_toJson :: "ShadowsocksSettings \<Rightarrow> jsv option" where
  "ShadowsocksSettings_toJson x =
     do { clients \<leftarrow> toJsonArray (\<lambda>c. Some (Shadowsocks_toJson c)) (sss_shadowsockses x);
          Some (JObj
            [(''method'', sss_method x),
             (''password'', sss_password x),
             (''network'', sss_network x),
             (''clients'', clients),
             (''ivCheck'', sss_ivCheck x)]) }"

definition ShadowsocksSettings_ok :: "ShadowsocksSettings \<Rightarrow> bool" where
  "ShadowsocksSettings_ok x \<longleftrightarrow>
     field_ok (sss_method x) \<and> field_ok (sss_password x) \<and> field_ok (sss_network x) \<and>
     list_all Shadowsocks_ok (sss_shadowsockses x) \<and> field_ok (sss_ivCheck x)"

lemma ShadowsocksSettings_roundtrip:
  assumes "ShadowsocksSettings_ok x"
  shows "\<exists>v. ShadowsocksSettings_toJson x = Some v \<and> v \<noteq> JUndef \<and>
    (\<forall>w. ShadowsocksSettings_fromJson (wire v) w = Some (x, w))"
proof -
  obtain cs where "toJsonArray (\<lambda>c. Some (Shadowsocks_toJson c)) (sss_shadowsockses x) = Some cs" "cs \<noteq> JUndef"
    "\<forall>w. js_mapW Shadowsocks_fromJson (js_or (wire cs) (JArr [])) w = Some (sss_shadowsockses x, w)"
    using shs_codec.clients_loaded assms unfolding ShadowsocksSettings_ok_def by blast
  with assms show ?thesis
    by (simp add: ShadowsocksSettings_ok_def ShadowsocksSettings_toJson_def ShadowsocksSettings_fromJson_def
        js_get_wire new_ShadowsocksSettings_def field_ok_def)
qed

interpretation sss_codec: world_codec ShadowsocksSettings_toJson ShadowsocksSettings_fromJson ShadowsocksSettings_ok
  by (rule world_codecI) (rule ShadowsocksSettings_roundtrip)

section \<open>Inbound.HysteriaSettings\<close>

record HysteriaSettings =
  hyst_version :: jsv
  hyst_hysterias :: "Hysteria list"

definition new_HysteriaSettings :: "jsv \<Rightarrow> Hysteria list option \<Rightarrow> world \<Rightarrow> HysteriaSettings \<times> world" where
  "new_HysteriaSettings version hysterias w =
     (let (hysterias, w) = one_new (new_Hysteria JUndef no_args) hysterias w
      in (\<lparr>hyst_version = dflt version (jint 2), hyst_hysterias = hysterias\<rparr>, w))"

definition HysteriaSettings_fromJson :: "jsv \<Rightarrow> world \<Rightarrow> (HysteriaSettings \<times> world) option" where
  "HysteriaSettings_fromJson json w =
     (let json = dflt json (JObj []) in
      do { version \<leftarrow> js_get json ''version'';
           clients \<leftarrow> js_get json ''clients'';
           (hysterias, w) \<leftarrow> js_mapW Hysteria_fromJson (js_or clients (JArr [])) w;
           Some (new_HysteriaSettings (nullish version (jint 2)) (Some hysterias) w) })"

definition HysteriaSettings_toJson :: "HysteriaSettings \<Rightarrow> jsv option" where
  "HysteriaSettings_toJson x =
     do { clients \<leftarrow> toJsonArray (\<lambda>c. Some (Hysteria_toJson c)) (hyst_hysterias x);
          Some (JObj [(''version'', hyst_version x), (''clients'', clients)]) }"

definition HysteriaSettings_ok :: "HysteriaSettings \<Rightarrow> bool" where
  "HysteriaSettings_ok x \<longleftrightarrow>
     field_ok (hyst_version x) \<and> hyst_version x \<noteq> JNull \<and> list_all Hysteria_ok (hyst_hysterias x)"

lemma HysteriaSettings_roundtrip:
  assumes "HysteriaSettings_ok x"
  shows "\<exists>v. HysteriaSettings_toJson x = Some v \<and> v \<noteq> JUndef \<and> (\<forall>w. HysteriaSettings_fromJson (wire v) w = Some (x, w))"
proof -
  obtain cs where "toJsonArray (\<lambda>c. Some (Hysteria_toJson c)) (hyst_hysterias x) = Some cs" "cs \<noteq> JUndef"
    "\<forall>w. js_mapW Hysteria_fromJson (js_or (wire cs) (JArr [])) w = Some (hyst_hysterias x, w)"
    using hya_codec.clients_loaded assms unfolding HysteriaSettings_ok_def by blast
  with assms show ?thesis
    by (simp add: HysteriaSettings_ok_def HysteriaSettings_toJson_def HysteriaSettings_fromJson_def
        js_get_wire new_HysteriaSettings_def field_ok_def)
qed

interpretation hyst_codec: world_codec HysteriaSettings_toJson HysteriaSettings_fromJson HysteriaSettings_ok
  by (rule world_codecI) (rule HysteriaSettings_roundtrip)

section \<open>Adding and deleting VMess clients\<close>

text \<open>The invariant the form keeps: no two clients with one id.\<close>

definition vmess_ids :: "VmessSettings \<Rightarrow> jsv list" where
  "vmess_ids s = map vm_id (vms_vmesses s)"

lemma find_index_Some:
  "find_index P xs = Some i \<Longrightarrow> i < length xs \<and> P (xs ! i) \<and> (\<forall>j<i. \<not> P (xs ! j))"
proof (induction xs arbitrary: i)
  case (Cons x xs)
  then show ?case
  proof (cases "P x")
    case False
    with Cons.prems obtain k where k: "find_index P xs = Some k" "i = Suc k" by auto
    with Cons.IH [OF k(1)] False show ?thesis by (auto simp: nth_Cons split: nat.splits)
  qed simp
qed simp

lemma find_index_None: "find_index P xs = None \<longleftrightarrow> (\<forall>x \<in> set xs. \<not> P x)"
  by (induction xs) auto

lemma distinct_splice1: "distinct xs \<Longrightarrow> distinct (splice1 i xs)"
  by (auto simp: splice1_def dest: in_set_takeD in_set_dropD)
     (metis IntI append_take_drop_id distinct_append empty_iff in_set_dropD set_drop_subset_set_drop
        le_SucI le_refl subsetD)

lemma map_splice1: "map f (splice1 i xs) = splice1 i (map f xs)"
  by (simp add: splice1_def take_map drop_map)

section \<open>The client list as a set of identifiers\<close>

text \<open>The two list operations of the class as edits, and what they do to the set of ids.\<close>

datatype vmess_edit = AddVmess VMESS | DelVmess VMESS

fun vmess_step :: "VmessSettings \<Rightarrow> vmess_edit \<Rightarrow> VmessSettings" where
  "vmess_step s (AddVmess c) = snd (addVmess c s)"
| "vmess_step s (DelVmess c) = delVmess c s"

fun id_step :: "jsv set \<Rightarrow> vmess_edit \<Rightarrow> jsv set" where
  "id_step ids (AddVmess c) = insert (vm_id c) ids"
| "id_step ids (DelVmess c) = ids - {vm_id c}"

fun edit_client :: "vmess_edit \<Rightarrow> VMESS" where
  "edit_client (AddVmess c) = c"
| "edit_client (DelVmess c) = c"

lemma strict_eq_string: "is_string a \<Longrightarrow> strict_eq b a \<longleftrightarrow> b = a"
  by (cases a; cases b) auto

lemma vmess_index:
  assumes "is_string i"
  shows "indexOfVmessById i s = None \<longleftrightarrow> i \<notin> set (vmess_ids s)"
    and "indexOfVmessById i s = Some k \<Longrightarrow> k < length (vms_vmesses s) \<and> vmess_ids s ! k = i"
  using find_index_None [of "\<lambda>c. strict_eq (vm_id c) i" "vms_vmesses s"]
    find_index_Some [of "\<lambda>c. strict_eq (vm_id c) i" "vms_vmesses s" k] strict_eq_string [OF assms]
  by (auto simp: indexOfVmessById_def vmess_ids_def)

lemma set_splice1:
  assumes "distinct xs" and "k < length xs"
  shows "set (splice1 k xs) = set xs - {xs ! k}"
proof -
  have "xs = take k xs @ xs ! k # drop (Suc k) xs" using assms(2) by (rule id_take_nth_drop)
  with assms(1) have "distinct (take k xs @ xs ! k # drop (Suc k) xs)" "set xs = set (take k xs @ xs ! k # drop (Suc k) xs)"
    by metis+
  then show ?thesis by (auto simp: splice1_def)
qed

lemma vmess_step_ids:
  assumes "distinct (vmess_ids s)" and "is_string (vm_id (edit_client e))"
  shows "distinct (vmess_ids (vmess_step s e)) \<and> set (vmess_ids (vmess_step s e)) = id_step (set (vmess_ids s)) e"
proof (cases e)
  case (AddVmess c)
  with assms vmess_index(1) [of "vm_id c" s] show ?thesis
    by (auto simp: addVmess_def, auto simp: vmess_ids_def)
next
  case (DelVmess c)
  show ?thesis
  proof (cases "indexOfVmessById (vm_id c) s")
    case None
    with DelVmess assms vmess_index(1) [of "vm_id c" s] show ?thesis by (auto simp: delVmess_def)
  next
    case (Some k)
    then have k: "k < length (vmess_ids s)" "vmess_ids s ! k = vm_id c"
      using vmess_index(2) [of "vm_id c" s k] assms(2) DelVmess by (auto simp: vmess_ids_def)
    have "vmess_ids (delVmess c s) = splice1 k (vmess_ids s)"
      using Some by (simp add: delVmess_def vmess_ids_def map_splice1)
    then show ?thesis
      using DelVmess assms(1) distinct_splice1 set_splice1 [OF assms(1) k(1)] k(2) by simp
  qed
qed

text \<open>
  C14: the client list of VMess implements a set of ids. Any sequence of \<open>addVmess\<close> and
  \<open>delVmess\<close> on a list without repeated ids leaves one without repeated ids, and its ids are
  those of the same insertions and deletions on the set: adding a known id changes nothing,
  and a deletion removes its id for good.
\<close>
theorem vmess_edits_refine:
  assumes "distinct (vmess_ids s)" and "list_all (\<lambda>e. is_string (vm_id (edit_client e))) es"
  shows "distinct (vmess_ids (foldl vmess_step s es)) \<and>
    set (vmess_ids (foldl vmess_step s es)) = foldl id_step (set (vmess_ids s)) es"
  using assms
proof (induction es arbitrary: s)
  case (Cons e es)
  then show ?case using vmess_step_ids [of s e] by simp
qed simp

definition sample_vmess :: "string \<Rightarrow> VMESS" where
  "sample_vmess i = fst (new_VMESS (JStr i) JUndef no_args sample_world)"

theorem vmess_edits_refine_witness:
  "let s = \<lparr>vms_vmesses = [sample_vmess ''a'']\<rparr>;
       es = [AddVmess (sample_vmess ''b''), AddVmess (sample_vmess ''a''), DelVmess (sample_vmess ''a''),
             DelVmess (sample_vmess ''a'')]
   in distinct (vmess_ids (foldl vmess_step s es)) \<and>
      set (vmess_ids (foldl vmess_step s es)) = foldl id_step (set (vmess_ids s)) es"
  unfolding Let_def
  by (rule vmess_edits_refine)
     (simp_all add: vmess_ids_def sample_vmess_def new_VMESS_def split_beta Let_def random_dflt_def)

end
