(* ===== verification/InVpn.thy ===== *)
theory InVpn
  imports InXray
begin

text \<open>
  The VPN protocols of the panel (web/assets/js/model/inbound.js): L2TP, PPTP, OpenVPN,
  OpenConnect and SSTP inbounds with their user accounts. The five user classes have the same
  text but for one guard of the expiry accessor, so they share one record and each of them is
  named for its own class; the settings classes are modelled one by one.
\<close>

section \<open>VPN users\<close>

record L2tpUser =
  vu_id :: jsv
  vu_password :: jsv
  vu_email :: jsv
  vu_enable :: jsv
  vu_expiryTime :: jsv
  vu_tgId :: jsv
  vu_subId :: jsv
  vu_comment :: jsv
  vu_totalGB :: jsv
  vu_limitIp :: jsv
  vu_reset :: jsv
  vu_created_at :: jsv
  vu_updated_at :: jsv

type_synonym user_args = "jsv \<times> jsv \<times> jsv \<times> jsv \<times> jsv \<times> jsv \<times> jsv \<times> jsv \<times> jsv \<times> jsv \<times> jsv \<times> jsv \<times> jsv"

definition new_L2tpUser :: "user_args \<Rightarrow> world \<Rightarrow> L2tpUser \<times> world" where
  "new_L2tpUser args w =
     (case args of (id_v, password, email, enable, expiryTime, tgId, subId, comment, totalGB, limitIp, reset, created_at, updated_at) \<Rightarrow>
        let (id_v, w) = random_dflt id_v (randomLowerAndNum 8) w;
            (password, w) = random_dflt password (randomSeq 10 default_seq) w;
            (email, w) = random_dflt email (randomLowerAndNum 9) w
        in (\<lparr>vu_id = id_v,
             vu_password = password,
             vu_email = email,
             vu_enable = dflt enable (JBool True),
             vu_expiryTime = dflt expiryTime (jint 0),
             vu_tgId = dflt tgId (JStr ''''),
             vu_subId = dflt subId (JStr ''''),
             vu_comment = dflt comment (JStr ''''),
             vu_totalGB = dflt totalGB (jint 0),
             vu_limitIp = dflt limitIp (jint 0),
             vu_reset = dflt reset (jint 0),
             vu_created_at = created_at,
             vu_updated_at = updated_at\<rparr>, w))"

definition no_user_args :: user_args where
  "no_user_args = (JUndef, JUndef, JUndef, JUndef, JUndef, JUndef, JUndef, JUndef, JUndef, JUndef, JUndef, JUndef, JUndef)"

text \<open>One array element of \<open>fromJson\<close>; the older key of limitIp is ipLimit.\<close>

definition vpn_user_of :: "jsv \<Rightarrow> world \<Rightarrow> (L2tpUser \<times> world) option" where
  "vpn_user_of j w =
     do {
          id_v \<leftarrow> js_get j ''id'';
          password \<leftarrow> js_get j ''password'';
          email \<leftarrow> js_get j ''email'';
          enable \<leftarrow> js_get j ''enable'';
          expiryTime \<leftarrow> js_get j ''expiryTime'';
          tgId \<leftarrow> js_get j ''tgId'';
          subId \<leftarrow> js_get j ''subId'';
          comment \<leftarrow> js_get j ''comment'';
          totalGB \<leftarrow> js_get j ''totalGB'';
          limitIp \<leftarrow> js_get j ''limitIp'';
          ipLimit \<leftarrow> js_get j ''ipLimit'';
          reset \<leftarrow> js_get j ''reset'';
          created_at \<leftarrow> js_get j ''created_at'';
          updated_at \<leftarrow> js_get j ''updated_at'';
          Some (new_L2tpUser
            (id_v,
             password,
             email,
             nullish enable (JBool True),
             nullish expiryTime (jint 0),
             nullish tgId (JStr ''''),
             nullish subId (JStr ''''),
             nullish comment (JStr ''''),
             nullish totalGB (jint 0),
             nullish (nullish limitIp ipLimit) (jint 0),
             nullish reset (jint 0),
             created_at,
             updated_at) w) }"

definition L2tpUser_fromJson :: "jsv \<Rightarrow> world \<Rightarrow> (L2tpUser list \<times> world) option" where
  "L2tpUser_fromJson json w =
     (let json = dflt json (JArr []) in
      if \<not> is_array json then (let (u, w) = new_L2tpUser no_user_args w in Some ([u], w))
      else js_mapW vpn_user_of json w)"

definition L2tpUser_toJson :: "L2tpUser \<Rightarrow> jsv" where
  "L2tpUser_toJson u =
     JObj [(''id'', vu_id u),
           (''password'', vu_password u),
           (''email'', vu_email u),
           (''enable'', vu_enable u),
           (''expiryTime'', vu_expiryTime u),
           (''tgId'', vu_tgId u),
           (''subId'', vu_subId u),
           (''comment'', vu_comment u),
           (''totalGB'', vu_totalGB u),
           (''limitIp'', vu_limitIp u),
           (''reset'', vu_reset u),
           (''created_at'', vu_created_at u),
           (''updated_at'', vu_updated_at u)]"

definition L2tpUser_toJsonArray :: "L2tpUser list \<Rightarrow> jsv option" where
  "L2tpUser_toJsonArray users = toJsonArray (\<lambda>u. Some (L2tpUser_toJson u)) users"

definition L2tpUser_get_expiryTime :: "L2tpUser \<Rightarrow> expiry_view" where
  "L2tpUser_get_expiryTime u = get_expiryTime (vu_expiryTime u)"

definition L2tpUser_set_expiryTime :: "jsv \<Rightarrow> L2tpUser \<Rightarrow> L2tpUser" where
  "L2tpUser_set_expiryTime t u = u\<lparr>vu_expiryTime := set_expiryTime t\<rparr>"

definition L2tpUser_get_totalGB :: "L2tpUser \<Rightarrow> jnum" where
  "L2tpUser_get_totalGB u = get_totalGB (vu_totalGB u)"

definition L2tpUser_set_totalGB :: "jsv \<Rightarrow> L2tpUser \<Rightarrow> L2tpUser" where
  "L2tpUser_set_totalGB gb u = u\<lparr>vu_totalGB := set_totalGB gb\<rparr>"

text \<open>
  The accessor of the OpenVPN, OpenConnect and SSTP users does not test for the empty
  string: \<open>moment('')\<close> is an invalid date, not the absence of one.
\<close>

definition OpenvpnUser_get_expiryTime :: "L2tpUser \<Rightarrow> expiry_view" where
  "OpenvpnUser_get_expiryTime u =
     (let expiryTime = vu_expiryTime u in
      if expiryTime = jint 0 then NoExpiry
      else if js_lt expiryTime (jint 0) then AfterDays (num_scale (- 1 / 86400000) (js_to_number expiryTime))
      else OnDate expiryTime)"

text \<open>The class PptpUser.\<close>

definition new_PptpUser :: "user_args \<Rightarrow> world \<Rightarrow> L2tpUser \<times> world" where
  "new_PptpUser = new_L2tpUser"

definition PptpUser_fromJson :: "jsv \<Rightarrow> world \<Rightarrow> (L2tpUser list \<times> world) option" where
  "PptpUser_fromJson = L2tpUser_fromJson"

definition PptpUser_toJson :: "L2tpUser \<Rightarrow> jsv" where
  "PptpUser_toJson = L2tpUser_toJson"

definition PptpUser_toJsonArray :: "L2tpUser list \<Rightarrow> jsv option" where
  "PptpUser_toJsonArray = L2tpUser_toJsonArray"

definition PptpUser_get_expiryTime :: "L2tpUser \<Rightarrow> expiry_view" where
  "PptpUser_get_expiryTime = L2tpUser_get_expiryTime"

definition PptpUser_set_expiryTime :: "jsv \<Rightarrow> L2tpUser \<Rightarrow> L2tpUser" where
  "PptpUser_set_expiryTime = L2tpUser_set_expiryTime"

definition PptpUser_get_totalGB :: "L2tpUser \<Rightarrow> jnum" where
  "PptpUser_get_totalGB = L2tpUser_get_totalGB"

definition PptpUser_set_totalGB :: "jsv \<Rightarrow> L2tpUser \<Rightarrow> L2tpUser" where
  "PptpUser_set_totalGB = L2tpUser_set_totalGB"

text \<open>The class OpenvpnUser.\<close>

definition new_OpenvpnUser :: "user_args \<Rightarrow> world \<Rightarrow> L2tpUser \<times> world" where
  "new_OpenvpnUser = new_L2tpUser"

definition OpenvpnUser_fromJson :: "jsv \<Rightarrow> world \<Rightarrow> (L2tpUser list \<times> world) option" where
  "OpenvpnUser_fromJson = L2tpUser_fromJson"

definition OpenvpnUser_toJson :: "L2tpUser \<Rightarrow> jsv" where
  "OpenvpnUser_toJson = L2tpUser_toJson"

definition OpenvpnUser_toJsonArray :: "L2tpUser list \<Rightarrow> jsv option" where
  "OpenvpnUser_toJsonArray = L2tpUser_toJsonArray"

definition OpenvpnUser_set_expiryTime :: "jsv \<Rightarrow> L2tpUser \<Rightarrow> L2tpUser" where
  "OpenvpnUser_set_expiryTime = L2tpUser_set_expiryTime"

definition OpenvpnUser_get_totalGB :: "L2tpUser \<Rightarrow> jnum" where
  "OpenvpnUser_get_totalGB = L2tpUser_get_totalGB"

definition OpenvpnUser_set_totalGB :: "jsv \<Rightarrow> L2tpUser \<Rightarrow> L2tpUser" where
  "OpenvpnUser_set_totalGB = L2tpUser_set_totalGB"

text \<open>The class OcservUser.\<close>

definition new_OcservUser :: "user_args \<Rightarrow> world \<Rightarrow> L2tpUser \<times> world" where
  "new_OcservUser = new_L2tpUser"

definition OcservUser_fromJson :: "jsv \<Rightarrow> world \<Rightarrow> (L2tpUser list \<times> world) option" where
  "OcservUser_fromJson = L2tpUser_fromJson"

definition OcservUser_toJson :: "L2tpUser \<Rightarrow> jsv" where
  "OcservUser_toJson = L2tpUser_toJson"

definition OcservUser_toJsonArray :: "L2tpUser list \<Rightarrow> jsv option" where
  "OcservUser_toJsonArray = L2tpUser_toJsonArray"

definition OcservUser_get_expiryTime :: "L2tpUser \<Rightarrow> expiry_view" where
  "OcservUser_get_expiryTime = OpenvpnUser_get_expiryTime"

definition OcservUser_set_expiryTime :: "jsv \<Rightarrow> L2tpUser \<Rightarrow> L2tpUser" where
  "OcservUser_set_expiryTime = L2tpUser_set_expiryTime"

definition OcservUser_get_totalGB :: "L2tpUser \<Rightarrow> jnum" where
  "OcservUser_get_totalGB = L2tpUser_get_totalGB"

definition OcservUser_set_totalGB :: "jsv \<Rightarrow> L2tpUser \<Rightarrow> L2tpUser" where
  "OcservUser_set_totalGB = L2tpUser_set_totalGB"

text \<open>The class SstpUser.\<close>

definition new_SstpUser :: "user_args \<Rightarrow> world \<Rightarrow> L2tpUser \<times> world" where
  "new_SstpUser = new_L2tpUser"

definition SstpUser_fromJson :: "jsv \<Rightarrow> world \<Rightarrow> (L2tpUser list \<times> world) option" where
  "SstpUser_fromJson = L2tpUser_fromJson"

definition SstpUser_toJson :: "L2tpUser \<Rightarrow> jsv" where
  "SstpUser_toJson = L2tpUser_toJson"

definition SstpUser_toJsonArray :: "L2tpUser list \<Rightarrow> jsv option" where
  "SstpUser_toJsonArray = L2tpUser_toJsonArray"

definition SstpUser_get_expiryTime :: "L2tpUser \<Rightarrow> expiry_view" where
  "SstpUser_get_expiryTime = OpenvpnUser_get_expiryTime"

definition SstpUser_set_expiryTime :: "jsv \<Rightarrow> L2tpUser \<Rightarrow> L2tpUser" where
  "SstpUser_set_expiryTime = L2tpUser_set_expiryTime"

definition SstpUser_get_totalGB :: "L2tpUser \<Rightarrow> jnum" where
  "SstpUser_get_totalGB = L2tpUser_get_totalGB"

definition SstpUser_set_totalGB :: "jsv \<Rightarrow> L2tpUser \<Rightarrow> L2tpUser" where
  "SstpUser_set_totalGB = L2tpUser_set_totalGB"

lemmas same_user_class =
  new_PptpUser_def PptpUser_fromJson_def PptpUser_toJson_def
  PptpUser_toJsonArray_def PptpUser_get_expiryTime_def PptpUser_set_expiryTime_def
  PptpUser_get_totalGB_def PptpUser_set_totalGB_def new_OpenvpnUser_def
  OpenvpnUser_fromJson_def OpenvpnUser_toJson_def OpenvpnUser_toJsonArray_def
  OpenvpnUser_set_expiryTime_def OpenvpnUser_get_totalGB_def OpenvpnUser_set_totalGB_def
  new_OcservUser_def OcservUser_fromJson_def OcservUser_toJson_def
  OcservUser_toJsonArray_def OcservUser_get_expiryTime_def OcservUser_set_expiryTime_def
  OcservUser_get_totalGB_def OcservUser_set_totalGB_def new_SstpUser_def
  SstpUser_fromJson_def SstpUser_toJson_def SstpUser_toJsonArray_def
  SstpUser_get_expiryTime_def SstpUser_set_expiryTime_def SstpUser_get_totalGB_def
  SstpUser_set_totalGB_def

text \<open>A field read with ?? keeps what it holds unless that is null.\<close>

definition set_field :: "jsv \<Rightarrow> bool" where
  "set_field v \<longleftrightarrow> field_ok v \<and> v \<noteq> JNull"

lemma set_field_kept [simp]: "set_field v \<Longrightarrow> nullish v d = v" "set_field v \<Longrightarrow> wire v = v"
  "set_field v \<Longrightarrow> v \<noteq> JUndef" "set_field v \<Longrightarrow> dflt v d = v" "set_field v \<Longrightarrow> field_ok v"
  by (auto simp: set_field_def nullish_def field_ok_def)

lemma set_field_prims [simp]: "set_field (JBool b)" "set_field (JStr s)" "set_field (JNum (Fin q))"
  by (simp_all add: set_field_def)

definition L2tpUser_ok :: "L2tpUser \<Rightarrow> bool" where
  "L2tpUser_ok u \<longleftrightarrow>
     field_ok (vu_id u) \<and> field_ok (vu_password u) \<and> field_ok (vu_email u) \<and>
     set_field (vu_enable u) \<and> set_field (vu_expiryTime u) \<and> set_field (vu_tgId u) \<and>
     set_field (vu_subId u) \<and> set_field (vu_comment u) \<and> set_field (vu_totalGB u) \<and>
     set_field (vu_limitIp u) \<and> set_field (vu_reset u) \<and> opt_field_ok (vu_created_at u) \<and>
     opt_field_ok (vu_updated_at u)"

lemma vpn_user_saved:
  assumes "L2tpUser_ok u"
  shows "vpn_user_of (wire (L2tpUser_toJson u)) w = Some (u, w)"
proof -
  note ok = assms [unfolded L2tpUser_ok_def]

  let ?kvs = "[(''id'', vu_id u),
               (''password'', vu_password u),
               (''email'', vu_email u),
               (''enable'', vu_enable u),
               (''expiryTime'', vu_expiryTime u),
               (''tgId'', vu_tgId u),
               (''subId'', vu_subId u),
               (''comment'', vu_comment u),
               (''totalGB'', vu_totalGB u),
               (''limitIp'', vu_limitIp u),
               (''reset'', vu_reset u),
               (''created_at'', vu_created_at u),
               (''updated_at'', vu_updated_at u)]"
  have e: "L2tpUser_toJson u = JObj ?kvs" by (simp add: L2tpUser_toJson_def)
  have g: "js_get (wire (JObj ?kvs)) k = Some (wire (look ?kvs k))" for k by (rule js_get_wire) simp
  have l: "look ?kvs ''id'' = vu_id u"
    "look ?kvs ''password'' = vu_password u"
    "look ?kvs ''email'' = vu_email u"
    "look ?kvs ''enable'' = vu_enable u"
    "look ?kvs ''expiryTime'' = vu_expiryTime u"
    "look ?kvs ''tgId'' = vu_tgId u"
    "look ?kvs ''subId'' = vu_subId u"
    "look ?kvs ''comment'' = vu_comment u"
    "look ?kvs ''totalGB'' = vu_totalGB u"
    "look ?kvs ''limitIp'' = vu_limitIp u"
    "look ?kvs ''reset'' = vu_reset u"
    "look ?kvs ''created_at'' = vu_created_at u"
    "look ?kvs ''updated_at'' = vu_updated_at u"
    by simp_all
  have wi: "wire (vu_id u) = vu_id u"
    "wire (vu_password u) = vu_password u"
    "wire (vu_email u) = vu_email u"
    "wire (vu_enable u) = vu_enable u"
    "wire (vu_expiryTime u) = vu_expiryTime u"
    "wire (vu_tgId u) = vu_tgId u"
    "wire (vu_subId u) = vu_subId u"
    "wire (vu_comment u) = vu_comment u"
    "wire (vu_totalGB u) = vu_totalGB u"
    "wire (vu_limitIp u) = vu_limitIp u"
    "wire (vu_reset u) = vu_reset u"
    "wire (vu_created_at u) = vu_created_at u"
    "wire (vu_updated_at u) = vu_updated_at u"
    using ok by (simp_all add: field_ok_def opt_field_ok_def)
  show ?thesis
    unfolding vpn_user_of_def e g l bind.bind_lunit wi new_L2tpUser_def
    using ok by (cases u) (simp add: field_ok_def)
qed

interpretation vu_codec: world_codec "\<lambda>u. Some (L2tpUser_toJson u)" vpn_user_of L2tpUser_ok
  by (rule world_codecI) (simp add: vpn_user_saved, simp add: L2tpUser_toJson_def)

lemma users_loaded:
  assumes "list_all L2tpUser_ok us"
  shows "\<exists>v. L2tpUser_toJsonArray us = Some v \<and> v \<noteq> JUndef \<and> (\<forall>w. L2tpUser_fromJson (wire v) w = Some (us, w))"
proof -
  obtain v where v: "toJsonArray (\<lambda>u. Some (L2tpUser_toJson u)) us = Some v" "is_array v"
    "\<forall>w. js_mapW vpn_user_of (wire v) w = Some (us, w)"
    using vu_codec.array_loaded [OF assms] by blast
  then have "is_array (wire v)" "v \<noteq> JUndef" "wire v \<noteq> JUndef" by (cases v; simp)+
  with v show ?thesis by (simp add: L2tpUser_toJsonArray_def L2tpUser_fromJson_def)
qed

text \<open>Anything but an array of users is one new user.\<close>

lemma users_not_array:
  "json \<noteq> JUndef \<Longrightarrow> \<not> is_array json \<Longrightarrow>
   \<exists>u w'. L2tpUser_fromJson json w = Some ([u], w') \<and> vu_enable u = JBool True \<and> vu_expiryTime u = jint 0"
  by (simp add: L2tpUser_fromJson_def new_L2tpUser_def no_user_args_def split_beta Let_def)

lemma expiry_edited:
  "OpenvpnUser_get_expiryTime (L2tpUser_set_expiryTime t u) = L2tpUser_get_expiryTime (L2tpUser_set_expiryTime t u)"
  by (simp add: OpenvpnUser_get_expiryTime_def L2tpUser_get_expiryTime_def L2tpUser_set_expiryTime_def
      get_expiryTime_def set_expiryTime_def)

section \<open>Client IP ranges\<close>

text \<open>
  \<open>Array.isArray(v) ? v.slice() : []\<close>; a configuration with the older single range is read
  as a list of one. Blank rows are not sent: \<open>(rs || []).filter(r => r && r.trim() !== "")\<close>,
  which throws on a row that is no string and on a list that is no array.
\<close>

definition slice_or_empty :: "jsv \<Rightarrow> jsv" where
  "slice_or_empty v = (if is_array v then v else JArr [])"

definition load_ranges :: "jsv \<Rightarrow> jsv \<Rightarrow> jsv" where
  "load_ranges ranges range_v =
     (let rs = slice_or_empty ranges in if rs = JArr [] \<and> truthy range_v then JArr [range_v] else rs)"

fun keep_range :: "jsv \<Rightarrow> bool option" where
  "keep_range (JStr s) = Some (s \<noteq> '''' \<and> trim s \<noteq> '''')"
| "keep_range v = (if truthy v then None else Some False)"

fun sent_ranges :: "jsv \<Rightarrow> jsv option" where
  "sent_ranges (JArr vs) =
     do { ks \<leftarrow> mapM keep_range vs; Some (JArr (map snd (filter fst (zip ks vs)))) }"
| "sent_ranges v = (if truthy v then None else Some (JArr []))"

fun range_row :: "jsv \<Rightarrow> bool" where
  "range_row (JStr s) = (trim s \<noteq> '''')"
| "range_row _ = False"

fun ranges_ok :: "jsv \<Rightarrow> bool" where
  "ranges_ok (JArr vs) = list_all range_row vs"
| "ranges_ok _ = False"

lemma range_row_kept: "range_row v \<Longrightarrow> keep_range v = Some True \<and> wire v = v \<and> v \<noteq> JUndef"
  by (cases v) auto

lemma range_rows_kept:
  "list_all range_row vs \<Longrightarrow> mapM keep_range vs = Some (map (\<lambda>v. True) vs) \<and> map wire vs = vs \<and> JUndef \<notin> set vs"
proof (induction vs)
  case (Cons v vs)
  with range_row_kept [of v] show ?case by auto
qed simp

lemma zip_all_true: "map snd (filter fst (zip (map (\<lambda>v. True) vs) vs)) = vs"
  by (induction vs) auto

lemma ranges_saved:
  assumes "ranges_ok v"
  shows "sent_ranges v = Some v" "wire v = v" "is_array v" "slice_or_empty v = v"
proof -
  obtain vs where vs: "v = JArr vs" "list_all range_row vs"
    using assms by (cases v) auto
  note k = range_rows_kept [OF vs(2)]
  then show "sent_ranges v = Some v" "is_array v" "slice_or_empty v = v"
    by (simp_all add: vs(1) zip_all_true slice_or_empty_def)
  have "map (\<lambda>v. if v = JUndef then JNull else wire v) vs = map wire vs"
    using k by (intro map_cong) auto
  with k show "wire v = v" by (simp add: vs(1))
qed

text \<open>Whatever the rows are, what is sent is a list of rows that are not blank.\<close>

lemma keep_range_row: "keep_range v = Some True \<Longrightarrow> range_row v"
  by (cases v) (auto split: if_splits)

lemma kept_rows:
  "mapM keep_range vs = Some ks \<Longrightarrow> list_all range_row (map snd (filter fst (zip ks vs)))"
  by (induction vs arbitrary: ks) (auto split: bind_splits simp: keep_range_row)

lemma sent_ranges_ok: "sent_ranges v = Some rs \<Longrightarrow> ranges_ok rs"
  by (cases v) (auto split: bind_splits if_splits simp: kept_rows)

lemma load_ranges_saved: "ranges_ok v \<Longrightarrow> load_ranges v JUndef = v"
  by (simp add: load_ranges_def ranges_saved)

section \<open>Inbound.L2tpSettings\<close>

record L2tpSettings =
  l2_ipsecEnable :: jsv
  l2_ipsecPsk :: jsv
  l2_allowRaw :: jsv
  l2_clientToClient :: jsv
  l2_crossInbound :: jsv
  l2_ipRanges :: jsv
  l2_dns1 :: jsv
  l2_dns2 :: jsv
  l2_mtu :: jsv
  l2_userLimit :: jsv
  l2_userLimitStrategy :: jsv
  l2_l2tpUsers :: "L2tpUser list"

definition new_L2tpSettings ::
  "jsv \<Rightarrow> jsv \<Rightarrow> jsv \<Rightarrow> jsv \<Rightarrow> jsv \<Rightarrow> jsv \<Rightarrow> jsv \<Rightarrow> jsv \<Rightarrow>
   jsv \<Rightarrow> jsv \<Rightarrow> jsv \<Rightarrow> L2tpUser list option \<Rightarrow> world \<Rightarrow> L2tpSettings \<times> world" where
  "new_L2tpSettings ipsecEnable ipsecPsk allowRaw clientToClient crossInbound ipRanges dns1 dns2
     mtu userLimit userLimitStrategy l2tpUsers w =
     (let (ipsecPsk, w) = random_dflt ipsecPsk (randomSeq 16 default_seq) w;
          (l2tpUsers, w) = one_new (new_L2tpUser no_user_args) l2tpUsers w
      in (\<lparr>l2_ipsecEnable = dflt ipsecEnable (JBool True),
           l2_ipsecPsk = ipsecPsk,
           l2_allowRaw = dflt allowRaw (JBool False),
           l2_clientToClient = dflt clientToClient (JBool False),
           l2_crossInbound = dflt crossInbound (JBool False),
           l2_ipRanges = dflt ipRanges (JArr []),
           l2_dns1 = dflt dns1 (JStr ''8.8.8.8''),
           l2_dns2 = dflt dns2 (JStr ''8.8.4.4''),
           l2_mtu = dflt mtu (jint 1400),
           l2_userLimit = dflt userLimit (jint 0),
           l2_userLimitStrategy = dflt userLimitStrategy (JStr ''accept''),
           l2_l2tpUsers = l2tpUsers\<rparr>, w))"

definition L2tpSettings_fromJson :: "jsv \<Rightarrow> world \<Rightarrow> (L2tpSettings \<times> world) option" where
  "L2tpSettings_fromJson json w =
     (let json = dflt json (JObj []) in
      do {
           ipsecEnable \<leftarrow> js_get json ''ipsecEnable'';
           ipsecPsk \<leftarrow> js_get json ''ipsecPsk'';
           allowRaw \<leftarrow> js_get json ''allowRaw'';
           clientToClient \<leftarrow> js_get json ''clientToClient'';
           crossInbound \<leftarrow> js_get json ''crossInbound'';
           ipRanges \<leftarrow> js_get json ''ipRanges'';
           ipRange \<leftarrow> js_get json ''ipRange'';
           dns1 \<leftarrow> js_get json ''dns1'';
           dns2 \<leftarrow> js_get json ''dns2'';
           mtu \<leftarrow> js_get json ''mtu'';
           userLimit \<leftarrow> js_get json ''userLimit'';
           userLimitStrategy \<leftarrow> js_get json ''userLimitStrategy'';
           clients \<leftarrow> js_get json ''clients'';
           (users, w) \<leftarrow> L2tpUser_fromJson clients w;
           Some (new_L2tpSettings
             (nullish ipsecEnable (JBool True)) ipsecPsk (nullish allowRaw (JBool False))
             (nullish clientToClient (JBool False)) (nullish crossInbound (JBool False)) (load_ranges ipRanges ipRange)
             (nullish dns1 (JStr ''8.8.8.8'')) (nullish dns2 (JStr ''8.8.4.4'')) (nullish mtu (jint 1400))
             (nullish userLimit (jint 1)) (nullish userLimitStrategy (JStr ''accept'')) (Some users) w) })"

definition L2tpSettings_toJson :: "L2tpSettings \<Rightarrow> jsv option" where
  "L2tpSettings_toJson x =
     do { ipRanges \<leftarrow> sent_ranges (l2_ipRanges x);
          clients \<leftarrow> L2tpUser_toJsonArray (l2_l2tpUsers x);
          Some (JObj
            [(''ipsecEnable'', l2_ipsecEnable x),
             (''ipsecPsk'', l2_ipsecPsk x),
             (''allowRaw'', l2_allowRaw x),
             (''clientToClient'', l2_clientToClient x),
             (''crossInbound'', l2_crossInbound x),
             (''ipRanges'', ipRanges),
             (''dns1'', l2_dns1 x),
             (''dns2'', l2_dns2 x),
             (''mtu'', l2_mtu x),
             (''userLimit'', l2_userLimit x),
             (''userLimitStrategy'', l2_userLimitStrategy x),
             (''clients'', clients)]) }"

definition L2tpSettings_ok :: "L2tpSettings \<Rightarrow> bool" where
  "L2tpSettings_ok x \<longleftrightarrow>
     set_field (l2_ipsecEnable x) \<and> field_ok (l2_ipsecPsk x) \<and> set_field (l2_allowRaw x) \<and>
     set_field (l2_clientToClient x) \<and> set_field (l2_crossInbound x) \<and> ranges_ok (l2_ipRanges x) \<and>
     set_field (l2_dns1 x) \<and> set_field (l2_dns2 x) \<and> set_field (l2_mtu x) \<and>
     set_field (l2_userLimit x) \<and> set_field (l2_userLimitStrategy x) \<and> list_all L2tpUser_ok (l2_l2tpUsers x)"

lemma L2tpSettings_roundtrip:
  assumes "L2tpSettings_ok x"
  shows "\<exists>v. L2tpSettings_toJson x = Some v \<and> v \<noteq> JUndef \<and> (\<forall>w. L2tpSettings_fromJson (wire v) w = Some (x, w))"
proof -
  note ok = assms [unfolded L2tpSettings_ok_def]
  obtain cs where cs: "L2tpUser_toJsonArray (l2_l2tpUsers x) = Some cs" "cs \<noteq> JUndef"
    "\<forall>w. L2tpUser_fromJson (wire cs) w = Some (l2_l2tpUsers x, w)"
    using users_loaded ok by blast
  have r: "sent_ranges (l2_ipRanges x) = Some (l2_ipRanges x)" "load_ranges (l2_ipRanges x) JUndef = l2_ipRanges x"
    "wire (l2_ipRanges x) = l2_ipRanges x" "is_array (l2_ipRanges x)"
    using ok by (simp_all add: ranges_saved load_ranges_saved)
  let ?kvs = "[(''ipsecEnable'', l2_ipsecEnable x), (''ipsecPsk'', l2_ipsecPsk x), (''allowRaw'', l2_allowRaw x),
    (''clientToClient'', l2_clientToClient x), (''crossInbound'', l2_crossInbound x), (''ipRanges'', l2_ipRanges x),
    (''dns1'', l2_dns1 x), (''dns2'', l2_dns2 x), (''mtu'', l2_mtu x),
    (''userLimit'', l2_userLimit x), (''userLimitStrategy'', l2_userLimitStrategy x), (''clients'', cs)]"
  have e: "L2tpSettings_toJson x = Some (JObj ?kvs)"
    by (simp add: L2tpSettings_toJson_def same_user_class cs(1) r)
  have g: "js_get (wire (JObj ?kvs)) k = Some (wire (look ?kvs k))" for k by (rule js_get_wire) simp
  have l: "look ?kvs ''ipsecEnable'' = l2_ipsecEnable x"
    "look ?kvs ''ipsecPsk'' = l2_ipsecPsk x"
    "look ?kvs ''allowRaw'' = l2_allowRaw x"
    "look ?kvs ''clientToClient'' = l2_clientToClient x"
    "look ?kvs ''crossInbound'' = l2_crossInbound x"
    "look ?kvs ''ipRanges'' = l2_ipRanges x"
    "look ?kvs ''dns1'' = l2_dns1 x"
    "look ?kvs ''dns2'' = l2_dns2 x"
    "look ?kvs ''mtu'' = l2_mtu x"
    "look ?kvs ''userLimit'' = l2_userLimit x"
    "look ?kvs ''userLimitStrategy'' = l2_userLimitStrategy x"
    "look ?kvs ''clients'' = cs"
    "look ?kvs ''ipRange'' = JUndef"
    by simp_all
  have wi: "wire (l2_ipsecEnable x) = l2_ipsecEnable x" "l2_ipsecEnable x \<noteq> JUndef"
    "wire (l2_ipsecPsk x) = l2_ipsecPsk x" "l2_ipsecPsk x \<noteq> JUndef"
    "wire (l2_allowRaw x) = l2_allowRaw x" "l2_allowRaw x \<noteq> JUndef"
    "wire (l2_clientToClient x) = l2_clientToClient x" "l2_clientToClient x \<noteq> JUndef"
    "wire (l2_crossInbound x) = l2_crossInbound x" "l2_crossInbound x \<noteq> JUndef"
    "wire (l2_dns1 x) = l2_dns1 x" "l2_dns1 x \<noteq> JUndef"
    "wire (l2_dns2 x) = l2_dns2 x" "l2_dns2 x \<noteq> JUndef"
    "wire (l2_mtu x) = l2_mtu x" "l2_mtu x \<noteq> JUndef"
    "wire (l2_userLimit x) = l2_userLimit x" "l2_userLimit x \<noteq> JUndef"
    "wire (l2_userLimitStrategy x) = l2_userLimitStrategy x" "l2_userLimitStrategy x \<noteq> JUndef"
    using ok by (simp_all add: field_ok_def)
  have nu: "nullish (l2_ipsecEnable x) d = l2_ipsecEnable x"
    "nullish (l2_allowRaw x) d = l2_allowRaw x"
    "nullish (l2_clientToClient x) d = l2_clientToClient x"
    "nullish (l2_crossInbound x) d = l2_crossInbound x"
    "nullish (l2_dns1 x) d = l2_dns1 x"
    "nullish (l2_dns2 x) d = l2_dns2 x"
    "nullish (l2_mtu x) d = l2_mtu x"
    "nullish (l2_userLimit x) d = l2_userLimit x"
    "nullish (l2_userLimitStrategy x) d = l2_userLimitStrategy x" for d
    using ok by simp_all
  have j: "dflt (wire (JObj ?kvs)) (JObj []) = wire (JObj ?kvs)" by simp
  have nd: "l2_ipRanges x \<noteq> JUndef"
    using r by auto
  have u: "JUndef = wire JUndef" by simp
  have "L2tpSettings_fromJson (wire (JObj ?kvs)) w = Some (x, w)" for w
    unfolding L2tpSettings_fromJson_def Let_def j g l bind.bind_lunit wi r nu same_user_class cs(3) [rule_format]
      new_L2tpSettings_def
    using wi nd r by (cases x) simp
  with e show ?thesis by blast
qed

interpretation l2s_codec: world_codec L2tpSettings_toJson L2tpSettings_fromJson L2tpSettings_ok
  by (rule world_codecI) (rule L2tpSettings_roundtrip)

section \<open>Inbound.PptpSettings\<close>

record PptpSettings =
  pp_clientToClient :: jsv
  pp_crossInbound :: jsv
  pp_ipRanges :: jsv
  pp_dns1 :: jsv
  pp_dns2 :: jsv
  pp_mtu :: jsv
  pp_userLimit :: jsv
  pp_userLimitStrategy :: jsv
  pp_pptpUsers :: "L2tpUser list"

definition new_PptpSettings ::
  "jsv \<Rightarrow> jsv \<Rightarrow> jsv \<Rightarrow> jsv \<Rightarrow> jsv \<Rightarrow> jsv \<Rightarrow> jsv \<Rightarrow> jsv \<Rightarrow>
   L2tpUser list option \<Rightarrow> world \<Rightarrow> PptpSettings \<times> world" where
  "new_PptpSettings clientToClient crossInbound ipRanges dns1 dns2 mtu userLimit userLimitStrategy
     pptpUsers w =
     (let (pptpUsers, w) = one_new (new_PptpUser no_user_args) pptpUsers w
      in (\<lparr>pp_clientToClient = dflt clientToClient (JBool False),
           pp_crossInbound = dflt crossInbound (JBool False),
           pp_ipRanges = dflt ipRanges (JArr []),
           pp_dns1 = dflt dns1 (JStr ''8.8.8.8''),
           pp_dns2 = dflt dns2 (JStr ''8.8.4.4''),
           pp_mtu = dflt mtu (jint 1400),
           pp_userLimit = dflt userLimit (jint 0),
           pp_userLimitStrategy = dflt userLimitStrategy (JStr ''accept''),
           pp_pptpUsers = pptpUsers\<rparr>, w))"

definition PptpSettings_fromJson :: "jsv \<Rightarrow> world \<Rightarrow> (PptpSettings \<times> world) option" where
  "PptpSettings_fromJson json w =
     (let json = dflt json (JObj []) in
      do {
           clientToClient \<leftarrow> js_get json ''clientToClient'';
           crossInbound \<leftarrow> js_get json ''crossInbound'';
           ipRanges \<leftarrow> js_get json ''ipRanges'';
           ipRange \<leftarrow> js_get json ''ipRange'';
           dns1 \<leftarrow> js_get json ''dns1'';
           dns2 \<leftarrow> js_get json ''dns2'';
           mtu \<leftarrow> js_get json ''mtu'';
           userLimit \<leftarrow> js_get json ''userLimit'';
           userLimitStrategy \<leftarrow> js_get json ''userLimitStrategy'';
           clients \<leftarrow> js_get json ''clients'';
           (users, w) \<leftarrow> PptpUser_fromJson clients w;
           Some (new_PptpSettings
             (nullish clientToClient (JBool False)) (nullish crossInbound (JBool False)) (load_ranges ipRanges ipRange)
             (nullish dns1 (JStr ''8.8.8.8'')) (nullish dns2 (JStr ''8.8.4.4'')) (nullish mtu (jint 1400))
             (nullish userLimit (jint 1)) (nullish userLimitStrategy (JStr ''accept'')) (Some users) w) })"

definition PptpSettings_toJson :: "PptpSettings \<Rightarrow> jsv option" where
  "PptpSettings_toJson x =
     do { ipRanges \<leftarrow> sent_ranges (pp_ipRanges x);
          clients \<leftarrow> PptpUser_toJsonArray (pp_pptpUsers x);
          Some (JObj
            [(''clientToClient'', pp_clientToClient x),
             (''crossInbound'', pp_crossInbound x),
             (''ipRanges'', ipRanges),
             (''dns1'', pp_dns1 x),
             (''dns2'', pp_dns2 x),
             (''mtu'', pp_mtu x),
             (''userLimit'', pp_userLimit x),
             (''userLimitStrategy'', pp_userLimitStrategy x),
             (''clients'', clients)]) }"

definition PptpSettings_ok :: "PptpSettings \<Rightarrow> bool" where
  "PptpSettings_ok x \<longleftrightarrow>
     set_field (pp_clientToClient x) \<and> set_field (pp_crossInbound x) \<and> ranges_ok (pp_ipRanges x) \<and>
     set_field (pp_dns1 x) \<and> set_field (pp_dns2 x) \<and> set_field (pp_mtu x) \<and>
     set_field (pp_userLimit x) \<and> set_field (pp_userLimitStrategy x) \<and> list_all L2tpUser_ok (pp_pptpUsers x)"

lemma PptpSettings_roundtrip:
  assumes "PptpSettings_ok x"
  shows "\<exists>v. PptpSettings_toJson x = Some v \<and> v \<noteq> JUndef \<and> (\<forall>w. PptpSettings_fromJson (wire v) w = Some (x, w))"
proof -
  note ok = assms [unfolded PptpSettings_ok_def]
  obtain cs where cs: "L2tpUser_toJsonArray (pp_pptpUsers x) = Some cs" "cs \<noteq> JUndef"
    "\<forall>w. L2tpUser_fromJson (wire cs) w = Some (pp_pptpUsers x, w)"
    using users_loaded ok by blast
  have r: "sent_ranges (pp_ipRanges x) = Some (pp_ipRanges x)" "load_ranges (pp_ipRanges x) JUndef = pp_ipRanges x"
    "wire (pp_ipRanges x) = pp_ipRanges x" "is_array (pp_ipRanges x)"
    using ok by (simp_all add: ranges_saved load_ranges_saved)
  let ?kvs = "[(''clientToClient'', pp_clientToClient x), (''crossInbound'', pp_crossInbound x), (''ipRanges'', pp_ipRanges x),
    (''dns1'', pp_dns1 x), (''dns2'', pp_dns2 x), (''mtu'', pp_mtu x),
    (''userLimit'', pp_userLimit x), (''userLimitStrategy'', pp_userLimitStrategy x), (''clients'', cs)]"
  have e: "PptpSettings_toJson x = Some (JObj ?kvs)"
    by (simp add: PptpSettings_toJson_def same_user_class cs(1) r)
  have g: "js_get (wire (JObj ?kvs)) k = Some (wire (look ?kvs k))" for k by (rule js_get_wire) simp
  have l: "look ?kvs ''clientToClient'' = pp_clientToClient x"
    "look ?kvs ''crossInbound'' = pp_crossInbound x"
    "look ?kvs ''ipRanges'' = pp_ipRanges x"
    "look ?kvs ''dns1'' = pp_dns1 x"
    "look ?kvs ''dns2'' = pp_dns2 x"
    "look ?kvs ''mtu'' = pp_mtu x"
    "look ?kvs ''userLimit'' = pp_userLimit x"
    "look ?kvs ''userLimitStrategy'' = pp_userLimitStrategy x"
    "look ?kvs ''clients'' = cs"
    "look ?kvs ''ipRange'' = JUndef"
    by simp_all
  have wi: "wire (pp_clientToClient x) = pp_clientToClient x" "pp_clientToClient x \<noteq> JUndef"
    "wire (pp_crossInbound x) = pp_crossInbound x" "pp_crossInbound x \<noteq> JUndef"
    "wire (pp_dns1 x) = pp_dns1 x" "pp_dns1 x \<noteq> JUndef"
    "wire (pp_dns2 x) = pp_dns2 x" "pp_dns2 x \<noteq> JUndef"
    "wire (pp_mtu x) = pp_mtu x" "pp_mtu x \<noteq> JUndef"
    "wire (pp_userLimit x) = pp_userLimit x" "pp_userLimit x \<noteq> JUndef"
    "wire (pp_userLimitStrategy x) = pp_userLimitStrategy x" "pp_userLimitStrategy x \<noteq> JUndef"
    using ok by (simp_all add: field_ok_def)
  have nu: "nullish (pp_clientToClient x) d = pp_clientToClient x"
    "nullish (pp_crossInbound x) d = pp_crossInbound x"
    "nullish (pp_dns1 x) d = pp_dns1 x"
    "nullish (pp_dns2 x) d = pp_dns2 x"
    "nullish (pp_mtu x) d = pp_mtu x"
    "nullish (pp_userLimit x) d = pp_userLimit x"
    "nullish (pp_userLimitStrategy x) d = pp_userLimitStrategy x" for d
    using ok by simp_all
  have j: "dflt (wire (JObj ?kvs)) (JObj []) = wire (JObj ?kvs)" by simp
  have nd: "pp_ipRanges x \<noteq> JUndef"
    using r by auto
  have u: "JUndef = wire JUndef" by simp
  have "PptpSettings_fromJson (wire (JObj ?kvs)) w = Some (x, w)" for w
    unfolding PptpSettings_fromJson_def Let_def j g l bind.bind_lunit wi r nu same_user_class cs(3) [rule_format]
      new_PptpSettings_def
    using wi nd r by (cases x) simp
  with e show ?thesis by blast
qed

interpretation pps_codec: world_codec PptpSettings_toJson PptpSettings_fromJson PptpSettings_ok
  by (rule world_codecI) (rule PptpSettings_roundtrip)

text \<open>An array that is not changed on its way.\<close>

definition array_ok :: "jsv \<Rightarrow> bool" where
  "array_ok v \<longleftrightarrow> is_array v \<and> wire v = v"

lemma array_ok_saved:
  "array_ok v \<Longrightarrow> wire v = v" "array_ok v \<Longrightarrow> slice_or_empty v = v" "array_ok v \<Longrightarrow> is_array v"
  "array_ok v \<Longrightarrow> js_or v d = v"
  by (cases v; simp add: array_ok_def slice_or_empty_def js_or_def)+

section \<open>Inbound.OpenvpnSettings\<close>

definition CIPHERS_AEAD :: "string list" where
  "CIPHERS_AEAD = [''AES-256-GCM'', ''AES-192-GCM'', ''AES-128-GCM'', ''CHACHA20-POLY1305'']"

definition CIPHERS_CBC :: "string list" where
  "CIPHERS_CBC =
     [''AES-256-CBC'', ''AES-192-CBC'', ''AES-128-CBC'', ''CAMELLIA-256-CBC'', ''CAMELLIA-192-CBC'',
      ''CAMELLIA-128-CBC'', ''ARIA-256-CBC'', ''ARIA-192-CBC'', ''ARIA-128-CBC'', ''SM4-CBC'', ''SEED-CBC'',
      ''BF-CBC'', ''CAST5-CBC'', ''DES-EDE3-CBC'', ''DES-EDE-CBC'', ''DES-CBC'', ''RC2-CBC'', ''RC2-64-CBC'',
      ''RC2-40-CBC'']"

definition ALL_CIPHERS :: "string list" where
  "ALL_CIPHERS = CIPHERS_AEAD @ CIPHERS_CBC"

definition CIPHER_MODES :: "(string \<times> string list) list" where
  "CIPHER_MODES =
     [(''new'', [''AES-256-GCM'', ''AES-128-GCM'', ''CHACHA20-POLY1305'']),
      (''old'', [''AES-256-CBC'', ''AES-192-CBC'', ''AES-128-CBC'', ''BF-CBC'', ''DES-EDE3-CBC'']),
      (''all'', [''AES-256-GCM'', ''AES-128-GCM'', ''CHACHA20-POLY1305'', ''AES-256-CBC'', ''AES-192-CBC'',
                ''AES-128-CBC'', ''BF-CBC'', ''DES-EDE3-CBC''])]"

text \<open>\<open>ciphers.includes(c)\<close> for the array the constructor and \<open>fromJson\<close> pass.\<close>

fun includes_str :: "jsv \<Rightarrow> string \<Rightarrow> bool" where
  "includes_str (JArr vs) c = (JStr c \<in> set vs)"
| "includes_str _ c = False"

fun first_mode :: "string \<Rightarrow> (string \<times> string list) list \<Rightarrow> string" where
  "first_mode canonical [] = ''custom''"
| "first_mode canonical ((mode, preset) # ms) =
     (if join '':'' preset = canonical then mode else first_mode canonical ms)"

definition detectCipherMode :: "jsv \<Rightarrow> string" where
  "detectCipherMode ciphers = first_mode (join '':'' (filter (includes_str ciphers) ALL_CIPHERS)) CIPHER_MODES"

definition all_preset :: jsv where
  "all_preset = JArr (map JStr (the (map_of CIPHER_MODES ''all'')))"

definition load_ciphers :: "jsv \<Rightarrow> jsv" where
  "load_ciphers v = (if is_array v then v else all_preset)"

record OpenvpnSettings =
  ov_udpEnable :: jsv
  ov_tcpEnable :: jsv
  ov_tcpPort :: jsv
  ov_dns1 :: jsv
  ov_dns2 :: jsv
  ov_mtu :: jsv
  ov_caCert :: jsv
  ov_caKey :: jsv
  ov_serverCert :: jsv
  ov_serverKey :: jsv
  ov_tlsCrypt :: jsv
  ov_openvpnUsers :: "L2tpUser list"
  ov_externalProxy :: jsv
  ov_cipherMode :: jsv
  ov_ciphers :: jsv
  ov_clientToClient :: jsv
  ov_crossInbound :: jsv
  ov_ipRanges :: jsv
  ov_userLimit :: jsv
  ov_userLimitStrategy :: jsv
  ov_separatePorts :: jsv
  ov_tlsUseFile :: jsv
  ov_caCertFile :: jsv
  ov_serverCertFile :: jsv
  ov_serverKeyFile :: jsv
  ov_tlsCryptFile :: jsv

definition new_OpenvpnSettings ::
  "jsv \<Rightarrow> jsv \<Rightarrow> jsv \<Rightarrow> jsv \<Rightarrow> jsv \<Rightarrow> jsv \<Rightarrow> jsv \<Rightarrow> jsv \<Rightarrow>
   jsv \<Rightarrow> jsv \<Rightarrow> jsv \<Rightarrow> L2tpUser list option \<Rightarrow> jsv \<Rightarrow> jsv \<Rightarrow> jsv \<Rightarrow> jsv \<Rightarrow>
   jsv \<Rightarrow> jsv \<Rightarrow> jsv \<Rightarrow> jsv \<Rightarrow> jsv \<Rightarrow> jsv \<Rightarrow> jsv \<Rightarrow> jsv \<Rightarrow>
   jsv \<Rightarrow> jsv \<Rightarrow> world \<Rightarrow> OpenvpnSettings \<times> world" where
  "new_OpenvpnSettings udpEnable tcpEnable tcpPort dns1 dns2 mtu caCert caKey
     serverCert serverKey tlsCrypt openvpnUsers externalProxy cipherMode ciphers clientToClient
     crossInbound ipRanges userLimit userLimitStrategy separatePorts tlsUseFile caCertFile serverCertFile
     serverKeyFile tlsCryptFile w =
     (let (openvpnUsers, w) = one_new (new_OpenvpnUser no_user_args) openvpnUsers w
      in (\<lparr>ov_udpEnable = dflt udpEnable (JBool True),
           ov_tcpEnable = dflt tcpEnable (JBool True),
           ov_tcpPort = dflt tcpPort (jint 1194),
           ov_dns1 = dflt dns1 (JStr ''8.8.8.8''),
           ov_dns2 = dflt dns2 (JStr ''8.8.4.4''),
           ov_mtu = dflt mtu (jint 1500),
           ov_caCert = dflt caCert (JStr ''''),
           ov_caKey = dflt caKey (JStr ''''),
           ov_serverCert = dflt serverCert (JStr ''''),
           ov_serverKey = dflt serverKey (JStr ''''),
           ov_tlsCrypt = dflt tlsCrypt (JStr ''''),
           ov_openvpnUsers = openvpnUsers,
           ov_externalProxy = dflt externalProxy (JArr []),
           ov_cipherMode = dflt cipherMode (JStr ''all''),
           ov_ciphers = dflt ciphers all_preset,
           ov_clientToClient = dflt clientToClient (JBool False),
           ov_crossInbound = dflt crossInbound (JBool False),
           ov_ipRanges = dflt ipRanges (JArr []),
           ov_userLimit = dflt userLimit (jint 0),
           ov_userLimitStrategy = dflt userLimitStrategy (JStr ''accept''),
           ov_separatePorts = dflt separatePorts (JBool False),
           ov_tlsUseFile = dflt tlsUseFile (JBool False),
           ov_caCertFile = dflt caCertFile (JStr ''''),
           ov_serverCertFile = dflt serverCertFile (JStr ''''),
           ov_serverKeyFile = dflt serverKeyFile (JStr ''''),
           ov_tlsCryptFile = dflt tlsCryptFile (JStr '''')\<rparr>, w))"

definition OpenvpnSettings_fromJson :: "jsv \<Rightarrow> world \<Rightarrow> (OpenvpnSettings \<times> world) option" where
  "OpenvpnSettings_fromJson json w =
     (let json = dflt json (JObj []) in
      do {
           udpEnable \<leftarrow> js_get json ''udpEnable'';
           tcpEnable \<leftarrow> js_get json ''tcpEnable'';
           tcpPort \<leftarrow> js_get json ''tcpPort'';
           dns1 \<leftarrow> js_get json ''dns1'';
           dns2 \<leftarrow> js_get json ''dns2'';
           mtu \<leftarrow> js_get json ''mtu'';
           caCert \<leftarrow> js_get json ''caCert'';
           caKey \<leftarrow> js_get json ''caKey'';
           serverCert \<leftarrow> js_get json ''serverCert'';
           serverKey \<leftarrow> js_get json ''serverKey'';
           tlsCrypt \<leftarrow> js_get json ''tlsCrypt'';
           clients \<leftarrow> js_get json ''clients'';
           externalProxy \<leftarrow> js_get json ''externalProxy'';
           cipherMode \<leftarrow> js_get json ''cipherMode'';
           ciphers \<leftarrow> js_get json ''ciphers'';
           clientToClient \<leftarrow> js_get json ''clientToClient'';
           crossInbound \<leftarrow> js_get json ''crossInbound'';
           ipRanges \<leftarrow> js_get json ''ipRanges'';
           userLimit \<leftarrow> js_get json ''userLimit'';
           userLimitStrategy \<leftarrow> js_get json ''userLimitStrategy'';
           separatePorts \<leftarrow> js_get json ''separatePorts'';
           tlsUseFile \<leftarrow> js_get json ''tlsUseFile'';
           caCertFile \<leftarrow> js_get json ''caCertFile'';
           serverCertFile \<leftarrow> js_get json ''serverCertFile'';
           serverKeyFile \<leftarrow> js_get json ''serverKeyFile'';
           tlsCryptFile \<leftarrow> js_get json ''tlsCryptFile'';
           (users, w) \<leftarrow> OpenvpnUser_fromJson clients w;
           Some (new_OpenvpnSettings
             (nullish udpEnable (JBool True)) (nullish tcpEnable (JBool True)) (nullish tcpPort (jint 1194))
             (nullish dns1 (JStr ''8.8.8.8'')) (nullish dns2 (JStr ''8.8.4.4'')) (nullish mtu (jint 1500))
             (nullish caCert (JStr '''')) (nullish caKey (JStr '''')) (nullish serverCert (JStr ''''))
             (nullish serverKey (JStr '''')) (nullish tlsCrypt (JStr '''')) (Some users)
             (slice_or_empty externalProxy) (nullish cipherMode (JStr (detectCipherMode (load_ciphers ciphers)))) (load_ciphers ciphers)
             (nullish clientToClient (JBool False)) (nullish crossInbound (JBool False)) (slice_or_empty ipRanges)
             (nullish userLimit (jint 1)) (nullish userLimitStrategy (JStr ''accept'')) (nullish separatePorts (JBool True))
             (nullish tlsUseFile (JBool False)) (nullish caCertFile (JStr '''')) (nullish serverCertFile (JStr ''''))
             (nullish serverKeyFile (JStr '''')) (nullish tlsCryptFile (JStr '''')) w) })"

definition OpenvpnSettings_toJson :: "OpenvpnSettings \<Rightarrow> jsv option" where
  "OpenvpnSettings_toJson x =
     do { clients \<leftarrow> OpenvpnUser_toJsonArray (ov_openvpnUsers x);
          Some (JObj
            [(''udpEnable'', ov_udpEnable x),
             (''tcpEnable'', ov_tcpEnable x),
             (''tcpPort'', ov_tcpPort x),
             (''separatePorts'', ov_separatePorts x),
             (''tlsUseFile'', ov_tlsUseFile x),
             (''caCertFile'', ov_caCertFile x),
             (''serverCertFile'', ov_serverCertFile x),
             (''serverKeyFile'', ov_serverKeyFile x),
             (''tlsCryptFile'', ov_tlsCryptFile x),
             (''dns1'', ov_dns1 x),
             (''dns2'', ov_dns2 x),
             (''mtu'', ov_mtu x),
             (''caCert'', ov_caCert x),
             (''caKey'', ov_caKey x),
             (''serverCert'', ov_serverCert x),
             (''serverKey'', ov_serverKey x),
             (''tlsCrypt'', ov_tlsCrypt x),
             (''clients'', clients),
             (''externalProxy'', ov_externalProxy x),
             (''cipherMode'', ov_cipherMode x),
             (''ciphers'', ov_ciphers x),
             (''clientToClient'', ov_clientToClient x),
             (''crossInbound'', ov_crossInbound x),
             (''ipRanges'', js_or (ov_ipRanges x) (JArr [])),
             (''userLimit'', ov_userLimit x),
             (''userLimitStrategy'', ov_userLimitStrategy x)]) }"

definition OpenvpnSettings_ok :: "OpenvpnSettings \<Rightarrow> bool" where
  "OpenvpnSettings_ok x \<longleftrightarrow>
     set_field (ov_udpEnable x) \<and> set_field (ov_tcpEnable x) \<and> set_field (ov_tcpPort x) \<and>
     set_field (ov_dns1 x) \<and> set_field (ov_dns2 x) \<and> set_field (ov_mtu x) \<and>
     set_field (ov_caCert x) \<and> set_field (ov_caKey x) \<and> set_field (ov_serverCert x) \<and>
     set_field (ov_serverKey x) \<and> set_field (ov_tlsCrypt x) \<and> list_all L2tpUser_ok (ov_openvpnUsers x) \<and>
     array_ok (ov_externalProxy x) \<and> set_field (ov_cipherMode x) \<and> array_ok (ov_ciphers x) \<and>
     set_field (ov_clientToClient x) \<and> set_field (ov_crossInbound x) \<and> array_ok (ov_ipRanges x) \<and>
     set_field (ov_userLimit x) \<and> set_field (ov_userLimitStrategy x) \<and> set_field (ov_separatePorts x) \<and>
     set_field (ov_tlsUseFile x) \<and> set_field (ov_caCertFile x) \<and> set_field (ov_serverCertFile x) \<and>
     set_field (ov_serverKeyFile x) \<and> set_field (ov_tlsCryptFile x)"

lemma OpenvpnSettings_roundtrip:
  assumes "OpenvpnSettings_ok x"
  shows "\<exists>v. OpenvpnSettings_toJson x = Some v \<and> v \<noteq> JUndef \<and> (\<forall>w. OpenvpnSettings_fromJson (wire v) w = Some (x, w))"
proof -
  note ok = assms [unfolded OpenvpnSettings_ok_def]
  obtain cs where cs: "L2tpUser_toJsonArray (ov_openvpnUsers x) = Some cs" "cs \<noteq> JUndef"
    "\<forall>w. L2tpUser_fromJson (wire cs) w = Some (ov_openvpnUsers x, w)"
    using users_loaded ok by blast
  have r: "wire (ov_externalProxy x) = ov_externalProxy x" "slice_or_empty (ov_externalProxy x) = ov_externalProxy x" "is_array (ov_externalProxy x)"
    "wire (ov_ciphers x) = ov_ciphers x" "slice_or_empty (ov_ciphers x) = ov_ciphers x" "is_array (ov_ciphers x)"
    "wire (ov_ipRanges x) = ov_ipRanges x" "slice_or_empty (ov_ipRanges x) = ov_ipRanges x" "is_array (ov_ipRanges x)"
    "js_or (ov_ipRanges x) (JArr []) = ov_ipRanges x"
    using ok by (simp_all add: array_ok_saved)
  let ?kvs = "[(''udpEnable'', ov_udpEnable x), (''tcpEnable'', ov_tcpEnable x), (''tcpPort'', ov_tcpPort x),
    (''separatePorts'', ov_separatePorts x), (''tlsUseFile'', ov_tlsUseFile x), (''caCertFile'', ov_caCertFile x),
    (''serverCertFile'', ov_serverCertFile x), (''serverKeyFile'', ov_serverKeyFile x), (''tlsCryptFile'', ov_tlsCryptFile x),
    (''dns1'', ov_dns1 x), (''dns2'', ov_dns2 x), (''mtu'', ov_mtu x),
    (''caCert'', ov_caCert x), (''caKey'', ov_caKey x), (''serverCert'', ov_serverCert x),
    (''serverKey'', ov_serverKey x), (''tlsCrypt'', ov_tlsCrypt x), (''clients'', cs),
    (''externalProxy'', ov_externalProxy x), (''cipherMode'', ov_cipherMode x), (''ciphers'', ov_ciphers x),
    (''clientToClient'', ov_clientToClient x), (''crossInbound'', ov_crossInbound x), (''ipRanges'', ov_ipRanges x),
    (''userLimit'', ov_userLimit x), (''userLimitStrategy'', ov_userLimitStrategy x)]"
  have e: "OpenvpnSettings_toJson x = Some (JObj ?kvs)"
    by (simp add: OpenvpnSettings_toJson_def same_user_class cs(1) r)
  have g: "js_get (wire (JObj ?kvs)) k = Some (wire (look ?kvs k))" for k by (rule js_get_wire) simp
  have l: "look ?kvs ''udpEnable'' = ov_udpEnable x"
    "look ?kvs ''tcpEnable'' = ov_tcpEnable x"
    "look ?kvs ''tcpPort'' = ov_tcpPort x"
    "look ?kvs ''separatePorts'' = ov_separatePorts x"
    "look ?kvs ''tlsUseFile'' = ov_tlsUseFile x"
    "look ?kvs ''caCertFile'' = ov_caCertFile x"
    "look ?kvs ''serverCertFile'' = ov_serverCertFile x"
    "look ?kvs ''serverKeyFile'' = ov_serverKeyFile x"
    "look ?kvs ''tlsCryptFile'' = ov_tlsCryptFile x"
    "look ?kvs ''dns1'' = ov_dns1 x"
    "look ?kvs ''dns2'' = ov_dns2 x"
    "look ?kvs ''mtu'' = ov_mtu x"
    "look ?kvs ''caCert'' = ov_caCert x"
    "look ?kvs ''caKey'' = ov_caKey x"
    "look ?kvs ''serverCert'' = ov_serverCert x"
    "look ?kvs ''serverKey'' = ov_serverKey x"
    "look ?kvs ''tlsCrypt'' = ov_tlsCrypt x"
    "look ?kvs ''clients'' = cs"
    "look ?kvs ''externalProxy'' = ov_externalProxy x"
    "look ?kvs ''cipherMode'' = ov_cipherMode x"
    "look ?kvs ''ciphers'' = ov_ciphers x"
    "look ?kvs ''clientToClient'' = ov_clientToClient x"
    "look ?kvs ''crossInbound'' = ov_crossInbound x"
    "look ?kvs ''ipRanges'' = ov_ipRanges x"
    "look ?kvs ''userLimit'' = ov_userLimit x"
    "look ?kvs ''userLimitStrategy'' = ov_userLimitStrategy x"
    by simp_all
  have wi: "wire (ov_udpEnable x) = ov_udpEnable x" "ov_udpEnable x \<noteq> JUndef"
    "wire (ov_tcpEnable x) = ov_tcpEnable x" "ov_tcpEnable x \<noteq> JUndef"
    "wire (ov_tcpPort x) = ov_tcpPort x" "ov_tcpPort x \<noteq> JUndef"
    "wire (ov_dns1 x) = ov_dns1 x" "ov_dns1 x \<noteq> JUndef"
    "wire (ov_dns2 x) = ov_dns2 x" "ov_dns2 x \<noteq> JUndef"
    "wire (ov_mtu x) = ov_mtu x" "ov_mtu x \<noteq> JUndef"
    "wire (ov_caCert x) = ov_caCert x" "ov_caCert x \<noteq> JUndef"
    "wire (ov_caKey x) = ov_caKey x" "ov_caKey x \<noteq> JUndef"
    "wire (ov_serverCert x) = ov_serverCert x" "ov_serverCert x \<noteq> JUndef"
    "wire (ov_serverKey x) = ov_serverKey x" "ov_serverKey x \<noteq> JUndef"
    "wire (ov_tlsCrypt x) = ov_tlsCrypt x" "ov_tlsCrypt x \<noteq> JUndef"
    "wire (ov_cipherMode x) = ov_cipherMode x" "ov_cipherMode x \<noteq> JUndef"
    "wire (ov_clientToClient x) = ov_clientToClient x" "ov_clientToClient x \<noteq> JUndef"
    "wire (ov_crossInbound x) = ov_crossInbound x" "ov_crossInbound x \<noteq> JUndef"
    "wire (ov_userLimit x) = ov_userLimit x" "ov_userLimit x \<noteq> JUndef"
    "wire (ov_userLimitStrategy x) = ov_userLimitStrategy x" "ov_userLimitStrategy x \<noteq> JUndef"
    "wire (ov_separatePorts x) = ov_separatePorts x" "ov_separatePorts x \<noteq> JUndef"
    "wire (ov_tlsUseFile x) = ov_tlsUseFile x" "ov_tlsUseFile x \<noteq> JUndef"
    "wire (ov_caCertFile x) = ov_caCertFile x" "ov_caCertFile x \<noteq> JUndef"
    "wire (ov_serverCertFile x) = ov_serverCertFile x" "ov_serverCertFile x \<noteq> JUndef"
    "wire (ov_serverKeyFile x) = ov_serverKeyFile x" "ov_serverKeyFile x \<noteq> JUndef"
    "wire (ov_tlsCryptFile x) = ov_tlsCryptFile x" "ov_tlsCryptFile x \<noteq> JUndef"
    using ok by (simp_all add: field_ok_def)
  have nu: "nullish (ov_udpEnable x) d = ov_udpEnable x"
    "nullish (ov_tcpEnable x) d = ov_tcpEnable x"
    "nullish (ov_tcpPort x) d = ov_tcpPort x"
    "nullish (ov_dns1 x) d = ov_dns1 x"
    "nullish (ov_dns2 x) d = ov_dns2 x"
    "nullish (ov_mtu x) d = ov_mtu x"
    "nullish (ov_caCert x) d = ov_caCert x"
    "nullish (ov_caKey x) d = ov_caKey x"
    "nullish (ov_serverCert x) d = ov_serverCert x"
    "nullish (ov_serverKey x) d = ov_serverKey x"
    "nullish (ov_tlsCrypt x) d = ov_tlsCrypt x"
    "nullish (ov_cipherMode x) d = ov_cipherMode x"
    "nullish (ov_clientToClient x) d = ov_clientToClient x"
    "nullish (ov_crossInbound x) d = ov_crossInbound x"
    "nullish (ov_userLimit x) d = ov_userLimit x"
    "nullish (ov_userLimitStrategy x) d = ov_userLimitStrategy x"
    "nullish (ov_separatePorts x) d = ov_separatePorts x"
    "nullish (ov_tlsUseFile x) d = ov_tlsUseFile x"
    "nullish (ov_caCertFile x) d = ov_caCertFile x"
    "nullish (ov_serverCertFile x) d = ov_serverCertFile x"
    "nullish (ov_serverKeyFile x) d = ov_serverKeyFile x"
    "nullish (ov_tlsCryptFile x) d = ov_tlsCryptFile x" for d
    using ok by simp_all
  have j: "dflt (wire (JObj ?kvs)) (JObj []) = wire (JObj ?kvs)" by simp
  have nd: "ov_externalProxy x \<noteq> JUndef" "ov_ciphers x \<noteq> JUndef" "ov_ipRanges x \<noteq> JUndef"
    using r by auto
  have u: "JUndef = wire JUndef" by simp
  have ci: "load_ciphers (ov_ciphers x) = ov_ciphers x"
    using r by (simp add: load_ciphers_def)
  have "OpenvpnSettings_fromJson (wire (JObj ?kvs)) w = Some (x, w)" for w
    unfolding OpenvpnSettings_fromJson_def Let_def j g l bind.bind_lunit wi r nu ci same_user_class cs(3) [rule_format]
      new_OpenvpnSettings_def
    using wi nd r by (cases x) simp
  with e show ?thesis by blast
qed

interpretation ovs_codec: world_codec OpenvpnSettings_toJson OpenvpnSettings_fromJson OpenvpnSettings_ok
  by (rule world_codecI) (rule OpenvpnSettings_roundtrip)

section \<open>Inbound.OcservSettings\<close>

record OcservSettings =
  oc_dns1 :: jsv
  oc_dns2 :: jsv
  oc_mtu :: jsv
  oc_tlsUseFile :: jsv
  oc_certificateFile :: jsv
  oc_keyFile :: jsv
  oc_certificate :: jsv
  oc_key :: jsv
  oc_caCert :: jsv
  oc_ocservUsers :: "L2tpUser list"
  oc_clientToClient :: jsv
  oc_crossInbound :: jsv
  oc_ipRanges :: jsv
  oc_userLimit :: jsv
  oc_userLimitStrategy :: jsv

definition new_OcservSettings ::
  "jsv \<Rightarrow> jsv \<Rightarrow> jsv \<Rightarrow> jsv \<Rightarrow> jsv \<Rightarrow> jsv \<Rightarrow> jsv \<Rightarrow> jsv \<Rightarrow>
   jsv \<Rightarrow> L2tpUser list option \<Rightarrow> jsv \<Rightarrow> jsv \<Rightarrow> jsv \<Rightarrow> jsv \<Rightarrow> jsv \<Rightarrow> world \<Rightarrow> OcservSettings \<times> world" where
  "new_OcservSettings dns1 dns2 mtu tlsUseFile certificateFile keyFile certificate key
     caCert ocservUsers clientToClient crossInbound ipRanges userLimit userLimitStrategy w =
     (let (ocservUsers, w) = one_new (new_OcservUser no_user_args) ocservUsers w
      in (\<lparr>oc_dns1 = dflt dns1 (JStr ''8.8.8.8''),
           oc_dns2 = dflt dns2 (JStr ''8.8.4.4''),
           oc_mtu = dflt mtu (jint 1420),
           oc_tlsUseFile = dflt tlsUseFile (JBool False),
           oc_certificateFile = dflt certificateFile (JStr ''''),
           oc_keyFile = dflt keyFile (JStr ''''),
           oc_certificate = dflt certificate (JStr ''''),
           oc_key = dflt key (JStr ''''),
           oc_caCert = dflt caCert (JStr ''''),
           oc_ocservUsers = ocservUsers,
           oc_clientToClient = dflt clientToClient (JBool False),
           oc_crossInbound = dflt crossInbound (JBool False),
           oc_ipRanges = dflt ipRanges (JArr []),
           oc_userLimit = dflt userLimit (jint 0),
           oc_userLimitStrategy = dflt userLimitStrategy (JStr ''accept'')\<rparr>, w))"

definition OcservSettings_fromJson :: "jsv \<Rightarrow> world \<Rightarrow> (OcservSettings \<times> world) option" where
  "OcservSettings_fromJson json w =
     (let json = dflt json (JObj []) in
      do {
           dns1 \<leftarrow> js_get json ''dns1'';
           dns2 \<leftarrow> js_get json ''dns2'';
           mtu \<leftarrow> js_get json ''mtu'';
           tlsUseFile \<leftarrow> js_get json ''tlsUseFile'';
           certificateFile \<leftarrow> js_get json ''certificateFile'';
           keyFile \<leftarrow> js_get json ''keyFile'';
           certificate \<leftarrow> js_get json ''certificate'';
           key \<leftarrow> js_get json ''key'';
           caCert \<leftarrow> js_get json ''caCert'';
           clients \<leftarrow> js_get json ''clients'';
           clientToClient \<leftarrow> js_get json ''clientToClient'';
           crossInbound \<leftarrow> js_get json ''crossInbound'';
           ipRanges \<leftarrow> js_get json ''ipRanges'';
           userLimit \<leftarrow> js_get json ''userLimit'';
           userLimitStrategy \<leftarrow> js_get json ''userLimitStrategy'';
           (users, w) \<leftarrow> OcservUser_fromJson clients w;
           Some (new_OcservSettings
             (nullish dns1 (JStr ''8.8.8.8'')) (nullish dns2 (JStr ''8.8.4.4'')) (nullish mtu (jint 1420))
             (nullish tlsUseFile (JBool False)) (nullish certificateFile (JStr '''')) (nullish keyFile (JStr ''''))
             (nullish certificate (JStr '''')) (nullish key (JStr '''')) (nullish caCert (JStr ''''))
             (Some users) (nullish clientToClient (JBool False)) (nullish crossInbound (JBool False))
             (slice_or_empty ipRanges) (nullish userLimit (jint 1)) (nullish userLimitStrategy (JStr ''accept'')) w) })"

definition OcservSettings_toJson :: "OcservSettings \<Rightarrow> jsv option" where
  "OcservSettings_toJson x =
     do { clients \<leftarrow> OcservUser_toJsonArray (oc_ocservUsers x);
          Some (JObj
            [(''dns1'', oc_dns1 x),
             (''dns2'', oc_dns2 x),
             (''mtu'', oc_mtu x),
             (''tlsUseFile'', oc_tlsUseFile x),
             (''certificateFile'', oc_certificateFile x),
             (''keyFile'', oc_keyFile x),
             (''certificate'', oc_certificate x),
             (''key'', oc_key x),
             (''caCert'', oc_caCert x),
             (''clients'', clients),
             (''clientToClient'', oc_clientToClient x),
             (''crossInbound'', oc_crossInbound x),
             (''ipRanges'', js_or (oc_ipRanges x) (JArr [])),
             (''userLimit'', oc_userLimit x),
             (''userLimitStrategy'', oc_userLimitStrategy x)]) }"

definition OcservSettings_ok :: "OcservSettings \<Rightarrow> bool" where
  "OcservSettings_ok x \<longleftrightarrow>
     set_field (oc_dns1 x) \<and> set_field (oc_dns2 x) \<and> set_field (oc_mtu x) \<and>
     set_field (oc_tlsUseFile x) \<and> set_field (oc_certificateFile x) \<and> set_field (oc_keyFile x) \<and>
     set_field (oc_certificate x) \<and> set_field (oc_key x) \<and> set_field (oc_caCert x) \<and>
     list_all L2tpUser_ok (oc_ocservUsers x) \<and> set_field (oc_clientToClient x) \<and> set_field (oc_crossInbound x) \<and>
     array_ok (oc_ipRanges x) \<and> set_field (oc_userLimit x) \<and> set_field (oc_userLimitStrategy x)"

lemma OcservSettings_roundtrip:
  assumes "OcservSettings_ok x"
  shows "\<exists>v. OcservSettings_toJson x = Some v \<and> v \<noteq> JUndef \<and> (\<forall>w. OcservSettings_fromJson (wire v) w = Some (x, w))"
proof -
  note ok = assms [unfolded OcservSettings_ok_def]
  obtain cs where cs: "L2tpUser_toJsonArray (oc_ocservUsers x) = Some cs" "cs \<noteq> JUndef"
    "\<forall>w. L2tpUser_fromJson (wire cs) w = Some (oc_ocservUsers x, w)"
    using users_loaded ok by blast
  have r: "wire (oc_ipRanges x) = oc_ipRanges x" "slice_or_empty (oc_ipRanges x) = oc_ipRanges x" "is_array (oc_ipRanges x)"
    "js_or (oc_ipRanges x) (JArr []) = oc_ipRanges x"
    using ok by (simp_all add: array_ok_saved)
  let ?kvs = "[(''dns1'', oc_dns1 x), (''dns2'', oc_dns2 x), (''mtu'', oc_mtu x),
    (''tlsUseFile'', oc_tlsUseFile x), (''certificateFile'', oc_certificateFile x), (''keyFile'', oc_keyFile x),
    (''certificate'', oc_certificate x), (''key'', oc_key x), (''caCert'', oc_caCert x),
    (''clients'', cs), (''clientToClient'', oc_clientToClient x), (''crossInbound'', oc_crossInbound x),
    (''ipRanges'', oc_ipRanges x), (''userLimit'', oc_userLimit x), (''userLimitStrategy'', oc_userLimitStrategy x)]"
  have e: "OcservSettings_toJson x = Some (JObj ?kvs)"
    by (simp add: OcservSettings_toJson_def same_user_class cs(1) r)
  have g: "js_get (wire (JObj ?kvs)) k = Some (wire (look ?kvs k))" for k by (rule js_get_wire) simp
  have l: "look ?kvs ''dns1'' = oc_dns1 x"
    "look ?kvs ''dns2'' = oc_dns2 x"
    "look ?kvs ''mtu'' = oc_mtu x"
    "look ?kvs ''tlsUseFile'' = oc_tlsUseFile x"
    "look ?kvs ''certificateFile'' = oc_certificateFile x"
    "look ?kvs ''keyFile'' = oc_keyFile x"
    "look ?kvs ''certificate'' = oc_certificate x"
    "look ?kvs ''key'' = oc_key x"
    "look ?kvs ''caCert'' = oc_caCert x"
    "look ?kvs ''clients'' = cs"
    "look ?kvs ''clientToClient'' = oc_clientToClient x"
    "look ?kvs ''crossInbound'' = oc_crossInbound x"
    "look ?kvs ''ipRanges'' = oc_ipRanges x"
    "look ?kvs ''userLimit'' = oc_userLimit x"
    "look ?kvs ''userLimitStrategy'' = oc_userLimitStrategy x"
    by simp_all
  have wi: "wire (oc_dns1 x) = oc_dns1 x" "oc_dns1 x \<noteq> JUndef"
    "wire (oc_dns2 x) = oc_dns2 x" "oc_dns2 x \<noteq> JUndef"
    "wire (oc_mtu x) = oc_mtu x" "oc_mtu x \<noteq> JUndef"
    "wire (oc_tlsUseFile x) = oc_tlsUseFile x" "oc_tlsUseFile x \<noteq> JUndef"
    "wire (oc_certificateFile x) = oc_certificateFile x" "oc_certificateFile x \<noteq> JUndef"
    "wire (oc_keyFile x) = oc_keyFile x" "oc_keyFile x \<noteq> JUndef"
    "wire (oc_certificate x) = oc_certificate x" "oc_certificate x \<noteq> JUndef"
    "wire (oc_key x) = oc_key x" "oc_key x \<noteq> JUndef"
    "wire (oc_caCert x) = oc_caCert x" "oc_caCert x \<noteq> JUndef"
    "wire (oc_clientToClient x) = oc_clientToClient x" "oc_clientToClient x \<noteq> JUndef"
    "wire (oc_crossInbound x) = oc_crossInbound x" "oc_crossInbound x \<noteq> JUndef"
    "wire (oc_userLimit x) = oc_userLimit x" "oc_userLimit x \<noteq> JUndef"
    "wire (oc_userLimitStrategy x) = oc_userLimitStrategy x" "oc_userLimitStrategy x \<noteq> JUndef"
    using ok by (simp_all add: field_ok_def)
  have nu: "nullish (oc_dns1 x) d = oc_dns1 x"
    "nullish (oc_dns2 x) d = oc_dns2 x"
    "nullish (oc_mtu x) d = oc_mtu x"
    "nullish (oc_tlsUseFile x) d = oc_tlsUseFile x"
    "nullish (oc_certificateFile x) d = oc_certificateFile x"
    "nullish (oc_keyFile x) d = oc_keyFile x"
    "nullish (oc_certificate x) d = oc_certificate x"
    "nullish (oc_key x) d = oc_key x"
    "nullish (oc_caCert x) d = oc_caCert x"
    "nullish (oc_clientToClient x) d = oc_clientToClient x"
    "nullish (oc_crossInbound x) d = oc_crossInbound x"
    "nullish (oc_userLimit x) d = oc_userLimit x"
    "nullish (oc_userLimitStrategy x) d = oc_userLimitStrategy x" for d
    using ok by simp_all
  have j: "dflt (wire (JObj ?kvs)) (JObj []) = wire (JObj ?kvs)" by simp
  have nd: "oc_ipRanges x \<noteq> JUndef"
    using r by auto
  have u: "JUndef = wire JUndef" by simp
  have "OcservSettings_fromJson (wire (JObj ?kvs)) w = Some (x, w)" for w
    unfolding OcservSettings_fromJson_def Let_def j g l bind.bind_lunit wi r nu same_user_class cs(3) [rule_format]
      new_OcservSettings_def
    using wi nd r by (cases x) simp
  with e show ?thesis by blast
qed

interpretation ocs_codec: world_codec OcservSettings_toJson OcservSettings_fromJson OcservSettings_ok
  by (rule world_codecI) (rule OcservSettings_roundtrip)

section \<open>Inbound.SstpSettings\<close>

record SstpSettings =
  sp_dns1 :: jsv
  sp_dns2 :: jsv
  sp_mtu :: jsv
  sp_tlsUseFile :: jsv
  sp_certificateFile :: jsv
  sp_keyFile :: jsv
  sp_certificate :: jsv
  sp_key :: jsv
  sp_caCert :: jsv
  sp_sstpUsers :: "L2tpUser list"
  sp_clientToClient :: jsv
  sp_crossInbound :: jsv
  sp_ipRanges :: jsv
  sp_userLimit :: jsv
  sp_userLimitStrategy :: jsv

definition new_SstpSettings ::
  "jsv \<Rightarrow> jsv \<Rightarrow> jsv \<Rightarrow> jsv \<Rightarrow> jsv \<Rightarrow> jsv \<Rightarrow> jsv \<Rightarrow> jsv \<Rightarrow>
   jsv \<Rightarrow> L2tpUser list option \<Rightarrow> jsv \<Rightarrow> jsv \<Rightarrow> jsv \<Rightarrow> jsv \<Rightarrow> jsv \<Rightarrow> world \<Rightarrow> SstpSettings \<times> world" where
  "new_SstpSettings dns1 dns2 mtu tlsUseFile certificateFile keyFile certificate key
     caCert sstpUsers clientToClient crossInbound ipRanges userLimit userLimitStrategy w =
     (let (sstpUsers, w) = one_new (new_SstpUser no_user_args) sstpUsers w
      in (\<lparr>sp_dns1 = dflt dns1 (JStr ''8.8.8.8''),
           sp_dns2 = dflt dns2 (JStr ''8.8.4.4''),
           sp_mtu = dflt mtu (jint 1420),
           sp_tlsUseFile = dflt tlsUseFile (JBool False),
           sp_certificateFile = dflt certificateFile (JStr ''''),
           sp_keyFile = dflt keyFile (JStr ''''),
           sp_certificate = dflt certificate (JStr ''''),
           sp_key = dflt key (JStr ''''),
           sp_caCert = dflt caCert (JStr ''''),
           sp_sstpUsers = sstpUsers,
           sp_clientToClient = dflt clientToClient (JBool False),
           sp_crossInbound = dflt crossInbound (JBool False),
           sp_ipRanges = dflt ipRanges (JArr []),
           sp_userLimit = dflt userLimit (jint 0),
           sp_userLimitStrategy = dflt userLimitStrategy (JStr ''accept'')\<rparr>, w))"

definition SstpSettings_fromJson :: "jsv \<Rightarrow> world \<Rightarrow> (SstpSettings \<times> world) option" where
  "SstpSettings_fromJson json w =
     (let json = dflt json (JObj []) in
      do {
           dns1 \<leftarrow> js_get json ''dns1'';
           dns2 \<leftarrow> js_get json ''dns2'';
           mtu \<leftarrow> js_get json ''mtu'';
           tlsUseFile \<leftarrow> js_get json ''tlsUseFile'';
           certificateFile \<leftarrow> js_get json ''certificateFile'';
           keyFile \<leftarrow> js_get json ''keyFile'';
           certificate \<leftarrow> js_get json ''certificate'';
           key \<leftarrow> js_get json ''key'';
           caCert \<leftarrow> js_get json ''caCert'';
           clients \<leftarrow> js_get json ''clients'';
           clientToClient \<leftarrow> js_get json ''clientToClient'';
           crossInbound \<leftarrow> js_get json ''crossInbound'';
           ipRanges \<leftarrow> js_get json ''ipRanges'';
           userLimit \<leftarrow> js_get json ''userLimit'';
           userLimitStrategy \<leftarrow> js_get json ''userLimitStrategy'';
           (users, w) \<leftarrow> SstpUser_fromJson clients w;
           Some (new_SstpSettings
             (nullish dns1 (JStr ''8.8.8.8'')) (nullish dns2 (JStr ''8.8.4.4'')) (nullish mtu (jint 1420))
             (nullish tlsUseFile (JBool False)) (nullish certificateFile (JStr '''')) (nullish keyFile (JStr ''''))
             (nullish certificate (JStr '''')) (nullish key (JStr '''')) (nullish caCert (JStr ''''))
             (Some users) (nullish clientToClient (JBool False)) (nullish crossInbound (JBool False))
             (slice_or_empty ipRanges) (nullish userLimit (jint 1)) (nullish userLimitStrategy (JStr ''accept'')) w) })"

definition SstpSettings_toJson :: "SstpSettings \<Rightarrow> jsv option" where
  "SstpSettings_toJson x =
     do { clients \<leftarrow> SstpUser_toJsonArray (sp_sstpUsers x);
          Some (JObj
            [(''dns1'', sp_dns1 x),
             (''dns2'', sp_dns2 x),
             (''mtu'', sp_mtu x),
             (''tlsUseFile'', sp_tlsUseFile x),
             (''certificateFile'', sp_certificateFile x),
             (''keyFile'', sp_keyFile x),
             (''certificate'', sp_certificate x),
             (''key'', sp_key x),
             (''caCert'', sp_caCert x),
             (''clients'', clients),
             (''clientToClient'', sp_clientToClient x),
             (''crossInbound'', sp_crossInbound x),
             (''ipRanges'', js_or (sp_ipRanges x) (JArr [])),
             (''userLimit'', sp_userLimit x),
             (''userLimitStrategy'', sp_userLimitStrategy x)]) }"

definition SstpSettings_ok :: "SstpSettings \<Rightarrow> bool" where
  "SstpSettings_ok x \<longleftrightarrow>
     set_field (sp_dns1 x) \<and> set_field (sp_dns2 x) \<and> set_field (sp_mtu x) \<and>
     set_field (sp_tlsUseFile x) \<and> set_field (sp_certificateFile x) \<and> set_field (sp_keyFile x) \<and>
     set_field (sp_certificate x) \<and> set_field (sp_key x) \<and> set_field (sp_caCert x) \<and>
     list_all L2tpUser_ok (sp_sstpUsers x) \<and> set_field (sp_clientToClient x) \<and> set_field (sp_crossInbound x) \<and>
     array_ok (sp_ipRanges x) \<and> set_field (sp_userLimit x) \<and> set_field (sp_userLimitStrategy x)"

lemma SstpSettings_roundtrip:
  assumes "SstpSettings_ok x"
  shows "\<exists>v. SstpSettings_toJson x = Some v \<and> v \<noteq> JUndef \<and> (\<forall>w. SstpSettings_fromJson (wire v) w = Some (x, w))"
proof -
  note ok = assms [unfolded SstpSettings_ok_def]
  obtain cs where cs: "L2tpUser_toJsonArray (sp_sstpUsers x) = Some cs" "cs \<noteq> JUndef"
    "\<forall>w. L2tpUser_fromJson (wire cs) w = Some (sp_sstpUsers x, w)"
    using users_loaded ok by blast
  have r: "wire (sp_ipRanges x) = sp_ipRanges x" "slice_or_empty (sp_ipRanges x) = sp_ipRanges x" "is_array (sp_ipRanges x)"
    "js_or (sp_ipRanges x) (JArr []) = sp_ipRanges x"
    using ok by (simp_all add: array_ok_saved)
  let ?kvs = "[(''dns1'', sp_dns1 x), (''dns2'', sp_dns2 x), (''mtu'', sp_mtu x),
    (''tlsUseFile'', sp_tlsUseFile x), (''certificateFile'', sp_certificateFile x), (''keyFile'', sp_keyFile x),
    (''certificate'', sp_certificate x), (''key'', sp_key x), (''caCert'', sp_caCert x),
    (''clients'', cs), (''clientToClient'', sp_clientToClient x), (''crossInbound'', sp_crossInbound x),
    (''ipRanges'', sp_ipRanges x), (''userLimit'', sp_userLimit x), (''userLimitStrategy'', sp_userLimitStrategy x)]"
  have e: "SstpSettings_toJson x = Some (JObj ?kvs)"
    by (simp add: SstpSettings_toJson_def same_user_class cs(1) r)
  have g: "js_get (wire (JObj ?kvs)) k = Some (wire (look ?kvs k))" for k by (rule js_get_wire) simp
  have l: "look ?kvs ''dns1'' = sp_dns1 x"
    "look ?kvs ''dns2'' = sp_dns2 x"
    "look ?kvs ''mtu'' = sp_mtu x"
    "look ?kvs ''tlsUseFile'' = sp_tlsUseFile x"
    "look ?kvs ''certificateFile'' = sp_certificateFile x"
    "look ?kvs ''keyFile'' = sp_keyFile x"
    "look ?kvs ''certificate'' = sp_certificate x"
    "look ?kvs ''key'' = sp_key x"
    "look ?kvs ''caCert'' = sp_caCert x"
    "look ?kvs ''clients'' = cs"
    "look ?kvs ''clientToClient'' = sp_clientToClient x"
    "look ?kvs ''crossInbound'' = sp_crossInbound x"
    "look ?kvs ''ipRanges'' = sp_ipRanges x"
    "look ?kvs ''userLimit'' = sp_userLimit x"
    "look ?kvs ''userLimitStrategy'' = sp_userLimitStrategy x"
    by simp_all
  have wi: "wire (sp_dns1 x) = sp_dns1 x" "sp_dns1 x \<noteq> JUndef"
    "wire (sp_dns2 x) = sp_dns2 x" "sp_dns2 x \<noteq> JUndef"
    "wire (sp_mtu x) = sp_mtu x" "sp_mtu x \<noteq> JUndef"
    "wire (sp_tlsUseFile x) = sp_tlsUseFile x" "sp_tlsUseFile x \<noteq> JUndef"
    "wire (sp_certificateFile x) = sp_certificateFile x" "sp_certificateFile x \<noteq> JUndef"
    "wire (sp_keyFile x) = sp_keyFile x" "sp_keyFile x \<noteq> JUndef"
    "wire (sp_certificate x) = sp_certificate x" "sp_certificate x \<noteq> JUndef"
    "wire (sp_key x) = sp_key x" "sp_key x \<noteq> JUndef"
    "wire (sp_caCert x) = sp_caCert x" "sp_caCert x \<noteq> JUndef"
    "wire (sp_clientToClient x) = sp_clientToClient x" "sp_clientToClient x \<noteq> JUndef"
    "wire (sp_crossInbound x) = sp_crossInbound x" "sp_crossInbound x \<noteq> JUndef"
    "wire (sp_userLimit x) = sp_userLimit x" "sp_userLimit x \<noteq> JUndef"
    "wire (sp_userLimitStrategy x) = sp_userLimitStrategy x" "sp_userLimitStrategy x \<noteq> JUndef"
    using ok by (simp_all add: field_ok_def)
  have nu: "nullish (sp_dns1 x) d = sp_dns1 x"
    "nullish (sp_dns2 x) d = sp_dns2 x"
    "nullish (sp_mtu x) d = sp_mtu x"
    "nullish (sp_tlsUseFile x) d = sp_tlsUseFile x"
    "nullish (sp_certificateFile x) d = sp_certificateFile x"
    "nullish (sp_keyFile x) d = sp_keyFile x"
    "nullish (sp_certificate x) d = sp_certificate x"
    "nullish (sp_key x) d = sp_key x"
    "nullish (sp_caCert x) d = sp_caCert x"
    "nullish (sp_clientToClient x) d = sp_clientToClient x"
    "nullish (sp_crossInbound x) d = sp_crossInbound x"
    "nullish (sp_userLimit x) d = sp_userLimit x"
    "nullish (sp_userLimitStrategy x) d = sp_userLimitStrategy x" for d
    using ok by simp_all
  have j: "dflt (wire (JObj ?kvs)) (JObj []) = wire (JObj ?kvs)" by simp
  have nd: "sp_ipRanges x \<noteq> JUndef"
    using r by auto
  have u: "JUndef = wire JUndef" by simp
  have "SstpSettings_fromJson (wire (JObj ?kvs)) w = Some (x, w)" for w
    unfolding SstpSettings_fromJson_def Let_def j g l bind.bind_lunit wi r nu same_user_class cs(3) [rule_format]
      new_SstpSettings_def
    using wi nd r by (cases x) simp
  with e show ?thesis by blast
qed

interpretation sps_codec: world_codec SstpSettings_toJson SstpSettings_fromJson SstpSettings_ok
  by (rule world_codecI) (rule SstpSettings_roundtrip)

section \<open>Cipher modes as sets\<close>

definition mode_preset :: "string \<Rightarrow> string list" where
  "mode_preset mode = the (map_of CIPHER_MODES mode)"

definition chosen_ciphers :: "jsv list \<Rightarrow> string set" where
  "chosen_ciphers vs = {c \<in> set ALL_CIPHERS. JStr c \<in> set vs}"

lemma preset_facts:
  "list_all (\<lambda>(mode, preset). preset = filter (\<lambda>c. c \<in> set preset) ALL_CIPHERS \<and> preset \<noteq> [] \<and>
     mode_preset mode = preset) CIPHER_MODES"
  by code_simp

lemma cipher_names: "list_all (\<lambda>c. CHR '':'' \<notin> set c \<and> c \<noteq> []) ALL_CIPHERS"
  by code_simp

lemma join_inject:
  assumes "\<And>x. x \<in> set xs \<union> set ys \<Longrightarrow> c \<notin> set x \<and> x \<noteq> []"
  shows "join [c] xs = join [c] ys \<longleftrightarrow> xs = ys"
proof
  assume j: "join [c] xs = join [c] ys"
  have inv: "split_on c (join [c] zs) = zs" if "zs \<noteq> []" "set zs \<subseteq> set xs \<union> set ys" for zs
    using that assms by (intro split_join) auto
  have nil: "zs = []" if "join [c] zs = []" "set zs \<subseteq> set xs \<union> set ys" for zs
  proof (rule ccontr)
    assume "zs \<noteq> []"
    with inv [of zs] that have "zs = [[]]" by simp
    with that(2) assms show False by auto
  qed
  show "xs = ys"
  proof (cases "xs = [] \<or> ys = []")
    case True
    with nil [of xs] nil [of ys] j show ?thesis by auto
  next
    case False
    then have "split_on c (join [c] xs) = xs" "split_on c (join [c] ys) = ys" using inv by auto
    with j show ?thesis by metis
  qed
qed simp

lemma filter_eq_iff: "filter P xs = filter Q xs \<longleftrightarrow> set (filter P xs) = set (filter Q xs)"
proof
  assume "set (filter P xs) = set (filter Q xs)"
  then have "P x = Q x" if "x \<in> set xs" for x using that by (auto simp: set_eq_iff)
  then show "filter P xs = filter Q xs" by (intro filter_cong) simp_all
qed simp

lemma preset_chosen:
  assumes "(mode, preset) \<in> set CIPHER_MODES"
  shows "join '':'' preset = join '':'' (filter (includes_str (JArr vs)) ALL_CIPHERS) \<longleftrightarrow>
    chosen_ciphers vs = set (mode_preset mode)"
proof -
  have "(\<lambda>(mode, preset). preset = filter (\<lambda>c. c \<in> set preset) ALL_CIPHERS \<and> preset \<noteq> [] \<and>
      mode_preset mode = preset) (mode, preset)"
    using preset_facts assms unfolding list_all_iff by (rule bspec)
  then have p: "preset = filter (\<lambda>c. c \<in> set preset) ALL_CIPHERS" "mode_preset mode = preset"
    unfolding case_prod_conv by blast+
  have names: "c \<in> set ALL_CIPHERS \<Longrightarrow> CHR '':'' \<notin> set c \<and> c \<noteq> []" for c
    using cipher_names unfolding list_all_iff by blast
  have "set preset \<subseteq> set ALL_CIPHERS" by (subst p(1)) (simp only: filter_is_subset)
  then have sub: "x \<in> set preset \<union> set (filter Q ALL_CIPHERS) \<Longrightarrow> x \<in> set ALL_CIPHERS" for x Q
    by auto
  have "join '':'' preset = join '':'' (filter (includes_str (JArr vs)) ALL_CIPHERS) \<longleftrightarrow>
      preset = filter (includes_str (JArr vs)) ALL_CIPHERS"
    by (rule join_inject) (rule names, erule sub)
  also have "\<dots> \<longleftrightarrow> filter (\<lambda>c. c \<in> set preset) ALL_CIPHERS = filter (includes_str (JArr vs)) ALL_CIPHERS"
    by (simp only: p(1) [symmetric])
  also have "\<dots> \<longleftrightarrow> set (filter (\<lambda>c. c \<in> set preset) ALL_CIPHERS) = set (filter (includes_str (JArr vs)) ALL_CIPHERS)"
    by (rule filter_eq_iff)
  also have "\<dots> \<longleftrightarrow> set preset = chosen_ciphers vs"
    unfolding p(1) [symmetric] by (simp add: chosen_ciphers_def)
  finally show ?thesis by (auto simp: p(2))
qed

text \<open>
  C16: the cipher mode an OpenVPN inbound shows depends only on which known ciphers are selected.
  \<open>detectCipherMode\<close> compares joined strings, and its answer is that of comparing sets: a preset
  mode exactly when the known ciphers in the list are those of the preset, in whatever order,
  repeated or mixed with unknown names, and custom otherwise.
\<close>
theorem detectCipherMode_sets:
  "detectCipherMode (JArr vs) =
     (if chosen_ciphers vs = set (mode_preset ''new'') then ''new''
      else if chosen_ciphers vs = set (mode_preset ''old'') then ''old''
      else if chosen_ciphers vs = set (mode_preset ''all'') then ''all''
      else ''custom'')"
proof -
  have m: "(''new'', mode_preset ''new'') \<in> set CIPHER_MODES" "(''old'', mode_preset ''old'') \<in> set CIPHER_MODES"
    "(''all'', mode_preset ''all'') \<in> set CIPHER_MODES"
    and l: "CIPHER_MODES = [(''new'', mode_preset ''new''), (''old'', mode_preset ''old''), (''all'', mode_preset ''all'')]"
    by (simp_all add: mode_preset_def CIPHER_MODES_def)
  show ?thesis
    unfolding detectCipherMode_def by (subst l) (simp add: preset_chosen [OF m(1)] preset_chosen [OF m(2)] preset_chosen [OF m(3)])
qed

lemma kept_filter:
  "mapM keep_range vs = Some ks \<Longrightarrow> map snd (filter fst (zip ks vs)) = filter range_row vs"
proof (induction vs arbitrary: ks)
  case (Cons v vs)
  have "keep_range v = Some b \<Longrightarrow> b = range_row v" for b by (cases v) (auto split: if_splits)
  with Cons show ?case by (auto split: bind_splits)
qed simp

lemma keep_range_throws: "keep_range v = None \<longleftrightarrow> truthy v \<and> \<not> is_string v"
  by (cases v) auto

lemma users_sent: "\<exists>v. L2tpUser_toJsonArray us = Some v"
  using mapM_Some_map [of us "\<lambda>u. Some (L2tpUser_toJson u)" id L2tpUser_toJson]
  by (simp add: L2tpUser_toJsonArray_def toJsonArray_def)

lemma sent_rows:
  "sent_ranges (JArr vs) = (if \<exists>v \<in> set vs. truthy v \<and> \<not> is_string v then None else Some (JArr (filter range_row vs)))"
proof (cases "mapM keep_range vs")
  case None
  then show ?thesis using mapM_None_iff [of keep_range vs] by (simp add: keep_range_throws)
next
  case (Some ks)
  have "\<not> (\<exists>v \<in> set vs. keep_range v = None)"
    using Some mapM_None_iff [of keep_range vs] by simp
  then show ?thesis using Some kept_filter [OF Some] by (simp add: keep_range_throws)
qed

text \<open>
  C31: what becomes of the rows of address ranges when the settings of a VPN inbound are saved. L2TP and PPTP drop
  the rows that are blank or falsy (null and undefined included): they send the other rows, in their order,
  which come back as they are when they are loaded, and saving throws exactly when some row is a
  truthy value that is no string. OpenVPN, ocserv and SSTP do not filter: they never throw and send every row, blank ones
  included.
\<close>
theorem sent_ranges_rows:
  "let rows = JArr vs; kept = JArr (filter range_row vs);
       result = (if \<exists>v \<in> set vs. truthy v \<and> \<not> is_string v then None else Some kept);
       sent = map_option (\<lambda>json. js_get_opt json ''ipRanges'')
   in sent (L2tpSettings_toJson (l\<lparr>l2_ipRanges := rows\<rparr>)) = result \<and>
      sent (PptpSettings_toJson (p\<lparr>pp_ipRanges := rows\<rparr>)) = result \<and>
      load_ranges (wire kept) JUndef = kept \<and>
      sent (OpenvpnSettings_toJson (ov\<lparr>ov_ipRanges := rows\<rparr>)) = Some rows \<and>
      sent (OcservSettings_toJson (oc\<lparr>oc_ipRanges := rows\<rparr>)) = Some rows \<and>
      sent (SstpSettings_toJson (sp\<lparr>sp_ipRanges := rows\<rparr>)) = Some rows"
proof -
  have u: "\<And>us. \<exists>v. L2tpUser_toJsonArray us = Some v" by (rule users_sent)
  obtain vl where "L2tpUser_toJsonArray (l2_l2tpUsers l) = Some vl" using u by blast
  moreover obtain vp where "L2tpUser_toJsonArray (pp_pptpUsers p) = Some vp" using u by blast
  moreover obtain vo where "L2tpUser_toJsonArray (ov_openvpnUsers ov) = Some vo" using u by blast
  moreover obtain vc where "L2tpUser_toJsonArray (oc_ocservUsers oc) = Some vc" using u by blast
  moreover obtain vs' where "L2tpUser_toJsonArray (sp_sstpUsers sp) = Some vs'" using u by blast
  moreover have ok: "ranges_ok (JArr (filter range_row vs))" by (simp add: list_all_iff)
  moreover have "load_ranges (wire (JArr (filter range_row vs))) JUndef = JArr (filter range_row vs)"
    using ranges_saved(2) [OF ok] load_ranges_saved [OF ok] by simp
  ultimately show ?thesis
    by (simp add: L2tpSettings_toJson_def PptpSettings_toJson_def OpenvpnSettings_toJson_def OcservSettings_toJson_def
        SstpSettings_toJson_def PptpUser_toJsonArray_def OpenvpnUser_toJsonArray_def OcservUser_toJsonArray_def
        SstpUser_toJsonArray_def sent_rows js_or_def Let_def del: sent_ranges.simps)
qed

end
