(* ===== verification/Wireguard.thy ===== *)
theory Wireguard
  imports JsInt
begin

text \<open>
  The class Wireguard of web/assets/js/util/index.js: the Curve25519 arithmetic with
  which the panel derives a WireGuard public key from a private key in the browser.
  A field element is a \<open>Float64Array(16)\<close> of limbs in radix 2^16, here a list of sixteen
  integers; every arithmetic operation on limbs goes through \<open>dbl\<close>, so a limb that left
  the exact range of a double would be rounded in the model as it is in the browser.
\<close>

section \<open>Field elements\<close>

type_synonym fe = "int list"

definition gf :: "int list \<Rightarrow> fe" where
  "gf init = init @ replicate (16 - length init) 0"

definition carry_step :: "fe \<Rightarrow> nat \<Rightarrow> fe" where
  "carry_step x i =
     (let k = (i + 1) mod 16;
          y = x[k := dbl (x ! k + dbl ((if i < 15 then 1 else 38) * (x ! i div 65536)))]
      in y[i := i32_and (y ! i) 65535])"

definition carry :: "fe \<Rightarrow> fe" where
  "carry x = foldl carry_step x [0..<16]"

definition cswap_limb :: "int \<Rightarrow> int \<Rightarrow> int \<Rightarrow> int \<times> int" where
  "cswap_limb c x y = (let t = i32_and c (i32_xor x y) in (i32_xor x t, i32_xor y t))"

definition cswap :: "fe \<Rightarrow> fe \<Rightarrow> int \<Rightarrow> fe \<times> fe" where
  "cswap p q b =
     (let c = i32_not (b - 1); r = map2 (cswap_limb c) p q in (map fst r, map snd r))"

definition fadd :: "fe \<Rightarrow> fe \<Rightarrow> fe" where
  "fadd a b = map2 (\<lambda>x y. to_int32 (dbl (x + y))) a b"

definition fsub :: "fe \<Rightarrow> fe \<Rightarrow> fe" where
  "fsub a b = map2 (\<lambda>x y. to_int32 (dbl (x - y))) a b"

definition mul_row :: "fe \<Rightarrow> fe \<Rightarrow> nat \<Rightarrow> int list \<Rightarrow> nat \<Rightarrow> int list" where
  "mul_row a b i t j = t[i + j := dbl (t ! (i + j) + dbl (a ! i * b ! j))]"

definition mul_acc :: "fe \<Rightarrow> fe \<Rightarrow> int list" where
  "mul_acc a b =
     foldl (\<lambda>t i. foldl (mul_row a b i) t [0..<16]) (replicate 31 0) [0..<16]"

definition mul_fold :: "int list \<Rightarrow> int list" where
  "mul_fold t = foldl (\<lambda>t i. t[i := dbl (t ! i + dbl (38 * t ! (i + 16)))]) t [0..<15]"

definition multmod :: "fe \<Rightarrow> fe \<Rightarrow> fe" where
  "multmod a b = carry (carry (take 16 (mul_fold (mul_acc a b))))"

definition invert_step :: "fe \<Rightarrow> fe \<Rightarrow> nat \<Rightarrow> fe" where
  "invert_step i c a =
     (let c = multmod c c in if a \<noteq> 2 \<and> a \<noteq> 4 then multmod c i else c)"

definition invert :: "fe \<Rightarrow> fe" where
  "invert i = foldl (invert_step i) i (rev [0..<254])"

section \<open>Canonical bytes\<close>

text \<open>
  \<open>pack\<close> writes 32 bytes: three carries, two rounds that subtract the prime when it fits,
  and the limbs split into low and high byte. Each round is \<open>pack_round\<close> on the pair of the
  arrays \<open>t\<close> and \<open>m\<close>; \<open>m\<close> keeps its contents from one round to the next.
\<close>

definition pack_sub :: "fe \<Rightarrow> fe \<Rightarrow> nat \<Rightarrow> fe" where
  "pack_sub t m i =
     (let m = m[i := dbl (dbl (t ! i - 0xffff) - i32_and (i32_shr (m ! (i - 1)) 16) 1)]
      in m[i - 1 := i32_and (m ! (i - 1)) 0xffff])"

definition pack_round :: "fe \<times> fe \<Rightarrow> fe \<times> fe" where
  "pack_round tm =
     (let t = fst tm;
          m = (snd tm)[0 := dbl (t ! 0 - 0xffed)];
          m = foldl (pack_sub t) m [1..<15];
          m = m[15 := dbl (dbl (t ! 15 - 0x7fff) - i32_and (i32_shr (m ! 14) 16) 1)];
          b = i32_and (i32_shr (m ! 15) 16) 1;
          m = m[14 := i32_and (m ! 14) 0xffff]
      in cswap t m (1 - b))"

definition pack :: "fe \<Rightarrow> int list" where
  "pack n =
     (let t = carry (carry (carry n));
          t = fst (pack_round (pack_round (t, gf [])))
      in concat (map (\<lambda>x. [to_u8 (i32_and x 0xff), to_u8 (i32_shr x 8)]) t))"

section \<open>The key derivation as the code writes it\<close>

definition clamp :: "int list \<Rightarrow> int list" where
  "clamp z =
     (let z = z[31 := to_u8 (i32_or (i32_and (z ! 31) 127) 64)]
      in z[0 := to_u8 (i32_and (z ! 0) 248)])"

definition key_bit :: "int list \<Rightarrow> nat \<Rightarrow> int" where
  "key_bit z i = i32_and (u32_shr (z ! drop_bit 3 i) (i AND 7)) 1"

definition fe_121665 :: fe where "fe_121665 = gf [0xdb41, 1]"

definition fe_9 :: fe where "fe_9 = gf [9]"

type_synonym ladder_state = "fe \<times> fe \<times> fe \<times> fe"

text \<open>The loop body: two conditional swaps, eighteen field operations, the swaps again.\<close>

definition ladder_arith :: "ladder_state \<Rightarrow> ladder_state" where
  "ladder_arith s =
     (let (a, b, c, d) = s;
          e = fadd a c;
          a = fsub a c;
          c = fadd b d;
          b = fsub b d;
          d = multmod e e;
          f = multmod a a;
          a = multmod c a;
          c = multmod b e;
          e = fadd a c;
          a = fsub a c;
          b = multmod a a;
          c = fsub d f;
          a = multmod c fe_121665;
          a = fadd a d;
          c = multmod c a;
          a = multmod d f;
          d = multmod b fe_9;
          b = multmod e e
      in (a, b, c, d))"

definition ladder_swap :: "int \<Rightarrow> ladder_state \<Rightarrow> ladder_state" where
  "ladder_swap r s =
     (let (a, b, c, d) = s;
          (a, b) = cswap a b r;
          (c, d) = cswap c d r
      in (a, b, c, d))"

definition ladder_step :: "int list \<Rightarrow> ladder_state \<Rightarrow> nat \<Rightarrow> ladder_state" where
  "ladder_step z s i =
     (let r = key_bit z i in ladder_swap r (ladder_arith (ladder_swap r s)))"

definition generatePublicKey :: "int list \<Rightarrow> int list" where
  "generatePublicKey privateKey =
     (let z = clamp (map (\<lambda>i. if i < length privateKey then to_u8 (privateKey ! i) else 0) [0..<32]);
          (a, b, c, d) = foldl (ladder_step z) (gf [1], gf [9], gf [], gf [1]) (rev [0..<255]);
          c = invert c;
          a = multmod a c
      in pack a)"

end
