(* ===== verification/WgLimbs.thy ===== *)
theory WgLimbs
  imports Wireguard
begin

text \<open>
  Limb vectors as integers: the value \<open>limbs_val\<close> in radix 2^16, the carries \<open>cin\<close> that run
  through \<open>carry\<close>, the reduction classes \<open>loose\<close>, \<open>tight\<close> and \<open>canonical\<close>, and the exact effect
  of one carry pass.
\<close>

text \<open>The value of a limb vector in radix 65536.\<close>

fun limbs_val :: "int list \<Rightarrow> int" where
  "limbs_val [] = 0"
| "limbs_val (x # xs) = x + 65536 * limbs_val xs"

lemma limbs_val_sum: "limbs_val xs = (\<Sum>i<length xs. xs ! i * 65536 ^ i)"
proof (induction xs)
  case (Cons x xs)
  have "(\<Sum>i<length (x # xs). (x # xs) ! i * 65536 ^ i) =
        x + (\<Sum>i<length xs. xs ! i * 65536 ^ Suc i)"
    by (simp add: sum.lessThan_Suc_shift del: sum.lessThan_Suc)
  with Cons show ?case by (simp add: sum_distrib_left mult_ac)
qed simp

primrec cin :: "int list \<Rightarrow> nat \<Rightarrow> int" where
  "cin x 0 = 0"
| "cin x (Suc n) = (x ! n + cin x n) div 65536"

definition carry_exact :: "int list \<Rightarrow> bool" where
  "carry_exact x \<longleftrightarrow> length x = 16 \<and> (\<forall>n<16. \<bar>x ! n + cin x n\<bar> \<le> 2 ^ 52)"

lemma carry_exact_cin: "carry_exact x \<Longrightarrow> n < 16 \<Longrightarrow> \<bar>cin x (Suc n)\<bar> \<le> 2 ^ 37"
proof -
  assume "carry_exact x" "n < 16"
  then have "\<bar>x ! n + cin x n\<bar> \<le> 2 ^ 52" by (simp add: carry_exact_def)
  then show ?thesis by (simp add: abs_le_iff) linarith
qed

lemma limbs_val_16: "length x = 16 \<Longrightarrow> limbs_val x = (\<Sum>i<16. x ! i * 65536 ^ i)"
  by (simp add: limbs_val_sum)

text \<open>The last carry is what the value has above 2^256.\<close>

lemma cin_telescope:
  "(\<Sum>j<n. ((x ! j + cin x j) mod 65536) * 65536 ^ j) =
   (\<Sum>j<n. x ! j * 65536 ^ j) - cin x n * 65536 ^ n"
proof (induction n)
  case (Suc n)
  have "(x ! n + cin x n) mod 65536 = x ! n + cin x n - 65536 * cin x (Suc n)"
    by (simp add: minus_div_mult_eq_mod [symmetric])
  then have "(x ! n + cin x n) mod 65536 * 65536 ^ n =
      x ! n * 65536 ^ n + cin x n * 65536 ^ n - cin x (Suc n) * 65536 ^ Suc n"
    by (simp only: left_diff_distrib distrib_right power_Suc mult.assoc)
  with Suc show ?case
    by (simp del: cin.simps(2) power_Suc)
qed simp

lemma cin_mod_sum_range:
  "0 \<le> (\<Sum>j<n. ((x ! j + cin x j) mod 65536) * 65536 ^ j)"
  "(\<Sum>j<n. ((x ! j + cin x j) mod 65536) * 65536 ^ j) < 65536 ^ n"
proof -
  show "0 \<le> (\<Sum>j<n. ((x ! j + cin x j) mod 65536) * 65536 ^ j)"
    by (intro sum_nonneg) simp
  show "(\<Sum>j<n. ((x ! j + cin x j) mod 65536) * 65536 ^ j) < 65536 ^ n"
  proof (induction n)
    case (Suc n)
    have "(x ! n + cin x n) mod 65536 \<le> 65535"
      using pos_mod_bound [of 65536 "x ! n + cin x n"] by linarith
    then have "((x ! n + cin x n) mod 65536) * 65536 ^ n \<le> 65535 * 65536 ^ n"
      by (intro mult_right_mono) auto
    with Suc show ?case by (simp only: sum.lessThan_Suc power_Suc)
  qed simp
qed

lemma cin_16: "length x = 16 \<Longrightarrow> cin x 16 = limbs_val x div 65536 ^ 16"
proof -
  let ?m = "\<Sum>j<16. ((x ! j + cin x j) mod 65536) * 65536 ^ j"
  assume "length x = 16"
  then have "limbs_val x = ?m + 65536 ^ 16 * cin x 16"
    using cin_telescope [of x 16] by (simp add: limbs_val_16 mult.commute)
  moreover have "?m div 65536 ^ 16 = 0"
    using cin_mod_sum_range [of x 16] by (intro div_pos_pos_trivial)
  ultimately show ?thesis
    by (simp only: div_mult_self2) simp
qed

lemma carry_prefix:
  assumes ex: "carry_exact x" and "n \<le> 15"
  shows "foldl carry_step x [0..<n] =
    map (\<lambda>j. if j < n then (x ! j + cin x j) mod 65536 else if j = n then x ! j + cin x j else x ! j) [0..<16]"
  using \<open>n \<le> 15\<close>
proof (induction n)
  case 0
  from ex have "length x = 16" by (simp add: carry_exact_def)
  then show ?case by (auto intro!: nth_equalityI)
next
  case (Suc n)
  let ?y = "map (\<lambda>j. if j < n then (x ! j + cin x j) mod 65536 else if j = n then x ! j + cin x j else x ! j) [0..<16]"
  from Suc have IH: "foldl carry_step x [0..<n] = ?y" and n: "n < 15" by auto
  from ex n have "\<bar>x ! Suc n + cin x (Suc n)\<bar> \<le> 2 ^ 52" 
    by (simp add: carry_exact_def del: cin.simps(2))
  moreover from ex n have "\<bar>cin x (Suc n)\<bar> \<le> 2 ^ 37" by (intro carry_exact_cin) auto
  ultimately have d: "dbl (x ! Suc n + dbl (cin x (Suc n))) = x ! Suc n + cin x (Suc n)"
    by (simp add: dbl_exact del: cin.simps(2))
  have "foldl carry_step x [0..<Suc n] = carry_step ?y n"
    by (simp add: IH)
  also have "\<dots> = ?y[Suc n := x ! Suc n + cin x (Suc n), n := (x ! n + cin x n) mod 65536]"
    using n d by (simp add: carry_step_def limb_simps)
  also have "\<dots> = map (\<lambda>j. if j < Suc n then (x ! j + cin x j) mod 65536
      else if j = Suc n then x ! j + cin x j else x ! j) [0..<16]"
    using n by (intro nth_equalityI) (auto simp: nth_list_update nth_append simp del: cin.simps(2))
  finally show ?case .
qed

lemma carry_closed:
  assumes ex: "carry_exact x"
  shows "carry x = map (\<lambda>j. (x ! j + cin x j) mod 65536 + (if j = 0 then 38 * cin x 16 else 0)) [0..<16]"
proof -
  let ?y = "map (\<lambda>j. if j < 15 then (x ! j + cin x j) mod 65536 else if j = 15 then x ! j + cin x j else x ! j) [0..<16]"
  have c16: "\<bar>cin x 16\<bar> \<le> 2 ^ 37"
    using carry_exact_cin [OF ex, of 15] by (simp del: cin.simps(2))
  then have "dbl (38 * cin x 16) = 38 * cin x 16"
    by (intro dbl_exact) (simp add: abs_mult)
  moreover have "\<bar>m + 38 * c\<bar> \<le> 2 ^ 53" if "0 \<le> m" "m < 65536" "\<bar>c\<bar> \<le> 2 ^ 37" for m c :: int
    using that by simp
  then have "\<bar>x ! 0 mod 65536 + 38 * cin x 16\<bar> \<le> 2 ^ 53"
    using c16 by simp
  ultimately have d: "dbl (x ! 0 mod 65536 + dbl (38 * cin x 16)) = x ! 0 mod 65536 + 38 * cin x 16"
    by (simp add: dbl_exact)
  have q: "(x ! 15 + cin x 15) div 65536 = cin x 16"
    using cin.simps(2) [of x 15] by (simp del: cin.simps(2))
  have "[0..<16] = [0..<15] @ [15::nat]"
    using upt_Suc_append [of 0 15] by simp
  then have "carry x = carry_step (foldl carry_step x [0..<15]) 15"
    by (simp add: carry_def del: upt.simps)
  also have "\<dots> = carry_step ?y 15"
    by (simp add: carry_prefix [OF ex])
  also have "\<dots> = ?y[0 := x ! 0 mod 65536 + 38 * cin x 16, 15 := (x ! 15 + cin x 15) mod 65536]"
    using d by (simp add: carry_step_def limb_simps q)
  also have "\<dots> = map (\<lambda>j. (x ! j + cin x j) mod 65536 + (if j = 0 then 38 * cin x 16 else 0)) [0..<16]"
    by (intro nth_equalityI) (auto simp: nth_list_update nth_append simp del: cin.simps(2))
  finally show ?thesis .
qed

lemma length_carry: "carry_exact x \<Longrightarrow> length (carry x) = 16"
  by (simp add: carry_closed)

lemma carry_val:
  assumes "carry_exact x"
  shows "limbs_val (carry x) = limbs_val x - (65536 ^ 16 - 38) * (limbs_val x div 65536 ^ 16)"
proof -
  have len: "length x = 16" using assms by (simp add: carry_exact_def)
  have "limbs_val (carry x) = (\<Sum>j<16. carry x ! j * 65536 ^ j)"
    by (simp add: limbs_val_16 length_carry [OF assms])
  also have "\<dots> = (\<Sum>j<16. (x ! j + cin x j) mod 65536 * 65536 ^ j + (if j = 0 then 38 * cin x 16 else 0))"
    by (intro sum.cong) (auto simp: carry_closed [OF assms] simp del: cin.simps(2))
  also have "\<dots> = (\<Sum>j<16. (x ! j + cin x j) mod 65536 * 65536 ^ j) + 38 * cin x 16"
    by (simp add: sum.distrib del: sum.lessThan_Suc)
  also have "\<dots> = limbs_val x - cin x 16 * 65536 ^ 16 + 38 * cin x 16"
    by (simp only: cin_telescope limbs_val_16 [OF len])
  finally show ?thesis
    by (simp only: cin_16 [OF len] algebra_simps)
qed

definition loose :: "fe \<Rightarrow> bool" where
  "loose x \<longleftrightarrow> length x = 16 \<and> (\<forall>i<16. \<bar>x ! i\<bar> \<le> 2 ^ 18)"

definition tight :: "fe \<Rightarrow> bool" where
  "tight x \<longleftrightarrow> length x = 16 \<and> -38 \<le> x ! 0 \<and> x ! 0 \<le> 65573 \<and>
     (\<forall>i \<in> {1..<16}. 0 \<le> x ! i \<and> x ! i \<le> 65535)"

lemma tight_loose: "tight x \<Longrightarrow> loose x"
proof -
  assume t: "tight x"
  have "\<bar>x ! i\<bar> \<le> 2 ^ 18" if "i < 16" for i
  proof (cases "i = 0")
    case True
    with t show ?thesis by (auto simp: tight_def abs_le_iff)
  next
    case False
    with t that have "0 \<le> x ! i \<and> x ! i \<le> 65535" by (simp add: tight_def)
    then show ?thesis by simp
  qed
  with t show ?thesis by (simp add: loose_def tight_def)
qed

lemma cin_bound:
  assumes "\<forall>i<16. \<bar>x ! i\<bar> \<le> 2 ^ 50" and "n \<le> 16"
  shows "\<bar>cin x n\<bar> \<le> 2 ^ 35"
  using \<open>n \<le> 16\<close>
proof (induction n)
  case (Suc n)
  then have "\<bar>cin x n\<bar> \<le> 2 ^ 35" by simp
  moreover have "\<bar>x ! n\<bar> \<le> 2 ^ 50" using assms Suc by simp
  ultimately show ?case by (simp add: abs_le_iff) linarith
qed simp

lemma carry_exactI:
  assumes "length x = 16" and "\<forall>i<16. \<bar>x ! i\<bar> \<le> 2 ^ 50"
  shows "carry_exact x"
  unfolding carry_exact_def
proof (intro conjI allI impI)
  fix n :: nat assume "n < 16"
  then have "\<bar>cin x n\<bar> \<le> 2 ^ 35" "\<bar>x ! n\<bar> \<le> 2 ^ 50"
    using assms cin_bound [of x n] by auto
  then show "\<bar>x ! n + cin x n\<bar> \<le> 2 ^ 52" by simp
qed (rule assms)

definition canonical :: "int list \<Rightarrow> bool" where
  "canonical xs \<longleftrightarrow> (\<forall>x \<in> set xs. 0 \<le> x \<and> x < 65536)"

lemma canonical_range:
  "canonical xs \<Longrightarrow> 0 \<le> limbs_val xs \<and> limbs_val xs < 65536 ^ length xs"
proof (induction xs)
  case (Cons x xs)
  then have "0 \<le> limbs_val xs" "limbs_val xs \<le> 65536 ^ length xs - 1" "0 \<le> x" "x \<le> 65535"
    by (auto simp: canonical_def)
  then show ?case by simp
qed simp

text \<open>A vector whose limbs above the first are canonical: its value, up to the first limb.\<close>

lemma val_from_first:
  assumes "length x = 16" and "\<forall>i \<in> {1..<16}. 0 \<le> x ! i \<and> x ! i \<le> 65535"
  shows "x ! 0 \<le> limbs_val x" "limbs_val x \<le> x ! 0 + 65536 ^ 16 - 65536"
proof -
  obtain y ys where x: "x = y # ys" using assms(1) by (cases x) auto
  have "0 \<le> ys ! j \<and> ys ! j \<le> 65535" if "j < length ys" for j
    using assms(2) [rule_format, of "Suc j"] assms(1) that by (simp add: x)
  then have "canonical ys"
    by (force simp: canonical_def in_set_conv_nth)
  then have "0 \<le> limbs_val ys" "limbs_val ys \<le> 65536 ^ 15 - 1"
    using canonical_range [of ys] assms(1) by (auto simp: x)
  then show "x ! 0 \<le> limbs_val x" "limbs_val x \<le> x ! 0 + 65536 ^ 16 - 65536"
    by (simp_all add: x)
qed

text \<open>One carry from limbs of up to 50 bits, then a second one.\<close>

lemma carry_upper:
  assumes "carry_exact x" "i \<in> {1..<16}"
  shows "0 \<le> carry x ! i" "carry x ! i \<le> 65535"
  using assms pos_mod_bound [of 65536 "x ! i + cin x i"]
  by (auto simp: carry_closed simp del: cin.simps(2))

lemma carry_first:
  assumes "carry_exact x"
  shows "carry x ! 0 = x ! 0 mod 65536 + 38 * cin x 16"
  using assms by (simp add: carry_closed del: cin.simps(2))

lemma carry_carry_tight:
  assumes "length x = 16" and b: "\<forall>i<16. \<bar>x ! i\<bar> \<le> 2 ^ 50"
  shows "tight (carry (carry x))"
    and "\<exists>k. limbs_val (carry (carry x)) = limbs_val x - (65536 ^ 16 - 38) * k"
proof -
  let ?y = "carry x"
  have ex: "carry_exact x" using assms by (rule carry_exactI)
  have c: "\<bar>cin x 16\<bar> \<le> 2 ^ 35" using cin_bound [OF b, of 16] by simp
  have y0: "\<bar>?y ! 0\<bar> \<le> 2 ^ 42"
  proof -
    have "\<bar>m + 38 * c\<bar> \<le> 2 ^ 42" if "0 \<le> m" "m < 65536" "\<bar>c\<bar> \<le> 2 ^ 35" for m c :: int
      using that by simp
    then show ?thesis using c by (simp add: carry_first [OF ex])
  qed
  have up: "\<forall>i \<in> {1..<16}. 0 \<le> ?y ! i \<and> ?y ! i \<le> 65535"
    using carry_upper [OF ex] by blast
  have "\<bar>?y ! i\<bar> \<le> 2 ^ 50" if "i < 16" for i
  proof (cases "i = 0")
    case True
    with y0 show ?thesis by simp
  next
    case False
    with up that have "0 \<le> ?y ! i \<and> ?y ! i \<le> 65535" by simp
    then show ?thesis by simp
  qed
  then have ey: "carry_exact ?y" by (intro carry_exactI) (simp_all add: length_carry [OF ex])
  have "limbs_val ?y div 65536 ^ 16 \<in> {-1, 0, 1}"
  proof -
    have "- (2 ^ 42) \<le> limbs_val ?y" "limbs_val ?y \<le> 2 ^ 42 + 65536 ^ 16 - 65536"
      using val_from_first [OF length_carry [OF ex] up] y0 by linarith+
    then show ?thesis by simp linarith
  qed
  then have "cin ?y 16 \<in> {-1, 0, 1}"
    using cin_16 [of ?y] length_carry [OF ex] by simp
  moreover have "0 \<le> ?y ! 0 mod 65536" "?y ! 0 mod 65536 < 65536" by simp_all
  ultimately have "-38 \<le> carry ?y ! 0 \<and> carry ?y ! 0 \<le> 65573"
    unfolding carry_first [OF ey] by auto
  then show "tight (carry ?y)"
    using carry_upper [OF ey] by (simp add: tight_def length_carry [OF ey])
  show "\<exists>k. limbs_val (carry ?y) = limbs_val x - (65536 ^ 16 - 38) * k"
    using carry_val [OF ex] carry_val [OF ey]
    by (intro exI [of _ "limbs_val x div 65536 ^ 16 + limbs_val ?y div 65536 ^ 16"])
       (simp only: algebra_simps)
qed

end
