(* ===== verification/WgMul.thy ===== *)
theory WgMul
  imports WgLimbs
begin

text \<open>
  The product: the accumulation of the sixteen rows, the fold of the upper half by 38, and the
  two carry passes, with the bounds that keep every intermediate limb an exact double.
\<close>

lemma loose_prod: "loose a \<Longrightarrow> loose b \<Longrightarrow> i < 16 \<Longrightarrow> j < 16 \<Longrightarrow> \<bar>a ! i * b ! j\<bar> \<le> 2 ^ 36"
proof -
  assume "loose a" "loose b" "i < 16" "j < 16"
  then have "\<bar>a ! i\<bar> * \<bar>b ! j\<bar> \<le> 2 ^ 18 * 2 ^ 18"
    by (intro mult_mono) (auto simp: loose_def)
  then show ?thesis by (simp add: abs_mult)
qed

text \<open>The row i of the schoolbook product, in column k.\<close>

definition mul_term :: "fe \<Rightarrow> fe \<Rightarrow> nat \<Rightarrow> nat \<Rightarrow> int" where
  "mul_term a b i k = (if i \<le> k \<and> k < i + 16 then a ! i * b ! (k - i) else 0)"

lemma mul_term_bound:
  "loose a \<Longrightarrow> loose b \<Longrightarrow> i < 16 \<Longrightarrow> \<bar>mul_term a b i k\<bar> \<le> 2 ^ 36"
  using loose_prod [of a b i "k - i"] by (auto simp: mul_term_def)

lemma mul_row_fold:
  assumes ab: "loose a" "loose b" and "i < 16" "n \<le> 16"
    and len: "length t = 31" and bnd: "\<forall>k<31. \<bar>t ! k\<bar> \<le> 2 ^ 45"
  shows "foldl (mul_row a b i) t [0..<n] =
    map (\<lambda>k. t ! k + (if k < i + n then mul_term a b i k else 0)) [0..<31]"
  using \<open>n \<le> 16\<close>
proof (induction n)
  case 0
  show ?case using len by (intro nth_equalityI) (auto simp: mul_term_def)
next
  case (Suc n)
  let ?u = "map (\<lambda>k. t ! k + (if k < i + n then mul_term a b i k else 0)) [0..<31]"
  from Suc have IH: "foldl (mul_row a b i) t [0..<n] = ?u" and n: "n < 16" by auto
  have p: "\<bar>a ! i * b ! n\<bar> \<le> 2 ^ 36" using ab \<open>i < 16\<close> n by (rule loose_prod)
  have t: "\<bar>t ! (i + n)\<bar> \<le> 2 ^ 45" using bnd \<open>i < 16\<close> n by simp
  have "dbl (t ! (i + n) + dbl (a ! i * b ! n)) = t ! (i + n) + a ! i * b ! n"
    using p t by (simp add: dbl_exact)
  then have "foldl (mul_row a b i) t [0..<Suc n] = ?u[i + n := t ! (i + n) + a ! i * b ! n]"
    using \<open>i < 16\<close> n by (simp add: IH mul_row_def)
  also have "\<dots> = map (\<lambda>k. t ! k + (if k < i + Suc n then mul_term a b i k else 0)) [0..<31]"
    using n \<open>i < 16\<close> by (intro nth_equalityI) (auto simp: nth_list_update mul_term_def)
  finally show ?case .
qed

lemma sum_bound: 
  assumes "\<forall>i<n. \<bar>f i\<bar> \<le> (c :: int)"
  shows "\<bar>\<Sum>i<n. f i\<bar> \<le> int n * c"
  using assms
proof (induction n)
  case (Suc n)
  then have "\<bar>\<Sum>i<n. f i\<bar> \<le> int n * c" "\<bar>f n\<bar> \<le> c" by auto
  then show ?case by (simp add: algebra_simps)
qed simp

lemma mul_acc_rows:
  assumes ab: "loose a" "loose b" and "m \<le> 16"
  shows "foldl (\<lambda>t i. foldl (mul_row a b i) t [0..<16]) (replicate 31 0) [0..<m] =
    map (\<lambda>k. \<Sum>i<m. mul_term a b i k) [0..<31]"
  using \<open>m \<le> 16\<close>
proof (induction m)
  case 0
  show ?case by (intro nth_equalityI) auto
next
  case (Suc m)
  let ?t = "map (\<lambda>k. \<Sum>i<m. mul_term a b i k) [0..<31]"
  have "\<bar>\<Sum>i<m. mul_term a b i k\<bar> \<le> 2 ^ 45" for k
  proof -
    have "\<bar>\<Sum>i<m. mul_term a b i k\<bar> \<le> int m * 2 ^ 36"
      using ab Suc by (intro sum_bound allI impI mul_term_bound) auto
    also have "\<dots> \<le> 16 * 2 ^ 36" using Suc by (intro mult_right_mono) auto
    finally show ?thesis by simp
  qed
  then have "foldl (mul_row a b m) ?t [0..<16] =
      map (\<lambda>k. ?t ! k + (if k < m + 16 then mul_term a b m k else 0)) [0..<31]"
    using ab Suc by (intro mul_row_fold) auto
  also have "\<dots> = map (\<lambda>k. \<Sum>i<Suc m. mul_term a b i k) [0..<31]"
    by (intro nth_equalityI) (auto simp: mul_term_def)
  finally show ?case using Suc by simp
qed

lemma mul_acc_closed:
  "loose a \<Longrightarrow> loose b \<Longrightarrow> mul_acc a b = map (\<lambda>k. \<Sum>i<16. mul_term a b i k) [0..<31]"
  unfolding mul_acc_def by (rule mul_acc_rows) auto

lemma mul_acc_bound:
  assumes "loose a" "loose b" "k < 31"
  shows "\<bar>mul_acc a b ! k\<bar> \<le> 2 ^ 40"
proof -
  have "\<bar>\<Sum>i<16. mul_term a b i k\<bar> \<le> int 16 * 2 ^ 36"
    using assms by (intro sum_bound allI impI mul_term_bound) auto
  with assms show ?thesis by (simp add: mul_acc_closed del: sum.lessThan_Suc)
qed

lemma mul_term_column:
  assumes "i < 16"
  shows "(\<Sum>k<31. mul_term a b i k * 65536 ^ k) = a ! i * 65536 ^ i * (\<Sum>j<16. b ! j * 65536 ^ j)"
proof -
  have "(\<Sum>k<31. mul_term a b i k * 65536 ^ k) = (\<Sum>k\<in>{i..<i+16}. a ! i * b ! (k - i) * 65536 ^ k)"
    using assms by (intro sum.mono_neutral_cong_right) (auto simp: mul_term_def)
  also have "\<dots> = (\<Sum>j<16. a ! i * b ! j * 65536 ^ (i + j))"
    by (rule sum.reindex_bij_witness [where i = "\<lambda>j. i + j" and j = "\<lambda>k. k - i"]) auto
  also have "\<dots> = a ! i * 65536 ^ i * (\<Sum>j<16. b ! j * 65536 ^ j)"
    unfolding sum_distrib_left by (intro sum.cong) (simp_all add: power_add mult_ac)
  finally show ?thesis .
qed

lemma mul_acc_val:
  assumes "loose a" "loose b"
  shows "limbs_val (mul_acc a b) = limbs_val a * limbs_val b"
proof -
  have la: "length a = 16" "length b = 16" using assms by (simp_all add: loose_def)
  have "limbs_val (mul_acc a b) = (\<Sum>k<31. (\<Sum>i<16. mul_term a b i k) * 65536 ^ k)"
    unfolding limbs_val_sum using assms by (simp add: mul_acc_closed del: sum.lessThan_Suc)
  also have "\<dots> = (\<Sum>i<16. \<Sum>k<31. mul_term a b i k * 65536 ^ k)"
    unfolding sum_distrib_right by (rule sum.swap)
  also have "\<dots> = (\<Sum>i<16. a ! i * 65536 ^ i * limbs_val b)"
    by (intro sum.cong refl) (simp add: mul_term_column limbs_val_16 [OF la(2)] del: sum.lessThan_Suc)
  also have "\<dots> = limbs_val a * limbs_val b"
    by (simp only: limbs_val_16 [OF la(1)] sum_distrib_right)
  finally show ?thesis .
qed

lemma mul_fold_closed:
  assumes "length t = 31" and bnd: "\<forall>k<31. \<bar>t ! k\<bar> \<le> 2 ^ 40" and "n \<le> 15"
  shows "foldl (\<lambda>t i. t[i := dbl (t ! i + dbl (38 * t ! (i + 16)))]) t [0..<n] =
    map (\<lambda>k. if k < n then t ! k + 38 * t ! (k + 16) else t ! k) [0..<31]"
  using \<open>n \<le> 15\<close>
proof (induction n)
  case 0
  show ?case using assms by (intro nth_equalityI) auto
next
  case (Suc n)
  have "\<bar>t ! n\<bar> \<le> 2 ^ 40" "\<bar>t ! (n + 16)\<bar> \<le> 2 ^ 40" using bnd Suc by simp_all
  then have "dbl (38 * t ! (n + 16)) = 38 * t ! (n + 16)"
    "\<bar>t ! n + 38 * t ! (n + 16)\<bar> \<le> 2 ^ 53"
    by (simp_all add: dbl_exact abs_mult)
  with Suc show ?case
    by (intro nth_equalityI) (auto simp: nth_list_update dbl_exact)
qed

lemma mul_fold_val:
  assumes "length t = 31" and bnd: "\<forall>k<31. \<bar>t ! k\<bar> \<le> 2 ^ 40"
  shows "limbs_val (take 16 (mul_fold t)) =
      limbs_val t - (65536 ^ 16 - 38) * (\<Sum>k<15. t ! (k + 16) * 65536 ^ k)"
    and "length (take 16 (mul_fold t)) = 16"
    and "\<forall>k<16. \<bar>take 16 (mul_fold t) ! k\<bar> \<le> 2 ^ 46"
proof -
  have f: "mul_fold t = map (\<lambda>k. if k < 15 then t ! k + 38 * t ! (k + 16) else t ! k) [0..<31]"
    unfolding mul_fold_def using assms by (intro mul_fold_closed) auto
  show len: "length (take 16 (mul_fold t)) = 16" by (simp add: f)
  show "\<forall>k<16. \<bar>take 16 (mul_fold t) ! k\<bar> \<le> 2 ^ 46"
  proof (intro allI impI)
    fix k :: nat assume "k < 16"
    then have "\<bar>t ! k\<bar> \<le> 2 ^ 40" "k < 15 \<Longrightarrow> \<bar>t ! (k + 16)\<bar> \<le> 2 ^ 40" using bnd by simp_all
    moreover have "\<bar>x + 38 * y\<bar> \<le> 2 ^ 46" if "\<bar>x\<bar> \<le> 2 ^ 40" "\<bar>y\<bar> \<le> 2 ^ 40" for x y :: int
      using that by simp
    ultimately show "\<bar>take 16 (mul_fold t) ! k\<bar> \<le> 2 ^ 46"
      using \<open>k < 16\<close> by (auto simp: f)
  qed
  have hi: "(\<Sum>k<31. t ! k * 65536 ^ k) =
      (\<Sum>k<16. t ! k * 65536 ^ k) + 65536 ^ 16 * (\<Sum>k<15. t ! (k + 16) * 65536 ^ k)"
  proof -
    have "(\<Sum>k<31. t ! k * 65536 ^ k) = (\<Sum>k<16. t ! k * 65536 ^ k) + (\<Sum>k\<in>{16..<31}. t ! k * 65536 ^ k)"
      by (subst sum.union_disjoint [symmetric]) (auto intro!: sum.cong)
    moreover have "(\<Sum>k\<in>{16..<31}. t ! k * 65536 ^ k) = (\<Sum>k<15. t ! (k + 16) * 65536 ^ (k + 16))"
      by (rule sum.reindex_bij_witness [where i = "\<lambda>k. k + 16" and j = "\<lambda>k. k - 16"]) auto
    ultimately show ?thesis
      by (simp only: sum_distrib_left power_add mult_ac)
  qed
  have "limbs_val (take 16 (mul_fold t)) = (\<Sum>k<16. take 16 (mul_fold t) ! k * 65536 ^ k)"
    by (rule limbs_val_16 [OF len])
  also have "\<dots> = (\<Sum>k<16. t ! k * 65536 ^ k + (if k < 15 then 38 * (t ! (k + 16) * 65536 ^ k) else 0))"
    by (intro sum.cong) (auto simp: f algebra_simps)
  also have "\<dots> = (\<Sum>k<16. t ! k * 65536 ^ k) + 38 * (\<Sum>k<15. t ! (k + 16) * 65536 ^ k)"
  proof -
    have "(\<Sum>k<16. if k < 15 then 38 * (t ! (k + 16) * 65536 ^ k) else 0) =
        (\<Sum>k<15. 38 * (t ! (k + 16) * 65536 ^ k))"
      by (rule sum.mono_neutral_cong_right) auto
    then show ?thesis by (simp only: sum.distrib sum_distrib_left)
  qed
  finally show "limbs_val (take 16 (mul_fold t)) =
      limbs_val t - (65536 ^ 16 - 38) * (\<Sum>k<15. t ! (k + 16) * 65536 ^ k)"
    using hi assms(1) by (simp only: limbs_val_sum algebra_simps)
qed

definition p25519 :: int where "p25519 = 2 ^ 255 - 19"

lemma two_p: "65536 ^ 16 - 38 = 2 * p25519"
  by (simp add: p25519_def)

lemma multmod_correct:
  assumes "loose a" "loose b"
  shows "tight (multmod a b)" "limbs_val (multmod a b) mod p25519 = (limbs_val a * limbs_val b) mod p25519"
proof -
  let ?t = "mul_acc a b"
  let ?u = "take 16 (mul_fold ?t)"
  have len: "length ?t = 31" using assms by (simp add: mul_acc_closed)
  have bnd: "\<forall>k<31. \<bar>?t ! k\<bar> \<le> 2 ^ 40" using assms mul_acc_bound by blast
  note u = mul_fold_val [OF len bnd]
  have u50: "\<forall>k<16. \<bar>?u ! k\<bar> \<le> 2 ^ 50" using u(3) by force
  show "tight (multmod a b)" unfolding multmod_def by (rule carry_carry_tight [OF u(2) u50])
  obtain k where "limbs_val (multmod a b) = limbs_val ?u - (65536 ^ 16 - 38) * k"
    using carry_carry_tight(2) [OF u(2) u50] by (auto simp: multmod_def)
  then have "limbs_val (multmod a b) =
      limbs_val a * limbs_val b - p25519 * (2 * (\<Sum>k<15. ?t ! (k + 16) * 65536 ^ k) + 2 * k)"
    unfolding u(1) mul_acc_val [OF assms] two_p by (simp only: algebra_simps)
  then show "limbs_val (multmod a b) mod p25519 = (limbs_val a * limbs_val b) mod p25519"
    by (simp only: mod_eq_dvd_iff) simp
qed

end
