(* ===== verification/WgField.thy ===== *)
theory WgField
  imports WgMul
begin

text \<open>
  Inversion by the fixed chain of 254 squarings, the constant-time swap, addition and
  subtraction.
\<close>

section \<open>invert\<close>

definition invert_exp_step :: "nat \<Rightarrow> nat \<Rightarrow> nat" where
  "invert_exp_step e a = (if a \<noteq> 2 \<and> a \<noteq> 4 then 2 * e + 1 else 2 * e)"

lemma mod_sq: "(x :: int) mod p = y mod p \<Longrightarrow> (x * x) mod p = (y * y) mod p"
  by (rule mod_mult_cong)

lemma invert_fold:
  assumes "tight i" and "tight c" and "limbs_val c mod p25519 = limbs_val i ^ e mod p25519"
  shows "tight (foldl (invert_step i) c as) \<and>
    limbs_val (foldl (invert_step i) c as) mod p25519 =
      limbs_val i ^ foldl invert_exp_step e as mod p25519"
  using assms(2,3)
proof (induction as arbitrary: c e)
  case (Cons a as)
  let ?s = "multmod c c"
  have s: "tight ?s" "limbs_val ?s mod p25519 = limbs_val i ^ (2 * e) mod p25519"
    using multmod_correct [OF tight_loose tight_loose, OF Cons.prems(1) Cons.prems(1)]
      mod_sq [OF Cons.prems(2)] by (simp_all add: mult_2 power_add)
  have m: "tight (multmod ?s i)" "limbs_val (multmod ?s i) mod p25519 = limbs_val i ^ (2 * e + 1) mod p25519"
    using multmod_correct [OF tight_loose tight_loose, OF s(1) assms(1)]
      mod_mult_cong [OF s(2) refl, of "limbs_val i"] by (simp_all add: mult.commute)
  have "tight (invert_step i c a)"
    "limbs_val (invert_step i c a) mod p25519 = limbs_val i ^ invert_exp_step e a mod p25519"
    using s m by (auto simp: invert_step_def invert_exp_step_def Let_def)
  then show ?case using Cons.IH by simp
qed simp

lemma invert_exp_ones:
  "foldl invert_exp_step e (rev [5..<5 + m]) + 1 = (e + 1) * 2 ^ m"
proof (induction m arbitrary: e)
  case (Suc m)
  have "[5..<5 + Suc m] = [5..<5 + m] @ [5 + m]"
    by (simp only: add_Suc_right upt_Suc_append le_add1)
  then have "foldl invert_exp_step e (rev [5..<5 + Suc m]) =
      foldl invert_exp_step (invert_exp_step e (5 + m)) (rev [5..<5 + m])" by simp
  also have "invert_exp_step e (5 + m) = 2 * e + 1" by (simp add: invert_exp_step_def)
  finally show ?case using Suc [of "2 * e + 1"] by (simp only:) (simp add: algebra_simps)
qed simp

lemma invert_exp: "foldl invert_exp_step 1 (rev [0..<254]) = 2 ^ 255 - 21"
proof -
  have "[0..<254] = [0..<5] @ [5..<5 + 249]"
    using upt_add_eq_append [of 0 5 249] by simp
  moreover have "rev [0..<5] = [4, 3, 2, 1, 0 :: nat]" by (simp add: upt_rec)
  ultimately have "foldl invert_exp_step 1 (rev [0..<254]) =
      foldl invert_exp_step (foldl invert_exp_step 1 (rev [5..<5 + 249])) [4, 3, 2, 1, 0]"
    by (simp only: rev_append foldl_append)
  also have "\<dots> = 32 * foldl invert_exp_step 1 (rev [5..<5 + 249]) + 11"
    by (simp add: invert_exp_step_def del: upt.simps)
  also have "foldl invert_exp_step 1 (rev [5..<5 + 249]) = 2 ^ 250 - 1"
    using invert_exp_ones [of 1 249] by (simp del: upt.simps)
  finally show ?thesis by simp
qed

lemma invert_correct:
  assumes "tight i"
  shows "tight (invert i)"
    and "limbs_val (invert i) mod p25519 = limbs_val i ^ nat (p25519 - 2) mod p25519"
  using invert_fold [OF assms assms, of 1 "rev [0..<254]"]
  by (simp_all add: invert_def invert_exp [unfolded One_nat_def] p25519_def del: upt.simps)

section \<open>Conditional swap, addition, subtraction\<close>

lemma xor_range:
  assumes "\<bar>x\<bar> \<le> 2 ^ 18" "\<bar>y\<bar> \<le> 2 ^ 18"
  shows "to_int32 (x XOR y) = x XOR y"
proof -
  have "signed_take_bit 31 (x XOR y) = signed_take_bit 31 x XOR signed_take_bit 31 y"
    by (rule bit_eqI) (simp add: bit_simps)
  with assms show ?thesis by (simp add: to_int32_def signed_take_bit_int_eq_self abs_le_iff)
qed

lemma small_int32: "\<bar>x\<bar> \<le> 2 ^ 18 \<Longrightarrow> to_int32 x = x"
  by (rule to_int32_id) (simp_all add: abs_le_iff)

lemma int32_consts [simp]: "to_int32 0 = 0" "to_int32 (- 1) = - 1"
  by (simp_all add: to_int32_def)

lemma cswap_limb_1:
  assumes "\<bar>x\<bar> \<le> 2 ^ 18" "\<bar>y\<bar> \<le> 2 ^ 18"
  shows "cswap_limb (i32_not 0) x y = (y, x)"
proof -
  have t: "i32_and (i32_not 0) (i32_xor x y) = x XOR y"
    using assms by (simp add: i32_not_def i32_and_def i32_xor_def xor_range small_int32)
  have "x XOR (x XOR y) = y" by (simp add: xor.assoc [symmetric])
  moreover have "y XOR (x XOR y) = x" by (simp add: xor.left_commute)
  ultimately show ?thesis
    using assms unfolding cswap_limb_def t Let_def by (simp add: i32_xor_def xor_range small_int32)
qed

lemma cswap_limb_0:
  assumes "\<bar>x\<bar> \<le> 2 ^ 18" "\<bar>y\<bar> \<le> 2 ^ 18"
  shows "cswap_limb (i32_not (-1)) x y = (x, y)"
  using assms by (simp add: cswap_limb_def Let_def i32_not_def i32_and_def i32_xor_def small_int32)

lemma map2_pair:
  assumes "length p = length q" "\<And>i. i < length p \<Longrightarrow> f (p ! i) (q ! i) = (g i, h i)"
  shows "map fst (map2 f p q) = map g [0..<length p]" "map snd (map2 f p q) = map h [0..<length p]"
  using assms by (auto intro!: nth_equalityI)

lemma cswap_1: "loose p \<Longrightarrow> loose q \<Longrightarrow> cswap p q 1 = (q, p)"
proof -
  assume l: "loose p" "loose q"
  then have len: "length p = length q" "length p = 16" by (simp_all add: loose_def)
  have "cswap_limb (i32_not 0) (p ! i) (q ! i) = (q ! i, p ! i)" if "i < length p" for i
    using l that len by (intro cswap_limb_1) (auto simp: loose_def)
  from map2_pair [where g = "\<lambda>i. q ! i" and h = "\<lambda>i. p ! i", OF len(1) this]
  have "map fst (map2 (cswap_limb (i32_not 0)) p q) = q" "map snd (map2 (cswap_limb (i32_not 0)) p q) = p"
    using len map_nth [of p] map_nth [of q] by simp_all
  then show ?thesis by (simp add: cswap_def Let_def)
qed

lemma cswap_0: "loose p \<Longrightarrow> loose q \<Longrightarrow> cswap p q 0 = (p, q)"
proof -
  assume l: "loose p" "loose q"
  then have len: "length p = length q" "length p = 16" by (simp_all add: loose_def)
  have "cswap_limb (i32_not (-1)) (p ! i) (q ! i) = (p ! i, q ! i)" if "i < length p" for i
    using l that len by (intro cswap_limb_0) (auto simp: loose_def)
  from map2_pair [where g = "\<lambda>i. p ! i" and h = "\<lambda>i. q ! i", OF len(1) this]
  have "map fst (map2 (cswap_limb (i32_not (-1))) p q) = p" "map snd (map2 (cswap_limb (i32_not (-1))) p q) = q"
    using len map_nth [of p] map_nth [of q] by simp_all
  then show ?thesis by (simp add: cswap_def Let_def)
qed

lemma tight_bound: "tight x \<Longrightarrow> i < 16 \<Longrightarrow> -38 \<le> x ! i \<and> x ! i \<le> 65573"
proof -
  assume t: "tight x" "i < 16"
  show ?thesis
  proof (cases "i = 0")
    case True
    with t show ?thesis by (auto simp: tight_def)
  next
    case False
    with t have "0 \<le> x ! i \<and> x ! i \<le> 65535" by (simp add: tight_def)
    then show ?thesis by simp
  qed
qed

lemma fadd_closed:
  assumes "tight a" "tight b"
  shows "fadd a b = map2 (+) a b" "fsub a b = map2 (-) a b"
proof -
  have len: "length a = 16" "length b = 16" using assms by (simp_all add: tight_def)
  have "to_int32 (dbl (a ! i + b ! i)) = a ! i + b ! i \<and> to_int32 (dbl (a ! i - b ! i)) = a ! i - b ! i"
    if "i < 16" for i
    using tight_bound [OF assms(1) that] tight_bound [OF assms(2) that]
    by (auto simp: dbl_exact to_int32_id abs_le_iff)
  with len show "fadd a b = map2 (+) a b" "fsub a b = map2 (-) a b"
    unfolding fadd_def fsub_def by (intro nth_equalityI; simp)+
qed

lemma limbs_val_map2_add:
  "length a = length b \<Longrightarrow> limbs_val (map2 (+) a b) = limbs_val a + limbs_val b"
  by (induction a b rule: list_induct2) auto

lemma limbs_val_map2_diff:
  "length a = length b \<Longrightarrow> limbs_val (map2 (-) a b) = limbs_val a - limbs_val b"
  by (induction a b rule: list_induct2) auto

lemma fadd_correct:
  assumes "tight a" "tight b"
  shows "loose (fadd a b)" "limbs_val (fadd a b) = limbs_val a + limbs_val b"
proof -
  have len: "length a = 16" "length b = 16" using assms by (simp_all add: tight_def)
  then show "limbs_val (fadd a b) = limbs_val a + limbs_val b"
    by (simp add: fadd_closed [OF assms] limbs_val_map2_add)
  have "\<bar>a ! i + b ! i\<bar> \<le> 2 ^ 18" if "i < 16" for i
    using tight_bound [OF assms(1) that] tight_bound [OF assms(2) that] by (auto simp: abs_le_iff)
  with len show "loose (fadd a b)" by (simp add: loose_def fadd_closed [OF assms])
qed

lemma fsub_correct:
  assumes "tight a" "tight b"
  shows "loose (fsub a b)" "limbs_val (fsub a b) = limbs_val a - limbs_val b"
proof -
  have len: "length a = 16" "length b = 16" using assms by (simp_all add: tight_def)
  then show "limbs_val (fsub a b) = limbs_val a - limbs_val b"
    by (simp add: fadd_closed [OF assms] limbs_val_map2_diff)
  have "\<bar>a ! i - b ! i\<bar> \<le> 2 ^ 18" if "i < 16" for i
    using tight_bound [OF assms(1) that] tight_bound [OF assms(2) that] by (auto simp: abs_le_iff)
  with len show "loose (fsub a b)" by (simp add: loose_def fadd_closed [OF assms])
qed

end
