(* ===== verification/WgPack.thy ===== *)
theory WgPack
  imports WgField
begin

text \<open>
  The final reduction: \<open>pack\<close> writes the canonical little-endian bytes of the residue.
\<close>

fun bytes_val :: "int list \<Rightarrow> int" where
  "bytes_val [] = 0"
| "bytes_val (b # bs) = b + 256 * bytes_val bs"

definition is_bytes :: "int list \<Rightarrow> bool" where
  "is_bytes bs \<longleftrightarrow> (\<forall>b \<in> set bs. 0 \<le> b \<and> b < 256)"

lemma carry_in_range:
  assumes "carry_exact y" "0 \<le> limbs_val y" "limbs_val y < 65536 ^ 16"
  shows "canonical (carry y)" "limbs_val (carry y) = limbs_val y"
proof -
  have len: "length y = 16" using assms(1) by (simp add: carry_exact_def)
  have q: "limbs_val y div 65536 ^ 16 = 0" using assms by (intro div_pos_pos_trivial)
  then have "cin y 16 = 0" using cin_16 [OF len] by simp
  then show "canonical (carry y)"
    using carry_closed [OF assms(1)] by (auto simp: canonical_def simp del: cin.simps(2))
  show "limbs_val (carry y) = limbs_val y" using carry_val [OF assms(1)] q by simp
qed

lemma canonical_exact: "length x = 16 \<Longrightarrow> canonical x \<Longrightarrow> carry_exact x"
proof (rule carry_exactI)
  assume x: "length x = 16" "canonical x"
  show "\<forall>i<16. \<bar>x ! i\<bar> \<le> 2 ^ 50"
  proof (intro allI impI)
    fix i :: nat assume "i < 16"
    with x have "0 \<le> x ! i \<and> x ! i < 65536" by (simp add: canonical_def)
    then show "\<bar>x ! i\<bar> \<le> 2 ^ 50" by simp
  qed
qed

lemma tight_exact: "tight x \<Longrightarrow> carry_exact x"
  using tight_loose [of x] by (intro carry_exactI) (force simp: loose_def)+

lemma carry3_canonical:
  assumes "tight n"
  shows "canonical (carry (carry (carry n)))" "length (carry (carry (carry n))) = 16"
    "limbs_val (carry (carry (carry n))) mod p25519 = limbs_val n mod p25519"
proof -
  let ?y = "carry n"
  have ex: "carry_exact n" using assms by (rule tight_exact)
  have "-38 \<le> limbs_val n" "limbs_val n \<le> 65573 + 65536 ^ 16 - 65536"
    using val_from_first [of n] assms unfolding tight_def by auto
  moreover have vy: "limbs_val ?y = limbs_val n - (65536 ^ 16 - 38) * (limbs_val n div 65536 ^ 16)"
    by (rule carry_val [OF ex])
  ultimately have r: "0 \<le> limbs_val ?y" "limbs_val ?y < 65536 ^ 16" by simp_all
  have "\<forall>i<16. \<bar>?y ! i\<bar> \<le> 2 ^ 50"
  proof (intro allI impI)
    fix i :: nat assume i: "i < 16"
    have c: "\<bar>cin n 16\<bar> \<le> 2 ^ 37" using carry_exact_cin [OF ex, of 15] by (simp del: cin.simps)
    have "\<bar>m + 38 * c\<bar> \<le> 2 ^ 50" if "0 \<le> m" "m < 65536" "\<bar>c\<bar> \<le> 2 ^ 37" for m c :: int
      using that by simp
    then have "i = 0 \<Longrightarrow> \<bar>?y ! i\<bar> \<le> 2 ^ 50" using c by (simp add: carry_first [OF ex])
    moreover have "i \<noteq> 0 \<Longrightarrow> \<bar>?y ! i\<bar> \<le> 2 ^ 50" using carry_upper [OF ex, of i] i by simp
    ultimately show "\<bar>?y ! i\<bar> \<le> 2 ^ 50" by blast
  qed
  then have ey: "carry_exact ?y" using length_carry [OF ex] by (intro carry_exactI) auto
  note y = carry_in_range [OF ey r]
  have ez: "carry_exact (carry ?y)" using length_carry [OF ey] y(1) by (rule canonical_exact)
  have rz: "0 \<le> limbs_val (carry ?y)" "limbs_val (carry ?y) < 65536 ^ 16" using y(2) r by simp_all
  note z = carry_in_range [OF ez rz]
  show "canonical (carry (carry ?y))" by (rule z)
  show "length (carry (carry ?y)) = 16" by (rule length_carry [OF ez])
  have "limbs_val (carry (carry ?y)) = limbs_val n - p25519 * (2 * (limbs_val n div 65536 ^ 16))"
    using z(2) y(2) vy two_p by (simp only: mult.assoc mult.left_commute)
  then show "limbs_val (carry (carry ?y)) mod p25519 = limbs_val n mod p25519"
    by (simp only: mod_eq_dvd_iff) simp
qed

text \<open>The limbs of the prime, and the difference whose borrows the loop computes.\<close>

definition p_limbs :: "int list" where
  "p_limbs = 0xffed # replicate 14 0xffff @ [0x7fff]"

definition sub_limbs :: "fe \<Rightarrow> int list" where
  "sub_limbs t = map2 (-) t p_limbs"

lemma p_limbs_val: "limbs_val p_limbs = p25519" and length_p_limbs: "length p_limbs = 16"
  by (simp_all add: p_limbs_def p25519_def numeral_eq_Suc)

lemma sub_limbs_nth:
  assumes "length t = 16"
  shows "sub_limbs t ! 0 = t ! 0 - 0xffed" "sub_limbs t ! 15 = t ! 15 - 0x7fff"
    "0 < i \<Longrightarrow> i < 15 \<Longrightarrow> sub_limbs t ! i = t ! i - 0xffff" "length (sub_limbs t) = 16"
  using assms by (simp_all add: sub_limbs_def p_limbs_def nth_append nth_Cons')

lemma sub_limbs_range:
  assumes "length t = 16" "canonical t" "i < 16"
  shows "-65535 \<le> sub_limbs t ! i" "sub_limbs t ! i < 65536"
proof -
  have "0 \<le> t ! i \<and> t ! i < 65536" using assms by (simp add: canonical_def)
  then show "-65535 \<le> sub_limbs t ! i" "sub_limbs t ! i < 65536"
    using sub_limbs_nth(1,2) [OF assms(1)] sub_limbs_nth(3) [OF assms(1), of i] assms(3)
    by (cases "i = 0"; cases "i = 15"; simp)+
qed

lemma borrow_range:
  assumes "length t = 16" "canonical t" "n \<le> 16"
  shows "cin (sub_limbs t) n \<in> {-1, 0}"
  using assms(3)
proof (induction n)
  case (Suc n)
  then have "cin (sub_limbs t) n \<in> {-1, 0}" "-65535 \<le> sub_limbs t ! n" "sub_limbs t ! n < 65536"
    using sub_limbs_range [OF assms(1,2), of n] by simp_all
  then have "-65536 \<le> sub_limbs t ! n + cin (sub_limbs t) n"
    "sub_limbs t ! n + cin (sub_limbs t) n < 65536" by auto
  then show ?case by auto
qed simp

lemma borrow_bit:
  assumes "length t = 16" "canonical t" "n < 16"
  shows "i32_shr (sub_limbs t ! n + cin (sub_limbs t) n) 16 mod 2 = - cin (sub_limbs t) (Suc n)"
proof -
  let ?x = "sub_limbs t ! n + cin (sub_limbs t) n"
  have c: "cin (sub_limbs t) n \<in> {-1, 0}" using assms by (intro borrow_range) auto
  then have "-65536 \<le> ?x" "?x < 65536"
    using sub_limbs_range [OF assms] by auto
  then have "i32_shr ?x 16 = ?x div 65536" by (simp add: i32_shr_div)
  moreover have "cin (sub_limbs t) (Suc n) \<in> {-1, 0}" using assms by (intro borrow_range) auto
  ultimately show ?thesis by auto
qed

lemma pack_sub_fold:
  assumes t: "length t = 16" "canonical t" and m: "length m = 16" and "1 \<le> n" "n \<le> 15"
  shows "foldl (pack_sub t) (m[0 := sub_limbs t ! 0]) [1..<n] =
    map (\<lambda>j. if j < n - 1 then (sub_limbs t ! j + cin (sub_limbs t) j) mod 65536
      else if j = n - 1 then sub_limbs t ! j + cin (sub_limbs t) j else m ! j) [0..<16]"
  using assms(4,5)
proof (induction n)
  case (Suc n)
  let ?d = "sub_limbs t"
  let ?m = "\<lambda>n. map (\<lambda>j. if j < n - 1 then (?d ! j + cin ?d j) mod 65536
      else if j = n - 1 then ?d ! j + cin ?d j else m ! j) [0..<16]"
  show ?case
  proof (cases "n = 0")
    case True
    with m show ?thesis by (intro nth_equalityI) (auto simp: nth_list_update)
  next
    case False
    then have n: "1 \<le> n" "n < 15" using Suc.prems by auto
    then have dn: "?d ! n = t ! n - 0xffff" using sub_limbs_nth(3) [OF t(1), of n] by simp
    have b: "i32_shr (?d ! (n - 1) + cin ?d (n - 1)) 16 mod 2 = - cin ?d n"
      using borrow_bit [OF t, of "n - 1"] n by simp
    have "cin ?d n \<in> {-1, 0}" using n by (intro borrow_range [OF t]) auto
    moreover have "-65535 \<le> ?d ! n" "?d ! n < 65536" using sub_limbs_range [OF t, of n] n by simp_all
    ultimately have x: "dbl (dbl (t ! n - 0xffff) + cin ?d n) = ?d ! n + cin ?d n"
      unfolding dn [symmetric] by (auto simp: dbl_exact abs_le_iff)
    have "[1..<Suc n] = [1..<n] @ [n]" using n by simp
    then have "foldl (pack_sub t) (m[0 := ?d ! 0]) [1..<Suc n] = pack_sub t (?m n) n"
      using Suc.IH n by simp
    also have "\<dots> = (?m n)[n := ?d ! n + cin ?d n, n - 1 := (?d ! (n - 1) + cin ?d (n - 1)) mod 65536]"
      using n by (simp add: pack_sub_def Let_def b [unfolded One_nat_def] x limb_simps)
    also have "\<dots> = ?m (Suc n)"
      using n by (intro nth_equalityI) (auto simp: nth_list_update)
    finally show ?thesis .
  qed
qed simp

definition diff_limbs :: "fe \<Rightarrow> fe" where
  "diff_limbs t = map (\<lambda>j. let x = sub_limbs t ! j + cin (sub_limbs t) j
     in if j < 15 then x mod 65536 else x) [0..<16]"

lemma last_limb: "(i :: nat) < 16 \<Longrightarrow> \<not> i < 15 \<longleftrightarrow> i = 15"
  by auto

lemma pack_round_eq:
  assumes t: "length t = 16" "canonical t" and m: "length m = 16"
  shows "pack_round (t, m) = cswap t (diff_limbs t) (1 + cin (sub_limbs t) 16)"
proof -
  let ?d = "sub_limbs t"
  let ?w = "map (\<lambda>j. if j < 14 then (?d ! j + cin ?d j) mod 65536
    else if j = 14 then ?d ! j + cin ?d j else m ! j) [0..<16]"
  have d0: "dbl (t ! 0 - 0xffed) = ?d ! 0"
    using sub_limbs_range [OF t, of 0] sub_limbs_nth(1) [OF t(1)] by (simp add: dbl_exact abs_le_iff)
  have b14: "i32_shr (?d ! 14 + cin ?d 14) 16 mod 2 = - cin ?d 15"
    using borrow_bit [OF t, of 14] by (simp del: cin.simps)
  have b15: "i32_shr (?d ! 15 + cin ?d 15) 16 mod 2 = - cin ?d 16"
    using borrow_bit [OF t, of 15] by (simp del: cin.simps)
  have "cin ?d 15 \<in> {-1, 0}" by (intro borrow_range [OF t]) auto
  then have x: "dbl (dbl (t ! 15 - 0x7fff) + cin ?d 15) = ?d ! 15 + cin ?d 15"
    using sub_limbs_range [OF t, of 15] unfolding sub_limbs_nth(2) [OF t(1), symmetric]
    by (auto simp: dbl_exact abs_le_iff)
  have f: "foldl (pack_sub t) (m[0 := ?d ! 0]) [1..<15] = ?w"
    using pack_sub_fold [OF t m, of 15] by simp
  have "?w[15 := ?d ! 15 + cin ?d 15, 14 := (?d ! 14 + cin ?d 14) mod 65536] = diff_limbs t"
    unfolding diff_limbs_def Let_def by (intro nth_equalityI) (auto simp: nth_list_update last_limb)
  then show ?thesis
    by (simp add: pack_round_def Let_def d0 f [unfolded One_nat_def] b14 b15 x limb_simps
       del: upt.simps cin.simps)
qed

lemma diff_limbs_loose:
  assumes t: "length t = 16" "canonical t"
  shows "loose (diff_limbs t)"
proof -
  have "\<bar>diff_limbs t ! i\<bar> \<le> 2 ^ 18" if "i < 16" for i
  proof (cases "i < 15")
    case False
    have "cin (sub_limbs t) 15 \<in> {-1, 0}" by (intro borrow_range [OF t]) auto
    moreover from False that have "i = 15" by simp
    ultimately show ?thesis
      using sub_limbs_range [OF t, of 15] by (auto simp: diff_limbs_def abs_le_iff)
  next
    case True
    have "\<bar>v\<bar> \<le> 2 ^ 18" if "0 \<le> v" "v < 65536" for v :: int
      using that by simp
    then have "\<bar>v mod 65536\<bar> \<le> 2 ^ 18" for v :: int by simp
    with True show ?thesis by (simp add: diff_limbs_def Let_def)
  qed
  then show ?thesis by (simp add: loose_def diff_limbs_def)
qed

lemma sub_limbs_val: "length t = 16 \<Longrightarrow> limbs_val (sub_limbs t) = limbs_val t - p25519"
  by (simp add: sub_limbs_def limbs_val_map2_diff length_p_limbs p_limbs_val)

lemma diff_limbs_no_borrow:
  assumes t: "length t = 16" and c: "cin (sub_limbs t) 16 = 0"
  shows "canonical (diff_limbs t)" "limbs_val (diff_limbs t) = limbs_val t - p25519"
proof -
  let ?d = "sub_limbs t"
  have "?d ! 15 + cin ?d 15 = (?d ! 15 + cin ?d 15) mod 65536"
    using c cin.simps(2) [of ?d 15] by (simp add: minus_div_mult_eq_mod [symmetric] del: cin.simps)
  then have u: "diff_limbs t = map (\<lambda>j. (?d ! j + cin ?d j) mod 65536) [0..<16]"
    unfolding diff_limbs_def Let_def
    by (intro nth_equalityI) (auto simp: last_limb)
  show "canonical (diff_limbs t)" by (auto simp: u canonical_def simp del: cin.simps)
  have "limbs_val (diff_limbs t) = (\<Sum>j<16. (?d ! j + cin ?d j) mod 65536 * 65536 ^ j)"
    by (subst limbs_val_16) (auto simp: u intro!: sum.cong)
  also have "\<dots> = limbs_val ?d"
    using c by (simp only: cin_telescope limbs_val_16 [OF sub_limbs_nth(4) [OF t]])
  finally show "limbs_val (diff_limbs t) = limbs_val t - p25519"
    by (simp only: sub_limbs_val [OF t])
qed

lemma canonical_loose: "length t = 16 \<Longrightarrow> canonical t \<Longrightarrow> loose t"
proof -
  assume t: "length t = 16" "canonical t"
  have "\<bar>t ! i\<bar> \<le> 2 ^ 18" if "i < 16" for i
  proof -
    from t that have "0 \<le> t ! i \<and> t ! i < 65536" by (simp add: canonical_def)
    then show ?thesis by simp
  qed
  with t show ?thesis by (simp add: loose_def)
qed

text \<open>One round of the final reduction subtracts the prime when it fits.\<close>

lemma pack_round_canonical:
  assumes t: "length t = 16" "canonical t" and m: "length m = 16"
  shows "length (fst (pack_round (t, m))) = 16 \<and> canonical (fst (pack_round (t, m))) \<and>
    length (snd (pack_round (t, m))) = 16 \<and>
    limbs_val (fst (pack_round (t, m))) =
      (if limbs_val t < p25519 then limbs_val t else limbs_val t - p25519)"
proof -
  have vt: "0 \<le> limbs_val t" "limbs_val t < 65536 ^ 16" using canonical_range [OF t(2)] t(1) by simp_all
  have q: "cin (sub_limbs t) 16 = (limbs_val t - p25519) div 65536 ^ 16"
    by (simp only: cin_16 [OF sub_limbs_nth(4) [OF t(1)]] sub_limbs_val [OF t(1)])
  have l: "loose t" "loose (diff_limbs t)" using canonical_loose diff_limbs_loose t by auto
  have ld: "length (diff_limbs t) = 16" by (simp add: diff_limbs_def)
  show ?thesis
  proof (cases "limbs_val t < p25519")
    case True
    then have "cin (sub_limbs t) 16 = -1" using q vt by (simp add: p25519_def)
    with True show ?thesis
      using t ld cswap_0 [OF l] by (simp add: pack_round_eq [OF t m])
  next
    case False
    then have c: "cin (sub_limbs t) 16 = 0" using q vt by (simp add: p25519_def)
    with False show ?thesis
      using t ld cswap_1 [OF l] diff_limbs_no_borrow [OF t(1) c]
      by (simp add: pack_round_eq [OF t m])
  qed
qed

lemma bytes_of_limbs:
  "canonical t \<Longrightarrow>
   bytes_val (concat (map (\<lambda>x. [to_u8 (i32_and x 0xff), to_u8 (i32_shr x 8)]) t)) = limbs_val t"
proof (induction t)
  case (Cons x t)
  then have x: "0 \<le> x" "x < 65536" and IH: "bytes_val (concat (map (\<lambda>x. [to_u8 (i32_and x 0xff), to_u8 (i32_shr x 8)]) t)) = limbs_val t"
    by (auto simp: canonical_def)
  have "i32_shr x 8 = x div 256" using x by (simp add: i32_shr_div)
  moreover have "x div 256 mod 256 = x div 256" using x by (intro mod_pos_pos_trivial) auto
  ultimately show ?case using IH by (simp add: to_u8_def limb_simps)
qed simp

lemma pack_correct:
  assumes "tight n"
  shows "bytes_val (pack n) = limbs_val n mod p25519" "length (pack n) = 32" "is_bytes (pack n)"
proof -
  let ?t = "carry (carry (carry n))"
  note t = carry3_canonical [OF assms]
  obtain t1 m1 where r1: "pack_round (?t, gf []) = (t1, m1)" by force
  obtain t2 m2 where r2: "pack_round (t1, m1) = (t2, m2)" by force
  have one: "length t1 = 16" "canonical t1" "length m1 = 16"
    "limbs_val t1 = (if limbs_val ?t < p25519 then limbs_val ?t else limbs_val ?t - p25519)"
    using pack_round_canonical [OF t(2,1), of "gf []"] unfolding r1 by (simp_all add: gf_def)
  have two: "length t2 = 16" "canonical t2"
    "limbs_val t2 = (if limbs_val t1 < p25519 then limbs_val t1 else limbs_val t1 - p25519)"
    using pack_round_canonical [OF one(1-3)] by (simp_all add: r2)
  have pk: "pack n = concat (map (\<lambda>x. [to_u8 (i32_and x 0xff), to_u8 (i32_shr x 8)]) t2)"
    by (simp add: pack_def Let_def r1 r2)
  have "0 \<le> limbs_val ?t" "limbs_val ?t < 65536 ^ 16" using canonical_range [OF t(1)] t(2) by simp_all
  then have "0 \<le> limbs_val t2" "limbs_val t2 < p25519"
    unfolding two(3) one(4) by (auto simp: p25519_def)
  moreover have "(if v < p25519 then v else v - p25519) mod p25519 = v mod p25519" for v
    by simp
  then have "limbs_val t2 mod p25519 = limbs_val ?t mod p25519"
    unfolding two(3) one(4) by simp
  ultimately have "limbs_val t2 = limbs_val n mod p25519" using t(3) by simp
  then show "bytes_val (pack n) = limbs_val n mod p25519"
    by (simp add: pk bytes_of_limbs [OF two(2)])
  show "length (pack n) = 32" using two(1) by (simp add: pk length_concat comp_def sum_list_triv)
  show "is_bytes (pack n)" by (auto simp: pk is_bytes_def to_u8_def)
qed

end
