(* ===== verification/WgLadder.thy ===== *)
theory WgLadder
  imports WgPack
begin

text \<open>
  X25519 over the integers as the specification (RFC 7748, section 5), the contract of a
  field representation as a locale with its ladder lemmas, its interpretation on the limb
  arithmetic of the code, and the refinement of the whole key derivation.
\<close>

section \<open>X25519 over the integers modulo p\<close>

text \<open>The Montgomery ladder of RFC 7748, section 5: u-coordinates \<open>x2/z2\<close> and \<open>x3/z3\<close>.\<close>

definition x25519_arith :: "int \<Rightarrow> int \<times> int \<times> int \<times> int \<Rightarrow> int \<times> int \<times> int \<times> int" where
  "x25519_arith x1 s =
     (let (x2, x3, z2, z3) = s;
          A = (x2 + z2) mod p25519;
          AA = A ^ 2 mod p25519;
          B = (x2 - z2) mod p25519;
          BB = B ^ 2 mod p25519;
          E = (AA - BB) mod p25519;
          C = (x3 + z3) mod p25519;
          D = (x3 - z3) mod p25519;
          DA = D * A mod p25519;
          CB = C * B mod p25519
      in (AA * BB mod p25519,
          (DA + CB) ^ 2 mod p25519,
          E * (AA + 121665 * E) mod p25519,
          x1 * (DA - CB) ^ 2 mod p25519))"

definition x25519_swap :: "bool \<Rightarrow> int \<times> int \<times> int \<times> int \<Rightarrow> int \<times> int \<times> int \<times> int" where
  "x25519_swap bt s = (let (x2, x3, z2, z3) = s in if bt then (x3, x2, z3, z2) else s)"

definition x25519_step :: "int \<Rightarrow> bool \<Rightarrow> int \<times> int \<times> int \<times> int \<Rightarrow> int \<times> int \<times> int \<times> int" where
  "x25519_step x1 bt s = x25519_swap bt (x25519_arith x1 (x25519_swap bt s))"

fun pow_mod :: "int \<Rightarrow> nat \<Rightarrow> int \<Rightarrow> int" where
  "pow_mod b e m =
     (if e = 0 then 1 mod m
      else let h = pow_mod (b * b mod m) (e div 2) m
           in if odd e then b * h mod m else h)"

declare pow_mod.simps [simp del]

definition x25519 :: "int \<Rightarrow> int \<Rightarrow> int" where
  "x25519 k u =
     (let (x2, x3, z2, z3) =
            foldl (\<lambda>s i. x25519_step u (bit k i) s) (1, u, 0, 1) (rev [0..<255])
      in x2 * pow_mod z2 (nat (p25519 - 2)) p25519 mod p25519)"

text \<open>decodeScalar25519 of the RFC, on the integer.\<close>

definition decode_scalar :: "int \<Rightarrow> int" where
  "decode_scalar k = ((k mod 2 ^ 254) OR 2 ^ 254) AND NOT 7"

lemma pow_mod_correct: "pow_mod b e m = b ^ e mod m"
proof (induction b e m rule: pow_mod.induct)
  case (1 b e m)
  show ?case
  proof (cases "e = 0")
    case False
    with 1 have h: "pow_mod (b * b mod m) (e div 2) m = (b * b) ^ (e div 2) mod m"
      by (simp add: power_mod)
    have "(b * b) ^ (e div 2) = b ^ (2 * (e div 2))" by (simp add: power_mult power2_eq_square)
    with False h show ?thesis
      by (subst pow_mod.simps)
        (auto simp: Let_def mod_mult_right_eq even_two_times_div_two odd_two_times_div_two_nat
           simp flip: power_Suc)
  qed (simp add: pow_mod.simps)
qed

section \<open>Field arithmetic as a contract\<close>

text \<open>
  What the ladder needs of a representation of the field: the products of loosely
  reduced elements are tightly reduced, sums and differences of tightly reduced
  elements are loosely reduced, and the values follow the field operations modulo p.
\<close>

locale field_rep =
  fixes fval :: "'f \<Rightarrow> int"
    and tight_rep loose_rep :: "'f \<Rightarrow> bool"
    and add_op sub_op mul_op :: "'f \<Rightarrow> 'f \<Rightarrow> 'f"
    and p :: int
  assumes loosen: "tight_rep x \<Longrightarrow> loose_rep x"
    and add_loose: "tight_rep x \<Longrightarrow> tight_rep y \<Longrightarrow> loose_rep (add_op x y)"
    and sub_loose: "tight_rep x \<Longrightarrow> tight_rep y \<Longrightarrow> loose_rep (sub_op x y)"
    and mul_tight: "loose_rep x \<Longrightarrow> loose_rep y \<Longrightarrow> tight_rep (mul_op x y)"
    and add_val: "tight_rep x \<Longrightarrow> tight_rep y \<Longrightarrow> fval (add_op x y) mod p = (fval x + fval y) mod p"
    and sub_val: "tight_rep x \<Longrightarrow> tight_rep y \<Longrightarrow> fval (sub_op x y) mod p = (fval x - fval y) mod p"
    and mul_val: "loose_rep x \<Longrightarrow> loose_rep y \<Longrightarrow> fval (mul_op x y) mod p = (fval x * fval y) mod p"
begin

text \<open>Values modulo p, and the operations on them.\<close>

definition red :: "'f \<Rightarrow> int" where
  "red x = fval x mod p"

lemma red_add: "tight_rep x \<Longrightarrow> tight_rep y \<Longrightarrow> red (add_op x y) = (red x + red y) mod p"
  by (simp add: red_def add_val mod_add_eq)

lemma red_sub: "tight_rep x \<Longrightarrow> tight_rep y \<Longrightarrow> red (sub_op x y) = (red x - red y) mod p"
  by (simp add: red_def sub_val mod_diff_eq)

lemma red_mul: "loose_rep x \<Longrightarrow> loose_rep y \<Longrightarrow> red (mul_op x y) = (red x * red y) mod p"
  by (simp add: red_def mul_val mod_mult_eq)

lemmas closed = loosen add_loose sub_loose mul_tight
lemmas red_ops = red_add red_sub red_mul

text \<open>The eighteen operations of one ladder step, between its two pairs of swaps.\<close>

lemma ladder_core:
  assumes "tight_rep a" "tight_rep b" "tight_rep c" "tight_rep d" "tight_rep k" "tight_rep u"
  defines "A \<equiv> (red a + red c) mod p" and "B \<equiv> (red a - red c) mod p"
    and "C \<equiv> (red b + red d) mod p" and "D \<equiv> (red b - red d) mod p"
  defines "AA \<equiv> A ^ 2 mod p" and "BB \<equiv> B ^ 2 mod p" and "DA \<equiv> D * A mod p" and "CB \<equiv> C * B mod p"
  defines "E \<equiv> (AA - BB) mod p"
  defines "e1 \<equiv> add_op a c" and "a1 \<equiv> sub_op a c" and "c1 \<equiv> add_op b d" and "b1 \<equiv> sub_op b d"
  defines "d1 \<equiv> mul_op e1 e1" and "f1 \<equiv> mul_op a1 a1" and "a2 \<equiv> mul_op c1 a1" and "c2 \<equiv> mul_op b1 e1"
  defines "e2 \<equiv> add_op a2 c2" and "a3 \<equiv> sub_op a2 c2"
  defines "b2 \<equiv> mul_op a3 a3" and "c3 \<equiv> sub_op d1 f1"
  defines "a4 \<equiv> mul_op c3 k"
  defines "a5 \<equiv> add_op a4 d1"
  shows "tight_rep (mul_op d1 f1)" "red (mul_op d1 f1) = AA * BB mod p"
    and "tight_rep (mul_op e2 e2)" "red (mul_op e2 e2) = (DA + CB) ^ 2 mod p"
    and "tight_rep (mul_op c3 a5)" "red (mul_op c3 a5) = E * (AA + red k * E) mod p"
    and "tight_rep (mul_op b2 u)" "red (mul_op b2 u) = red u * (DA - CB) ^ 2 mod p"
proof -
  have l1: "loose_rep e1" "loose_rep a1" "loose_rep c1" "loose_rep b1"
    using assms(1-4) by (simp_all add: e1_def a1_def c1_def b1_def closed)
  have t1: "tight_rep d1" "tight_rep f1" "tight_rep a2" "tight_rep c2"
    using l1 by (simp_all add: d1_def f1_def a2_def c2_def closed)
  have l2: "loose_rep e2" "loose_rep a3" "loose_rep c3"
    using t1 by (simp_all add: e2_def a3_def c3_def closed)
  have t2: "tight_rep b2" "tight_rep a4" using l2 assms(5) by (simp_all add: b2_def a4_def closed)
  have l3: "loose_rep a5" using t1 t2 by (simp add: a5_def closed)
  show "tight_rep (mul_op d1 f1)" "tight_rep (mul_op e2 e2)" "tight_rep (mul_op c3 a5)" "tight_rep (mul_op b2 u)"
    using t1 l2 t2 l3 assms(6) by (simp_all add: closed)
  have r1: "red d1 = AA" "red f1 = BB" "red a2 = CB" "red c2 = DA"
    using l1 assms(1-4)
    by (simp_all add: d1_def f1_def a2_def c2_def e1_def a1_def c1_def b1_def red_ops closed
        A_def B_def C_def D_def AA_def BB_def CB_def DA_def power2_eq_square)
  have r2: "red e2 = (CB + DA) mod p" "red a3 = (CB - DA) mod p" "red c3 = E"
    using t1 by (simp_all add: e2_def a3_def c3_def E_def red_ops r1)
  have r3: "red a5 = (E * red k + AA) mod p"
    using t1 t2 l2 assms(5) by (simp add: a5_def a4_def red_ops closed r1 r2 mod_add_left_eq)
  show "red (mul_op d1 f1) = AA * BB mod p" using t1 by (simp add: red_ops closed r1)
  show "red (mul_op e2 e2) = (DA + CB) ^ 2 mod p"
    using l2 by (simp add: red_ops r2 mod_mult_eq power2_eq_square add.commute)
  show "red (mul_op c3 a5) = E * (AA + red k * E) mod p"
    using l2 l3 by (simp add: red_ops r2 r3 mod_mult_right_eq add.commute mult.commute)
  have "(CB - DA) * (CB - DA) = (DA - CB) ^ 2" by (simp add: power2_eq_square algebra_simps)
  then have "red b2 = (DA - CB) ^ 2 mod p"
    using l2 by (simp add: b2_def red_ops r2 mod_mult_eq)
  then show "red (mul_op b2 u) = red u * (DA - CB) ^ 2 mod p"
    using t2 assms(6) by (simp add: red_ops closed mod_mult_right_eq mod_mult_left_eq mult.commute)
qed

end

interpretation wg: field_rep limbs_val tight loose fadd fsub multmod p25519
  by unfold_locales
    (simp_all add: tight_loose fadd_correct fsub_correct multmod_correct)

lemma gf_small_tight:
  "tight (gf [])" "tight (gf [1])" "tight (gf [9])" "tight fe_9" "tight fe_121665"
  by (auto simp: tight_def gf_def fe_9_def fe_121665_def nth_Cons' numeral_eq_Suc)

lemma gf_small_red:
  "wg.red (gf []) = 0" "wg.red (gf [1]) = 1" "wg.red (gf [9]) = 9" "wg.red fe_9 = 9"
  "wg.red fe_121665 = 121665"
  unfolding wg.red_def
  by (simp_all add: gf_def fe_9_def fe_121665_def numeral_eq_Suc p25519_def)


section \<open>The ladder refines X25519\<close>

definition state_tight :: "ladder_state \<Rightarrow> bool" where
  "state_tight s \<longleftrightarrow> (case s of (a, b, c, d) \<Rightarrow> tight a \<and> tight b \<and> tight c \<and> tight d)"

definition state_red :: "ladder_state \<Rightarrow> int \<times> int \<times> int \<times> int" where
  "state_red s = (case s of (a, b, c, d) \<Rightarrow> (wg.red a, wg.red b, wg.red c, wg.red d))"

lemma cswap_tight:
  "tight x \<Longrightarrow> tight y \<Longrightarrow> r \<in> {0, 1} \<Longrightarrow> cswap x y r = (if r = 1 then (y, x) else (x, y))"
  using cswap_0 [of x y] cswap_1 [of x y] tight_loose by auto

lemma ladder_arith_refines:
  assumes "state_tight s"
  shows "state_tight (ladder_arith s)" "state_red (ladder_arith s) = x25519_arith 9 (state_red s)"
proof -
  obtain a b c d where s: "s = (a, b, c, d)" by (cases s)
  have t: "tight a" "tight b" "tight c" "tight d" using assms(1) by (simp_all add: state_tight_def s)
  note core = wg.ladder_core [OF t gf_small_tight(5,4), unfolded gf_small_red]
  show "state_tight (ladder_arith s)"
    unfolding ladder_arith_def s state_tight_def Let_def prod.case by (intro conjI core)
  show "state_red (ladder_arith s) = x25519_arith 9 (state_red s)"
    unfolding ladder_arith_def x25519_arith_def s state_red_def Let_def prod.case core by (rule refl)
qed

lemma ladder_swap_refines:
  assumes "state_tight s"
  shows "state_tight (ladder_swap (if bt then 1 else 0) s)"
    "state_red (ladder_swap (if bt then 1 else 0) s) = x25519_swap bt (state_red s)"
  using assms
  by (auto simp: ladder_swap_def x25519_swap_def state_tight_def state_red_def cswap_tight split: prod.splits)

lemma ladder_step_refines:
  assumes "state_tight s" and "key_bit z i = (if bt then 1 else 0)"
  shows "state_tight (ladder_step z s i)"
    and "state_red (ladder_step z s i) = x25519_step 9 bt (state_red s)"
  unfolding ladder_step_def x25519_step_def Let_def assms(2)
  by (simp_all only: ladder_swap_refines ladder_arith_refines assms(1))

lemma ladder_refines:
  assumes "state_tight s" and "\<And>i. i \<in> set is \<Longrightarrow> key_bit z i = (if bit k i then 1 else 0)"
  shows "state_tight (foldl (ladder_step z) s is) \<and>
    state_red (foldl (ladder_step z) s is) = foldl (\<lambda>s i. x25519_step 9 (bit k i) s) (state_red s) is"
  using assms
proof (induction "is" arbitrary: s)
  case (Cons i js)
  then have "state_tight (ladder_step z s i)"
    "state_red (ladder_step z s i) = x25519_step 9 (bit k i) (state_red s)"
    using ladder_step_refines [of s z i "bit k i"] by simp_all
  with Cons show ?case by simp
qed simp

lemma bit_bytes_val:
  "is_bytes z \<Longrightarrow> bit (bytes_val z) n \<longleftrightarrow> n div 8 < length z \<and> bit (z ! (n div 8)) (n mod 8)"
proof (induction z arbitrary: n)
  case (Cons b z)
  then have b: "0 \<le> b" "b < 256" and IH: "\<And>n. bit (bytes_val z) n \<longleftrightarrow> n div 8 < length z \<and> bit (z ! (n div 8)) (n mod 8)"
    by (auto simp: is_bytes_def)
  have "take_bit 8 b = b" using b by (simp add: take_bit_eq_mod)
  then have "bytes_val (b # z) = concat_bit 8 b (bytes_val z)"
    by (simp add: concat_bit_eq push_bit_eq_mult)
  then have e: "bit (bytes_val (b # z)) n \<longleftrightarrow> (if n < 8 then bit b n else bit (bytes_val z) (n - 8))"
    by (simp only: bit_concat_bit_iff) auto
  show ?case
  proof (cases "n < 8")
    case False
    then have "n div 8 = Suc ((n - 8) div 8)" "n mod 8 = (n - 8) mod 8"
      by (simp_all add: div_if mod_if)
    with False show ?thesis unfolding e by (simp add: IH)
  next
    case True
    then show ?thesis unfolding e by simp
  qed
qed simp

lemma is_bytes_nth: "is_bytes z \<Longrightarrow> i < length z \<Longrightarrow> 0 \<le> z ! i \<and> z ! i < 256"
  by (simp add: is_bytes_def)

lemma key_bit_bit:
  assumes "is_bytes z" "i < 8 * length z"
  shows "key_bit z i = (if bit (bytes_val z) i then 1 else 0)"
proof -
  have ix: "drop_bit 3 i = i div 8" "i AND 7 = i mod 8"
    using take_bit_eq_mask [of 3 i] by (simp_all add: drop_bit_eq_div take_bit_eq_mod mask_eq_exp_minus_1)
  have i: "i div 8 < length z" using assms(2) by (simp add: div_less_iff_less_mult mult.commute)
  with is_bytes_nth [OF assms(1) i] have "take_bit 32 (z ! (i div 8)) = z ! (i div 8)"
    by (simp add: take_bit_eq_mod)
  then show ?thesis
    using i by (simp add: key_bit_def ix u32_shr_def limb_simps bit_bytes_val [OF assms(1)] mod2_eq_if)
      (simp add: bit_iff_odd_drop_bit)
qed

lemma byte_int32: "0 \<le> x \<Longrightarrow> x < 256 \<Longrightarrow> to_int32 x = x"
  by (simp add: to_int32_id)

lemma bit_masks:
  "bit (127 :: int) n \<longleftrightarrow> n < 7" "bit (64 :: int) n \<longleftrightarrow> n = 6" "bit (248 :: int) n \<longleftrightarrow> 3 \<le> n \<and> n < 8"
  "bit (7 :: int) n \<longleftrightarrow> n < 3"
proof -
  have e: "(127 :: int) = mask 7" "(64 :: int) = 2 ^ 6" "(7 :: int) = mask 3" "(248 :: int) = push_bit 3 (mask 5)"
    by (simp_all add: mask_eq_exp_minus_1 push_bit_eq_mult)
  show "bit (127 :: int) n \<longleftrightarrow> n < 7" "bit (64 :: int) n \<longleftrightarrow> n = 6" "bit (7 :: int) n \<longleftrightarrow> n < 3"
    "bit (248 :: int) n \<longleftrightarrow> 3 \<le> n \<and> n < 8"
    unfolding e by (auto simp: bit_simps simp del: power_numeral)
qed

lemma byte_bits: "0 \<le> x \<Longrightarrow> x < 256 \<Longrightarrow> bit (x :: int) n \<Longrightarrow> n < 8"
  using bit_take_bit_iff [of 8 x n] by (simp add: take_bit_eq_mod)

lemma to_u8_bit: "bit (to_u8 x) n \<longleftrightarrow> n < 8 \<and> bit x n"
  using bit_take_bit_iff [of 8 x n] by (simp add: take_bit_eq_mod to_u8_def)

lemma clamp_last_bit:
  "0 \<le> x \<Longrightarrow> x < 256 \<Longrightarrow> bit (to_u8 (i32_or (i32_and x 127) 64)) n \<longleftrightarrow> (bit x n \<and> n < 6) \<or> n = 6"
  "0 \<le> x \<Longrightarrow> x < 256 \<Longrightarrow> bit (to_u8 (i32_and x 248)) n \<longleftrightarrow> bit x n \<and> 3 \<le> n"
proof -
  assume x: "0 \<le> x" "x < 256"
  have "0 \<le> x AND 127" "x AND 127 < 256"
    using x AND_upper1 [of x 127] by (simp, linarith)
  then have i: "to_int32 (x AND 127) = x AND 127" by (rule byte_int32)
  show "bit (to_u8 (i32_or (i32_and x 127) 64)) n \<longleftrightarrow> (bit x n \<and> n < 6) \<or> n = 6"
    using byte_bits [OF x, of n]
    by (auto simp: to_u8_bit i32_or_def i32_and_def byte_int32 i x bit_or_iff bit_and_iff bit_masks)
  show "bit (to_u8 (i32_and x 248)) n \<longleftrightarrow> bit x n \<and> 3 \<le> n"
    using byte_bits [OF x, of n]
    by (auto simp: to_u8_bit i32_and_def byte_int32 x bit_and_iff bit_masks)
qed

lemma clamp_bytes:
  assumes "length z = 32" "is_bytes z"
  shows "length (clamp z) = 32" "is_bytes (clamp z)"
  using assms by (auto simp: clamp_def Let_def is_bytes_def to_u8_def dest!: set_update_subset_insert [THEN subsetD])

lemma bit_decode_scalar: "bit (decode_scalar k) n \<longleftrightarrow> (n < 254 \<and> bit k n \<or> n = 254) \<and> 3 \<le> n"
proof -
  have "k mod 2 ^ 254 = take_bit 254 k" by (simp only: take_bit_eq_mod)
  then have "bit (decode_scalar k) n \<longleftrightarrow> bit ((take_bit 254 k OR 2 ^ 254) AND NOT 7) n"
    by (simp only: decode_scalar_def)
  also have "\<dots> \<longleftrightarrow> (n < 254 \<and> bit k n \<or> n = 254) \<and> 3 \<le> n"
    unfolding bit_and_iff bit_or_iff bit_not_iff bit_take_bit_iff bit_exp_iff bit_masks
    by (auto simp: not_less)
  finally show ?thesis .
qed

lemma clamp_value:
  assumes z: "length z = 32" "is_bytes z"
  shows "bytes_val (clamp z) = decode_scalar (bytes_val z)"
proof (rule bit_eqI)
  fix n
  have b: "0 \<le> z ! 0" "z ! 0 < 256" "0 \<le> z ! 31" "z ! 31 < 256"
    using is_bytes_nth [OF z(2)] z(1) by simp_all
  have "bit (clamp z ! k) m \<longleftrightarrow>
      (if k = 0 then bit (z ! 0) m \<and> 3 \<le> m else if k = 31 then bit (z ! 31) m \<and> m < 6 \<or> m = 6
       else bit (z ! k) m)" if "k < 32" for k m
    using that z(1) clamp_last_bit b by (simp add: clamp_def Let_def)
  then have "bit (bytes_val (clamp z)) n \<longleftrightarrow>
      n div 8 < 32 \<and> (if n div 8 = 0 then bit (z ! 0) (n mod 8) \<and> 3 \<le> n mod 8
        else if n div 8 = 31 then bit (z ! 31) (n mod 8) \<and> n mod 8 < 6 \<or> n mod 8 = 6
        else bit (z ! (n div 8)) (n mod 8))"
    by (simp add: bit_bytes_val clamp_bytes [OF z] cong: conj_cong)
  moreover have "n div 8 = 0 \<Longrightarrow> n < 8 \<and> n mod 8 = n" "n div 8 = 31 \<Longrightarrow> n = 248 + n mod 8"
    "n div 8 < 31 \<Longrightarrow> n < 248" "n div 8 \<noteq> 0 \<Longrightarrow> 8 \<le> n" "n div 8 < 32 \<longleftrightarrow> n < 256" 
    by presburger+
  ultimately show "bit (bytes_val (clamp z)) n \<longleftrightarrow> bit (decode_scalar (bytes_val z)) n"
    unfolding bit_decode_scalar bit_bytes_val [OF z(2)] z(1)
    by (cases "n div 8 = 0"; cases "n div 8 = 31") auto
qed

lemma ladder_final:
  assumes "\<And>i. i \<in> set is \<Longrightarrow> key_bit z i = (if bit k i then 1 else 0)"
    and "foldl (ladder_step z) (gf [1], gf [9], gf [], gf [1]) is = (a, b, c, d)"
  shows "tight a" "tight c"
    and "foldl (\<lambda>s i. x25519_step 9 (bit k i) s) (1, 9, 0, 1) is
      = (wg.red a, wg.red b, wg.red c, wg.red d)"
proof -
  have s: "state_tight (gf [1], gf [9], gf [], gf [1])" "state_red (gf [1], gf [9], gf [], gf [1]) = (1, 9, 0, 1)"
    by (simp_all add: state_tight_def state_red_def gf_small_tight gf_small_red)
  have "state_tight (a, b, c, d) \<and>
      state_red (a, b, c, d) = foldl (\<lambda>s i. x25519_step 9 (bit k i) s) (1, 9, 0, 1) is"
    using ladder_refines [OF s(1), of "is" z k] assms(1) unfolding assms(2) s(2) by simp
  then show "tight a" "tight c"
    and "foldl (\<lambda>s i. x25519_step 9 (bit k i) s) (1, 9, 0, 1) is
      = (wg.red a, wg.red b, wg.red c, wg.red d)"
    by (simp_all add: state_tight_def state_red_def)
qed

lemma x25519_result:
  assumes "tight a" "tight c"
  shows "bytes_val (pack (multmod a (invert c))) =
      wg.red a * pow_mod (wg.red c) (nat (p25519 - 2)) p25519 mod p25519"
    and "length (pack (multmod a (invert c))) = 32" "is_bytes (pack (multmod a (invert c)))"
proof -
  have i: "tight (invert c)" "limbs_val (invert c) mod p25519 = limbs_val c ^ nat (p25519 - 2) mod p25519"
    using invert_correct [OF assms(2)] by simp_all
  have m: "tight (multmod a (invert c))"
    "limbs_val (multmod a (invert c)) mod p25519 = limbs_val a * limbs_val (invert c) mod p25519"
    using multmod_correct [OF tight_loose [OF assms(1)] tight_loose [OF i(1)]] by blast+
  have "limbs_val (multmod a (invert c)) mod p25519 =
      wg.red a * pow_mod (wg.red c) (nat (p25519 - 2)) p25519 mod p25519"
    unfolding m(2) pow_mod_correct wg.red_def power_mod by (metis i(2) mod_mult_eq)
  then show "bytes_val (pack (multmod a (invert c))) =
      wg.red a * pow_mod (wg.red c) (nat (p25519 - 2)) p25519 mod p25519"
    by (simp only: pack_correct(1) [OF m(1)])
  show "length (pack (multmod a (invert c))) = 32" by (rule pack_correct(2) [OF m(1)])
  show "is_bytes (pack (multmod a (invert c)))" by (rule pack_correct(3) [OF m(1)])
qed

lemma private_key_copy:
  "length k = 32 \<Longrightarrow> is_bytes k \<Longrightarrow>
   map (\<lambda>i. if i < length k then to_u8 (k ! i) else 0) [0..<32] = k"
proof -
  assume k: "length k = 32" "is_bytes k"
  have "to_u8 (k ! i) = k ! i" if "i < 32" for i
    using is_bytes_nth [OF k(2), of i] that k(1) by (simp add: to_u8_def)
  then show ?thesis using k(1) by (intro nth_equalityI) auto
qed

lemma generatePublicKey_core:
  assumes k: "length k = 32" "is_bytes k"
  shows "bytes_val (generatePublicKey k) = x25519 (decode_scalar (bytes_val k)) 9"
    and "length (generatePublicKey k) = 32" and "is_bytes (generatePublicKey k)"
proof -
  let ?z = "clamp k" and ?k = "decode_scalar (bytes_val k)"
  define ixs where "ixs = rev [0..<255::nat]"
  have bits: "key_bit ?z i = (if bit ?k i then 1 else 0)" if "i \<in> set ixs" for i
    using that key_bit_bit [OF clamp_bytes(2) [OF k]] clamp_bytes(1) [OF k] clamp_value [OF k]
    by (simp add: ixs_def)
  obtain a b c d where f: "foldl (ladder_step ?z) (gf [1], gf [9], gf [], gf [1]) ixs = (a, b, c, d)"
    by (metis prod_cases4)
  note l = ladder_final [OF bits f]
  have pk: "generatePublicKey k = pack (multmod a (invert c))"
    by (simp only: generatePublicKey_def private_key_copy [OF k] Let_def f [unfolded ixs_def] prod.case)
  have x: "x25519 ?k 9 = wg.red a * pow_mod (wg.red c) (nat (p25519 - 2)) p25519 mod p25519"
    by (simp only: x25519_def l(3) [unfolded ixs_def] Let_def prod.case)
  show "bytes_val (generatePublicKey k) = x25519 ?k 9"
    unfolding pk x by (rule x25519_result(1) [OF l(1,2)])
  show "length (generatePublicKey k) = 32" unfolding pk by (rule x25519_result(2) [OF l(1,2)])
  show "is_bytes (generatePublicKey k)" unfolding pk by (rule x25519_result(3) [OF l(1,2)])
qed

text \<open>
  C3: the key derivation the panel runs in the browser is X25519. For every 32-byte private
  key the 32 bytes that \<open>Wireguard.generatePublicKey\<close> returns are the little-endian encoding
  of the u-coordinate RFC 7748 computes from the decoded scalar and the base point 9; no
  limb rounds in double arithmetic and no bitwise operator truncates on the way.
\<close>
theorem generatePublicKey_x25519:
  assumes "length k = 32" and "is_bytes k"
  shows "bytes_val (generatePublicKey k) = x25519 (decode_scalar (bytes_val k)) 9 \<and>
    length (generatePublicKey k) = 32 \<and> is_bytes (generatePublicKey k)"
  using generatePublicKey_core [OF assms] by simp

theorem generatePublicKey_x25519_witness:
  "let k = [119, 7, 109, 10, 115, 24, 165, 125, 60, 22, 193, 114, 81, 178, 102, 69,
            223, 76, 107, 94, 200, 124, 177, 169, 157, 143, 27, 167, 125, 251, 44, 42]
   in bytes_val (generatePublicKey k) = x25519 (decode_scalar (bytes_val k)) 9 \<and>
      length (generatePublicKey k) = 32 \<and> is_bytes (generatePublicKey k)"
  unfolding Let_def by (rule generatePublicKey_x25519) (simp_all add: is_bytes_def)

end
