(* ===== verification/WgKeys.thy ===== *)
theory WgKeys
  imports WgLadder RandomUtil
begin

text \<open>
  The keys of the class Wireguard: random private keys, and their text form, which the code
  computes without tables or branches on secret data. The constant-time encoder is the
  standard base64, and \<open>keyFromBase64\<close> reads it back.
\<close>

section \<open>Key generation and text form\<close>

definition generatePresharedKey :: "world \<Rightarrow> int list \<times> world" where
  "generatePresharedKey w = (let (bs, w) = draw_bytes 32 w in (map int bs, w))"

definition generatePrivateKey :: "world \<Rightarrow> int list \<times> world" where
  "generatePrivateKey w = (let (privateKey, w) = generatePresharedKey w in (clamp privateKey, w))"

text \<open>An index past the end reads undefined, which the bitwise operators take as zero.\<close>

definition byte_at :: "int list \<Rightarrow> nat \<Rightarrow> int" where
  "byte_at src i = (if i < length src then src ! i else 0)"

definition b64_input :: "int list \<Rightarrow> int list" where
  "b64_input src = map to_u8
     [i32_and (i32_shr (byte_at src 0) 2) 63,
      i32_and (i32_or (i32_shl (byte_at src 0) 4) (i32_shr (byte_at src 1) 4)) 63,
      i32_and (i32_or (i32_shl (byte_at src 1) 2) (i32_shr (byte_at src 2) 6)) 63,
      i32_and (byte_at src 2) 63]"

definition ct_char :: "int \<Rightarrow> int" where
  "ct_char x = to_u8 (x + 65 + i32_and (i32_shr (25 - x) 8) 6 - i32_and (i32_shr (51 - x) 8) 75
     - i32_and (i32_shr (61 - x) 8) 15 + i32_and (i32_shr (62 - x) 8) 3)"

text \<open>Writes beyond the end of a typed array are ignored, as \<open>list_update\<close> does.\<close>

definition encodeBase64 :: "int list \<Rightarrow> nat \<Rightarrow> int list \<Rightarrow> int list" where
  "encodeBase64 dest off src =
     foldl (\<lambda>d i. d[off + i := ct_char (b64_input src ! i)]) dest [0..<4]"

definition keyToBase64 :: "int list \<Rightarrow> string" where
  "keyToBase64 key =
     (let base64 = foldl (\<lambda>d i. encodeBase64 d (i * 4) (drop (i * 3) key)) (replicate 44 0) [0..<11];
          base64 = encodeBase64 base64 44 [byte_at key 33, byte_at key 34, 0];
          base64 = base64[43 := 61]
      in map (\<lambda>b. char_of (nat b)) base64)"

definition keyFromBase64 :: "string \<Rightarrow> int list option" where
  "keyFromBase64 encoded = map_option (map of_char) (atob encoded)"

text \<open>The key pair as (publicKey, privateKey); None is the exception of \<open>atob\<close>.\<close>

definition generateKeypair :: "string \<Rightarrow> world \<Rightarrow> ((string \<times> string) \<times> world) option" where
  "generateKeypair secretKey w =
     do { (privateKey, w) \<leftarrow> (if secretKey \<noteq> '''' then map_option (\<lambda>k. (k, w)) (keyFromBase64 secretKey)
                              else Some (generatePrivateKey w));
          Some ((keyToBase64 (generatePublicKey privateKey),
                 if secretKey \<noteq> '''' then secretKey else keyToBase64 privateKey), w) }"

section \<open>The encoder is base64\<close>

lemma ct_char_table: "\<forall>n \<in> set [0..<64]. ct_char (int n) = int (b64_code n)"
  by code_simp

lemma ct_char_eq: "n < 64 \<Longrightarrow> ct_char (int n) = int (b64_code n)"
  using ct_char_table by simp

lemma i32_and_63: "i32_and x 63 = x mod 64"
  using i32_and_mask [of 6 x] by (simp add: mask_eq_exp_minus_1)

lemma or_disjoint:
  assumes "0 \<le> b" "b < 2 ^ n"
  shows "push_bit n a OR b = a * 2 ^ n + (b :: int)"
proof -
  have b: "take_bit n b = b" using assms by (simp add: take_bit_int_eq_self)
  have "push_bit n a AND b = 0"
    by (rule bit_eqI, subst b [symmetric]) (auto simp: bit_and_iff bit_push_bit_iff bit_take_bit_iff)
  then have "push_bit n a + b = push_bit n a OR b" by (rule disjunctive_add_eq_or)
  then show ?thesis by (simp add: push_bit_eq_mult)
qed

lemma mod_64_shift:
  assumes "0 \<le> q" "q < k" "k * m = 64"
  shows "(x * k + q) mod 64 = x mod m * k + (q :: int)"
proof -
  have "x * k = (m * (x div m) + x mod m) * k" by simp
  also have "\<dots> = x mod m * k + (x div m) * (k * m)" by (simp only: distrib_right mult.assoc) simp
  finally have "x * k + q = (x mod m * k + q) + (x div m) * (k * m)" by simp
  then have e: "(x * k + q) mod 64 = (x mod m * k + q) mod 64" by (simp only: assms(3)) simp
  have m: "0 < m" using assms by (auto simp: zero_less_mult_iff dest: arg_cong [where f = "\<lambda>x. 0 < x"])
  then have "x mod m * k \<le> (m - 1) * k" using assms(1,2) by (intro mult_right_mono) auto
  then have "x mod m * k + q < 64" using assms by (simp add: algebra_simps)
  moreover have "0 \<le> x mod m * k + q" using m assms(1,2) by simp
  ultimately show ?thesis unfolding e by (intro mod_pos_pos_trivial)
qed

lemma b64_input_eq:
  assumes "a < 256" "b < 256" "c < 256"
  shows "b64_input (int a # int b # int c # r) =
    map int [a div 4, a mod 4 * 16 + b div 16, b mod 16 * 4 + c div 64, c mod 64]"
proof -
  have shl: "i32_shl (int x) n = push_bit n (int x)" if "x < 256" "n \<le> 4" for x n
  proof -
    have "int x * 2 ^ n \<le> 255 * 2 ^ 4" using that by (intro mult_mono power_increasing) auto
    then have "int x * 2 ^ n < 2 ^ 31" by simp
    moreover have "- (2 ^ 31) \<le> int x * 2 ^ n" by (rule order_trans [of _ 0]) auto
    ultimately have "to_int32 (int x * 2 ^ n) = int x * 2 ^ n" by (intro to_int32_id)
    then show ?thesis by (simp add: i32_shl_def push_bit_eq_mult)
  qed
  have shr: "i32_shr (int x) n = int x div 2 ^ n" if "x < 256" for x n
    using that by (simp add: i32_shr_div)
  have orr: "i32_or (i32_shl (int x) n) y = int x * 2 ^ n + y" if "x < 256" "n \<le> 4" "0 \<le> y" "y < 2 ^ n" for x n y
  proof -
    have y: "y < 2 ^ 31" using that(2,4) power_increasing [of n 31 "2 :: int"] by linarith
    have "int x * 2 ^ n \<le> 255 * 2 ^ 4" using that by (intro mult_mono power_increasing) auto
    then have "int x * 2 ^ n < 2 ^ 31" by simp
    moreover have "- (2 ^ 31) \<le> int x * 2 ^ n" by (rule order_trans [of _ 0]) auto
    ultimately have "to_int32 (int x * 2 ^ n) = int x * 2 ^ n" by (intro to_int32_id)
    then have "to_int32 (push_bit n (int x)) = push_bit n (int x)" by (simp add: push_bit_eq_mult)
    then show ?thesis
      using that y by (simp add: i32_or_def shl to_int32_id or_disjoint)
  qed
  have sh: "(int a * 16 + int b div 16) mod 64 = int a mod 4 * 16 + int b div 16"
    "(int b * 4 + int c div 64) mod 64 = int b mod 16 * 4 + int c div 64"
    by (rule mod_64_shift; use assms in simp)+
  have "b64_input (int a # int b # int c # r) =
      [int a div 4, (int a * 16 + int b div 16) mod 64, (int b * 4 + int c div 64) mod 64, int c mod 64]"
    using assms by (simp add: b64_input_def byte_at_def i32_and_63 shr orr to_u8_def)
  also have "\<dots> = map int [a div 4, a mod 4 * 16 + b div 16, b mod 16 * 4 + c div 64, c mod 64]"
    unfolding sh by (simp add: zdiv_int zmod_int)
  finally show ?thesis .
qed

text \<open>Four characters for up to three bytes of the key.\<close>

definition ct_block :: "nat list \<Rightarrow> int list" where
  "ct_block bs = map ct_char (b64_input (map int bs))"

lemma length_b64_input [simp]: "length (b64_input src) = 4"
  by (simp add: b64_input_def)

lemma encodeBase64_append:
  assumes "off = length xs" "4 \<le> m"
  shows "encodeBase64 (xs @ replicate m 0) off src = xs @ map ct_char (b64_input src) @ replicate (m - 4) 0"
proof -
  obtain a b c d where i: "b64_input src = [a, b, c, d]" by (simp add: b64_input_def)
  obtain k where "m = 4 + k" using assms(2) le_Suc_ex by blast
  then have m: "m = Suc (Suc (Suc (Suc k)))" by simp
  have "[0..<4] = [0, 1, 2, 3 :: nat]" by (simp add: upt_rec)
  then show ?thesis by (simp add: encodeBase64_def i m assms(1) list_update_append)
qed

lemma sextet_code:
  assumes "a < 256" "b < 256" "c < 256"
  shows "map ct_char (b64_input (int a # int b # int c # r)) =
    map (\<lambda>n. int (b64_code n)) [a div 4, a mod 4 * 16 + b div 16, b mod 16 * 4 + c div 64, c mod 64]"
proof -
  have "a div 4 < 64" "c mod 64 < 64" using assms by auto
  then show ?thesis
    using sextet_mid [of b c] assms by (simp add: b64_input_eq ct_char_eq del: of_nat_add of_nat_mult of_nat_div of_nat_mod of_nat_simps zdiv_int zmod_int)
qed

definition chars_of :: "int list \<Rightarrow> string" where
  "chars_of bs = map (\<lambda>b. char_of (nat b)) bs"

lemma full_block:
  assumes "list_all (\<lambda>b. b < 256) bs" "3 \<le> length bs"
  shows "chars_of (map ct_char (b64_input (map int bs))) = enc_bytes (take 3 bs)"
proof -
  obtain a b c r where "bs = a # b # c # r"
    using assms(2) by (metis Suc_le_length_iff numeral_3_eq_3)
  with assms(1) sextet_code [of a b c "map int r"] show ?thesis
    by (simp add: chars_of_def b64_char_def)
qed

lemma enc_bytes_take:
  assumes "list_all (\<lambda>b. b < 256) bs" "3 * n \<le> length bs"
  shows "chars_of (concat (map (\<lambda>i. map ct_char (b64_input (map int (drop (i * 3) bs)))) [0..<n])) =
    enc_bytes (take (3 * n) bs)"
  using assms(2)
proof (induction n)
  case (Suc n)
  have "list_all (\<lambda>b. b < 256) (drop (n * 3) bs)"
    using assms(1) by (auto simp: list_all_iff dest: in_set_dropD)
  moreover have "3 \<le> length (drop (n * 3) bs)" using Suc.prems by simp
  ultimately have f: "chars_of (map ct_char (b64_input (map int (drop (n * 3) bs)))) = enc_bytes (take 3 (drop (n * 3) bs))"
    by (rule full_block)
  have "take (3 * Suc n) bs = take (3 * n) bs @ take 3 (drop (n * 3) bs)"
    by (simp add: take_add [symmetric] mult.commute add.commute)
  then have "enc_bytes (take (3 * Suc n) bs) = enc_bytes (take (3 * n) bs) @ enc_bytes (take 3 (drop (n * 3) bs))"
    using Suc.prems by (simp add: enc_bytes_append)
  with Suc f show ?case by (simp add: chars_of_def)
qed (simp add: chars_of_def)

lemma key_blocks:
  "n \<le> 11 \<Longrightarrow>
   foldl (\<lambda>d i. encodeBase64 d (i * 4) (drop (i * 3) key)) (replicate 44 0) [0..<n] =
   concat (map (\<lambda>i. map ct_char (b64_input (drop (i * 3) key))) [0..<n]) @ replicate (44 - 4 * n) 0"
proof (induction n)
  case (Suc n)
  let ?xs = "concat (map (\<lambda>i. map ct_char (b64_input (drop (i * 3) key))) [0..<n])"
  have "length ?xs = n * 4" by (simp add: length_concat comp_def sum_list_triv)
  then have "encodeBase64 (?xs @ replicate (44 - 4 * n) 0) (n * 4) (drop (n * 3) key) =
      ?xs @ map ct_char (b64_input (drop (n * 3) key)) @ replicate (44 - 4 * n - 4) 0"
    using Suc.prems by (intro encodeBase64_append) auto
  with Suc show ?case by simp
qed simp

lemma encodeBase64_beyond: "length d \<le> off \<Longrightarrow> encodeBase64 d off src = d"
  by (simp add: encodeBase64_def upt_rec list_update_beyond)

text \<open>The last block has two bytes; its fourth character is overwritten by the padding.\<close>

lemma last_block:
  assumes "a < 256" "b < 256"
  shows "chars_of ((map ct_char (b64_input [int a, int b]))[3 := 61]) = enc_bytes [a, b]"
proof -
  have "b64_input [int a, int b] = b64_input (int a # int b # int 0 # [])"
    by (simp add: b64_input_def byte_at_def)
  then have "map ct_char (b64_input [int a, int b]) =
      map (\<lambda>n. int (b64_code n)) [a div 4, a mod 4 * 16 + b div 16, b mod 16 * 4, 0]"
    using sextet_code [of a b 0 "[]"] assms by simp
  moreover have "char_of (61 :: nat) = CHR ''=''" by code_simp
  ultimately show ?thesis by (simp add: chars_of_def b64_char_def)
qed

lemma keyToBase64_core:
  assumes "length bs = 32" "list_all (\<lambda>b. b < 256) bs"
  shows "keyToBase64 (map int bs) = enc_bytes bs"
proof -
  let ?blk = "\<lambda>i. map ct_char (b64_input (map int (drop (i * 3) bs)))"
  have drop30: "drop 30 bs = [bs ! 30, bs ! 31]"
    using assms(1) by (simp add: Cons_nth_drop_Suc [symmetric] numeral_eq_Suc)
  have r: "bs ! 30 < 256" "bs ! 31 < 256" using assms by (simp_all add: list_all_length)
  have "[0..<11] = [0..<10] @ [10 :: nat]" by (simp add: upt_rec)
  then have blocks: "concat (map ?blk [0..<11]) = concat (map ?blk [0..<10]) @ ?blk 10"
    by (simp only: map_append concat_append list.map concat.simps append_Nil2)
  have len: "length (concat (map ?blk [0..<10])) = 40"
    by (simp add: length_concat comp_def sum_list_triv)
  have f: "foldl (\<lambda>d i. encodeBase64 d (i * 4) (drop (i * 3) (map int bs))) (replicate 44 0) [0..<11] =
      concat (map ?blk [0..<10]) @ ?blk 10"
    using key_blocks [of 11 "map int bs"] by (simp only: blocks drop_map) simp
  have "keyToBase64 (map int bs) = chars_of ((concat (map ?blk [0..<10]) @ ?blk 10)[43 := 61])"
    unfolding keyToBase64_def Let_def f chars_of_def
    by (subst encodeBase64_beyond) (simp_all add: len del: upt.simps upt_rec_numeral)
  also have "(concat (map ?blk [0..<10]) @ ?blk 10)[43 := 61] = concat (map ?blk [0..<10]) @ (?blk 10)[3 := 61]"
    by (simp add: list_update_append len del: upt.simps upt_rec_numeral)
  also have "chars_of \<dots> = chars_of (concat (map ?blk [0..<10])) @ chars_of ((?blk 10)[3 := 61])"
    by (simp only: chars_of_def map_append)
  also have "chars_of (concat (map ?blk [0..<10])) = enc_bytes (take 30 bs)"
    using enc_bytes_take [OF assms(2), of 10] assms(1) by simp
  also have "chars_of ((?blk 10)[3 := 61]) = enc_bytes (drop 30 bs)"
    using last_block [OF r] by (simp add: drop30)
  also have "enc_bytes (take 30 bs) @ enc_bytes (drop 30 bs) = enc_bytes bs"
    using enc_bytes_append [of "take 30 bs" "drop 30 bs"] assms(1) by simp
  finally show ?thesis .
qed

lemma keyFromBase64_core:
  assumes "length k = 32" "is_bytes k"
  shows "keyFromBase64 (keyToBase64 k) = Some k"
proof -
  define bs where "bs = map nat k"
  have k: "k = map int bs" using assms(2) by (auto simp: bs_def is_bytes_def intro!: nth_equalityI)
  have b: "length bs = 32" "list_all (\<lambda>b. b < 256) bs"
    using assms by (auto simp: bs_def is_bytes_def list_all_iff)
  have "(of_char (char_of x :: char) :: int) = int x" if "x < 256" for x
  proof -
    have "(of_char (char_of x :: char) :: int) = int (of_char (char_of x :: char))"
      by (rule of_nat_of_char [symmetric])
    also have "\<dots> = int x" using that by simp
    finally show ?thesis .
  qed
  then have "map (\<lambda>x. (of_char (char_of x :: char) :: int)) bs = map int bs"
    using b(2) by (intro map_cong) (auto simp: list_all_iff)
  then show ?thesis
    by (simp add: k keyFromBase64_def keyToBase64_core [OF b] atob_enc_bytes [OF b(2)] comp_def)
qed

lemma div_one_range:
  assumes "0 < m" and "x div m = 1"
  shows "m \<le> x \<and> x < 2 * (m :: int)"
proof -
  have "m + x mod m = x" using div_mult_mod_eq [of x m] assms(2) by simp
  then show ?thesis using pos_mod_sign [OF assms(1), of x] pos_mod_bound [OF assms(1), of x] by linarith
qed

lemma decode_scalar_range: "2 ^ 254 \<le> decode_scalar k \<and> decode_scalar k < 2 ^ 255 \<and> decode_scalar k mod 8 = 0"
proof -
  let ?d = "decode_scalar k"
  have z: "take_bit 3 ?d = 0" by (rule bit_eqI) (auto simp: bit_take_bit_iff bit_decode_scalar)
  have t: "take_bit 255 ?d = ?d"
    by (rule bit_eqI) (auto simp: bit_take_bit_iff bit_decode_scalar)
  have "drop_bit 254 ?d = 1"
    by (rule bit_eqI) (auto simp: bit_drop_bit_eq bit_decode_scalar bit_1_iff)
  then have "?d div 2 ^ 254 = 1" by (simp add: drop_bit_eq_div)
  then have "2 ^ 254 \<le> ?d \<and> ?d < 2 * 2 ^ 254" by (intro div_one_range) simp_all
  moreover have "?d mod 8 = 0" using z by (simp add: take_bit_eq_mod)
  ultimately show ?thesis by simp
qed

lemma decode_scalar_idem: "decode_scalar (decode_scalar k) = decode_scalar k"
  by (rule bit_eqI) (auto simp: bit_decode_scalar)

lemma clamped_bytes:
  assumes "length z = 32" "is_bytes z"
  shows "bytes_val (clamp z) = decode_scalar (bytes_val (clamp z))"
  using clamp_value [OF assms] by (simp add: decode_scalar_idem)

lemma random_key_bytes:
  "length (fst (generatePresharedKey w)) = 32" "is_bytes (fst (generatePresharedKey w))"
  using draw_bytes_range [of _ 32 w]
  by (auto simp: generatePresharedKey_def is_bytes_def split_beta Let_def)

lemma int_bytes:
  assumes "is_bytes k"
  obtains bs where "k = map int bs" "list_all (\<lambda>b. b < 256) bs"
proof
  show "k = map int (map nat k)" using assms by (auto simp: is_bytes_def intro!: nth_equalityI)
  show "list_all (\<lambda>b. b < 256) (map nat k)" using assms by (auto simp: is_bytes_def list_all_iff)
qed

lemma length_fold: "(\<And>d i. length (f d i) = length d) \<Longrightarrow> length (foldl f d is) = length d"
  by (induction "is" arbitrary: d) auto

lemma keyToBase64_length: "length (keyToBase64 k) = 44"
  by (simp add: keyToBase64_def Let_def encodeBase64_def length_fold del: upt.simps upt_rec_numeral)

text \<open>
  C11: a key pair drawn by \<open>Wireguard.generateKeypair\<close> is a valid X25519 pair, whatever the
  random source gives. The private text decodes to a scalar that is already clamped (between
  \<open>2^254\<close> and \<open>2^255\<close> and a multiple of eight), and the public text decodes to the point that
  scalar gives on the base point 9.
\<close>
theorem generateKeypair_valid:
  "case generateKeypair '''' w of
     None \<Rightarrow> False
   | Some ((publicKey, privateKey), w') \<Rightarrow>
       (\<exists>k p. keyFromBase64 privateKey = Some k \<and> keyFromBase64 publicKey = Some p \<and>
          length k = 32 \<and> 2 ^ 254 \<le> bytes_val k \<and> bytes_val k < 2 ^ 255 \<and> bytes_val k mod 8 = 0 \<and>
          length p = 32 \<and> bytes_val p = x25519 (bytes_val k) 9)"
proof -
  let ?z = "fst (generatePresharedKey w)"
  let ?k = "clamp ?z"
  note b = clamp_bytes [OF random_key_bytes]
  note g = generatePublicKey_core [OF b]
  have "generateKeypair '''' w =
      Some ((keyToBase64 (generatePublicKey ?k), keyToBase64 ?k), snd (generatePresharedKey w))"
    by (simp add: generateKeypair_def generatePrivateKey_def split_beta Let_def)
  moreover have "keyFromBase64 (keyToBase64 ?k) = Some ?k" by (rule keyFromBase64_core [OF b])
  moreover have "keyFromBase64 (keyToBase64 (generatePublicKey ?k)) = Some (generatePublicKey ?k)"
    by (rule keyFromBase64_core [OF g(2,3)])
  moreover have "bytes_val (generatePublicKey ?k) = x25519 (bytes_val ?k) 9"
    using g(1) clamped_bytes [OF random_key_bytes, of w] by simp
  moreover have "2 ^ 254 \<le> bytes_val ?k \<and> bytes_val ?k < 2 ^ 255 \<and> bytes_val ?k mod 8 = 0"
    using decode_scalar_range [of "bytes_val ?z"] clamp_value [OF random_key_bytes, of w] by simp
  ultimately show ?thesis using b(1) g(2) by simp
qed

text \<open>
  C17: the constant-time encoder of WireGuard keys is standard base64. On the 32 bytes of a key
  \<open>keyToBase64\<close>, which uses neither a table nor a branch on the data, writes exactly what the
  browser's \<open>btoa\<close> writes, 44 characters, and \<open>keyFromBase64\<close> reads the key back.
\<close>
theorem keyToBase64_standard:
  assumes "length k = 32" and "is_bytes k"
  shows "keyToBase64 k = btoa (map (\<lambda>b. char_of (nat b)) k) \<and> length (keyToBase64 k) = 44 \<and>
    keyFromBase64 (keyToBase64 k) = Some k"
proof -
  obtain bs where k: "k = map int bs" "list_all (\<lambda>b. b < 256) bs" by (rule int_bytes [OF assms(2)])
  have "map (of_char :: char \<Rightarrow> nat) (map char_of bs) = bs"
    using k(2) by (auto simp: list_all_iff intro!: nth_equalityI)
  then have "keyToBase64 k = btoa (map (\<lambda>b. char_of (nat b)) k)"
    using keyToBase64_core [OF _ k(2)] assms(1) by (simp add: k btoa_def comp_def)
  then show ?thesis using keyFromBase64_core [OF assms] keyToBase64_length [of k] by simp
qed

theorem keyToBase64_standard_witness:
  "let k = 0 # 255 # map int [1..<31]
   in keyToBase64 k = btoa (map (\<lambda>b. char_of (nat b)) k) \<and> length (keyToBase64 k) = 44 \<and>
      keyFromBase64 (keyToBase64 k) = Some k"
  unfolding Let_def by (rule keyToBase64_standard) (auto simp: is_bytes_def)

end
