(* ===== verification/InMisc.thy ===== *)
theory InMisc
  imports InVpn WgKeys
begin

text \<open>
  The settings of Tunnel, Mixed, HTTP, WireGuard and TUN inbounds
  (web/assets/js/model/inbound.js).
\<close>

section \<open>Inbound.TunnelSettings\<close>

record TunnelSettings =
  tn_address :: jsv
  tn_port :: jsv
  tn_portMap :: "header list"
  tn_network :: jsv
  tn_followRedirect :: jsv

definition new_TunnelSettings :: "jsv \<Rightarrow> jsv \<Rightarrow> header list option \<Rightarrow> jsv \<Rightarrow> jsv \<Rightarrow> TunnelSettings" where
  "new_TunnelSettings address port portMap network followRedirect =
     \<lparr>tn_address = address,
      tn_port = port,
      tn_portMap = opt_new portMap [],
      tn_network = dflt network (JStr ''tcp,udp''),
      tn_followRedirect = dflt followRedirect (JBool False)\<rparr>"

definition TunnelSettings_fromJson :: "jsv \<Rightarrow> TunnelSettings option" where
  "TunnelSettings_fromJson json =
     (let json = dflt json (JObj []) in
      do { address \<leftarrow> js_get json ''address'';
           port \<leftarrow> js_get json ''port'';
           portMap \<leftarrow> js_get json ''portMap'';
           hs \<leftarrow> toHeaders portMap;
           network \<leftarrow> js_get json ''network'';
           followRedirect \<leftarrow> js_get json ''followRedirect'';
           Some (new_TunnelSettings address port (Some hs) network followRedirect) })"

definition TunnelSettings_toJson :: "TunnelSettings \<Rightarrow> jsv option" where
  "TunnelSettings_toJson x =
     do { v2 \<leftarrow> toV2Headers (tn_portMap x) False;
          Some (JObj [(''address'', tn_address x),
                      (''port'', tn_port x),
                      (''portMap'', JObj v2),
                      (''network'', tn_network x),
                      (''followRedirect'', tn_followRedirect x)]) }"

definition TunnelSettings_ok :: "TunnelSettings \<Rightarrow> bool" where
  "TunnelSettings_ok x \<longleftrightarrow>
     opt_field_ok (tn_address x) \<and> opt_field_ok (tn_port x) \<and> single_headers_ok (tn_portMap x) \<and>
     field_ok (tn_network x) \<and> field_ok (tn_followRedirect x)"

lemma TunnelSettings_roundtrip:
  "TunnelSettings_ok x \<Longrightarrow> \<exists>v. TunnelSettings_toJson x = Some v \<and> v \<noteq> JUndef \<and> TunnelSettings_fromJson (wire v) = Some x"
  by (simp add: TunnelSettings_ok_def TunnelSettings_toJson_def TunnelSettings_fromJson_def new_TunnelSettings_def
      js_get_wire single_headers field_ok_def opt_field_ok_def opt_new_def)

interpretation tn_codec: json_codec TunnelSettings_toJson TunnelSettings_fromJson TunnelSettings_ok
  by (rule json_codecI) (rule TunnelSettings_roundtrip)

section \<open>Accounts\<close>

text \<open>
  Inbound.MixedSettings.SocksAccount and Inbound.HttpSettings.HttpAccount: two classes with
  the same text. Neither has its own \<open>toJson\<close>; the inherited one returns the object.
\<close>

record Account =
  ac_user :: jsv
  ac_pass :: jsv

definition new_SocksAccount :: "jsv \<Rightarrow> jsv \<Rightarrow> world \<Rightarrow> Account \<times> world" where
  "new_SocksAccount user pass w =
     (let (user, w) = random_dflt user (randomSeq 10 default_seq) w;
          (pass, w) = random_dflt pass (randomSeq 10 default_seq) w
      in (\<lparr>ac_user = user, ac_pass = pass\<rparr>, w))"

definition SocksAccount_fromJson :: "jsv \<Rightarrow> world \<Rightarrow> (Account \<times> world) option" where
  "SocksAccount_fromJson json w =
     (let json = dflt json (JObj []) in
      do { user \<leftarrow> js_get json ''user''; pass \<leftarrow> js_get json ''pass'';
           Some (new_SocksAccount user pass w) })"

definition SocksAccount_toJson :: "Account \<Rightarrow> jsv" where
  "SocksAccount_toJson a = JObj [(''user'', ac_user a), (''pass'', ac_pass a)]"

definition new_HttpAccount :: "jsv \<Rightarrow> jsv \<Rightarrow> world \<Rightarrow> Account \<times> world" where
  "new_HttpAccount = new_SocksAccount"

definition HttpAccount_fromJson :: "jsv \<Rightarrow> world \<Rightarrow> (Account \<times> world) option" where
  "HttpAccount_fromJson = SocksAccount_fromJson"

definition HttpAccount_toJson :: "Account \<Rightarrow> jsv" where
  "HttpAccount_toJson = SocksAccount_toJson"

lemmas same_account_class = new_HttpAccount_def HttpAccount_fromJson_def HttpAccount_toJson_def

definition Account_ok :: "Account \<Rightarrow> bool" where
  "Account_ok a \<longleftrightarrow> field_ok (ac_user a) \<and> field_ok (ac_pass a)"

interpretation ac_codec: world_codec "\<lambda>a. Some (SocksAccount_toJson a)" SocksAccount_fromJson Account_ok
  by (rule world_codecI)
    (auto simp: SocksAccount_toJson_def SocksAccount_fromJson_def new_SocksAccount_def Account_ok_def
       js_get_wire field_ok_def)

section \<open>Inbound.MixedSettings\<close>

record MixedSettings =
  mx_auth :: jsv
  mx_accounts :: "Account list"
  mx_udp :: jsv
  mx_ip :: jsv

definition new_MixedSettings :: "jsv \<Rightarrow> Account list option \<Rightarrow> jsv \<Rightarrow> jsv \<Rightarrow> world \<Rightarrow> MixedSettings \<times> world" where
  "new_MixedSettings auth accounts udp ip w =
     (let (accounts, w) = one_new (new_SocksAccount JUndef JUndef) accounts w
      in (\<lparr>mx_auth = dflt auth (JStr ''password''), mx_accounts = accounts,
           mx_udp = dflt udp (JBool False), mx_ip = dflt ip (JStr ''127.0.0.1'')\<rparr>, w))"

definition Mixed_addAccount :: "Account \<Rightarrow> MixedSettings \<Rightarrow> MixedSettings" where
  "Mixed_addAccount a x = x\<lparr>mx_accounts := mx_accounts x @ [a]\<rparr>"

definition Mixed_delAccount :: "nat \<Rightarrow> MixedSettings \<Rightarrow> MixedSettings" where
  "Mixed_delAccount index x = x\<lparr>mx_accounts := splice1 index (mx_accounts x)\<rparr>"

text \<open>The accounts are read, and must be there, only when the authentication is by password.\<close>

definition MixedSettings_fromJson :: "jsv \<Rightarrow> world \<Rightarrow> (MixedSettings \<times> world) option" where
  "MixedSettings_fromJson json w =
     (let json = dflt json (JObj []) in
      do { auth \<leftarrow> js_get json ''auth'';
           (accounts, w) \<leftarrow>
             (if auth = JStr ''password''
              then do { v \<leftarrow> js_get json ''accounts'';
                        (xs, w) \<leftarrow> js_mapW SocksAccount_fromJson v w; Some (Some xs, w) }
              else Some (None, w));
           udp \<leftarrow> js_get json ''udp'';
           ip \<leftarrow> js_get json ''ip'';
           Some (new_MixedSettings auth accounts udp ip w) })"

definition MixedSettings_toJson :: "MixedSettings \<Rightarrow> jsv option" where
  "MixedSettings_toJson x =
     do { accounts \<leftarrow> (if mx_auth x = JStr ''password''
                        then toJsonArray (\<lambda>a. Some (SocksAccount_toJson a)) (mx_accounts x) else Some JUndef);
          Some (JObj [(''auth'', mx_auth x), (''accounts'', accounts), (''udp'', mx_udp x), (''ip'', mx_ip x)]) }"

definition MixedSettings_ok :: "MixedSettings \<Rightarrow> bool" where
  "MixedSettings_ok x \<longleftrightarrow>
     mx_auth x = JStr ''password'' \<and> list_all Account_ok (mx_accounts x) \<and> field_ok (mx_udp x) \<and> field_ok (mx_ip x)"

lemma MixedSettings_roundtrip:
  assumes "MixedSettings_ok x"
  shows "\<exists>v. MixedSettings_toJson x = Some v \<and> v \<noteq> JUndef \<and> (\<forall>w. MixedSettings_fromJson (wire v) w = Some (x, w))"
proof -
  note ok = assms [unfolded MixedSettings_ok_def]
  obtain v where "toJsonArray (\<lambda>a. Some (SocksAccount_toJson a)) (mx_accounts x) = Some v"
    "\<forall>w. js_mapW SocksAccount_fromJson (wire v) w = Some (mx_accounts x, w)"
    using ac_codec.array_loaded ok by blast
  with ok show ?thesis
    by (simp add: MixedSettings_toJson_def MixedSettings_fromJson_def js_get_wire new_MixedSettings_def field_ok_def)
qed

interpretation mx_codec: world_codec MixedSettings_toJson MixedSettings_fromJson MixedSettings_ok
  by (rule world_codecI) (rule MixedSettings_roundtrip)

text \<open>Without password authentication the accounts are not sent, and loading makes up a new one.\<close>

lemma mixed_without_password:
  assumes "mx_auth x \<noteq> JStr ''password''" "field_ok (mx_auth x)" "field_ok (mx_udp x)" "field_ok (mx_ip x)"
  shows "\<exists>v a w'. MixedSettings_toJson x = Some v \<and>
    new_SocksAccount JUndef JUndef w = (a, w') \<and>
    MixedSettings_fromJson (wire v) w = Some (x\<lparr>mx_accounts := [a]\<rparr>, w')"
  using assms
  by (cases x) (simp add: MixedSettings_toJson_def MixedSettings_fromJson_def js_get_wire new_MixedSettings_def
      one_new_def field_ok_def split_beta prod_eq_iff)

section \<open>Inbound.HttpSettings\<close>

record HttpSettings =
  ht_accounts :: "Account list"
  ht_allowTransparent :: jsv

definition new_HttpSettings :: "Account list option \<Rightarrow> jsv \<Rightarrow> world \<Rightarrow> HttpSettings \<times> world" where
  "new_HttpSettings accounts allowTransparent w =
     (let (accounts, w) = one_new (new_HttpAccount JUndef JUndef) accounts w
      in (\<lparr>ht_accounts = accounts, ht_allowTransparent = dflt allowTransparent (JBool False)\<rparr>, w))"

definition Http_addAccount :: "Account \<Rightarrow> HttpSettings \<Rightarrow> HttpSettings" where
  "Http_addAccount a x = x\<lparr>ht_accounts := ht_accounts x @ [a]\<rparr>"

definition Http_delAccount :: "nat \<Rightarrow> HttpSettings \<Rightarrow> HttpSettings" where
  "Http_delAccount index x = x\<lparr>ht_accounts := splice1 index (ht_accounts x)\<rparr>"

definition HttpSettings_fromJson :: "jsv \<Rightarrow> world \<Rightarrow> (HttpSettings \<times> world) option" where
  "HttpSettings_fromJson json w =
     (let json = dflt json (JObj []) in
      do { v \<leftarrow> js_get json ''accounts'';
           (accounts, w) \<leftarrow> js_mapW HttpAccount_fromJson v w;
           allowTransparent \<leftarrow> js_get json ''allowTransparent'';
           Some (new_HttpSettings (Some accounts) allowTransparent w) })"

definition HttpSettings_toJson :: "HttpSettings \<Rightarrow> jsv option" where
  "HttpSettings_toJson x =
     do { accounts \<leftarrow> toJsonArray (\<lambda>a. Some (HttpAccount_toJson a)) (ht_accounts x);
          Some (JObj [(''accounts'', accounts), (''allowTransparent'', ht_allowTransparent x)]) }"

definition HttpSettings_ok :: "HttpSettings \<Rightarrow> bool" where
  "HttpSettings_ok x \<longleftrightarrow> list_all Account_ok (ht_accounts x) \<and> field_ok (ht_allowTransparent x)"

lemma HttpSettings_roundtrip:
  assumes "HttpSettings_ok x"
  shows "\<exists>v. HttpSettings_toJson x = Some v \<and> v \<noteq> JUndef \<and> (\<forall>w. HttpSettings_fromJson (wire v) w = Some (x, w))"
proof -
  note ok = assms [unfolded HttpSettings_ok_def]
  obtain v where "toJsonArray (\<lambda>a. Some (SocksAccount_toJson a)) (ht_accounts x) = Some v" "is_array v"
    "\<forall>w. js_mapW SocksAccount_fromJson (wire v) w = Some (ht_accounts x, w)"
    using ac_codec.array_loaded ok by blast
  moreover from this have "v \<noteq> JUndef" by auto
  ultimately show ?thesis using ok
    by (simp add: HttpSettings_toJson_def HttpSettings_fromJson_def js_get_wire new_HttpSettings_def field_ok_def
        same_account_class)
qed

interpretation ht_codec: world_codec HttpSettings_toJson HttpSettings_fromJson HttpSettings_ok
  by (rule world_codecI) (rule HttpSettings_roundtrip)

text \<open>Loading throws when the accounts are missing or no array.\<close>

lemma http_needs_accounts:
  "HttpSettings_fromJson (JObj kvs) w \<noteq> None \<Longrightarrow> is_array (look kvs ''accounts'')"
  by (cases "look kvs ''accounts''") (auto simp: HttpSettings_fromJson_def)

end
