(* ===== verification/InWg.thy ===== *)
theory InWg
  imports InMisc
begin

text \<open>
  WireGuard and TUN inbounds (web/assets/js/model/inbound.js). The keys are those of the
  class Wireguard; None is an exception, which \<open>atob\<close> throws on a key that is not base64.
\<close>

section \<open>Inbound.WireguardSettings.Peer\<close>

record Peer =
  wp_privateKey :: jsv
  wp_publicKey :: jsv
  wp_psk :: jsv
  wp_allowedIPs :: "jsv list"
  wp_keepAlive :: jsv

text \<open>
  \<open>if (a.length > 0 && !a.includes('/')) allowedIPs[index] += '/32'\<close> on one address. Arrays
  have \<open>includes\<close> too; an object that has a length has not, and throws.
\<close>

fun add_mask :: "jsv \<Rightarrow> jsv option" where
  "add_mask (JStr s) = Some (JStr (if s \<noteq> '''' \<and> CHR ''/'' \<notin> set s then s @ ''/32'' else s))"
| "add_mask (JArr vs) =
     Some (if vs \<noteq> [] \<and> JStr ''/'' \<notin> set vs then JStr (js_to_string (JArr vs) @ ''/32'') else JArr vs)"
| "add_mask (JObj kvs) = (if js_gt (look kvs ''length'') (jint 0) then None else Some (JObj kvs))"
| "add_mask v = (if is_nullish v then None else Some v)"

fun mask_all :: "jsv \<Rightarrow> jsv list option" where
  "mask_all (JArr vs) = mapM add_mask vs"
| "mask_all _ = None"

definition new_Peer :: "jsv \<Rightarrow> jsv \<Rightarrow> jsv \<Rightarrow> jsv \<Rightarrow> jsv \<Rightarrow> world \<Rightarrow> (Peer \<times> world) option" where
  "new_Peer privateKey publicKey psk allowedIPs keepAlive w =
     do { (publicKey, privateKey, w) \<leftarrow>
            (if truthy publicKey then Some (publicKey, privateKey, w)
             else do { ((pub, priv), w) \<leftarrow> generateKeypair '''' w; Some (JStr pub, JStr priv, w) });
          ips \<leftarrow> mask_all (dflt allowedIPs (JArr [JStr ''10.0.0.2/32'']));
          Some (\<lparr>wp_privateKey = privateKey, wp_publicKey = publicKey, wp_psk = dflt psk (JStr ''''),
                 wp_allowedIPs = ips, wp_keepAlive = dflt keepAlive (jint 0)\<rparr>, w) }"

definition Peer_fromJson :: "jsv \<Rightarrow> world \<Rightarrow> (Peer \<times> world) option" where
  "Peer_fromJson json w =
     (let json = dflt json (JObj []) in
      do { privateKey \<leftarrow> js_get json ''privateKey'';
           publicKey \<leftarrow> js_get json ''publicKey'';
           preSharedKey \<leftarrow> js_get json ''preSharedKey'';
           allowedIPs \<leftarrow> js_get json ''allowedIPs'';
           keepAlive \<leftarrow> js_get json ''keepAlive'';
           new_Peer privateKey publicKey preSharedKey allowedIPs keepAlive w })"

text \<open>Saving also writes the completed addresses back into the peer.\<close>

definition Peer_toJson :: "Peer \<Rightarrow> (jsv \<times> Peer) option" where
  "Peer_toJson p =
     do { ips \<leftarrow> mapM add_mask (wp_allowedIPs p);
          len \<leftarrow> js_get (wp_psk p) ''length'';
          Some (JObj [(''privateKey'', wp_privateKey p),
                      (''publicKey'', wp_publicKey p),
                      (''preSharedKey'', opt_val (js_gt len (jint 0)) (wp_psk p)),
                      (''allowedIPs'', JArr ips),
                      (''keepAlive'', nullish (wp_keepAlive p) JUndef)],
                p\<lparr>wp_allowedIPs := ips\<rparr>) }"

definition masked :: "jsv \<Rightarrow> bool" where
  "masked v \<longleftrightarrow> (\<exists>s. v = JStr s \<and> (s = '''' \<or> CHR ''/'' \<in> set s))"

lemma add_mask_masked: "add_mask (JStr s) = Some v \<Longrightarrow> masked v"
  by (auto simp: masked_def split: if_splits)

lemma masked_kept: "masked v \<Longrightarrow> add_mask v = Some v \<and> wire v = v \<and> v \<noteq> JUndef"
  by (auto simp: masked_def)

lemma all_masked_kept: "list_all masked vs \<Longrightarrow> mapM add_mask vs = Some vs \<and> map wire vs = vs \<and> JUndef \<notin> set vs"
proof (induction vs)
  case (Cons v vs)
  with masked_kept [of v] show ?case by auto
qed simp

lemma wire_masked: "list_all masked vs \<Longrightarrow> wire (JArr vs) = JArr vs"
proof -
  assume "list_all masked vs"
  note k = all_masked_kept [OF this]
  then have "map (\<lambda>v. if v = JUndef then JNull else wire v) vs = map wire vs"
    by (intro map_cong) auto
  with k show ?thesis by simp
qed

definition Peer_ok :: "Peer \<Rightarrow> bool" where
  "Peer_ok p \<longleftrightarrow> opt_field_ok (wp_privateKey p) \<and> field_ok (wp_publicKey p) \<and> truthy (wp_publicKey p) \<and>
     is_string (wp_psk p) \<and> list_all masked (wp_allowedIPs p) \<and> set_field (wp_keepAlive p)"

lemma Peer_saved:
  assumes "Peer_ok p"
  shows "\<exists>v. Peer_toJson p = Some (v, p) \<and> v \<noteq> JUndef \<and> (\<forall>w. Peer_fromJson (wire v) w = Some (p, w))"
proof -
  note ok = assms [unfolded Peer_ok_def]
  obtain s where s: "wp_psk p = JStr s" using ok by (auto simp: is_string_iff)
  note k = all_masked_kept wire_masked
  let ?v = "JObj [(''privateKey'', wp_privateKey p), (''publicKey'', wp_publicKey p),
    (''preSharedKey'', opt_val (s \<noteq> '''') (JStr s)), (''allowedIPs'', JArr (wp_allowedIPs p)),
    (''keepAlive'', wp_keepAlive p)]"
  have e: "Peer_toJson p = Some (?v, p)"
    using ok k [of "wp_allowedIPs p"] by (simp add: Peer_toJson_def s)
  have m: "mask_all (wire (JArr (wp_allowedIPs p))) = Some (wp_allowedIPs p)"
    using k [of "wp_allowedIPs p"] ok by (simp del: wire.simps(6))
  have "Peer_fromJson (wire ?v) w = Some (p, w)" for w
    using ok s by (simp add: Peer_fromJson_def js_get_wire new_Peer_def m field_ok_def opt_field_ok_def opt_val_def
        del: wire.simps(6))
  with e show ?thesis by blast
qed

interpretation wp_codec: world_codec "\<lambda>p. map_option fst (Peer_toJson p)" Peer_fromJson Peer_ok
  using Peer_saved by unfold_locales force+

section \<open>Inbound.WireguardSettings\<close>

record WireguardSettings =
  wg_mtu :: jsv
  wg_secretKey :: jsv
  wg_pubKey :: jsv
  wg_peers :: "Peer list"
  wg_noKernelTun :: jsv

text \<open>\<open>secretKey.length > 0 ? Wireguard.generateKeypair(secretKey).publicKey : ''\<close>\<close>

definition public_key_of :: "jsv \<Rightarrow> jsv option" where
  "public_key_of secretKey =
     do { len \<leftarrow> js_get secretKey ''length'';
          if js_gt len (jint 0)
          then do { k \<leftarrow> keyFromBase64 (js_to_string secretKey);
                    Some (JStr (keyToBase64 (generatePublicKey k))) }
          else Some (JStr '''') }"

lemma public_key_of_keypair:
  "s \<noteq> '''' \<Longrightarrow> public_key_of (JStr s) = map_option (\<lambda>r. JStr (fst (fst r))) (generateKeypair s w)"
  by (cases "keyFromBase64 s") (simp_all add: public_key_of_def generateKeypair_def)

definition new_WireguardSettings ::
  "jsv \<Rightarrow> jsv \<Rightarrow> Peer list option \<Rightarrow> jsv \<Rightarrow> world \<Rightarrow> (WireguardSettings \<times> world) option" where
  "new_WireguardSettings mtu secretKey peers noKernelTun w =
     do { (secretKey, w) \<leftarrow>
            (if secretKey = JUndef then do { ((pub, priv), w) \<leftarrow> generateKeypair '''' w; Some (JStr priv, w) }
             else Some (secretKey, w));
          (peers, w) \<leftarrow>
            (case peers of Some ps \<Rightarrow> Some (ps, w)
             | None \<Rightarrow> do { (p, w) \<leftarrow> new_Peer JUndef JUndef JUndef JUndef JUndef w; Some ([p], w) });
          pubKey \<leftarrow> public_key_of secretKey;
          Some (\<lparr>wg_mtu = dflt mtu (jint 1420), wg_secretKey = secretKey, wg_pubKey = pubKey, wg_peers = peers,
                 wg_noKernelTun = dflt noKernelTun (JBool False)\<rparr>, w) }"

definition wg_addPeer :: "WireguardSettings \<Rightarrow> world \<Rightarrow> (WireguardSettings \<times> world) option" where
  "wg_addPeer x w =
     do { (p, w) \<leftarrow> new_Peer JNull JNull (JStr '''')
            (JArr [JStr (''10.0.0.'' @ show_nat (length (wg_peers x) + 2))]) JUndef w;
          Some (x\<lparr>wg_peers := wg_peers x @ [p]\<rparr>, w) }"

definition wg_delPeer :: "nat \<Rightarrow> WireguardSettings \<Rightarrow> WireguardSettings" where
  "wg_delPeer index x = x\<lparr>wg_peers := splice1 index (wg_peers x)\<rparr>"

definition WireguardSettings_fromJson :: "jsv \<Rightarrow> world \<Rightarrow> (WireguardSettings \<times> world) option" where
  "WireguardSettings_fromJson json w =
     (let json = dflt json (JObj []) in
      do { mtu \<leftarrow> js_get json ''mtu'';
           secretKey \<leftarrow> js_get json ''secretKey'';
           v \<leftarrow> js_get json ''peers'';
           (peers, w) \<leftarrow> js_mapW Peer_fromJson v w;
           noKernelTun \<leftarrow> js_get json ''noKernelTun'';
           new_WireguardSettings mtu secretKey (Some peers) noKernelTun w })"

definition WireguardSettings_toJson :: "WireguardSettings \<Rightarrow> (jsv \<times> WireguardSettings) option" where
  "WireguardSettings_toJson x =
     do { rs \<leftarrow> mapM Peer_toJson (wg_peers x);
          Some (JObj [(''mtu'', nullish (wg_mtu x) JUndef),
                      (''secretKey'', wg_secretKey x),
                      (''peers'', JArr (map fst rs)),
                      (''noKernelTun'', wg_noKernelTun x)],
                x\<lparr>wg_peers := map snd rs\<rparr>) }"

definition WireguardSettings_ok :: "WireguardSettings \<Rightarrow> bool" where
  "WireguardSettings_ok x \<longleftrightarrow> set_field (wg_mtu x) \<and> is_string (wg_secretKey x) \<and>
     public_key_of (wg_secretKey x) = Some (wg_pubKey x) \<and> list_all Peer_ok (wg_peers x) \<and> field_ok (wg_noKernelTun x)"

lemma peers_saved:
  "list_all Peer_ok ps \<Longrightarrow> \<exists>vs. mapM Peer_toJson ps = Some (zip vs ps) \<and> length vs = length ps \<and>
     mapM (\<lambda>p. map_option fst (Peer_toJson p)) ps = Some vs"
proof (induction ps)
  case (Cons p ps)
  then obtain vs where "mapM Peer_toJson ps = Some (zip vs ps)" "length vs = length ps"
    "mapM (\<lambda>p. map_option fst (Peer_toJson p)) ps = Some vs" by auto
  moreover obtain v where "Peer_toJson p = Some (v, p)" using Peer_saved [of p] Cons.prems by auto
  ultimately show ?case by (intro exI [of _ "v # vs"]) simp
qed simp

lemma WireguardSettings_saved:
  assumes "WireguardSettings_ok x"
  shows "\<exists>v. WireguardSettings_toJson x = Some (v, x) \<and> v \<noteq> JUndef \<and>
    (\<forall>w. WireguardSettings_fromJson (wire v) w = Some (x, w))"
proof -
  note ok = assms [unfolded WireguardSettings_ok_def]
  obtain vs where vs: "mapM Peer_toJson (wg_peers x) = Some (zip vs (wg_peers x))" "length vs = length (wg_peers x)"
    "mapM (\<lambda>p. map_option fst (Peer_toJson p)) (wg_peers x) = Some vs"
    using peers_saved ok by blast
  obtain v where v: "toJsonArray (\<lambda>p. map_option fst (Peer_toJson p)) (wg_peers x) = Some v"
    "\<forall>w. js_mapW Peer_fromJson (wire v) w = Some (wg_peers x, w)"
    using wp_codec.array_loaded ok by blast
  from v(1) vs(3) have "v = JArr vs" by (simp add: toJsonArray_def)
  with v(2) have l: "js_mapW Peer_fromJson (wire (JArr vs)) w = Some (wg_peers x, w)" for w by simp
  have "is_string (wg_secretKey x)" using ok by blast
  then obtain s where s: "wg_secretKey x = JStr s" by (auto simp: is_string_iff)
  let ?v = "JObj [(''mtu'', wg_mtu x), (''secretKey'', wg_secretKey x), (''peers'', JArr vs),
    (''noKernelTun'', wg_noKernelTun x)]"
  have "WireguardSettings_toJson x = Some (?v, x)"
    using ok vs by (cases x) (simp add: WireguardSettings_toJson_def)
  moreover have "WireguardSettings_fromJson (wire ?v) w = Some (x, w)" for w
    using ok s l by (cases x) (simp add: WireguardSettings_fromJson_def js_get_wire new_WireguardSettings_def
        field_ok_def del: wire.simps(6))
  ultimately show ?thesis by blast
qed

interpretation wg_codec: world_codec "\<lambda>x. map_option fst (WireguardSettings_toJson x)"
  WireguardSettings_fromJson WireguardSettings_ok
  using WireguardSettings_saved by unfold_locales force+

section \<open>The addresses of new peers\<close>

text \<open>The n-th peer that the form makes has the address 10.0.0.(n+1)/32.\<close>

definition peer_ip :: "nat \<Rightarrow> jsv" where
  "peer_ip i = JStr (''10.0.0.'' @ show_nat (i + 2) @ ''/32'')"

definition numbered :: "WireguardSettings \<Rightarrow> bool" where
  "numbered x \<longleftrightarrow> map wp_allowedIPs (wg_peers x) = map (\<lambda>i. [peer_ip i]) [0..<length (wg_peers x)]"

lemma show_nat_inject: "show_nat m = show_nat n \<Longrightarrow> m = n"
  by (metis read_show_nat)

lemma peer_ip_inject: "peer_ip i = peer_ip j \<Longrightarrow> i = j"
  by (auto simp: peer_ip_def dest: show_nat_inject)

lemma digits_no_slash: "CHR ''/'' \<notin> set (show_nat n)"
  using show_nat_digits [of n] by (auto simp: is_digit_def)

lemma addPeer_ip:
  "wg_addPeer x w = Some (y, w') \<Longrightarrow>
   \<exists>p. wg_peers y = wg_peers x @ [p] \<and> wp_allowedIPs p = [peer_ip (length (wg_peers x))]"
  using digits_no_slash [of "Suc (Suc (length (wg_peers x)))"]
  by (auto simp: wg_addPeer_def new_Peer_def peer_ip_def split: bind_splits)

lemma addPeer_numbered: "numbered x \<Longrightarrow> wg_addPeer x w = Some (y, w') \<Longrightarrow> numbered y"
  using addPeer_ip [of x w y w'] by (auto simp: numbered_def)

lemma numbered_distinct: "numbered x \<Longrightarrow> distinct (map wp_allowedIPs (wg_peers x))"
  by (auto simp: numbered_def distinct_map inj_on_def dest: peer_ip_inject)

lemma addPeer_total: "\<exists>y w'. wg_addPeer x w = Some (y, w')"
  by (simp add: wg_addPeer_def new_Peer_def generateKeypair_def split_beta)

lemma addPeer_steps:
  assumes "numbered x"
  obtains y w' where "wg_addPeer x w = Some (y, w')" "numbered y"
    "length (wg_peers y) = Suc (length (wg_peers x))"
    "wp_allowedIPs (last (wg_peers y)) = [peer_ip (length (wg_peers x))]"
  using addPeer_total [of x w] addPeer_ip [of x w] addPeer_numbered [OF assms, of w]
  by (metis last_snoc length_append_singleton)

fun addPeers :: "nat \<Rightarrow> WireguardSettings \<Rightarrow> world \<Rightarrow> (WireguardSettings \<times> world) option" where
  "addPeers 0 x w = Some (x, w)"
| "addPeers (Suc n) x w = do { (x, w) \<leftarrow> wg_addPeer x w; addPeers n x w }"

lemma addPeers_numbered:
  "numbered x \<Longrightarrow> \<exists>y w'. addPeers n x w = Some (y, w') \<and> numbered y \<and> length (wg_peers y) = length (wg_peers x) + n"
proof (induction n arbitrary: x w)
  case (Suc n)
  obtain y w' where y: "wg_addPeer x w = Some (y, w')" "numbered y" "length (wg_peers y) = Suc (length (wg_peers x))"
    by (rule addPeer_steps [OF Suc.prems])
  from Suc.IH [OF y(2)] y(1,3) show ?case by simp
qed simp

text \<open>
  C18: adding peers to a WireGuard inbound never repeats an address. Starting from settings
  whose peers are numbered (as those of a new inbound are), any number of calls of \<open>addPeer\<close>
  succeeds, and the peers then have the addresses 10.0.0.2/32, 10.0.0.3/32, ... in order, so no
  two of them share one.
\<close>
theorem addPeers_distinct:
  assumes "numbered x"
  shows "\<exists>y w'. addPeers n x w = Some (y, w') \<and>
    map wp_allowedIPs (wg_peers y) = map (\<lambda>i. [peer_ip i]) [0..<length (wg_peers x) + n] \<and>
    distinct (map wp_allowedIPs (wg_peers y))"
proof -
  obtain y w' where y: "addPeers n x w = Some (y, w')" "numbered y" "length (wg_peers y) = length (wg_peers x) + n"
    using addPeers_numbered [OF assms] by blast
  with numbered_distinct [OF y(2)] show ?thesis by (metis numbered_def)
qed

definition sample_wg :: WireguardSettings where
  "sample_wg = \<lparr>wg_mtu = jint 1420, wg_secretKey = JStr '''', wg_pubKey = JStr '''',
     wg_peers = [\<lparr>wp_privateKey = JUndef, wp_publicKey = JStr ''k'', wp_psk = JStr '''',
       wp_allowedIPs = [peer_ip 0], wp_keepAlive = jint 0\<rparr>], wg_noKernelTun = JBool False\<rparr>"

lemma sample_numbered: "numbered sample_wg"
  by (simp add: numbered_def sample_wg_def)

theorem addPeers_distinct_witness:
  "\<exists>y w'. addPeers 3 sample_wg sample_world = Some (y, w') \<and>
    map wp_allowedIPs (wg_peers y) = map (\<lambda>i. [peer_ip i]) [0..<length (wg_peers sample_wg) + 3] \<and>
    distinct (map wp_allowedIPs (wg_peers y))"
  by (rule addPeers_distinct [OF sample_numbered])

text \<open>
  C39: deleting a peer and adding one makes two peers share an address. The code numbers a new
  peer by the length of the list, so when any peer but the last of a numbered list is deleted,
  the next \<open>addPeer\<close> gives the address of the peer that was last.
\<close>
theorem delPeer_then_addPeer_collides:
  assumes "numbered x" and "Suc i < length (wg_peers x)"
  shows "\<exists>y w'. wg_addPeer (wg_delPeer i x) w = Some (y, w') \<and>
    wp_allowedIPs (last (wg_peers y)) = wp_allowedIPs (last (wg_peers x)) \<and>
    \<not> distinct (map wp_allowedIPs (wg_peers y))"
proof -
  let ?n = "length (wg_peers x)" and ?d = "wg_delPeer i x"
  obtain y w' where y: "wg_addPeer ?d w = Some (y, w')" using addPeer_total by blast
  obtain p where p: "wg_peers y = wg_peers ?d @ [p]" "wp_allowedIPs p = [peer_ip (length (wg_peers ?d))]"
    using addPeer_ip [OF y] by blast
  have len: "length (wg_peers ?d) = ?n - 1"
    using assms(2) by (simp add: wg_delPeer_def length_splice1)
  have ne: "wg_peers x \<noteq> []" using assms(2) by auto
  have less: "?n - 1 < ?n" using assms(2) by simp
  have "map wp_allowedIPs (wg_peers x) ! (?n - 1) = [peer_ip (?n - 1)]"
    using assms less by (simp add: numbered_def del: upt.simps)
  then have last: "wp_allowedIPs (last (wg_peers x)) = [peer_ip (?n - 1)]"
    using ne by (simp add: last_conv_nth)
  have "last (wg_peers x) \<in> set (wg_peers ?d)"
    using assms(2) by (simp add: wg_delPeer_def splice1_def) (metis last_drop last_in_set drop_eq_Nil not_less)
  then have "wp_allowedIPs p \<in> set (map wp_allowedIPs (wg_peers ?d))"
    using last p(2) len by (force simp: image_iff)
  with y p last len show ?thesis by auto
qed

theorem delPeer_then_addPeer_collides_witness:
  "\<exists>x y w'. addPeers 1 sample_wg sample_world = Some (x, w') \<and>
     wg_addPeer (wg_delPeer 0 x) sample_world = Some y \<and> \<not> distinct (map wp_allowedIPs (wg_peers (fst y)))"
proof -
  obtain x w' where x: "addPeers 1 sample_wg sample_world = Some (x, w')" "numbered x"
    "length (wg_peers x) = length (wg_peers sample_wg) + 1"
    using addPeers_numbered [OF sample_numbered] by blast
  then have "Suc 0 < length (wg_peers x)" by (simp add: sample_wg_def)
  from delPeer_then_addPeer_collides [OF x(2) this, of sample_world] x(1) show ?thesis by fastforce
qed

lemma char_byte: "0 \<le> (of_char c :: int)" "(of_char c :: int) < 256"
proof -
  have "(of_char c :: int) = int (of_char c)" by (rule of_nat_of_char [symmetric])
  then show "0 \<le> (of_char c :: int)" "(of_char c :: int) < 256" by simp_all
qed

text \<open>
  C19: the public key that a WireGuard inbound shows belongs to its secret key. Building the
  settings from any text that decodes to 32 bytes keeps the secret key as it is and derives
  a public key whose bytes are the X25519 image of the clamped secret scalar.
\<close>
theorem wg_public_key_derived:
  assumes "keyFromBase64 s = Some k" and "length k = 32"
  shows "\<exists>x pub p. new_WireguardSettings mtu (JStr s) (Some ps) noKernelTun w = Some (x, w) \<and>
    wg_secretKey x = JStr s \<and> wg_pubKey x = JStr pub \<and> keyFromBase64 pub = Some p \<and>
    bytes_val p = x25519 (decode_scalar (bytes_val k)) 9"
proof -
  have bytes: "is_bytes k"
    using assms(1) char_byte by (auto simp: keyFromBase64_def is_bytes_def)
  have s: "s \<noteq> ''''"
  proof
    assume "s = ''''"
    with assms have "k = []" by (auto simp: keyFromBase64_def atob_def strip_pad_def split: bind_splits)
    with assms(2) show False by simp
  qed
  note g = generatePublicKey_core [OF assms(2) bytes]
  have "keyFromBase64 (keyToBase64 (generatePublicKey k)) = Some (generatePublicKey k)"
    by (rule keyFromBase64_core [OF g(2,3)])
  then show ?thesis using g(1) s assms(1)
    by (simp add: new_WireguardSettings_def public_key_of_def)
qed

theorem wg_public_key_derived_witness:
  "\<exists>x pub p. new_WireguardSettings JUndef (JStr (keyToBase64 (replicate 32 7))) (Some []) JUndef sample_world =
       Some (x, sample_world) \<and>
     wg_secretKey x = JStr (keyToBase64 (replicate 32 7)) \<and> wg_pubKey x = JStr pub \<and> keyFromBase64 pub = Some p \<and>
     bytes_val p = x25519 (decode_scalar (bytes_val (replicate 32 7))) 9"
  by (rule wg_public_key_derived, rule keyFromBase64_core) (auto simp: is_bytes_def)

end
