(* ===== verification/InTun.thy ===== *)
theory InTun
  imports InVpn
begin

text \<open>TUN inbounds (web/assets/js/model/inbound.js).\<close>

section \<open>Inbound.TunSettings\<close>

record TunSettings =
  tu_name :: jsv
  tu_mtu :: jsv
  tu_gateway :: jsv
  tu_dns :: jsv
  tu_userLevel :: jsv
  tu_autoSystemRoutingTable :: jsv
  tu_autoOutboundsInterface :: jsv

text \<open>\<open>Number(v) || d\<close>; the normal form of an MTU is a pair of such numbers.\<close>

definition number_or :: "jsv \<Rightarrow> int \<Rightarrow> jsv" where
  "number_or v d = js_or (JNum (js_to_number v)) (jint d)"

fun normalizeMtu :: "jsv \<Rightarrow> jsv" where
  "normalizeMtu (JArr []) = JArr [jint 1500, jint 1280]"
| "normalizeMtu (JArr [m]) = JArr [number_or m 1500, number_or m 1500]"
| "normalizeMtu (JArr (m # n # _)) = JArr [number_or m 1500, number_or n 1280]"
| "normalizeMtu m = JArr [number_or m 1500, number_or m 1500]"

definition new_TunSettings :: "jsv \<Rightarrow> jsv \<Rightarrow> jsv \<Rightarrow> jsv \<Rightarrow> jsv \<Rightarrow> jsv \<Rightarrow> jsv \<Rightarrow> TunSettings" where
  "new_TunSettings name mtu gateway dns userLevel autoSystemRoutingTable autoOutboundsInterface =
     \<lparr>tu_name = dflt name (JStr ''xray0''),
      tu_mtu = normalizeMtu (dflt mtu (JArr [jint 1500, jint 1280])),
      tu_gateway = slice_or_empty (dflt gateway (JArr [])),
      tu_dns = slice_or_empty (dflt dns (JArr [])),
      tu_userLevel = dflt userLevel (jint 0),
      tu_autoSystemRoutingTable = slice_or_empty (dflt autoSystemRoutingTable (JArr [])),
      tu_autoOutboundsInterface = dflt autoOutboundsInterface (JStr ''auto'')\<rparr>"

definition TunSettings_fromJson :: "jsv \<Rightarrow> TunSettings option" where
  "TunSettings_fromJson json =
     (let json = dflt json (JObj []) in
      do { name \<leftarrow> js_get json ''name'';
           mtu \<leftarrow> js_get json ''mtu'';
           old_mtu \<leftarrow> js_get json ''MTU'';
           gateway \<leftarrow> js_get json ''gateway'';
           old_gateway \<leftarrow> js_get json ''Gateway'';
           dns \<leftarrow> js_get json ''dns'';
           old_dns \<leftarrow> js_get json ''DNS'';
           userLevel \<leftarrow> js_get json ''userLevel'';
           autoSystemRoutingTable \<leftarrow> js_get json ''autoSystemRoutingTable'';
           autoOutboundsInterface \<leftarrow> js_get json ''autoOutboundsInterface'';
           Some (new_TunSettings (nullish name (JStr ''xray0''))
             (nullish (nullish mtu old_mtu) (JArr [jint 1500, jint 1280]))
             (nullish (nullish gateway old_gateway) (JArr []))
             (nullish (nullish dns old_dns) (JArr []))
             (nullish userLevel (jint 0))
             (nullish autoSystemRoutingTable (JArr []))
             (if ''autoOutboundsInterface'' \<in> set (keys (own_entries json)) then autoOutboundsInterface
              else JStr ''auto'')) })"

definition TunSettings_toJson :: "TunSettings \<Rightarrow> jsv" where
  "TunSettings_toJson x =
     JObj [(''name'', js_or (tu_name x) (JStr ''xray0'')),
           (''mtu'', normalizeMtu (tu_mtu x)),
           (''gateway'', tu_gateway x),
           (''dns'', tu_dns x),
           (''userLevel'', js_or (tu_userLevel x) (jint 0)),
           (''autoSystemRoutingTable'', tu_autoSystemRoutingTable x),
           (''autoOutboundsInterface'', tu_autoOutboundsInterface x)]"

text \<open>The normal form: two numbers, neither zero nor NaN. Normalising changes nothing in it.\<close>

definition mtu_number :: "jsv \<Rightarrow> bool" where
  "mtu_number v \<longleftrightarrow> truthy v \<and> (\<exists>n. v = JNum n)"

lemma number_or_number: "0 < d \<Longrightarrow> mtu_number (number_or v d)"
  by (auto simp: mtu_number_def number_or_def js_or_def)

lemma number_or_id: "mtu_number v \<Longrightarrow> number_or v d = v"
  by (auto simp: mtu_number_def number_or_def js_or_def)

lemma normalizeMtu_pair: "\<exists>m n. normalizeMtu v = JArr [m, n] \<and> mtu_number m \<and> mtu_number n"
  by (induction v rule: normalizeMtu.induct) (simp_all add: number_or_number, simp_all add: mtu_number_def)

lemma normalizeMtu_fixed: "mtu_number m \<Longrightarrow> mtu_number n \<Longrightarrow> normalizeMtu (JArr [m, n]) = JArr [m, n]"
  by (simp add: number_or_id)

lemma normalizeMtu_idem: "normalizeMtu (normalizeMtu v) = normalizeMtu v"
  using normalizeMtu_pair [of v] normalizeMtu_fixed by fastforce

definition TunSettings_ok :: "TunSettings \<Rightarrow> bool" where
  "TunSettings_ok x \<longleftrightarrow>
     set_field (tu_name x) \<and> truthy (tu_name x) \<and> normalizeMtu (tu_mtu x) = tu_mtu x \<and> field_ok (tu_mtu x) \<and>
     array_ok (tu_gateway x) \<and> array_ok (tu_dns x) \<and> set_field (tu_userLevel x) \<and>
     js_or (tu_userLevel x) (jint 0) = tu_userLevel x \<and> array_ok (tu_autoSystemRoutingTable x) \<and>
     field_ok (tu_autoOutboundsInterface x)"

lemma array_ok_field: "array_ok v \<Longrightarrow> set_field v"
  unfolding array_ok_def set_field_def field_ok_def by (cases v; simp del: wire.simps)

lemma TunSettings_saved:
  assumes "TunSettings_ok x"
  shows "TunSettings_fromJson (wire (TunSettings_toJson x)) = Some x"
proof -
  note ok = assms [unfolded TunSettings_ok_def]
  let ?kvs = "[(''name'', tu_name x), (''mtu'', tu_mtu x), (''gateway'', tu_gateway x), (''dns'', tu_dns x),
     (''userLevel'', tu_userLevel x), (''autoSystemRoutingTable'', tu_autoSystemRoutingTable x),
     (''autoOutboundsInterface'', tu_autoOutboundsInterface x)]"
  have e: "TunSettings_toJson x = JObj ?kvs" using ok by (simp add: TunSettings_toJson_def js_or_def)
  have s: "set_field (tu_gateway x)" "set_field (tu_dns x)" "set_field (tu_autoSystemRoutingTable x)"
    using ok by (simp_all add: array_ok_field)
  have m: "set_field (tu_mtu x)"
    using ok normalizeMtu_pair [of "tu_mtu x"] by (auto simp: set_field_def)
  have "''autoOutboundsInterface'' \<in> set (keys (own_entries (wire (JObj ?kvs))))"
    using ok by (simp add: wire.simps(7) field_ok_def)
  with ok s m show ?thesis unfolding e
    by (cases x) (simp add: TunSettings_fromJson_def js_get_wire new_TunSettings_def array_ok_saved field_ok_def)
qed

interpretation tu_codec: json_codec "\<lambda>x. Some (TunSettings_toJson x)" TunSettings_fromJson TunSettings_ok
  by (rule json_codec_totalI) (simp add: TunSettings_saved, simp add: TunSettings_toJson_def)

text \<open>
  The MTU of a TUN inbound is always a pair of usable numbers. Whatever the configuration
  holds (nothing, one number, a text, a list of any length, an object), \<open>normalizeMtu\<close> gives a
  list of two numbers, neither zero nor NaN; numbers already given are kept, and applying it
  again changes nothing, so a saved MTU loads as itself.
\<close>
theorem normalizeMtu_canonical:
  "\<exists>m n. normalizeMtu v = JArr [m, n] \<and> mtu_number m \<and> mtu_number n \<and>
     normalizeMtu (JArr [m, n]) = JArr [m, n]"
  using normalizeMtu_pair [of v] normalizeMtu_fixed by metis

end
