(* ===== verification/InSniff.thy ===== *)
theory InSniff
  imports InVpn
begin

text \<open>Sniffing of an inbound (web/assets/js/model/inbound.js).\<close>

section \<open>Sniffing\<close>

record Sniffing =
  sn_enabled :: jsv
  sn_destOverride :: jsv
  sn_metadataOnly :: jsv
  sn_routeOnly :: jsv
  sn_ipsExcluded :: jsv
  sn_domainsExcluded :: jsv

definition default_destOverride :: jsv where
  "default_destOverride = JArr [JStr ''http'', JStr ''tls'', JStr ''quic'', JStr ''fakedns'']"

text \<open>\<open>ObjectUtil.isArrEmpty\<close>\<close>

definition isArrEmpty :: "jsv \<Rightarrow> bool" where
  "isArrEmpty v \<longleftrightarrow> \<not> isEmpty v \<and> js_get v ''length'' = Some (jint 0)"

definition new_Sniffing :: "jsv \<Rightarrow> jsv \<Rightarrow> jsv \<Rightarrow> jsv \<Rightarrow> jsv \<Rightarrow> jsv \<Rightarrow> Sniffing" where
  "new_Sniffing enabled destOverride metadataOnly routeOnly ipsExcluded domainsExcluded =
     (let destOverride = dflt destOverride default_destOverride in
      \<lparr>sn_enabled = dflt enabled (JBool False),
       sn_destOverride = (if is_array destOverride \<and> destOverride \<noteq> JArr [] then destOverride
                          else default_destOverride),
       sn_metadataOnly = dflt metadataOnly (JBool False),
       sn_routeOnly = dflt routeOnly (JBool False),
       sn_ipsExcluded = slice_or_empty (dflt ipsExcluded (JArr [])),
       sn_domainsExcluded = slice_or_empty (dflt domainsExcluded (JArr []))\<rparr>)"

definition default_Sniffing :: Sniffing where
  "default_Sniffing = new_Sniffing JUndef JUndef JUndef JUndef JUndef JUndef"

text \<open>A list that is missing, empty, or whose first entry is blank is replaced by the default.\<close>

definition dest_missing :: "jsv \<Rightarrow> bool" where
  "dest_missing v \<longleftrightarrow> isEmpty v \<or> isArrEmpty v \<or> (case js_index v 0 of None \<Rightarrow> True | Some d \<Rightarrow> isEmpty d)"

definition Sniffing_fromJson :: "jsv \<Rightarrow> Sniffing option" where
  "Sniffing_fromJson json =
     (let json = dflt json (JObj []) in
      do { destOverride \<leftarrow> js_get json ''destOverride'';
           enabled \<leftarrow> js_get json ''enabled'';
           metadataOnly \<leftarrow> js_get json ''metadataOnly'';
           routeOnly \<leftarrow> js_get json ''routeOnly'';
           ipsExcluded \<leftarrow> js_get json ''ipsExcluded'';
           domainsExcluded \<leftarrow> js_get json ''domainsExcluded'';
           Some (new_Sniffing (JBool (truthy enabled))
             (if dest_missing destOverride then default_destOverride else destOverride)
             metadataOnly routeOnly (js_or ipsExcluded (JArr [])) (js_or domainsExcluded (JArr []))) })"

text \<open>\<open>v.length > 0 ? v : undefined\<close>\<close>

definition nonempty_or_undef :: "jsv \<Rightarrow> jsv option" where
  "nonempty_or_undef v = do { len \<leftarrow> js_get v ''length''; Some (opt_val (js_gt len (jint 0)) v) }"

definition Sniffing_toJson :: "Sniffing \<Rightarrow> jsv option" where
  "Sniffing_toJson x =
     do { ipsExcluded \<leftarrow> nonempty_or_undef (sn_ipsExcluded x);
          domainsExcluded \<leftarrow> nonempty_or_undef (sn_domainsExcluded x);
          Some (JObj [(''enabled'', sn_enabled x),
                      (''destOverride'', sn_destOverride x),
                      (''metadataOnly'', sn_metadataOnly x),
                      (''routeOnly'', sn_routeOnly x),
                      (''ipsExcluded'', ipsExcluded),
                      (''domainsExcluded'', domainsExcluded)]) }"

lemma nonempty_or_undef_array:
  assumes "array_ok v"
  shows "\<exists>u. nonempty_or_undef v = Some u \<and> slice_or_empty (dflt (js_or (wire u) (JArr [])) (JArr [])) = v"
proof -
  obtain vs where v: "v = JArr vs" using assms by (cases v) (auto simp: array_ok_def)
  have w: "wire (JArr vs) = JArr vs" using assms by (simp add: array_ok_def v del: wire.simps(6))
  show ?thesis
  proof (cases "vs = []")
    case True
    then show ?thesis by (simp add: v nonempty_or_undef_def opt_val_def js_or_def slice_or_empty_def)
  next
    case False
    then have "nonempty_or_undef v = Some (JArr vs)" by (simp add: v nonempty_or_undef_def opt_val_def)
    moreover have "slice_or_empty (dflt (js_or (wire (JArr vs)) (JArr [])) (JArr [])) = v"
      unfolding w by (simp add: v js_or_def slice_or_empty_def)
    ultimately show ?thesis by blast
  qed
qed

text \<open>What a loaded instance looks like: flags as booleans, a destination list with a first entry.\<close>

fun is_bool :: "jsv \<Rightarrow> bool" where
  "is_bool (JBool b) = True"
| "is_bool _ = False"

definition Sniffing_ok :: "Sniffing \<Rightarrow> bool" where
  "Sniffing_ok x \<longleftrightarrow> is_bool (sn_enabled x) \<and> array_ok (sn_destOverride x) \<and> \<not> dest_missing (sn_destOverride x) \<and>
     field_ok (sn_metadataOnly x) \<and> field_ok (sn_routeOnly x) \<and>
     array_ok (sn_ipsExcluded x) \<and> array_ok (sn_domainsExcluded x)"

lemma dest_present: "\<not> dest_missing v \<Longrightarrow> v \<noteq> JUndef \<and> v \<noteq> JArr []"
  by (auto simp: dest_missing_def isEmpty_def isArrEmpty_def)

lemma Sniffing_roundtrip:
  assumes "Sniffing_ok x"
  shows "\<exists>v. Sniffing_toJson x = Some v \<and> v \<noteq> JUndef \<and> Sniffing_fromJson (wire v) = Some x"
proof -
  note ok = assms [unfolded Sniffing_ok_def]
  obtain b where b: "sn_enabled x = JBool b" using ok by (cases "sn_enabled x") auto
  obtain i where i: "nonempty_or_undef (sn_ipsExcluded x) = Some i"
    "slice_or_empty (dflt (js_or (wire i) (JArr [])) (JArr [])) = sn_ipsExcluded x"
    using nonempty_or_undef_array ok by blast
  obtain d where d: "nonempty_or_undef (sn_domainsExcluded x) = Some d"
    "slice_or_empty (dflt (js_or (wire d) (JArr [])) (JArr [])) = sn_domainsExcluded x"
    using nonempty_or_undef_array ok by blast
  have a: "wire (sn_destOverride x) = sn_destOverride x" "is_array (sn_destOverride x)"
    using ok by (simp_all add: array_ok_def)
  note p = dest_present [of "sn_destOverride x"]
  let ?v = "JObj [(''enabled'', sn_enabled x), (''destOverride'', sn_destOverride x), (''metadataOnly'', sn_metadataOnly x),
    (''routeOnly'', sn_routeOnly x), (''ipsExcluded'', i), (''domainsExcluded'', d)]"
  have "Sniffing_toJson x = Some ?v" by (simp add: Sniffing_toJson_def i(1) d(1))
  moreover have "Sniffing_fromJson (wire ?v) = Some x"
    using ok a p b by (simp add: Sniffing_fromJson_def js_get_wire new_Sniffing_def field_ok_def i(2) d(2))
  ultimately show ?thesis by blast
qed

interpretation sn_codec: json_codec Sniffing_toJson Sniffing_fromJson Sniffing_ok
  by (rule json_codecI) (rule Sniffing_roundtrip)

text \<open>Whatever is loaded, the instance has a destination list that is not empty.\<close>

lemma new_Sniffing_dest:
  "is_array (sn_destOverride (new_Sniffing a d b c e f))" "sn_destOverride (new_Sniffing a d b c e f) \<noteq> JArr []"
  by (simp_all add: new_Sniffing_def default_destOverride_def Let_def)

lemma sniffing_dest:
  "Sniffing_fromJson json = Some x \<Longrightarrow> is_array (sn_destOverride x) \<and> sn_destOverride x \<noteq> JArr []"
  by (auto simp: Sniffing_fromJson_def Let_def new_Sniffing_dest split: bind_splits)

lemma new_Sniffing_enabled: "is_bool (sn_enabled (new_Sniffing (JBool e) d b c f g))"
  by (simp add: new_Sniffing_def Let_def)

text \<open>
  Sniffing never has an empty destination list. Whatever JSON it is loaded from (no object,
  a list that is missing, empty or starts with a blank, a value that is no list), the instance
  holds a non-empty array of destinations and a boolean switch.
\<close>
theorem sniffing_destinations:
  "case Sniffing_fromJson json of
     None \<Rightarrow> json = JNull
   | Some x \<Rightarrow> is_array (sn_destOverride x) \<and> sn_destOverride x \<noteq> JArr [] \<and> is_bool (sn_enabled x)"
proof (cases "Sniffing_fromJson json")
  case None
  then show ?thesis by (cases json) (auto simp: Sniffing_fromJson_def)
next
  case (Some x)
  then have "is_bool (sn_enabled x)"
    by (auto simp: Sniffing_fromJson_def Let_def new_Sniffing_enabled split: bind_splits)
  with Some sniffing_dest show ?thesis by auto
qed

end
