(* ===== verification/InSettings.thy ===== *)
theory InSettings
  imports InWg InTun InSniff
begin

text \<open>
  Inbound.Settings (web/assets/js/model/inbound.js): the settings of an inbound are one of
  fifteen classes, chosen by the protocol, and no object at all for an unknown protocol.
\<close>

datatype settings = NoSettings
  | VmessSet VmessSettings
  | VlessSet VLESSSettings
  | TrojanSet TrojanSettings
  | ShadowsocksSet ShadowsocksSettings
  | TunnelSet TunnelSettings
  | MixedSet MixedSettings
  | HttpSet HttpSettings
  | WireguardSet WireguardSettings
  | TunSet TunSettings
  | HysteriaSet HysteriaSettings
  | L2tpSet L2tpSettings
  | PptpSet PptpSettings
  | OpenvpnSet OpenvpnSettings
  | OcservSet OcservSettings
  | SstpSet SstpSettings

text \<open>A constructor or loader that does not draw, or that does not throw, among those that may.\<close>

definition plain :: "('a \<Rightarrow> settings) \<Rightarrow> 'a option \<Rightarrow> world \<Rightarrow> (settings \<times> world) option" where
  "plain f r w = map_option (\<lambda>x. (f x, w)) r"

definition drawn :: "('a \<Rightarrow> settings) \<Rightarrow> ('a \<times> world) option \<Rightarrow> (settings \<times> world) option" where
  "drawn f r = map_option (\<lambda>(x, w). (f x, w)) r"

definition getSettings :: "jsv \<Rightarrow> world \<Rightarrow> (settings \<times> world) option" where
  "getSettings protocol w =
     (if protocol = JStr ''vmess'' then drawn VmessSet (Some (new_VmessSettings None w))
     else if protocol = JStr ''vless'' then drawn VlessSet (Some (new_VLESSSettings None JUndef JUndef None JUndef JUndef w))
     else if protocol = JStr ''trojan'' then drawn TrojanSet (Some (new_TrojanSettings None None w))
     else if protocol = JStr ''shadowsocks'' then drawn ShadowsocksSet (Some (new_ShadowsocksSettings JUndef JUndef JUndef None JUndef w))
     else if protocol = JStr ''tunnel'' then plain TunnelSet (Some (new_TunnelSettings JUndef JUndef None JUndef JUndef)) w
     else if protocol = JStr ''mixed'' then drawn MixedSet (Some (new_MixedSettings JUndef None JUndef JUndef w))
     else if protocol = JStr ''http'' then drawn HttpSet (Some (new_HttpSettings None JUndef w))
     else if protocol = JStr ''wireguard'' then drawn WireguardSet (new_WireguardSettings JUndef JUndef None JUndef w)
     else if protocol = JStr ''tun'' then plain TunSet (Some (new_TunSettings JUndef JUndef JUndef JUndef JUndef JUndef JUndef)) w
     else if protocol = JStr ''hysteria'' then drawn HysteriaSet (Some (new_HysteriaSettings JUndef None w))
     else if protocol = JStr ''l2tp'' then drawn L2tpSet (Some (new_L2tpSettings JUndef JUndef JUndef JUndef JUndef JUndef JUndef JUndef JUndef JUndef JUndef None w))
     else if protocol = JStr ''pptp'' then drawn PptpSet (Some (new_PptpSettings JUndef JUndef JUndef JUndef JUndef JUndef JUndef JUndef None w))
     else if protocol = JStr ''openvpn'' then drawn OpenvpnSet (Some (new_OpenvpnSettings JUndef JUndef JUndef JUndef JUndef JUndef JUndef JUndef JUndef JUndef JUndef None JUndef JUndef JUndef JUndef JUndef JUndef JUndef JUndef JUndef JUndef JUndef JUndef JUndef JUndef w))
     else if protocol = JStr ''openconnect'' then drawn OcservSet (Some (new_OcservSettings JUndef JUndef JUndef JUndef JUndef JUndef JUndef JUndef JUndef None JUndef JUndef JUndef JUndef JUndef w))
     else if protocol = JStr ''sstp'' then drawn SstpSet (Some (new_SstpSettings JUndef JUndef JUndef JUndef JUndef JUndef JUndef JUndef JUndef None JUndef JUndef JUndef JUndef JUndef w))
     else Some (NoSettings, w))"

definition settings_fromJson :: "jsv \<Rightarrow> jsv \<Rightarrow> world \<Rightarrow> (settings \<times> world) option" where
  "settings_fromJson protocol json w =
     (if protocol = JStr ''vmess'' then drawn VmessSet (VmessSettings_fromJson json w)
     else if protocol = JStr ''vless'' then drawn VlessSet (VLESSSettings_fromJson json w)
     else if protocol = JStr ''trojan'' then drawn TrojanSet (TrojanSettings_fromJson json w)
     else if protocol = JStr ''shadowsocks'' then drawn ShadowsocksSet (ShadowsocksSettings_fromJson json w)
     else if protocol = JStr ''tunnel'' then plain TunnelSet (TunnelSettings_fromJson json) w
     else if protocol = JStr ''mixed'' then drawn MixedSet (MixedSettings_fromJson json w)
     else if protocol = JStr ''http'' then drawn HttpSet (HttpSettings_fromJson json w)
     else if protocol = JStr ''wireguard'' then drawn WireguardSet (WireguardSettings_fromJson json w)
     else if protocol = JStr ''tun'' then plain TunSet (TunSettings_fromJson json) w
     else if protocol = JStr ''hysteria'' then drawn HysteriaSet (HysteriaSettings_fromJson json w)
     else if protocol = JStr ''l2tp'' then drawn L2tpSet (L2tpSettings_fromJson json w)
     else if protocol = JStr ''pptp'' then drawn PptpSet (PptpSettings_fromJson json w)
     else if protocol = JStr ''openvpn'' then drawn OpenvpnSet (OpenvpnSettings_fromJson json w)
     else if protocol = JStr ''openconnect'' then drawn OcservSet (OcservSettings_fromJson json w)
     else if protocol = JStr ''sstp'' then drawn SstpSet (SstpSettings_fromJson json w)
     else Some (NoSettings, w))"

text \<open>
  \<open>toJson\<close> of the class at hand, with the instance after it; only WireGuard changes it.
\<close>

fun settings_toJson :: "settings \<Rightarrow> (jsv \<times> settings) option" where
  "settings_toJson NoSettings = Some (JNull, NoSettings)"
| "settings_toJson (VmessSet x) = map_option (\<lambda>v. (v, VmessSet x)) (VmessSettings_toJson x)"
| "settings_toJson (VlessSet x) = map_option (\<lambda>v. (v, VlessSet x)) (VLESSSettings_toJson x)"
| "settings_toJson (TrojanSet x) = map_option (\<lambda>v. (v, TrojanSet x)) (TrojanSettings_toJson x)"
| "settings_toJson (ShadowsocksSet x) = map_option (\<lambda>v. (v, ShadowsocksSet x)) (ShadowsocksSettings_toJson x)"
| "settings_toJson (TunnelSet x) = map_option (\<lambda>v. (v, TunnelSet x)) (TunnelSettings_toJson x)"
| "settings_toJson (MixedSet x) = map_option (\<lambda>v. (v, MixedSet x)) (MixedSettings_toJson x)"
| "settings_toJson (HttpSet x) = map_option (\<lambda>v. (v, HttpSet x)) (HttpSettings_toJson x)"
| "settings_toJson (WireguardSet x) = map_option (\<lambda>(v, y). (v, WireguardSet y)) (WireguardSettings_toJson x)"
| "settings_toJson (TunSet x) = Some (TunSettings_toJson x, TunSet x)"
| "settings_toJson (HysteriaSet x) = map_option (\<lambda>v. (v, HysteriaSet x)) (HysteriaSettings_toJson x)"
| "settings_toJson (L2tpSet x) = map_option (\<lambda>v. (v, L2tpSet x)) (L2tpSettings_toJson x)"
| "settings_toJson (PptpSet x) = map_option (\<lambda>v. (v, PptpSet x)) (PptpSettings_toJson x)"
| "settings_toJson (OpenvpnSet x) = map_option (\<lambda>v. (v, OpenvpnSet x)) (OpenvpnSettings_toJson x)"
| "settings_toJson (OcservSet x) = map_option (\<lambda>v. (v, OcservSet x)) (OcservSettings_toJson x)"
| "settings_toJson (SstpSet x) = map_option (\<lambda>v. (v, SstpSet x)) (SstpSettings_toJson x)"

text \<open>The protocol a settings object belongs to, and when it can be saved.\<close>

fun protocol_of :: "settings \<Rightarrow> string" where
  "protocol_of NoSettings = ''''"
| "protocol_of (VmessSet x) = ''vmess''"
| "protocol_of (VlessSet x) = ''vless''"
| "protocol_of (TrojanSet x) = ''trojan''"
| "protocol_of (ShadowsocksSet x) = ''shadowsocks''"
| "protocol_of (TunnelSet x) = ''tunnel''"
| "protocol_of (MixedSet x) = ''mixed''"
| "protocol_of (HttpSet x) = ''http''"
| "protocol_of (WireguardSet x) = ''wireguard''"
| "protocol_of (TunSet x) = ''tun''"
| "protocol_of (HysteriaSet x) = ''hysteria''"
| "protocol_of (L2tpSet x) = ''l2tp''"
| "protocol_of (PptpSet x) = ''pptp''"
| "protocol_of (OpenvpnSet x) = ''openvpn''"
| "protocol_of (OcservSet x) = ''openconnect''"
| "protocol_of (SstpSet x) = ''sstp''"

fun settings_ok :: "settings \<Rightarrow> bool" where
  "settings_ok NoSettings = False"
| "settings_ok (VmessSet x) = VmessSettings_ok x"
| "settings_ok (VlessSet x) = VLESSSettings_ok x"
| "settings_ok (TrojanSet x) = TrojanSettings_ok x"
| "settings_ok (ShadowsocksSet x) = ShadowsocksSettings_ok x"
| "settings_ok (TunnelSet x) = TunnelSettings_ok x"
| "settings_ok (MixedSet x) = MixedSettings_ok x"
| "settings_ok (HttpSet x) = HttpSettings_ok x"
| "settings_ok (WireguardSet x) = WireguardSettings_ok x"
| "settings_ok (TunSet x) = TunSettings_ok x"
| "settings_ok (HysteriaSet x) = HysteriaSettings_ok x"
| "settings_ok (L2tpSet x) = L2tpSettings_ok x"
| "settings_ok (PptpSet x) = PptpSettings_ok x"
| "settings_ok (OpenvpnSet x) = OpenvpnSettings_ok x"
| "settings_ok (OcservSet x) = OcservSettings_ok x"
| "settings_ok (SstpSet x) = SstpSettings_ok x"

text \<open>The contract of every class, once for the classes that draw and once for the others.\<close>

lemma drawn_loaded:
  assumes "world_codec enc dec ok" and "ok x"
  shows "\<exists>v. enc x = Some v \<and> v \<noteq> JUndef \<and> (\<forall>w. drawn f (dec (wire v) w) = Some (f x, w))"
proof -
  obtain v where "enc x = Some v" "v \<noteq> JUndef"
    using world_codec.enc_some [OF assms] by blast
  with world_codec.dec_same_world [OF assms] show ?thesis by (simp add: drawn_def)
qed

lemma plain_loaded:
  assumes "json_codec enc dec ok" and "ok x"
  shows "\<exists>v. enc x = Some v \<and> v \<noteq> JUndef \<and> (\<forall>w. plain f (dec (wire v)) w = Some (f x, w))"
proof -
  obtain v where "enc x = Some v" "v \<noteq> JUndef" "dec (wire v) = Some x"
    using json_codec.saved [OF assms] by blast
  then show ?thesis by (simp add: plain_def)
qed

text \<open>Dispatch on a known protocol.\<close>

lemma dispatch_vmess: "settings_fromJson (JStr ''vmess'') json w = drawn VmessSet (VmessSettings_fromJson json w)"
  by (simp add: settings_fromJson_def)

lemma dispatch_vless: "settings_fromJson (JStr ''vless'') json w = drawn VlessSet (VLESSSettings_fromJson json w)"
  by (simp add: settings_fromJson_def)

lemma dispatch_trojan: "settings_fromJson (JStr ''trojan'') json w = drawn TrojanSet (TrojanSettings_fromJson json w)"
  by (simp add: settings_fromJson_def)

lemma dispatch_shadowsocks: "settings_fromJson (JStr ''shadowsocks'') json w = drawn ShadowsocksSet (ShadowsocksSettings_fromJson json w)"
  by (simp add: settings_fromJson_def)

lemma dispatch_tunnel: "settings_fromJson (JStr ''tunnel'') json w = plain TunnelSet (TunnelSettings_fromJson json) w"
  by (simp add: settings_fromJson_def)

lemma dispatch_mixed: "settings_fromJson (JStr ''mixed'') json w = drawn MixedSet (MixedSettings_fromJson json w)"
  by (simp add: settings_fromJson_def)

lemma dispatch_http: "settings_fromJson (JStr ''http'') json w = drawn HttpSet (HttpSettings_fromJson json w)"
  by (simp add: settings_fromJson_def)

lemma dispatch_wireguard: "settings_fromJson (JStr ''wireguard'') json w = drawn WireguardSet (WireguardSettings_fromJson json w)"
  by (simp add: settings_fromJson_def)

lemma dispatch_tun: "settings_fromJson (JStr ''tun'') json w = plain TunSet (TunSettings_fromJson json) w"
  by (simp add: settings_fromJson_def)

lemma dispatch_hysteria: "settings_fromJson (JStr ''hysteria'') json w = drawn HysteriaSet (HysteriaSettings_fromJson json w)"
  by (simp add: settings_fromJson_def)

lemma dispatch_l2tp: "settings_fromJson (JStr ''l2tp'') json w = drawn L2tpSet (L2tpSettings_fromJson json w)"
  by (simp add: settings_fromJson_def)

lemma dispatch_pptp: "settings_fromJson (JStr ''pptp'') json w = drawn PptpSet (PptpSettings_fromJson json w)"
  by (simp add: settings_fromJson_def)

lemma dispatch_openvpn: "settings_fromJson (JStr ''openvpn'') json w = drawn OpenvpnSet (OpenvpnSettings_fromJson json w)"
  by (simp add: settings_fromJson_def)

lemma dispatch_openconnect: "settings_fromJson (JStr ''openconnect'') json w = drawn OcservSet (OcservSettings_fromJson json w)"
  by (simp add: settings_fromJson_def)

lemma dispatch_sstp: "settings_fromJson (JStr ''sstp'') json w = drawn SstpSet (SstpSettings_fromJson json w)"
  by (simp add: settings_fromJson_def)

lemmas dispatch =
  dispatch_vmess dispatch_vless dispatch_trojan dispatch_shadowsocks dispatch_tunnel
  dispatch_mixed dispatch_http dispatch_wireguard dispatch_tun dispatch_hysteria
  dispatch_l2tp dispatch_pptp dispatch_openvpn dispatch_openconnect dispatch_sstp

lemma settings_saved:
  assumes "settings_ok s"
  shows "\<exists>v. settings_toJson s = Some (v, s) \<and> v \<noteq> JUndef \<and>
    (\<forall>w. settings_fromJson (JStr (protocol_of s)) (wire v) w = Some (s, w))"
proof (cases s)
  case NoSettings
  with assms show ?thesis by simp
next
  case (VmessSet x)
  with drawn_loaded [OF vms_codec.world_codec_axioms, of x VmessSet] assms show ?thesis by (auto simp: dispatch)
next
  case (VlessSet x)
  with drawn_loaded [OF vls_codec.world_codec_axioms, of x VlessSet] assms show ?thesis by (auto simp: dispatch)
next
  case (TrojanSet x)
  with drawn_loaded [OF tjs_codec.world_codec_axioms, of x TrojanSet] assms show ?thesis by (auto simp: dispatch)
next
  case (ShadowsocksSet x)
  with drawn_loaded [OF sss_codec.world_codec_axioms, of x ShadowsocksSet] assms show ?thesis by (auto simp: dispatch)
next
  case (TunnelSet x)
  with plain_loaded [OF tn_codec.json_codec_axioms, of x TunnelSet] assms show ?thesis by (auto simp: dispatch)
next
  case (MixedSet x)
  with drawn_loaded [OF mx_codec.world_codec_axioms, of x MixedSet] assms show ?thesis by (auto simp: dispatch)
next
  case (HttpSet x)
  with drawn_loaded [OF ht_codec.world_codec_axioms, of x HttpSet] assms show ?thesis by (auto simp: dispatch)
next
  case (WireguardSet x)
  with assms have "WireguardSettings_ok x" by simp
  from WireguardSettings_saved [OF this] WireguardSet show ?thesis by (auto simp: dispatch drawn_def)
next
  case (TunSet x)
  with plain_loaded [OF tu_codec.json_codec_axioms, of x TunSet] assms show ?thesis by (auto simp: dispatch)
next
  case (HysteriaSet x)
  with drawn_loaded [OF hyst_codec.world_codec_axioms, of x HysteriaSet] assms show ?thesis by (auto simp: dispatch)
next
  case (L2tpSet x)
  with drawn_loaded [OF l2s_codec.world_codec_axioms, of x L2tpSet] assms show ?thesis by (auto simp: dispatch)
next
  case (PptpSet x)
  with drawn_loaded [OF pps_codec.world_codec_axioms, of x PptpSet] assms show ?thesis by (auto simp: dispatch)
next
  case (OpenvpnSet x)
  with drawn_loaded [OF ovs_codec.world_codec_axioms, of x OpenvpnSet] assms show ?thesis by (auto simp: dispatch)
next
  case (OcservSet x)
  with drawn_loaded [OF ocs_codec.world_codec_axioms, of x OcservSet] assms show ?thesis by (auto simp: dispatch)
next
  case (SstpSet x)
  with drawn_loaded [OF sps_codec.world_codec_axioms, of x SstpSet] assms show ?thesis by (auto simp: dispatch)
qed

text \<open>The dispatch is total on the protocols, and knows no other.\<close>

definition Protocols :: "string list" where
  "Protocols = [''vmess'', ''vless'', ''trojan'', ''shadowsocks'', ''wireguard'', ''hysteria'', ''mixed'', ''http'',
    ''tunnel'', ''tun'', ''l2tp'', ''pptp'', ''openvpn'', ''openconnect'', ''sstp'']"

lemma settings_protocol:
  assumes "settings_fromJson (JStr p) json w = Some (s, w')"
  shows "(if p \<in> set Protocols then protocol_of s = p else s = NoSettings)"
  using assms by (auto simp: settings_fromJson_def plain_def drawn_def Protocols_def split: if_splits prod.splits)

lemma getSettings_protocol:
  assumes "getSettings (JStr p) w = Some (s, w')"
  shows "(if p \<in> set Protocols then protocol_of s = p else s = NoSettings)"
  using assms by (auto simp: getSettings_def plain_def drawn_def Protocols_def split: if_splits prod.splits)

end
