(* ===== verification/InTcp.thy ===== *)
theory InTcp
  imports InTransport
begin

text \<open>
  The raw TCP transport with its HTTP disguise, and the Hysteria transport
  (web/assets/js/model/inbound.js). A constructor that reads a property of an argument can
  throw, and returns None then.
\<close>

section \<open>TcpStreamSettings.TcpRequest\<close>

record TcpRequest =
  treq_version :: jsv
  treq_method :: jsv
  treq_path :: jsv
  treq_headers :: "header list"

definition new_TcpRequest :: "jsv \<Rightarrow> jsv \<Rightarrow> jsv \<Rightarrow> header list option \<Rightarrow> TcpRequest option" where
  "new_TcpRequest version method' path headers =
     (let path = dflt path (JArr [JStr ''/'']) in
      do { len \<leftarrow> js_get path ''length'';
           Some \<lparr>treq_version = dflt version (JStr ''1.1''),
                 treq_method = dflt method' (JStr ''GET''),
                 treq_path = (if len = jint 0 then JArr [JStr ''/''] else path),
                 treq_headers = opt_new headers []\<rparr> })"

definition default_TcpRequest :: TcpRequest where
  "default_TcpRequest = \<lparr>treq_version = JStr ''1.1'', treq_method = JStr ''GET'',
     treq_path = JArr [JStr ''/''], treq_headers = []\<rparr>"

lemma new_TcpRequest_default: "new_TcpRequest JUndef JUndef JUndef None = Some default_TcpRequest"
  by (simp add: new_TcpRequest_def default_TcpRequest_def)

text \<open>\<open>push\<close> and \<open>splice\<close> exist on arrays only.\<close>

definition TcpRequest_addPath :: "jsv \<Rightarrow> TcpRequest \<Rightarrow> TcpRequest option" where
  "TcpRequest_addPath path x = (case treq_path x of
     JArr ps \<Rightarrow> Some (x\<lparr>treq_path := JArr (ps @ [path])\<rparr>) | _ \<Rightarrow> None)"

definition TcpRequest_removePath :: "nat \<Rightarrow> TcpRequest \<Rightarrow> TcpRequest option" where
  "TcpRequest_removePath index x = (case treq_path x of
     JArr ps \<Rightarrow> Some (x\<lparr>treq_path := JArr (splice1 index ps)\<rparr>) | _ \<Rightarrow> None)"

definition TcpRequest_addHeader :: "string \<Rightarrow> jsv \<Rightarrow> TcpRequest \<Rightarrow> TcpRequest" where
  "TcpRequest_addHeader name value x =
     x\<lparr>treq_headers := treq_headers x @ [\<lparr>h_name = name, h_value = value\<rparr>]\<rparr>"

definition TcpRequest_removeHeader :: "nat \<Rightarrow> TcpRequest \<Rightarrow> TcpRequest" where
  "TcpRequest_removeHeader index x = x\<lparr>treq_headers := splice1 index (treq_headers x)\<rparr>"

definition TcpRequest_fromJson :: "jsv \<Rightarrow> TcpRequest option" where
  "TcpRequest_fromJson json =
     (let json = dflt json (JObj []) in
      do { version \<leftarrow> js_get json ''version'';
           method' \<leftarrow> js_get json ''method'';
           path \<leftarrow> js_get json ''path'';
           headers \<leftarrow> js_get json ''headers'';
           hs \<leftarrow> toHeaders headers;
           new_TcpRequest version method' path (Some hs) })"

definition TcpRequest_toJson :: "TcpRequest \<Rightarrow> jsv option" where
  "TcpRequest_toJson x =
     do { v2 \<leftarrow> toV2Headers (treq_headers x) True;
          Some (JObj
            [(''version'', treq_version x),
             (''method'', treq_method x),
             (''path'', treq_path x),
             (''headers'', JObj v2)]) }"

text \<open>The paths of a disguised request are a non-empty list.\<close>

definition TcpRequest_ok :: "TcpRequest \<Rightarrow> bool" where
  "TcpRequest_ok x \<longleftrightarrow>
     field_ok (treq_version x) \<and> field_ok (treq_method x) \<and> multi_headers_ok (treq_headers x) \<and>
     field_ok (treq_path x) \<and> is_array (treq_path x) \<and> treq_path x \<noteq> JArr []"

lemma path_length: "is_array v \<Longrightarrow> v \<noteq> JArr [] \<Longrightarrow> \<exists>l. js_get v ''length'' = Some l \<and> l \<noteq> jint 0"
  by (cases v) auto

lemma TcpRequest_roundtrip:
  "TcpRequest_ok x \<Longrightarrow> \<exists>v. TcpRequest_toJson x = Some v \<and> v \<noteq> JUndef \<and> TcpRequest_fromJson (wire v) = Some x"
  using path_length [of "treq_path x"]
  by (auto simp: TcpRequest_ok_def TcpRequest_toJson_def TcpRequest_fromJson_def new_TcpRequest_def
      js_get_wire multi_headers field_ok_def)

interpretation treq_codec: json_codec TcpRequest_toJson TcpRequest_fromJson TcpRequest_ok
  by (rule json_codecI) (rule TcpRequest_roundtrip)

section \<open>TcpStreamSettings.TcpResponse\<close>

record TcpResponse =
  tres_version :: jsv
  tres_status :: jsv
  tres_reason :: jsv
  tres_headers :: "header list"

definition new_TcpResponse :: "jsv \<Rightarrow> jsv \<Rightarrow> jsv \<Rightarrow> header list option \<Rightarrow> TcpResponse" where
  "new_TcpResponse version status reason headers =
     \<lparr>tres_version = dflt version (JStr ''1.1''),
      tres_status = dflt status (JStr ''200''),
      tres_reason = dflt reason (JStr ''OK''),
      tres_headers = opt_new headers []\<rparr>"

definition default_TcpResponse :: TcpResponse where
  "default_TcpResponse = new_TcpResponse JUndef JUndef JUndef None"

definition TcpResponse_addHeader :: "string \<Rightarrow> jsv \<Rightarrow> TcpResponse \<Rightarrow> TcpResponse" where
  "TcpResponse_addHeader name value x =
     x\<lparr>tres_headers := tres_headers x @ [\<lparr>h_name = name, h_value = value\<rparr>]\<rparr>"

definition TcpResponse_removeHeader :: "nat \<Rightarrow> TcpResponse \<Rightarrow> TcpResponse" where
  "TcpResponse_removeHeader index x = x\<lparr>tres_headers := splice1 index (tres_headers x)\<rparr>"

definition TcpResponse_fromJson :: "jsv \<Rightarrow> TcpResponse option" where
  "TcpResponse_fromJson json =
     (let json = dflt json (JObj []) in
      do { version \<leftarrow> js_get json ''version'';
           status \<leftarrow> js_get json ''status'';
           reason \<leftarrow> js_get json ''reason'';
           headers \<leftarrow> js_get json ''headers'';
           hs \<leftarrow> toHeaders headers;
           Some (new_TcpResponse version status reason (Some hs)) })"

definition TcpResponse_toJson :: "TcpResponse \<Rightarrow> jsv option" where
  "TcpResponse_toJson x =
     do { v2 \<leftarrow> toV2Headers (tres_headers x) True;
          Some (JObj
            [(''version'', tres_version x),
             (''status'', tres_status x),
             (''reason'', tres_reason x),
             (''headers'', JObj v2)]) }"

definition TcpResponse_ok :: "TcpResponse \<Rightarrow> bool" where
  "TcpResponse_ok x \<longleftrightarrow>
     field_ok (tres_version x) \<and> field_ok (tres_status x) \<and> field_ok (tres_reason x) \<and>
     multi_headers_ok (tres_headers x)"

lemma TcpResponse_roundtrip:
  "TcpResponse_ok x \<Longrightarrow> \<exists>v. TcpResponse_toJson x = Some v \<and> v \<noteq> JUndef \<and> TcpResponse_fromJson (wire v) = Some x"
  by (simp add: TcpResponse_ok_def TcpResponse_toJson_def TcpResponse_fromJson_def new_TcpResponse_def
      js_get_wire multi_headers field_ok_def)

interpretation tres_codec: json_codec TcpResponse_toJson TcpResponse_fromJson TcpResponse_ok
  by (rule json_codecI) (rule TcpResponse_roundtrip)

section \<open>TcpStreamSettings\<close>

record TcpStreamSettings =
  tcp_acceptProxyProtocol :: jsv
  tcp_type :: jsv
  tcp_request :: TcpRequest
  tcp_response :: TcpResponse

definition new_TcpStreamSettings ::
  "jsv \<Rightarrow> jsv \<Rightarrow> TcpRequest option \<Rightarrow> TcpResponse option \<Rightarrow> TcpStreamSettings" where
  "new_TcpStreamSettings acceptProxyProtocol type_v request response =
     \<lparr>tcp_acceptProxyProtocol = dflt acceptProxyProtocol (JBool False),
      tcp_type = dflt type_v (JStr ''none''),
      tcp_request = opt_new request default_TcpRequest,
      tcp_response = opt_new response default_TcpResponse\<rparr>"

definition default_TcpStreamSettings :: TcpStreamSettings where
  "default_TcpStreamSettings = new_TcpStreamSettings JUndef JUndef None None"

definition TcpStreamSettings_fromJson :: "jsv \<Rightarrow> TcpStreamSettings option" where
  "TcpStreamSettings_fromJson json =
     (let json = dflt json (JObj []) in
      do { header \<leftarrow> js_get json ''header'';
           let header = (if \<not> truthy header then JObj [] else header);
           acceptProxyProtocol \<leftarrow> js_get json ''acceptProxyProtocol'';
           type_v \<leftarrow> js_get header ''type'';
           request \<leftarrow> js_get header ''request'';
           req \<leftarrow> TcpRequest_fromJson request;
           response \<leftarrow> js_get header ''response'';
           res \<leftarrow> TcpResponse_fromJson response;
           Some (new_TcpStreamSettings acceptProxyProtocol type_v (Some req) (Some res)) })"

definition TcpStreamSettings_toJson :: "TcpStreamSettings \<Rightarrow> jsv option" where
  "TcpStreamSettings_toJson x =
     do { request \<leftarrow> (if tcp_type x = JStr ''http'' then TcpRequest_toJson (tcp_request x) else Some JUndef);
          response \<leftarrow> (if tcp_type x = JStr ''http'' then TcpResponse_toJson (tcp_response x) else Some JUndef);
          Some (JObj
            [(''acceptProxyProtocol'', tcp_acceptProxyProtocol x),
             (''header'', JObj
               [(''type'', tcp_type x),
                (''request'', request),
                (''response'', response)])]) }"

text \<open>Without the disguise the request and the response are not sent: they come back as new ones.\<close>

definition TcpStreamSettings_ok :: "TcpStreamSettings \<Rightarrow> bool" where
  "TcpStreamSettings_ok x \<longleftrightarrow>
     field_ok (tcp_acceptProxyProtocol x) \<and> field_ok (tcp_type x) \<and>
     (if tcp_type x = JStr ''http''
      then TcpRequest_ok (tcp_request x) \<and> TcpResponse_ok (tcp_response x)
      else tcp_request x = default_TcpRequest \<and> tcp_response x = default_TcpResponse)"

lemma default_TcpRequest_fromJson: "TcpRequest_fromJson JUndef = Some default_TcpRequest"
  by (simp add: TcpRequest_fromJson_def new_TcpRequest_def default_TcpRequest_def toHeaders_def)

lemma default_TcpResponse_fromJson: "TcpResponse_fromJson JUndef = Some default_TcpResponse"
  by (simp add: TcpResponse_fromJson_def new_TcpResponse_def default_TcpResponse_def toHeaders_def)

lemma TcpStreamSettings_roundtrip:
  assumes "TcpStreamSettings_ok x"
  shows "\<exists>v. TcpStreamSettings_toJson x = Some v \<and> v \<noteq> JUndef \<and> TcpStreamSettings_fromJson (wire v) = Some x"
proof (cases "tcp_type x = JStr ''http''")
  case True
  then have ok: "TcpRequest_ok (tcp_request x)" "TcpResponse_ok (tcp_response x)"
    using assms by (simp_all add: TcpStreamSettings_ok_def)
  obtain v where v: "TcpRequest_toJson (tcp_request x) = Some v" "TcpRequest_fromJson (wire v) = Some (tcp_request x)"
    using ok(1) by (rule treq_codec.saved)
  obtain w where w: "TcpResponse_toJson (tcp_response x) = Some w" "TcpResponse_fromJson (wire w) = Some (tcp_response x)"
    using ok(2) by (rule tres_codec.saved)
  show ?thesis
    using True assms
    by (simp add: v w TcpStreamSettings_ok_def TcpStreamSettings_toJson_def TcpStreamSettings_fromJson_def
        new_TcpStreamSettings_def js_get_wire field_ok_def)
next
  case False
  with assms show ?thesis
    by (simp add: TcpStreamSettings_ok_def TcpStreamSettings_toJson_def TcpStreamSettings_fromJson_def
        new_TcpStreamSettings_def js_get_wire field_ok_def default_TcpRequest_fromJson default_TcpResponse_fromJson)
qed

interpretation tcp_codec: json_codec TcpStreamSettings_toJson TcpStreamSettings_fromJson TcpStreamSettings_ok
  by (rule json_codecI) (rule TcpStreamSettings_roundtrip)

section \<open>HysteriaStreamSettings\<close>

text \<open>
  The constructor passes \<open>protocol\<close> to its superclass, whose constructor takes no
  parameter: the instance has no property \<open>protocol\<close>, and \<open>toJson\<close> prints undefined.
\<close>

record HysteriaStreamSettings =
  hys_version :: jsv
  hys_auth :: jsv
  hys_udpIdleTimeout :: jsv
  hys_masquerade :: "HysteriaMasquerade option"

definition new_HysteriaStreamSettings ::
  "jsv \<Rightarrow> jsv \<Rightarrow> jsv \<Rightarrow> jsv \<Rightarrow> HysteriaMasquerade option \<Rightarrow> HysteriaStreamSettings" where
  "new_HysteriaStreamSettings protocol version auth udpIdleTimeout masquerade =
     \<lparr>hys_version = dflt version (jint 2),
      hys_auth = dflt auth (JStr ''''),
      hys_udpIdleTimeout = dflt udpIdleTimeout (jint 60),
      hys_masquerade = masquerade\<rparr>"

definition default_HysteriaStreamSettings :: HysteriaStreamSettings where
  "default_HysteriaStreamSettings = new_HysteriaStreamSettings JUndef JUndef JUndef JUndef None"

definition HysteriaStreamSettings_fromJson :: "jsv \<Rightarrow> HysteriaStreamSettings option" where
  "HysteriaStreamSettings_fromJson json =
     (let json = dflt json (JObj []) in
      do { protocol \<leftarrow> js_get json ''protocol'';
           version \<leftarrow> js_get json ''version'';
           auth \<leftarrow> js_get json ''auth'';
           udpIdleTimeout \<leftarrow> js_get json ''udpIdleTimeout'';
           masquerade \<leftarrow> js_get json ''masquerade'';
           masq \<leftarrow> (if truthy masquerade then map_option Some (HysteriaMasquerade_fromJson masquerade)
                    else Some None);
           Some (new_HysteriaStreamSettings protocol (nullish version (jint 2)) (nullish auth (JStr ''''))
             (nullish udpIdleTimeout (jint 60)) masq) })"

definition hys_masqueradeSwitch :: "HysteriaStreamSettings \<Rightarrow> bool" where
  "hys_masqueradeSwitch x \<longleftrightarrow> hys_masquerade x \<noteq> None"

definition hys_set_masqueradeSwitch :: "bool \<Rightarrow> HysteriaStreamSettings \<Rightarrow> HysteriaStreamSettings" where
  "hys_set_masqueradeSwitch value x =
     x\<lparr>hys_masquerade := if value then Some default_HysteriaMasquerade else None\<rparr>"

definition HysteriaStreamSettings_toJson :: "HysteriaStreamSettings \<Rightarrow> jsv option" where
  "HysteriaStreamSettings_toJson x =
     do { masquerade \<leftarrow> (case hys_masquerade x of
            None \<Rightarrow> Some JUndef
          | Some m \<Rightarrow> HysteriaMasquerade_toJson m);
          Some (JObj
            [(''protocol'', JUndef),
             (''version'', hys_version x),
             (''auth'', hys_auth x),
             (''udpIdleTimeout'', hys_udpIdleTimeout x),
             (''masquerade'', masquerade)]) }"

definition HysteriaStreamSettings_ok :: "HysteriaStreamSettings \<Rightarrow> bool" where
  "HysteriaStreamSettings_ok x \<longleftrightarrow>
     field_ok (hys_version x) \<and> field_ok (hys_auth x) \<and> field_ok (hys_udpIdleTimeout x) \<and>
     hys_version x \<noteq> JNull \<and> hys_auth x \<noteq> JNull \<and> hys_udpIdleTimeout x \<noteq> JNull \<and>
     pred_option HysteriaMasquerade_ok (hys_masquerade x)"

lemma masquerade_object: "HysteriaMasquerade_toJson m = Some v \<Longrightarrow> \<exists>kvs. v = JObj kvs"
  by (auto simp: HysteriaMasquerade_toJson_def split: bind_splits)

lemma HysteriaStreamSettings_roundtrip:
  assumes "HysteriaStreamSettings_ok x"
  shows "\<exists>v. HysteriaStreamSettings_toJson x = Some v \<and> v \<noteq> JUndef \<and> HysteriaStreamSettings_fromJson (wire v) = Some x"
proof (cases "hys_masquerade x")
  case None
  with assms show ?thesis
    by (simp add: HysteriaStreamSettings_ok_def HysteriaStreamSettings_toJson_def HysteriaStreamSettings_fromJson_def
        new_HysteriaStreamSettings_def js_get_wire field_ok_def)
next
  case (Some m)
  with assms have "HysteriaMasquerade_ok m" by (simp add: HysteriaStreamSettings_ok_def)
  then obtain v where v: "HysteriaMasquerade_toJson m = Some v" "HysteriaMasquerade_fromJson (wire v) = Some m"
    by (rule masq_codec.saved)
  then have "truthy (wire v)" using masquerade_object by force
  with v Some assms show ?thesis
    by (simp add: HysteriaStreamSettings_ok_def HysteriaStreamSettings_toJson_def HysteriaStreamSettings_fromJson_def
        new_HysteriaStreamSettings_def js_get_wire field_ok_def)
qed

interpretation hys_codec: json_codec HysteriaStreamSettings_toJson HysteriaStreamSettings_fromJson HysteriaStreamSettings_ok
  by (rule json_codecI) (rule HysteriaStreamSettings_roundtrip)

end
