(* ===== verification/InStream.thy ===== *)
theory InStream
  imports InFinal InTcp InTls
begin

text \<open>
  StreamSettings and Sniffing of web/assets/js/model/inbound.js: the transport section of an
  inbound. An instance holds the settings of every transport and security layer, and sends
  those that its network and its security select; what is not sent is loaded as new.
\<close>

section \<open>StreamSettings\<close>

record StreamSettings =
  ss_network :: jsv
  ss_security :: jsv
  ss_externalProxy :: jsv
  ss_tls :: TlsStreamSettings
  ss_reality :: RealityStreamSettings
  ss_tcp :: TcpStreamSettings
  ss_kcp :: KcpStreamSettings
  ss_ws :: WsStreamSettings
  ss_grpc :: GrpcStreamSettings
  ss_httpupgrade :: HTTPUpgradeStreamSettings
  ss_xhttp :: xHTTPStreamSettings
  ss_hysteria :: HysteriaStreamSettings
  ss_finalmask :: FinalMask
  ss_sockopt :: "SockoptStreamSettings option"

text \<open>The constructor; a missing Reality section is a new one, and draws from the browser.\<close>

definition default_RealityStreamSettings :: "world \<Rightarrow> RealityStreamSettings \<times> world" where
  "default_RealityStreamSettings =
     new_RealityStreamSettings JUndef JUndef JUndef JUndef JUndef JUndef JUndef JUndef JUndef JUndef None"

definition new_StreamSettings ::
  "jsv \<Rightarrow> jsv \<Rightarrow> jsv \<Rightarrow> TlsStreamSettings option \<Rightarrow> RealityStreamSettings option \<Rightarrow>
   TcpStreamSettings option \<Rightarrow> KcpStreamSettings option \<Rightarrow> WsStreamSettings option \<Rightarrow>
   GrpcStreamSettings option \<Rightarrow> HTTPUpgradeStreamSettings option \<Rightarrow> xHTTPStreamSettings option \<Rightarrow>
   HysteriaStreamSettings option \<Rightarrow> FinalMask option \<Rightarrow> SockoptStreamSettings option \<Rightarrow>
   world \<Rightarrow> StreamSettings \<times> world" where
  "new_StreamSettings network security externalProxy tlsSettings realitySettings tcpSettings kcpSettings
     wsSettings grpcSettings httpupgradeSettings xhttpSettings hysteriaSettings finalmask sockopt w =
     (let (reality, w) = (case realitySettings of Some r \<Rightarrow> (r, w) | None \<Rightarrow> default_RealityStreamSettings w)
      in (\<lparr>ss_network = dflt network (JStr ''tcp''),
           ss_security = dflt security (JStr ''none''),
           ss_externalProxy = dflt externalProxy (JArr []),
           ss_tls = opt_new tlsSettings default_TlsStreamSettings,
           ss_reality = reality,
           ss_tcp = opt_new tcpSettings default_TcpStreamSettings,
           ss_kcp = opt_new kcpSettings default_KcpStreamSettings,
           ss_ws = opt_new wsSettings default_WsStreamSettings,
           ss_grpc = opt_new grpcSettings default_GrpcStreamSettings,
           ss_httpupgrade = opt_new httpupgradeSettings default_HTTPUpgradeStreamSettings,
           ss_xhttp = opt_new xhttpSettings default_xHTTPStreamSettings,
           ss_hysteria = opt_new hysteriaSettings default_HysteriaStreamSettings,
           ss_finalmask = opt_new finalmask default_FinalMask,
           ss_sockopt = sockopt\<rparr>, w))"

subsection \<open>Operations\<close>

definition addTcpMask :: "jsv \<Rightarrow> StreamSettings \<Rightarrow> StreamSettings option" where
  "addTcpMask type_v s =
     do { m \<leftarrow> new_TcpMask (dflt type_v (JStr ''fragment'')) JUndef;
          Some (s\<lparr>ss_finalmask := (ss_finalmask s)\<lparr>fm_tcp := fm_tcp (ss_finalmask s) @ [m]\<rparr>\<rparr>) }"

definition delTcpMask :: "nat \<Rightarrow> StreamSettings \<Rightarrow> StreamSettings" where
  "delTcpMask index s =
     s\<lparr>ss_finalmask := (ss_finalmask s)\<lparr>fm_tcp := splice1 index (fm_tcp (ss_finalmask s))\<rparr>\<rparr>"

definition addUdpMask :: "jsv \<Rightarrow> StreamSettings \<Rightarrow> StreamSettings option" where
  "addUdpMask type_v s =
     do { m \<leftarrow> new_UdpMask (dflt type_v (JStr ''salamander'')) JUndef;
          Some (s\<lparr>ss_finalmask := (ss_finalmask s)\<lparr>fm_udp := fm_udp (ss_finalmask s) @ [m]\<rparr>\<rparr>) }"

definition delUdpMask :: "nat \<Rightarrow> StreamSettings \<Rightarrow> StreamSettings" where
  "delUdpMask index s =
     s\<lparr>ss_finalmask := (ss_finalmask s)\<lparr>fm_udp := splice1 index (fm_udp (ss_finalmask s))\<rparr>\<rparr>"

definition hasFinalMask :: "StreamSettings \<Rightarrow> bool" where
  "hasFinalMask s \<longleftrightarrow> fm_tcp (ss_finalmask s) \<noteq> [] \<or> fm_udp (ss_finalmask s) \<noteq> [] \<or>
     fm_quicParams (ss_finalmask s) \<noteq> None"

definition ss_isTls :: "StreamSettings \<Rightarrow> bool" where
  "ss_isTls s \<longleftrightarrow> ss_security s = JStr ''tls''"

definition ss_set_isTls :: "bool \<Rightarrow> StreamSettings \<Rightarrow> StreamSettings" where
  "ss_set_isTls isTls s = s\<lparr>ss_security := JStr (if isTls then ''tls'' else ''none'')\<rparr>"

definition ss_isReality :: "StreamSettings \<Rightarrow> bool" where
  "ss_isReality s \<longleftrightarrow> ss_security s = JStr ''reality''"

definition ss_set_isReality :: "bool \<Rightarrow> StreamSettings \<Rightarrow> StreamSettings" where
  "ss_set_isReality isReality s = s\<lparr>ss_security := JStr (if isReality then ''reality'' else ''none'')\<rparr>"

definition ss_sockoptSwitch :: "StreamSettings \<Rightarrow> bool" where
  "ss_sockoptSwitch s \<longleftrightarrow> ss_sockopt s \<noteq> None"

definition ss_set_sockoptSwitch :: "bool \<Rightarrow> StreamSettings \<Rightarrow> StreamSettings" where
  "ss_set_sockoptSwitch value s = s\<lparr>ss_sockopt := if value then Some default_SockoptStreamSettings else None\<rparr>"

subsection \<open>Loading and saving\<close>

definition StreamSettings_fromJson :: "jsv \<Rightarrow> world \<Rightarrow> (StreamSettings \<times> world) option" where
  "StreamSettings_fromJson json w =
     (let json = dflt json (JObj []) in
      do { network \<leftarrow> js_get json ''network'';
           security \<leftarrow> js_get json ''security'';
           externalProxy \<leftarrow> js_get json ''externalProxy'';
           tlsSettings \<leftarrow> js_get json ''tlsSettings'';
           tls \<leftarrow> TlsStreamSettings_fromJson tlsSettings;
           realitySettings \<leftarrow> js_get json ''realitySettings'';
           (reality, w) \<leftarrow> RealityStreamSettings_fromJson realitySettings w;
           tcpSettings \<leftarrow> js_get json ''tcpSettings'';
           tcp \<leftarrow> TcpStreamSettings_fromJson tcpSettings;
           kcpSettings \<leftarrow> js_get json ''kcpSettings'';
           kcp \<leftarrow> KcpStreamSettings_fromJson kcpSettings;
           wsSettings \<leftarrow> js_get json ''wsSettings'';
           ws \<leftarrow> WsStreamSettings_fromJson wsSettings;
           grpcSettings \<leftarrow> js_get json ''grpcSettings'';
           grpc \<leftarrow> GrpcStreamSettings_fromJson grpcSettings;
           httpupgradeSettings \<leftarrow> js_get json ''httpupgradeSettings'';
           httpupgrade \<leftarrow> HTTPUpgradeStreamSettings_fromJson httpupgradeSettings;
           xhttpSettings \<leftarrow> js_get json ''xhttpSettings'';
           xhttp \<leftarrow> xHTTPStreamSettings_fromJson xhttpSettings;
           hysteriaSettings \<leftarrow> js_get json ''hysteriaSettings'';
           hysteria \<leftarrow> HysteriaStreamSettings_fromJson hysteriaSettings;
           finalmask \<leftarrow> js_get json ''finalmask'';
           mask \<leftarrow> FinalMask_fromJson finalmask;
           sockopt \<leftarrow> js_get json ''sockopt'';
           so \<leftarrow> SockoptStreamSettings_fromJson sockopt;
           Some (new_StreamSettings network security externalProxy (Some tls) (Some reality) (Some tcp)
             (Some kcp) (Some ws) (Some grpc) (Some httpupgrade) (Some xhttp) (Some hysteria) (Some mask) so w) })"

text \<open>\<open>c ? x.toJson() : undefined\<close>.\<close>

definition sent_if :: "bool \<Rightarrow> jsv option \<Rightarrow> jsv option" where
  "sent_if c v = (if c then v else Some JUndef)"

definition StreamSettings_toJson :: "StreamSettings \<Rightarrow> jsv option" where
  "StreamSettings_toJson s =
     (let network = ss_network s in
      do { tlsSettings \<leftarrow> sent_if (ss_isTls s) (TlsStreamSettings_toJson (ss_tls s));
           realitySettings \<leftarrow> sent_if (ss_isReality s) (RealityStreamSettings_toJson (ss_reality s));
           tcpSettings \<leftarrow> sent_if (network = JStr ''tcp'') (TcpStreamSettings_toJson (ss_tcp s));
           kcpSettings \<leftarrow> sent_if (network = JStr ''kcp'') (Some (KcpStreamSettings_toJson (ss_kcp s)));
           wsSettings \<leftarrow> sent_if (network = JStr ''ws'') (WsStreamSettings_toJson (ss_ws s));
           grpcSettings \<leftarrow> sent_if (network = JStr ''grpc'') (Some (GrpcStreamSettings_toJson (ss_grpc s)));
           httpupgradeSettings \<leftarrow> sent_if (network = JStr ''httpupgrade'') (HTTPUpgradeStreamSettings_toJson (ss_httpupgrade s));
           xhttpSettings \<leftarrow> sent_if (network = JStr ''xhttp'') (xHTTPStreamSettings_toJson (ss_xhttp s));
           hysteriaSettings \<leftarrow> sent_if (network = JStr ''hysteria'') (HysteriaStreamSettings_toJson (ss_hysteria s));
           finalmask \<leftarrow> sent_if (hasFinalMask s) (Some (FinalMask_toJson (ss_finalmask s)));
           sockopt \<leftarrow> (case ss_sockopt s of Some so \<Rightarrow> SockoptStreamSettings_toJson so | None \<Rightarrow> Some JUndef);
           Some (JObj
             [(''network'', network),
              (''security'', ss_security s),
              (''externalProxy'', ss_externalProxy s),
              (''tlsSettings'', tlsSettings),
              (''realitySettings'', realitySettings),
              (''tcpSettings'', tcpSettings),
              (''kcpSettings'', kcpSettings),
              (''wsSettings'', wsSettings),
              (''grpcSettings'', grpcSettings),
              (''httpupgradeSettings'', httpupgradeSettings),
              (''xhttpSettings'', xhttpSettings),
              (''hysteriaSettings'', hysteriaSettings),
              (''finalmask'', finalmask),
              (''sockopt'', sockopt)]) })"

subsection \<open>What a save keeps\<close>

definition StreamSettings_ok :: "StreamSettings \<Rightarrow> bool" where
  "StreamSettings_ok s \<longleftrightarrow>
     field_ok (ss_network s) \<and> field_ok (ss_security s) \<and> field_ok (ss_externalProxy s) \<and>
     (ss_isTls s \<longrightarrow> TlsStreamSettings_ok (ss_tls s)) \<and>
     (ss_isReality s \<longrightarrow> RealityStreamSettings_ok (ss_reality s)) \<and>
     (ss_network s = JStr ''tcp'' \<longrightarrow> TcpStreamSettings_ok (ss_tcp s)) \<and>
     (ss_network s = JStr ''kcp'' \<longrightarrow> KcpStreamSettings_ok (ss_kcp s)) \<and>
     (ss_network s = JStr ''ws'' \<longrightarrow> WsStreamSettings_ok (ss_ws s)) \<and>
     (ss_network s = JStr ''grpc'' \<longrightarrow> GrpcStreamSettings_ok (ss_grpc s)) \<and>
     (ss_network s = JStr ''httpupgrade'' \<longrightarrow> HTTPUpgradeStreamSettings_ok (ss_httpupgrade s)) \<and>
     (ss_network s = JStr ''xhttp'' \<longrightarrow> xHTTPStreamSettings_ok (ss_xhttp s)) \<and>
     (ss_network s = JStr ''hysteria'' \<longrightarrow> HysteriaStreamSettings_ok (ss_hysteria s)) \<and>
     FinalMask_ok (ss_finalmask s) \<and> pred_option SockoptStreamSettings_ok (ss_sockopt s)"

text \<open>The instance that is loaded from what s saves: new settings where s sends none.\<close>

definition stream_loaded :: "StreamSettings \<Rightarrow> world \<Rightarrow> StreamSettings \<times> world" where
  "stream_loaded s w =
     (let (reality, w) = (if ss_isReality s then (ss_reality s, w) else default_RealityStreamSettings w)
      in (s\<lparr>ss_tls := if ss_isTls s then ss_tls s else default_TlsStreamSettings,
            ss_reality := reality,
            ss_tcp := if ss_network s = JStr ''tcp'' then ss_tcp s else default_TcpStreamSettings,
            ss_kcp := if ss_network s = JStr ''kcp'' then ss_kcp s else default_KcpStreamSettings,
            ss_ws := if ss_network s = JStr ''ws'' then ss_ws s else default_WsStreamSettings,
            ss_grpc := if ss_network s = JStr ''grpc'' then ss_grpc s else default_GrpcStreamSettings,
            ss_httpupgrade := if ss_network s = JStr ''httpupgrade'' then ss_httpupgrade s else default_HTTPUpgradeStreamSettings,
            ss_xhttp := if ss_network s = JStr ''xhttp'' then ss_xhttp s else default_xHTTPStreamSettings,
            ss_hysteria := if ss_network s = JStr ''hysteria'' then ss_hysteria s else default_HysteriaStreamSettings\<rparr>, w))"

lemma optional_field:
  assumes "json_codec enc dec ok" and "c \<longrightarrow> ok x" and "dec JUndef = Some d"
  shows "\<exists>v. sent_if c (enc x) = Some v \<and> dec (wire v) = Some (if c then x else d)"
proof (cases c)
  case True
  with assms(2) have "ok x" by blast
  with json_codec.enc_total [OF assms(1)] json_codec.dec_enc [OF assms(1)] True show ?thesis
    unfolding sent_if_def by (metis (full_types))
next
  case False
  with assms(3) show ?thesis by (simp add: sent_if_def)
qed

lemma defaults_fromJson:
  "TlsStreamSettings_fromJson JUndef = Some default_TlsStreamSettings"
  "TcpStreamSettings_fromJson JUndef = Some default_TcpStreamSettings"
  "KcpStreamSettings_fromJson JUndef = Some default_KcpStreamSettings"
  "WsStreamSettings_fromJson JUndef = Some default_WsStreamSettings"
  "GrpcStreamSettings_fromJson JUndef = Some default_GrpcStreamSettings"
  "HTTPUpgradeStreamSettings_fromJson JUndef = Some default_HTTPUpgradeStreamSettings"
  "xHTTPStreamSettings_fromJson JUndef = Some default_xHTTPStreamSettings"
  "HysteriaStreamSettings_fromJson JUndef = Some default_HysteriaStreamSettings"
  "FinalMask_fromJson JUndef = Some default_FinalMask"
  "SockoptStreamSettings_fromJson JUndef = Some None"
  by (simp_all add: TlsStreamSettings_fromJson_def default_TlsStreamSettings_def
      TcpStreamSettings_fromJson_def default_TcpStreamSettings_def new_TcpStreamSettings_def
      default_TcpRequest_fromJson default_TcpResponse_fromJson
      KcpStreamSettings_fromJson_def default_KcpStreamSettings_def new_KcpStreamSettings_def
      WsStreamSettings_fromJson_def default_WsStreamSettings_def new_WsStreamSettings_def
      GrpcStreamSettings_fromJson_def default_GrpcStreamSettings_def new_GrpcStreamSettings_def
      HTTPUpgradeStreamSettings_fromJson_def default_HTTPUpgradeStreamSettings_def new_HTTPUpgradeStreamSettings_def
      xHTTPStreamSettings_fromJson_def default_xHTTPStreamSettings_def new_xHTTPStreamSettings_def
      HysteriaStreamSettings_fromJson_def default_HysteriaStreamSettings_def new_HysteriaStreamSettings_def
      FinalMask_fromJson_def new_FinalMask_def default_FinalMask_def
      SockoptStreamSettings_fromJson_def object_keys_def toHeaders_def)

lemma reality_optional:
  assumes "c \<longrightarrow> RealityStreamSettings_ok x"
  shows "\<exists>v. sent_if c (RealityStreamSettings_toJson x) = Some v \<and>
    RealityStreamSettings_fromJson (wire v) w = Some (if c then (x, w) else default_RealityStreamSettings w)"
  using RealityStreamSettings_roundtrip [of x w] assms
  by (cases c) (auto simp: sent_if_def RealityStreamSettings_fromJson_def default_RealityStreamSettings_def)

lemma sockopt_optional:
  assumes "pred_option SockoptStreamSettings_ok so"
  shows "\<exists>v. (case so of Some x \<Rightarrow> SockoptStreamSettings_toJson x | None \<Rightarrow> Some JUndef) = Some v \<and>
    SockoptStreamSettings_fromJson (wire v) = Some so"
  using SockoptStreamSettings_roundtrip assms by (cases so) (auto simp: defaults_fromJson)

lemma no_mask: "\<not> hasFinalMask s \<Longrightarrow> ss_finalmask s = default_FinalMask"
  by (simp add: hasFinalMask_def default_FinalMask_def)

lemma stream_load:
  assumes "StreamSettings_ok s"
  shows "\<exists>v. StreamSettings_toJson s = Some v \<and> v \<noteq> JUndef \<and>
    StreamSettings_fromJson (wire v) w = Some (stream_loaded s w)"
proof -
  note ok = assms [unfolded StreamSettings_ok_def]
  obtain v_tls where tls: "sent_if (ss_isTls s) (TlsStreamSettings_toJson (ss_tls s)) = Some v_tls"
    "TlsStreamSettings_fromJson (wire v_tls) = Some (if ss_isTls s then ss_tls s else default_TlsStreamSettings)"
    using optional_field [OF tls_codec.json_codec_axioms _ defaults_fromJson(1)] ok by blast
  obtain v_real where real: "sent_if (ss_isReality s) (RealityStreamSettings_toJson (ss_reality s)) = Some v_real"
    "RealityStreamSettings_fromJson (wire v_real) w =
       Some (if ss_isReality s then (ss_reality s, w) else default_RealityStreamSettings w)"
    using reality_optional ok by blast
  obtain v_tcp where tcp: "sent_if (ss_network s = JStr ''tcp'') (TcpStreamSettings_toJson (ss_tcp s)) = Some v_tcp"
    "TcpStreamSettings_fromJson (wire v_tcp) =
       Some (if ss_network s = JStr ''tcp'' then ss_tcp s else default_TcpStreamSettings)"
    using optional_field [OF tcp_codec.json_codec_axioms _ defaults_fromJson(2)] ok by blast
  obtain v_kcp where kcp: "sent_if (ss_network s = JStr ''kcp'') (Some (KcpStreamSettings_toJson (ss_kcp s))) = Some v_kcp"
    "KcpStreamSettings_fromJson (wire v_kcp) =
       Some (if ss_network s = JStr ''kcp'' then ss_kcp s else default_KcpStreamSettings)"
    using optional_field [OF kcp_codec.json_codec_axioms _ defaults_fromJson(3)] ok by blast
  obtain v_ws where ws: "sent_if (ss_network s = JStr ''ws'') (WsStreamSettings_toJson (ss_ws s)) = Some v_ws"
    "WsStreamSettings_fromJson (wire v_ws) =
       Some (if ss_network s = JStr ''ws'' then ss_ws s else default_WsStreamSettings)"
    using optional_field [OF ws_codec.json_codec_axioms _ defaults_fromJson(4)] ok by blast
  obtain v_grpc where grpc: "sent_if (ss_network s = JStr ''grpc'') (Some (GrpcStreamSettings_toJson (ss_grpc s))) = Some v_grpc"
    "GrpcStreamSettings_fromJson (wire v_grpc) =
       Some (if ss_network s = JStr ''grpc'' then ss_grpc s else default_GrpcStreamSettings)"
    using optional_field [OF grpc_codec.json_codec_axioms _ defaults_fromJson(5)] ok by blast
  obtain v_httpupgrade where httpupgrade: "sent_if (ss_network s = JStr ''httpupgrade'') (HTTPUpgradeStreamSettings_toJson (ss_httpupgrade s)) = Some v_httpupgrade"
    "HTTPUpgradeStreamSettings_fromJson (wire v_httpupgrade) =
       Some (if ss_network s = JStr ''httpupgrade'' then ss_httpupgrade s else default_HTTPUpgradeStreamSettings)"
    using optional_field [OF hu_codec.json_codec_axioms _ defaults_fromJson(6)] ok by blast
  obtain v_xhttp where xhttp: "sent_if (ss_network s = JStr ''xhttp'') (xHTTPStreamSettings_toJson (ss_xhttp s)) = Some v_xhttp"
    "xHTTPStreamSettings_fromJson (wire v_xhttp) =
       Some (if ss_network s = JStr ''xhttp'' then ss_xhttp s else default_xHTTPStreamSettings)"
    using optional_field [OF xh_codec.json_codec_axioms _ defaults_fromJson(7)] ok by blast
  obtain v_hysteria where hysteria: "sent_if (ss_network s = JStr ''hysteria'') (HysteriaStreamSettings_toJson (ss_hysteria s)) = Some v_hysteria"
    "HysteriaStreamSettings_fromJson (wire v_hysteria) =
       Some (if ss_network s = JStr ''hysteria'' then ss_hysteria s else default_HysteriaStreamSettings)"
    using optional_field [OF hys_codec.json_codec_axioms _ defaults_fromJson(8)] ok by blast
  obtain v_fm where fm: "sent_if (hasFinalMask s) (Some (FinalMask_toJson (ss_finalmask s))) = Some v_fm"
    "FinalMask_fromJson (wire v_fm) = Some (if hasFinalMask s then ss_finalmask s else default_FinalMask)"
    using optional_field [OF fm_codec.json_codec_axioms _ defaults_fromJson(9)] ok by blast
  then have fm': "FinalMask_fromJson (wire v_fm) = Some (ss_finalmask s)" using no_mask by simp
  obtain v_so where so: "(case ss_sockopt s of Some x \<Rightarrow> SockoptStreamSettings_toJson x | None \<Rightarrow> Some JUndef) = Some v_so"
    "SockoptStreamSettings_fromJson (wire v_so) = Some (ss_sockopt s)"
    using sockopt_optional ok by blast
  have f: "wire (ss_network s) = ss_network s" "wire (ss_security s) = ss_security s"
    "wire (ss_externalProxy s) = ss_externalProxy s"
    "ss_network s \<noteq> JUndef" "ss_security s \<noteq> JUndef" "ss_externalProxy s \<noteq> JUndef"
    using ok by (simp_all add: field_ok_def)
  let ?o = "[(''network'', ss_network s), (''security'', ss_security s), (''externalProxy'', ss_externalProxy s),
    (''tlsSettings'', v_tls), (''realitySettings'', v_real), (''tcpSettings'', v_tcp), (''kcpSettings'', v_kcp), (''wsSettings'', v_ws), (''grpcSettings'', v_grpc), (''httpupgradeSettings'', v_httpupgrade), (''xhttpSettings'', v_xhttp), (''hysteriaSettings'', v_hysteria),
    (''finalmask'', v_fm), (''sockopt'', v_so)]"
  have enc: "StreamSettings_toJson s = Some (JObj ?o)"
    by (simp only: StreamSettings_toJson_def Let_def tls(1) real(1) tcp(1) kcp(1) ws(1) grpc(1) httpupgrade(1) xhttp(1) hysteria(1) fm(1) so(1)
        bind.bind_lunit)
  have d: "distinct (keys ?o)" by simp
  have g: "js_get (wire (JObj ?o)) k = Some (wire (look ?o k))" for k by (rule js_get_wire [OF d])
  have l: "look ?o ''network'' = ss_network s" "look ?o ''security'' = ss_security s"
    "look ?o ''externalProxy'' = ss_externalProxy s" "look ?o ''tlsSettings'' = v_tls"
    "look ?o ''realitySettings'' = v_real" "look ?o ''tcpSettings'' = v_tcp" "look ?o ''kcpSettings'' = v_kcp" "look ?o ''wsSettings'' = v_ws" "look ?o ''grpcSettings'' = v_grpc" "look ?o ''httpupgradeSettings'' = v_httpupgrade" "look ?o ''xhttpSettings'' = v_xhttp" "look ?o ''hysteriaSettings'' = v_hysteria"
    "look ?o ''finalmask'' = v_fm" "look ?o ''sockopt'' = v_so"
    by simp_all
  have j: "dflt (wire (JObj ?o)) (JObj []) = wire (JObj ?o)" by simp
  have "StreamSettings_fromJson (wire (JObj ?o)) w = Some (stream_loaded s w)"
    unfolding StreamSettings_fromJson_def Let_def j g l
    by (simp only: bind.bind_lunit tls(2) real(2) tcp(2) kcp(2) ws(2) grpc(2) httpupgrade(2) xhttp(2) hysteria(2) fm' so(2) f)
      (simp add: stream_loaded_def new_StreamSettings_def f split_beta)
  with enc show ?thesis by simp
qed

lemma stream_loaded_same:
  "ss_network (fst (stream_loaded s w)) = ss_network s" "ss_security (fst (stream_loaded s w)) = ss_security s"
  "ss_externalProxy (fst (stream_loaded s w)) = ss_externalProxy s"
  "ss_finalmask (fst (stream_loaded s w)) = ss_finalmask s" "ss_sockopt (fst (stream_loaded s w)) = ss_sockopt s"
  by (simp_all add: stream_loaded_def Let_def split_beta)

lemma sent_if_cong: "(c \<Longrightarrow> v = v') \<Longrightarrow> sent_if c v = sent_if c v'"
  by (simp add: sent_if_def)

lemma stream_resave_loaded: "StreamSettings_toJson (fst (stream_loaded s w)) = StreamSettings_toJson s"
proof -
  let ?t = "fst (stream_loaded s w)"
  have c: "ss_isTls ?t = ss_isTls s" "ss_isReality ?t = ss_isReality s" "hasFinalMask ?t = hasFinalMask s"
    by (simp_all add: ss_isTls_def ss_isReality_def hasFinalMask_def stream_loaded_same)
  have p: "sent_if (ss_isTls s) (TlsStreamSettings_toJson (ss_tls ?t)) = sent_if (ss_isTls s) (TlsStreamSettings_toJson (ss_tls s))"
    "sent_if (ss_isReality s) (RealityStreamSettings_toJson (ss_reality ?t)) =
       sent_if (ss_isReality s) (RealityStreamSettings_toJson (ss_reality s))"
    by (auto intro!: sent_if_cong simp: stream_loaded_def split_beta)
  have q: "sent_if (ss_network s = JStr ''tcp'') (TcpStreamSettings_toJson (ss_tcp ?t)) = sent_if (ss_network s = JStr ''tcp'') (TcpStreamSettings_toJson (ss_tcp s))"
    "sent_if (ss_network s = JStr ''kcp'') (Some (KcpStreamSettings_toJson (ss_kcp ?t))) = sent_if (ss_network s = JStr ''kcp'') (Some (KcpStreamSettings_toJson (ss_kcp s)))"
    "sent_if (ss_network s = JStr ''ws'') (WsStreamSettings_toJson (ss_ws ?t)) = sent_if (ss_network s = JStr ''ws'') (WsStreamSettings_toJson (ss_ws s))"
    "sent_if (ss_network s = JStr ''grpc'') (Some (GrpcStreamSettings_toJson (ss_grpc ?t))) = sent_if (ss_network s = JStr ''grpc'') (Some (GrpcStreamSettings_toJson (ss_grpc s)))"
    "sent_if (ss_network s = JStr ''httpupgrade'') (HTTPUpgradeStreamSettings_toJson (ss_httpupgrade ?t)) = sent_if (ss_network s = JStr ''httpupgrade'') (HTTPUpgradeStreamSettings_toJson (ss_httpupgrade s))"
    "sent_if (ss_network s = JStr ''xhttp'') (xHTTPStreamSettings_toJson (ss_xhttp ?t)) = sent_if (ss_network s = JStr ''xhttp'') (xHTTPStreamSettings_toJson (ss_xhttp s))"
    "sent_if (ss_network s = JStr ''hysteria'') (HysteriaStreamSettings_toJson (ss_hysteria ?t)) = sent_if (ss_network s = JStr ''hysteria'') (HysteriaStreamSettings_toJson (ss_hysteria s))"
    by (auto intro!: sent_if_cong simp: stream_loaded_def split_beta)
  show ?thesis
    unfolding StreamSettings_toJson_def Let_def c stream_loaded_same p q by (rule refl)
qed

section \<open>Editing the masks\<close>

text \<open>The buttons of the mask lists, each with its argument.\<close>

datatype mask_edit = AddTcp string | DelTcp nat | AddUdp string | DelUdp nat

fun mask_step :: "StreamSettings \<Rightarrow> mask_edit \<Rightarrow> StreamSettings option" where
  "mask_step s (AddTcp t) = addTcpMask (JStr t) s"
| "mask_step s (DelTcp i) = Some (delTcpMask i s)"
| "mask_step s (AddUdp t) = addUdpMask (JStr t) s"
| "mask_step s (DelUdp i) = Some (delUdpMask i s)"

fun mask_edits :: "StreamSettings \<Rightarrow> mask_edit list \<Rightarrow> StreamSettings option" where
  "mask_edits s [] = Some s"
| "mask_edits s (e # es) = do { s \<leftarrow> mask_step s e; mask_edits s es }"

fun typed_edit :: "mask_edit \<Rightarrow> bool" where
  "typed_edit (AddTcp t) = (t \<noteq> '''')"
| "typed_edit (AddUdp t) = (t \<noteq> '''')"
| "typed_edit _ = True"

lemma empty_clean:
  "\<exists>s. tcp_default_settings (JStr t) (JObj []) = Some s"
  "tcp_default_settings (JStr t) (JObj []) = Some s \<Longrightarrow> tcp_clean (JStr t) s = s"
  "\<exists>s. udp_default_settings (JStr t) (JObj []) = Some s"
  "udp_default_settings (JStr t) (JObj []) = Some s \<Longrightarrow> udp_clean (JStr t) s = s"
  by (auto simp: tcp_default_settings_def tcp_clean_def udp_default_settings_def udp_clean_def
      array_or_empty_def map_array_def Let_def split: if_splits)

lemma new_mask_ok:
  assumes "t \<noteq> []"
  shows "\<exists>m. new_TcpMask (JStr t) JUndef = Some m \<and> TcpMask_ok m"
    and "\<exists>m. new_UdpMask (JStr t) JUndef = Some m \<and> UdpMask_ok m"
proof -
  have e: "json_val (JObj [])" by simp
  obtain s where s: "tcp_default_settings (JStr t) (JObj []) = Some s" using empty_clean(1) by blast
  note c = empty_clean(2) [OF s]
  show "\<exists>m. new_TcpMask (JStr t) JUndef = Some m \<and> TcpMask_ok m"
    using tcp_normal_form(2,3) [OF e s] json_val_field_ok [OF tcp_normal_form(1) [OF e s]] assms s unfolding c
    by (auto simp: new_TcpMask_def TcpMask_ok_def c)
  obtain u where u: "udp_default_settings (JStr t) (JObj []) = Some u" using empty_clean(3) by blast
  note d = empty_clean(4) [OF u]
  show "\<exists>m. new_UdpMask (JStr t) JUndef = Some m \<and> UdpMask_ok m"
    using udp_normal_form(2,3) [OF e u] json_val_field_ok [OF udp_normal_form(1) [OF e u]] assms u unfolding d
    by (auto simp: new_UdpMask_def UdpMask_ok_def d)
qed

lemma list_all_splice1: "list_all P xs \<Longrightarrow> list_all P (splice1 i xs)"
  by (auto simp: splice1_def list_all_iff dest: in_set_takeD in_set_dropD)

lemma mask_step_ok:
  assumes "FinalMask_ok (ss_finalmask s)" and "typed_edit e"
  shows "\<exists>s'. mask_step s e = Some s' \<and> FinalMask_ok (ss_finalmask s')"
proof (cases e)
  case (AddTcp t)
  with assms new_mask_ok(1) [of t] show ?thesis by (auto simp: addTcpMask_def FinalMask_ok_def)
next
  case (AddUdp t)
  with assms new_mask_ok(2) [of t] show ?thesis by (auto simp: addUdpMask_def FinalMask_ok_def)
qed (use assms in \<open>auto simp: delTcpMask_def delUdpMask_def FinalMask_ok_def list_all_splice1\<close>)

lemma mask_edits_ok:
  "FinalMask_ok (ss_finalmask s) \<Longrightarrow> list_all typed_edit es \<Longrightarrow>
   \<exists>s'. mask_edits s es = Some s' \<and> FinalMask_ok (ss_finalmask s')"
proof (induction es arbitrary: s)
  case (Cons e es)
  then show ?case using mask_step_ok [of s e] by fastforce
qed simp

text \<open>
  C22: the mask lists of a stream can always be saved. Starting from the default stream, any
  sequence of adding and deleting TCP and UDP masks (an index outside the list included) runs
  without an exception, and what \<open>finalmask\<close> then saves loads as the same lists of masks.
\<close>
theorem mask_edits_saved:
  assumes "list_all typed_edit es"
  shows "case mask_edits (s\<lparr>ss_finalmask := default_FinalMask\<rparr>) es of
     None \<Rightarrow> False
   | Some s' \<Rightarrow> FinalMask_fromJson (wire (FinalMask_toJson (ss_finalmask s'))) = Some (ss_finalmask s')"
proof -
  have "FinalMask_ok default_FinalMask" by (simp add: FinalMask_ok_def default_FinalMask_def)
  then show ?thesis
    using mask_edits_ok [OF _ assms, of "s\<lparr>ss_finalmask := default_FinalMask\<rparr>"] FinalMask_roundtrip by auto
qed

theorem mask_edits_saved_witness:
  "let s = fst (new_StreamSettings JUndef JUndef JUndef None None None None None None None None None None None sample_world)
   in case mask_edits (s\<lparr>ss_finalmask := default_FinalMask\<rparr>) [AddUdp ''noise'', AddTcp ''sudoku'', DelUdp 7, DelUdp 0] of
     None \<Rightarrow> False
   | Some s' \<Rightarrow> FinalMask_fromJson (wire (FinalMask_toJson (ss_finalmask s'))) = Some (ss_finalmask s')"
  unfolding Let_def by (rule mask_edits_saved) simp

end
