(* ===== verification/InInbound.thy ===== *)
theory InInbound
  imports InSettings InStream
begin

text \<open>
  The class Inbound (web/assets/js/model/inbound.js) without its share links: construction,
  change of the protocol, the views the forms and the link builders use, the rules for which
  security a protocol may use, loading and saving.
\<close>

section \<open>State and construction\<close>

record Inbound =
  ib_port :: jsv
  ib_listen :: jsv
  ib_protocol :: jsv
  ib_settings :: settings
  ib_stream :: StreamSettings
  ib_tag :: jsv
  ib_sniffing :: Sniffing
  ib_clientStats :: jsv

definition default_StreamSettings :: "world \<Rightarrow> StreamSettings \<times> world" where
  "default_StreamSettings =
     new_StreamSettings JUndef JUndef JUndef None None None None None None None None None None None"

text \<open>The settings that are null are those of the protocol, made anew.\<close>

definition new_Inbound ::
  "jsv \<Rightarrow> jsv \<Rightarrow> jsv \<Rightarrow> settings \<Rightarrow> StreamSettings option \<Rightarrow> jsv \<Rightarrow> Sniffing option \<Rightarrow> jsv \<Rightarrow> world \<Rightarrow>
   (Inbound \<times> world) option" where
  "new_Inbound port listen protocol settings streamSettings tag sniffing clientStats w =
     (let (port, w) = (if port = JUndef then (let (n, w) = randomInteger 10000 60000 w in (jint n, w)) else (port, w));
          protocol = dflt protocol (JStr ''vless'');
          (stream, w) = (case streamSettings of Some s \<Rightarrow> (s, w) | None \<Rightarrow> default_StreamSettings w)
      in do { (settings, w) \<leftarrow> (if settings = NoSettings then getSettings protocol w else Some (settings, w));
              Some (\<lparr>ib_port = port,
                     ib_listen = dflt listen (JStr ''''),
                     ib_protocol = protocol,
                     ib_settings = settings,
                     ib_stream = stream,
                     ib_tag = dflt tag (JStr ''''),
                     ib_sniffing = opt_new sniffing default_Sniffing,
                     ib_clientStats = dflt clientStats (JStr '''')\<rparr>, w) })"

text \<open>
  Changing the protocol makes new settings and new stream settings; Hysteria runs over QUIC
  with its own network and TLS. (For Trojan the code also sets a property \<open>tls\<close> of the inbound,
  which nothing reads.)
\<close>

definition ib_set_protocol :: "jsv \<Rightarrow> Inbound \<Rightarrow> world \<Rightarrow> (Inbound \<times> world) option" where
  "ib_set_protocol protocol i w =
     do { (settings, w) \<leftarrow> getSettings protocol w;
          (let (stream, w) = default_StreamSettings w;
               stream = (if protocol = JStr ''hysteria''
                         then stream\<lparr>ss_network := JStr ''hysteria'', ss_security := JStr ''tls'',
                                     ss_tls := (ss_tls stream)\<lparr>tls_alpn := JArr [JStr ''h3'']\<rparr>\<rparr>
                         else stream)
           in Some (i\<lparr>ib_protocol := protocol, ib_settings := settings, ib_stream := stream\<rparr>, w)) }"

definition ib_reset :: "Inbound \<Rightarrow> world \<Rightarrow> (Inbound \<times> world) option" where
  "ib_reset i w =
     (let (port, w) = randomInteger 10000 60000 w in
      do { (i, w) \<leftarrow> ib_set_protocol (JStr ''vmess'') (i\<lparr>ib_port := jint port, ib_listen := JStr ''''\<rparr>) w;
           (settings, w) \<leftarrow> getSettings (JStr ''vmess'') w;
           (let (stream, w) = default_StreamSettings w in
            Some (i\<lparr>ib_settings := settings, ib_stream := stream, ib_tag := JStr '''', ib_sniffing := default_Sniffing\<rparr>, w)) })"

section \<open>Clients\<close>

datatype client = CVmess VMESS | CVless VLESS | CTrojan Trojan | CShadowsocks Shadowsocks | CHysteria Hysteria | CVpn L2tpUser

text \<open>
  \<open>v == 's'\<close> for a text that is no numeral: objects and arrays are compared by their text.
\<close>

fun loose_text :: "jsv \<Rightarrow> string \<Rightarrow> bool" where
  "loose_text (JStr t) s = (t = s)"
| "loose_text (JArr vs) s = (js_to_string (JArr vs) = s)"
| "loose_text (JObj kvs) s = (js_to_string (JObj kvs) = s)"
| "loose_text _ s = False"

definition ib_method :: "Inbound \<Rightarrow> jsv" where
  "ib_method i =
     (if ib_protocol i = JStr ''shadowsocks''
      then (case ib_settings i of ShadowsocksSet s \<Rightarrow> sss_method s | _ \<Rightarrow> JUndef) else JStr '''')"

definition ib_isSSMultiUser :: "Inbound \<Rightarrow> bool" where
  "ib_isSSMultiUser i \<longleftrightarrow> \<not> loose_text (ib_method i) ''2022-blake3-chacha20-poly1305''"

text \<open>\<open>substring\<close> of anything but a string throws.\<close>

definition ib_isSS2022 :: "Inbound \<Rightarrow> bool option" where
  "ib_isSS2022 i = (case ib_method i of JStr m \<Rightarrow> Some (take 4 m = ''2022'') | _ \<Rightarrow> None)"

text \<open>
  The clients of the protocols that have them; None is null, or undefined where the settings
  are of another protocol's class, which no operation of the class brings about.
\<close>

definition ib_clients :: "Inbound \<Rightarrow> client list option" where
  "ib_clients i =
     (if ib_protocol i \<noteq> JStr (protocol_of (ib_settings i)) then None
      else case ib_settings i of
        VmessSet s \<Rightarrow> Some (map CVmess (vms_vmesses s))
      | VlessSet s \<Rightarrow> Some (map CVless (vls_vlesses s))
      | TrojanSet s \<Rightarrow> Some (map CTrojan (tjs_trojans s))
      | ShadowsocksSet s \<Rightarrow> (if ib_isSSMultiUser i then Some (map CShadowsocks (sss_shadowsockses s)) else None)
      | HysteriaSet s \<Rightarrow> Some (map CHysteria (hyst_hysterias s))
      | L2tpSet s \<Rightarrow> Some (map CVpn (l2_l2tpUsers s))
      | PptpSet s \<Rightarrow> Some (map CVpn (pp_pptpUsers s))
      | OpenvpnSet s \<Rightarrow> Some (map CVpn (ov_openvpnUsers s))
      | OcservSet s \<Rightarrow> Some (map CVpn (oc_ocservUsers s))
      | SstpSet s \<Rightarrow> Some (map CVpn (sp_sstpUsers s))
      | _ \<Rightarrow> None)"

fun client_expiryTime :: "client \<Rightarrow> jsv" where
  "client_expiryTime (CVmess c) = cb_expiryTime (vm_base c)"
| "client_expiryTime (CVless c) = cb_expiryTime (vl_base c)"
| "client_expiryTime (CTrojan c) = cb_expiryTime (tj_base c)"
| "client_expiryTime (CShadowsocks c) = cb_expiryTime (shs_base c)"
| "client_expiryTime (CHysteria c) = cb_expiryTime (hya_base c)"
| "client_expiryTime (CVpn c) = vu_expiryTime c"

text \<open>Whether the client's time is over at the time \<open>now\<close>; no such client throws.\<close>

definition ib_isExpiry :: "rat \<Rightarrow> nat \<Rightarrow> Inbound \<Rightarrow> bool option" where
  "ib_isExpiry now index i =
     do { cs \<leftarrow> ib_clients i;
          if index < length cs
          then (let e = client_expiryTime (cs ! index) in Some (js_gt e (jint 0) \<and> js_lt e (JNum (Fin now))))
          else None }"

section \<open>Views of the stream settings\<close>

definition ib_network :: "Inbound \<Rightarrow> jsv" where
  "ib_network i = ss_network (ib_stream i)"

definition ib_set_network :: "jsv \<Rightarrow> Inbound \<Rightarrow> Inbound" where
  "ib_set_network network i = i\<lparr>ib_stream := (ib_stream i)\<lparr>ss_network := network\<rparr>\<rparr>"

definition ib_isTcp :: "Inbound \<Rightarrow> bool" where "ib_isTcp i \<longleftrightarrow> ib_network i = JStr ''tcp''"
definition ib_isWs :: "Inbound \<Rightarrow> bool" where "ib_isWs i \<longleftrightarrow> ib_network i = JStr ''ws''"
definition ib_isKcp :: "Inbound \<Rightarrow> bool" where "ib_isKcp i \<longleftrightarrow> ib_network i = JStr ''kcp''"
definition ib_isGrpc :: "Inbound \<Rightarrow> bool" where "ib_isGrpc i \<longleftrightarrow> ib_network i = JStr ''grpc''"
definition ib_isHttpupgrade :: "Inbound \<Rightarrow> bool" where "ib_isHttpupgrade i \<longleftrightarrow> ib_network i = JStr ''httpupgrade''"
definition ib_isXHTTP :: "Inbound \<Rightarrow> bool" where "ib_isXHTTP i \<longleftrightarrow> ib_network i = JStr ''xhttp''"

definition ib_serverName :: "Inbound \<Rightarrow> jsv" where
  "ib_serverName i =
     (if ss_isTls (ib_stream i) then tls_sni (ss_tls (ib_stream i))
      else if ss_isReality (ib_stream i) then real_serverNames (ss_reality (ib_stream i))
      else JStr '''')"

text \<open>The value of the first header of that name, whatever its case.\<close>

fun getHeader :: "header list \<Rightarrow> string \<Rightarrow> jsv" where
  "getHeader [] name = JStr ''''"
| "getHeader (h # hs) name = (if lower (h_name h) = lower name then h_value h else getHeader hs name)"

text \<open>\<open>v?.length > 0\<close>\<close>

definition has_length :: "jsv \<Rightarrow> bool" where
  "has_length v \<longleftrightarrow> js_gt (js_get_opt v ''length'') (jint 0)"

definition host_or_header :: "jsv \<Rightarrow> header list \<Rightarrow> jsv" where
  "host_or_header host hs = (if has_length host then host else getHeader hs ''host'')"

definition ib_host :: "Inbound \<Rightarrow> jsv" where
  "ib_host i =
     (let s = ib_stream i in
      if ib_isTcp i then getHeader (treq_headers (tcp_request (ss_tcp s))) ''host''
      else if ib_isWs i then host_or_header (ws_host (ss_ws s)) (ws_headers (ss_ws s))
      else if ib_isHttpupgrade i then host_or_header (hu_host (ss_httpupgrade s)) (hu_headers (ss_httpupgrade s))
      else if ib_isXHTTP i then host_or_header (xh_host (ss_xhttp s)) (xh_headers (ss_xhttp s))
      else JNull)"

definition ib_path :: "Inbound \<Rightarrow> jsv option" where
  "ib_path i =
     (let s = ib_stream i in
      if ib_isTcp i then js_index (treq_path (tcp_request (ss_tcp s))) 0
      else if ib_isWs i then Some (ws_path (ss_ws s))
      else if ib_isHttpupgrade i then Some (hu_path (ss_httpupgrade s))
      else if ib_isXHTTP i then Some (xh_path (ss_xhttp s))
      else Some JNull)"

definition ib_serviceName :: "Inbound \<Rightarrow> jsv" where
  "ib_serviceName i = grpc_serviceName (ss_grpc (ib_stream i))"

section \<open>Which security a protocol may use\<close>

definition one_of :: "jsv \<Rightarrow> string list \<Rightarrow> bool" where
  "one_of v ss \<longleftrightarrow> (\<exists>s \<in> set ss. v = JStr s)"

lemma one_of_text [simp]: "one_of (JStr s) ss \<longleftrightarrow> s \<in> set ss"
  by (auto simp: one_of_def)

definition canEnableTls :: "Inbound \<Rightarrow> bool" where
  "canEnableTls i \<longleftrightarrow>
     ib_protocol i = JStr ''hysteria'' \<or>
     one_of (ib_protocol i) [''vmess'', ''vless'', ''trojan'', ''shadowsocks''] \<and>
     one_of (ib_network i) [''tcp'', ''ws'', ''http'', ''grpc'', ''httpupgrade'', ''xhttp'']"

definition canEnableTlsFlow :: "Inbound \<Rightarrow> bool" where
  "canEnableTlsFlow i \<longleftrightarrow>
     (ss_security (ib_stream i) = JStr ''tls'' \<or> ss_security (ib_stream i) = JStr ''reality'') \<and>
     ib_network i = JStr ''tcp'' \<and> ib_protocol i = JStr ''vless''"

definition vision_flow :: "VLESS \<Rightarrow> bool" where
  "vision_flow c \<longleftrightarrow> vl_flow c = JStr ''xtls-rprx-vision'' \<or> vl_flow c = JStr ''xtls-rprx-vision-udp443''"

definition canEnableVisionSeed :: "Inbound \<Rightarrow> bool" where
  "canEnableVisionSeed i \<longleftrightarrow>
     canEnableTlsFlow i \<and> (case ib_settings i of VlessSet s \<Rightarrow> list_ex vision_flow (vls_vlesses s) | _ \<Rightarrow> False)"

definition canEnableReality :: "Inbound \<Rightarrow> bool" where
  "canEnableReality i \<longleftrightarrow>
     one_of (ib_protocol i) [''vless'', ''trojan''] \<and> one_of (ib_network i) [''tcp'', ''http'', ''grpc'', ''xhttp'']"

definition canEnableStream :: "Inbound \<Rightarrow> bool" where
  "canEnableStream i \<longleftrightarrow> one_of (ib_protocol i) [''vmess'', ''vless'', ''trojan'', ''shadowsocks'', ''hysteria'']"

lemma reality_needs_tls: "canEnableReality i \<Longrightarrow> canEnableTls i"
  by (auto simp: canEnableReality_def canEnableTls_def one_of_def)

lemma tls_needs_stream: "canEnableTls i \<Longrightarrow> canEnableStream i"
  by (auto simp: canEnableStream_def canEnableTls_def one_of_def)

lemma flow_needs_reality: "canEnableTlsFlow i \<Longrightarrow> canEnableReality i"
  by (auto simp: canEnableReality_def canEnableTlsFlow_def)

section \<open>Loading and saving\<close>

definition Inbound_fromJson :: "jsv \<Rightarrow> world \<Rightarrow> (Inbound \<times> world) option" where
  "Inbound_fromJson json w =
     (let json = dflt json (JObj []) in
      do { port \<leftarrow> js_get json ''port'';
           listen \<leftarrow> js_get json ''listen'';
           protocol \<leftarrow> js_get json ''protocol'';
           settings_v \<leftarrow> js_get json ''settings'';
           (settings, w) \<leftarrow> settings_fromJson protocol settings_v w;
           streamSettings \<leftarrow> js_get json ''streamSettings'';
           (stream, w) \<leftarrow> StreamSettings_fromJson streamSettings w;
           tag \<leftarrow> js_get json ''tag'';
           sniffing_v \<leftarrow> js_get json ''sniffing'';
           sniffing \<leftarrow> Sniffing_fromJson sniffing_v;
           clientStats \<leftarrow> js_get json ''clientStats'';
           new_Inbound port listen protocol settings (Some stream) tag (Some sniffing) clientStats w })"

text \<open>The stream settings are sent for the protocols that have them, or with socket options.\<close>

definition sends_stream :: "Inbound \<Rightarrow> bool" where
  "sends_stream i \<longleftrightarrow> canEnableStream i \<or> ss_sockopt (ib_stream i) \<noteq> None"

definition Inbound_toJson :: "Inbound \<Rightarrow> (jsv \<times> Inbound) option" where
  "Inbound_toJson i =
     do { streamSettings \<leftarrow> sent_if (sends_stream i) (StreamSettings_toJson (ib_stream i));
          (settings, s) \<leftarrow> settings_toJson (ib_settings i);
          sniffing \<leftarrow> Sniffing_toJson (ib_sniffing i);
          Some (JObj [(''port'', ib_port i),
                      (''listen'', ib_listen i),
                      (''protocol'', ib_protocol i),
                      (''settings'', settings),
                      (''streamSettings'', streamSettings),
                      (''tag'', ib_tag i),
                      (''sniffing'', sniffing),
                      (''clientStats'', ib_clientStats i)],
                i\<lparr>ib_settings := s\<rparr>) }"

definition Inbound_ok :: "Inbound \<Rightarrow> bool" where
  "Inbound_ok i \<longleftrightarrow>
     field_ok (ib_port i) \<and> field_ok (ib_listen i) \<and> field_ok (ib_tag i) \<and> field_ok (ib_clientStats i) \<and>
     settings_ok (ib_settings i) \<and> ib_protocol i = JStr (protocol_of (ib_settings i)) \<and>
     (sends_stream i \<longrightarrow> StreamSettings_ok (ib_stream i)) \<and> Sniffing_ok (ib_sniffing i)"

text \<open>The instance that is loaded from what i saves.\<close>

definition inbound_loaded :: "Inbound \<Rightarrow> world \<Rightarrow> Inbound \<times> world" where
  "inbound_loaded i w =
     (let (stream, w) = (if sends_stream i then stream_loaded (ib_stream i) w else default_StreamSettings w)
      in (i\<lparr>ib_stream := stream\<rparr>, w))"

lemma stream_from_nothing: "StreamSettings_fromJson JUndef w = Some (default_StreamSettings w)"
proof -
  have "RealityStreamSettings_fromJson JUndef w = Some (default_RealityStreamSettings w)"
    using reality_optional [of False undefined w] by (simp add: sent_if_def)
  then show ?thesis
    by (simp add: StreamSettings_fromJson_def default_StreamSettings_def defaults_fromJson new_StreamSettings_def split_beta)
qed

lemma stream_sent:
  assumes "sends_stream i \<longrightarrow> StreamSettings_ok (ib_stream i)"
  shows "\<exists>v. sent_if (sends_stream i) (StreamSettings_toJson (ib_stream i)) = Some v \<and>
    (\<forall>w. StreamSettings_fromJson (wire v) w =
       Some (if sends_stream i then stream_loaded (ib_stream i) w else default_StreamSettings w))"
proof (cases "sends_stream i")
  case True
  obtain v where v: "StreamSettings_toJson (ib_stream i) = Some v"
    using stream_load assms True by blast
  then have "StreamSettings_fromJson (wire v) w = Some (stream_loaded (ib_stream i) w)" for w
    using stream_load [of "ib_stream i" w] assms True by auto
  with v True show ?thesis by (simp add: sent_if_def)
next
  case False
  then show ?thesis by (simp add: sent_if_def stream_from_nothing)
qed

lemma settings_ok_known: "settings_ok s \<Longrightarrow> s \<noteq> NoSettings"
  by auto

lemma inbound_load:
  assumes "Inbound_ok i"
  shows "\<exists>v. Inbound_toJson i = Some (v, i) \<and> v \<noteq> JUndef \<and> (\<forall>w. Inbound_fromJson (wire v) w = Some (inbound_loaded i w))"
proof -
  note ok = assms [unfolded Inbound_ok_def]
  obtain st where st: "sent_if (sends_stream i) (StreamSettings_toJson (ib_stream i)) = Some st"
    "\<forall>w. StreamSettings_fromJson (wire st) w =
       Some (if sends_stream i then stream_loaded (ib_stream i) w else default_StreamSettings w)"
    using stream_sent ok by blast
  obtain se where se: "settings_toJson (ib_settings i) = Some (se, ib_settings i)"
    "\<forall>w. settings_fromJson (ib_protocol i) (wire se) w = Some (ib_settings i, w)"
    using settings_saved [of "ib_settings i"] ok by auto
  obtain sn where sn: "Sniffing_toJson (ib_sniffing i) = Some sn" "Sniffing_fromJson (wire sn) = Some (ib_sniffing i)"
    using Sniffing_roundtrip ok by blast
  let ?kvs = "[(''port'', ib_port i), (''listen'', ib_listen i), (''protocol'', ib_protocol i), (''settings'', se),
    (''streamSettings'', st), (''tag'', ib_tag i), (''sniffing'', sn), (''clientStats'', ib_clientStats i)]"
  have e: "Inbound_toJson i = Some (JObj ?kvs, i)" by (simp add: Inbound_toJson_def st(1) se(1) sn(1))
  have g: "js_get (wire (JObj ?kvs)) k = Some (wire (look ?kvs k))" for k by (rule js_get_wire) simp
  have l: "look ?kvs ''port'' = ib_port i" "look ?kvs ''listen'' = ib_listen i" "look ?kvs ''protocol'' = ib_protocol i"
    "look ?kvs ''settings'' = se" "look ?kvs ''streamSettings'' = st" "look ?kvs ''tag'' = ib_tag i"
    "look ?kvs ''sniffing'' = sn" "look ?kvs ''clientStats'' = ib_clientStats i"
    by simp_all
  have j: "dflt (wire (JObj ?kvs)) (JObj []) = wire (JObj ?kvs)" by simp
  have f: "wire (ib_port i) = ib_port i" "wire (ib_listen i) = ib_listen i" "wire (ib_protocol i) = ib_protocol i"
    "wire (ib_tag i) = ib_tag i" "wire (ib_clientStats i) = ib_clientStats i"
    and u: "ib_port i \<noteq> JUndef" "ib_listen i \<noteq> JUndef" "ib_protocol i \<noteq> JUndef" "ib_tag i \<noteq> JUndef"
    "ib_clientStats i \<noteq> JUndef" "ib_settings i \<noteq> NoSettings"
    using ok settings_ok_known by (auto simp: field_ok_def)
  have "Inbound_fromJson (wire (JObj ?kvs)) w = Some (inbound_loaded i w)" for w
  proof (cases "sends_stream i")
    case True
    show ?thesis
      unfolding Inbound_fromJson_def Let_def j g l bind.bind_lunit f se(2) [rule_format] st(2) [rule_format] sn(2)
      using u True by (simp add: inbound_loaded_def new_Inbound_def split_beta)
  next
    case False
    show ?thesis
      unfolding Inbound_fromJson_def Let_def j g l bind.bind_lunit f se(2) [rule_format] st(2) [rule_format] sn(2)
      using u False by (simp add: inbound_loaded_def new_Inbound_def split_beta)
  qed
  with e show ?thesis by blast
qed

lemma loaded_fields:
  "ib_port (fst (inbound_loaded i w)) = ib_port i" "ib_listen (fst (inbound_loaded i w)) = ib_listen i"
  "ib_protocol (fst (inbound_loaded i w)) = ib_protocol i" "ib_settings (fst (inbound_loaded i w)) = ib_settings i"
  "ib_tag (fst (inbound_loaded i w)) = ib_tag i" "ib_sniffing (fst (inbound_loaded i w)) = ib_sniffing i"
  "ib_clientStats (fst (inbound_loaded i w)) = ib_clientStats i"
  by (simp_all add: inbound_loaded_def split_beta)

lemma loaded_stream:
  "ib_stream (fst (inbound_loaded i w)) =
     (if sends_stream i then fst (stream_loaded (ib_stream i) w) else fst (default_StreamSettings w))"
  by (simp add: inbound_loaded_def split_beta)

lemma default_no_sockopt: "ss_sockopt (fst (default_StreamSettings w)) = None"
  by (simp add: default_StreamSettings_def new_StreamSettings_def split_beta)

lemma sends_stream_loaded: "sends_stream (fst (inbound_loaded i w)) = sends_stream i"
  by (auto simp: sends_stream_def canEnableStream_def loaded_fields loaded_stream stream_loaded_same default_no_sockopt)

lemma inbound_resave_loaded:
  assumes "Inbound_ok i"
  shows "map_option fst (Inbound_toJson (fst (inbound_loaded i w))) = map_option fst (Inbound_toJson i)"
proof -
  have "sent_if (sends_stream i) (StreamSettings_toJson (ib_stream (fst (inbound_loaded i w)))) =
      sent_if (sends_stream i) (StreamSettings_toJson (ib_stream i))"
    by (rule sent_if_cong) (simp add: loaded_stream stream_resave_loaded)
  then show ?thesis
    unfolding Inbound_toJson_def sends_stream_loaded loaded_fields
    by (simp add: map_option_case split: option.splits bind_splits)
qed

section \<open>The protocol and its settings\<close>

text \<open>
  What the operations of the class can bring about, from a new or a loaded inbound. The stream
  settings, the port and the other plain fields are bound to form fields and change freely;
  editing the settings keeps their class.
\<close>

inductive ib_reach :: "Inbound \<Rightarrow> bool" where
  created: "ib_reach i" if "new_Inbound port listen (JStr p) NoSettings stream tag sniffing stats w = Some (i, w')"
| loaded: "ib_reach i" if "js_get json ''protocol'' = Some (JStr p)" and "Inbound_fromJson json w = Some (i, w')"
| protocol_set: "ib_reach j" if "ib_reach i" and "ib_set_protocol (JStr p) i w = Some (j, w')"
| was_reset: "ib_reach j" if "ib_reach i" and "ib_reset i w = Some (j, w')"
| saved: "ib_reach j" if "ib_reach i" and "Inbound_toJson i = Some (v, j)"
| fields_edited: "ib_reach (i\<lparr>ib_port := port, ib_listen := listen, ib_stream := stream, ib_tag := tag,
      ib_sniffing := sniffing\<rparr>)" if "ib_reach i"
| settings_edited: "ib_reach (i\<lparr>ib_settings := s\<rparr>)" if "ib_reach i" and "protocol_of s = protocol_of (ib_settings i)"

definition settings_match :: "Inbound \<Rightarrow> bool" where
  "settings_match i \<longleftrightarrow>
     (\<exists>p. ib_protocol i = JStr p \<and> protocol_of (ib_settings i) = (if p \<in> set Protocols then p else ''''))"

lemma settings_match_dispatch:
  "getSettings (JStr p) w = Some (s, w') \<Longrightarrow> protocol_of s = (if p \<in> set Protocols then p else '''')"
  "settings_fromJson (JStr p) json w = Some (s, w') \<Longrightarrow> protocol_of s = (if p \<in> set Protocols then p else '''')"
  using getSettings_protocol settings_protocol by (metis protocol_of.simps(1))+

lemma new_Inbound_match:
  assumes "new_Inbound port listen (JStr p) s stream tag sniffing stats w = Some (i, w')"
    and "s = NoSettings \<or> protocol_of s = (if p \<in> set Protocols then p else '''')"
  shows "settings_match i"
  using assms
  by (auto simp: new_Inbound_def Let_def settings_match_def split_beta dest!: settings_match_dispatch(1)
      split: if_splits bind_splits)

lemma settings_toJson_class: "settings_toJson s = Some (v, s') \<Longrightarrow> protocol_of s' = protocol_of s"
  by (cases s) auto

lemma ib_reach_match: "ib_reach i \<Longrightarrow> settings_match i"
proof (induction rule: ib_reach.induct)
  case (created port listen p stream tag sniffing stats w i w')
  then show ?case by (rule new_Inbound_match) simp
next
  case (loaded json p w i w')
  have "dflt json (JObj []) = json" using loaded(1) by (cases json) auto
  with loaded show ?case
    by (auto simp: Inbound_fromJson_def Let_def split: bind_splits dest!: settings_match_dispatch(2) new_Inbound_match)
next
  case (protocol_set i p w j w')
  then show ?case
    by (auto simp: ib_set_protocol_def settings_match_def Let_def split_beta split: bind_splits
        dest!: settings_match_dispatch(1))
next
  case (was_reset i w j w')
  then show ?case
    by (auto simp: ib_reset_def ib_set_protocol_def settings_match_def Let_def split_beta split: bind_splits
        dest!: settings_match_dispatch(1))
next
  case (saved i v j)
  then show ?case
    by (auto simp: Inbound_toJson_def settings_match_def split_beta split: bind_splits dest!: settings_toJson_class)
qed (auto simp: settings_match_def)

lemma protocol_of_eq:
  "protocol_of s = '''' \<longleftrightarrow> s = NoSettings"
  by (cases s) auto

definition client_protocols :: "string list" where
  "client_protocols = [''vmess'', ''vless'', ''trojan'', ''shadowsocks'', ''hysteria'', ''l2tp'', ''pptp'',
     ''openvpn'', ''openconnect'', ''sstp'']"

lemma clients_of_match:
  assumes "ib_protocol i = JStr p" and "protocol_of (ib_settings i) = p" and "p \<in> set client_protocols"
    and "p = ''shadowsocks'' \<longrightarrow> ib_isSSMultiUser i"
  shows "ib_clients i \<noteq> None"
  using assms by (cases "ib_settings i") (auto simp: ib_clients_def client_protocols_def)

text \<open>
  C6: the settings of an inbound are always those of its protocol. However an inbound came
  about (new, loaded from any JSON with a protocol name, edited, reset, its protocol switched
  any number of times, saved in between), its settings object is of the class of its protocol,
  or null exactly for a protocol the panel does not know; so the client list of every protocol
  that has clients exists, apart from single-user Shadowsocks.
\<close>
theorem ib_reach_settings:
  assumes "ib_reach i"
  shows "\<exists>p. ib_protocol i = JStr p \<and>
    (if p \<in> set Protocols then protocol_of (ib_settings i) = p else ib_settings i = NoSettings) \<and>
    (p \<in> set client_protocols \<and> (p = ''shadowsocks'' \<longrightarrow> ib_isSSMultiUser i) \<longrightarrow> ib_clients i \<noteq> None)"
proof -
  obtain p where p: "ib_protocol i = JStr p" "protocol_of (ib_settings i) = (if p \<in> set Protocols then p else '''')"
    using ib_reach_match [OF assms] by (auto simp: settings_match_def)
  have "p \<in> set Protocols" if "p \<in> set client_protocols"
    using that by (auto simp: client_protocols_def Protocols_def)
  then show ?thesis using p clients_of_match [OF p(1)] by (auto simp: protocol_of_eq)
qed

theorem ib_reach_settings_witness:
  "case new_Inbound JUndef JUndef (JStr ''trojan'') NoSettings None JUndef None JUndef sample_world of
     None \<Rightarrow> False
   | Some (i, w') \<Rightarrow> \<exists>p. ib_protocol i = JStr p \<and>
       (if p \<in> set Protocols then protocol_of (ib_settings i) = p else ib_settings i = NoSettings) \<and>
       (p \<in> set client_protocols \<and> (p = ''shadowsocks'' \<longrightarrow> ib_isSSMultiUser i) \<longrightarrow> ib_clients i \<noteq> None)"
proof (cases "new_Inbound JUndef JUndef (JStr ''trojan'') NoSettings None JUndef None JUndef sample_world")
  case None
  then show ?thesis by (simp add: new_Inbound_def getSettings_def drawn_def Let_def split_beta)
next
  case (Some r)
  obtain i w' where "r = (i, w')" by (cases r)
  with Some ib_reach_settings [OF ib_reach.created] show ?thesis by auto
qed

text \<open>
  C4: every settings object survives saving, whatever its protocol. For each of the fifteen
  protocols \<open>Inbound.Settings.fromJson\<close> applied to the saved form of well-formed settings
  returns those settings, draws no random value, and \<open>toJson\<close> leaves the object as it was.
\<close>
theorem settings_dispatch_roundtrip:
  assumes "settings_ok s"
  shows "\<exists>v. settings_toJson s = Some (v, s) \<and> v \<noteq> JUndef \<and>
    (\<forall>w. settings_fromJson (JStr (protocol_of s)) (wire v) w = Some (s, w))"
  by (rule settings_saved [OF assms])

definition sample_pptp :: settings where
  "sample_pptp = PptpSet (fst (new_PptpSettings (JBool True) JUndef JUndef JUndef JUndef JUndef JUndef JUndef
     (Some [fst (new_L2tpUser no_user_args sample_world)]) sample_world))"

theorem settings_dispatch_roundtrip_witness:
  "\<exists>v. settings_toJson sample_pptp = Some (v, sample_pptp) \<and> v \<noteq> JUndef \<and>
    (\<forall>w. settings_fromJson (JStr (protocol_of sample_pptp)) (wire v) w = Some (sample_pptp, w))"
  by (rule settings_dispatch_roundtrip)
     (simp add: sample_pptp_def PptpSettings_ok_def new_PptpSettings_def L2tpUser_ok_def new_L2tpUser_def
        split_beta Let_def random_dflt_def opt_field_ok_def slice_or_empty_def no_user_args_def)

text \<open>
  An HTTP inbound without an account list cannot be loaded. The class calls \<open>map\<close> on
  \<open>accounts\<close> without a default, so loading throws for the settings and for the whole inbound,
  unlike every other missing list of the model.
\<close>
theorem http_accounts_required:
  assumes "js_get json ''protocol'' = Some (JStr ''http'')" and "js_get json ''settings'' = Some (JObj kvs)"
    and "\<not> is_array (look kvs ''accounts'')"
  shows "HttpSettings_fromJson (JObj kvs) w = None \<and> Inbound_fromJson json w = None"
proof -
  have h: "HttpSettings_fromJson (JObj kvs) w = None" for w
    using http_needs_accounts [of kvs w] assms(3) by blast
  have "dflt json (JObj []) = json" using assms(1) by (cases json) auto
  then show ?thesis using h assms(1,2)
    by (auto simp: Inbound_fromJson_def Let_def dispatch drawn_def split: bind_splits)
qed

theorem http_accounts_required_witness:
  "let s = [(''allowTransparent'', JBool True)]; j = JObj [(''protocol'', JStr ''http''), (''settings'', JObj s)]
   in HttpSettings_fromJson (JObj s) sample_world = None \<and> Inbound_fromJson j sample_world = None"
  unfolding Let_def by (rule http_accounts_required) simp_all

text \<open>
  A Mixed inbound whose authentication is not by password loses its accounts in a save.
  They are not sent, and loading puts one account with new random credentials in their place;
  everything else comes back.
\<close>
theorem mixed_accounts_lost:
  assumes "mx_auth x \<noteq> JStr ''password''" and "field_ok (mx_auth x)" and "field_ok (mx_udp x)" and "field_ok (mx_ip x)"
  shows "\<exists>v a w'. settings_toJson (MixedSet x) = Some (v, MixedSet x) \<and>
    new_SocksAccount JUndef JUndef w = (a, w') \<and>
    settings_fromJson (JStr ''mixed'') (wire v) w = Some (MixedSet (x\<lparr>mx_accounts := [a]\<rparr>), w')"
  using mixed_without_password [OF assms, of w] by (auto simp: dispatch drawn_def)

theorem mixed_accounts_lost_witness:
  "let x = \<lparr>mx_auth = JStr ''noauth'', mx_accounts = [], mx_udp = JBool True, mx_ip = JStr ''127.0.0.1''\<rparr>
   in \<exists>v a w'. settings_toJson (MixedSet x) = Some (v, MixedSet x) \<and>
        new_SocksAccount JUndef JUndef sample_world = (a, w') \<and>
        settings_fromJson (JStr ''mixed'') (wire v) sample_world = Some (MixedSet (x\<lparr>mx_accounts := [a]\<rparr>), w')"
  unfolding Let_def by (rule mixed_accounts_lost) simp_all

text \<open>
  What the panel offers for the security of an inbound is consistent. An inbound that may
  use the XTLS flow may use Reality, one that may use Reality may use TLS, and one that may
  use TLS has stream settings that are saved with it, whatever its record holds.
\<close>
theorem security_options_nested:
  "(if canEnableVisionSeed i then canEnableTlsFlow i else True) \<and>
   (if canEnableTlsFlow i then canEnableReality i else True) \<and>
   (if canEnableReality i then canEnableTls i else True) \<and>
   (if canEnableTls i then canEnableStream i \<and> sends_stream i else True)"
  using reality_needs_tls [of i] tls_needs_stream [of i] flow_needs_reality [of i]
  by (simp add: canEnableVisionSeed_def sends_stream_def)

end
