(* ===== verification/OutTransport.thy ===== *)
theory OutTransport
  imports InInbound
begin

text \<open>
  The transports of an outbound (web/assets/js/model/outbound.js): TCP, KCP, WebSocket, gRPC,
  HTTPUpgrade and xHTTP. The names of the classes are those of the inbound's, so the model's start
  with Out. A stream's xHTTP settings keep the properties they do not know.
\<close>

section \<open>TcpStreamSettings\<close>

record OutTcp =
  otcp_type :: jsv
  otcp_host :: jsv
  otcp_path :: jsv

definition new_OutTcp :: "jsv \<Rightarrow> jsv \<Rightarrow> jsv \<Rightarrow> OutTcp" where
  "new_OutTcp type_v host path = \<lparr>otcp_type = dflt type_v (JStr ''none''), otcp_host = host, otcp_path = path\<rparr>"

definition default_OutTcp :: OutTcp where
  "default_OutTcp = new_OutTcp JUndef JUndef JUndef"

definition OutTcp_fromJson :: "jsv \<Rightarrow> OutTcp option" where
  "OutTcp_fromJson json =
     (let json = dflt json (JObj []) in
      do { header \<leftarrow> js_get json ''header'';
           if \<not> truthy header then Some default_OutTcp
           else do { type_v \<leftarrow> js_get header ''type'';
                     request \<leftarrow> js_get header ''request'';
                     if loose_text type_v ''http'' \<and> truthy request
                     then do { headers \<leftarrow> js_get request ''headers'';
                               host \<leftarrow> js_get headers ''Host'';
                               host \<leftarrow> js_join '','' host;
                               path \<leftarrow> js_get request ''path'';
                               path \<leftarrow> js_join '','' path;
                               Some (new_OutTcp type_v host path) }
                     else Some (new_OutTcp type_v (JStr '''') (JStr '''')) } })"

definition OutTcp_toJson :: "OutTcp \<Rightarrow> jsv option" where
  "OutTcp_toJson x =
     do { request \<leftarrow>
            (if otcp_type x = JStr ''http''
             then do { host \<leftarrow> (if isEmpty (otcp_host x) then Some (JArr []) else js_split (CHR '','') (otcp_host x));
                       path \<leftarrow> (if isEmpty (otcp_path x) then Some (JArr [JStr ''/'']) else js_split (CHR '','') (otcp_path x));
                       Some (JObj [(''headers'', JObj [(''Host'', host)]), (''path'', path)]) }
             else Some JUndef);
          Some (JObj [(''header'', JObj [(''type'', otcp_type x), (''request'', request)])]) }"

definition OutTcp_ok :: "OutTcp \<Rightarrow> bool" where
  "OutTcp_ok x \<longleftrightarrow>
     is_string (otcp_type x) \<and>
     (if otcp_type x = JStr ''http''
      then is_string (otcp_host x) \<and> is_string (otcp_path x) \<and> otcp_path x \<noteq> JStr ''''
      else otcp_host x = JStr '''' \<and> otcp_path x = JStr '''')"

lemma wire_strs [simp]: "wire (JArr (map JStr ss)) = JArr (map JStr ss)"
  by simp


lemma OutTcp_roundtrip:
  assumes "OutTcp_ok x"
  shows "\<exists>v. OutTcp_toJson x = Some v \<and> v \<noteq> JUndef \<and> OutTcp_fromJson (wire v) = Some x"
proof -
  obtain t where t: "otcp_type x = JStr t" using assms by (auto simp: OutTcp_ok_def is_string_iff)
  show ?thesis
  proof (cases "t = ''http''")
    case True
    then obtain h p where hp: "otcp_host x = JStr h" "otcp_path x = JStr p" "p \<noteq> ''''"
      using assms t by (auto simp: OutTcp_ok_def is_string_iff)
    define hs where "hs = (if h = '''' then [] else split_on (CHR '','') h)"
    have h: "join '','' hs = h" by (simp add: hs_def)
    have x: "x = new_OutTcp (JStr ''http'') (JStr h) (JStr p)"
      using t True hp by (simp add: new_OutTcp_def)
    let ?r = "JObj [(''headers'', JObj [(''Host'', JArr (map JStr hs))]), (''path'', JArr (map JStr (split_on (CHR '','') p)))]"
    have s: "OutTcp_toJson x = Some (JObj [(''header'', JObj [(''type'', JStr ''http''), (''request'', ?r)])])"
      using t True hp by (simp add: OutTcp_toJson_def isEmpty_def hs_def)
    show ?thesis unfolding s
      by (simp add: OutTcp_fromJson_def js_get_wire h x comp_def)
  next
    case False
    then show ?thesis using assms t
      by (simp add: OutTcp_ok_def OutTcp_toJson_def OutTcp_fromJson_def js_get_wire new_OutTcp_def)
  qed
qed

interpretation otcp_codec: json_codec OutTcp_toJson OutTcp_fromJson OutTcp_ok
  by (rule json_codecI) (rule OutTcp_roundtrip)

section \<open>KcpStreamSettings\<close>

record OutKcp =
  okcp_mtu :: jsv
  okcp_tti :: jsv
  okcp_upCap :: jsv
  okcp_downCap :: jsv
  okcp_cwndMultiplier :: jsv
  okcp_maxSendingWindow :: jsv

definition new_OutKcp ::
  "jsv \<Rightarrow> jsv \<Rightarrow> jsv \<Rightarrow> jsv \<Rightarrow> jsv \<Rightarrow> jsv \<Rightarrow>
   OutKcp" where
  "new_OutKcp
     mtu tti uplinkCapacity downlinkCapacity cwndMultiplier maxSendingWindow =
     \<lparr>okcp_mtu = dflt mtu (jint 1350),
       okcp_tti = dflt tti (jint 20),
       okcp_upCap = dflt uplinkCapacity (jint 5),
       okcp_downCap = dflt downlinkCapacity (jint 20),
       okcp_cwndMultiplier = dflt cwndMultiplier (jint 1),
       okcp_maxSendingWindow = dflt maxSendingWindow (jint 1350)\<rparr>"

definition default_OutKcp :: OutKcp where
  "default_OutKcp =
     new_OutKcp JUndef JUndef JUndef JUndef JUndef JUndef"

definition OutKcp_fromJson :: "jsv \<Rightarrow> OutKcp option" where
  "OutKcp_fromJson json =
     (let json = dflt json (JObj []) in
      do { mtu \<leftarrow> js_get json ''mtu'';
           tti \<leftarrow> js_get json ''tti'';
           uplinkCapacity \<leftarrow> js_get json ''uplinkCapacity'';
           downlinkCapacity \<leftarrow> js_get json ''downlinkCapacity'';
           cwndMultiplier \<leftarrow> js_get json ''cwndMultiplier'';
           maxSendingWindow \<leftarrow> js_get json ''maxSendingWindow'';
           Some (new_OutKcp mtu tti uplinkCapacity downlinkCapacity cwndMultiplier maxSendingWindow) })"

definition OutKcp_toJson :: "OutKcp \<Rightarrow> jsv" where
  "OutKcp_toJson x = JObj
       [(''mtu'', okcp_mtu x),
        (''tti'', okcp_tti x),
        (''uplinkCapacity'', okcp_upCap x),
        (''downlinkCapacity'', okcp_downCap x),
        (''cwndMultiplier'', okcp_cwndMultiplier x),
        (''maxSendingWindow'', okcp_maxSendingWindow x)]"

definition OutKcp_ok :: "OutKcp \<Rightarrow> bool" where
  "OutKcp_ok x \<longleftrightarrow>
     field_ok (okcp_mtu x) \<and>
     field_ok (okcp_tti x) \<and>
     field_ok (okcp_upCap x) \<and>
     field_ok (okcp_downCap x) \<and>
     field_ok (okcp_cwndMultiplier x) \<and>
     field_ok (okcp_maxSendingWindow x)"

lemma OutKcp_roundtrip: "OutKcp_ok x \<Longrightarrow> OutKcp_fromJson (wire (OutKcp_toJson x)) = Some x"
  by (simp add: OutKcp_ok_def OutKcp_toJson_def OutKcp_fromJson_def new_OutKcp_def js_get_wire
      field_ok_def opt_new_def)

interpretation okcp_codec: json_codec "\<lambda>x. Some (OutKcp_toJson x)" OutKcp_fromJson OutKcp_ok
  by (rule json_codecI) (simp add: OutKcp_roundtrip, simp add: OutKcp_toJson_def)

section \<open>WsStreamSettings\<close>

record OutWs =
  ows_path :: jsv
  ows_host :: jsv
  ows_heartbeatPeriod :: jsv

definition new_OutWs ::
  "jsv \<Rightarrow> jsv \<Rightarrow> jsv \<Rightarrow> OutWs" where
  "new_OutWs
     path host heartbeatPeriod =
     \<lparr>ows_path = dflt path (JStr ''/''),
       ows_host = dflt host (JStr ''''),
       ows_heartbeatPeriod = dflt heartbeatPeriod (jint 0)\<rparr>"

definition default_OutWs :: OutWs where
  "default_OutWs =
     new_OutWs JUndef JUndef JUndef"

definition OutWs_fromJson :: "jsv \<Rightarrow> OutWs option" where
  "OutWs_fromJson json =
     (let json = dflt json (JObj []) in
      do { path \<leftarrow> js_get json ''path'';
           host \<leftarrow> js_get json ''host'';
           heartbeatPeriod \<leftarrow> js_get json ''heartbeatPeriod'';
           Some (new_OutWs path host heartbeatPeriod) })"

definition OutWs_toJson :: "OutWs \<Rightarrow> jsv" where
  "OutWs_toJson x = JObj
       [(''path'', ows_path x),
        (''host'', ows_host x),
        (''heartbeatPeriod'', ows_heartbeatPeriod x)]"

definition OutWs_ok :: "OutWs \<Rightarrow> bool" where
  "OutWs_ok x \<longleftrightarrow>
     field_ok (ows_path x) \<and>
     field_ok (ows_host x) \<and>
     field_ok (ows_heartbeatPeriod x)"

lemma OutWs_roundtrip: "OutWs_ok x \<Longrightarrow> OutWs_fromJson (wire (OutWs_toJson x)) = Some x"
  by (simp add: OutWs_ok_def OutWs_toJson_def OutWs_fromJson_def new_OutWs_def js_get_wire
      field_ok_def opt_new_def)

interpretation ows_codec: json_codec "\<lambda>x. Some (OutWs_toJson x)" OutWs_fromJson OutWs_ok
  by (rule json_codecI) (simp add: OutWs_roundtrip, simp add: OutWs_toJson_def)

section \<open>GrpcStreamSettings\<close>

record OutGrpc =
  ogrpc_serviceName :: jsv
  ogrpc_authority :: jsv
  ogrpc_multiMode :: jsv

definition new_OutGrpc ::
  "jsv \<Rightarrow> jsv \<Rightarrow> jsv \<Rightarrow> OutGrpc" where
  "new_OutGrpc
     serviceName authority multiMode =
     \<lparr>ogrpc_serviceName = dflt serviceName (JStr ''''),
       ogrpc_authority = dflt authority (JStr ''''),
       ogrpc_multiMode = dflt multiMode (JBool False)\<rparr>"

definition default_OutGrpc :: OutGrpc where
  "default_OutGrpc =
     new_OutGrpc JUndef JUndef JUndef"

definition OutGrpc_fromJson :: "jsv \<Rightarrow> OutGrpc option" where
  "OutGrpc_fromJson json =
     (let json = dflt json (JObj []) in
      do { serviceName \<leftarrow> js_get json ''serviceName'';
           authority \<leftarrow> js_get json ''authority'';
           multiMode \<leftarrow> js_get json ''multiMode'';
           Some (new_OutGrpc serviceName authority multiMode) })"

definition OutGrpc_toJson :: "OutGrpc \<Rightarrow> jsv" where
  "OutGrpc_toJson x = JObj
       [(''serviceName'', ogrpc_serviceName x),
        (''authority'', ogrpc_authority x),
        (''multiMode'', ogrpc_multiMode x)]"

definition OutGrpc_ok :: "OutGrpc \<Rightarrow> bool" where
  "OutGrpc_ok x \<longleftrightarrow>
     field_ok (ogrpc_serviceName x) \<and>
     field_ok (ogrpc_authority x) \<and>
     field_ok (ogrpc_multiMode x)"

lemma OutGrpc_roundtrip: "OutGrpc_ok x \<Longrightarrow> OutGrpc_fromJson (wire (OutGrpc_toJson x)) = Some x"
  by (simp add: OutGrpc_ok_def OutGrpc_toJson_def OutGrpc_fromJson_def new_OutGrpc_def js_get_wire
      field_ok_def opt_new_def)

interpretation ogrpc_codec: json_codec "\<lambda>x. Some (OutGrpc_toJson x)" OutGrpc_fromJson OutGrpc_ok
  by (rule json_codecI) (simp add: OutGrpc_roundtrip, simp add: OutGrpc_toJson_def)

section \<open>HttpUpgradeStreamSettings\<close>

record OutHttpUpgrade =
  ohu_path :: jsv
  ohu_host :: jsv

definition new_OutHttpUpgrade ::
  "jsv \<Rightarrow> jsv \<Rightarrow> OutHttpUpgrade" where
  "new_OutHttpUpgrade
     path host =
     \<lparr>ohu_path = dflt path (JStr ''/''),
       ohu_host = dflt host (JStr '''')\<rparr>"

definition default_OutHttpUpgrade :: OutHttpUpgrade where
  "default_OutHttpUpgrade =
     new_OutHttpUpgrade JUndef JUndef"

definition OutHttpUpgrade_fromJson :: "jsv \<Rightarrow> OutHttpUpgrade option" where
  "OutHttpUpgrade_fromJson json =
     (let json = dflt json (JObj []) in
      do { path \<leftarrow> js_get json ''path'';
           host \<leftarrow> js_get json ''host'';
           Some (new_OutHttpUpgrade path host) })"

definition OutHttpUpgrade_toJson :: "OutHttpUpgrade \<Rightarrow> jsv" where
  "OutHttpUpgrade_toJson x = JObj
       [(''path'', ohu_path x),
        (''host'', ohu_host x)]"

definition OutHttpUpgrade_ok :: "OutHttpUpgrade \<Rightarrow> bool" where
  "OutHttpUpgrade_ok x \<longleftrightarrow>
     field_ok (ohu_path x) \<and>
     field_ok (ohu_host x)"

lemma OutHttpUpgrade_roundtrip: "OutHttpUpgrade_ok x \<Longrightarrow> OutHttpUpgrade_fromJson (wire (OutHttpUpgrade_toJson x)) = Some x"
  by (simp add: OutHttpUpgrade_ok_def OutHttpUpgrade_toJson_def OutHttpUpgrade_fromJson_def new_OutHttpUpgrade_def js_get_wire
      field_ok_def opt_new_def)

interpretation ohu_codec: json_codec "\<lambda>x. Some (OutHttpUpgrade_toJson x)" OutHttpUpgrade_fromJson OutHttpUpgrade_ok
  by (rule json_codecI) (simp add: OutHttpUpgrade_roundtrip, simp add: OutHttpUpgrade_toJson_def)

section \<open>xHTTPStreamSettings\<close>

text \<open>
  \<open>extra\<close> holds the properties that the form does not know. An assignment to the name
  \<open>__proto__\<close> sets no property.
\<close>

record OutXhttp =
  ox_path :: jsv
  ox_host :: jsv
  ox_mode :: jsv
  ox_noGRPCHeader :: jsv
  ox_scMinPostsIntervalMs :: jsv
  ox_xmux :: jsv
  ox_scMaxEachPostBytes :: jsv
  ox_xPaddingBytes :: jsv
  ox_downloadSettings :: jsv
  ox_extra :: entries

definition STRUCTURED_KEYS :: "string list" where
  "STRUCTURED_KEYS =
     [''path'', ''host'', ''mode'', ''noGRPCHeader'', ''scMinPostsIntervalMs'', ''xmux'', ''scMaxEachPostBytes'',
      ''xPaddingBytes'', ''downloadSettings'']"

definition default_xmux :: jsv where
  "default_xmux =
     JObj [(''maxConcurrency'', JStr ''16-32''), (''maxConnections'', jint 0), (''cMaxReuseTimes'', jint 0),
           (''hMaxRequestTimes'', JStr ''600-900''), (''hMaxReusableSecs'', JStr ''1800-3000''),
           (''hKeepAlivePeriod'', jint 0)]"

definition new_OutXhttp :: "jsv \<Rightarrow> jsv \<Rightarrow> jsv \<Rightarrow> jsv \<Rightarrow> jsv \<Rightarrow> jsv \<Rightarrow> jsv \<Rightarrow> jsv \<Rightarrow> jsv \<Rightarrow> entries \<Rightarrow> OutXhttp" where
  "new_OutXhttp path host mode noGRPCHeader scMinPostsIntervalMs xmux scMaxEachPostBytes xPaddingBytes
     downloadSettings extra =
     \<lparr>ox_path = dflt path (JStr ''/''),
      ox_host = dflt host (JStr ''''),
      ox_mode = dflt mode (JStr ''''),
      ox_noGRPCHeader = dflt noGRPCHeader (JBool False),
      ox_scMinPostsIntervalMs = dflt scMinPostsIntervalMs (JStr ''30''),
      ox_xmux = dflt xmux default_xmux,
      ox_scMaxEachPostBytes = dflt scMaxEachPostBytes (JStr ''''),
      ox_xPaddingBytes = dflt xPaddingBytes (JStr ''''),
      ox_downloadSettings = downloadSettings,
      ox_extra = extra\<rparr>"

definition default_OutXhttp :: OutXhttp where
  "default_OutXhttp = new_OutXhttp JUndef JUndef JUndef JUndef JUndef JUndef JUndef JUndef JUndef []"

text \<open>The loop that copies the unknown properties of an object into extra.\<close>

definition keep_unknown :: "entries \<Rightarrow> string \<times> jsv \<Rightarrow> entries" where
  "keep_unknown extra e =
     (if fst e \<in> set STRUCTURED_KEYS \<or> fst e = ''__proto__'' then extra else obj_set extra (fst e) (snd e))"

definition collect_unknown :: "entries \<Rightarrow> entries \<Rightarrow> entries" where
  "collect_unknown extra kvs = foldl keep_unknown extra kvs"

definition OutXhttp_fromJson :: "jsv \<Rightarrow> OutXhttp option" where
  "OutXhttp_fromJson json =
     (let json = dflt json (JObj []) in
      do { ks \<leftarrow> object_keys json;
           path \<leftarrow> js_get json ''path'';
           host \<leftarrow> js_get json ''host'';
           mode \<leftarrow> js_get json ''mode'';
           noGRPCHeader \<leftarrow> js_get json ''noGRPCHeader'';
           scMinPostsIntervalMs \<leftarrow> js_get json ''scMinPostsIntervalMs'';
           xmux \<leftarrow> js_get json ''xmux'';
           scMaxEachPostBytes \<leftarrow> js_get json ''scMaxEachPostBytes'';
           xPaddingBytes \<leftarrow> js_get json ''xPaddingBytes'';
           downloadSettings \<leftarrow> js_get json ''downloadSettings'';
           Some (new_OutXhttp path host mode noGRPCHeader scMinPostsIntervalMs xmux scMaxEachPostBytes xPaddingBytes
             downloadSettings (collect_unknown [] (own_entries json))) })"

definition xhttp_entries :: "OutXhttp \<Rightarrow> entries" where
  "xhttp_entries x =
     (let ob = obj_assign [] (ox_extra x);
          ob = obj_set ob ''path'' (ox_path x);
          ob = obj_set ob ''host'' (ox_host x);
          ob = obj_set ob ''mode'' (ox_mode x);
          ob = obj_set ob ''noGRPCHeader'' (ox_noGRPCHeader x);
          ob = obj_set ob ''scMinPostsIntervalMs'' (ox_scMinPostsIntervalMs x);
          ob = obj_set ob ''xmux'' (JObj (obj_assign [] (own_entries (ox_xmux x))));
          ob = set_if (ox_scMaxEachPostBytes x \<noteq> JUndef \<and> ox_scMaxEachPostBytes x \<noteq> JStr '''')
                 ''scMaxEachPostBytes'' (ox_scMaxEachPostBytes x) ob;
          ob = set_if (ox_xPaddingBytes x \<noteq> JUndef \<and> ox_xPaddingBytes x \<noteq> JStr '''') ''xPaddingBytes'' (ox_xPaddingBytes x) ob
      in set_if (ox_downloadSettings x \<noteq> JUndef \<and> ox_downloadSettings x \<noteq> JNull) ''downloadSettings'' (ox_downloadSettings x) ob)"

definition OutXhttp_toJson :: "OutXhttp \<Rightarrow> jsv" where
  "OutXhttp_toJson x = JObj (xhttp_entries x)"

definition OutXhttp_ok :: "OutXhttp \<Rightarrow> bool" where
  "OutXhttp_ok x \<longleftrightarrow>
     field_ok (ox_path x) \<and> field_ok (ox_host x) \<and> field_ok (ox_mode x) \<and> field_ok (ox_noGRPCHeader x) \<and>
     field_ok (ox_scMinPostsIntervalMs x) \<and> (\<exists>kvs. ox_xmux x = JObj kvs) \<and> json_val (ox_xmux x) \<and>
     field_ok (ox_scMaxEachPostBytes x) \<and> field_ok (ox_xPaddingBytes x) \<and>
     opt_field_ok (ox_downloadSettings x) \<and> ox_downloadSettings x \<noteq> JNull \<and>
     distinct (keys (ox_extra x)) \<and> list_all (\<lambda>e. field_ok (snd e)) (ox_extra x) \<and>
     list_all (\<lambda>k. k \<notin> set STRUCTURED_KEYS \<and> k \<noteq> ''__proto__'') (keys (ox_extra x))"

text \<open>What the properties of the sent object are.\<close>

lemma distinct_xhttp: "distinct (keys (ox_extra x)) \<Longrightarrow> distinct (keys (xhttp_entries x))"
  unfolding xhttp_entries_def Let_def by (intro distinct_set_if distinct_obj_set distinct_obj_assign) simp

lemma look_xhttp:
  "look (xhttp_entries x) ''path'' = ox_path x"
  "look (xhttp_entries x) ''host'' = ox_host x"
  "look (xhttp_entries x) ''mode'' = ox_mode x"
  "look (xhttp_entries x) ''noGRPCHeader'' = ox_noGRPCHeader x"
  "look (xhttp_entries x) ''scMinPostsIntervalMs'' = ox_scMinPostsIntervalMs x"
  "look (xhttp_entries x) ''xmux'' = JObj (obj_assign [] (own_entries (ox_xmux x)))"
  by (simp_all add: xhttp_entries_def Let_def look_set_if look_obj_set)

lemma look_xhttp_optional:
  assumes "distinct (keys (ox_extra x))"
  shows "look (xhttp_entries x) ''scMaxEachPostBytes'' =
      (if ox_scMaxEachPostBytes x \<noteq> JUndef \<and> ox_scMaxEachPostBytes x \<noteq> JStr '''' then ox_scMaxEachPostBytes x
       else look (ox_extra x) ''scMaxEachPostBytes'')"
    "look (xhttp_entries x) ''xPaddingBytes'' =
      (if ox_xPaddingBytes x \<noteq> JUndef \<and> ox_xPaddingBytes x \<noteq> JStr '''' then ox_xPaddingBytes x
       else look (ox_extra x) ''xPaddingBytes'')"
    "look (xhttp_entries x) ''downloadSettings'' =
      (if ox_downloadSettings x \<noteq> JUndef \<and> ox_downloadSettings x \<noteq> JNull then ox_downloadSettings x
       else look (ox_extra x) ''downloadSettings'')"
  using assms by (simp_all add: xhttp_entries_def Let_def look_set_if look_obj_set obj_assign_Nil)

lemma look_xhttp_unknown:
  assumes "distinct (keys (ox_extra x))" and "k \<notin> set STRUCTURED_KEYS"
  shows "look (xhttp_entries x) k = look (ox_extra x) k"
proof -
  have "k \<noteq> ''path''" "k \<noteq> ''host''" "k \<noteq> ''mode''" "k \<noteq> ''noGRPCHeader''" "k \<noteq> ''scMinPostsIntervalMs''"
    "k \<noteq> ''xmux''" "k \<noteq> ''scMaxEachPostBytes''" "k \<noteq> ''xPaddingBytes''" "k \<noteq> ''downloadSettings''"
    using assms(2) by (auto simp: STRUCTURED_KEYS_def)
  with assms(1) show ?thesis by (simp add: xhttp_entries_def Let_def look_set_if look_obj_set obj_assign_Nil)
qed

lemma nine_cases:
  "k \<in> set [a, b, c, d, e, f, g, h, i] \<Longrightarrow> k \<in> set [a, b, c, d, e] \<or> k = f \<or> k = g \<or> k = h \<or> k = i"
  "k \<in> set [a, b, c, d, e, f, g, h, i] \<Longrightarrow> k \<notin> set [a, b, c, d, e, f] \<Longrightarrow> k = g \<or> k = h \<or> k = i"
  by auto

lemma structured_cases:
  assumes "k \<in> set STRUCTURED_KEYS"
  obtains "k \<in> set [''path'', ''host'', ''mode'', ''noGRPCHeader'', ''scMinPostsIntervalMs'']" | "k = ''xmux''"
    | "k = ''scMaxEachPostBytes''" | "k = ''xPaddingBytes''" | "k = ''downloadSettings''"
  using nine_cases(1) [OF assms [unfolded STRUCTURED_KEYS_def]] that by (elim disjE) assumption+

text \<open>Only the unknown properties are collected, and none is lost.\<close>

definition unknown :: "string \<Rightarrow> bool" where
  "unknown k \<longleftrightarrow> k \<notin> set STRUCTURED_KEYS \<and> k \<noteq> ''__proto__''"

lemma collect_unknown_assign: "collect_unknown extra kvs = obj_assign extra (filter (\<lambda>e. unknown (fst e)) kvs)"
  unfolding collect_unknown_def obj_assign_def
  by (induction kvs arbitrary: extra) (auto simp: keep_unknown_def unknown_def split: prod.splits)

lemma keys_filter_unknown: "keys (filter (\<lambda>e. unknown (fst e)) kvs) = filter unknown (keys kvs)"
  by (induction kvs) auto

lemma look_filter_unknown: "look (filter (\<lambda>e. unknown (fst e)) kvs) k = (if unknown k then look kvs k else JUndef)"
  by (induction kvs) (auto simp: look_def)

lemma collect_unknown_all:
  "list_all unknown (keys kvs) \<Longrightarrow> distinct (keys kvs) \<Longrightarrow> collect_unknown [] kvs = kvs"
  by (simp add: collect_unknown_assign keys_conv list_all_iff filter_id_conv comp_def obj_assign_Nil)

lemma look_collect:
  "distinct (keys kvs) \<Longrightarrow>
   look (collect_unknown extra kvs) k = (if unknown k \<and> k \<in> set (keys kvs) then look kvs k else look extra k)"
  by (simp add: collect_unknown_assign look_obj_assign keys_filter_unknown look_filter_unknown)

lemma distinct_collect: "distinct (keys extra) \<Longrightarrow> distinct (keys (collect_unknown extra kvs))"
  by (simp add: collect_unknown_assign distinct_obj_assign)

text \<open>The structured properties that are put into the object leave its unknown ones alone.\<close>

lemma filter_unknown_set: "\<not> unknown k \<Longrightarrow> filter (\<lambda>e. unknown (fst e)) (obj_set kvs k v) = filter (\<lambda>e. unknown (fst e)) kvs"
  by (induction kvs k v rule: obj_set.induct) auto

lemma filter_unknown_set_if:
  "\<not> unknown k \<Longrightarrow> filter (\<lambda>e. unknown (fst e)) (set_if b k v kvs) = filter (\<lambda>e. unknown (fst e)) kvs"
  by (simp add: set_if_def filter_unknown_set)

lemma structured_known: "k \<in> set STRUCTURED_KEYS \<Longrightarrow> \<not> unknown k"
  by (simp add: unknown_def)

lemma xhttp_unknown:
  assumes "distinct (keys (ox_extra x))" and "list_all unknown (keys (ox_extra x))"
  shows "filter (\<lambda>e. unknown (fst e)) (xhttp_entries x) = ox_extra x"
proof -
  have "filter (\<lambda>e. unknown (fst e)) (ox_extra x) = ox_extra x"
    using assms(2) by (simp add: filter_id_conv list_all_iff keys_conv)
  then show ?thesis
    using assms(1)
    by (simp add: xhttp_entries_def Let_def filter_unknown_set filter_unknown_set_if structured_known STRUCTURED_KEYS_def obj_assign_Nil)
qed

lemma OutXhttp_roundtrip:
  assumes ok: "OutXhttp_ok x"
  shows "OutXhttp_fromJson (wire (OutXhttp_toJson x)) = Some x"
proof -
  have d: "distinct (keys (ox_extra x))" and u: "list_all unknown (keys (ox_extra x))"
    using ok by (simp_all add: OutXhttp_ok_def unknown_def list_all_iff)
  note g = js_get_wire [OF distinct_xhttp [OF d]]
  obtain mux where mux: "ox_xmux x = JObj mux" "distinct (keys mux)" "json_val (JObj mux)"
    using ok by (auto simp: OutXhttp_ok_def)
  have absent: "look (ox_extra x) k = JUndef" if "k \<in> set STRUCTURED_KEYS" for k
    using u that by (intro look_notin) (auto simp: unknown_def list_all_iff)
  let ?sent = "map (\<lambda>e. (fst e, wire (snd e))) (filter (\<lambda>e. snd e \<noteq> JUndef) (xhttp_entries x))"
  have f: "filter (\<lambda>e. unknown (fst e)) ?sent =
      map (\<lambda>e. (fst e, wire (snd e))) (filter (\<lambda>e. snd e \<noteq> JUndef) (filter (\<lambda>e. unknown (fst e)) (xhttp_entries x)))"
    by (simp add: filter_map comp_def conj_commute)
  have s: "map (\<lambda>e. (fst e, wire (snd e))) (filter (\<lambda>e. snd e \<noteq> JUndef) (ox_extra x)) = ox_extra x"
  proof -
    have "filter (\<lambda>e. snd e \<noteq> JUndef) (ox_extra x) = ox_extra x"
      using ok by (auto simp: OutXhttp_ok_def list_all_iff filter_id_conv)
    moreover have "map (\<lambda>e. (fst e, wire (snd e))) (ox_extra x) = ox_extra x"
      using ok by (intro map_idI) (auto simp: OutXhttp_ok_def list_all_iff field_ok_def)
    ultimately show ?thesis by simp
  qed
  have e: "collect_unknown [] (own_entries (wire (OutXhttp_toJson x))) = ox_extra x"
    by (simp add: OutXhttp_toJson_def wire.simps(7) collect_unknown_assign f xhttp_unknown [OF d u] s obj_assign_Nil d)
  have n: "dflt (wire (OutXhttp_toJson x)) (JObj []) = wire (OutXhttp_toJson x)"
    by (simp add: OutXhttp_toJson_def)
  have k: "object_keys (wire (OutXhttp_toJson x)) \<noteq> None"
    by (simp add: OutXhttp_toJson_def object_keys_wire)
  then obtain ks where ks: "object_keys (wire (OutXhttp_toJson x)) = Some ks" by blast
  have get: "js_get (wire (OutXhttp_toJson x)) k = Some (wire (look (xhttp_entries x) k))" for k
    unfolding OutXhttp_toJson_def by (rule g)
  have m: "wire (JObj (obj_assign [] mux)) = JObj mux" using mux by (simp add: obj_assign_Nil)
  have fields: "OutXhttp_fromJson (wire (OutXhttp_toJson x)) =
      Some (new_OutXhttp (wire (ox_path x)) (wire (ox_host x)) (wire (ox_mode x)) (wire (ox_noGRPCHeader x))
        (wire (ox_scMinPostsIntervalMs x)) (JObj mux) (wire (look (xhttp_entries x) ''scMaxEachPostBytes''))
        (wire (look (xhttp_entries x) ''xPaddingBytes'')) (wire (look (xhttp_entries x) ''downloadSettings'')) (ox_extra x))"
    by (simp add: OutXhttp_fromJson_def n ks get e look_xhttp mux(1) m)
  have o: "dflt (wire (look (xhttp_entries x) ''scMaxEachPostBytes'')) (JStr '''') = ox_scMaxEachPostBytes x"
    "dflt (wire (look (xhttp_entries x) ''xPaddingBytes'')) (JStr '''') = ox_xPaddingBytes x"
    "wire (look (xhttp_entries x) ''downloadSettings'') = ox_downloadSettings x"
    using ok absent by (auto simp: look_xhttp_optional [OF d] STRUCTURED_KEYS_def OutXhttp_ok_def field_ok_def opt_field_ok_def)
  have p: "dflt (wire v) u = v" if "field_ok v" for v u using that by (auto simp: field_ok_def)
  have "field_ok (ox_path x)" "field_ok (ox_host x)" "field_ok (ox_mode x)" "field_ok (ox_noGRPCHeader x)"
    "field_ok (ox_scMinPostsIntervalMs x)"
    using ok unfolding OutXhttp_ok_def by blast+
  then show ?thesis unfolding fields new_OutXhttp_def o by (simp add: p mux(1))
qed

interpretation oxh_codec: json_codec "\<lambda>x. Some (OutXhttp_toJson x)" OutXhttp_fromJson OutXhttp_ok
  by (rule json_codecI) (simp add: OutXhttp_roundtrip, simp add: OutXhttp_toJson_def)

text \<open>
  The values of a parsed object that are not sent again as they are: an xmux that is no object,
  two empty texts, and null download settings.
\<close>

definition resent :: "string \<Rightarrow> jsv \<Rightarrow> bool" where
  "resent k v \<longleftrightarrow>
     k \<noteq> ''__proto__'' \<and> (k = ''xmux'' \<longrightarrow> (\<exists>mux. v = JObj mux)) \<and>
     (k \<in> {''scMaxEachPostBytes'', ''xPaddingBytes''} \<longrightarrow> v \<noteq> JStr '''') \<and> (k = ''downloadSettings'' \<longrightarrow> v \<noteq> JNull)"

definition xhttp_defaults :: "string list" where
  "xhttp_defaults = [''path'', ''host'', ''mode'', ''noGRPCHeader'', ''scMinPostsIntervalMs'', ''xmux'']"

lemma xhttp_loaded:
  assumes "json_val (JObj kvs)"
  shows "OutXhttp_fromJson (JObj kvs) =
    Some (new_OutXhttp (look kvs ''path'') (look kvs ''host'') (look kvs ''mode'') (look kvs ''noGRPCHeader'')
      (look kvs ''scMinPostsIntervalMs'') (look kvs ''xmux'') (look kvs ''scMaxEachPostBytes'')
      (look kvs ''xPaddingBytes'') (look kvs ''downloadSettings'') (collect_unknown [] kvs))"
  by (simp add: OutXhttp_fromJson_def object_keys_def)

lemma json_val_look: "json_val (JObj kvs) \<Longrightarrow> k \<in> set (keys kvs) \<Longrightarrow> json_val (look kvs k)"
  by (induction kvs) (auto simp: look_def split: option.splits)

text \<open>
  C23: the xHTTP settings of an outbound lose nothing. Whatever object of JSON values is loaded, every
  property of it is sent again with its value (apart from the blank values that \<open>resent\<close> lists), also
  those the class does not know, and nothing but the six defaults of the class is added.
\<close>
theorem xhttp_lossless:
  assumes json: "json_val (JObj kvs)"
  shows "case OutXhttp_fromJson (JObj kvs) of None \<Rightarrow> False
    | Some x \<Rightarrow>
        (\<forall>k \<in> set (keys kvs). resent k (look kvs k) \<longrightarrow> js_get (wire (OutXhttp_toJson x)) k = Some (look kvs k)) \<and>
        (\<forall>k. k \<notin> set (keys kvs) \<longrightarrow> k \<notin> set xhttp_defaults \<longrightarrow> js_get (wire (OutXhttp_toJson x)) k = Some JUndef)"
proof -
  define x where "x = new_OutXhttp (look kvs ''path'') (look kvs ''host'') (look kvs ''mode'') (look kvs ''noGRPCHeader'')
      (look kvs ''scMinPostsIntervalMs'') (look kvs ''xmux'') (look kvs ''scMaxEachPostBytes'')
      (look kvs ''xPaddingBytes'') (look kvs ''downloadSettings'') (collect_unknown [] kvs)"
  have dk: "distinct (keys kvs)" using json by simp
  have d: "distinct (keys (ox_extra x))" by (simp add: x_def new_OutXhttp_def distinct_collect)
  have get: "js_get (wire (OutXhttp_toJson x)) k = Some (wire (look (xhttp_entries x) k))" for k
    unfolding OutXhttp_toJson_def by (rule js_get_wire [OF distinct_xhttp [OF d]])
  have extra: "look (ox_extra x) k = (if unknown k \<and> k \<in> set (keys kvs) then look kvs k else JUndef)" for k
    by (simp add: x_def new_OutXhttp_def look_collect [OF dk])
  have f: "ox_path x = dflt (look kvs ''path'') (JStr ''/'')" "ox_host x = dflt (look kvs ''host'') (JStr '''')"
    "ox_mode x = dflt (look kvs ''mode'') (JStr '''')" "ox_noGRPCHeader x = dflt (look kvs ''noGRPCHeader'') (JBool False)"
    "ox_scMinPostsIntervalMs x = dflt (look kvs ''scMinPostsIntervalMs'') (JStr ''30'')"
    "ox_xmux x = dflt (look kvs ''xmux'') default_xmux"
    "ox_scMaxEachPostBytes x = dflt (look kvs ''scMaxEachPostBytes'') (JStr '''')"
    "ox_xPaddingBytes x = dflt (look kvs ''xPaddingBytes'') (JStr '''')" "ox_downloadSettings x = look kvs ''downloadSettings''"
    by (simp_all add: x_def new_OutXhttp_def)
  have sent: "wire (look (xhttp_entries x) k) = look kvs k" if k: "k \<in> set (keys kvs)" "resent k (look kvs k)" for k
  proof -
    have v: "json_val (look kvs k)" by (rule json_val_look [OF json k(1)])
    have m: "obj_assign [] mux = mux" if "look kvs ''xmux'' = JObj mux" "k = ''xmux''" for mux
      using v that by (simp add: obj_assign_Nil)
    have n: "look kvs k \<noteq> JUndef" using v by simp
    have "look (xhttp_entries x) k = look kvs k"
    proof (cases "k \<in> set STRUCTURED_KEYS")
      case False
      then have "unknown k" using k(2) by (simp add: unknown_def resent_def)
      with False k(1) show ?thesis by (simp only: look_xhttp_unknown [OF d False] extra simp_thms if_True)
    next
      case True
      then show ?thesis
      proof (cases rule: structured_cases)
        case 1
        have "dflt (look kvs k) u = look kvs k" for u using n by simp
        with 1 show ?thesis by (auto simp: look_xhttp f)
      next
        case 2
        with n k(2) m show ?thesis by (auto simp: look_xhttp f resent_def)
      next
        case 3
        with n k(2) show ?thesis by (simp add: look_xhttp_optional [OF d] f(7) resent_def)
      next
        case 4
        with n k(2) show ?thesis by (simp add: look_xhttp_optional [OF d] f(8) resent_def)
      next
        case 5
        with n k(2) show ?thesis by (simp add: look_xhttp_optional [OF d] f(9) resent_def)
      qed
    qed
    then show ?thesis using v by simp
  qed
  have none: "look (xhttp_entries x) k = JUndef" if "k \<notin> set (keys kvs)" "k \<notin> set xhttp_defaults" for k
  proof -
    note absent = look_notin [OF that(1)]
    show ?thesis
    proof (cases "k \<in> set STRUCTURED_KEYS")
      case False
      then show ?thesis using that(1) by (simp only: look_xhttp_unknown [OF d False] extra simp_thms if_False)
    next
      case True
      then have "k = ''scMaxEachPostBytes'' \<or> k = ''xPaddingBytes'' \<or> k = ''downloadSettings''"
        using that(2) unfolding STRUCTURED_KEYS_def xhttp_defaults_def by (rule nine_cases(2))
      with absent show ?thesis
        by (elim disjE) (simp_all add: look_xhttp_optional [OF d] f(7-9) extra that(1))
    qed
  qed
  show ?thesis unfolding xhttp_loaded [OF json, folded x_def] option.case get using sent none by auto
qed

definition sample_xhttp :: entries where
  "sample_xhttp =
     [(''path'', JStr ''/x''), (''xPaddingObfsMode'', JBool True), (''xmux'', JObj [(''cMaxLifetimeMs'', jint 0)]),
      (''downloadSettings'', JObj [(''address'', JStr ''b.example'')])]"

theorem xhttp_lossless_witness:
  "case OutXhttp_fromJson (JObj sample_xhttp) of None \<Rightarrow> False
    | Some x \<Rightarrow>
        (\<forall>k \<in> set (keys sample_xhttp). resent k (look sample_xhttp k) \<longrightarrow>
           js_get (wire (OutXhttp_toJson x)) k = Some (look sample_xhttp k)) \<and>
        (\<forall>k. k \<notin> set (keys sample_xhttp) \<longrightarrow> k \<notin> set xhttp_defaults \<longrightarrow> js_get (wire (OutXhttp_toJson x)) k = Some JUndef)"
  by (rule xhttp_lossless) (simp add: sample_xhttp_def)

end
