(* ===== verification/OutSecurity.thy ===== *)
theory OutSecurity
  imports OutTransport
begin

text \<open>
  TLS, Reality, the Hysteria transport, the socket options and the multiplexer of an outbound
  (web/assets/js/model/outbound.js). Optional TLS fields are sent only when they carry a value.
\<close>

section \<open>TlsStreamSettings\<close>

record OutTls =
  otl_serverName :: jsv
  otl_alpn :: jsv
  otl_fingerprint :: jsv
  otl_echConfigList :: jsv
  otl_verifyPeerCertByName :: jsv
  otl_pinnedPeerCertSha256 :: jsv

definition new_OutTls ::
  "jsv \<Rightarrow> jsv \<Rightarrow> jsv \<Rightarrow> jsv \<Rightarrow> jsv \<Rightarrow> jsv \<Rightarrow>
   OutTls" where
  "new_OutTls
     serverName alpn fingerprint echConfigList verifyPeerCertByName pinnedPeerCertSha256 =
     \<lparr>otl_serverName = dflt serverName (JStr ''''),
       otl_alpn = dflt alpn (JArr []),
       otl_fingerprint = dflt fingerprint (JStr ''''),
       otl_echConfigList = dflt echConfigList (JStr ''''),
       otl_verifyPeerCertByName = dflt verifyPeerCertByName (JStr ''''),
       otl_pinnedPeerCertSha256 = dflt pinnedPeerCertSha256 (JStr '''')\<rparr>"

definition default_OutTls :: OutTls where
  "default_OutTls =
     new_OutTls JUndef JUndef JUndef JUndef JUndef JUndef"

definition OutTls_fromJson :: "jsv \<Rightarrow> OutTls option" where
  "OutTls_fromJson json =
     (let json = dflt json (JObj []) in
      do { serverName \<leftarrow> js_get json ''serverName'';
           alpn \<leftarrow> js_get json ''alpn'';
           fingerprint \<leftarrow> js_get json ''fingerprint'';
           echConfigList \<leftarrow> js_get json ''echConfigList'';
           verifyPeerCertByName \<leftarrow> js_get json ''verifyPeerCertByName'';
           pinnedPeerCertSha256 \<leftarrow> js_get json ''pinnedPeerCertSha256'';
           Some (new_OutTls serverName alpn fingerprint echConfigList verifyPeerCertByName
            pinnedPeerCertSha256) })"

text \<open>The fields that are sent only when they hold something.\<close>

definition sends_pinned :: "jsv \<Rightarrow> bool" where
  "sends_pinned v \<longleftrightarrow> truthy v \<and> v \<noteq> JArr []"

definition tls_entries :: "OutTls \<Rightarrow> entries" where
  "tls_entries x =
     (let ob = [(''serverName'', otl_serverName x)];
          ob = set_if (is_array (otl_alpn x) \<and> otl_alpn x \<noteq> JArr []) ''alpn'' (otl_alpn x) ob;
          ob = set_if (truthy (otl_fingerprint x) \<and> otl_fingerprint x \<noteq> JStr ''none'') ''fingerprint'' (otl_fingerprint x) ob;
          ob = set_if (truthy (otl_echConfigList x)) ''echConfigList'' (otl_echConfigList x) ob;
          ob = set_if (truthy (otl_verifyPeerCertByName x)) ''verifyPeerCertByName'' (otl_verifyPeerCertByName x) ob
      in set_if (sends_pinned (otl_pinnedPeerCertSha256 x)) ''pinnedPeerCertSha256'' (otl_pinnedPeerCertSha256 x) ob)"

definition OutTls_toJson :: "OutTls \<Rightarrow> jsv" where
  "OutTls_toJson x = JObj (tls_entries x)"

definition blank_or :: "bool \<Rightarrow> jsv \<Rightarrow> bool" where
  "blank_or b v \<longleftrightarrow> v = JStr '''' \<or> b \<and> field_ok v"

definition OutTls_ok :: "OutTls \<Rightarrow> bool" where
  "OutTls_ok x \<longleftrightarrow>
     field_ok (otl_serverName x) \<and> is_array (otl_alpn x) \<and> field_ok (otl_alpn x) \<and>
     blank_or (truthy (otl_fingerprint x) \<and> otl_fingerprint x \<noteq> JStr ''none'') (otl_fingerprint x) \<and>
     blank_or (truthy (otl_echConfigList x)) (otl_echConfigList x) \<and>
     blank_or (truthy (otl_verifyPeerCertByName x)) (otl_verifyPeerCertByName x) \<and>
     blank_or (sends_pinned (otl_pinnedPeerCertSha256 x)) (otl_pinnedPeerCertSha256 x)"

lemma OutTls_roundtrip:
  assumes ok: "OutTls_ok x"
  shows "OutTls_fromJson (wire (OutTls_toJson x)) = Some x"
proof -
  have d: "distinct (keys (tls_entries x))"
    unfolding tls_entries_def Let_def by (intro distinct_set_if) simp
  have get: "js_get (wire (OutTls_toJson x)) k = Some (wire (look (tls_entries x) k))" for k
    unfolding OutTls_toJson_def by (rule js_get_wire [OF d])
  have n: "dflt (wire (OutTls_toJson x)) (JObj []) = wire (OutTls_toJson x)"
    by (simp add: OutTls_toJson_def)
  have b: "dflt (wire (if c then v else JUndef)) (JStr '''') = v" if "blank_or c v" "c \<longrightarrow> v \<noteq> JStr ''''" for c v
    using that by (auto simp: blank_or_def field_ok_def)
  have s: "\<not> sends_pinned (JStr '''')" by (simp add: sends_pinned_def)
  have a: "dflt (wire (if is_array v \<and> v \<noteq> JArr [] then v else JUndef)) (JArr []) = v" if "is_array v" "field_ok v" for v
    using that by (auto simp: field_ok_def)
  have fp: "dflt (wire (if truthy (otl_fingerprint x) \<and> otl_fingerprint x \<noteq> JStr ''none'' then otl_fingerprint x else JUndef)) (JStr '''') = otl_fingerprint x"
    using ok by (intro b) (auto simp: OutTls_ok_def)
  have e: "dflt (wire (if truthy (otl_echConfigList x) then otl_echConfigList x else JUndef)) (JStr '''') = otl_echConfigList x"
    using ok by (intro b) (auto simp: OutTls_ok_def)
  have vp: "dflt (wire (if truthy (otl_verifyPeerCertByName x) then otl_verifyPeerCertByName x else JUndef)) (JStr '''') =
      otl_verifyPeerCertByName x"
    using ok by (intro b) (auto simp: OutTls_ok_def)
  have pp: "dflt (wire (if sends_pinned (otl_pinnedPeerCertSha256 x) then otl_pinnedPeerCertSha256 x else JUndef)) (JStr '''') =
      otl_pinnedPeerCertSha256 x"
    using ok s by (intro b) (auto simp: OutTls_ok_def)
  have sn: "dflt (wire (otl_serverName x)) (JStr '''') = otl_serverName x" using ok by (auto simp: OutTls_ok_def)
  have l: "look (tls_entries x) ''serverName'' = otl_serverName x"
    "look (tls_entries x) ''alpn'' = (if is_array (otl_alpn x) \<and> otl_alpn x \<noteq> JArr [] then otl_alpn x else JUndef)"
    "look (tls_entries x) ''fingerprint'' =
      (if truthy (otl_fingerprint x) \<and> otl_fingerprint x \<noteq> JStr ''none'' then otl_fingerprint x else JUndef)"
    "look (tls_entries x) ''echConfigList'' = (if truthy (otl_echConfigList x) then otl_echConfigList x else JUndef)"
    "look (tls_entries x) ''verifyPeerCertByName'' =
      (if truthy (otl_verifyPeerCertByName x) then otl_verifyPeerCertByName x else JUndef)"
    "look (tls_entries x) ''pinnedPeerCertSha256'' =
      (if sends_pinned (otl_pinnedPeerCertSha256 x) then otl_pinnedPeerCertSha256 x else JUndef)"
    by (simp_all add: tls_entries_def Let_def look_set_if)
  have al: "dflt (wire (if is_array (otl_alpn x) \<and> otl_alpn x \<noteq> JArr [] then otl_alpn x else JUndef)) (JArr []) = otl_alpn x"
    using ok by (intro a) (auto simp: OutTls_ok_def)
  show ?thesis
    by (simp only: OutTls_fromJson_def n Let_def get bind.bind_lunit new_OutTls_def l al fp e vp pp sn) simp
qed

interpretation otl_codec: json_codec "\<lambda>x. Some (OutTls_toJson x)" OutTls_fromJson OutTls_ok
  by (rule json_codecI) (simp add: OutTls_roundtrip, simp add: OutTls_toJson_def)

section \<open>RealityStreamSettings\<close>

record OutReality =
  ore_publicKey :: jsv
  ore_fingerprint :: jsv
  ore_serverName :: jsv
  ore_shortId :: jsv
  ore_spiderX :: jsv
  ore_mldsa65Verify :: jsv

definition new_OutReality ::
  "jsv \<Rightarrow> jsv \<Rightarrow> jsv \<Rightarrow> jsv \<Rightarrow> jsv \<Rightarrow> jsv \<Rightarrow>
   OutReality" where
  "new_OutReality
     publicKey fingerprint serverName shortId spiderX mldsa65Verify =
     \<lparr>ore_publicKey = dflt publicKey (JStr ''''),
       ore_fingerprint = dflt fingerprint (JStr ''''),
       ore_serverName = dflt serverName (JStr ''''),
       ore_shortId = dflt shortId (JStr ''''),
       ore_spiderX = dflt spiderX (JStr ''''),
       ore_mldsa65Verify = dflt mldsa65Verify (JStr '''')\<rparr>"

definition default_OutReality :: OutReality where
  "default_OutReality =
     new_OutReality JUndef JUndef JUndef JUndef JUndef JUndef"

definition OutReality_fromJson :: "jsv \<Rightarrow> OutReality option" where
  "OutReality_fromJson json =
     (let json = dflt json (JObj []) in
      do { publicKey \<leftarrow> js_get json ''publicKey'';
           fingerprint \<leftarrow> js_get json ''fingerprint'';
           serverName \<leftarrow> js_get json ''serverName'';
           shortId \<leftarrow> js_get json ''shortId'';
           spiderX \<leftarrow> js_get json ''spiderX'';
           mldsa65Verify \<leftarrow> js_get json ''mldsa65Verify'';
           Some (new_OutReality publicKey fingerprint serverName shortId spiderX mldsa65Verify) })"

definition OutReality_toJson :: "OutReality \<Rightarrow> jsv" where
  "OutReality_toJson x = JObj
       [(''publicKey'', ore_publicKey x),
        (''fingerprint'', ore_fingerprint x),
        (''serverName'', ore_serverName x),
        (''shortId'', ore_shortId x),
        (''spiderX'', ore_spiderX x),
        (''mldsa65Verify'', ore_mldsa65Verify x)]"

definition OutReality_ok :: "OutReality \<Rightarrow> bool" where
  "OutReality_ok x \<longleftrightarrow>
     field_ok (ore_publicKey x) \<and>
     field_ok (ore_fingerprint x) \<and>
     field_ok (ore_serverName x) \<and>
     field_ok (ore_shortId x) \<and>
     field_ok (ore_spiderX x) \<and>
     field_ok (ore_mldsa65Verify x)"

lemma OutReality_roundtrip: "OutReality_ok x \<Longrightarrow> OutReality_fromJson (wire (OutReality_toJson x)) = Some x"
  by (simp add: OutReality_ok_def OutReality_toJson_def OutReality_fromJson_def new_OutReality_def js_get_wire
      field_ok_def opt_new_def)

interpretation ore_codec: json_codec "\<lambda>x. Some (OutReality_toJson x)" OutReality_fromJson OutReality_ok
  by (rule json_codecI) (simp add: OutReality_roundtrip, simp add: OutReality_toJson_def)

section \<open>HysteriaStreamSettings\<close>

record OutHysteria =
  ohy_version :: jsv
  ohy_auth :: jsv
  ohy_congestion :: jsv
  ohy_up :: jsv
  ohy_down :: jsv
  ohy_udphopPort :: jsv
  ohy_udphopIntervalMin :: jsv
  ohy_udphopIntervalMax :: jsv
  ohy_initStreamReceiveWindow :: jsv
  ohy_maxStreamReceiveWindow :: jsv
  ohy_initConnectionReceiveWindow :: jsv
  ohy_maxConnectionReceiveWindow :: jsv
  ohy_maxIdleTimeout :: jsv
  ohy_keepAlivePeriod :: jsv
  ohy_disablePathMTUDiscovery :: jsv

definition new_OutHysteria ::
  "jsv \<Rightarrow> jsv \<Rightarrow> jsv \<Rightarrow> jsv \<Rightarrow> jsv \<Rightarrow> jsv \<Rightarrow>
   jsv \<Rightarrow> jsv \<Rightarrow> jsv \<Rightarrow> jsv \<Rightarrow> jsv \<Rightarrow> jsv \<Rightarrow>
   jsv \<Rightarrow> jsv \<Rightarrow> jsv \<Rightarrow> OutHysteria" where
  "new_OutHysteria
     version auth congestion up down udphopPort udphopIntervalMin udphopIntervalMax
     initStreamReceiveWindow maxStreamReceiveWindow initConnectionReceiveWindow
     maxConnectionReceiveWindow maxIdleTimeout keepAlivePeriod disablePathMTUDiscovery =
     \<lparr>ohy_version = dflt version (jint 2),
       ohy_auth = dflt auth (JStr ''''),
       ohy_congestion = dflt congestion (JStr ''''),
       ohy_up = dflt up (JStr ''0''),
       ohy_down = dflt down (JStr ''0''),
       ohy_udphopPort = dflt udphopPort (JStr ''''),
       ohy_udphopIntervalMin = dflt udphopIntervalMin (jint 30),
       ohy_udphopIntervalMax = dflt udphopIntervalMax (jint 30),
       ohy_initStreamReceiveWindow = dflt initStreamReceiveWindow (jint 8388608),
       ohy_maxStreamReceiveWindow = dflt maxStreamReceiveWindow (jint 8388608),
       ohy_initConnectionReceiveWindow = dflt initConnectionReceiveWindow (jint 20971520),
       ohy_maxConnectionReceiveWindow = dflt maxConnectionReceiveWindow (jint 20971520),
       ohy_maxIdleTimeout = dflt maxIdleTimeout (jint 30),
       ohy_keepAlivePeriod = dflt keepAlivePeriod (jint 0),
       ohy_disablePathMTUDiscovery = dflt disablePathMTUDiscovery (JBool False)\<rparr>"

definition default_OutHysteria :: OutHysteria where
  "default_OutHysteria =
     new_OutHysteria JUndef JUndef JUndef JUndef JUndef JUndef JUndef JUndef JUndef JUndef JUndef
     JUndef JUndef JUndef JUndef"

text \<open>
  Port hopping: a single interval of older configurations is both ends of the range.
\<close>

definition hop_port :: "jsv \<Rightarrow> jsv" where
  "hop_port udphop = (if truthy udphop then js_or (js_get_opt udphop ''port'') (JStr '''') else JStr '''')"

definition hop_bound :: "string \<Rightarrow> jsv \<Rightarrow> jsv" where
  "hop_bound k udphop =
     (if truthy udphop
      then (let interval = js_get_opt udphop ''interval''
            in if interval \<noteq> JUndef then interval else js_or (js_get_opt udphop k) (jint 30))
      else jint 30)"

definition hop_min :: "jsv \<Rightarrow> jsv" where
  "hop_min = hop_bound ''intervalMin''"

definition hop_max :: "jsv \<Rightarrow> jsv" where
  "hop_max = hop_bound ''intervalMax''"

definition OutHysteria_fromJson :: "jsv \<Rightarrow> OutHysteria option" where
  "OutHysteria_fromJson json =
     (let json = dflt json (JObj []) in
      do { version \<leftarrow> js_get json ''version'';
           auth \<leftarrow> js_get json ''auth'';
           congestion \<leftarrow> js_get json ''congestion'';
           up \<leftarrow> js_get json ''up'';
           down \<leftarrow> js_get json ''down'';
           udphop \<leftarrow> js_get json ''udphop'';
           initStreamReceiveWindow \<leftarrow> js_get json ''initStreamReceiveWindow'';
           maxStreamReceiveWindow \<leftarrow> js_get json ''maxStreamReceiveWindow'';
           initConnectionReceiveWindow \<leftarrow> js_get json ''initConnectionReceiveWindow'';
           maxConnectionReceiveWindow \<leftarrow> js_get json ''maxConnectionReceiveWindow'';
           maxIdleTimeout \<leftarrow> js_get json ''maxIdleTimeout'';
           keepAlivePeriod \<leftarrow> js_get json ''keepAlivePeriod'';
           disablePathMTUDiscovery \<leftarrow> js_get json ''disablePathMTUDiscovery'';
           Some (new_OutHysteria version auth congestion up down (hop_port udphop) (hop_min udphop) (hop_max udphop) initStreamReceiveWindow
            maxStreamReceiveWindow initConnectionReceiveWindow maxConnectionReceiveWindow
            maxIdleTimeout keepAlivePeriod disablePathMTUDiscovery) })"

definition OutHysteria_toJson :: "OutHysteria \<Rightarrow> jsv" where
  "OutHysteria_toJson x =
     (let result =
       [(''version'', ohy_version x),
        (''auth'', ohy_auth x),
        (''congestion'', ohy_congestion x),
        (''up'', ohy_up x),
        (''down'', ohy_down x),
        (''initStreamReceiveWindow'', ohy_initStreamReceiveWindow x),
        (''maxStreamReceiveWindow'', ohy_maxStreamReceiveWindow x),
        (''initConnectionReceiveWindow'', ohy_initConnectionReceiveWindow x),
        (''maxConnectionReceiveWindow'', ohy_maxConnectionReceiveWindow x),
        (''maxIdleTimeout'', ohy_maxIdleTimeout x),
        (''keepAlivePeriod'', ohy_keepAlivePeriod x),
        (''disablePathMTUDiscovery'', ohy_disablePathMTUDiscovery x)]
      in JObj (if truthy (ohy_udphopPort x)
               then obj_set result ''udphop''
                      (JObj [(''port'', ohy_udphopPort x), (''intervalMin'', ohy_udphopIntervalMin x),
                             (''intervalMax'', ohy_udphopIntervalMax x)])
               else result))"

text \<open>Without a port to hop to the interval is not sent, so it is the default.\<close>

definition hop_ok :: "OutHysteria \<Rightarrow> bool" where
  "hop_ok x \<longleftrightarrow>
     (if truthy (ohy_udphopPort x)
      then field_ok (ohy_udphopPort x) \<and> field_ok (ohy_udphopIntervalMin x) \<and> truthy (ohy_udphopIntervalMin x) \<and>
        field_ok (ohy_udphopIntervalMax x) \<and> truthy (ohy_udphopIntervalMax x)
      else ohy_udphopPort x = JStr '''' \<and> ohy_udphopIntervalMin x = jint 30 \<and> ohy_udphopIntervalMax x = jint 30)"

definition OutHysteria_ok :: "OutHysteria \<Rightarrow> bool" where
  "OutHysteria_ok x \<longleftrightarrow>
     field_ok (ohy_version x) \<and>
     field_ok (ohy_auth x) \<and>
     field_ok (ohy_congestion x) \<and>
     field_ok (ohy_up x) \<and>
     field_ok (ohy_down x) \<and>
     field_ok (ohy_initStreamReceiveWindow x) \<and>
     field_ok (ohy_maxStreamReceiveWindow x) \<and>
     field_ok (ohy_initConnectionReceiveWindow x) \<and>
     field_ok (ohy_maxConnectionReceiveWindow x) \<and>
     field_ok (ohy_maxIdleTimeout x) \<and>
     field_ok (ohy_keepAlivePeriod x) \<and>
     field_ok (ohy_disablePathMTUDiscovery x) \<and>
     hop_ok x"

lemma hop_saved:
  assumes "hop_ok x"
  shows "hop_port (wire (if truthy (ohy_udphopPort x)
        then JObj [(''port'', ohy_udphopPort x), (''intervalMin'', ohy_udphopIntervalMin x), (''intervalMax'', ohy_udphopIntervalMax x)]
        else JUndef)) = ohy_udphopPort x"
    and "hop_min (wire (if truthy (ohy_udphopPort x)
        then JObj [(''port'', ohy_udphopPort x), (''intervalMin'', ohy_udphopIntervalMin x), (''intervalMax'', ohy_udphopIntervalMax x)]
        else JUndef)) = ohy_udphopIntervalMin x"
    and "hop_max (wire (if truthy (ohy_udphopPort x)
        then JObj [(''port'', ohy_udphopPort x), (''intervalMin'', ohy_udphopIntervalMin x), (''intervalMax'', ohy_udphopIntervalMax x)]
        else JUndef)) = ohy_udphopIntervalMax x"
  using assms
  by (auto simp: hop_ok_def hop_port_def hop_min_def hop_max_def hop_bound_def wire.simps(7) field_ok_def split: if_splits)

lemma OutHysteria_roundtrip: "OutHysteria_ok x \<Longrightarrow> OutHysteria_fromJson (wire (OutHysteria_toJson x)) = Some x"
proof -
  assume ok: "OutHysteria_ok x"
  then have h: "hop_ok x" by (simp add: OutHysteria_ok_def)
  show ?thesis
    using ok hop_saved [OF h]
    by (cases "truthy (ohy_udphopPort x)")
      (simp_all add: OutHysteria_ok_def OutHysteria_toJson_def OutHysteria_fromJson_def new_OutHysteria_def js_get_wire
        field_ok_def, simp_all add: hop_ok_def field_ok_def)
qed

interpretation ohy_codec: json_codec "\<lambda>x. Some (OutHysteria_toJson x)" OutHysteria_fromJson OutHysteria_ok
  by (rule json_codecI) (simp add: OutHysteria_roundtrip, simp add: OutHysteria_toJson_def Let_def)

section \<open>SockoptStreamSettings\<close>

record OutSockopt =
  oso_dialerProxy :: jsv
  oso_tcpFastOpen :: jsv
  oso_tcpKeepAliveInterval :: jsv
  oso_tcpMptcp :: jsv
  oso_penetrate :: jsv
  oso_addressPortStrategy :: jsv
  oso_trustedXForwardedFor :: jsv

definition new_OutSockopt ::
  "jsv \<Rightarrow> jsv \<Rightarrow> jsv \<Rightarrow> jsv \<Rightarrow> jsv \<Rightarrow> jsv \<Rightarrow>
   jsv \<Rightarrow> OutSockopt" where
  "new_OutSockopt
     dialerProxy tcpFastOpen tcpKeepAliveInterval tcpMptcp penetrate addressPortStrategy
     trustedXForwardedFor =
     \<lparr>oso_dialerProxy = dflt dialerProxy (JStr ''''),
       oso_tcpFastOpen = dflt tcpFastOpen (JBool False),
       oso_tcpKeepAliveInterval = dflt tcpKeepAliveInterval (jint 0),
       oso_tcpMptcp = dflt tcpMptcp (JBool False),
       oso_penetrate = dflt penetrate (JBool False),
       oso_addressPortStrategy = dflt addressPortStrategy (JStr ''none''),
       oso_trustedXForwardedFor = dflt trustedXForwardedFor (JArr [])\<rparr>"

definition default_OutSockopt :: OutSockopt where
  "default_OutSockopt =
     new_OutSockopt JUndef JUndef JUndef JUndef JUndef JUndef JUndef"

text \<open>The outer option is the TypeError, the inner None is undefined: no options at all.\<close>

definition OutSockopt_fromJson :: "jsv \<Rightarrow> OutSockopt option option" where
  "OutSockopt_fromJson json =
     (let json = dflt json (JObj []) in
      do { ks \<leftarrow> object_keys json;
           if ks = [] then Some None else
           do { dialerProxy \<leftarrow> js_get json ''dialerProxy'';
           tcpFastOpen \<leftarrow> js_get json ''tcpFastOpen'';
           tcpKeepAliveInterval \<leftarrow> js_get json ''tcpKeepAliveInterval'';
           tcpMptcp \<leftarrow> js_get json ''tcpMptcp'';
           penetrate \<leftarrow> js_get json ''penetrate'';
           addressPortStrategy \<leftarrow> js_get json ''addressPortStrategy'';
           trustedXForwardedFor \<leftarrow> js_get json ''trustedXForwardedFor'';
           Some (Some (new_OutSockopt dialerProxy tcpFastOpen tcpKeepAliveInterval tcpMptcp penetrate
            addressPortStrategy (js_or trustedXForwardedFor (JArr [])))) } })"

definition OutSockopt_toJson :: "OutSockopt \<Rightarrow> jsv option" where
  "OutSockopt_toJson x =
     (let result =
       [(''dialerProxy'', oso_dialerProxy x),
        (''tcpFastOpen'', oso_tcpFastOpen x),
        (''tcpKeepAliveInterval'', oso_tcpKeepAliveInterval x),
        (''tcpMptcp'', oso_tcpMptcp x),
        (''penetrate'', oso_penetrate x),
        (''addressPortStrategy'', oso_addressPortStrategy x)];
        trusted = oso_trustedXForwardedFor x in
      do { more \<leftarrow> (if truthy trusted
             then do { len \<leftarrow> js_get trusted ''length''; Some (js_gt len (jint 0)) }
             else Some False);
           Some (JObj (if more then obj_set result ''trustedXForwardedFor'' trusted else result)) })"

definition OutSockopt_ok :: "OutSockopt \<Rightarrow> bool" where
  "OutSockopt_ok x \<longleftrightarrow>
     field_ok (oso_dialerProxy x) \<and>
     field_ok (oso_tcpFastOpen x) \<and>
     field_ok (oso_tcpKeepAliveInterval x) \<and>
     field_ok (oso_tcpMptcp x) \<and>
     field_ok (oso_penetrate x) \<and>
     field_ok (oso_addressPortStrategy x) \<and>
     field_ok (oso_trustedXForwardedFor x) \<and>
     is_array (oso_trustedXForwardedFor x)"

lemma OutSockopt_roundtrip:
  assumes "OutSockopt_ok x"
  shows "\<exists>v. OutSockopt_toJson x = Some v \<and> v \<noteq> JUndef \<and> OutSockopt_fromJson (wire v) = Some (Some x)"
proof (cases "oso_trustedXForwardedFor x = JArr []")
  case True
  with assms show ?thesis
    by (simp add: OutSockopt_ok_def OutSockopt_toJson_def OutSockopt_fromJson_def new_OutSockopt_def js_get_wire field_ok_def
        object_keys_wire)
next
  case False
  with assms obtain l where "js_get (oso_trustedXForwardedFor x) ''length'' = Some l" "js_gt l (jint 0)"
    using array_length_positive by (auto simp: OutSockopt_ok_def)
  moreover have "truthy (oso_trustedXForwardedFor x)"
    using assms by (cases "oso_trustedXForwardedFor x") (auto simp: OutSockopt_ok_def)
  ultimately show ?thesis using assms
    by (simp add: OutSockopt_ok_def OutSockopt_toJson_def OutSockopt_fromJson_def new_OutSockopt_def js_get_wire field_ok_def
        object_keys_wire)
qed

section \<open>Mux\<close>

record OutMux =
  omx_enabled :: jsv
  omx_concurrency :: jsv
  omx_xudpConcurrency :: jsv
  omx_xudpProxyUDP443 :: jsv

definition new_OutMux ::
  "jsv \<Rightarrow> jsv \<Rightarrow> jsv \<Rightarrow> jsv \<Rightarrow> OutMux" where
  "new_OutMux
     enabled concurrency xudpConcurrency xudpProxyUDP443 =
     \<lparr>omx_enabled = dflt enabled (JBool False),
       omx_concurrency = dflt concurrency (jint 8),
       omx_xudpConcurrency = dflt xudpConcurrency (jint 16),
       omx_xudpProxyUDP443 = dflt xudpProxyUDP443 (JStr ''reject'')\<rparr>"

definition default_OutMux :: OutMux where
  "default_OutMux =
     new_OutMux JUndef JUndef JUndef JUndef"

definition OutMux_fromJson :: "jsv \<Rightarrow> OutMux option option" where
  "OutMux_fromJson json =
     (let json = dflt json (JObj []) in
      do { ks \<leftarrow> object_keys json;
           if ks = [] then Some None else
           do { enabled \<leftarrow> js_get json ''enabled'';
           concurrency \<leftarrow> js_get json ''concurrency'';
           xudpConcurrency \<leftarrow> js_get json ''xudpConcurrency'';
           xudpProxyUDP443 \<leftarrow> js_get json ''xudpProxyUDP443'';
           Some (Some (new_OutMux enabled concurrency xudpConcurrency xudpProxyUDP443)) } })"

definition OutMux_toJson :: "OutMux \<Rightarrow> jsv" where
  "OutMux_toJson x = JObj
       [(''enabled'', omx_enabled x),
        (''concurrency'', omx_concurrency x),
        (''xudpConcurrency'', omx_xudpConcurrency x),
        (''xudpProxyUDP443'', omx_xudpProxyUDP443 x)]"

definition OutMux_ok :: "OutMux \<Rightarrow> bool" where
  "OutMux_ok x \<longleftrightarrow>
     field_ok (omx_enabled x) \<and>
     field_ok (omx_concurrency x) \<and>
     field_ok (omx_xudpConcurrency x) \<and>
     field_ok (omx_xudpProxyUDP443 x)"

lemma OutMux_roundtrip: "OutMux_ok x \<Longrightarrow> OutMux_fromJson (wire (OutMux_toJson x)) = Some (Some x)"
  by (simp add: OutMux_ok_def OutMux_toJson_def OutMux_fromJson_def new_OutMux_def js_get_wire field_ok_def object_keys_wire)

end
