(* ===== verification/OutMask.thy ===== *)
theory OutMask
  imports InFinal OutSecurity
begin

text \<open>
  The final masks of an outbound (web/assets/js/model/outbound.js). TcpMask, and the cleaning and
  the saving of UdpMask, are the code of the inbound once more, and so its definitions; the default
  settings of UDP masks and the QUIC parameters differ.
\<close>

section \<open>UdpMask\<close>

definition out_udp_default_settings :: "jsv \<Rightarrow> jsv \<Rightarrow> jsv option" where
  "out_udp_default_settings type_v settings =
     (let settings = dflt settings (JObj []) in
      case type_v of JStr t \<Rightarrow>
        if t \<in> {''salamander'', ''mkcp-aes128gcm''}
        then do { password \<leftarrow> js_get settings ''password'';
                  Some (JObj [(''password'', js_or password (JStr ''''))]) }
        else if t = ''header-dns''
        then do { domain \<leftarrow> js_get settings ''domain'';
                  Some (JObj [(''domain'', js_or domain (JStr ''''))]) }
        else if t = ''xdns''
        then do { resolvers \<leftarrow> js_get settings ''resolvers'';
                  Some (JObj [(''resolvers'', array_or_empty resolvers)]) }
        else if t = ''xicmp''
        then do { ip \<leftarrow> js_get settings ''ip'';
                  ident \<leftarrow> js_get settings ''id'';
                  Some (JObj [(''ip'', js_or ip (JStr '''')), (''id'', nullish ident (jint 0))]) }
        else if t \<in> {''mkcp-original'', ''header-dtls'', ''header-srtp'', ''header-utp'', ''header-wechat'',
               ''header-wireguard''}
        then Some (JObj [])
        else if t = ''header-custom''
        then do { client \<leftarrow> js_get settings ''client'';
                  server \<leftarrow> js_get settings ''server'';
                  Some (JObj [(''client'', array_or_empty client), (''server'', array_or_empty server)]) }
        else if t = ''noise''
        then do { reset \<leftarrow> js_get settings ''reset'';
                  noise \<leftarrow> js_get settings ''noise'';
                  Some (JObj [(''reset'', nullish reset (jint 0)), (''noise'', array_or_empty noise)]) }
        else if t = ''sudoku''
        then do { ascii \<leftarrow> js_get settings ''ascii'';
                  customTable \<leftarrow> js_get settings ''customTable'';
                  customTables \<leftarrow> js_get settings ''customTables'';
                  paddingMin \<leftarrow> js_get settings ''paddingMin'';
                  paddingMax \<leftarrow> js_get settings ''paddingMax'';
                  Some (JObj [(''ascii'', js_or ascii (JStr '''')),
                    (''customTable'', js_or customTable (JStr '''')),
                    (''customTables'', array_or_empty customTables),
                    (''paddingMin'', nullish paddingMin (jint 0)),
                    (''paddingMax'', nullish paddingMax (jint 0))]) }
        else Some settings
      | _ \<Rightarrow> Some settings)"

definition new_OutUdpMask :: "jsv \<Rightarrow> jsv \<Rightarrow> UdpMask option" where
  "new_OutUdpMask type_v settings =
     (let type_v = dflt type_v (JStr ''salamander''); settings = dflt settings (JObj []) in
      do { s \<leftarrow> out_udp_default_settings type_v settings;
           Some \<lparr>udp_type = type_v, udp_settings = s\<rparr> })"

definition OutUdpMask_fromJson :: "jsv \<Rightarrow> UdpMask option" where
  "OutUdpMask_fromJson json =
     (let json = dflt json (JObj []) in
      do { type_v \<leftarrow> js_get json ''type'';
           settings \<leftarrow> js_get json ''settings'';
           new_OutUdpMask (js_or type_v (JStr ''salamander'')) (js_or settings (JObj [])) })"

text \<open>\<open>toJson\<close> of the outbound's UdpMask cleans the settings as the inbound's does.\<close>

definition OutUdpMask_toJson :: "UdpMask \<Rightarrow> jsv" where
  "OutUdpMask_toJson x = JObj
     [(''type'', udp_type x),
      (''settings'', sent_settings (udp_clean (udp_type x) (udp_settings x)))]"

definition OutUdpMask_ok :: "UdpMask \<Rightarrow> bool" where
  "OutUdpMask_ok x \<longleftrightarrow>
     is_string (udp_type x) \<and> udp_type x \<noteq> JStr '''' \<and> field_ok (udp_settings x) \<and>
     (\<exists>kvs. udp_settings x = JObj kvs) \<and>
     out_udp_default_settings (udp_type x) (udp_settings x) = Some (udp_settings x) \<and>
     udp_clean (udp_type x) (udp_settings x) = udp_settings x"

section \<open>QuicParams\<close>

record OutQuic =
  oq_congestion :: jsv
  oq_debug :: jsv
  oq_brutalUp :: jsv
  oq_brutalDown :: jsv
  oq_udpHop :: jsv

definition new_OutQuic :: "jsv \<Rightarrow> jsv \<Rightarrow> jsv \<Rightarrow> jsv \<Rightarrow> jsv \<Rightarrow> OutQuic" where
  "new_OutQuic congestion debug brutalUp brutalDown udpHop =
     \<lparr>oq_congestion = dflt congestion (JStr ''bbr''),
      oq_debug = dflt debug (JBool False),
      oq_brutalUp = dflt brutalUp (JStr ''''),
      oq_brutalDown = dflt brutalDown (JStr ''''),
      oq_udpHop = udpHop\<rparr>"

definition default_OutQuic :: OutQuic where
  "default_OutQuic = new_OutQuic JUndef JUndef JUndef JUndef JUndef"

definition oq_hasUdpHop :: "OutQuic \<Rightarrow> bool" where
  "oq_hasUdpHop x \<longleftrightarrow> \<not> is_nullish (oq_udpHop x)"

definition oq_set_hasUdpHop :: "bool \<Rightarrow> OutQuic \<Rightarrow> OutQuic" where
  "oq_set_hasUdpHop value x =
     x\<lparr>oq_udpHop := if value
        then js_or (oq_udpHop x) (JObj [(''ports'', JStr ''20000-50000''), (''interval'', JStr ''5-10'')])
        else JUndef\<rparr>"

text \<open>The outer option is the TypeError, the inner None is undefined.\<close>

definition OutQuic_fromJson :: "jsv \<Rightarrow> OutQuic option option" where
  "OutQuic_fromJson json =
     (let json = dflt json (JObj []) in
      if \<not> truthy json then Some None else
      do { ks \<leftarrow> object_keys json;
           if ks = [] then Some None else
      do { congestion \<leftarrow> js_get json ''congestion'';
           debug \<leftarrow> js_get json ''debug'';
           brutalUp \<leftarrow> js_get json ''brutalUp'';
           brutalDown \<leftarrow> js_get json ''brutalDown'';
           udpHop \<leftarrow> js_get json ''udpHop'';
           udpHop \<leftarrow> (if truthy udpHop
             then do { ports \<leftarrow> js_get udpHop ''ports'';
                       interval \<leftarrow> js_get udpHop ''interval'';
                       Some (JObj [(''ports'', ports), (''interval'', interval)]) }
             else Some JUndef);
           Some (Some (new_OutQuic congestion debug brutalUp brutalDown udpHop)) } })"

definition out_quic_entries :: "OutQuic \<Rightarrow> entries" where
  "out_quic_entries x =
     (let result = [(''congestion'', oq_congestion x)];
          result = set_if (truthy (oq_debug x)) ''debug'' (oq_debug x) result;
          result = set_if (truthy (oq_brutalUp x)) ''brutalUp'' (oq_brutalUp x) result;
          result = set_if (truthy (oq_brutalDown x)) ''brutalDown'' (oq_brutalDown x) result
      in set_if (truthy (oq_udpHop x)) ''udpHop''
           (JObj [(''ports'', js_get_opt (oq_udpHop x) ''ports''), (''interval'', js_get_opt (oq_udpHop x) ''interval'')]) result)"

definition OutQuic_toJson :: "OutQuic \<Rightarrow> jsv" where
  "OutQuic_toJson x = JObj (out_quic_entries x)"

definition OutQuic_ok :: "OutQuic \<Rightarrow> bool" where
  "OutQuic_ok x \<longleftrightarrow>
     field_ok (oq_congestion x) \<and> js_flag (oq_debug x) \<and> is_string (oq_brutalUp x) \<and> is_string (oq_brutalDown x) \<and>
     (oq_udpHop x = JUndef \<or> (\<exists>p i. oq_udpHop x = JObj [(''ports'', p), (''interval'', i)] \<and> field_ok p \<and> field_ok i))"

lemma look_out_quic:
  "look (out_quic_entries x) ''congestion'' = oq_congestion x"
  "look (out_quic_entries x) ''debug'' = (if truthy (oq_debug x) then oq_debug x else JUndef)"
  "look (out_quic_entries x) ''brutalUp'' = (if truthy (oq_brutalUp x) then oq_brutalUp x else JUndef)"
  "look (out_quic_entries x) ''brutalDown'' = (if truthy (oq_brutalDown x) then oq_brutalDown x else JUndef)"
  "look (out_quic_entries x) ''udpHop'' = (if truthy (oq_udpHop x)
     then JObj [(''ports'', js_get_opt (oq_udpHop x) ''ports''), (''interval'', js_get_opt (oq_udpHop x) ''interval'')]
     else JUndef)"
  by (simp_all add: out_quic_entries_def Let_def look_set_if)

lemma OutQuic_roundtrip:
  assumes "OutQuic_ok x"
  shows "OutQuic_fromJson (wire (OutQuic_toJson x)) = Some (Some x)"
proof -
  have "look (out_quic_entries x) ''congestion'' \<noteq> JUndef"
    using assms by (auto simp: OutQuic_ok_def look_out_quic)
  then have ne: "keys (filter (\<lambda>e. snd e \<noteq> JUndef) (out_quic_entries x)) \<noteq> []" by (rule look_sent_nonempty)
  have d: "distinct (keys (out_quic_entries x))"
    unfolding out_quic_entries_def Let_def by (intro distinct_set_if) simp
  have get: "js_get (wire (JObj (out_quic_entries x))) k = Some (wire (look (out_quic_entries x) k))" for k
    by (rule js_get_wire [OF d])
  have hop: "\<exists>u. (if truthy (wire (look (out_quic_entries x) ''udpHop'')) then
        do { ports \<leftarrow> js_get (wire (look (out_quic_entries x) ''udpHop'')) ''ports'';
             interval \<leftarrow> js_get (wire (look (out_quic_entries x) ''udpHop'')) ''interval'';
             Some (JObj [(''ports'', ports), (''interval'', interval)]) } else Some JUndef) = Some u \<and> u = oq_udpHop x"
    using assms by (auto simp: OutQuic_ok_def look_out_quic js_get_wire field_ok_def)
  have vals: "dflt (wire (look (out_quic_entries x) ''congestion'')) (JStr ''bbr'') = oq_congestion x"
    "dflt (wire (look (out_quic_entries x) ''debug'')) (JBool False) = oq_debug x"
    "dflt (wire (look (out_quic_entries x) ''brutalUp'')) (JStr '''') = oq_brutalUp x"
    "dflt (wire (look (out_quic_entries x) ''brutalDown'')) (JStr '''') = oq_brutalDown x"
    unfolding look_out_quic using assms
    by (auto simp: OutQuic_ok_def flag_sent string_sent field_ok_def)
  show ?thesis
    using hop ne
    by (auto simp: OutQuic_fromJson_def OutQuic_toJson_def Let_def get object_keys_wire new_OutQuic_def vals)
qed

section \<open>FinalMaskStreamSettings\<close>

record OutFinalMask =
  ofm_tcp :: "TcpMask list"
  ofm_udp :: "UdpMask list"
  ofm_quicParams :: "OutQuic option"

definition out_udp_mask_of :: "jsv \<Rightarrow> UdpMask option" where
  "out_udp_mask_of u = do { type_v \<leftarrow> js_get u ''type''; settings \<leftarrow> js_get u ''settings''; new_OutUdpMask type_v settings }"

definition new_OutFinalMask :: "jsv \<Rightarrow> jsv \<Rightarrow> OutQuic option \<Rightarrow> OutFinalMask option" where
  "new_OutFinalMask tcp udp quicParams =
     (let tcp = dflt tcp (JArr []); udp = dflt udp (JArr []) in
      do { ts \<leftarrow> (if is_array tcp then js_map tcp_mask_of tcp else Some []);
           us \<leftarrow> (if is_array udp then js_map out_udp_mask_of udp
                  else do { u \<leftarrow> out_udp_mask_of udp; Some [u] });
           Some \<lparr>ofm_tcp = ts, ofm_udp = us, ofm_quicParams = quicParams\<rparr> })"

definition default_OutFinalMask :: OutFinalMask where
  "default_OutFinalMask = \<lparr>ofm_tcp = [], ofm_udp = [], ofm_quicParams = None\<rparr>"

definition ofm_enableQuicParams :: "OutFinalMask \<Rightarrow> bool" where
  "ofm_enableQuicParams x \<longleftrightarrow> ofm_quicParams x \<noteq> None"

definition ofm_set_enableQuicParams :: "bool \<Rightarrow> OutFinalMask \<Rightarrow> OutFinalMask" where
  "ofm_set_enableQuicParams value x =
     x\<lparr>ofm_quicParams := if value then Some (opt_new (ofm_quicParams x) default_OutQuic) else None\<rparr>"

definition OutFinalMask_fromJson :: "jsv \<Rightarrow> OutFinalMask option" where
  "OutFinalMask_fromJson json =
     (let json = dflt json (JObj []) in
      do { tcp \<leftarrow> js_get json ''tcp'';
           udp \<leftarrow> js_get json ''udp'';
           quicParams \<leftarrow> js_get json ''quicParams'';
           q \<leftarrow> (if truthy quicParams then OutQuic_fromJson quicParams else Some None);
           new_OutFinalMask (js_or tcp (JArr [])) (js_or udp (JArr [])) q })"

definition ofm_entries :: "OutFinalMask \<Rightarrow> entries" where
  "ofm_entries x =
     (let result = [];
          result = set_if (ofm_tcp x \<noteq> []) ''tcp'' (JArr (map TcpMask_toJson (ofm_tcp x))) result;
          result = set_if (ofm_udp x \<noteq> []) ''udp'' (JArr (map OutUdpMask_toJson (ofm_udp x))) result
      in set_if (ofm_quicParams x \<noteq> None) ''quicParams''
           (case ofm_quicParams x of Some q \<Rightarrow> OutQuic_toJson q | None \<Rightarrow> JUndef) result)"

definition OutFinalMask_toJson :: "OutFinalMask \<Rightarrow> jsv" where
  "OutFinalMask_toJson x = JObj (ofm_entries x)"

definition OutFinalMask_ok :: "OutFinalMask \<Rightarrow> bool" where
  "OutFinalMask_ok x \<longleftrightarrow>
     list_all TcpMask_ok (ofm_tcp x) \<and> list_all OutUdpMask_ok (ofm_udp x) \<and> pred_option OutQuic_ok (ofm_quicParams x)"

lemma OutMask_defined [simp]:
  "OutUdpMask_toJson u \<noteq> JUndef" "OutQuic_toJson q \<noteq> JUndef" "truthy (wire (OutQuic_toJson q))"
  by (simp_all add: OutUdpMask_toJson_def OutQuic_toJson_def)

lemma OutUdpMask_new_saved:
  assumes "OutUdpMask_ok x"
  shows "new_OutUdpMask (udp_type x) (wire (sent_settings (udp_clean (udp_type x) (udp_settings x)))) = Some x"
  using assms by (auto simp: OutUdpMask_ok_def new_OutUdpMask_def sent_JObj is_string_iff field_ok_def)

lemma out_udp_mask_of_saved: "OutUdpMask_ok m \<Longrightarrow> out_udp_mask_of (wire (OutUdpMask_toJson m)) = Some m"
proof -
  assume ok: "OutUdpMask_ok m"
  then have "wire (udp_type m) = udp_type m" by (auto simp: OutUdpMask_ok_def is_string_iff)
  then show ?thesis using OutUdpMask_new_saved [OF ok] by (simp add: out_udp_mask_of_def OutUdpMask_toJson_def js_get_wire)
qed

lemma OutFinalMask_roundtrip:
  assumes "OutFinalMask_ok x"
  shows "OutFinalMask_fromJson (wire (OutFinalMask_toJson x)) = Some x"
proof -
  have d: "distinct (keys (ofm_entries x))"
    unfolding ofm_entries_def Let_def by (intro distinct_set_if) simp
  have get: "js_get (wire (OutFinalMask_toJson x)) k = Some (wire (look (ofm_entries x) k))" for k
    unfolding OutFinalMask_toJson_def by (rule js_get_wire [OF d])
  have look: "look (ofm_entries x) ''tcp'' = (if ofm_tcp x \<noteq> [] then JArr (map TcpMask_toJson (ofm_tcp x)) else JUndef)"
    "look (ofm_entries x) ''udp'' = (if ofm_udp x \<noteq> [] then JArr (map OutUdpMask_toJson (ofm_udp x)) else JUndef)"
    "look (ofm_entries x) ''quicParams'' = (case ofm_quicParams x of Some q \<Rightarrow> OutQuic_toJson q | None \<Rightarrow> JUndef)"
    by (simp_all add: ofm_entries_def Let_def look_set_if split: option.splits)
  have t: "js_map tcp_mask_of (wire (JArr (map TcpMask_toJson (ofm_tcp x)))) = Some (ofm_tcp x)"
    "js_map out_udp_mask_of (wire (JArr (map OutUdpMask_toJson (ofm_udp x)))) = Some (ofm_udp x)"
    using assms unfolding OutFinalMask_ok_def
    by (intro map_saved [where ok = TcpMask_ok] map_saved [where ok = OutUdpMask_ok];
        simp add: tcp_mask_of_saved out_udp_mask_of_saved)+
  have a: "truthy (wire (JArr vs))" "is_array (wire (JArr vs))" "wire (JArr vs) \<noteq> JUndef" for vs by simp_all
  have q: "\<And>q. ofm_quicParams x = Some q \<Longrightarrow> OutQuic_fromJson (wire (OutQuic_toJson q)) = Some (Some q)"
    using assms OutQuic_roundtrip by (simp add: OutFinalMask_ok_def)
  have tcp: "(if is_array v then js_map tcp_mask_of v else Some []) = Some (ofm_tcp x)"
    if "v = dflt (js_or (wire (look (ofm_entries x) ''tcp'')) (JArr [])) (JArr [])" for v
    using that t(1) by (cases "ofm_tcp x = []") (simp_all add: look a del: wire.simps(6))
  have udp: "(if is_array v then js_map out_udp_mask_of v else do { u \<leftarrow> out_udp_mask_of v; Some [u] }) = Some (ofm_udp x)"
    if "v = dflt (js_or (wire (look (ofm_entries x) ''udp'')) (JArr [])) (JArr [])" for v
    using that t(2) by (cases "ofm_udp x = []") (simp_all add: look a del: wire.simps(6))
  have quic: "(if truthy (wire (look (ofm_entries x) ''quicParams''))
      then OutQuic_fromJson (wire (look (ofm_entries x) ''quicParams'')) else Some None) = Some (ofm_quicParams x)"
    by (cases "ofm_quicParams x") (simp_all add: look q)
  have ne: "dflt (wire (OutFinalMask_toJson x)) (JObj []) = wire (OutFinalMask_toJson x)"
    by (simp add: OutFinalMask_toJson_def)
  show ?thesis
    by (simp only: OutFinalMask_fromJson_def new_OutFinalMask_def Let_def ne get bind.bind_lunit
        tcp [OF refl] udp [OF refl] quic) simp
qed

interpretation ofm_codec: json_codec "\<lambda>x. Some (OutFinalMask_toJson x)" OutFinalMask_fromJson OutFinalMask_ok
  by (rule json_codec_totalI) (simp_all add: OutFinalMask_roundtrip, simp add: OutFinalMask_toJson_def)

end
