(* ===== verification/OutStream.thy ===== *)
theory OutStream
  imports OutMask
begin

text \<open>
  StreamSettings of web/assets/js/model/outbound.js: the transport section of an outbound. As with
  the inbound, the settings that the network and the security select are sent, and the others are
  new after a load; nothing is drawn at random here.
\<close>

section \<open>StreamSettings\<close>

record OutStreamSettings =
  os_network :: jsv
  os_security :: jsv
  os_tls :: OutTls
  os_reality :: OutReality
  os_tcp :: OutTcp
  os_kcp :: OutKcp
  os_ws :: OutWs
  os_grpc :: OutGrpc
  os_httpupgrade :: OutHttpUpgrade
  os_xhttp :: OutXhttp
  os_hysteria :: OutHysteria
  os_finalmask :: OutFinalMask
  os_sockopt :: "OutSockopt option"

definition new_OutStreamSettings ::
  "jsv \<Rightarrow> jsv \<Rightarrow> OutTls option \<Rightarrow> OutReality option \<Rightarrow> OutTcp option \<Rightarrow> OutKcp option \<Rightarrow> OutWs option \<Rightarrow>
   OutGrpc option \<Rightarrow> OutHttpUpgrade option \<Rightarrow> OutXhttp option \<Rightarrow> OutHysteria option \<Rightarrow>
   OutFinalMask option \<Rightarrow> OutSockopt option \<Rightarrow> OutStreamSettings" where
  "new_OutStreamSettings network security tlsSettings realitySettings tcpSettings kcpSettings wsSettings grpcSettings
     httpupgradeSettings xhttpSettings hysteriaSettings finalmask sockopt =
     \<lparr>os_network = dflt network (JStr ''tcp''),
      os_security = dflt security (JStr ''none''),
      os_tls = opt_new tlsSettings default_OutTls,
      os_reality = opt_new realitySettings default_OutReality,
      os_tcp = opt_new tcpSettings default_OutTcp,
      os_kcp = opt_new kcpSettings default_OutKcp,
      os_ws = opt_new wsSettings default_OutWs,
      os_grpc = opt_new grpcSettings default_OutGrpc,
      os_httpupgrade = opt_new httpupgradeSettings default_OutHttpUpgrade,
      os_xhttp = opt_new xhttpSettings default_OutXhttp,
      os_hysteria = opt_new hysteriaSettings default_OutHysteria,
      os_finalmask = opt_new finalmask default_OutFinalMask,
      os_sockopt = sockopt\<rparr>"

text \<open>\<open>new StreamSettings(network, security)\<close>\<close>

definition plain_stream :: "jsv \<Rightarrow> jsv \<Rightarrow> OutStreamSettings" where
  "plain_stream network security =
     new_OutStreamSettings network security None None None None None None None None None None None"

definition default_OutStreamSettings :: OutStreamSettings where
  "default_OutStreamSettings = plain_stream JUndef JUndef"

subsection \<open>Operations\<close>

definition os_addTcpMask :: "jsv \<Rightarrow> OutStreamSettings \<Rightarrow> OutStreamSettings option" where
  "os_addTcpMask type_v s =
     do { m \<leftarrow> new_TcpMask (dflt type_v (JStr ''fragment'')) JUndef;
          Some (s\<lparr>os_finalmask := (os_finalmask s)\<lparr>ofm_tcp := ofm_tcp (os_finalmask s) @ [m]\<rparr>\<rparr>) }"

definition os_delTcpMask :: "nat \<Rightarrow> OutStreamSettings \<Rightarrow> OutStreamSettings" where
  "os_delTcpMask index s =
     s\<lparr>os_finalmask := (os_finalmask s)\<lparr>ofm_tcp := splice1 index (ofm_tcp (os_finalmask s))\<rparr>\<rparr>"

definition os_addUdpMask :: "jsv \<Rightarrow> OutStreamSettings \<Rightarrow> OutStreamSettings option" where
  "os_addUdpMask type_v s =
     do { m \<leftarrow> new_OutUdpMask (dflt type_v (JStr ''salamander'')) JUndef;
          Some (s\<lparr>os_finalmask := (os_finalmask s)\<lparr>ofm_udp := ofm_udp (os_finalmask s) @ [m]\<rparr>\<rparr>) }"

definition os_delUdpMask :: "nat \<Rightarrow> OutStreamSettings \<Rightarrow> OutStreamSettings" where
  "os_delUdpMask index s =
     s\<lparr>os_finalmask := (os_finalmask s)\<lparr>ofm_udp := splice1 index (ofm_udp (os_finalmask s))\<rparr>\<rparr>"

definition os_hasFinalMask :: "OutStreamSettings \<Rightarrow> bool" where
  "os_hasFinalMask s \<longleftrightarrow> ofm_tcp (os_finalmask s) \<noteq> [] \<or> ofm_udp (os_finalmask s) \<noteq> [] \<or>
     ofm_quicParams (os_finalmask s) \<noteq> None"

definition os_isTls :: "OutStreamSettings \<Rightarrow> bool" where
  "os_isTls s \<longleftrightarrow> os_security s = JStr ''tls''"

definition os_isReality :: "OutStreamSettings \<Rightarrow> bool" where
  "os_isReality s \<longleftrightarrow> os_security s = JStr ''reality''"

definition os_sockoptSwitch :: "OutStreamSettings \<Rightarrow> bool" where
  "os_sockoptSwitch s \<longleftrightarrow> os_sockopt s \<noteq> None"

definition os_set_sockoptSwitch :: "bool \<Rightarrow> OutStreamSettings \<Rightarrow> OutStreamSettings" where
  "os_set_sockoptSwitch value s = s\<lparr>os_sockopt := if value then Some default_OutSockopt else None\<rparr>"

subsection \<open>Loading and saving\<close>

definition OutStreamSettings_fromJson :: "jsv \<Rightarrow> OutStreamSettings option" where
  "OutStreamSettings_fromJson json =
     (let json = dflt json (JObj []) in
      do { network \<leftarrow> js_get json ''network'';
           security \<leftarrow> js_get json ''security'';
           v_tls \<leftarrow> js_get json ''tlsSettings''; tls \<leftarrow> OutTls_fromJson v_tls;
           v_reality \<leftarrow> js_get json ''realitySettings''; reality \<leftarrow> OutReality_fromJson v_reality;
           v_tcp \<leftarrow> js_get json ''tcpSettings''; tcp \<leftarrow> OutTcp_fromJson v_tcp;
           v_kcp \<leftarrow> js_get json ''kcpSettings''; kcp \<leftarrow> OutKcp_fromJson v_kcp;
           v_ws \<leftarrow> js_get json ''wsSettings''; ws \<leftarrow> OutWs_fromJson v_ws;
           v_grpc \<leftarrow> js_get json ''grpcSettings''; grpc \<leftarrow> OutGrpc_fromJson v_grpc;
           v_httpupgrade \<leftarrow> js_get json ''httpupgradeSettings''; httpupgrade \<leftarrow> OutHttpUpgrade_fromJson v_httpupgrade;
           v_xhttp \<leftarrow> js_get json ''xhttpSettings''; xhttp \<leftarrow> OutXhttp_fromJson v_xhttp;
           v_hysteria \<leftarrow> js_get json ''hysteriaSettings''; hysteria \<leftarrow> OutHysteria_fromJson v_hysteria;
           v_finalmask \<leftarrow> js_get json ''finalmask''; finalmask \<leftarrow> OutFinalMask_fromJson v_finalmask;
           v_sockopt \<leftarrow> js_get json ''sockopt''; sockopt \<leftarrow> OutSockopt_fromJson v_sockopt;
           Some (new_OutStreamSettings network security (Some tls) (Some reality) (Some tcp) (Some kcp) (Some ws) (Some grpc) 
                   (Some httpupgrade) (Some xhttp) (Some hysteria) (Some finalmask) sockopt) })"

definition sent_sockopt :: "OutStreamSettings \<Rightarrow> jsv option" where
  "sent_sockopt s = (case os_sockopt s of Some so \<Rightarrow> OutSockopt_toJson so | None \<Rightarrow> Some JUndef)"

definition OutStreamSettings_toJson :: "OutStreamSettings \<Rightarrow> jsv option" where
  "OutStreamSettings_toJson s =
     (let network = os_network s in
      do { tlsSettings \<leftarrow> sent_if (loose_text (os_security s) ''tls'') (Some (OutTls_toJson (os_tls s)));
           realitySettings \<leftarrow> sent_if (loose_text (os_security s) ''reality'') (Some (OutReality_toJson (os_reality s)));
           tcpSettings \<leftarrow> sent_if (network = JStr ''tcp'') (OutTcp_toJson (os_tcp s));
           kcpSettings \<leftarrow> sent_if (network = JStr ''kcp'') (Some (OutKcp_toJson (os_kcp s)));
           wsSettings \<leftarrow> sent_if (network = JStr ''ws'') (Some (OutWs_toJson (os_ws s)));
           grpcSettings \<leftarrow> sent_if (network = JStr ''grpc'') (Some (OutGrpc_toJson (os_grpc s)));
           httpupgradeSettings \<leftarrow> sent_if (network = JStr ''httpupgrade'') (Some (OutHttpUpgrade_toJson (os_httpupgrade s)));
           xhttpSettings \<leftarrow> sent_if (network = JStr ''xhttp'') (Some (OutXhttp_toJson (os_xhttp s)));
           hysteriaSettings \<leftarrow> sent_if (network = JStr ''hysteria'') (Some (OutHysteria_toJson (os_hysteria s)));
           finalmask \<leftarrow> sent_if (os_hasFinalMask s) (Some (OutFinalMask_toJson (os_finalmask s)));
           sockopt \<leftarrow> sent_sockopt s;
           Some (JObj
             [(''network'', network),
              (''security'', os_security s),
              (''tlsSettings'', tlsSettings),
              (''realitySettings'', realitySettings),
              (''tcpSettings'', tcpSettings),
              (''kcpSettings'', kcpSettings),
              (''wsSettings'', wsSettings),
              (''grpcSettings'', grpcSettings),
              (''httpupgradeSettings'', httpupgradeSettings),
              (''xhttpSettings'', xhttpSettings),
              (''hysteriaSettings'', hysteriaSettings),
              (''finalmask'', finalmask),
              (''sockopt'', sockopt)]) })"

subsection \<open>What a save keeps\<close>

definition OutStreamSettings_ok :: "OutStreamSettings \<Rightarrow> bool" where
  "OutStreamSettings_ok s \<longleftrightarrow>
     field_ok (os_network s) \<and> field_ok (os_security s) \<and>
     (loose_text (os_security s) ''tls'' \<longrightarrow> OutTls_ok (os_tls s)) \<and>
     (loose_text (os_security s) ''reality'' \<longrightarrow> OutReality_ok (os_reality s)) \<and>
     (os_network s = JStr ''tcp'' \<longrightarrow> OutTcp_ok (os_tcp s)) \<and>
     (os_network s = JStr ''kcp'' \<longrightarrow> OutKcp_ok (os_kcp s)) \<and>
     (os_network s = JStr ''ws'' \<longrightarrow> OutWs_ok (os_ws s)) \<and>
     (os_network s = JStr ''grpc'' \<longrightarrow> OutGrpc_ok (os_grpc s)) \<and>
     (os_network s = JStr ''httpupgrade'' \<longrightarrow> OutHttpUpgrade_ok (os_httpupgrade s)) \<and>
     (os_network s = JStr ''xhttp'' \<longrightarrow> OutXhttp_ok (os_xhttp s)) \<and>
     (os_network s = JStr ''hysteria'' \<longrightarrow> OutHysteria_ok (os_hysteria s)) \<and>
     OutFinalMask_ok (os_finalmask s) \<and> pred_option OutSockopt_ok (os_sockopt s)"

text \<open>The instance that is loaded from what s saves.\<close>

definition out_stream_loaded :: "OutStreamSettings \<Rightarrow> OutStreamSettings" where
  "out_stream_loaded s =
     s\<lparr>os_tls := if loose_text (os_security s) ''tls'' then os_tls s else default_OutTls,
       os_reality := if loose_text (os_security s) ''reality'' then os_reality s else default_OutReality,
       os_tcp := if os_network s = JStr ''tcp'' then os_tcp s else default_OutTcp,
       os_kcp := if os_network s = JStr ''kcp'' then os_kcp s else default_OutKcp,
       os_ws := if os_network s = JStr ''ws'' then os_ws s else default_OutWs,
       os_grpc := if os_network s = JStr ''grpc'' then os_grpc s else default_OutGrpc,
       os_httpupgrade := if os_network s = JStr ''httpupgrade'' then os_httpupgrade s else default_OutHttpUpgrade,
       os_xhttp := if os_network s = JStr ''xhttp'' then os_xhttp s else default_OutXhttp,
       os_hysteria := if os_network s = JStr ''hysteria'' then os_hysteria s else default_OutHysteria\<rparr>"

lemma out_defaults_fromJson:
  "OutTls_fromJson JUndef = Some default_OutTls"
  "OutReality_fromJson JUndef = Some default_OutReality"
  "OutTcp_fromJson JUndef = Some default_OutTcp"
  "OutKcp_fromJson JUndef = Some default_OutKcp"
  "OutWs_fromJson JUndef = Some default_OutWs"
  "OutGrpc_fromJson JUndef = Some default_OutGrpc"
  "OutHttpUpgrade_fromJson JUndef = Some default_OutHttpUpgrade"
  "OutXhttp_fromJson JUndef = Some default_OutXhttp"
  "OutHysteria_fromJson JUndef = Some default_OutHysteria"
  "OutFinalMask_fromJson JUndef = Some default_OutFinalMask"
  "OutSockopt_fromJson JUndef = Some None"
  by (simp_all add: OutTls_fromJson_def default_OutTls_def OutReality_fromJson_def default_OutReality_def OutTcp_fromJson_def default_OutTcp_def OutKcp_fromJson_def default_OutKcp_def OutWs_fromJson_def default_OutWs_def OutGrpc_fromJson_def default_OutGrpc_def OutHttpUpgrade_fromJson_def default_OutHttpUpgrade_def OutXhttp_fromJson_def default_OutXhttp_def OutHysteria_fromJson_def default_OutHysteria_def OutFinalMask_fromJson_def default_OutFinalMask_def
      new_OutFinalMask_def hop_port_def hop_min_def hop_max_def hop_bound_def OutSockopt_fromJson_def object_keys_def
      collect_unknown_def new_OutTcp_def new_OutHysteria_def)

lemma out_sockopt_optional:
  assumes "pred_option OutSockopt_ok (os_sockopt s)"
  shows "\<exists>v. sent_sockopt s = Some v \<and> OutSockopt_fromJson (wire v) = Some (os_sockopt s)"
  using OutSockopt_roundtrip assms by (cases "os_sockopt s") (auto simp: out_defaults_fromJson sent_sockopt_def)

lemma out_no_mask: "\<not> os_hasFinalMask s \<Longrightarrow> os_finalmask s = default_OutFinalMask"
  by (simp add: os_hasFinalMask_def default_OutFinalMask_def)

lemma out_stream_load:
  assumes "OutStreamSettings_ok s"
  shows "\<exists>v. OutStreamSettings_toJson s = Some v \<and> v \<noteq> JUndef \<and>
    OutStreamSettings_fromJson (wire v) = Some (out_stream_loaded s)"
proof -
  note ok = assms [unfolded OutStreamSettings_ok_def]
  obtain v_tls where tls: "sent_if (loose_text (os_security s) ''tls'') (Some (OutTls_toJson (os_tls s))) = Some v_tls"
    "OutTls_fromJson (wire v_tls) = Some (if loose_text (os_security s) ''tls'' then os_tls s else default_OutTls)"
    using optional_field [OF otl_codec.json_codec_axioms _ out_defaults_fromJson(1)] ok by blast
  obtain v_reality where reality: "sent_if (loose_text (os_security s) ''reality'') (Some (OutReality_toJson (os_reality s))) = Some v_reality"
    "OutReality_fromJson (wire v_reality) = Some (if loose_text (os_security s) ''reality'' then os_reality s else default_OutReality)"
    using optional_field [OF ore_codec.json_codec_axioms _ out_defaults_fromJson(2)] ok by blast
  obtain v_tcp where tcp: "sent_if (os_network s = JStr ''tcp'') (OutTcp_toJson (os_tcp s)) = Some v_tcp"
    "OutTcp_fromJson (wire v_tcp) = Some (if os_network s = JStr ''tcp'' then os_tcp s else default_OutTcp)"
    using optional_field [OF otcp_codec.json_codec_axioms _ out_defaults_fromJson(3)] ok by blast
  obtain v_kcp where kcp: "sent_if (os_network s = JStr ''kcp'') (Some (OutKcp_toJson (os_kcp s))) = Some v_kcp"
    "OutKcp_fromJson (wire v_kcp) = Some (if os_network s = JStr ''kcp'' then os_kcp s else default_OutKcp)"
    using optional_field [OF okcp_codec.json_codec_axioms _ out_defaults_fromJson(4)] ok by blast
  obtain v_ws where ws: "sent_if (os_network s = JStr ''ws'') (Some (OutWs_toJson (os_ws s))) = Some v_ws"
    "OutWs_fromJson (wire v_ws) = Some (if os_network s = JStr ''ws'' then os_ws s else default_OutWs)"
    using optional_field [OF ows_codec.json_codec_axioms _ out_defaults_fromJson(5)] ok by blast
  obtain v_grpc where grpc: "sent_if (os_network s = JStr ''grpc'') (Some (OutGrpc_toJson (os_grpc s))) = Some v_grpc"
    "OutGrpc_fromJson (wire v_grpc) = Some (if os_network s = JStr ''grpc'' then os_grpc s else default_OutGrpc)"
    using optional_field [OF ogrpc_codec.json_codec_axioms _ out_defaults_fromJson(6)] ok by blast
  obtain v_httpupgrade where httpupgrade: "sent_if (os_network s = JStr ''httpupgrade'') (Some (OutHttpUpgrade_toJson (os_httpupgrade s))) = Some v_httpupgrade"
    "OutHttpUpgrade_fromJson (wire v_httpupgrade) = Some (if os_network s = JStr ''httpupgrade'' then os_httpupgrade s else default_OutHttpUpgrade)"
    using optional_field [OF ohu_codec.json_codec_axioms _ out_defaults_fromJson(7)] ok by blast
  obtain v_xhttp where xhttp: "sent_if (os_network s = JStr ''xhttp'') (Some (OutXhttp_toJson (os_xhttp s))) = Some v_xhttp"
    "OutXhttp_fromJson (wire v_xhttp) = Some (if os_network s = JStr ''xhttp'' then os_xhttp s else default_OutXhttp)"
    using optional_field [OF oxh_codec.json_codec_axioms _ out_defaults_fromJson(8)] ok by blast
  obtain v_hysteria where hysteria: "sent_if (os_network s = JStr ''hysteria'') (Some (OutHysteria_toJson (os_hysteria s))) = Some v_hysteria"
    "OutHysteria_fromJson (wire v_hysteria) = Some (if os_network s = JStr ''hysteria'' then os_hysteria s else default_OutHysteria)"
    using optional_field [OF ohy_codec.json_codec_axioms _ out_defaults_fromJson(9)] ok by blast
  obtain v_finalmask where finalmask: "sent_if (os_hasFinalMask s) (Some (OutFinalMask_toJson (os_finalmask s))) = Some v_finalmask"
    "OutFinalMask_fromJson (wire v_finalmask) = Some (if os_hasFinalMask s then os_finalmask s else default_OutFinalMask)"
    using optional_field [OF ofm_codec.json_codec_axioms _ out_defaults_fromJson(10)] ok by blast
  from finalmask(2) have finalmask': "OutFinalMask_fromJson (wire v_finalmask) = Some (os_finalmask s)"
    using out_no_mask by simp
  obtain v_so where so: "sent_sockopt s = Some v_so" "OutSockopt_fromJson (wire v_so) = Some (os_sockopt s)"
    using out_sockopt_optional ok by blast
  have f: "wire (os_network s) = os_network s" "wire (os_security s) = os_security s"
    "os_network s \<noteq> JUndef" "os_security s \<noteq> JUndef"
    using ok by (simp_all add: field_ok_def)
  let ?o = "[(''network'', os_network s), (''security'', os_security s),
    (''tlsSettings'', v_tls), (''realitySettings'', v_reality), (''tcpSettings'', v_tcp), (''kcpSettings'', v_kcp), (''wsSettings'', v_ws), (''grpcSettings'', v_grpc), (''httpupgradeSettings'', v_httpupgrade), (''xhttpSettings'', v_xhttp), (''hysteriaSettings'', v_hysteria), (''finalmask'', v_finalmask), (''sockopt'', v_so)]"
  have enc: "OutStreamSettings_toJson s = Some (JObj ?o)"
    by (simp only: OutStreamSettings_toJson_def Let_def tls(1) reality(1) tcp(1) kcp(1) ws(1) grpc(1) httpupgrade(1) xhttp(1) hysteria(1) finalmask(1) so(1) bind.bind_lunit)
  have d: "distinct (keys ?o)" by simp
  have g: "js_get (wire (JObj ?o)) k = Some (wire (look ?o k))" for k by (rule js_get_wire [OF d])
  have l: "look ?o ''network'' = os_network s" "look ?o ''security'' = os_security s"
    "look ?o ''tlsSettings'' = v_tls" "look ?o ''realitySettings'' = v_reality" "look ?o ''tcpSettings'' = v_tcp" "look ?o ''kcpSettings'' = v_kcp" "look ?o ''wsSettings'' = v_ws" "look ?o ''grpcSettings'' = v_grpc" "look ?o ''httpupgradeSettings'' = v_httpupgrade" "look ?o ''xhttpSettings'' = v_xhttp" "look ?o ''hysteriaSettings'' = v_hysteria" "look ?o ''finalmask'' = v_finalmask"
    "look ?o ''sockopt'' = v_so"
    by simp_all
  have j: "dflt (wire (JObj ?o)) (JObj []) = wire (JObj ?o)" by simp
  have "OutStreamSettings_fromJson (wire (JObj ?o)) = Some (out_stream_loaded s)"
    unfolding OutStreamSettings_fromJson_def Let_def j g l
    by (simp only: bind.bind_lunit tls(2) reality(2) tcp(2) kcp(2) ws(2) grpc(2) httpupgrade(2) xhttp(2) hysteria(2) finalmask' so(2) f)
      (simp add: out_stream_loaded_def new_OutStreamSettings_def f)
  with enc show ?thesis by simp
qed

lemma out_stream_from_nothing: "OutStreamSettings_fromJson JUndef = Some default_OutStreamSettings"
  by (simp add: OutStreamSettings_fromJson_def default_OutStreamSettings_def plain_stream_def out_defaults_fromJson
      new_OutStreamSettings_def)

end
