(* ===== verification/Json.thy ===== *)
theory Json
  imports JsConvert
begin

text \<open>
  The text of JSON: \<open>JSON.stringify\<close>, compact or indented, and \<open>JSON.parse\<close>, which the panel uses
  for what it stores, for the configuration inside share links and for messages of the server.
  Parsing what was written gives the value back as it is on the wire, for values whose
  numbers are integers. Numbers with a fraction are written with at most twenty digits.
\<close>

section \<open>Writing\<close>

definition hex4 :: "nat \<Rightarrow> string" where
  "hex4 n = (let h = (\<lambda>d. char_of (if d < 10 then 48 + d else 87 + d :: nat)) in
     [CHR ''0'', CHR ''0'', h (n div 16), h (n mod 16)])"

definition escape_char :: "char \<Rightarrow> string" where
  "escape_char c = (let n = of_char c :: nat in
     if n = 34 then [CHR 0x5C, c] else if n = 92 then [CHR 0x5C, c]
     else if n = 8 then [CHR 0x5C, CHR ''b''] else if n = 9 then [CHR 0x5C, CHR ''t'']
     else if n = 10 then [CHR 0x5C, CHR ''n''] else if n = 12 then [CHR 0x5C, CHR ''f'']
     else if n = 13 then [CHR 0x5C, CHR ''r'']
     else if n < 32 then [CHR 0x5C, CHR ''u''] @ hex4 n
     else [c])"

definition quote_text :: "string \<Rightarrow> string" where
  "quote_text s = CHR 0x22 # concat (map escape_char s) @ [CHR 0x22]"

text \<open>The line break and indentation at a depth; nothing in the compact form.\<close>

definition break_line :: "nat \<Rightarrow> nat \<Rightarrow> string" where
  "break_line gap depth = (if gap = 0 then '''' else CHR 0x0A # replicate (gap * depth) (CHR '' ''))"

definition colon :: "nat \<Rightarrow> string" where
  "colon gap = (if gap = 0 then '':'' else '': '')"

lemma size_arr_elem: "v \<in> set vs \<Longrightarrow> size v < Suc (size_list size vs)"
  by (induction vs) auto

lemma size_obj_entry: "e \<in> set kvs \<Longrightarrow> size (snd e) < Suc (size_list (size_prod (\<lambda>x. 0) size) kvs)"
proof (induction kvs)
  case (Cons d kvs)
  then show ?case by (cases d) auto
qed simp

function json_text :: "nat \<Rightarrow> nat \<Rightarrow> jsv \<Rightarrow> string" where
  "json_text gap depth (JArr vs) =
     (if vs = [] then ''[]''
      else ''['' @ break_line gap (Suc depth) @
        join (CHR '','' # break_line gap (Suc depth)) (map (json_text gap (Suc depth)) vs) @
        break_line gap depth @ '']'')"
| "json_text gap depth (JObj kvs) =
     (if kvs = [] then ''{}''
      else ''{'' @ break_line gap (Suc depth) @
        join (CHR '','' # break_line gap (Suc depth))
          (map (\<lambda>e. quote_text (fst e) @ colon gap @ json_text gap (Suc depth) (snd e)) kvs) @
        break_line gap depth @ ''}'')"
| "json_text gap depth JUndef = ''null''"
| "json_text gap depth JNull = ''null''"
| "json_text gap depth (JBool b) = (if b then ''true'' else ''false'')"
| "json_text gap depth (JNum n) = show_num n"
| "json_text gap depth (JStr s) = quote_text s"
  by pat_completeness auto

termination
  by (relation "measure (\<lambda>(g, d, v). size v)") (auto dest: size_arr_elem size_obj_entry)

text \<open>\<open>JSON.stringify(v, null, gap)\<close>; of undefined it is undefined.\<close>

definition stringify :: "nat \<Rightarrow> jsv \<Rightarrow> string option" where
  "stringify gap v = (if v = JUndef then None else Some (json_text gap 0 (wire v)))"

section \<open>Parsing\<close>

definition json_space :: "char \<Rightarrow> bool" where
  "json_space c \<longleftrightarrow> c = CHR '' '' \<or> c = CHR 0x09 \<or> c = CHR 0x0A \<or> c = CHR 0x0D"

definition skip_ws :: "string \<Rightarrow> string" where
  "skip_ws s = dropWhile json_space s"

definition unescape :: "char \<Rightarrow> char option" where
  "unescape c =
     (if c = CHR 0x22 \<or> c = CHR 0x5C \<or> c = CHR ''/'' then Some c
      else if c = CHR ''b'' then Some (CHR 0x08) else if c = CHR ''t'' then Some (CHR 0x09)
      else if c = CHR ''n'' then Some (CHR 0x0A) else if c = CHR ''f'' then Some (CHR 0x0C)
      else if c = CHR ''r'' then Some (CHR 0x0D) else None)"

text \<open>The rest of a string after its opening quote. Characters above 255 are not represented.\<close>

fun parse_text :: "string \<Rightarrow> (string \<times> string) option" where
  "parse_text [] = None"
| "parse_text (c # s) =
     (if c = CHR 0x22 then Some ('''', s)
      else if c = CHR 0x5C then
        (case s of
           u # r \<Rightarrow>
             if u = CHR ''u'' then
               (case r of
                  a # b # d # e # q \<Rightarrow>
                    do { ds \<leftarrow> mapM hex_val [a, b, d, e];
                         n \<leftarrow> Some (foldl (\<lambda>n d. 16 * n + d) 0 ds);
                         (t, q) \<leftarrow> (if n < 256 then parse_text q else None);
                         Some (char_of n # t, q) }
                | _ \<Rightarrow> None)
             else do { x \<leftarrow> unescape u; (t, q) \<leftarrow> parse_text r; Some (x # t, q) }
         | [] \<Rightarrow> None)
      else if (of_char c :: nat) < 32 then None
      else map_option (\<lambda>(t, q). (c # t, q)) (parse_text s))"

definition number_char :: "char \<Rightarrow> bool" where
  "number_char c \<longleftrightarrow> is_digit c \<or> c \<in> set ''+-.eE''"

text \<open>The grammar of numbers: no leading zeros, digits on both sides of the point.\<close>

definition number_ok :: "string \<Rightarrow> bool" where
  "number_ok s =
     (let s = (case s of c # r \<Rightarrow> if c = CHR ''-'' then r else s | [] \<Rightarrow> s);
          (whole, r) = read_digits s;
          r = (case r of c # q \<Rightarrow> if c = CHR ''.'' then (let (f, q') = read_digits q in if f = '''' then ''!'' else q') else r | [] \<Rightarrow> r)
      in whole \<noteq> '''' \<and> (length whole = 1 \<or> hd whole \<noteq> CHR ''0'') \<and> read_exponent r \<noteq> None)"

definition parse_number :: "string \<Rightarrow> (jsv \<times> string) option" where
  "parse_number s =
     (let t = takeWhile number_char s; r = dropWhile number_char s in
      if number_ok t then (case str_to_number t of Fin q \<Rightarrow> Some (JNum (Fin q), r) | _ \<Rightarrow> None) else None)"

fun expect :: "string \<Rightarrow> jsv \<Rightarrow> string \<Rightarrow> (jsv \<times> string) option" where
  "expect w v s = (if take (length w) s = w then Some (v, drop (length w) s) else None)"

text \<open>Recursive descent; the fuel is twice the length of the text, and enough for every value.\<close>

fun parse_value :: "nat \<Rightarrow> string \<Rightarrow> (jsv \<times> string) option"
and parse_elems :: "nat \<Rightarrow> string \<Rightarrow> (jsv list \<times> string) option"
and parse_members :: "nat \<Rightarrow> entries \<Rightarrow> string \<Rightarrow> (entries \<times> string) option" where
  "parse_value 0 s = None"
| "parse_value (Suc n) s =
     (case skip_ws s of
        [] \<Rightarrow> None
      | c # r \<Rightarrow>
         if c = CHR 0x22 then map_option (\<lambda>(t, q). (JStr t, q)) (parse_text r)
         else if c = CHR ''['' then
           (case skip_ws r of
              d # q \<Rightarrow> if d = CHR '']'' then Some (JArr [], q)
                       else map_option (\<lambda>(vs, q). (JArr vs, q)) (parse_elems n r)
            | [] \<Rightarrow> None)
         else if c = CHR ''{'' then
           (case skip_ws r of
              d # q \<Rightarrow> if d = CHR ''}'' then Some (JObj [], q)
                       else map_option (\<lambda>(kvs, q). (JObj kvs, q)) (parse_members n [] r)
            | [] \<Rightarrow> None)
         else if c = CHR ''n'' then expect ''null'' JNull (c # r)
         else if c = CHR ''t'' then expect ''true'' (JBool True) (c # r)
         else if c = CHR ''f'' then expect ''false'' (JBool False) (c # r)
         else parse_number (c # r))"
| "parse_elems 0 s = None"
| "parse_elems (Suc n) s =
     do { (v, r) \<leftarrow> parse_value n s;
          (case skip_ws r of
             d # q \<Rightarrow> if d = CHR '','' then map_option (\<lambda>(vs, q). (v # vs, q)) (parse_elems n q)
                      else if d = CHR '']'' then Some ([v], q) else None
           | [] \<Rightarrow> None) }"
| "parse_members 0 acc s = None"
| "parse_members (Suc n) acc s =
     (case skip_ws s of
        c # r \<Rightarrow>
          if c \<noteq> CHR 0x22 then None
          else do { (k, r) \<leftarrow> parse_text r;
                    (case skip_ws r of
                       d # q \<Rightarrow>
                         if d \<noteq> CHR '':'' then None
                         else do { (v, r) \<leftarrow> parse_value n q;
                                   (case skip_ws r of
                                      e # q \<Rightarrow>
                                        if e = CHR '','' then parse_members n (obj_set acc k v) q
                                        else if e = CHR ''}'' then Some (obj_set acc k v, q) else None
                                    | [] \<Rightarrow> None) }
                     | [] \<Rightarrow> None) }
      | [] \<Rightarrow> None)"

definition json_parse :: "string \<Rightarrow> jsv option" where
  "json_parse s =
     (case parse_value (2 * length s) s of
        Some (v, r) \<Rightarrow> if skip_ws r = '''' then Some v else None
      | None \<Rightarrow> None)"

section \<open>Strings\<close>

lemma hex_val_lower: "d < 16 \<Longrightarrow> hex_val (char_of (if d < 10 then 48 + d else 87 + d :: nat)) = Some d"
  by (simp add: hex_val_def Let_def)

lemma parse_unicode:
  "mapM hex_val [a, b, d, e] = Some ds \<Longrightarrow> foldl (\<lambda>n d. 16 * n + d) 0 ds = n \<Longrightarrow> n < 256 \<Longrightarrow>
   parse_text (CHR 0x5C # CHR ''u'' # a # b # d # e # q) = map_option (\<lambda>(t, q). (char_of n # t, q)) (parse_text q)"
  by (cases "parse_text q") (auto simp del: mapM.simps)

lemma parse_escape:
  "u \<noteq> CHR ''u'' \<Longrightarrow> unescape u = Some x \<Longrightarrow>
   parse_text (CHR 0x5C # u # r) = map_option (\<lambda>(t, q). (x # t, q)) (parse_text r)"
  by (cases "parse_text r") auto

lemma hex4_digits:
  assumes "n < 32"
  shows "\<exists>a b d e. hex4 n = [a, b, d, e] \<and> mapM hex_val [a, b, d, e] = Some [0, 0, n div 16, n mod 16]"
proof -
  have z: "hex_val (CHR ''0'') = Some 0" by (simp add: hex_val_def)
  show ?thesis using assms hex_val_lower [of "n div 16"] hex_val_lower [of "n mod 16"]
    by (simp add: hex4_def Let_def z)
qed

lemma escaped:
  "escape_char (CHR 0x22) = [CHR 0x5C, CHR 0x22]" "escape_char (CHR 0x5C) = [CHR 0x5C, CHR 0x5C]"
  "escape_char (CHR 0x08) = [CHR 0x5C, CHR ''b'']" "escape_char (CHR 0x09) = [CHR 0x5C, CHR ''t'']"
  "escape_char (CHR 0x0A) = [CHR 0x5C, CHR ''n'']" "escape_char (CHR 0x0C) = [CHR 0x5C, CHR ''f'']"
  "escape_char (CHR 0x0D) = [CHR 0x5C, CHR ''r'']"
  by (simp_all add: escape_char_def)

lemma unescaped:
  "unescape (CHR 0x22) = Some (CHR 0x22)" "unescape (CHR 0x5C) = Some (CHR 0x5C)"
  "unescape (CHR ''b'') = Some (CHR 0x08)" "unescape (CHR ''t'') = Some (CHR 0x09)"
  "unescape (CHR ''n'') = Some (CHR 0x0A)" "unescape (CHR ''f'') = Some (CHR 0x0C)"
  "unescape (CHR ''r'') = Some (CHR 0x0D)"
  by (simp_all add: unescape_def)

lemma char_by_code: "(of_char c :: nat) = of_char d \<Longrightarrow> c = d"
  by simp

lemma special_char:
  "(of_char c :: nat) \<in> {34, 92, 8, 9, 10, 12, 13} \<Longrightarrow>
   c \<in> {CHR 0x22, CHR 0x5C, CHR 0x08, CHR 0x09, CHR 0x0A, CHR 0x0C, CHR 0x0D}"
proof -
  assume a: "(of_char c :: nat) \<in> {34, 92, 8, 9, 10, 12, 13}"
  define n where "n = (of_char c :: nat)"
  have c: "c = char_of n" by (simp add: n_def)
  have n: "n \<in> {34, 92, 8, 9, 10, 12, 13}" using a unfolding n_def .
  show ?thesis unfolding c using n by (elim insertE emptyE) (simp_all add: char_of_def bit_0)
qed

lemma plain_char:
  "(of_char c :: nat) \<notin> {34, 92, 8, 9, 10, 12, 13} \<Longrightarrow>
   escape_char c = (if (of_char c :: nat) < 32 then [CHR 0x5C, CHR ''u''] @ hex4 (of_char c) else [c])"
  by (simp add: escape_char_def Let_def)

lemma parse_text_char: "parse_text (escape_char c @ s) = map_option (\<lambda>(t, q). (c # t, q)) (parse_text s)"
proof (cases "(of_char c :: nat) \<in> {34, 92, 8, 9, 10, 12, 13}")
  case True
  from special_char [OF this] show ?thesis
    by (elim insertE emptyE) (simp_all only: escaped append_Cons append_Nil, simp_all only: parse_escape unescaped char.inject simp_thms)
next
  case plain: False
  show ?thesis
  proof (cases "(of_char c :: nat) < 32")
    case True
    obtain a b d e where h: "hex4 (of_char c) = [a, b, d, e]"
      "mapM hex_val [a, b, d, e] = Some [0, 0, of_char c div 16, of_char c mod 16]"
      using hex4_digits [OF True] by blast
    have e: "escape_char c @ s = CHR 0x5C # CHR ''u'' # a # b # d # e # s"
      using True by (simp add: plain_char [OF plain] h(1))
    show ?thesis unfolding e using parse_unicode [OF h(2), of "of_char c"] True by simp
  next
    case False
    have "c \<noteq> CHR 0x22" "c \<noteq> CHR 0x5C" using plain by auto
    with False show ?thesis by (simp add: plain_char [OF plain])
  qed
qed

lemma parse_quoted: "parse_text (concat (map escape_char s) @ CHR 0x22 # r) = Some (s, r)"
  by (induction s) (simp_all add: parse_text_char)

lemma parse_quote_text: "parse_text (tl (quote_text s) @ r) = Some (s, r)"
  using parse_quoted [of s r] by (simp add: quote_text_def)

section \<open>Numbers\<close>

lemma show_nat_hd: "0 < n \<Longrightarrow> hd (show_nat n) \<noteq> CHR ''0''"
proof (induction n rule: show_nat.induct)
  case (1 n)
  show ?case
  proof (cases "n < 10")
    case True
    have "digit_char n \<noteq> CHR ''0''"
      using digit_val_digit_char [OF True] 1(2) by (auto simp: digit_val_def)
    with True show ?thesis by (subst show_nat.simps) simp
  next
    case False
    then have "hd (show_nat n) = hd (show_nat (n div 10))" by (subst show_nat.simps) simp
    with 1(1) [OF False] False show ?thesis by simp
  qed
qed

lemma show_nat_small: "length (show_nat n) = 1 \<or> 0 < n"
  by (cases n) (simp_all add: show_nat.simps [of 0])

lemma digits_all: "list_all is_digit (show_nat n)"
  using show_nat_digits [of n] by (simp add: list_all_iff)

lemma is_digit_facts: "is_digit c \<Longrightarrow> number_char c \<and> \<not> is_space c \<and> \<not> json_space c \<and>
    c \<notin> {CHR ''-'', CHR ''+'', CHR ''.'', CHR ''x'', CHR ''X'', CHR ''o'', CHR ''O'', CHR ''b'', CHR ''B'', CHR ''I'',
      CHR ''n'', CHR ''t'', CHR ''f'', CHR 0x22, CHR ''['', CHR '']'', CHR ''{'', CHR ''}''}"
  by (auto simp: is_digit_def number_char_def is_space_def json_space_def)

lemma read_digits_all: "list_all is_digit s \<Longrightarrow> read_digits s = (s, '''')"
  by (simp add: read_digits_def list_all_iff takeWhile_eq_all_conv)

lemma read_decimal_all: "list_all is_digit s \<Longrightarrow> s \<noteq> [] \<Longrightarrow> read_decimal s = Some (of_nat (read_nat s))"
  by (simp add: read_decimal_def read_digits_all rat_pow10_def read_nat_def [of "[]"])

lemma read_decimal_digits: "read_decimal (show_nat n) = Some (of_nat n)"
  by (simp add: read_decimal_all digits_all)

lemma digit_not_space: "is_digit c \<Longrightarrow> \<not> is_space c"
  by (auto simp: is_digit_def is_space_def)

lemma read_sign_other: "c \<noteq> CHR ''-'' \<Longrightarrow> c \<noteq> CHR ''+'' \<Longrightarrow> read_sign (c # r) = (1, c # r)"
  by (cases "c # r" rule: read_sign.cases) simp_all

lemma trim_digits: "list_all is_digit s \<Longrightarrow> trim (p @ s) = p @ s" if "p = '''' \<or> p = ''-''"
proof -
  assume s: "list_all is_digit s"
  have d: "dropWhile is_space t = t" if "\<forall>c \<in> set t. \<not> is_space c" for t
    using that by (cases t) auto
  have m: "\<not> is_space (CHR ''-'')" by (simp add: is_space_def)
  have "\<forall>c \<in> set (p @ s). \<not> is_space c"
    using s that m digit_not_space by (auto simp: list_all_iff)
  then have "dropWhile is_space (p @ s) = p @ s" "dropWhile is_space (rev (p @ s)) = rev (p @ s)"
    by (rule d, simp) (rule d, auto)
  then show ?thesis by (simp only: trim_def rev_rev_ident)
qed

lemma number_ok_digits: "number_ok (show_nat n)"
proof -
  obtain c r where s: "show_nat n = c # r" by (cases "show_nat n") auto
  have "is_digit c" using digits_all [of n] by (simp add: s)
  then have m: "c \<noteq> CHR ''-''" using is_digit_facts by blast
  have h: "length (show_nat n) = 1 \<or> hd (show_nat n) \<noteq> CHR ''0''"
    using show_nat_small [of n] show_nat_hd [of n] by blast
  show ?thesis
    using m h read_digits_all [OF digits_all [of n]] by (simp add: number_ok_def s)
qed

lemma number_ok_minus: "number_ok (CHR ''-'' # show_nat n)"
proof -
  have h: "length (show_nat n) = 1 \<or> hd (show_nat n) \<noteq> CHR ''0''"
    using show_nat_small [of n] show_nat_hd [of n] by blast
  then show ?thesis
    using read_digits_all [OF digits_all [of n]] by (simp add: number_ok_def)
qed

lemma str_to_number_all:
  assumes d: "list_all is_digit s" and n: "s \<noteq> []"
  shows "str_to_number s = Fin (of_nat (read_nat s))"
proof -
  obtain c r where s: "s = c # r" using n by (cases s) auto
  have c: "is_digit c" and r: "list_all is_digit r" using d by (simp_all add: s)
  have p: "take 2 s \<noteq> [CHR ''0'', x]" if "\<not> is_digit x" for x
    using r that by (cases r) (auto simp: s)
  have np: "take 2 s \<noteq> ''0x''" "take 2 s \<noteq> ''0X''" "take 2 s \<noteq> ''0o''"
    "take 2 s \<noteq> ''0O''" "take 2 s \<noteq> ''0b''" "take 2 s \<noteq> ''0B''"
    by (rule p, simp add: is_digit_def)+
  have sg: "read_sign s = (1, s)"
    unfolding s by (rule read_sign_other) (use is_digit_facts [OF c] in auto)
  have i: "s \<noteq> ''Infinity''" using is_digit_facts [OF c] by (auto simp: s)
  have t: "trim s = s" using trim_digits [of "[]" s] d by simp
  show ?thesis
    by (simp add: str_to_number_def t Let_def np sg i read_decimal_all [OF d n] n fin_or_nan_def)
qed

lemma str_to_number_digits: "str_to_number (show_nat n) = Fin (of_nat n)"
  by (simp add: str_to_number_all digits_all)

lemma str_to_number_minus: "str_to_number (CHR ''-'' # show_nat n) = Fin (- of_nat n)"
proof -
  obtain c r where s: "show_nat n = c # r" by (cases "show_nat n") auto
  have c: "is_digit c" using digits_all [of n] by (simp add: s)
  have i: "show_nat n \<noteq> ''Infinity''" using is_digit_facts [OF c] by (auto simp: s)
  have t: "trim (CHR ''-'' # show_nat n) = CHR ''-'' # show_nat n"
    using trim_digits [of "''-''" "show_nat n"] digits_all by simp
  have p: "take 2 (CHR ''-'' # show_nat n) = [CHR ''-'', c]" by (simp add: s)
  show ?thesis
    by (simp add: str_to_number_def t Let_def p i read_decimal_digits fin_or_nan_def)
qed

definition ends :: "string \<Rightarrow> bool" where
  "ends r \<longleftrightarrow> r = '''' \<or> \<not> number_char (hd r)"

lemma span_number:
  assumes "\<forall>c \<in> set t. number_char c" and "ends r"
  shows "takeWhile number_char (t @ r) = t" "dropWhile number_char (t @ r) = r"
  using assms by (cases r; auto simp: ends_def takeWhile_append2 dropWhile_append2)+

lemma show_rat_int: "show_rat (of_int i) = (if i < 0 then CHR ''-'' # show_nat (nat (- i)) else show_nat (nat i))"
  by (simp add: show_rat_def rat_floor_floor Let_def abs_if)

lemma parse_number_int:
  assumes "ends r"
  shows "parse_number (show_rat (of_int i) @ r) = Some (JNum (Fin (of_int i)), r)"
proof -
  let ?t = "show_rat (of_int i)"
  have "\<forall>c \<in> set ?t. number_char c"
    using is_digit_facts show_nat_digits by (auto simp: show_rat_int number_char_def)
  note sp = span_number [OF this assms]
  have ok: "number_ok ?t" by (simp add: show_rat_int number_ok_digits number_ok_minus)
  have v: "str_to_number ?t = Fin (of_int i)"
    by (simp add: show_rat_int str_to_number_digits str_to_number_minus)
  show ?thesis unfolding parse_number_def sp Let_def using ok v by simp
qed

section \<open>Parsing what was written\<close>

text \<open>The values whose text is read back: as on the wire, with integers for numbers.\<close>

function json_int :: "jsv \<Rightarrow> bool" where
  "json_int (JArr vs) = (\<forall>v \<in> set vs. json_int v)"
| "json_int (JObj kvs) = (distinct (keys kvs) \<and> (\<forall>e \<in> set kvs. json_int (snd e)))"
| "json_int JUndef = False"
| "json_int JNull = True"
| "json_int (JBool b) = True"
| "json_int (JNum n) = (\<exists>i. n = Fin (of_int i))"
| "json_int (JStr s) = True"
  by pat_completeness auto

termination
  by (relation "measure size") (auto dest: size_arr_elem size_obj_entry)

text \<open>The fuel a value needs.\<close>

function cost :: "jsv \<Rightarrow> nat" where
  "cost (JArr vs) = Suc (sum_list (map (\<lambda>v. Suc (cost v)) vs))"
| "cost (JObj kvs) = Suc (sum_list (map (\<lambda>e. Suc (cost (snd e))) kvs))"
| "cost JUndef = 1"
| "cost JNull = 1"
| "cost (JBool b) = 1"
| "cost (JNum n) = 1"
| "cost (JStr s) = 1"
  by pat_completeness auto

termination
  by (relation "measure size") (auto dest: size_arr_elem size_obj_entry)

lemma cost_pos: "0 < cost v"
  by (cases v) simp_all

lemma skip_space: "list_all json_space ws \<Longrightarrow> skip_ws (ws @ s) = skip_ws s"
  by (induction ws) (simp_all add: skip_ws_def)

lemma skip_none: "\<not> json_space c \<Longrightarrow> skip_ws (c # s) = c # s"
  by (simp add: skip_ws_def)

lemma break_space: "list_all json_space (break_line gap depth)"
  by (simp add: break_line_def json_space_def list_all_iff)

lemma space_ends: "list_all json_space ws \<Longrightarrow> \<not> number_char c \<Longrightarrow> ends (ws @ c # r)"
  by (cases ws) (auto simp: ends_def json_space_def number_char_def is_digit_def)

definition number_head :: "char \<Rightarrow> bool" where
  "number_head c \<longleftrightarrow> \<not> json_space c \<and>
     c \<notin> {CHR 0x22, CHR ''['', CHR '']'', CHR ''{'', CHR ''}'', CHR ''n'', CHR ''t'', CHR ''f''}"

lemma number_head_digit: "is_digit c \<Longrightarrow> number_head c"
  by (auto simp: is_digit_def number_head_def json_space_def)

lemma number_head_minus: "number_head (CHR ''-'')"
  by (simp add: number_head_def json_space_def)

lemma show_int_head:
  obtains c r where "show_rat (of_int i) = c # r" "number_head c"
proof -
  have "show_nat (nat i) \<noteq> []" by simp
  then obtain c r where s: "show_nat (nat i) = c # r" by (cases "show_nat (nat i)") auto
  then have "is_digit c" using digits_all [of "nat i"] by simp
  show thesis
  proof (cases "i < 0")
    case True
    show ?thesis by (rule that [OF _ number_head_minus]) (simp add: show_rat_int True)
  next
    case False
    show ?thesis by (rule that [OF _ number_head_digit [OF \<open>is_digit c\<close>]]) (simp add: show_rat_int False s)
  qed
qed

text \<open>The first character of a value's text.\<close>

definition text_head :: "char \<Rightarrow> bool" where
  "text_head c \<longleftrightarrow> \<not> json_space c \<and> c \<noteq> CHR '']'' \<and> c \<noteq> CHR ''}''"

lemma text_heads:
  "text_head (CHR ''['')" "text_head (CHR ''{'')" "text_head (CHR ''n'')" "text_head (CHR ''t'')"
  "text_head (CHR ''f'')" "text_head (CHR 0x22)" "number_head c \<Longrightarrow> text_head c"
  by (simp_all add: text_head_def json_space_def number_head_def)

lemma json_text_head:
  assumes "json_int v"
  shows "\<exists>c t. json_text gap depth v = c # t \<and> text_head c"
proof (cases v)
  case (JNum n)
  then obtain i where "n = Fin (of_int i)" using assms by auto
  moreover obtain c r where "show_rat (of_int i) = c # r" "number_head c" by (rule show_int_head)
  ultimately show ?thesis using JNum text_heads(7) [of c] by simp
next
  case (JBool b)
  then show ?thesis by (cases b) (simp_all add: text_heads)
next
  case (JArr vs)
  then show ?thesis by (cases "vs = []") (simp_all add: text_heads)
next
  case (JObj kvs)
  then show ?thesis by (cases "kvs = []") (simp_all add: text_heads)
next
  case (JStr s)
  then show ?thesis by (simp add: quote_text_def text_heads)
qed (use assms in \<open>simp_all add: text_heads\<close>)

lemma parse_expect:
  "expect w v (w @ r) = Some (v, r)"
  by simp

definition parses :: "nat \<Rightarrow> nat \<Rightarrow> jsv \<Rightarrow> bool" where
  "parses gap depth v \<longleftrightarrow> (\<forall>n ws r. cost v \<le> n \<longrightarrow> list_all json_space ws \<longrightarrow> ends r \<longrightarrow>
     parse_value n (ws @ json_text gap depth v @ r) = Some (v, r))"

lemma parse_elems_ok:
  assumes "vs \<noteq> []" and "\<And>v. v \<in> set vs \<Longrightarrow> parses gap (Suc depth) v"
    and "sum_list (map (\<lambda>v. Suc (cost v)) vs) \<le> n"
  shows "parse_elems n (break_line gap (Suc depth) @
      join (CHR '','' # break_line gap (Suc depth)) (map (json_text gap (Suc depth)) vs) @
      break_line gap depth @ CHR '']'' # r) = Some (vs, r)"
  using assms
proof (induction vs arbitrary: n)
  case (Cons v vs)
  let ?b = "break_line gap (Suc depth)" and ?e = "break_line gap depth @ CHR '']'' # r"
  obtain m where n: "n = Suc m" and m: "cost v \<le> m" using Cons.prems(3) by (cases n) auto
  have p: "parse_value m (?b @ json_text gap (Suc depth) v @ q) = Some (v, q)" if "ends q" for q
    using Cons.prems(2) [of v] m break_space that by (simp add: parses_def)
  show ?case
  proof (cases "vs = []")
    case True
    have "ends ?e" by (rule space_ends) (simp_all add: break_space number_char_def is_digit_def)
    moreover have "skip_ws ?e = CHR '']'' # r"
      by (simp add: skip_space break_space skip_none json_space_def)
    ultimately show ?thesis using p [of ?e] by (simp add: n True)
  next
    case False
    let ?t = "?b @ join (CHR '','' # ?b) (map (json_text gap (Suc depth)) vs) @ ?e"
    have "ends (CHR '','' # ?t)" by (simp add: ends_def number_char_def is_digit_def)
    note v = p [OF this]
    have "parse_elems m ?t = Some (vs, r)"
      using Cons.IH [OF False] Cons.prems(2,3) by (auto simp: n)
    moreover have "map (json_text gap (Suc depth)) vs \<noteq> []" using False by simp
    ultimately show ?thesis
      using v by (simp add: n join_Cons skip_none json_space_def)
  qed
qed simp

lemma parse_members_ok:
  assumes "kvs \<noteq> []" and "\<And>e. e \<in> set kvs \<Longrightarrow> parses gap (Suc depth) (snd e)"
    and "sum_list (map (\<lambda>e. Suc (cost (snd e))) kvs) \<le> n" and "distinct (keys (acc @ kvs))"
  shows "parse_members n acc (break_line gap (Suc depth) @
      join (CHR '','' # break_line gap (Suc depth))
        (map (\<lambda>e. quote_text (fst e) @ colon gap @ json_text gap (Suc depth) (snd e)) kvs) @
      break_line gap depth @ CHR ''}'' # r) = Some (acc @ kvs, r)"
  using assms
proof (induction kvs arbitrary: n acc)
  case (Cons e kvs)
  obtain k v where e: "e = (k, v)" by (cases e)
  let ?b = "break_line gap (Suc depth)" and ?e = "break_line gap depth @ CHR ''}'' # r"
  let ?f = "\<lambda>e. quote_text (fst e) @ colon gap @ json_text gap (Suc depth) (snd e)"
  obtain m where n: "n = Suc m" and m: "cost v \<le> m" using Cons.prems(3) by (cases n) (auto simp: e)
  obtain ws where c: "colon gap = CHR '':'' # ws" "list_all json_space ws"
    by (cases "gap = 0") (auto simp: colon_def json_space_def)
  have p: "parse_value m (ws @ json_text gap (Suc depth) v @ q) = Some (v, q)" if "ends q" for q
    using Cons.prems(2) [of e] m c(2) that by (simp add: parses_def e)
  have k: "k \<notin> set (keys acc)" using Cons.prems(4) by (simp add: e)
  have head: "parse_members (Suc m) acc (?b @ quote_text k @ q) =
      (case skip_ws q of
         d # q \<Rightarrow>
           if d \<noteq> CHR '':'' then None
           else do { (v, r) \<leftarrow> parse_value m q;
                     (case skip_ws r of
                        e # q \<Rightarrow>
                          if e = CHR '','' then parse_members m (obj_set acc k v) q
                          else if e = CHR ''}'' then Some (obj_set acc k v, q) else None
                      | [] \<Rightarrow> None) }
       | [] \<Rightarrow> None)" for q
    using parse_quoted [of k q]
    by (simp add: skip_space break_space quote_text_def skip_none json_space_def)
  have step: "parse_members (Suc m) acc (?b @ ?f e @ q) =
      (case skip_ws q of
         e # q \<Rightarrow>
           if e = CHR '','' then parse_members m (obj_set acc k v) q
           else if e = CHR ''}'' then Some (obj_set acc k v, q) else None
       | [] \<Rightarrow> None)" if "ends q" for q
    using head [of "colon gap @ json_text gap (Suc depth) v @ q"] p [OF that]
    by (simp add: e c(1) skip_none json_space_def)
  show ?case
  proof (cases "kvs = []")
    case True
    have "ends ?e" by (rule space_ends) (simp_all add: break_space number_char_def is_digit_def)
    moreover have "skip_ws ?e = CHR ''}'' # r"
      by (simp add: skip_space break_space skip_none json_space_def)
    ultimately show ?thesis using step [of ?e] k by (simp add: n True obj_set_fresh e)
  next
    case False
    let ?t = "?b @ join (CHR '','' # ?b) (map ?f kvs) @ ?e"
    have q: "ends (CHR '','' # ?t)" by (simp add: ends_def number_char_def is_digit_def)
    have "parse_members m (acc @ [e]) ?t = Some ((acc @ [e]) @ kvs, r)"
      using Cons.IH [OF False, of m "acc @ [e]"] Cons.prems(2,3,4) by (auto simp: n)
    moreover have "map ?f kvs \<noteq> []" using False by simp
    ultimately show ?thesis
      using step [OF q] k by (simp add: n join_Cons skip_none json_space_def obj_set_fresh e)
  qed
qed simp

lemma parses_all: "json_int v \<Longrightarrow> parses gap depth v"
proof (induction v arbitrary: depth rule: json_int.induct)
  case (1 vs)
  have IH: "parses gap (Suc depth) v" if "v \<in> set vs" for v using 1 that by simp
  show ?case
  proof (cases "vs = []")
    case True
    then show ?thesis
      by (auto simp: parses_def skip_space skip_none json_space_def Suc_le_eq gr0_conv_Suc)
  next
    case False
    let ?b = "break_line gap (Suc depth)"
    obtain v us where vs: "vs = v # us" using False by (cases vs) auto
    have "json_int v" using 1(2) by (simp add: vs)
    from json_text_head [OF this, of gap "Suc depth"] obtain c t
      where h: "json_text gap (Suc depth) v = c # t" "\<not> json_space c" "c \<noteq> CHR '']''"
      unfolding text_head_def by blast
    have hd: "\<exists>t'. skip_ws (?b @ join (CHR '','' # ?b) (map (json_text gap (Suc depth)) vs) @ q) = c # t'" for q
      using h by (cases us) (simp_all add: vs skip_space break_space skip_none)
    show ?thesis
      unfolding parses_def
    proof (intro allI impI)
      fix n ws r assume a: "cost (JArr vs) \<le> n" "list_all json_space ws" "ends r"
      then obtain m where n: "n = Suc m" "sum_list (map (\<lambda>v. Suc (cost v)) vs) \<le> m" by (cases n) auto
      let ?q = "break_line gap depth @ CHR '']'' # r"
      have "parse_elems m (?b @ join (CHR '','' # ?b) (map (json_text gap (Suc depth)) vs) @ ?q) = Some (vs, r)"
        using parse_elems_ok [OF False IH n(2)] .
      moreover obtain t' where "skip_ws (?b @ join (CHR '','' # ?b) (map (json_text gap (Suc depth)) vs) @ ?q) = c # t'"
        using hd by blast
      ultimately show "parse_value n (ws @ json_text gap depth (JArr vs) @ r) = Some (JArr vs, r)"
        using h(3) False by (simp add: n(1) skip_space a(2) skip_none json_space_def)
    qed
  qed
next
  case (2 kvs)
  have IH: "parses gap (Suc depth) (snd e)" if "e \<in> set kvs" for e using 2 that by simp
  show ?case
  proof (cases "kvs = []")
    case True
    then show ?thesis
      by (auto simp: parses_def skip_space skip_none json_space_def Suc_le_eq gr0_conv_Suc)
  next
    case False
    let ?b = "break_line gap (Suc depth)"
    let ?f = "\<lambda>e. quote_text (fst e) @ colon gap @ json_text gap (Suc depth) (snd e)"
    obtain e us where kvs: "kvs = e # us" using False by (cases kvs) auto
    have hd: "\<exists>t'. skip_ws (?b @ join (CHR '','' # ?b) (map ?f kvs) @ q) = CHR 0x22 # t'" for q
      by (cases us) (simp_all add: kvs skip_space break_space skip_none quote_text_def json_space_def)
    show ?thesis
      unfolding parses_def
    proof (intro allI impI)
      fix n ws r assume a: "cost (JObj kvs) \<le> n" "list_all json_space ws" "ends r"
      then obtain m where n: "n = Suc m" "sum_list (map (\<lambda>e. Suc (cost (snd e))) kvs) \<le> m" by (cases n) auto
      let ?q = "break_line gap depth @ CHR ''}'' # r"
      have "parse_members m [] (?b @ join (CHR '','' # ?b) (map ?f kvs) @ ?q) = Some ([] @ kvs, r)"
        using 2(2) by (intro parse_members_ok [OF False IH n(2)]) simp_all
      moreover obtain t' where "skip_ws (?b @ join (CHR '','' # ?b) (map ?f kvs) @ ?q) = CHR 0x22 # t'"
        using hd by blast
      ultimately show "parse_value n (ws @ json_text gap depth (JObj kvs) @ r) = Some (JObj kvs, r)"
        using False by (simp add: n(1) skip_space a(2) skip_none json_space_def)
    qed
  qed
next
  case (6 n)
  then obtain i where i: "n = Fin (of_int i)" by auto
  obtain c r where h: "show_rat (of_int i) = c # r" "number_head c" by (rule show_int_head)
  then have c: "\<not> json_space c" "c \<notin> {CHR 0x22, CHR ''['', CHR ''{'', CHR ''n'', CHR ''t'', CHR ''f''}"
    unfolding number_head_def by blast+
  show ?case
    unfolding parses_def
  proof (intro allI impI)
    fix k ws q assume a: "cost (JNum n) \<le> k" "list_all json_space ws" "ends q"
    then obtain m where k: "k = Suc m" by (cases k) auto
    show "parse_value k (ws @ json_text gap depth (JNum n) @ q) = Some (JNum n, q)"
      using c parse_number_int [OF a(3), of i] h(1) by (simp add: k i skip_space a(2) skip_none)
  qed
next
  case (7 s)
  show ?case
    using parse_quoted [of s]
    by (auto simp: parses_def skip_space skip_none json_space_def quote_text_def Suc_le_eq gr0_conv_Suc)
qed (auto simp: parses_def skip_space skip_none json_space_def Suc_le_eq gr0_conv_Suc)

section \<open>The fuel is enough\<close>

lemma quote_length: "2 \<le> length (quote_text s)"
  by (simp add: quote_text_def)

lemma join_length1:
  assumes "sep \<noteq> []"
  shows "sum_list (map (\<lambda>x. Suc (length x)) xs) \<le> Suc (length (join sep xs))"
proof (induction xs rule: induct_list012)
  case (3 x y ys)
  then show ?case using assms by (cases sep) auto
qed auto

lemma bound_step: "a \<le> 2 * b \<Longrightarrow> s + l \<le> 2 * t \<Longrightarrow> Suc a + s + (l + Suc 0) \<le> 2 * (Suc b + t)"
  by simp

lemma sum_list_bound:
  "(\<And>x. x \<in> set xs \<Longrightarrow> f x \<le> 2 * length (g x)) \<Longrightarrow>
   sum_list (map (\<lambda>x. Suc (f x)) xs) + length xs \<le> 2 * sum_list (map (\<lambda>x. Suc (length (g x))) xs)"
proof (induction xs)
  case (Cons x xs)
  then have "f x \<le> 2 * length (g x)"
    and "sum_list (map (\<lambda>x. Suc (f x)) xs) + length xs \<le> 2 * sum_list (map (\<lambda>x. Suc (length (g x))) xs)"
    by simp_all
  then show ?case by (simp only: list.map sum_list.Cons list.size) (rule bound_step)
qed simp

lemma cost_length: "json_int v \<Longrightarrow> cost v \<le> 2 * length (json_text gap depth v)"
proof (induction v arbitrary: depth rule: json_int.induct)
  case (1 vs)
  show ?case
  proof (cases "vs = []")
    case False
    let ?sep = "CHR '','' # break_line gap (Suc depth)"
    have "sum_list (map (\<lambda>v. Suc (cost v)) vs) + length vs \<le>
        2 * sum_list (map (\<lambda>v. Suc (length (json_text gap (Suc depth) v))) vs)"
      using 1 by (intro sum_list_bound) simp
    moreover have "sum_list (map (\<lambda>v. Suc (length (json_text gap (Suc depth) v))) vs) \<le>
        Suc (length (join ?sep (map (json_text gap (Suc depth)) vs)))"
      using join_length1 [of ?sep "map (json_text gap (Suc depth)) vs"] by (simp add: comp_def)
    ultimately show ?thesis using False by simp
  qed simp
next
  case (2 kvs)
  let ?f = "\<lambda>e. quote_text (fst e) @ colon gap @ json_text gap (Suc depth) (snd e)"
  show ?case
  proof (cases "kvs = []")
    case False
    let ?sep = "CHR '','' # break_line gap (Suc depth)"
    have "cost (snd e) \<le> 2 * length (?f e)" if "e \<in> set kvs" for e
      using 2(1) [OF that, of "Suc depth"] 2(2) that by fastforce
    then have "sum_list (map (\<lambda>e. Suc (cost (snd e))) kvs) + length kvs \<le>
        2 * sum_list (map (\<lambda>e. Suc (length (?f e))) kvs)"
      by (rule sum_list_bound)
    moreover have "sum_list (map (\<lambda>e. Suc (length (?f e))) kvs) \<le> Suc (length (join ?sep (map ?f kvs)))"
      using join_length1 [of ?sep "map ?f kvs"] by (simp add: comp_def)
    ultimately show ?thesis using False by simp
  qed simp
next
  case (6 n)
  then obtain i where i: "n = Fin (of_int i)" by auto
  obtain c r where "show_rat (of_int i) = c # r" by (rule show_int_head)
  then show ?case by (simp add: i)
next
  case (7 s)
  then show ?case using quote_length [of s] by simp
qed auto

lemma json_parse_text: "json_int v \<Longrightarrow> json_parse (json_text gap 0 v) = Some v"
proof -
  assume v: "json_int v"
  have "parse_value (2 * length (json_text gap 0 v)) ([] @ json_text gap 0 v @ []) = Some (v, [])"
    using parses_all [OF v, of gap 0, unfolded parses_def, rule_format, OF cost_length [OF v, of gap 0], of "[]" "[]"]
    by (simp add: ends_def)
  then show ?thesis by (simp add: json_parse_def skip_ws_def)
qed

lemma json_parse_stringify:
  assumes "json_int (wire v)" and "stringify gap v = Some s"
  shows "json_parse s = Some (wire v)"
  using assms json_parse_text by (auto simp: stringify_def split: if_splits)

lemma rat_integers [simp]:
  "\<exists>i. rat_of_int i = numeral n" "\<exists>i. rat_of_int i = - numeral n"
  "\<exists>i. rat_of_int i = 0" "\<exists>i. rat_of_int i = 1"
  by (metis of_int_numeral, metis of_int_neg_numeral, metis of_int_0, metis of_int_1)

text \<open>
  \<open>toString\<close> of XrayCommonClass (web/assets/js/model/inbound.js) on the value that \<open>toJson\<close> gives:
  indented by two spaces, or compact.
\<close>

definition xray_toString :: "bool \<Rightarrow> jsv \<Rightarrow> string option" where
  "xray_toString format v = stringify (if format then 2 else 0) v"

lemma xray_toString_parse:
  "json_int (wire v) \<Longrightarrow> xray_toString format v = Some s \<Longrightarrow> json_parse s = Some (wire v)"
  unfolding xray_toString_def by (rule json_parse_stringify)

end
