(* ===== verification/OutDns.thy ===== *)
theory OutDns
  imports OutStream Json
begin

text \<open>
  The DNS outbound of web/assets/js/model/outbound.js: its rules, the two normalisations of a rule's
  fields, and the rules that stand for the settings of older configurations.
\<close>

section \<open>Normalising\<close>

definition DNSRuleActions :: "string list" where
  "DNSRuleActions = [''direct'', ''drop'', ''reject'', ''hijack'']"

text \<open>\<open>item.toString()\<close>: a TypeError on null and undefined.\<close>

definition to_text :: "jsv \<Rightarrow> string option" where
  "to_text v = (if v = JUndef \<or> v = JNull then None else Some (js_to_string v))"

definition filled :: "string list \<Rightarrow> string list" where
  "filled ss = filter (\<lambda>s. s \<noteq> '''') (map trim ss)"

definition normalizeDNSRuleField :: "jsv \<Rightarrow> string option" where
  "normalizeDNSRuleField value =
     (if value = JNull \<or> value = JUndef then Some ''''
      else case value of
        JArr items \<Rightarrow> do { ts \<leftarrow> mapM to_text items; Some (join '','' (filled ts)) }
      | _ \<Rightarrow> Some (trim (js_to_string value)))"

definition normalizeDNSRuleAction :: "jsv \<Rightarrow> string" where
  "normalizeDNSRuleAction action =
     (let a = (if isEmpty action then ''direct'' else trim (lower (js_to_string action)))
      in if a \<in> set DNSRuleActions then a else ''direct'')"

section \<open>Older configurations\<close>

definition query_type :: "jnum \<Rightarrow> bool" where
  "query_type n = (case n of Fin q \<Rightarrow> q = of_int (rat_floor q) \<and> 0 \<le> q \<and> q \<le> 65535 | _ \<Rightarrow> False)"

text \<open>\<open>/^\d+$/.test(s)\<close>\<close>

definition all_digits :: "string \<Rightarrow> bool" where
  "all_digits s \<longleftrightarrow> s \<noteq> '''' \<and> list_all is_digit s"

definition parseLegacyDNSBlockTypes :: "jsv \<Rightarrow> jnum list" where
  "parseLegacyDNSBlockTypes blockTypes =
     (if blockTypes = JNull \<or> blockTypes = JUndef \<or> blockTypes = JStr '''' then []
      else case blockTypes of
        JArr items \<Rightarrow> filter query_type (map js_to_number items)
      | JNum n \<Rightarrow> (if query_type n then [n] else [])
      | _ \<Rightarrow> filter query_type
             (map str_to_number (filter all_digits (map trim (split_on (CHR '','') (js_to_string blockTypes))))))"

record DNSRule =
  dr_action :: jsv
  dr_qtype :: jsv
  dr_domain :: jsv

definition new_DNSRule :: "jsv \<Rightarrow> jsv \<Rightarrow> jsv \<Rightarrow> DNSRule" where
  "new_DNSRule action qtype domain =
     \<lparr>dr_action = dflt action (JStr ''direct''), dr_qtype = dflt qtype (JStr ''''), dr_domain = dflt domain (JStr '''')\<rparr>"

definition buildLegacyDNSRules :: "jsv \<Rightarrow> jsv \<Rightarrow> DNSRule list" where
  "buildLegacyDNSRules nonIPQuery blockTypes =
     (let mode = (if one_of nonIPQuery [''reject'', ''drop'', ''skip''] then nonIPQuery else JStr ''reject'');
          parsed = parseLegacyDNSBlockTypes blockTypes
      in (if parsed \<noteq> []
          then [new_DNSRule (JStr (if mode = JStr ''reject'' then ''reject'' else ''drop''))
                  (JStr (join '','' (map show_num parsed))) JUndef]
          else []) @
         [new_DNSRule (JStr ''hijack'') (JStr ''1,28'') JUndef,
          new_DNSRule (if mode = JStr ''skip'' then JStr ''direct'' else mode) JUndef JUndef])"

section \<open>DNSRule\<close>

definition DNSRule_fromJson :: "jsv \<Rightarrow> DNSRule option" where
  "DNSRule_fromJson json =
     (let json = dflt json (JObj []) in
      do { action \<leftarrow> js_get json ''action'';
           v_qtype \<leftarrow> js_get json ''qtype''; qtype \<leftarrow> normalizeDNSRuleField v_qtype;
           v_domain \<leftarrow> js_get json ''domain''; domain \<leftarrow> normalizeDNSRuleField v_domain;
           Some (new_DNSRule action (JStr qtype) (JStr domain)) })"

definition sent_qtype :: "string \<Rightarrow> jsv" where
  "sent_qtype q = (if q = '''' then JUndef else if all_digits q then JNum (str_to_number q) else JStr q)"

definition sent_domains :: "string \<Rightarrow> jsv" where
  "sent_domains d =
     (let domains = filled (split_on (CHR '','') d) in if domains = [] then JUndef else JArr (map JStr domains))"

text \<open>The object of a rule; a property that is not set is left out.\<close>

definition rule_object :: "string \<Rightarrow> jsv \<Rightarrow> jsv \<Rightarrow> jsv" where
  "rule_object action qtype domain =
     JObj ([(''action'', JStr action)] @ (if qtype = JUndef then [] else [(''qtype'', qtype)]) @
           (if domain = JUndef then [] else [(''domain'', domain)]))"

definition DNSRule_toJson :: "DNSRule \<Rightarrow> jsv option" where
  "DNSRule_toJson r =
     do { qtype \<leftarrow> normalizeDNSRuleField (dr_qtype r);
          domain \<leftarrow> normalizeDNSRuleField (dr_domain r);
          Some (rule_object (normalizeDNSRuleAction (dr_action r)) (sent_qtype qtype) (sent_domains domain)) }"

definition getDNSRulesFromJson :: "jsv \<Rightarrow> DNSRule list option" where
  "getDNSRulesFromJson json =
     (let json = dflt json (JObj []) in
      do { rules \<leftarrow> js_get json ''rules'';
           nonIPQuery \<leftarrow> js_get json ''nonIPQuery'';
           blockTypes \<leftarrow> js_get json ''blockTypes'';
           if is_array rules \<and> rules \<noteq> JArr [] then js_map DNSRule_fromJson rules
           else if nonIPQuery \<noteq> JUndef \<or> blockTypes \<noteq> JUndef then Some (buildLegacyDNSRules nonIPQuery blockTypes)
           else Some [] })"

section \<open>DNSSettings\<close>

record DNSSettings =
  dns_network :: jsv
  dns_address :: jsv
  dns_port :: jsv
  dns_rules :: "DNSRule list"

definition new_DNSSettings :: "jsv \<Rightarrow> jsv \<Rightarrow> jsv \<Rightarrow> DNSRule list option \<Rightarrow> DNSSettings" where
  "new_DNSSettings network address port rules =
     \<lparr>dns_network = dflt network (JStr ''udp''), dns_address = dflt address (JStr ''''),
      dns_port = dflt port (jint 53), dns_rules = opt_new rules []\<rparr>"

definition default_DNSSettings :: DNSSettings where
  "default_DNSSettings = new_DNSSettings JUndef JUndef JUndef None"

definition dns_addRule :: "jsv \<Rightarrow> DNSSettings \<Rightarrow> DNSSettings" where
  "dns_addRule action x = x\<lparr>dns_rules := dns_rules x @ [new_DNSRule (dflt action (JStr ''direct'')) JUndef JUndef]\<rparr>"

definition dns_delRule :: "nat \<Rightarrow> DNSSettings \<Rightarrow> DNSSettings" where
  "dns_delRule index x = x\<lparr>dns_rules := splice1 index (dns_rules x)\<rparr>"

definition DNSSettings_fromJson :: "jsv \<Rightarrow> DNSSettings option" where
  "DNSSettings_fromJson json =
     (let json = dflt json (JObj []) in
      do { network \<leftarrow> js_get json ''network'';
           address \<leftarrow> js_get json ''address'';
           port \<leftarrow> js_get json ''port'';
           rules \<leftarrow> getDNSRulesFromJson json;
           Some (new_DNSSettings network address port (Some rules)) })"

definition DNSSettings_toJson :: "DNSSettings \<Rightarrow> jsv option" where
  "DNSSettings_toJson x =
     (let json = [(''network'', dns_network x), (''address'', dns_address x), (''port'', dns_port x)] in
      if dns_rules x \<noteq> []
      then do { rules \<leftarrow> toJsonArray DNSRule_toJson (dns_rules x); Some (JObj (obj_set json ''rules'' rules)) }
      else Some (JObj json))"

section \<open>The saved form of a rule\<close>

text \<open>
  A saved rule has one of the four actions, a number or a text as its types, and trimmed names of domains
  that are not empty.
\<close>

lemma action_normal: "normalizeDNSRuleAction a \<in> set DNSRuleActions"
  by (simp add: normalizeDNSRuleAction_def Let_def DNSRuleActions_def)

lemma action_again: "a \<in> set DNSRuleActions \<Longrightarrow> normalizeDNSRuleAction (JStr a) = a"
proof -
  have "normalizeDNSRuleAction (JStr ''direct'') = ''direct''" by code_simp
  moreover have "normalizeDNSRuleAction (JStr ''drop'') = ''drop''" by code_simp
  moreover have "normalizeDNSRuleAction (JStr ''reject'') = ''reject''" by code_simp
  moreover have "normalizeDNSRuleAction (JStr ''hijack'') = ''hijack''" by code_simp
  moreover assume "a \<in> set DNSRuleActions"
  ultimately show ?thesis unfolding DNSRuleActions_def list.set by (elim insertE emptyE) simp_all
qed

lemma filled_split:
  assumes "d \<in> set (filled (split_on c s))"
  shows "d \<noteq> ''''" "trim d = d" "c \<notin> set d"
proof -
  obtain p where p: "p \<in> set (split_on c s)" "d = trim p" "d \<noteq> ''''" using assms by (auto simp: filled_def)
  have "set (trim p) \<subseteq> set p"
    by (auto simp: trim_def dest!: set_dropWhileD)
  then show "d \<noteq> ''''" "trim d = d" "c \<notin> set d" using p split_on_parts [OF p(1)] by auto
qed

lemma filled_fixed: "(\<And>d. d \<in> set ds \<Longrightarrow> d \<noteq> '''' \<and> trim d = d) \<Longrightarrow> filled ds = ds"
  unfolding filled_def by (induction ds) auto

lemma domains_again:
  assumes "ds = filled (split_on (CHR '','') s)" and "ds \<noteq> []"
  shows "normalizeDNSRuleField (JArr (map JStr ds)) = Some (join '','' ds)" "sent_domains (join '','' ds) = JArr (map JStr ds)"
proof -
  have d: "d \<noteq> ''''" "trim d = d" "CHR '','' \<notin> set d" if "d \<in> set ds" for d
    using filled_split [of d "CHR '',''" s] that assms(1) by blast+
  have f: "filled ds = ds" using d by (intro filled_fixed) blast
  have "mapM to_text (map JStr ds) = Some (map id ds)"
    by (rule mapM_Some_map) (simp add: to_text_def)
  then show "normalizeDNSRuleField (JArr (map JStr ds)) = Some (join '','' ds)"
    by (simp add: normalizeDNSRuleField_def f)
  have "split_on (CHR '','') (join '','' ds) = ds" using d(3) assms(2) by (intro split_join) auto
  then show "sent_domains (join '','' ds) = JArr (map JStr ds)" by (simp add: sent_domains_def f assms(2))
qed

lemma digits_trim: "all_digits s \<Longrightarrow> trim s = s"
  using trim_digits [of "[]" s] by (simp add: all_digits_def)

lemma number_text: "all_digits s \<Longrightarrow> js_to_string (JNum (str_to_number s)) = show_nat (read_nat s)"
  using show_rat_int [of "int (read_nat s)"] by (simp add: all_digits_def str_to_number_all)

lemma qtype_again:
  assumes "trim q = q"
  shows "\<exists>q'. normalizeDNSRuleField (wire (sent_qtype q)) = Some q' \<and> sent_qtype q' = sent_qtype q"
proof (cases "all_digits q")
  case True
  let ?n = "read_nat q"
  have d: "all_digits (show_nat ?n)" using digits_all [of ?n] by (simp add: all_digits_def)
  have "sent_qtype q = JNum (Fin (of_nat ?n))"
    using True by (simp add: sent_qtype_def all_digits_def str_to_number_all)
  moreover have "normalizeDNSRuleField (JNum (Fin (of_nat ?n))) = Some (show_nat ?n)"
    using number_text [OF d] digits_trim [OF d] d
    by (simp add: normalizeDNSRuleField_def all_digits_def str_to_number_digits)
  moreover have "sent_qtype (show_nat ?n) = JNum (Fin (of_nat ?n))"
    using d by (simp add: sent_qtype_def str_to_number_digits)
  ultimately show ?thesis by simp
next
  case False
  then show ?thesis using assms by (simp add: sent_qtype_def normalizeDNSRuleField_def)
qed

lemma domain_again: "\<exists>d'. normalizeDNSRuleField (wire (sent_domains d)) = Some d' \<and> sent_domains d' = sent_domains d"
proof (cases "filled (split_on (CHR '','') d) = []")
  case True
  then have "sent_domains d = JUndef" by (simp add: sent_domains_def)
  moreover have "sent_domains '''' = JUndef" by (simp add: sent_domains_def filled_def)
  ultimately show ?thesis by (simp add: normalizeDNSRuleField_def)
next
  case False
  then have "sent_domains d = JArr (map JStr (filled (split_on (CHR '','') d)))" by (simp add: sent_domains_def Let_def)
  with domains_again [OF refl False] show ?thesis by (simp only: wire_strs) blast
qed

text \<open>A normalised field is trimmed, also when it joins the elements of a list.\<close>

lemma trim_fixed: "s = '''' \<or> \<not> is_space (hd s) \<and> \<not> is_space (last s) \<Longrightarrow> trim s = s"
proof -
  have d: "dropWhile is_space t = t" if "t \<noteq> ''''" "\<not> is_space (hd t)" for t
    using that by (cases t) auto
  assume "s = '''' \<or> \<not> is_space (hd s) \<and> \<not> is_space (last s)"
  then show ?thesis using d [of s] d [of "rev s"] by (cases "s = ''''") (simp_all add: trim_def hd_rev)
qed

lemma trim_ends:
  assumes "trim s = s" and "s \<noteq> ''''"
  shows "\<not> is_space (hd s) \<and> \<not> is_space (last s)"
proof -
  let ?d = "dropWhile is_space s" and ?e = "dropWhile is_space (rev (dropWhile is_space s))"
  have e: "rev ?e = s" using assms(1) by (simp add: trim_def)
  have "length s \<le> length ?d" using arg_cong [OF e, of length] length_dropWhile_le [of is_space "rev ?d"] by simp
  moreover have s: "s = takeWhile is_space s @ ?d" by simp
  moreover have "length s = length (takeWhile is_space s) + length ?d"
    by (simp only: length_append [symmetric] takeWhile_dropWhile_id)
  ultimately have "takeWhile is_space s = ''''" by simp
  with s have d: "?d = s" by simp
  then have f: "\<not> is_space (hd s)" using assms(2) hd_dropWhile_not [of is_space s] by simp
  have g: "?e \<noteq> ''''" using e assms(2) by (metis rev.simps(1))
  have "last s = hd ?e" using e g by (metis last_rev)
  then show ?thesis using f hd_dropWhile_not [OF g] by simp
qed

lemma join_ends:
  "xs \<noteq> [] \<Longrightarrow> (\<And>x. x \<in> set xs \<Longrightarrow> x \<noteq> '''') \<Longrightarrow>
   join sep xs \<noteq> '''' \<and> hd (join sep xs) = hd (hd xs) \<and> last (join sep xs) = last (last xs)"
proof (induction xs)
  case (Cons x xs)
  then show ?case by (cases "xs = []") (auto simp: join_Cons)
qed simp

lemma join_trimmed: "(\<And>s. s \<in> set ss \<Longrightarrow> s \<noteq> '''' \<and> trim s = s) \<Longrightarrow> trim (join sep ss) = join sep ss"
proof (cases "ss = []")
  case False
  assume s: "\<And>s. s \<in> set ss \<Longrightarrow> s \<noteq> '''' \<and> trim s = s"
  have "hd ss \<in> set ss" "last ss \<in> set ss" using False by simp_all
  then show ?thesis
    using trim_ends [of "hd ss"] trim_ends [of "last ss"] s join_ends [OF False, of sep] by (intro trim_fixed) auto
qed simp

lemma normalized_trimmed: "normalizeDNSRuleField v = Some q \<Longrightarrow> trim q = q"
proof -
  assume n: "normalizeDNSRuleField v = Some q"
  have "s \<noteq> '''' \<and> trim s = s" if "s \<in> set (filled ts)" for s ts using that by (auto simp: filled_def)
  then have "trim (join '','' (filled ts)) = join '','' (filled ts)" for ts by (rule join_trimmed)
  with n show ?thesis by (cases v) (auto simp: normalizeDNSRuleField_def split: bind_splits)
qed

text \<open>
  C30: what the page saves of a DNS rule is a normal form. A rule read from any JSON saves without an
  exception; its action is one of the four that exist, and reading the saved rule and saving it
  again sends the same object. (Query types are given by name or by numbers below 2 to the 53, so that
  their text is the same after JavaScript has read them.)
\<close>
theorem dns_rule_settles:
  assumes "DNSRule_fromJson json = Some r"
    and "all_digits (trim (js_to_string (dr_qtype r))) \<longrightarrow> read_nat (trim (js_to_string (dr_qtype r))) < 2 ^ 53"
  shows "\<exists>v r'. DNSRule_toJson r = Some v \<and> js_get v ''action'' \<in> Some ` JStr ` set DNSRuleActions \<and>
    DNSRule_fromJson (wire v) = Some r' \<and> DNSRule_toJson r' = Some v"
proof -
  obtain q d where r: "dr_qtype r = JStr q" "dr_domain r = JStr d"
    using assms(1) by (auto simp: DNSRule_fromJson_def Let_def new_DNSRule_def split: bind_splits)
  define a where "a = normalizeDNSRuleAction (dr_action r)"
  define v where "v = rule_object a (sent_qtype (trim q)) (sent_domains (trim d))"
  have sent: "DNSRule_toJson r = Some v"
    by (simp add: DNSRule_toJson_def r normalizeDNSRuleField_def v_def a_def)
  obtain q' where q': "normalizeDNSRuleField (wire (sent_qtype (trim q))) = Some q'" "sent_qtype q' = sent_qtype (trim q)"
    using qtype_again [of "trim q"] by auto
  obtain d' where d': "normalizeDNSRuleField (wire (sent_domains (trim d))) = Some d'" "sent_domains d' = sent_domains (trim d)"
    using domain_again by blast
  have n: "trim q' = q'" "trim d' = d'" using normalized_trimmed q'(1) d'(1) by blast+
  have get: "js_get (wire v) ''action'' = Some (JStr a)" "js_get (wire v) ''qtype'' = Some (wire (sent_qtype (trim q)))"
    "js_get (wire v) ''domain'' = Some (wire (sent_domains (trim d)))"
    unfolding v_def rule_object_def by (simp_all add: js_get_wire)
  have nv: "v \<noteq> JUndef" by (simp add: v_def rule_object_def)
  have "DNSRule_fromJson (wire v) = Some (new_DNSRule (JStr a) (JStr q') (JStr d'))"
    by (simp add: DNSRule_fromJson_def nv get q'(1) d'(1))
  moreover have "DNSRule_toJson (new_DNSRule (JStr a) (JStr q') (JStr d')) = Some v"
    by (simp add: DNSRule_toJson_def new_DNSRule_def normalizeDNSRuleField_def n q'(2) d'(2) v_def a_def action_again action_normal)
  moreover have "js_get v ''action'' = Some (JStr a)" by (simp add: v_def rule_object_def)
  ultimately show ?thesis using sent action_normal a_def by blast
qed

lemma types_number: "query_type n \<Longrightarrow> \<exists>k \<le> 65535. n = Fin (of_nat k)"
proof -
  assume "query_type n"
  then obtain q where q: "n = Fin q" "q = of_int (rat_floor q)" "0 \<le> q" "q \<le> 65535"
    by (auto simp: query_type_def split: jnum.splits)
  then have "0 \<le> rat_floor q" "rat_floor q \<le> 65535"
    by (simp_all add: rat_floor_floor le_floor_iff floor_le_iff)
  then have "nat (rat_floor q) \<le> 65535" "q = of_nat (nat (rat_floor q))" using q(2) by (simp_all add: nat_le_iff)
  with q(1) show ?thesis by blast
qed

text \<open>
  The rules that stand for an older configuration are well formed, whatever it holds. Every
  query type taken from it is a whole number of sixteen bits; the list ends with the rule that answers
  address queries and with one of the actions reject, drop and direct; a rule for the blocked
  types comes first exactly when one was recognised, and it never lets them pass.
\<close>
theorem legacy_rules_shape:
  "list_all (\<lambda>n. \<exists>k \<le> 65535. n = Fin (of_nat k)) (parseLegacyDNSBlockTypes blockTypes) \<and>
   (\<exists>block last_action.
      buildLegacyDNSRules nonIPQuery blockTypes =
        block @ [new_DNSRule (JStr ''hijack'') (JStr ''1,28'') JUndef, new_DNSRule (JStr last_action) JUndef JUndef] \<and>
      last_action \<in> {''reject'', ''drop'', ''direct''} \<and>
      (if parseLegacyDNSBlockTypes blockTypes = [] then block = []
       else \<exists>a \<in> {''reject'', ''drop''}.
              block = [new_DNSRule (JStr a) (JStr (join '','' (map show_num (parseLegacyDNSBlockTypes blockTypes)))) JUndef]))"
proof -
  have q: "list_all query_type (parseLegacyDNSBlockTypes blockTypes)"
    by (cases blockTypes) (auto simp: parseLegacyDNSBlockTypes_def list_all_iff)
  then have "list_all (\<lambda>n. \<exists>k \<le> 65535. n = Fin (of_nat k)) (parseLegacyDNSBlockTypes blockTypes)"
    using types_number unfolding list_all_iff by blast
  moreover have "nonIPQuery = JStr ''skip'' \<or> nonIPQuery = JStr ''drop'' \<or> nonIPQuery = JStr ''reject'' \<or>
      \<not> one_of nonIPQuery [''reject'', ''drop'', ''skip'']"
    by (auto simp: one_of_def)
  ultimately show ?thesis
    by (elim disjE) (auto simp: buildLegacyDNSRules_def Let_def)
qed

definition sample_rule :: jsv where
  "sample_rule = JObj [(''action'', JStr '' DROP ''), (''qtype'', JArr [jint 65, JStr '' aaaa '']), (''domain'', JStr '' a.example,,b.example'')]"

theorem dns_rule_settles_witness:
  "let r = new_DNSRule (JStr '' DROP '') (JStr ''65,aaaa'') (JStr ''a.example,,b.example'') in
   \<exists>v r'. DNSRule_toJson r = Some v \<and> js_get v ''action'' \<in> Some ` JStr ` set DNSRuleActions \<and>
     DNSRule_fromJson (wire v) = Some r' \<and> DNSRule_toJson r' = Some v"
proof -
  have t: "filled [show_rat 65, '' aaaa ''] = [''65'', ''aaaa'']" "trim '' a.example,,b.example'' = ''a.example,,b.example''"
    by code_simp+
  have d: "\<not> all_digits (trim ''65,aaaa'')" by code_simp
  have l: "DNSRule_fromJson sample_rule = Some (new_DNSRule (JStr '' DROP '') (JStr ''65,aaaa'') (JStr ''a.example,,b.example''))"
    by (simp add: sample_rule_def DNSRule_fromJson_def normalizeDNSRuleField_def to_text_def t)
  show ?thesis unfolding Let_def by (rule dns_rule_settles [OF l]) (simp add: new_DNSRule_def d)
qed

end
