(* ===== verification/OutProxy.thy ===== *)
theory OutProxy
  imports OutDns InSettings
begin

text \<open>
  The settings of the outbounds that connect to a server (web/assets/js/model/outbound.js): VMess, VLESS,
  Trojan, Shadowsocks, Socks, HTTP and Hysteria. Most of them read the first server of a list, and
  throw when the list is missing, since \<open>isArrEmpty\<close> holds of empty arrays only.
\<close>

section \<open>VmessSettings\<close>

record OutVmess =
  ovm_address :: jsv
  ovm_port :: jsv
  ovm_id :: jsv
  ovm_security :: jsv

definition new_OutVmess :: "jsv \<Rightarrow> jsv \<Rightarrow> jsv \<Rightarrow> jsv \<Rightarrow> OutVmess" where
  "new_OutVmess address port id_v security =
     \<lparr>ovm_address = address, ovm_port = port, ovm_id = id_v, ovm_security = security\<rparr>"

text \<open>The inner None is undefined, the result for an empty list of servers.\<close>

definition OutVmess_fromJson :: "jsv \<Rightarrow> OutVmess option option" where
  "OutVmess_fromJson json =
     (let json = dflt json (JObj []) in
      do { vnext \<leftarrow> js_get json ''vnext'';
           if isArrEmpty vnext then Some None
           else do { first \<leftarrow> js_index vnext 0;
                     (let v = js_or first (JObj []) in
                      do { users \<leftarrow> js_get v ''users'';
                           u \<leftarrow> (if isArrEmpty users then Some (JObj []) else js_index users 0);
                           address \<leftarrow> js_get v ''address'';
                           port \<leftarrow> js_get v ''port'';
                           id_v \<leftarrow> js_get u ''id'';
                           security \<leftarrow> js_get u ''security'';
                           Some (Some (new_OutVmess address port id_v security)) }) } })"

definition OutVmess_toJson :: "OutVmess \<Rightarrow> jsv" where
  "OutVmess_toJson x =
     JObj [(''vnext'', JArr [JObj [(''address'', ovm_address x), (''port'', ovm_port x),
       (''users'', JArr [JObj [(''id'', ovm_id x), (''security'', ovm_security x)]])]])]"

definition OutVmess_ok :: "OutVmess \<Rightarrow> bool" where
  "OutVmess_ok x \<longleftrightarrow> opt_field_ok (ovm_address x) \<and> opt_field_ok (ovm_port x) \<and> opt_field_ok (ovm_id x) \<and>
     opt_field_ok (ovm_security x)"

lemma js_get_JObj_wire:
  "distinct (keys kvs) \<Longrightarrow> js_get (wire (JObj kvs)) k = Some (wire (look kvs k))"
  by (rule js_get_wire)

lemma isArrEmpty_JArr [simp]: "isArrEmpty (JArr vs) \<longleftrightarrow> vs = []"
  by (simp add: isArrEmpty_def isEmpty_def)

lemma isArrEmpty_none [simp]: "\<not> isArrEmpty JUndef" "\<not> isArrEmpty JNull"
  by (simp_all add: isArrEmpty_def isEmpty_def)

lemma js_or_wire [simp]: "js_or (wire (JObj kvs)) d = wire (JObj kvs)"
  by (rule js_or_simps) simp

lemma OutVmess_roundtrip: "OutVmess_ok x \<Longrightarrow> OutVmess_fromJson (wire (OutVmess_toJson x)) = Some (Some x)"
  by (simp add: OutVmess_ok_def OutVmess_toJson_def OutVmess_fromJson_def new_OutVmess_def js_get_wire opt_field_ok_def)

section \<open>VLESSSettings\<close>

record OutVless =
  ovl_address :: jsv
  ovl_port :: jsv
  ovl_id :: jsv
  ovl_flow :: jsv
  ovl_encryption :: jsv
  ovl_testpre :: jsv
  ovl_testseed :: jsv

definition out_default_testseed :: jsv where
  "out_default_testseed = JArr [jint 900, jint 500, jint 900, jint 256]"

definition new_OutVless :: "jsv \<Rightarrow> jsv \<Rightarrow> jsv \<Rightarrow> jsv \<Rightarrow> jsv \<Rightarrow> jsv \<Rightarrow> jsv \<Rightarrow> OutVless" where
  "new_OutVless address port id_v flow encryption testpre testseed =
     \<lparr>ovl_address = address, ovl_port = port, ovl_id = id_v, ovl_flow = flow, ovl_encryption = encryption,
      ovl_testpre = dflt testpre (jint 0), ovl_testseed = dflt testseed out_default_testseed\<rparr>"

definition default_OutVless :: OutVless where
  "default_OutVless = new_OutVless JUndef JUndef JUndef JUndef JUndef JUndef JUndef"

text \<open>\<open>v && v.length >= 4\<close>; a truthy value has properties.\<close>

definition four_or_more :: "jsv \<Rightarrow> bool" where
  "four_or_more v \<longleftrightarrow>
     truthy v \<and> (let n = js_get_opt v ''length'' in js_gt n (jint 4) \<or> js_to_number n = Fin 4)"

definition OutVless_fromJson :: "jsv \<Rightarrow> OutVless option" where
  "OutVless_fromJson json =
     (let json = dflt json (JObj []) in
      do { address \<leftarrow> js_get json ''address'';
           port \<leftarrow> js_get json ''port'';
           if isEmpty address \<or> isEmpty port then Some default_OutVless
           else do { id_v \<leftarrow> js_get json ''id'';
                     flow \<leftarrow> js_get json ''flow'';
                     encryption \<leftarrow> js_get json ''encryption'';
                     testpre \<leftarrow> js_get json ''testpre'';
                     testseed \<leftarrow> js_get json ''testseed'';
                     Some (new_OutVless address port id_v flow encryption (js_or testpre (jint 0))
                       (if four_or_more testseed then testseed else out_default_testseed)) } })"

definition out_vless_entries :: "OutVless \<Rightarrow> entries" where
  "out_vless_entries x =
     (let result = [(''address'', ovl_address x), (''port'', ovl_port x), (''id'', ovl_id x), (''flow'', ovl_flow x),
            (''encryption'', ovl_encryption x)]
      in if truthy (ovl_flow x) \<and> ovl_flow x \<noteq> JStr ''''
         then set_if (four_or_more (ovl_testseed x)) ''testseed'' (ovl_testseed x)
                (set_if (js_gt (ovl_testpre x) (jint 0)) ''testpre'' (ovl_testpre x) result)
         else result)"

definition OutVless_toJson :: "OutVless \<Rightarrow> jsv" where
  "OutVless_toJson x = JObj (out_vless_entries x)"

text \<open>The Vision settings are sent with a flow only, so without one they are the defaults.\<close>

definition OutVless_ok :: "OutVless \<Rightarrow> bool" where
  "OutVless_ok x \<longleftrightarrow>
     field_ok (ovl_address x) \<and> \<not> isEmpty (ovl_address x) \<and> field_ok (ovl_port x) \<and> \<not> isEmpty (ovl_port x) \<and>
     opt_field_ok (ovl_id x) \<and> opt_field_ok (ovl_flow x) \<and> opt_field_ok (ovl_encryption x) \<and>
     (if truthy (ovl_flow x)
      then (positive (ovl_testpre x) \<or> ovl_testpre x = jint 0) \<and>
        field_ok (ovl_testseed x) \<and> four_or_more (ovl_testseed x)
      else ovl_testpre x = jint 0 \<and> ovl_testseed x = out_default_testseed)"

lemma positive_truthy: "positive v \<Longrightarrow> truthy v"
  by (induction v rule: positive.induct) auto

lemma OutVless_roundtrip:
  assumes ok: "OutVless_ok x"
  shows "OutVless_fromJson (wire (OutVless_toJson x)) = Some x"
proof -
  have d: "distinct (keys (out_vless_entries x))"
    by (simp add: out_vless_entries_def Let_def distinct_set_if)
  have get: "js_get (wire (OutVless_toJson x)) k = Some (wire (look (out_vless_entries x) k))" for k
    unfolding OutVless_toJson_def by (rule js_get_wire [OF d])
  have l: "look (out_vless_entries x) ''address'' = ovl_address x" "look (out_vless_entries x) ''port'' = ovl_port x"
    "look (out_vless_entries x) ''id'' = ovl_id x" "look (out_vless_entries x) ''flow'' = ovl_flow x"
    "look (out_vless_entries x) ''encryption'' = ovl_encryption x"
    by (simp_all add: out_vless_entries_def Let_def look_set_if)
  have pre: "js_or (wire (look (out_vless_entries x) ''testpre'')) (jint 0) = ovl_testpre x"
    using ok positive_sent [of "ovl_testpre x"] positive_truthy [of "ovl_testpre x"]
    by (cases "truthy (ovl_flow x)") (auto simp: out_vless_entries_def Let_def look_set_if OutVless_ok_def)
  have seed: "(if four_or_more (wire (look (out_vless_entries x) ''testseed'')) then wire (look (out_vless_entries x) ''testseed'')
      else out_default_testseed) = ovl_testseed x"
    using ok by (cases "truthy (ovl_flow x)")
      (auto simp: out_vless_entries_def Let_def look_set_if OutVless_ok_def field_ok_def four_or_more_def)
  have n: "dflt (wire (OutVless_toJson x)) (JObj []) = wire (OutVless_toJson x)"
    by (simp add: OutVless_toJson_def)
  have f: "wire (ovl_address x) = ovl_address x" "wire (ovl_port x) = ovl_port x" "wire (ovl_id x) = ovl_id x"
    "wire (ovl_flow x) = ovl_flow x" "wire (ovl_encryption x) = ovl_encryption x" "\<not> isEmpty (ovl_address x)"
    "\<not> isEmpty (ovl_port x)"
    using ok by (auto simp: OutVless_ok_def)
  have t: "dflt (ovl_testpre x) (jint 0) = ovl_testpre x" "dflt (ovl_testseed x) out_default_testseed = ovl_testseed x"
    by (simp_all add: pre [symmetric] seed [symmetric] js_or_def out_default_testseed_def)
       (auto simp: dflt_def four_or_more_def)
  show ?thesis
    by (simp only: OutVless_fromJson_def n Let_def get bind.bind_lunit l pre seed f simp_thms if_False new_OutVless_def t) simp
qed

interpretation ovl_codec: json_codec "\<lambda>x. Some (OutVless_toJson x)" OutVless_fromJson OutVless_ok
  by (rule json_codecI) (simp add: OutVless_roundtrip, simp add: OutVless_toJson_def)

section \<open>TrojanSettings\<close>

record OutTrojan =
  otr_address :: jsv
  otr_port :: jsv
  otr_password :: jsv

definition new_OutTrojan :: "jsv \<Rightarrow> jsv \<Rightarrow> jsv \<Rightarrow> OutTrojan" where
  "new_OutTrojan address port password =
     \<lparr>otr_address = address, otr_port = port, otr_password = password\<rparr>"

definition OutTrojan_fromJson :: "jsv \<Rightarrow> OutTrojan option" where
  "OutTrojan_fromJson json =
     (let json = dflt json (JObj []) in
      do { servers \<leftarrow> js_get json ''servers'';
           if isArrEmpty servers then Some (new_OutTrojan JUndef JUndef JUndef)
           else do { s \<leftarrow> js_index servers 0;
                     address \<leftarrow> js_get s ''address'';
                     port \<leftarrow> js_get s ''port'';
                     password \<leftarrow> js_get s ''password'';
                     Some (new_OutTrojan address port password) } })"

definition OutTrojan_toJson :: "OutTrojan \<Rightarrow> jsv" where
  "OutTrojan_toJson x =
     JObj [(''servers'', JArr [JObj [(''address'', otr_address x), (''port'', otr_port x),
       (''password'', otr_password x)]])]"

definition OutTrojan_ok :: "OutTrojan \<Rightarrow> bool" where
  "OutTrojan_ok x \<longleftrightarrow> opt_field_ok (otr_address x) \<and> opt_field_ok (otr_port x) \<and> opt_field_ok (otr_password x)"

lemma OutTrojan_roundtrip: "OutTrojan_ok x \<Longrightarrow> OutTrojan_fromJson (wire (OutTrojan_toJson x)) = Some x"
  by (simp add: OutTrojan_ok_def OutTrojan_toJson_def OutTrojan_fromJson_def new_OutTrojan_def js_get_wire opt_field_ok_def)

interpretation otr_codec: json_codec "\<lambda>x. Some (OutTrojan_toJson x)" OutTrojan_fromJson OutTrojan_ok
  by (rule json_codecI) (simp add: OutTrojan_roundtrip, simp add: OutTrojan_toJson_def)

section \<open>ShadowsocksSettings\<close>

record OutShadowsocks =
  oss_address :: jsv
  oss_port :: jsv
  oss_password :: jsv
  oss_method :: jsv
  oss_uot :: jsv
  oss_UoTVersion :: jsv

definition new_OutShadowsocks :: "jsv \<Rightarrow> jsv \<Rightarrow> jsv \<Rightarrow> jsv \<Rightarrow> jsv \<Rightarrow> jsv \<Rightarrow> OutShadowsocks" where
  "new_OutShadowsocks address port password m uot UoTVersion =
     \<lparr>oss_address = address, oss_port = port, oss_password = password, oss_method = m, oss_uot = uot,
      oss_UoTVersion = UoTVersion\<rparr>"

definition OutShadowsocks_fromJson :: "jsv \<Rightarrow> OutShadowsocks option" where
  "OutShadowsocks_fromJson json =
     (let json = dflt json (JObj []) in
      do { servers \<leftarrow> js_get json ''servers'';
           s \<leftarrow> js_index (if isArrEmpty servers then JArr [JObj []] else servers) 0;
           address \<leftarrow> js_get s ''address'';
           port \<leftarrow> js_get s ''port'';
           password \<leftarrow> js_get s ''password'';
           m \<leftarrow> js_get s ''method'';
           uot \<leftarrow> js_get s ''uot'';
           UoTVersion \<leftarrow> js_get s ''UoTVersion'';
           Some (new_OutShadowsocks address port password m uot UoTVersion) })"

definition OutShadowsocks_toJson :: "OutShadowsocks \<Rightarrow> jsv" where
  "OutShadowsocks_toJson x =
     JObj [(''servers'', JArr [JObj [(''address'', oss_address x), (''port'', oss_port x),
       (''password'', oss_password x), (''method'', oss_method x), (''uot'', oss_uot x),
       (''UoTVersion'', oss_UoTVersion x)]])]"

definition OutShadowsocks_ok :: "OutShadowsocks \<Rightarrow> bool" where
  "OutShadowsocks_ok x \<longleftrightarrow> opt_field_ok (oss_address x) \<and> opt_field_ok (oss_port x) \<and> opt_field_ok (oss_password x) \<and>
     opt_field_ok (oss_method x) \<and> opt_field_ok (oss_uot x) \<and> opt_field_ok (oss_UoTVersion x)"

lemma OutShadowsocks_roundtrip:
  "OutShadowsocks_ok x \<Longrightarrow> OutShadowsocks_fromJson (wire (OutShadowsocks_toJson x)) = Some x"
  by (simp add: OutShadowsocks_ok_def OutShadowsocks_toJson_def OutShadowsocks_fromJson_def new_OutShadowsocks_def
      js_get_wire opt_field_ok_def)

interpretation oss_codec: json_codec "\<lambda>x. Some (OutShadowsocks_toJson x)" OutShadowsocks_fromJson OutShadowsocks_ok
  by (rule json_codecI) (simp add: OutShadowsocks_roundtrip, simp add: OutShadowsocks_toJson_def)

section \<open>SocksSettings and HttpSettings\<close>

text \<open>The two classes have the same fields and the same code.\<close>

record OutAccount =
  oa_address :: jsv
  oa_port :: jsv
  oa_user :: jsv
  oa_pass :: jsv

definition new_OutAccount :: "jsv \<Rightarrow> jsv \<Rightarrow> jsv \<Rightarrow> jsv \<Rightarrow> OutAccount" where
  "new_OutAccount address port user pass =
     \<lparr>oa_address = address, oa_port = port, oa_user = user, oa_pass = pass\<rparr>"

text \<open>\<open>isArrEmpty(s.users) ? '' : s.users[0].<key>\<close>.\<close>

definition account_part :: "jsv \<Rightarrow> string \<Rightarrow> jsv option" where
  "account_part s k =
     do { users \<leftarrow> js_get s ''users'';
          if isArrEmpty users then Some (JStr '''')
          else do { u \<leftarrow> js_index users 0; js_get u k } }"

definition OutAccount_fromJson :: "jsv \<Rightarrow> OutAccount option" where
  "OutAccount_fromJson json =
     (let json = dflt json (JObj []) in
      do { servers \<leftarrow> js_get json ''servers'';
           s \<leftarrow> js_index (if isArrEmpty servers then JArr [JObj [(''users'', JArr [JObj []])]] else servers) 0;
           address \<leftarrow> js_get s ''address'';
           port \<leftarrow> js_get s ''port'';
           user \<leftarrow> account_part s ''user'';
           pass \<leftarrow> account_part s ''pass'';
           Some (new_OutAccount address port user pass) })"

definition OutAccount_toJson :: "OutAccount \<Rightarrow> jsv" where
  "OutAccount_toJson x =
     JObj [(''servers'', JArr [JObj [(''address'', oa_address x), (''port'', oa_port x),
       (''users'', JArr (if isEmpty (oa_user x) then []
                         else [JObj [(''user'', oa_user x), (''pass'', oa_pass x)]]))]])]"

text \<open>A password without a user name is not sent.\<close>

definition OutAccount_ok :: "OutAccount \<Rightarrow> bool" where
  "OutAccount_ok x \<longleftrightarrow> opt_field_ok (oa_address x) \<and> opt_field_ok (oa_port x) \<and>
     (if isEmpty (oa_user x) then oa_user x = JStr '''' \<and> oa_pass x = JStr ''''
      else opt_field_ok (oa_user x) \<and> opt_field_ok (oa_pass x))"

lemma OutAccount_roundtrip: "OutAccount_ok x \<Longrightarrow> OutAccount_fromJson (wire (OutAccount_toJson x)) = Some x"
  by (cases "isEmpty (oa_user x)")
     (simp_all add: OutAccount_ok_def OutAccount_toJson_def OutAccount_fromJson_def account_part_def new_OutAccount_def
       js_get_wire opt_field_ok_def)

interpretation oa_codec: json_codec "\<lambda>x. Some (OutAccount_toJson x)" OutAccount_fromJson OutAccount_ok
  by (rule json_codecI) (simp add: OutAccount_roundtrip, simp add: OutAccount_toJson_def)

section \<open>HysteriaSettings\<close>

record OutHysteriaSettings =
  ohs_address :: jsv
  ohs_port :: jsv
  ohs_version :: jsv

definition new_OutHysteriaSettings :: "jsv \<Rightarrow> jsv \<Rightarrow> jsv \<Rightarrow> OutHysteriaSettings" where
  "new_OutHysteriaSettings address port version =
     \<lparr>ohs_address = dflt address (JStr ''''), ohs_port = dflt port (jint 443), ohs_version = dflt version (jint 2)\<rparr>"

definition OutHysteriaSettings_fromJson :: "jsv \<Rightarrow> OutHysteriaSettings option" where
  "OutHysteriaSettings_fromJson json =
     (let json = dflt json (JObj []) in
      do { ks \<leftarrow> object_keys json;
           if ks = [] then Some (new_OutHysteriaSettings JUndef JUndef JUndef)
           else do { address \<leftarrow> js_get json ''address'';
                     port \<leftarrow> js_get json ''port'';
                     version \<leftarrow> js_get json ''version'';
                     Some (new_OutHysteriaSettings address port version) } })"

definition OutHysteriaSettings_toJson :: "OutHysteriaSettings \<Rightarrow> jsv" where
  "OutHysteriaSettings_toJson x =
     JObj [(''address'', ohs_address x), (''port'', ohs_port x), (''version'', ohs_version x)]"

definition OutHysteriaSettings_ok :: "OutHysteriaSettings \<Rightarrow> bool" where
  "OutHysteriaSettings_ok x \<longleftrightarrow> field_ok (ohs_address x) \<and> field_ok (ohs_port x) \<and> field_ok (ohs_version x)"

lemma OutHysteriaSettings_roundtrip:
  "OutHysteriaSettings_ok x \<Longrightarrow> OutHysteriaSettings_fromJson (wire (OutHysteriaSettings_toJson x)) = Some x"
  by (simp add: OutHysteriaSettings_ok_def OutHysteriaSettings_toJson_def OutHysteriaSettings_fromJson_def
      new_OutHysteriaSettings_def js_get_wire object_keys_wire field_ok_def)

interpretation ohs_codec: json_codec "\<lambda>x. Some (OutHysteriaSettings_toJson x)" OutHysteriaSettings_fromJson
    OutHysteriaSettings_ok
  by (rule json_codecI) (simp add: OutHysteriaSettings_roundtrip, simp add: OutHysteriaSettings_toJson_def)

section \<open>A missing list of servers\<close>

text \<open>\<open>isArrEmpty\<close> holds of empty arrays only, so an object without the list is indexed as if it had one.\<close>

lemma no_servers_throws:
  "OutVmess_fromJson (JObj []) = None" "OutTrojan_fromJson (JObj []) = None"
  "OutShadowsocks_fromJson (JObj []) = None" "OutAccount_fromJson (JObj []) = None"
  by (simp_all add: OutVmess_fromJson_def OutTrojan_fromJson_def OutShadowsocks_fromJson_def OutAccount_fromJson_def)

end
