(* ===== verification/OutSettings.thy ===== *)
theory OutSettings
  imports OutProxy InWg
begin

text \<open>
  The settings of the outbounds that are not proxies to a server list (web/assets/js/model/outbound.js): Freedom,
  Blackhole and WireGuard, and the choice of the class by the protocol, with its round trip.
\<close>

section \<open>FreedomSettings.Noise\<close>

record Noise =
  ns_type :: jsv
  ns_packet :: jsv
  ns_delay :: jsv
  ns_applyTo :: jsv

definition new_Noise ::
  "jsv \<Rightarrow> jsv \<Rightarrow> jsv \<Rightarrow> jsv \<Rightarrow> Noise" where
  "new_Noise
     type_v packet delay applyTo =
     \<lparr>ns_type = dflt type_v (JStr ''rand''),
       ns_packet = dflt packet (JStr ''10-20''),
       ns_delay = dflt delay (JStr ''10-16''),
       ns_applyTo = dflt applyTo (JStr ''ip'')\<rparr>"

definition default_Noise :: Noise where
  "default_Noise =
     new_Noise JUndef JUndef JUndef JUndef"

definition Noise_fromJson :: "jsv \<Rightarrow> Noise option" where
  "Noise_fromJson json =
     (let json = dflt json (JObj []) in
      do { type_v \<leftarrow> js_get json ''type'';
           packet \<leftarrow> js_get json ''packet'';
           delay \<leftarrow> js_get json ''delay'';
           applyTo \<leftarrow> js_get json ''applyTo'';
           Some (new_Noise type_v packet delay applyTo) })"

definition Noise_toJson :: "Noise \<Rightarrow> jsv" where
  "Noise_toJson x = JObj
       [(''type'', ns_type x),
        (''packet'', ns_packet x),
        (''delay'', ns_delay x),
        (''applyTo'', ns_applyTo x)]"

definition Noise_ok :: "Noise \<Rightarrow> bool" where
  "Noise_ok x \<longleftrightarrow>
     field_ok (ns_type x) \<and>
     field_ok (ns_packet x) \<and>
     field_ok (ns_delay x) \<and>
     field_ok (ns_applyTo x)"

lemma Noise_roundtrip: "Noise_ok x \<Longrightarrow> Noise_fromJson (wire (Noise_toJson x)) = Some x"
  by (simp add: Noise_ok_def Noise_toJson_def Noise_fromJson_def new_Noise_def js_get_wire
      field_ok_def opt_new_def)

interpretation ns_codec: json_codec "\<lambda>x. Some (Noise_toJson x)" Noise_fromJson Noise_ok
  by (rule json_codecI) (simp add: Noise_roundtrip, simp add: Noise_toJson_def)

section \<open>FreedomSettings\<close>

text \<open>A fragment has four own properties and no \<open>toJson\<close>: it is sent as the object it is.\<close>

definition new_Fragment :: "jsv \<Rightarrow> jsv \<Rightarrow> jsv \<Rightarrow> jsv \<Rightarrow> jsv" where
  "new_Fragment packets len interval maxSplit =
     JObj [(''packets'', dflt packets (JStr ''1-3'')), (''length'', dflt len (JStr '''')),
           (''interval'', dflt interval (JStr '''')), (''maxSplit'', dflt maxSplit (JStr ''''))]"

definition Fragment_fromJson :: "jsv \<Rightarrow> jsv option" where
  "Fragment_fromJson json =
     (let json = dflt json (JObj []) in
      do { packets \<leftarrow> js_get json ''packets'';
           len \<leftarrow> js_get json ''length'';
           interval \<leftarrow> js_get json ''interval'';
           maxSplit \<leftarrow> js_get json ''maxSplit'';
           Some (new_Fragment packets len interval maxSplit) })"

record FreedomSettings =
  fr_domainStrategy :: jsv
  fr_redirect :: jsv
  fr_fragment :: jsv
  fr_noises :: "Noise list"
  fr_ipsBlocked :: jsv

definition new_FreedomSettings :: "jsv \<Rightarrow> jsv \<Rightarrow> jsv \<Rightarrow> Noise list option \<Rightarrow> jsv \<Rightarrow> FreedomSettings" where
  "new_FreedomSettings domainStrategy redirect fragment noises ipsBlocked =
     \<lparr>fr_domainStrategy = dflt domainStrategy (JStr ''''), fr_redirect = dflt redirect (JStr ''''),
      fr_fragment = js_or fragment (JObj []), fr_noises = opt_new noises [],
      fr_ipsBlocked = array_or_empty ipsBlocked\<rparr>"

definition default_FreedomSettings :: FreedomSettings where
  "default_FreedomSettings = new_FreedomSettings JUndef JUndef JUndef None JUndef"

definition fr_addNoise :: "FreedomSettings \<Rightarrow> FreedomSettings" where
  "fr_addNoise x = x\<lparr>fr_noises := fr_noises x @ [default_Noise]\<rparr>"

definition fr_delNoise :: "nat \<Rightarrow> FreedomSettings \<Rightarrow> FreedomSettings" where
  "fr_delNoise index x = x\<lparr>fr_noises := splice1 index (fr_noises x)\<rparr>"

definition FreedomSettings_fromJson :: "jsv \<Rightarrow> FreedomSettings option" where
  "FreedomSettings_fromJson json =
     (let json = dflt json (JObj []) in
      do { domainStrategy \<leftarrow> js_get json ''domainStrategy'';
           redirect \<leftarrow> js_get json ''redirect'';
           v_fragment \<leftarrow> js_get json ''fragment'';
           fragment \<leftarrow> (if truthy v_fragment then Fragment_fromJson v_fragment else Some (JObj []));
           v_noises \<leftarrow> js_get json ''noises'';
           noises \<leftarrow> (if truthy v_noises then js_map Noise_fromJson v_noises else Some []);
           ipsBlocked \<leftarrow> js_get json ''ipsBlocked'';
           Some (new_FreedomSettings domainStrategy redirect fragment (Some noises) (js_or ipsBlocked (JArr []))) })"

definition FreedomSettings_toJson :: "FreedomSettings \<Rightarrow> jsv option" where
  "FreedomSettings_toJson x =
     do { fragment_keys \<leftarrow> object_keys (fr_fragment x);
          blocked \<leftarrow> js_get (fr_ipsBlocked x) ''length'';
          noises \<leftarrow> toJsonArray (\<lambda>n. Some (Noise_toJson n)) (fr_noises x);
          Some (JObj
            [(''domainStrategy'', opt_val (\<not> isEmpty (fr_domainStrategy x)) (fr_domainStrategy x)),
             (''redirect'', opt_val (\<not> isEmpty (fr_redirect x)) (fr_redirect x)),
             (''fragment'', opt_val (fragment_keys \<noteq> []) (fr_fragment x)),
             (''noises'', opt_val (fr_noises x \<noteq> []) noises),
             (''ipsBlocked'', opt_val (blocked \<noteq> jint 0) (fr_ipsBlocked x))]) }"

text \<open>The fragment is off, the empty object, or has its four parts.\<close>

definition fragment_ok :: "jsv \<Rightarrow> bool" where
  "fragment_ok v \<longleftrightarrow> v = JObj [] \<or> (json_val v \<and> Fragment_fromJson v = Some v)"

definition FreedomSettings_ok :: "FreedomSettings \<Rightarrow> bool" where
  "FreedomSettings_ok x \<longleftrightarrow>
     (if isEmpty (fr_domainStrategy x) then fr_domainStrategy x = JStr '''' else field_ok (fr_domainStrategy x)) \<and>
     (if isEmpty (fr_redirect x) then fr_redirect x = JStr '''' else field_ok (fr_redirect x)) \<and>
     fragment_ok (fr_fragment x) \<and> list_all Noise_ok (fr_noises x) \<and>
     is_array (fr_ipsBlocked x) \<and> json_val (fr_ipsBlocked x)"

lemma text_or_empty:
  "(if isEmpty v then v = JStr '''' else field_ok v) \<Longrightarrow> dflt (wire (opt_val (\<not> isEmpty v) v)) (JStr '''') = v"
  by (auto simp: field_ok_def dflt_def split: if_splits)

lemma fragment_again:
  assumes "fragment_ok v"
  shows "\<exists>ks. object_keys v = Some ks \<and> js_or v (JObj []) = v \<and>
    (if truthy (wire (opt_val (ks \<noteq> []) v)) then Fragment_fromJson (wire (opt_val (ks \<noteq> []) v)) else Some (JObj [])) = Some v"
proof (cases "v = JObj []")
  case True
  then show ?thesis by (simp add: object_keys_def)
next
  case False
  with assms have j: "json_val v" "Fragment_fromJson v = Some v" by (auto simp: fragment_ok_def)
  then obtain kvs where "v = JObj kvs" "kvs \<noteq> []"
    by (auto simp: Fragment_fromJson_def Let_def new_Fragment_def split: bind_splits)
  with j show ?thesis by (cases kvs) (auto simp: object_keys_def simp del: json_val.simps wire.simps)
qed

lemma array_length_zero: "js_get (JArr vs) ''length'' = Some (jint 0) \<longleftrightarrow> vs = []"
  by simp

lemma FreedomSettings_roundtrip:
  assumes ok: "FreedomSettings_ok x"
  shows "\<exists>v. FreedomSettings_toJson x = Some v \<and> v \<noteq> JUndef \<and> FreedomSettings_fromJson (wire v) = Some x"
proof -
  obtain ks where ks: "object_keys (fr_fragment x) = Some ks" "js_or (fr_fragment x) (JObj []) = fr_fragment x"
    "(if truthy (wire (opt_val (ks \<noteq> []) (fr_fragment x))) then Fragment_fromJson (wire (opt_val (ks \<noteq> []) (fr_fragment x)))
      else Some (JObj [])) = Some (fr_fragment x)"
    using fragment_again ok by (auto simp: FreedomSettings_ok_def)
  obtain ns where ns: "toJsonArray (\<lambda>n. Some (Noise_toJson n)) (fr_noises x) = Some ns" "ns \<noteq> JUndef" "is_array ns"
    "js_map Noise_fromJson (wire ns) = Some (fr_noises x)"
    using ns_codec.array_roundtrip [of "fr_noises x"] ok by (auto simp: FreedomSettings_ok_def)
  have noises: "(if truthy (wire (opt_val (fr_noises x \<noteq> []) ns)) then js_map Noise_fromJson (wire (opt_val (fr_noises x \<noteq> []) ns))
      else Some []) = Some (fr_noises x)"
    using ns by (cases "fr_noises x = []"; cases ns) auto
  obtain vs where vs: "fr_ipsBlocked x = JArr vs" "json_val (JArr vs)"
    using ok by (cases "fr_ipsBlocked x") (auto simp: FreedomSettings_ok_def)
  have blocked: "array_or_empty (js_or (wire (opt_val (vs \<noteq> []) (JArr vs))) (JArr [])) = JArr vs"
    using json_val_wire [OF vs(2)] by (cases "vs = []") (simp, simp del: wire.simps json_val.simps)
  have n: "js_get (JArr vs) ''length'' = Some (jint (int (length vs)))" "jint (int (length vs)) \<noteq> jint 0 \<longleftrightarrow> vs \<noteq> []"
    by simp_all
  let ?o = "[(''domainStrategy'', opt_val (\<not> isEmpty (fr_domainStrategy x)) (fr_domainStrategy x)),
     (''redirect'', opt_val (\<not> isEmpty (fr_redirect x)) (fr_redirect x)),
     (''fragment'', opt_val (ks \<noteq> []) (fr_fragment x)), (''noises'', opt_val (fr_noises x \<noteq> []) ns),
     (''ipsBlocked'', opt_val (vs \<noteq> []) (JArr vs))]"
  have enc: "FreedomSettings_toJson x = Some (JObj ?o)"
    by (simp only: FreedomSettings_toJson_def ks(1) ns(1) n bind.bind_lunit vs(1))
  have d: "distinct (keys ?o)" by simp
  have g: "js_get (wire (JObj ?o)) k = Some (wire (look ?o k))" for k by (rule js_get_wire [OF d])
  have l: "look ?o ''domainStrategy'' = opt_val (\<not> isEmpty (fr_domainStrategy x)) (fr_domainStrategy x)"
    "look ?o ''redirect'' = opt_val (\<not> isEmpty (fr_redirect x)) (fr_redirect x)"
    "look ?o ''fragment'' = opt_val (ks \<noteq> []) (fr_fragment x)" "look ?o ''noises'' = opt_val (fr_noises x \<noteq> []) ns"
    "look ?o ''ipsBlocked'' = opt_val (vs \<noteq> []) (JArr vs)"
    by simp_all
  have j: "dflt (wire (JObj ?o)) (JObj []) = wire (JObj ?o)" by simp
  have t: "dflt (wire (opt_val (\<not> isEmpty (fr_domainStrategy x)) (fr_domainStrategy x))) (JStr '''') = fr_domainStrategy x"
    "dflt (wire (opt_val (\<not> isEmpty (fr_redirect x)) (fr_redirect x))) (JStr '''') = fr_redirect x"
    by (rule text_or_empty, use ok FreedomSettings_ok_def in blast)+
  have "FreedomSettings_fromJson (wire (JObj ?o)) = Some x"
    unfolding FreedomSettings_fromJson_def Let_def j g l
    by (simp only: bind.bind_lunit ks(3) noises new_FreedomSettings_def t ks(2) blocked opt_new_simps) (simp add: vs(1) [symmetric])
  with enc show ?thesis by simp
qed

interpretation fr_codec: json_codec FreedomSettings_toJson FreedomSettings_fromJson FreedomSettings_ok
  using FreedomSettings_roundtrip by unfold_locales force+

section \<open>BlackholeSettings\<close>

record BlackholeSettings =
  bh_type :: jsv

definition new_BlackholeSettings :: "jsv \<Rightarrow> BlackholeSettings" where
  "new_BlackholeSettings type_v = \<lparr>bh_type = type_v\<rparr>"

definition BlackholeSettings_fromJson :: "jsv \<Rightarrow> BlackholeSettings option" where
  "BlackholeSettings_fromJson json =
     (let json = dflt json (JObj []) in
      do { response \<leftarrow> js_get json ''response'';
           type_v \<leftarrow> (if truthy response then js_get response ''type'' else Some JUndef);
           Some (new_BlackholeSettings type_v) })"

definition BlackholeSettings_toJson :: "BlackholeSettings \<Rightarrow> jsv" where
  "BlackholeSettings_toJson x =
     JObj [(''response'', opt_val (\<not> isEmpty (bh_type x)) (JObj [(''type'', bh_type x)]))]"

definition BlackholeSettings_ok :: "BlackholeSettings \<Rightarrow> bool" where
  "BlackholeSettings_ok x \<longleftrightarrow> bh_type x = JUndef \<or> (\<not> isEmpty (bh_type x) \<and> field_ok (bh_type x))"

lemma BlackholeSettings_roundtrip:
  "BlackholeSettings_ok x \<Longrightarrow> BlackholeSettings_fromJson (wire (BlackholeSettings_toJson x)) = Some x"
  by (cases "isEmpty (bh_type x)")
     (auto simp: BlackholeSettings_ok_def BlackholeSettings_fromJson_def BlackholeSettings_toJson_def
       new_BlackholeSettings_def js_get_wire field_ok_def isEmpty_def)

interpretation bh_codec: json_codec "\<lambda>x. Some (BlackholeSettings_toJson x)" BlackholeSettings_fromJson BlackholeSettings_ok
  by (rule json_codecI) (simp add: BlackholeSettings_roundtrip, simp add: BlackholeSettings_toJson_def)

section \<open>WireguardSettings.Peer\<close>

record OutPeer =
  opr_publicKey :: jsv
  opr_psk :: jsv
  opr_allowedIPs :: jsv
  opr_endpoint :: jsv
  opr_keepAlive :: jsv

definition new_OutPeer :: "jsv \<Rightarrow> jsv \<Rightarrow> jsv \<Rightarrow> jsv \<Rightarrow> jsv \<Rightarrow> OutPeer" where
  "new_OutPeer publicKey psk allowedIPs endpoint keepAlive =
     \<lparr>opr_publicKey = dflt publicKey (JStr ''''), opr_psk = dflt psk (JStr ''''),
      opr_allowedIPs = dflt allowedIPs (JArr [JStr ''0.0.0.0/0'', JStr ''::/0'']),
      opr_endpoint = dflt endpoint (JStr ''''), opr_keepAlive = dflt keepAlive (jint 0)\<rparr>"

definition default_OutPeer :: OutPeer where
  "default_OutPeer = new_OutPeer JUndef JUndef JUndef JUndef JUndef"

definition OutPeer_fromJson :: "jsv \<Rightarrow> OutPeer option" where
  "OutPeer_fromJson json =
     (let json = dflt json (JObj []) in
      do { publicKey \<leftarrow> js_get json ''publicKey'';
           psk \<leftarrow> js_get json ''preSharedKey'';
           allowedIPs \<leftarrow> js_get json ''allowedIPs'';
           endpoint \<leftarrow> js_get json ''endpoint'';
           keepAlive \<leftarrow> js_get json ''keepAlive'';
           Some (new_OutPeer publicKey psk allowedIPs endpoint keepAlive) })"

definition OutPeer_toJson :: "OutPeer \<Rightarrow> jsv option" where
  "OutPeer_toJson x =
     do { len \<leftarrow> js_get (opr_psk x) ''length'';
          Some (JObj
            [(''publicKey'', opr_publicKey x),
             (''preSharedKey'', opt_val (js_gt len (jint 0)) (opr_psk x)),
             (''allowedIPs'', opt_val (truthy (opr_allowedIPs x)) (opr_allowedIPs x)),
             (''endpoint'', opr_endpoint x),
             (''keepAlive'', nullish (opr_keepAlive x) JUndef)]) }"

definition OutPeer_ok :: "OutPeer \<Rightarrow> bool" where
  "OutPeer_ok x \<longleftrightarrow> field_ok (opr_publicKey x) \<and> is_string (opr_psk x) \<and>
     truthy (opr_allowedIPs x) \<and> field_ok (opr_allowedIPs x) \<and> field_ok (opr_endpoint x) \<and>
     opr_keepAlive x \<noteq> JNull \<and> field_ok (opr_keepAlive x)"

lemma text_length: "is_string v \<Longrightarrow> \<exists>len. js_get v ''length'' = Some len \<and> dflt (wire (opt_val (js_gt len (jint 0)) v)) (JStr '''') = v"
  by (cases v) (auto simp: opt_val_def)

lemma OutPeer_roundtrip:
  assumes "OutPeer_ok x"
  shows "\<exists>v. OutPeer_toJson x = Some v \<and> v \<noteq> JUndef \<and> OutPeer_fromJson (wire v) = Some x"
proof -
  obtain len where "js_get (opr_psk x) ''length'' = Some len"
    "dflt (wire (opt_val (js_gt len (jint 0)) (opr_psk x))) (JStr '''') = opr_psk x"
    using text_length assms by (auto simp: OutPeer_ok_def)
  then show ?thesis
    using assms by (simp add: OutPeer_ok_def OutPeer_toJson_def OutPeer_fromJson_def new_OutPeer_def js_get_wire field_ok_def
        nullish_def)
qed

interpretation opr_codec: json_codec OutPeer_toJson OutPeer_fromJson OutPeer_ok
  using OutPeer_roundtrip by unfold_locales force+

section \<open>WireguardSettings\<close>

record OutWireguard =
  owg_mtu :: jsv
  owg_secretKey :: jsv
  owg_pubKey :: jsv
  owg_address :: jsv
  owg_workers :: jsv
  owg_domainStrategy :: jsv
  owg_reserved :: jsv
  owg_peers :: "OutPeer list"
  owg_noKernelTun :: jsv

definition WireguardDomainStrategy :: "string list" where
  "WireguardDomainStrategy = [''ForceIP'', ''ForceIPv4'', ''ForceIPv4v6'', ''ForceIPv6'', ''ForceIPv6v4'']"

text \<open>\<open>Array.isArray(v) ? v.join(',') : v\<close>.\<close>

definition joined :: "jsv \<Rightarrow> jsv" where
  "joined v = (case js_join '','' v of Some s \<Rightarrow> s | None \<Rightarrow> v)"

definition new_OutWireguard ::
  "jsv \<Rightarrow> jsv \<Rightarrow> jsv \<Rightarrow> jsv \<Rightarrow> jsv \<Rightarrow> jsv \<Rightarrow> OutPeer list option \<Rightarrow> jsv \<Rightarrow> OutWireguard option" where
  "new_OutWireguard mtu secretKey address workers domainStrategy reserved peers noKernelTun =
     (let secretKey = dflt secretKey (JStr '''') in
      do { pubKey \<leftarrow> public_key_of secretKey;
           Some \<lparr>owg_mtu = dflt mtu (jint 1420), owg_secretKey = secretKey, owg_pubKey = pubKey,
                 owg_address = joined (dflt address (JArr [JStr ''''])), owg_workers = dflt workers (jint 2),
                 owg_domainStrategy = dflt domainStrategy (JStr ''''), owg_reserved = joined (dflt reserved (JStr '''')),
                 owg_peers = opt_new peers [default_OutPeer], owg_noKernelTun = dflt noKernelTun (JBool False)\<rparr> })"

definition owg_addPeer :: "OutWireguard \<Rightarrow> OutWireguard" where
  "owg_addPeer x = x\<lparr>owg_peers := owg_peers x @ [default_OutPeer]\<rparr>"

definition owg_delPeer :: "nat \<Rightarrow> OutWireguard \<Rightarrow> OutWireguard" where
  "owg_delPeer index x = x\<lparr>owg_peers := splice1 index (owg_peers x)\<rparr>"

definition OutWireguard_fromJson :: "jsv \<Rightarrow> OutWireguard option" where
  "OutWireguard_fromJson json =
     (let json = dflt json (JObj []) in
      do { mtu \<leftarrow> js_get json ''mtu'';
           secretKey \<leftarrow> js_get json ''secretKey'';
           address \<leftarrow> js_get json ''address'';
           workers \<leftarrow> js_get json ''workers'';
           domainStrategy \<leftarrow> js_get json ''domainStrategy'';
           reserved \<leftarrow> js_get json ''reserved'';
           v_peers \<leftarrow> js_get json ''peers'';
           peers \<leftarrow> js_map OutPeer_fromJson v_peers;
           noKernelTun \<leftarrow> js_get json ''noKernelTun'';
           new_OutWireguard mtu secretKey address workers domainStrategy reserved (Some peers) noKernelTun })"

text \<open>\<open>v.split(",")\<close> and \<open>v.split(",").map(Number)\<close>.\<close>

definition sent_address :: "jsv \<Rightarrow> jsv option" where
  "sent_address v = (if truthy v then js_split (CHR '','') v else Some (JArr []))"

fun sent_numbers :: "jsv \<Rightarrow> jsv option" where
  "sent_numbers (JArr vs) = Some (JArr (map (\<lambda>v. JNum (js_to_number v)) vs))"
| "sent_numbers _ = None"

definition sent_reserved :: "jsv \<Rightarrow> jsv option" where
  "sent_reserved v =
     (if truthy v then do { parts \<leftarrow> js_split (CHR '','') v; sent_numbers parts } else Some JUndef)"

definition OutWireguard_toJson :: "OutWireguard \<Rightarrow> jsv option" where
  "OutWireguard_toJson x =
     do { address \<leftarrow> sent_address (owg_address x);
          reserved \<leftarrow> sent_reserved (owg_reserved x);
          peers \<leftarrow> toJsonArray OutPeer_toJson (owg_peers x);
          Some (JObj
            [(''mtu'', nullish (owg_mtu x) JUndef),
             (''secretKey'', owg_secretKey x),
             (''address'', address),
             (''workers'', nullish (owg_workers x) JUndef),
             (''domainStrategy'',
                opt_val (one_of (owg_domainStrategy x) WireguardDomainStrategy) (owg_domainStrategy x)),
             (''reserved'', reserved),
             (''peers'', peers),
             (''noKernelTun'', owg_noKernelTun x)]) }"

subsection \<open>Round trip\<close>

text \<open>Texts that \<open>Number\<close> reads and JavaScript prints the same again, such as 12 and unlike 012.\<close>

definition numeral_text :: "string \<Rightarrow> bool" where
  "numeral_text p \<longleftrightarrow> (case str_to_number p of Fin q \<Rightarrow> show_rat q = p | _ \<Rightarrow> False)"

fun reserved_ok :: "jsv \<Rightarrow> bool" where
  "reserved_ok (JStr s) \<longleftrightarrow> s = '''' \<or> list_all numeral_text (split_on (CHR '','') s)"
| "reserved_ok _ \<longleftrightarrow> False"

definition OutWireguard_ok :: "OutWireguard \<Rightarrow> bool" where
  "OutWireguard_ok x \<longleftrightarrow>
     owg_mtu x \<noteq> JNull \<and> field_ok (owg_mtu x) \<and> is_string (owg_secretKey x) \<and>
     public_key_of (owg_secretKey x) = Some (owg_pubKey x) \<and> is_string (owg_address x) \<and>
     owg_workers x \<noteq> JNull \<and> field_ok (owg_workers x) \<and>
     (owg_domainStrategy x = JStr '''' \<or> one_of (owg_domainStrategy x) WireguardDomainStrategy) \<and>
     reserved_ok (owg_reserved x) \<and> list_all OutPeer_ok (owg_peers x) \<and> field_ok (owg_noKernelTun x)"

lemma address_again:
  assumes "is_string v"
  shows "\<exists>a. sent_address v = Some a \<and> joined (dflt (wire a) (JArr [JStr ''''])) = v"
proof -
  obtain s where v: "v = JStr s" using assms by (auto simp: is_string_iff)
  have "wire (JArr (map JStr (split_on (CHR '','') s))) = JArr (map JStr (split_on (CHR '','') s))"
    by (rule wire_strings)
  then show ?thesis
    by (cases "s = ''''") (auto simp: v sent_address_def joined_def join_split_strings simp del: wire.simps(6) js_join.simps,
        simp add: joined_def)
qed

lemma numbers_again:
  assumes "list_all numeral_text ps"
  shows "sent_numbers (JArr (map JStr ps)) = Some (JArr (map (\<lambda>p. JNum (str_to_number p)) ps)) \<and>
    joined (wire (JArr (map (\<lambda>p. JNum (str_to_number p)) ps))) = JStr (join '','' ps)"
  using assms
  by (auto simp: joined_def list_all_iff numeral_text_def split: jnum.splits
      intro!: arg_cong [where f = "join '',''"] map_idI)

lemma reserved_again:
  assumes "reserved_ok v"
  shows "\<exists>r. sent_reserved v = Some r \<and> joined (dflt (wire r) (JStr '''')) = v"
proof -
  obtain s where v: "v = JStr s" and s: "s = '''' \<or> list_all numeral_text (split_on (CHR '','') s)"
    using assms by (cases v) auto
  show ?thesis
  proof (cases "s = ''''")
    case True
    then show ?thesis by (simp add: v sent_reserved_def joined_def)
  next
    case False
    with s have "list_all numeral_text (split_on (CHR '','') s)" by blast
    from numbers_again [OF this] False show ?thesis
      by (simp add: v sent_reserved_def del: sent_numbers.simps wire.simps(6))
  qed
qed

lemma strategy_again:
  "v = JStr '''' \<or> one_of v WireguardDomainStrategy \<Longrightarrow>
   dflt (wire (opt_val (one_of v WireguardDomainStrategy) v)) (JStr '''') = v"
  by (auto simp: one_of_def opt_val_def)

lemma OutWireguard_roundtrip:
  assumes ok: "OutWireguard_ok x"
  shows "\<exists>v. OutWireguard_toJson x = Some v \<and> v \<noteq> JUndef \<and> OutWireguard_fromJson (wire v) = Some x"
proof -
  obtain a where a: "sent_address (owg_address x) = Some a" "joined (dflt (wire a) (JArr [JStr ''''])) = owg_address x"
    using address_again ok by (auto simp: OutWireguard_ok_def)
  obtain r where r: "sent_reserved (owg_reserved x) = Some r" "joined (dflt (wire r) (JStr '''')) = owg_reserved x"
    using reserved_again ok by (auto simp: OutWireguard_ok_def)
  obtain ps where ps: "toJsonArray OutPeer_toJson (owg_peers x) = Some ps" "js_map OutPeer_fromJson (wire ps) = Some (owg_peers x)"
    using opr_codec.array_roundtrip [of "owg_peers x"] ok by (auto simp: OutWireguard_ok_def)
  have k: "is_string (owg_secretKey x)" using ok by (simp only: OutWireguard_ok_def)
  have n: "owg_mtu x \<noteq> JNull" "owg_workers x \<noteq> JNull" "field_ok (owg_mtu x)" "field_ok (owg_workers x)"
    "field_ok (owg_noKernelTun x)"
    using ok by (simp_all only: OutWireguard_ok_def simp_thms)
  have p: "public_key_of (owg_secretKey x) = Some (owg_pubKey x)" using ok by (simp only: OutWireguard_ok_def)
  have s: "dflt (wire (opt_val (one_of (owg_domainStrategy x) WireguardDomainStrategy) (owg_domainStrategy x))) (JStr '''') = owg_domainStrategy x"
    by (rule strategy_again, use ok OutWireguard_ok_def in blast)
  have f: "public_key_of (owg_secretKey x) = Some (owg_pubKey x)" "wire (owg_mtu x) = owg_mtu x" "owg_mtu x \<noteq> JUndef"
    "wire (owg_secretKey x) = owg_secretKey x" "owg_secretKey x \<noteq> JUndef" "wire (owg_workers x) = owg_workers x"
    "owg_workers x \<noteq> JUndef" "wire (owg_noKernelTun x) = owg_noKernelTun x" "owg_noKernelTun x \<noteq> JUndef"
    "nullish (owg_mtu x) JUndef = owg_mtu x" "nullish (owg_workers x) JUndef = owg_workers x"
    using p n k by (auto simp: field_ok_def is_string_iff nullish_def)
  let ?o = "[(''mtu'', owg_mtu x), (''secretKey'', owg_secretKey x), (''address'', a), (''workers'', owg_workers x),
    (''domainStrategy'', opt_val (one_of (owg_domainStrategy x) WireguardDomainStrategy) (owg_domainStrategy x)),
    (''reserved'', r), (''peers'', ps), (''noKernelTun'', owg_noKernelTun x)]"
  have enc: "OutWireguard_toJson x = Some (JObj ?o)"
    by (simp only: OutWireguard_toJson_def a(1) r(1) ps(1) bind.bind_lunit f(10,11))
  have d: "distinct (keys ?o)" by simp
  have g: "js_get (wire (JObj ?o)) k = Some (wire (look ?o k))" for k by (rule js_get_wire [OF d])
  have l: "look ?o ''mtu'' = owg_mtu x" "look ?o ''secretKey'' = owg_secretKey x" "look ?o ''address'' = a"
    "look ?o ''workers'' = owg_workers x" "look ?o ''reserved'' = r" "look ?o ''peers'' = ps"
    "look ?o ''domainStrategy'' = opt_val (one_of (owg_domainStrategy x) WireguardDomainStrategy) (owg_domainStrategy x)"
    "look ?o ''noKernelTun'' = owg_noKernelTun x"
    by simp_all
  have j: "dflt (wire (JObj ?o)) (JObj []) = wire (JObj ?o)" by simp
  have t: "dflt (owg_mtu x) v = owg_mtu x" "dflt (owg_secretKey x) v = owg_secretKey x"
    "dflt (owg_workers x) v = owg_workers x" "dflt (owg_noKernelTun x) v = owg_noKernelTun x" for v
    using f by simp_all
  have "OutWireguard_fromJson (wire (JObj ?o)) = Some x"
    unfolding OutWireguard_fromJson_def Let_def j g l
    by (simp only: bind.bind_lunit ps(2) new_OutWireguard_def Let_def f(2,4,6,8) t f(1) a(2) r(2) s opt_new_simps) simp
  with enc show ?thesis by simp
qed

interpretation owg_codec: json_codec OutWireguard_toJson OutWireguard_fromJson OutWireguard_ok
  using OutWireguard_roundtrip by unfold_locales force+

end
