(* ===== verification/OutBound.thy ===== *)
theory OutBound
  imports OutSettings
begin

text \<open>
  The outbound itself (web/assets/js/model/outbound.js): its settings by protocol, what its form may enable, and its JSON.
  An outbound that the page accepts is kept by saving and loading, up to the parts that its
  protocol, network and security do not use.
\<close>

section \<open>Outbound.Settings\<close>

datatype osettings =
    OFreedom FreedomSettings
  | OBlackhole BlackholeSettings
  | ODns DNSSettings
  | OVmess OutVmess
  | OVless OutVless
  | OTrojan OutTrojan
  | OShadowsocks OutShadowsocks
  | OSocks OutAccount
  | OHttp OutAccount
  | OWireguard OutWireguard
  | OHysteria OutHysteriaSettings

text \<open>The inner None is null.\<close>

definition out_getSettings :: "jsv \<Rightarrow> osettings option option" where
  "out_getSettings protocol =
     (if protocol = JStr ''freedom'' then Some (Some (OFreedom default_FreedomSettings))
      else if protocol = JStr ''blackhole'' then Some (Some (OBlackhole (new_BlackholeSettings JUndef)))
      else if protocol = JStr ''dns'' then Some (Some (ODns default_DNSSettings))
      else if protocol = JStr ''vmess'' then Some (Some (OVmess (new_OutVmess JUndef JUndef JUndef JUndef)))
      else if protocol = JStr ''vless'' then Some (Some (OVless default_OutVless))
      else if protocol = JStr ''trojan'' then Some (Some (OTrojan (new_OutTrojan JUndef JUndef JUndef)))
      else if protocol = JStr ''shadowsocks''
        then Some (Some (OShadowsocks (new_OutShadowsocks JUndef JUndef JUndef JUndef JUndef JUndef)))
      else if protocol = JStr ''socks'' then Some (Some (OSocks (new_OutAccount JUndef JUndef JUndef JUndef)))
      else if protocol = JStr ''http'' then Some (Some (OHttp (new_OutAccount JUndef JUndef JUndef JUndef)))
      else if protocol = JStr ''wireguard''
        then map_option (Some \<circ> OWireguard) (new_OutWireguard JUndef JUndef JUndef JUndef JUndef JUndef None JUndef)
      else if protocol = JStr ''hysteria'' then Some (Some (OHysteria (new_OutHysteriaSettings JUndef JUndef JUndef)))
      else Some None)"

definition osettings_fromJson :: "jsv \<Rightarrow> jsv \<Rightarrow> osettings option option" where
  "osettings_fromJson protocol json =
     (if protocol = JStr ''freedom'' then map_option (Some \<circ> OFreedom) (FreedomSettings_fromJson json)
      else if protocol = JStr ''blackhole'' then map_option (Some \<circ> OBlackhole) (BlackholeSettings_fromJson json)
      else if protocol = JStr ''dns'' then map_option (Some \<circ> ODns) (DNSSettings_fromJson json)
      else if protocol = JStr ''vmess'' then map_option (map_option OVmess) (OutVmess_fromJson json)
      else if protocol = JStr ''vless'' then map_option (Some \<circ> OVless) (OutVless_fromJson json)
      else if protocol = JStr ''trojan'' then map_option (Some \<circ> OTrojan) (OutTrojan_fromJson json)
      else if protocol = JStr ''shadowsocks'' then map_option (Some \<circ> OShadowsocks) (OutShadowsocks_fromJson json)
      else if protocol = JStr ''socks'' then map_option (Some \<circ> OSocks) (OutAccount_fromJson json)
      else if protocol = JStr ''http'' then map_option (Some \<circ> OHttp) (OutAccount_fromJson json)
      else if protocol = JStr ''wireguard'' then map_option (Some \<circ> OWireguard) (OutWireguard_fromJson json)
      else if protocol = JStr ''hysteria'' then map_option (Some \<circ> OHysteria) (OutHysteriaSettings_fromJson json)
      else Some None)"

fun osettings_toJson :: "osettings \<Rightarrow> jsv option" where
  "osettings_toJson (OFreedom x) = FreedomSettings_toJson x"
| "osettings_toJson (OBlackhole x) = Some (BlackholeSettings_toJson x)"
| "osettings_toJson (ODns x) = DNSSettings_toJson x"
| "osettings_toJson (OVmess x) = Some (OutVmess_toJson x)"
| "osettings_toJson (OVless x) = Some (OutVless_toJson x)"
| "osettings_toJson (OTrojan x) = Some (OutTrojan_toJson x)"
| "osettings_toJson (OShadowsocks x) = Some (OutShadowsocks_toJson x)"
| "osettings_toJson (OSocks x) = Some (OutAccount_toJson x)"
| "osettings_toJson (OHttp x) = Some (OutAccount_toJson x)"
| "osettings_toJson (OWireguard x) = OutWireguard_toJson x"
| "osettings_toJson (OHysteria x) = Some (OutHysteriaSettings_toJson x)"

fun osettings_protocol :: "osettings \<Rightarrow> string" where
  "osettings_protocol (OFreedom _) = ''freedom''"
| "osettings_protocol (OBlackhole _) = ''blackhole''"
| "osettings_protocol (ODns _) = ''dns''"
| "osettings_protocol (OVmess _) = ''vmess''"
| "osettings_protocol (OVless _) = ''vless''"
| "osettings_protocol (OTrojan _) = ''trojan''"
| "osettings_protocol (OShadowsocks _) = ''shadowsocks''"
| "osettings_protocol (OSocks _) = ''socks''"
| "osettings_protocol (OHttp _) = ''http''"
| "osettings_protocol (OWireguard _) = ''wireguard''"
| "osettings_protocol (OHysteria _) = ''hysteria''"

text \<open>
  A rule that was loaded from what it saves; by the normal form of rules, every rule is one after
  it was saved once.
\<close>

definition DNSRule_ok :: "DNSRule \<Rightarrow> bool" where
  "DNSRule_ok r \<longleftrightarrow>
     (case DNSRule_toJson r of Some v \<Rightarrow> v \<noteq> JUndef \<and> DNSRule_fromJson (wire v) = Some r | None \<Rightarrow> False)"

interpretation dr_codec: json_codec DNSRule_toJson DNSRule_fromJson DNSRule_ok
  by unfold_locales (auto simp: DNSRule_ok_def split: option.splits)

definition DNSSettings_ok :: "DNSSettings \<Rightarrow> bool" where
  "DNSSettings_ok x \<longleftrightarrow> field_ok (dns_network x) \<and> field_ok (dns_address x) \<and> field_ok (dns_port x) \<and>
     list_all DNSRule_ok (dns_rules x)"

lemma DNSSettings_roundtrip:
  assumes ok: "DNSSettings_ok x"
  shows "\<exists>v. DNSSettings_toJson x = Some v \<and> v \<noteq> JUndef \<and> DNSSettings_fromJson (wire v) = Some x"
proof -
  obtain rs where rs: "toJsonArray DNSRule_toJson (dns_rules x) = Some rs" "rs \<noteq> JUndef" "is_array rs"
    "js_map DNSRule_fromJson (wire rs) = Some (dns_rules x)"
    using dr_codec.array_roundtrip [of "dns_rules x"] ok by (auto simp: DNSSettings_ok_def)
  have r: "dns_rules x \<noteq> [] \<Longrightarrow> wire rs \<noteq> JArr []"
    using rs(4) by auto
  have f: "wire (dns_network x) = dns_network x" "wire (dns_address x) = dns_address x" "wire (dns_port x) = dns_port x"
    "dns_network x \<noteq> JUndef" "dns_address x \<noteq> JUndef" "dns_port x \<noteq> JUndef"
    using ok by (auto simp: DNSSettings_ok_def field_ok_def)
  show ?thesis
    using rs r by (cases "dns_rules x = []")
      (simp_all add: DNSSettings_toJson_def DNSSettings_fromJson_def getDNSRulesFromJson_def new_DNSSettings_def js_get_wire f)
qed

interpretation dns_codec: json_codec DNSSettings_toJson DNSSettings_fromJson DNSSettings_ok
  using DNSSettings_roundtrip by unfold_locales force+

fun osettings_ok :: "osettings \<Rightarrow> bool" where
  "osettings_ok (OFreedom x) = FreedomSettings_ok x"
| "osettings_ok (OBlackhole x) = BlackholeSettings_ok x"
| "osettings_ok (ODns x) = DNSSettings_ok x"
| "osettings_ok (OVmess x) = OutVmess_ok x"
| "osettings_ok (OVless x) = OutVless_ok x"
| "osettings_ok (OTrojan x) = OutTrojan_ok x"
| "osettings_ok (OShadowsocks x) = OutShadowsocks_ok x"
| "osettings_ok (OSocks x) = OutAccount_ok x"
| "osettings_ok (OHttp x) = OutAccount_ok x"
| "osettings_ok (OWireguard x) = OutWireguard_ok x"
| "osettings_ok (OHysteria x) = OutHysteriaSettings_ok x"

lemma osettings_dispatch:
  "osettings_fromJson (JStr ''freedom'') json = map_option (Some \<circ> OFreedom) (FreedomSettings_fromJson json)"
  "osettings_fromJson (JStr ''blackhole'') json = map_option (Some \<circ> OBlackhole) (BlackholeSettings_fromJson json)"
  "osettings_fromJson (JStr ''dns'') json = map_option (Some \<circ> ODns) (DNSSettings_fromJson json)"
  "osettings_fromJson (JStr ''vmess'') json = map_option (map_option OVmess) (OutVmess_fromJson json)"
  "osettings_fromJson (JStr ''vless'') json = map_option (Some \<circ> OVless) (OutVless_fromJson json)"
  "osettings_fromJson (JStr ''trojan'') json = map_option (Some \<circ> OTrojan) (OutTrojan_fromJson json)"
  "osettings_fromJson (JStr ''shadowsocks'') json = map_option (Some \<circ> OShadowsocks) (OutShadowsocks_fromJson json)"
  "osettings_fromJson (JStr ''socks'') json = map_option (Some \<circ> OSocks) (OutAccount_fromJson json)"
  "osettings_fromJson (JStr ''http'') json = map_option (Some \<circ> OHttp) (OutAccount_fromJson json)"
  "osettings_fromJson (JStr ''wireguard'') json = map_option (Some \<circ> OWireguard) (OutWireguard_fromJson json)"
  "osettings_fromJson (JStr ''hysteria'') json = map_option (Some \<circ> OHysteria) (OutHysteriaSettings_fromJson json)"
  by (simp_all add: osettings_fromJson_def)

lemma osettings_saved:
  assumes "osettings_ok s"
  shows "\<exists>v. osettings_toJson s = Some v \<and> v \<noteq> JUndef \<and>
    osettings_fromJson (JStr (osettings_protocol s)) (wire v) = Some (Some s)"
proof (cases s)
  case (OVmess x)
  with assms OutVmess_roundtrip show ?thesis by (simp add: osettings_dispatch OutVmess_toJson_def)
qed (use assms fr_codec.saved bh_codec.saved dns_codec.saved ovl_codec.saved otr_codec.saved oss_codec.saved
      oa_codec.saved owg_codec.saved ohs_codec.saved in \<open>simp_all add: osettings_dispatch, metis+\<close>)

section \<open>Outbound\<close>

record Outbound =
  ob_tag :: jsv
  ob_protocol :: jsv
  ob_settings :: "osettings option"
  ob_stream :: OutStreamSettings
  ob_sendThrough :: jsv
  ob_mux :: OutMux

text \<open>Settings that are null or undefined are replaced by those of the protocol.\<close>

definition new_Outbound ::
  "jsv \<Rightarrow> jsv \<Rightarrow> osettings option \<Rightarrow> OutStreamSettings option \<Rightarrow> jsv \<Rightarrow> OutMux option \<Rightarrow> Outbound option" where
  "new_Outbound tag protocol settings stream sendThrough mux =
     (let protocol = dflt protocol (JStr ''vless'') in
      do { settings \<leftarrow> (case settings of None \<Rightarrow> out_getSettings protocol | Some s \<Rightarrow> Some (Some s));
           Some \<lparr>ob_tag = dflt tag (JStr ''''), ob_protocol = protocol, ob_settings = settings,
                 ob_stream = opt_new stream default_OutStreamSettings, ob_sendThrough = sendThrough,
                 ob_mux = opt_new mux default_OutMux\<rparr> })"

definition ob_set_protocol :: "jsv \<Rightarrow> Outbound \<Rightarrow> Outbound option" where
  "ob_set_protocol protocol x =
     do { settings \<leftarrow> out_getSettings protocol;
          Some (x\<lparr>ob_protocol := protocol, ob_settings := settings, ob_stream := default_OutStreamSettings\<rparr>) }"

definition ob_canEnableTls :: "Outbound \<Rightarrow> bool" where
  "ob_canEnableTls x \<longleftrightarrow>
     (if ob_protocol x = JStr ''hysteria'' then True
      else if \<not> one_of (ob_protocol x) [''vmess'', ''vless'', ''trojan'', ''shadowsocks''] then False
      else one_of (os_network (ob_stream x)) [''tcp'', ''ws'', ''http'', ''grpc'', ''httpupgrade'', ''xhttp''])"

definition ob_canEnableTlsFlow :: "Outbound \<Rightarrow> bool" where
  "ob_canEnableTlsFlow x \<longleftrightarrow>
     (if \<not> loose_text (os_security (ob_stream x)) ''none'' \<and> os_network (ob_stream x) = JStr ''tcp''
      then ob_protocol x = JStr ''vless'' else False)"

text \<open>\<open>this.settings?.flow\<close>: only VLESS has a flow.\<close>

definition ob_flow :: "Outbound \<Rightarrow> jsv" where
  "ob_flow x = (case ob_settings x of Some (OVless s) \<Rightarrow> ovl_flow s | _ \<Rightarrow> JUndef)"

definition ob_canEnableVisionSeed :: "Outbound \<Rightarrow> bool" where
  "ob_canEnableVisionSeed x \<longleftrightarrow>
     ob_canEnableTlsFlow x \<and> one_of (ob_flow x) [''xtls-rprx-vision'', ''xtls-rprx-vision-udp443'']"

definition ob_canEnableReality :: "Outbound \<Rightarrow> bool" where
  "ob_canEnableReality x \<longleftrightarrow>
     (if \<not> one_of (ob_protocol x) [''vless'', ''trojan''] then False
      else one_of (os_network (ob_stream x)) [''tcp'', ''http'', ''grpc'', ''xhttp''])"

definition ob_canEnableStream :: "Outbound \<Rightarrow> bool" where
  "ob_canEnableStream x \<longleftrightarrow> one_of (ob_protocol x) [''vmess'', ''vless'', ''trojan'', ''shadowsocks'', ''hysteria'']"

text \<open>The question changes the outbound: it disables the multiplexer. Without settings it throws.\<close>

definition ob_canEnableMux :: "Outbound \<Rightarrow> (bool \<times> Outbound) option" where
  "ob_canEnableMux x =
     (if ob_settings x = None then None
      else let disabled = x\<lparr>ob_mux := (ob_mux x)\<lparr>omx_enabled := JBool False\<rparr>\<rparr> in
        if truthy (ob_flow x) \<and> ob_flow x \<noteq> JStr '''' then Some (False, disabled)
        else if os_network (ob_stream x) = JStr ''xhttp'' then Some (False, disabled)
        else Some (one_of (ob_protocol x) [''vmess'', ''vless'', ''trojan'', ''shadowsocks'', ''http'', ''socks''], x))"

definition ob_hasServers :: "Outbound \<Rightarrow> bool" where
  "ob_hasServers x \<longleftrightarrow> one_of (ob_protocol x) [''trojan'', ''shadowsocks'', ''socks'', ''http'']"

definition ob_hasAddressPort :: "Outbound \<Rightarrow> bool" where
  "ob_hasAddressPort x \<longleftrightarrow>
     one_of (ob_protocol x) [''dns'', ''vmess'', ''vless'', ''trojan'', ''shadowsocks'', ''socks'', ''http'', ''hysteria'']"

definition ob_hasUsername :: "Outbound \<Rightarrow> bool" where
  "ob_hasUsername x \<longleftrightarrow> one_of (ob_protocol x) [''socks'', ''http'']"

definition Outbound_fromJson :: "jsv \<Rightarrow> Outbound option" where
  "Outbound_fromJson json =
     (let json = dflt json (JObj []) in
      do { tag \<leftarrow> js_get json ''tag'';
           protocol \<leftarrow> js_get json ''protocol'';
           v_settings \<leftarrow> js_get json ''settings''; settings \<leftarrow> osettings_fromJson protocol v_settings;
           v_stream \<leftarrow> js_get json ''streamSettings''; stream \<leftarrow> OutStreamSettings_fromJson v_stream;
           sendThrough \<leftarrow> js_get json ''sendThrough'';
           v_mux \<leftarrow> js_get json ''mux''; mux \<leftarrow> OutMux_fromJson v_mux;
           new_Outbound tag protocol settings (Some stream) sendThrough mux })"

definition sent_stream :: "Outbound \<Rightarrow> jsv option" where
  "sent_stream x =
     (if ob_canEnableStream x then OutStreamSettings_toJson (ob_stream x)
      else case os_sockopt (ob_stream x) of
             None \<Rightarrow> Some JUndef
           | Some so \<Rightarrow> do { v \<leftarrow> OutSockopt_toJson so; Some (JObj [(''sockopt'', v)]) })"

text \<open>\<open>...(c ? {k: v} : {})\<close>\<close>

definition spread_if :: "bool \<Rightarrow> string \<Rightarrow> jsv \<Rightarrow> entries" where
  "spread_if c k v = (if c then [(k, v)] else [])"

definition Outbound_toJson :: "Outbound \<Rightarrow> jsv option" where
  "Outbound_toJson x =
     do { stream \<leftarrow> sent_stream x;
          settingsOut \<leftarrow> (case ob_settings x of Some s \<Rightarrow> osettings_toJson s | None \<Rightarrow> Some JNull);
          Some (JObj ([(''protocol'', ob_protocol x), (''settings'', settingsOut)] @
            spread_if (truthy (ob_tag x)) ''tag'' (ob_tag x) @
            spread_if (truthy stream) ''streamSettings'' stream @
            spread_if (truthy (ob_sendThrough x)) ''sendThrough'' (ob_sendThrough x) @
            spread_if (truthy (omx_enabled (ob_mux x))) ''mux'' (OutMux_toJson (ob_mux x)))) }"

section \<open>Saving and loading an outbound\<close>

definition Outbound_ok :: "Outbound \<Rightarrow> bool" where
  "Outbound_ok x \<longleftrightarrow>
     (case ob_settings x of Some s \<Rightarrow> osettings_ok s \<and> ob_protocol x = JStr (osettings_protocol s) | None \<Rightarrow> False) \<and>
     (ob_tag x = JStr '''' \<or> truthy (ob_tag x) \<and> field_ok (ob_tag x)) \<and>
     (ob_sendThrough x = JUndef \<or> truthy (ob_sendThrough x) \<and> field_ok (ob_sendThrough x)) \<and>
     (truthy (omx_enabled (ob_mux x)) \<longrightarrow> OutMux_ok (ob_mux x)) \<and>
     (if ob_canEnableStream x then OutStreamSettings_ok (ob_stream x)
      else pred_option OutSockopt_ok (os_sockopt (ob_stream x)))"

text \<open>What is loaded: the parts that are not in use are their defaults.\<close>

definition Outbound_loaded :: "Outbound \<Rightarrow> Outbound" where
  "Outbound_loaded x =
     x\<lparr>ob_stream := (if ob_canEnableStream x then out_stream_loaded (ob_stream x)
                     else default_OutStreamSettings\<lparr>os_sockopt := os_sockopt (ob_stream x)\<rparr>),
       ob_mux := (if truthy (omx_enabled (ob_mux x)) then ob_mux x else default_OutMux)\<rparr>"

lemma look_spread_if: "look (spread_if c k v @ r) k' = (if c \<and> k = k' then v else look r k')"
  by (simp add: spread_if_def)

lemma spread_if_False [simp]: "spread_if False k v = []"
  by (simp add: spread_if_def)

lemma keys_spread_if: "keys (spread_if c k v) = (if c then [k] else [])"
  by (simp add: spread_if_def)

lemma out_stream_from_sockopt:
  assumes "OutSockopt_fromJson (wire v) = Some so"
  shows "OutStreamSettings_fromJson (wire (JObj [(''sockopt'', v)])) = Some (default_OutStreamSettings\<lparr>os_sockopt := so\<rparr>)"
  using assms
  by (simp add: OutStreamSettings_fromJson_def js_get_wire out_defaults_fromJson default_OutStreamSettings_def plain_stream_def
      new_OutStreamSettings_def del: wire.simps(7))

lemma sockopt_default: "default_OutStreamSettings\<lparr>os_sockopt := None\<rparr> = default_OutStreamSettings"
  by (simp add: default_OutStreamSettings_def plain_stream_def new_OutStreamSettings_def)

lemma sent_stream_saved:
  assumes ok: "Outbound_ok x"
  shows "\<exists>v. sent_stream x = Some v \<and> (truthy v \<or> v = JUndef) \<and>
    OutStreamSettings_fromJson (wire v) = Some (ob_stream (Outbound_loaded x))"
proof (cases "ob_canEnableStream x")
  case True
  then obtain v where v: "OutStreamSettings_toJson (ob_stream x) = Some v"
    "OutStreamSettings_fromJson (wire v) = Some (out_stream_loaded (ob_stream x))"
    using out_stream_load [of "ob_stream x"] ok by (auto simp: Outbound_ok_def)
  moreover have "truthy v" using v(1) by (auto simp: OutStreamSettings_toJson_def Let_def split: bind_splits)
  ultimately show ?thesis using True by (simp add: sent_stream_def Outbound_loaded_def)
next
  case False
  show ?thesis
  proof (cases "os_sockopt (ob_stream x)")
    case None
    with False show ?thesis
      by (simp add: sent_stream_def Outbound_loaded_def out_stream_from_nothing sockopt_default)
  next
    case (Some so)
    then have "OutSockopt_ok so" using ok False by (auto simp: Outbound_ok_def)
    then obtain v where "OutSockopt_toJson so = Some v" "OutSockopt_fromJson (wire v) = Some (Some so)"
      using OutSockopt_roundtrip by blast
    with Some False show ?thesis
      by (simp add: sent_stream_def Outbound_loaded_def out_stream_from_sockopt del: wire.simps)
  qed
qed

lemma mux_saved:
  assumes "truthy (omx_enabled m) \<longrightarrow> OutMux_ok m"
  shows "\<exists>r. OutMux_fromJson (wire (if truthy (omx_enabled m) then OutMux_toJson m else JUndef)) = Some r \<and>
    opt_new r default_OutMux = (if truthy (omx_enabled m) then m else default_OutMux)"
  using assms OutMux_roundtrip [of m] by (auto simp: OutMux_fromJson_def [of JUndef] object_keys_def)

lemma out_stream_resaved: "OutStreamSettings_toJson (out_stream_loaded s) = OutStreamSettings_toJson s"
  by (simp add: out_stream_loaded_def OutStreamSettings_toJson_def sent_if_def sent_sockopt_def os_hasFinalMask_def Let_def)

lemma sent_stream_loaded: "sent_stream (Outbound_loaded x) = sent_stream x"
proof -
  have "ob_canEnableStream (Outbound_loaded x) = ob_canEnableStream x"
    by (simp add: ob_canEnableStream_def Outbound_loaded_def)
  then show ?thesis by (simp add: sent_stream_def out_stream_resaved Outbound_loaded_def)
qed

text \<open>
  C5: an outbound survives the JSON editor. For every outbound whose settings belong to its
  protocol and whose used parts are well formed, saving succeeds, loading the saved object gives
  the same outbound with the unused parts (the other transports, a stream the protocol has not, a
  disabled multiplexer) at their defaults, and saving that outbound again sends the same object.
\<close>
theorem outbound_saved:
  assumes ok: "Outbound_ok x"
  shows "\<exists>v. Outbound_toJson x = Some v \<and> Outbound_fromJson (wire v) = Some (Outbound_loaded x) \<and>
    Outbound_toJson (Outbound_loaded x) = Some v"
proof -
  obtain s where s: "ob_settings x = Some s" "osettings_ok s" "ob_protocol x = JStr (osettings_protocol s)"
    using ok by (auto simp: Outbound_ok_def split: option.splits)
  obtain sv where sv: "osettings_toJson s = Some sv" "osettings_fromJson (ob_protocol x) (wire sv) = Some (Some s)"
    using osettings_saved [OF s(2)] s(3) by auto
  obtain st where st: "sent_stream x = Some st" "truthy st \<or> st = JUndef"
    "OutStreamSettings_fromJson (wire st) = Some (ob_stream (Outbound_loaded x))"
    using sent_stream_saved [OF ok] by blast
  define on where "on = truthy (omx_enabled (ob_mux x))"
  obtain r where r: "OutMux_fromJson (wire (if on then OutMux_toJson (ob_mux x) else JUndef)) = Some r"
    "opt_new r default_OutMux = ob_mux (Outbound_loaded x)"
    using mux_saved [of "ob_mux x"] ok by (auto simp: Outbound_ok_def on_def Outbound_loaded_def)
  let ?o = "[(''protocol'', ob_protocol x), (''settings'', sv)] @
    spread_if (truthy (ob_tag x)) ''tag'' (ob_tag x) @ spread_if (truthy st) ''streamSettings'' st @
    spread_if (truthy (ob_sendThrough x)) ''sendThrough'' (ob_sendThrough x) @
    spread_if on ''mux'' (OutMux_toJson (ob_mux x))"
  have enc: "Outbound_toJson x = Some (JObj ?o)"
    by (simp add: Outbound_toJson_def st(1) s(1) sv(1) on_def)
  have d: "distinct (keys ?o)" by (simp add: keys_spread_if)
  have g: "js_get (wire (JObj ?o)) k = Some (wire (look ?o k))" for k by (rule js_get_wire [OF d])
  have l: "look ?o ''protocol'' = ob_protocol x" "look ?o ''settings'' = sv"
    "look ?o ''tag'' = (if truthy (ob_tag x) then ob_tag x else JUndef)"
    "look ?o ''streamSettings'' = st"
    "look ?o ''sendThrough'' = (if truthy (ob_sendThrough x) then ob_sendThrough x else JUndef)"
    "look ?o ''mux'' = (if on then OutMux_toJson (ob_mux x) else JUndef)"
    using st(2) by (auto simp: look_append keys_spread_if spread_if_def)
  have j: "dflt (wire (JObj ?o)) (JObj []) = wire (JObj ?o)" by simp
  have t: "dflt (wire (if truthy (ob_tag x) then ob_tag x else JUndef)) (JStr '''') = ob_tag x"
    "wire (if truthy (ob_sendThrough x) then ob_sendThrough x else JUndef) = ob_sendThrough x"
    "wire (ob_protocol x) = ob_protocol x" "dflt (ob_protocol x) (JStr ''vless'') = ob_protocol x"
    using ok by (auto simp: Outbound_ok_def field_ok_def s(3))
  have "Outbound_fromJson (wire (JObj ?o)) = Some (Outbound_loaded x)"
    unfolding Outbound_fromJson_def Let_def j g l
    by (simp only: bind.bind_lunit t(2,3) sv(2) st(3) r(1) new_Outbound_def Let_def t(1,4) option.case r(2) opt_new_simps)
       (simp add: Outbound_loaded_def s(1))
  moreover have "Outbound_toJson (Outbound_loaded x) = Some (JObj ?o)"
    unfolding Outbound_toJson_def sent_stream_loaded st(1)
    by (cases on) (simp_all add: Outbound_loaded_def s(1) sv(1) on_def default_OutMux_def new_OutMux_def)
  ultimately show ?thesis using enc by blast
qed

text \<open>
  C29: the multiplexer never runs together with a flow or with xhttp. When the form asks whether
  the multiplexer may be enabled and the settings have a flow, or the network is xhttp, the answer
  is no and the outbound is saved without a multiplexer; the answer yes leaves the outbound as it
  is, and then it has neither and can have no Vision seed.
\<close>
theorem mux_excluded:
  assumes "ob_canEnableMux x = Some (b, y)" and "Outbound_toJson y = Some v"
  shows "(if truthy (ob_flow x) \<or> os_network (ob_stream x) = JStr ''xhttp''
          then \<not> b \<and> js_get v ''mux'' = Some JUndef
          else y = x \<and> \<not> ob_canEnableVisionSeed x \<and> (b \<longleftrightarrow> one_of (ob_protocol x)
            [''vmess'', ''vless'', ''trojan'', ''shadowsocks'', ''http'', ''socks'']))"
proof -
  have v: "\<exists>st sv. v = JObj ([(''protocol'', ob_protocol y), (''settings'', sv)] @ spread_if (truthy (ob_tag y)) ''tag'' (ob_tag y) @
      spread_if (truthy st) ''streamSettings'' st @ spread_if (truthy (ob_sendThrough y)) ''sendThrough'' (ob_sendThrough y) @
      spread_if (truthy (omx_enabled (ob_mux y))) ''mux'' (OutMux_toJson (ob_mux y)))"
    using assms(2) by (auto simp: Outbound_toJson_def split: bind_splits)
  have no_mux: "js_get v ''mux'' = Some JUndef" if "\<not> truthy (omx_enabled (ob_mux y))"
    using v that by (auto simp: spread_if_def)
  have blank: "truthy (ob_flow x) \<Longrightarrow> ob_flow x \<noteq> JStr ''''" by auto
  have vision: "\<not> truthy (ob_flow x) \<Longrightarrow> \<not> ob_canEnableVisionSeed x"
    by (auto simp: ob_canEnableVisionSeed_def one_of_def)
  show ?thesis
    using assms(1) no_mux blank vision by (auto simp: ob_canEnableMux_def Let_def split: if_splits)
qed

section \<open>A concrete outbound\<close>

definition sample_outbound :: Outbound where
  "sample_outbound =
     \<lparr>ob_tag = JStr ''proxy'', ob_protocol = JStr ''vless'',
      ob_settings = Some (OVless (new_OutVless (JStr ''a.example'') (jint 443) (JStr ''6ba7b810'') (JStr '''') (JStr ''none'')
        JUndef JUndef)),
      ob_stream = default_OutStreamSettings\<lparr>os_tcp := new_OutTcp JUndef (JStr '''') (JStr '''')\<rparr>, ob_sendThrough = JUndef,
      ob_mux = new_OutMux (JBool True) JUndef JUndef JUndef\<rparr>"

lemma default_stream_ok: "OutStreamSettings_ok (default_OutStreamSettings\<lparr>os_tcp := new_OutTcp JUndef (JStr '''') (JStr '''')\<rparr>)"
  by (simp add: OutStreamSettings_ok_def default_OutStreamSettings_def plain_stream_def new_OutStreamSettings_def
      OutTcp_ok_def new_OutTcp_def OutFinalMask_ok_def default_OutFinalMask_def new_OutFinalMask_def)

lemma sample_outbound_ok: "Outbound_ok sample_outbound"
  by (simp add: Outbound_ok_def sample_outbound_def default_stream_ok OutVless_ok_def new_OutVless_def isEmpty_def
      ob_canEnableStream_def OutMux_ok_def new_OutMux_def opt_field_ok_def)

theorem outbound_saved_witness:
  "\<exists>v. Outbound_toJson sample_outbound = Some v \<and> Outbound_fromJson (wire v) = Some (Outbound_loaded sample_outbound) \<and>
    Outbound_toJson (Outbound_loaded sample_outbound) = Some v"
  by (rule outbound_saved [OF sample_outbound_ok])

theorem mux_excluded_witness:
  "let x = sample_outbound\<lparr>ob_stream := plain_stream (JStr ''xhttp'') (JStr ''none'')\<rparr>;
       y = x\<lparr>ob_mux := (ob_mux x)\<lparr>omx_enabled := JBool False\<rparr>\<rparr> in
   ob_canEnableMux x = Some (False, y) \<and> (\<exists>v. Outbound_toJson y = Some v \<and> js_get v ''mux'' = Some JUndef)"
proof -
  define x where "x = sample_outbound\<lparr>ob_stream := plain_stream (JStr ''xhttp'') (JStr ''none'')\<rparr>"
  define y where "y = x\<lparr>ob_mux := (ob_mux x)\<lparr>omx_enabled := JBool False\<rparr>\<rparr>"
  have n: "os_network (ob_stream x) = JStr ''xhttp''"
    by (simp add: x_def plain_stream_def new_OutStreamSettings_def)
  have a: "ob_canEnableMux x = Some (False, y)"
    using n by (simp add: ob_canEnableMux_def Let_def y_def) (simp add: x_def sample_outbound_def)
  have "\<exists>v. Outbound_toJson y = Some v"
    by (simp add: Outbound_toJson_def sent_stream_def y_def x_def sample_outbound_def ob_canEnableStream_def
        OutStreamSettings_toJson_def plain_stream_def new_OutStreamSettings_def sent_if_def sent_sockopt_def
        os_hasFinalMask_def default_OutFinalMask_def new_OutFinalMask_def)
  then obtain v where v: "Outbound_toJson y = Some v" by blast
  from mux_excluded [OF a v] n have "js_get v ''mux'' = Some JUndef" by simp
  with a v show ?thesis unfolding Let_def x_def [symmetric] y_def [symmetric] by blast
qed

end
