(* ===== verification/ObjectUtil.thy ===== *)
theory ObjectUtil
  imports XrayCommon
begin

text \<open>
  ObjectUtil and ArrayUtils of web/assets/js/util/index.js over JavaScript values. A value has
  no identity here, so a clone is the value itself; what the copying loops do to its entries
  is written out, and that nothing is lost is a lemma. The four operations that write into
  their argument return the object after it.
\<close>

section \<open>Reading and searching\<close>

fun first_ignoring_case :: "entries \<Rightarrow> string \<Rightarrow> jsv" where
  "first_ignoring_case [] prop = JUndef"
| "first_ignoring_case ((name, v) # kvs) prop =
     (if lower name = lower prop then v else first_ignoring_case kvs prop)"

definition getPropIgnoreCase :: "jsv \<Rightarrow> string \<Rightarrow> jsv" where
  "getPropIgnoreCase ob prop = first_ignoring_case (own_entries ob) prop"

text \<open>\<open>s.indexOf(p) >= 0\<close>\<close>

fun starts_with :: "string \<Rightarrow> string \<Rightarrow> bool" where
  "starts_with [] s = True"
| "starts_with (p # ps) [] = False"
| "starts_with (p # ps) (c # s) = (p = c \<and> starts_with ps s)"

fun contains_text :: "string \<Rightarrow> string \<Rightarrow> bool" where
  "contains_text p [] = (p = [])"
| "contains_text p (c # s) = (starts_with p (c # s) \<or> contains_text p s)"

lemma size_elem: "v \<in> set vs \<Longrightarrow> size v < size (JArr vs)"
  by (induction vs) auto

lemma size_entry: "e \<in> set kvs \<Longrightarrow> size (snd e) < size (JObj kvs)"
proof (induction kvs)
  case (Cons d kvs)
  then show ?case by (cases d) auto
qed simp

function deepSearch :: "jsv \<Rightarrow> string \<Rightarrow> bool" where
  "deepSearch JUndef key = False"
| "deepSearch JNull key = False"
| "deepSearch (JBool b) key = contains_text (lower key) (lower (js_to_string (JBool b)))"
| "deepSearch (JNum n) key = contains_text (lower key) (lower (js_to_string (JNum n)))"
| "deepSearch (JStr s) key = (s \<noteq> '''' \<and> contains_text (lower key) (lower s))"
| "deepSearch (JArr vs) key = list_ex (\<lambda>v. deepSearch v key) vs"
| "deepSearch (JObj kvs) key = list_ex (\<lambda>e. deepSearch (snd e) key) kvs"
  by pat_completeness auto

termination
  using size_elem size_entry by (relation "measure (size \<circ> fst)") (auto simp del: jsv.size)

text \<open>The values a search looks at, and what it says about them.\<close>

inductive leaf_of :: "jsv \<Rightarrow> jsv \<Rightarrow> bool" where
  leaf_self: "is_prim v \<Longrightarrow> leaf_of v v"
| leaf_elem: "v \<in> set vs \<Longrightarrow> leaf_of p v \<Longrightarrow> leaf_of p (JArr vs)"
| leaf_entry: "e \<in> set kvs \<Longrightarrow> leaf_of p (snd e) \<Longrightarrow> leaf_of p (JObj kvs)"

inductive_cases leaf_ofE: "leaf_of p v"

definition leaf_matches :: "string \<Rightarrow> jsv \<Rightarrow> bool" where
  "leaf_matches key p \<longleftrightarrow> \<not> isEmpty p \<and> contains_text (lower key) (lower (js_to_string p))"

lemma leaf_of_prim: "is_prim v \<Longrightarrow> leaf_of p v \<longleftrightarrow> p = v"
  by (auto elim: leaf_ofE intro: leaf_self)

lemma leaf_of_arr: "leaf_of p (JArr vs) \<longleftrightarrow> (\<exists>v \<in> set vs. leaf_of p v)"
  by (auto elim: leaf_ofE intro: leaf_elem)

lemma leaf_of_obj: "leaf_of p (JObj kvs) \<longleftrightarrow> (\<exists>e \<in> set kvs. leaf_of p (snd e))"
  by (auto elim: leaf_ofE intro: leaf_entry)

lemma deepSearch_leaf: "deepSearch v key \<longleftrightarrow> (\<exists>p. leaf_of p v \<and> leaf_matches key p)"
proof (induction v key rule: deepSearch.induct)
  case (6 vs key)
  then show ?case by (auto simp: leaf_of_arr list_ex_iff)
next
  case (7 kvs key)
  then show ?case by (auto simp: leaf_of_obj list_ex_iff)
qed (auto simp: leaf_of_prim leaf_matches_def isEmpty_def)

section \<open>Copying\<close>

text \<open>\<open>for (key of Object.keys(obj)) newObj[key] = obj[key]\<close>\<close>

definition copy_entries :: "(jsv \<Rightarrow> jsv) \<Rightarrow> entries \<Rightarrow> entries" where
  "copy_entries f kvs = foldl (\<lambda>ob e. obj_set ob (fst e) (f (snd e))) [] kvs"

text \<open>\<open>copyArr\<close> empties the target first; both are arrays.\<close>

definition copyArr :: "jsv list \<Rightarrow> jsv list \<Rightarrow> jsv list" where
  "copyArr dest src = foldl (\<lambda>d item. d @ [item]) [] src"

fun clone :: "jsv \<Rightarrow> jsv" where
  "clone (JArr vs) = JArr (copyArr [] vs)"
| "clone (JObj kvs) = JObj (copy_entries (\<lambda>v. v) kvs)"
| "clone v = v"

function deepClone :: "jsv \<Rightarrow> jsv" where
  "deepClone (JArr vs) = JArr (map deepClone vs)"
| "deepClone (JObj kvs) = JObj (copy_entries (\<lambda>v. v) (map (\<lambda>e. (fst e, deepClone (snd e))) kvs))"
| "deepClone JUndef = JUndef"
| "deepClone JNull = JNull"
| "deepClone (JBool b) = JBool b"
| "deepClone (JNum n) = JNum n"
| "deepClone (JStr s) = JStr s"
  by pat_completeness auto

termination
  using size_elem size_entry by (relation "measure size") (auto simp del: jsv.size)

lemma copyArr_copy: "copyArr dest src = src"
proof -
  have "foldl (\<lambda>d item. d @ [item]) ys src = ys @ src" for ys by (induction src arbitrary: ys) simp_all
  then show ?thesis by (simp add: copyArr_def)
qed

lemma copy_entries_aux:
  "distinct (keys (pre @ kvs)) \<Longrightarrow>
   foldl (\<lambda>ob e. obj_set ob (fst e) (f (snd e))) pre kvs = pre @ map (\<lambda>e. (fst e, f (snd e))) kvs"
proof (induction kvs arbitrary: pre)
  case (Cons e kvs)
  then show ?case by (cases e) (auto simp: obj_set_fresh)
qed simp

lemma copy_entries_map:
  "distinct (keys kvs) \<Longrightarrow> copy_entries f kvs = map (\<lambda>e. (fst e, f (snd e))) kvs"
  using copy_entries_aux [of "[]" kvs f] by (simp add: copy_entries_def)

text \<open>An object of the language has every key once, at every depth.\<close>

function proper :: "jsv \<Rightarrow> bool" where
  "proper (JArr vs) = (\<forall>v \<in> set vs. proper v)"
| "proper (JObj kvs) = (distinct (keys kvs) \<and> (\<forall>e \<in> set kvs. proper (snd e)))"
| "proper JUndef = True"
| "proper JNull = True"
| "proper (JBool b) = True"
| "proper (JNum n) = True"
| "proper (JStr s) = True"
  by pat_completeness auto

termination
  using size_elem size_entry by (relation "measure size") (auto simp del: jsv.size)

lemma keys_map_snd: "keys (map (\<lambda>e. (fst e, f (snd e))) kvs) = keys kvs"
  by (simp add: keys_conv comp_def)

lemma deepClone_proper: "proper v \<Longrightarrow> deepClone v = v"
proof (induction v rule: deepClone.induct)
  case (1 vs)
  then show ?case by (simp add: map_idI)
next
  case (2 kvs)
  then have "map (\<lambda>e. (fst e, deepClone (snd e))) kvs = kvs" by (auto intro: map_idI)
  with 2 show ?case by (simp add: copy_entries_map)
qed simp_all

lemma clone_proper: "proper v \<Longrightarrow> clone v = v"
  by (cases v) (simp_all add: copyArr_copy copy_entries_map)

section \<open>Writing\<close>

text \<open>Only what dest has already, src has, and the call does not name is overwritten.\<close>

definition clone_prop :: "string list \<Rightarrow> entries \<Rightarrow> string \<times> jsv \<Rightarrow> entries" where
  "clone_prop ignoreProps dest e =
     (if fst e \<notin> set (keys dest) then dest
      else if snd e = JUndef then dest
      else if fst e \<in> set ignoreProps then dest
      else obj_set dest (fst e) (snd e))"

text \<open>
  The own enumerable properties of an array are its items: those of the source that the target has
  replace its items. (Its length is an own property too; a source that is an object with a key of that
  name is not modelled for an array.) A primitive target has no property to set.
\<close>

definition clone_item :: "string list \<Rightarrow> jsv list \<Rightarrow> string \<times> jsv \<Rightarrow> jsv list" where
  "clone_item ignoreProps dest e =
     (case find (\<lambda>i. show_nat i = fst e) [0..<length dest] of
        None \<Rightarrow> dest
      | Some i \<Rightarrow> if snd e = JUndef \<or> fst e \<in> set ignoreProps then dest else dest[i := snd e])"

fun cloneProps :: "jsv \<Rightarrow> jsv \<Rightarrow> string list \<Rightarrow> jsv" where
  "cloneProps (JObj dest) src ignoreProps =
     (if is_nullish src then JObj dest else JObj (foldl (clone_prop ignoreProps) dest (own_entries src)))"
| "cloneProps (JArr dest) src ignoreProps =
     (if is_nullish src then JArr dest else JArr (foldl (clone_item ignoreProps) dest (own_entries src)))"
| "cloneProps dest src ignoreProps = dest"

fun delProps :: "jsv \<Rightarrow> string list \<Rightarrow> jsv" where
  "delProps (JObj kvs) props = JObj (foldl (\<lambda>ob p. if p \<in> set (keys ob) then obj_del ob p else ob) kvs props)"
| "delProps v props = v"

definition orDefault :: "jsv \<Rightarrow> jsv \<Rightarrow> jsv" where
  "orDefault ob defaultValue = (if is_nullish ob then defaultValue else ob)"

text \<open>Shallow equality: None where \<open>Object.keys\<close> throws.\<close>

definition equals :: "jsv \<Rightarrow> jsv \<Rightarrow> bool option" where
  "equals a b =
     do { aKeys \<leftarrow> object_keys a;
          bKeys \<leftarrow> object_keys b;
          Some (length aKeys = length bKeys \<and>
                list_all (\<lambda>key. key \<in> set bKeys \<and>
                   strict_eq (look (own_entries a) key) (look (own_entries b) key)) aKeys) }"

text \<open>\<open>array1.every(item => array2.includes(item))\<close>; \<open>includes\<close> finds NaN too.\<close>

definition same_value :: "jsv \<Rightarrow> jsv \<Rightarrow> bool" where
  "same_value a b \<longleftrightarrow> strict_eq a b \<or> a = JNum NaN \<and> b = JNum NaN"

definition doAllItemsExist :: "jsv list \<Rightarrow> jsv list \<Rightarrow> bool" where
  "doAllItemsExist array1 array2 = list_all (\<lambda>item. list_ex (\<lambda>x. same_value x item) array2) array1"

lemma clone_prop_keys: "keys (clone_prop ig dest e) = keys dest"
  by (simp add: clone_prop_def keys_obj_set_present)

lemma cloneProps_keys: "keys (foldl (clone_prop ig) dest es) = keys dest"
  by (induction es arbitrary: dest) (simp_all add: clone_prop_keys)

lemma cloneProps_look:
  "distinct (keys es) \<Longrightarrow> look (foldl (clone_prop ig) dest es) k =
     (if k \<in> set (keys dest) \<and> k \<in> set (keys es) \<and> look es k \<noteq> JUndef \<and> k \<notin> set ig then look es k else look dest k)"
proof (induction es arbitrary: dest)
  case (Cons e es)
  obtain k' v where e: "e = (k', v)" by (cases e)
  have IH: "look (foldl (clone_prop ig) (clone_prop ig dest e) es) k =
      (if k \<in> set (keys dest) \<and> k \<in> set (keys es) \<and> look es k \<noteq> JUndef \<and> k \<notin> set ig then look es k
       else look (clone_prop ig dest e) k)"
    using Cons by (simp add: clone_prop_keys)
  have d: "k' \<notin> set (keys es)" using Cons.prems by (simp add: e)
  have c: "look (clone_prop ig dest e) k =
      (if k = k' \<and> k \<in> set (keys dest) \<and> v \<noteq> JUndef \<and> k \<notin> set ig then v else look dest k)"
    by (auto simp: e clone_prop_def look_obj_set)
  show ?case
    unfolding foldl_Cons IH c using d by (auto simp: e look_notin)
qed simp

lemma delProps_look:
  "look (foldl (\<lambda>ob p. if p \<in> set (keys ob) then obj_del ob p else ob) kvs props) k =
     (if k \<in> set props then JUndef else look kvs k)"
proof (induction props arbitrary: kvs)
  case (Cons p props)
  then show ?case by (auto simp: look_obj_del look_notin)
qed simp

lemma strict_eq_sym: "strict_eq a b = strict_eq b a"
  by (induction a b rule: strict_eq.induct) auto

lemma same_keys:
  assumes "distinct ka" "distinct kb" "length ka = length kb" "set ka \<subseteq> set kb"
  shows "set ka = set kb"
  using assms by (metis card_subset_eq distinct_card List.finite_set)

lemma equals_objects:
  "equals (JObj a) (JObj b) = Some (length (keys a) = length (keys b) \<and>
     (\<forall>k \<in> set (keys a). k \<in> set (keys b) \<and> strict_eq (look a k) (look b k)))"
  by (simp add: equals_def object_keys_def list_all_iff)

lemma equals_imp:
  assumes "distinct (keys a)" "distinct (keys b)" "equals (JObj a) (JObj b) = Some True"
  shows "equals (JObj b) (JObj a) = Some True"
proof -
  have l: "length (keys a) = length (keys b)"
    and k: "\<forall>k \<in> set (keys a). k \<in> set (keys b) \<and> strict_eq (look a k) (look b k)"
    using assms(3) by (simp_all add: equals_objects)
  then have "set (keys a) = set (keys b)" using same_keys [OF assms(1,2) l] by blast
  with l k show ?thesis by (simp add: equals_objects strict_eq_sym)
qed

lemma starts_with_prefix: "starts_with p s \<longleftrightarrow> (\<exists>b. s = p @ b)"
  by (induction p s rule: starts_with.induct) auto

lemma contains_text_infix: "contains_text p s \<longleftrightarrow> (\<exists>a b. s = a @ p @ b)"
proof (induction s)
  case (Cons c s)
  have "(\<exists>a b. c # s = a @ p @ b) \<longleftrightarrow> (\<exists>b. c # s = p @ b) \<or> (\<exists>a b. s = a @ p @ b)"
    by (metis append_Cons append_Nil list.inject neq_Nil_conv)
  with Cons show ?case by (simp add: starts_with_prefix)
qed simp

text \<open>
  C32: a search in the panel looks at every value of an object and at nothing else. \<open>deepSearch\<close>
  finds a key exactly when some primitive value at any depth of arrays and objects is not
  empty and contains the key as a piece of its text, both in lower case; names of properties
  are never searched.
\<close>
theorem deepSearch_finds:
  "deepSearch v key \<longleftrightarrow>
    (\<exists>p a b. leaf_of p v \<and> \<not> isEmpty p \<and> lower (js_to_string p) = a @ lower key @ b)"
  by (auto simp: deepSearch_leaf leaf_matches_def contains_text_infix)

text \<open>
  C35: \<open>cloneProps\<close> updates an object without changing its shape. The target keeps its
  properties and their order; a property takes the value of the source exactly when the source
  has it with a value and the call does not ignore it; copying once more changes nothing.
\<close>
theorem cloneProps_update:
  assumes "distinct (keys src)"
  shows "\<exists>r. cloneProps (JObj dest) (JObj src) ignored = JObj r \<and> keys r = keys dest \<and>
    (\<forall>k. look r k = (if k \<in> set (keys dest) \<and> look src k \<noteq> JUndef \<and> k \<notin> set ignored then look src k
                       else look dest k)) \<and>
    (\<forall>k. look (foldl (clone_prop ignored) r src) k = look r k)"
proof -
  let ?r = "foldl (clone_prop ignored) dest src"
  have k: "look ?r k = (if k \<in> set (keys dest) \<and> look src k \<noteq> JUndef \<and> k \<notin> set ignored then look src k
      else look dest k)" for k
    unfolding cloneProps_look [OF assms] using look_notin [of k src] by auto
  have "look (foldl (clone_prop ignored) ?r src) k = look ?r k" for k
    unfolding cloneProps_look [OF assms, of ignored ?r] cloneProps_keys k by auto
  then show ?thesis using k by (simp add: cloneProps_keys)
qed

theorem cloneProps_update_witness:
  "let src = [(''a'', jint 1), (''b'', jint 2), (''x'', jint 3)]; dest = [(''b'', JNull), (''a'', JNull), (''c'', JNull)]
   in \<exists>r. cloneProps (JObj dest) (JObj src) [''b''] = JObj r \<and> keys r = keys dest \<and>
        (\<forall>k. look r k = (if k \<in> set (keys dest) \<and> look src k \<noteq> JUndef \<and> k \<notin> set [''b''] then look src k
                           else look dest k)) \<and>
        (\<forall>k. look (foldl (clone_prop [''b'']) r src) k = look r k)"
  unfolding Let_def by (rule cloneProps_update) simp

text \<open>
  \<open>equals\<close>, which compares only the number of keys and then the keys of its first argument,
  is symmetric: for two objects it says whether they have the same keys with strictly equal
  values, whichever comes first.
\<close>
theorem equals_same_entries:
  assumes "distinct (keys a)" and "distinct (keys b)"
  shows "equals (JObj a) (JObj b) =
      Some (set (keys a) = set (keys b) \<and> (\<forall>k \<in> set (keys a). strict_eq (look a k) (look b k))) \<and>
    equals (JObj b) (JObj a) = equals (JObj a) (JObj b)"
proof -
  have e: "equals (JObj a) (JObj b) =
      Some (set (keys a) = set (keys b) \<and> (\<forall>k \<in> set (keys a). strict_eq (look a k) (look b k)))"
    if "distinct (keys a)" "distinct (keys b)" for a b
  proof -
    have "length (keys a) = length (keys b) \<and> set (keys a) \<subseteq> set (keys b) \<longleftrightarrow> set (keys a) = set (keys b)"
      using same_keys [OF that] distinct_card [OF that(1)] distinct_card [OF that(2)] by auto
    then show ?thesis unfolding equals_objects by blast
  qed
  show ?thesis unfolding e [OF assms] e [OF assms(2,1)] by (auto simp: strict_eq_sym)
qed

theorem equals_same_entries_witness:
  "let a = [(''p'', jint 1), (''q'', JStr ''x'')]; b = [(''q'', JStr ''x''), (''p'', jint 1)]
   in equals (JObj a) (JObj b) =
        Some (set (keys a) = set (keys b) \<and> (\<forall>k \<in> set (keys a). strict_eq (look a k) (look b k))) \<and>
      equals (JObj b) (JObj a) = equals (JObj a) (JObj b)"
  unfolding Let_def by (rule equals_same_entries) simp_all

end
