(* ===== verification/Browser.thy ===== *)
theory Browser
  imports ObjectUtil Base64
begin

text \<open>
  The helpers of web/assets/js/util/index.js around the page: HttpUtil, cookies, the language
  of the panel and URLs. The page's own state (cookies, location, the language of the browser)
  is an argument, and what a function does to the page is part of its result.
\<close>

section \<open>Msg and HttpUtil\<close>

record Msg =
  m_success :: jsv
  m_msg :: jsv
  m_obj :: jsv

definition new_Msg :: "jsv \<Rightarrow> jsv \<Rightarrow> jsv \<Rightarrow> Msg" where
  "new_Msg success msg ob =
     \<lparr>m_success = dflt success (JBool False), m_msg = dflt msg (JStr ''''), m_obj = dflt ob JNull\<rparr>"

text \<open>A reply is a message, or the object the server sent when it has no success in it.\<close>

datatype reply = AsMsg Msg | AsData jsv

definition is_object :: "jsv \<Rightarrow> bool" where
  "is_object v \<longleftrightarrow> (case v of JObj _ \<Rightarrow> True | JArr _ \<Rightarrow> True | JNull \<Rightarrow> True | _ \<Rightarrow> False)"

text \<open>The response is given by its data; None is a response that is undefined.\<close>

definition respToMsg :: "jsv option \<Rightarrow> reply" where
  "respToMsg resp =
     (case resp of
        None \<Rightarrow> AsMsg (new_Msg (JBool False) (JStr ''No response data'') JUndef)
      | Some data \<Rightarrow>
         if \<not> truthy data then AsMsg (new_Msg (JBool False) (JStr ''No response data'') JUndef)
         else if is_nullish data then AsMsg (new_Msg (JBool True) JUndef JUndef)
         else if is_object data \<and> ''success'' \<in> set (keys (own_entries data))
         then AsMsg (new_Msg (look (own_entries data) ''success'') (look (own_entries data) ''msg'')
                (look (own_entries data) ''obj''))
         else if is_object data then AsData data
         else AsMsg (new_Msg (JBool False) (JStr ''unknown data:'') data))"

text \<open>A toast of the given type, unless there is nothing to say.\<close>

definition handleMsg :: "reply \<Rightarrow> (string \<times> jsv) option" where
  "handleMsg r =
     (case r of AsData _ \<Rightarrow> None
      | AsMsg m \<Rightarrow> if m_msg m = JStr '''' then None
                   else Some (if truthy (m_success m) then ''success'' else ''error'', m_msg m))"

text \<open>
  What axios gives back: a response, or an error with its own text and perhaps the data of
  the response that the server refused with.
\<close>

datatype axios_result = Response "jsv option" | Failure "jsv option" jsv

definition error_text :: "jsv option \<Rightarrow> jsv \<Rightarrow> jsv" where
  "error_text data message =
     js_or (js_or (case data of None \<Rightarrow> JUndef | Some d \<Rightarrow> js_get_opt d ''message'') message) (JStr ''Request failed'')"

definition http_request :: "axios_result \<Rightarrow> reply \<times> (string \<times> jsv) option" where
  "http_request r =
     (let m = (case r of Response resp \<Rightarrow> respToMsg resp
               | Failure data message \<Rightarrow> AsMsg (new_Msg (JBool False) (error_text data message) JUndef))
      in (m, handleMsg m))"

definition HttpUtil_get :: "axios_result \<Rightarrow> reply \<times> (string \<times> jsv) option" where
  "HttpUtil_get = http_request"

definition HttpUtil_post :: "axios_result \<Rightarrow> reply \<times> (string \<times> jsv) option" where
  "HttpUtil_post = http_request"

datatype modal_call = Loading bool | CloseModal

definition postWithModal :: "bool \<Rightarrow> axios_result \<Rightarrow> reply \<times> modal_call list" where
  "postWithModal modal r =
     (let m = fst (HttpUtil_post r) in
      (m, if modal
          then [Loading True, Loading False] @
               (case m of AsMsg x \<Rightarrow> if truthy (m_success x) then [CloseModal] else [] | AsData _ \<Rightarrow> [])
          else []))"

lemma error_text_truthy: "truthy (dflt (error_text data message) d)"
proof -
  have "truthy (error_text data message)" by (simp add: error_text_def js_or_def)
  then show ?thesis by (metis dflt_simps(2) truthy.simps(1))
qed

lemma failure_reply:
  "fst (http_request (Failure data message)) = AsMsg m \<Longrightarrow> m_success m = JBool False \<and> truthy (m_msg m)"
  by (auto simp: http_request_def new_Msg_def Let_def error_text_truthy)

section \<open>encodeURIComponent\<close>

definition unreserved :: "char \<Rightarrow> bool" where
  "unreserved c \<longleftrightarrow> (let n = of_char c :: nat in
     48 \<le> n \<and> n \<le> 57 \<or> 65 \<le> n \<and> n \<le> 90 \<or> 97 \<le> n \<and> n \<le> 122 \<or> c \<in> set ''-_.!~*'' \<or> n = 39 \<or> c = CHR ''('' \<or> c = CHR '')'')"

definition hex_upper :: "nat \<Rightarrow> char" where
  "hex_upper n = (if n < 10 then char_of (48 + n) else char_of (55 + n))"

definition percent :: "char \<Rightarrow> string" where
  "percent c = [CHR ''%'', hex_upper (of_char c div 16), hex_upper (of_char c mod 16)]"

text \<open>Every character but those that are kept becomes the escaped bytes of its UTF-8 form.\<close>

definition percent_encode :: "(char \<Rightarrow> bool) \<Rightarrow> string \<Rightarrow> string" where
  "percent_encode keep s = concat (map (\<lambda>c. if keep c then [c] else concat (map percent (utf8_encode [c]))) s)"

definition encodeURIComponent :: "string \<Rightarrow> string" where
  "encodeURIComponent s = percent_encode unreserved s"

definition hex_byte_of :: "char \<Rightarrow> char \<Rightarrow> nat option" where
  "hex_byte_of a b = do { x \<leftarrow> hex_val a; y \<leftarrow> hex_val b; Some (16 * x + y) }"

text \<open>
  The reader of escapes. With \<open>lenient\<close> a percent sign that starts no escape stands for itself, as
  in the query of a URL; otherwise it is the URIError of \<open>decodeURIComponent\<close>. None is also
  given for a character that is not represented.
\<close>

fun unescape_uri :: "bool \<Rightarrow> string \<Rightarrow> string option" where
  "unescape_uri lenient [] = Some []"
| "unescape_uri lenient (c # s) =
     (if c \<noteq> CHR ''%'' then map_option ((#) c) (unescape_uri lenient s)
      else case s of
        a # b # r \<Rightarrow>
          (case hex_byte_of a b of
             None \<Rightarrow> if lenient then map_option ((#) c) (unescape_uri lenient s) else None
           | Some n \<Rightarrow>
              if n < 128 then map_option ((#) (char_of n)) (unescape_uri lenient r)
              else if n = 194 \<or> n = 195
              then (case r of p # d # e # q \<Rightarrow>
                      (case hex_byte_of d e of
                         Some m \<Rightarrow> if p = CHR ''%'' \<and> 128 \<le> m \<and> m < 192
                                   then map_option ((#) (char_of ((n - 192) * 64 + (m - 128)))) (unescape_uri lenient q)
                                   else None
                       | None \<Rightarrow> None)
                    | _ \<Rightarrow> None)
              else None)
      | _ \<Rightarrow> if lenient then map_option ((#) c) (unescape_uri lenient s) else None)"

definition decodeURIComponent :: "string \<Rightarrow> string option" where
  "decodeURIComponent s = unescape_uri False s"

lemma hex_upper_code: "n < 16 \<Longrightarrow> (of_char (hex_upper n) :: nat) = (if n < 10 then 48 + n else 55 + n)"
  by (simp add: hex_upper_def)

lemma hex_val_upper: "n < 16 \<Longrightarrow> hex_val (hex_upper n) = Some n"
  by (simp add: hex_upper_def hex_val_def Let_def)

lemma hex_byte_percent: "hex_byte_of (hex_upper (of_char c div 16)) (hex_upper (of_char c mod 16)) = Some (of_char c)"
proof -
  have "(of_char c :: nat) div 16 < 16" using nat_of_char_less_256 [of c] by linarith
  then show ?thesis by (simp add: hex_byte_of_def hex_val_upper)
qed

lemma decode_single:
  "hex_byte_of a b = Some n \<Longrightarrow> n < 128 \<Longrightarrow>
   unescape_uri lenient (CHR ''%'' # a # b # s) = map_option ((#) (char_of n)) (unescape_uri lenient s)"
  by simp

lemma decode_pair:
  "hex_byte_of a b = Some n \<Longrightarrow> hex_byte_of d e = Some m \<Longrightarrow> n = 194 \<or> n = 195 \<Longrightarrow> 128 \<le> m \<Longrightarrow> m < 192 \<Longrightarrow>
   unescape_uri lenient (CHR ''%'' # a # b # CHR ''%'' # d # e # s) =
     map_option ((#) (char_of ((n - 192) * 64 + (m - 128)))) (unescape_uri lenient s)"
  by auto

lemma decode_percent_ascii:
  assumes "(of_char c :: nat) < 128"
  shows "unescape_uri lenient (percent c @ s) = map_option ((#) c) (unescape_uri lenient s)"
  using decode_single [OF hex_byte_percent assms] by (simp add: percent_def)

lemma decode_percent_latin:
  assumes "\<not> (of_char c :: nat) < 128"
  shows "unescape_uri lenient (percent (char_of (192 + of_char c div 64 :: nat)) @
    percent (char_of (128 + of_char c mod 64 :: nat)) @ s) = map_option ((#) c) (unescape_uri lenient s)"
proof -
  define n where "n = (of_char c :: nat)"
  have n: "n < 256" "\<not> n < 128" "char_of n = c" using assms by (simp_all add: n_def)
  have lead: "192 + n div 64 = 194 \<or> 192 + n div 64 = 195" and cont: "128 + n mod 64 < 192"
    and undo: "(192 + n div 64 - 192) * 64 + (128 + n mod 64 - 128) = n"
    using utf8_pair [OF n(1,2)] by blast+
  have a: "(of_char (char_of (192 + n div 64) :: char) :: nat) = 192 + n div 64"
    "(of_char (char_of (128 + n mod 64) :: char) :: nat) = 128 + n mod 64"
    using lead cont by auto
  note h = hex_byte_percent [of "char_of (192 + n div 64)", unfolded a] hex_byte_percent [of "char_of (128 + n mod 64)", unfolded a]
  have "unescape_uri lenient (percent (char_of (192 + n div 64)) @ percent (char_of (128 + n mod 64)) @ s) =
      map_option ((#) (char_of ((192 + n div 64 - 192) * 64 + (128 + n mod 64 - 128)))) (unescape_uri lenient s)"
    unfolding percent_def a append_Cons append_Nil by (rule decode_pair [OF h lead _ cont]) simp
  then show ?thesis unfolding undo n(3) by (simp only: n_def)
qed

lemma decode_percent_encode_append:
  assumes keep: "\<not> keep (CHR ''%'')"
  shows "unescape_uri lenient (percent_encode keep s @ t) = map_option ((@) s) (unescape_uri lenient t)"
proof (induction s)
  case Nil
  show ?case by (simp add: percent_encode_def option.map_id [unfolded id_def])
next
  case (Cons c s)
  have step: "percent_encode keep (c # s) @ t =
      (if keep c then [c] else concat (map percent (utf8_encode [c]))) @ (percent_encode keep s @ t)"
    by (simp add: percent_encode_def)
  have m: "map_option ((#) c) (map_option ((@) s) x) = map_option (\<lambda>a. c # s @ a) x"
    "map_option ((@) (c # s)) x = map_option (\<lambda>a. c # s @ a) x" for x
    by (cases x; simp)+
  show ?case
  proof (cases "keep c")
    case True
    then have "c \<noteq> CHR ''%''" using keep by blast
    with True show ?thesis by (simp only: step if_True append_Cons append_Nil) (simp add: Cons m)
  next
    case False
    show ?thesis
    proof (cases "(of_char c :: nat) < 128")
      case True
      with False show ?thesis
        using decode_percent_ascii [OF True, of lenient "percent_encode keep s @ t"] by (simp only: step) (simp add: Cons m)
    next
      case latin: False
      with False show ?thesis
        using decode_percent_latin [OF latin, of lenient "percent_encode keep s @ t"]
        by (simp only: step) (simp add: Cons m Let_def)
    qed
  qed
qed

lemma decode_percent_encode: "\<not> keep (CHR ''%'') \<Longrightarrow> unescape_uri lenient (percent_encode keep s) = Some s"
  using decode_percent_encode_append [of keep lenient s "[]"] by simp

lemma decode_encode [simp]: "decodeURIComponent (encodeURIComponent s) = Some s"
  unfolding encodeURIComponent_def decodeURIComponent_def
  by (rule decode_percent_encode) (simp add: unreserved_def)

text \<open>The characters of an escaped text are kept ones, the percent sign and hexadecimal digits.\<close>

lemma percent_encode_chars:
  "c \<in> set (percent_encode keep s) \<Longrightarrow> keep c \<and> c \<in> set s \<or> c = CHR ''%'' \<or> (\<exists>n < 16. c = hex_upper n)"
proof -
  have p: "c = CHR ''%'' \<or> (\<exists>n < 16. c = hex_upper n)" if "c \<in> set (percent d)" for d
  proof -
    have "(of_char d :: nat) div 16 < 16" "(of_char d :: nat) mod 16 < 16" using nat_of_char_less_256 [of d] by linarith+
    moreover have "c = CHR ''%'' \<or> c = hex_upper (of_char d div 16) \<or> c = hex_upper (of_char d mod 16)"
      using that by (simp add: percent_def)
    ultimately show ?thesis by blast
  qed
  show "c \<in> set (percent_encode keep s) \<Longrightarrow> keep c \<and> c \<in> set s \<or> c = CHR ''%'' \<or> (\<exists>n < 16. c = hex_upper n)"
    using p by (auto simp: percent_encode_def split: if_splits)
qed

section \<open>Cookies\<close>

text \<open>
  \<open>document.cookie\<close> as it is read: the pairs in one text, separated by semicolons. None is the
  URIError of a value that is no encoded text.
\<close>

fun find_cookie :: "string \<Rightarrow> string list \<Rightarrow> string option" where
  "find_cookie name [] = Some ''''"
| "find_cookie name (c # ca) =
     (let c = trim c in
      if starts_with name c then decodeURIComponent (drop (length name) c) else find_cookie name ca)"

definition getCookie :: "string \<Rightarrow> string \<Rightarrow> string option" where
  "getCookie cookie cname = find_cookie (cname @ ''='') (split_on (CHR '';'') cookie)"

text \<open>What is assigned to \<open>document.cookie\<close>; the date of expiry is given by its text.\<close>

definition setCookie :: "string \<Rightarrow> string \<Rightarrow> string option \<Rightarrow> string" where
  "setCookie cname cvalue expires =
     cname @ ''='' @ encodeURIComponent cvalue @ '';'' @
     (case expires of None \<Rightarrow> '''' | Some d \<Rightarrow> ''expires='' @ d @ '';'') @ ''path=/''"

lemmas starts_with_append = starts_with_prefix

lemma encoded_chars: "c \<in> set (encodeURIComponent s) \<Longrightarrow> unreserved c \<or> c = CHR ''%''"
proof -
  have h: "unreserved (hex_upper n)" if "n < 16" for n
    using that by (simp add: hex_upper_def unreserved_def Let_def)
  show "c \<in> set (encodeURIComponent s) \<Longrightarrow> unreserved c \<or> c = CHR ''%''"
    using percent_encode_chars [of c unreserved s] h unfolding encodeURIComponent_def by blast
qed

lemma encoded_no_space: "c \<in> set (encodeURIComponent s) \<Longrightarrow> \<not> is_space c \<and> c \<noteq> CHR '';''"
  using encoded_chars [of c s] by (auto simp: unreserved_def is_space_def Let_def)

lemma trim_no_space: "\<forall>c \<in> set s. \<not> is_space c \<Longrightarrow> trim s = s"
proof -
  have d: "dropWhile is_space t = t" if "\<forall>c \<in> set t. \<not> is_space c" for t
    using that by (cases t) auto
  assume "\<forall>c \<in> set s. \<not> is_space c"
  with d [of s] d [of "rev s"] show ?thesis by (simp add: trim_def)
qed

text \<open>A cookie that was set is read back, in front of any others.\<close>

definition cookie_name :: "string \<Rightarrow> bool" where
  "cookie_name n \<longleftrightarrow> list_all (\<lambda>c. \<not> is_space c \<and> c \<noteq> CHR '';'' \<and> c \<noteq> CHR ''='') n"

lemma getCookie_first:
  assumes "cookie_name cname" and "rest = '''' \<or> hd rest = CHR '';''"
  shows "getCookie (cname @ ''='' @ encodeURIComponent v @ rest) cname = Some v"
proof -
  let ?c = "cname @ ''='' @ encodeURIComponent v"
  have n: "\<forall>c \<in> set ?c. \<not> is_space c \<and> c \<noteq> CHR '';''"
    using assms(1) encoded_no_space [of _ v] by (auto simp: cookie_name_def list_all_iff is_space_def)
  then have t: "trim ?c = ?c" by (intro trim_no_space) blast
  have "CHR '';'' \<notin> set ?c" using n by blast
  then have "\<exists>ps. split_on (CHR '';'') (?c @ rest) = ?c # ps"
    using assms(2) by (cases rest) (auto simp: split_on_no_sep split_on_append_sep [of _ ?c, simplified])
  then obtain ps where ps: "split_on (CHR '';'') (?c @ rest) = ?c # ps" by blast
  have "starts_with (cname @ ''='') ?c" by (simp add: starts_with_append)
  moreover have "drop (length (cname @ ''='')) ?c = encodeURIComponent v" by simp
  ultimately show ?thesis using ps t by (simp add: getCookie_def)
qed

section \<open>The language of the panel\<close>

text \<open>The values of the languages the panel is translated to, in the order of the table.\<close>

definition supportedLanguages :: "string list" where
  "supportedLanguages =
     [''ar-EG'', ''en-US'', ''fa-IR'', ''zh-CN'', ''zh-TW'', ''ja-JP'', ''ru-RU'', ''vi-VN'', ''es-ES'', ''id-ID'',
      ''uk-UA'', ''tr-TR'', ''pt-BR'']"

definition isSupportLanguage :: "string \<Rightarrow> bool" where
  "isSupportLanguage language \<longleftrightarrow> length (filter (\<lambda>l. l = language) supportedLanguages) > 0"

definition simularLangs :: "(string \<times> string) list" where
  "simularLangs =
     [(''ar'', supportedLanguages ! 0), (''fa'', supportedLanguages ! 2), (''ja'', supportedLanguages ! 5),
      (''ru'', supportedLanguages ! 6), (''vi'', supportedLanguages ! 7), (''es'', supportedLanguages ! 8),
      (''id'', supportedLanguages ! 9), (''uk'', supportedLanguages ! 10), (''tr'', supportedLanguages ! 11),
      (''pt'', supportedLanguages ! 12)]"

text \<open>
  What a call does to the page: the language cookie it sets, if any, and whether the page is
  loaded again. \<open>getLanguage\<close> is given the cookie's value and the language of the browser, None
  where there is no navigator; the latter may be undefined in the code, and is text here.
\<close>

record page_effect =
  pe_cookie :: "string option"
  pe_reload :: bool

definition getLanguage :: "string \<Rightarrow> string option \<Rightarrow> string \<times> page_effect" where
  "getLanguage cookie navigator =
     (if cookie \<noteq> '''' then (cookie, \<lparr>pe_cookie = None, pe_reload = False\<rparr>)
      else case navigator of
        None \<Rightarrow> (cookie, \<lparr>pe_cookie = Some ''en-US'', pe_reload = True\<rparr>)
      | Some l \<Rightarrow>
         (let lang = foldl (\<lambda>lang pair. if lang = fst pair then snd pair else lang) l simularLangs in
          if isSupportLanguage lang then (lang, \<lparr>pe_cookie = Some lang, pe_reload = False\<rparr>)
          else (lang, \<lparr>pe_cookie = Some ''en-US'', pe_reload = True\<rparr>)))"

definition setLanguage :: "string \<Rightarrow> page_effect" where
  "setLanguage language =
     (let language = (if \<not> isSupportLanguage language then ''en-US'' else language)
      in \<lparr>pe_cookie = Some language, pe_reload = True\<rparr>)"

lemma isSupportLanguage_iff: "isSupportLanguage l \<longleftrightarrow> l \<in> set supportedLanguages"
  by (auto simp: isSupportLanguage_def filter_empty_conv)

lemma en_supported: "''en-US'' \<in> set supportedLanguages"
  by (simp add: supportedLanguages_def)

text \<open>The cookie that either function sets is always a language of the table.\<close>

lemma getLanguage_cookie:
  "pe_cookie (snd (getLanguage cookie navigator)) = Some l \<Longrightarrow> l \<in> set supportedLanguages"
  by (auto simp: getLanguage_def Let_def isSupportLanguage_iff en_supported split: if_splits option.splits)

lemma setLanguage_cookie: "pe_cookie (setLanguage l) = Some l' \<Longrightarrow> l' \<in> set supportedLanguages"
  by (auto simp: setLanguage_def Let_def isSupportLanguage_iff en_supported split: if_splits)

section \<open>URLBuilder\<close>

record location =
  loc_hostname :: string
  loc_port :: string
  loc_https :: bool

text \<open>\<open>!v || v.length === 0\<close>\<close>

definition missing :: "jsv \<Rightarrow> bool" where
  "missing v \<longleftrightarrow> \<not> truthy v \<or> js_get v ''length'' = Some (jint 0)"

definition buildURL :: "location \<Rightarrow> jsv \<Rightarrow> jsv \<Rightarrow> jsv \<Rightarrow> jsv \<Rightarrow> jsv \<Rightarrow> string" where
  "buildURL loc host port isTLS base path =
     (let host = (if missing host then JStr (loc_hostname loc) else host);
          port = (if missing port then JStr (loc_port loc) else port);
          isTLS = (if isTLS = JUndef then JBool (loc_https loc) else isTLS);
          protocol = (if truthy isTLS then ''https:'' else ''http:'');
          port = js_to_string port;
          port = (if port = '''' \<or> truthy isTLS \<and> port = ''443'' \<or> \<not> truthy isTLS \<and> port = ''80'' then ''''
                  else CHR '':'' # port)
      in protocol @ ''//'' @ js_to_string host @ port @ js_to_string base @ js_to_string path)"

section \<open>A page with several cookies\<close>

text \<open>The pair a \<open>setCookie\<close> leaves in \<open>document.cookie\<close>, without its attributes.\<close>

definition cookie_pair :: "string \<times> string \<Rightarrow> string" where
  "cookie_pair p = takeWhile (\<lambda>c. c \<noteq> CHR '';'') (setCookie (fst p) (snd p) None)"

lemma take_until: "x \<notin> set xs \<Longrightarrow> takeWhile (\<lambda>c. c \<noteq> x) (xs @ x # ys) = xs"
  by (induction xs) auto

lemma name_chars: "cookie_name n \<Longrightarrow> c \<in> set n \<Longrightarrow> \<not> is_space c \<and> c \<noteq> CHR '';'' \<and> c \<noteq> CHR ''=''"
  by (simp add: cookie_name_def list_all_iff)

lemma pair_text_chars:
  assumes "cookie_name n" and "c \<in> set (n @ ''='' @ encodeURIComponent v)"
  shows "\<not> is_space c \<and> c \<noteq> CHR '';''"
proof -
  have "\<not> is_space CHR ''='' \<and> CHR ''='' \<noteq> CHR '';''" by (simp add: is_space_def)
  with assms(2) name_chars [OF assms(1)] encoded_no_space [of c v] show ?thesis
    unfolding set_append list.set by blast
qed

lemma cookie_pair_text:
  assumes "cookie_name (fst p)"
  shows "cookie_pair p = fst p @ ''='' @ encodeURIComponent (snd p)"
proof -
  have "CHR '';'' \<notin> set (fst p @ ''='' @ encodeURIComponent (snd p))"
    using pair_text_chars [OF assms] by blast
  from take_until [OF this, of "''path=/''"] show ?thesis by (simp add: cookie_pair_def setCookie_def)
qed

lemma pair_chars:
  assumes "cookie_name (fst p)" and "c \<in> set (cookie_pair p)"
  shows "\<not> is_space c \<and> c \<noteq> CHR '';''"
  using pair_text_chars [OF assms(1)] assms(2) unfolding cookie_pair_text [OF assms(1)] by blast

lemma split_pairs:
  assumes "list_all (\<lambda>p. cookie_name (fst p)) (p # ps)" and "CHR '';'' \<notin> set pre"
  shows "split_on (CHR '';'') (pre @ join ''; '' (map cookie_pair (p # ps))) =
    (pre @ cookie_pair p) # map (\<lambda>q. CHR '' '' # cookie_pair q) ps"
  using assms
proof (induction ps arbitrary: p pre)
  case Nil
  then have "CHR '';'' \<notin> set (pre @ cookie_pair p)" using pair_chars [of p] by auto
  then show ?case by (simp add: split_on_no_sep)
next
  case (Cons q ps)
  have no: "CHR '';'' \<notin> set (pre @ cookie_pair p)" using Cons.prems pair_chars [of p] by auto
  have "pre @ join ''; '' (map cookie_pair (p # q # ps)) =
      (pre @ cookie_pair p) @ CHR '';'' # ('' '' @ join ''; '' (map cookie_pair (q # ps)))"
    by (simp add: join_Cons)
  then show ?case
    using Cons.IH [of q "'' ''"] Cons.prems split_on_append_sep [OF no] by simp
qed

lemma trim_pair:
  assumes "cookie_name (fst p)"
  shows "trim (cookie_pair p) = cookie_pair p" "trim (CHR '' '' # cookie_pair p) = cookie_pair p"
proof -
  have n: "\<forall>c \<in> set (cookie_pair p). \<not> is_space c" using pair_chars [OF assms] by blast
  then show "trim (cookie_pair p) = cookie_pair p" by (rule trim_no_space)
  moreover have "trim (CHR '' '' # s) = trim s" for s by (simp add: trim_def is_space_def)
  ultimately show "trim (CHR '' '' # cookie_pair p) = cookie_pair p" by simp
qed

lemma pair_starts:
  assumes "cookie_name (fst p)" and "cookie_name n"
  shows "starts_with (n @ ''='') (cookie_pair p) \<longleftrightarrow> fst p = n"
proof -
  have no: "CHR ''='' \<notin> set (fst p)" "CHR ''='' \<notin> set n" using name_chars assms by blast+
  have "fst p = n" if "fst p @ CHR ''='' # u = n @ CHR ''='' # r" for u r
    using take_until [OF no(1), of u] take_until [OF no(2), of r] that by simp
  then show ?thesis using assms(1) by (auto simp: starts_with_append cookie_pair_text)
qed

lemma find_pair:
  assumes "list_all (\<lambda>p. cookie_name (fst p)) ps" and "cookie_name n"
  shows "find_cookie (n @ ''='') (map (\<lambda>q. CHR '' '' # cookie_pair q) ps) =
    Some (case map_of ps n of None \<Rightarrow> '''' | Some v \<Rightarrow> v)"
  using assms(1)
proof (induction ps)
  case (Cons p ps)
  then show ?case
    using trim_pair [of p] pair_starts [of p n] assms(2) cookie_pair_text [of p] by (cases p) auto
qed simp

text \<open>
  C33: cookies are a map. When \<open>document.cookie\<close> lists the pairs that calls of \<open>setCookie\<close> have
  left, with any values (also ones with semicolons, equals signs, spaces or accents),
  \<open>getCookie\<close> returns the value of the name, and the empty text for a name that was not set;
  one name being the beginning or the end of another does no harm.
\<close>
theorem getCookie_map:
  assumes "list_all (\<lambda>p. cookie_name (fst p)) ps" and "cookie_name n"
  shows "getCookie (join ''; '' (map cookie_pair ps)) n = Some (case map_of ps n of None \<Rightarrow> '''' | Some v \<Rightarrow> v)"
proof (cases ps)
  case Nil
  then show ?thesis by (simp add: getCookie_def starts_with_append)
next
  case (Cons p qs)
  then have s: "split_on (CHR '';'') (join ''; '' (map cookie_pair ps)) =
      cookie_pair p # map (\<lambda>q. CHR '' '' # cookie_pair q) qs"
    using split_pairs [of p qs "[]"] assms(1) by simp
  have "find_cookie (n @ ''='') (cookie_pair p # map (\<lambda>q. CHR '' '' # cookie_pair q) qs) =
      find_cookie (n @ ''='') (map (\<lambda>q. CHR '' '' # cookie_pair q) ps)"
    using trim_pair [of p] assms(1) Cons by simp
  then show ?thesis using find_pair [OF assms] by (simp only: getCookie_def s)
qed

theorem getCookie_map_witness:
  "let ps = [(''lang'', ''ru; = RU''), (''l'', ''x'')]
   in getCookie (join ''; '' (map cookie_pair ps)) ''l'' = Some (case map_of ps ''l'' of None \<Rightarrow> '''' | Some v \<Rightarrow> v)"
  unfolding Let_def by (rule getCookie_map) (simp_all add: cookie_name_def is_space_def)

text \<open>
  C38: the language of the panel settles after at most one reload. Whatever the browser's
  language is, a cookie that \<open>getLanguage\<close> or \<open>setLanguage\<close> sets is a language of the table; and
  the next call, with that cookie, returns it without setting a cookie or reloading again.
\<close>
theorem language_settles:
  "(case pe_cookie (snd (getLanguage '''' navigator)) of
      None \<Rightarrow> False
    | Some l \<Rightarrow> l \<in> set supportedLanguages \<and>
        getLanguage l navigator' = (l, \<lparr>pe_cookie = None, pe_reload = False\<rparr>)) \<and>
   (case pe_cookie (setLanguage language) of None \<Rightarrow> False | Some l \<Rightarrow> l \<in> set supportedLanguages)"
proof -
  have ne: "l \<noteq> ''''" if "l \<in> set supportedLanguages" for l
    using that by (auto simp: supportedLanguages_def)
  have g: "\<exists>l. pe_cookie (snd (getLanguage '''' navigator)) = Some l"
    by (simp add: getLanguage_def Let_def split: option.split)
  have s: "\<exists>l. pe_cookie (setLanguage language) = Some l" by (simp add: setLanguage_def Let_def)
  have again: "getLanguage l navigator' = (l, \<lparr>pe_cookie = None, pe_reload = False\<rparr>)" if "l \<noteq> ''''" for l
    using that by (simp add: getLanguage_def)
  show ?thesis
    using g s getLanguage_cookie [of "''''" navigator] setLanguage_cookie [of language] ne again by fastforce
qed

text \<open>
  No failed request goes unnoticed. When axios rejects, with or without data of the
  server, \<open>get\<close> and \<open>post\<close> return an unsuccessful message with a text and show that text as an
  error, and \<open>postWithModal\<close> stops the spinner and leaves the modal open.
\<close>
theorem failed_request_shown:
  "\<exists>m. HttpUtil_get (Failure data text) = (AsMsg m, Some (''error'', m_msg m)) \<and>
     HttpUtil_post (Failure data text) = HttpUtil_get (Failure data text) \<and>
     m_success m = JBool False \<and> truthy (m_msg m) \<and>
     postWithModal True (Failure data text) = (AsMsg m, [Loading True, Loading False])"
proof -
  let ?m = "new_Msg (JBool False) (error_text data text) JUndef"
  have t: "truthy (m_msg ?m)" "m_success ?m = JBool False" by (simp_all add: new_Msg_def error_text_truthy)
  then have "m_msg ?m \<noteq> JStr ''''" by auto
  with t show ?thesis
    by (intro exI [of _ ?m])
       (simp add: HttpUtil_get_def HttpUtil_post_def http_request_def postWithModal_def handleMsg_def Let_def)
qed

end
