(* ===== verification/Url.thy ===== *)
theory Url
  imports Browser
begin

text \<open>
  The browser's URL and URLSearchParams as the link builders and readers use them
  (web/assets/js/model/inbound.js, outbound.js): a URL is its text up to the query, the list
  of its query parameters, and its fragment. How the text up to the query is checked and
  rewritten (scheme, user, host, port, path) is the parameter \<open>canon\<close> of the model, with None for the
  TypeError of a malformed link. The query and the fragment are those of the WHATWG standard:
  percent escapes of UTF-8, with a plus sign for a blank in the query.
\<close>

section \<open>Query texts\<close>

definition form_keep :: "char \<Rightarrow> bool" where
  "form_keep c \<longleftrightarrow> (let n = of_char c :: nat in
     48 \<le> n \<and> n \<le> 57 \<or> 65 \<le> n \<and> n \<le> 90 \<or> 97 \<le> n \<and> n \<le> 122 \<or> n = 42 \<or> n = 45 \<or> n = 46 \<or> n = 95)"

definition swap_char :: "char \<Rightarrow> char \<Rightarrow> string \<Rightarrow> string" where
  "swap_char a b s = map (\<lambda>c. if c = a then b else c) s"

definition form_encode :: "string \<Rightarrow> string" where
  "form_encode s = swap_char (CHR '' '') (CHR ''+'') (percent_encode (\<lambda>c. form_keep c \<or> c = CHR '' '') s)"

definition form_decode :: "string \<Rightarrow> string option" where
  "form_decode s = unescape_uri True (swap_char (CHR ''+'') (CHR '' '') s)"

lemma form_encode_chars:
  "c \<in> set (form_encode s) \<Longrightarrow> form_keep c \<or> c = CHR ''%'' \<or> c = CHR ''+''"
proof -
  have h: "form_keep (hex_upper n)" if "n < 16" for n
    using that by (simp add: hex_upper_def form_keep_def Let_def)
  assume "c \<in> set (form_encode s)"
  then obtain d where d: "d \<in> set (percent_encode (\<lambda>c. form_keep c \<or> c = CHR '' '') s)"
    "c = (if d = CHR '' '' then CHR ''+'' else d)"
    unfolding form_encode_def swap_char_def by auto
  have "form_keep d \<or> d = CHR '' '' \<or> d = CHR ''%''" using percent_encode_chars [OF d(1)] h by blast
  with d(2) show "form_keep c \<or> c = CHR ''%'' \<or> c = CHR ''+''" by auto
qed

lemma form_decode_encode [simp]: "form_decode (form_encode s) = Some s"
proof -
  let ?keep = "\<lambda>c. form_keep c \<or> c = CHR '' ''"
  have "c \<noteq> CHR ''+''" if "c \<in> set (percent_encode ?keep s)" for c
  proof -
    have no: "CHR ''+'' \<noteq> hex_upper n" if "n < 16" for n
    proof
      assume "CHR ''+'' = hex_upper n"
      then have "of_char (CHR ''+'') = (of_char (hex_upper n) :: nat)" by (rule arg_cong)
      then show False using hex_upper_code [OF that] by (auto split: if_splits)
    qed
    show ?thesis using percent_encode_chars [OF that] no by (auto simp: form_keep_def)
  qed
  then have "swap_char (CHR ''+'') (CHR '' '') (form_encode s) = percent_encode ?keep s"
    unfolding form_encode_def swap_char_def map_map comp_def by (intro map_idI) auto
  then show ?thesis
    using decode_percent_encode [of ?keep True s] by (simp add: form_decode_def form_keep_def)
qed

text \<open>The text of a list of parameters, and the list of a text.\<close>

definition form_pair :: "string \<times> string \<Rightarrow> string" where
  "form_pair p = form_encode (fst p) @ ''='' @ form_encode (snd p)"

definition form_text :: "(string \<times> string) list \<Rightarrow> string" where
  "form_text ps = join ''&'' (map form_pair ps)"

definition cut :: "char \<Rightarrow> string \<Rightarrow> string \<times> string" where
  "cut c s = (takeWhile (\<lambda>d. d \<noteq> c) s, drop 1 (dropWhile (\<lambda>d. d \<noteq> c) s))"

definition form_read :: "string \<Rightarrow> (string \<times> string) option" where
  "form_read s = (let (k, v) = cut (CHR ''='') s in do { k \<leftarrow> form_decode k; v \<leftarrow> form_decode v; Some (k, v) })"

definition form_parse :: "string \<Rightarrow> (string \<times> string) list option" where
  "form_parse s = mapM form_read (filter (\<lambda>p. p \<noteq> '''') (split_on (CHR ''&'') s))"

lemma cut_at: "c \<notin> set s \<Longrightarrow> cut c (s @ c # t) = (s, t)"
  by (induction s) (auto simp: cut_def)

lemma cut_none: "c \<notin> set s \<Longrightarrow> cut c s = (s, [])"
  by (induction s) (auto simp: cut_def)

lemma form_encode_no: "c \<in> {CHR ''='', CHR ''&'', CHR ''#'', CHR ''?'', CHR '':'', CHR '' '', CHR ''@'', CHR 0x09, CHR 0x0A, CHR 0x0D} \<Longrightarrow>
    c \<notin> set (form_encode s)"
  using form_encode_chars [of c s] by (auto simp: form_keep_def)

lemma form_read_pair [simp]: "form_read (form_pair p) = Some p"
proof -
  have "CHR ''='' \<notin> set (form_encode (fst p))" by (rule form_encode_no) simp
  then show ?thesis by (simp add: form_read_def form_pair_def cut_at)
qed

lemma form_parse_text [simp]: "form_parse (form_text ps) = Some ps"
proof (cases "ps = []")
  case False
  have "CHR ''&'' \<notin> set (form_pair p)" for p
    using form_encode_no [of "CHR ''&''"] by (simp add: form_pair_def)
  then have "split_on (CHR ''&'') (form_text ps) = map form_pair ps"
    unfolding form_text_def using False by (intro split_join) auto
  moreover have "filter (\<lambda>p. p \<noteq> '''') (map form_pair ps) = map form_pair ps"
    by (intro filter_True) (auto simp: form_pair_def)
  ultimately show ?thesis by (simp add: form_parse_def mapM_inverse)
qed (simp add: form_text_def form_parse_def)

section \<open>URL\<close>

record url =
  u_base :: string
  u_params :: "(string \<times> string) list"
  u_hash :: string

text \<open>
  A link is read after leading and trailing blanks and all tabs and line breaks are removed; the
  fragment starts at the first number sign, the query at the first question mark before it.
\<close>

definition fragment_keep :: "char \<Rightarrow> bool" where
  "fragment_keep c \<longleftrightarrow> (let n = of_char c :: nat in 32 < n \<and> n < 127 \<and> n \<noteq> 34 \<and> n \<noteq> 60 \<and> n \<noteq> 62 \<and> n \<noteq> 96)"

text \<open>The fragment keeps percent signs: what is escaped already is not escaped again.\<close>

definition fragment_text :: "string \<Rightarrow> string" where
  "fragment_text s = percent_encode fragment_keep s"

definition blank :: "char \<Rightarrow> bool" where
  "blank c \<longleftrightarrow> (of_char c :: nat) \<le> 32"

definition strip_link :: "string \<Rightarrow> string" where
  "strip_link s =
     filter (\<lambda>c. c \<noteq> CHR 0x09 \<and> c \<noteq> CHR 0x0A \<and> c \<noteq> CHR 0x0D) (rev (dropWhile blank (rev (dropWhile blank s))))"

definition new_URL :: "(string \<Rightarrow> string option) \<Rightarrow> string \<Rightarrow> url option" where
  "new_URL canon link =
     (let (front, fragment) = cut (CHR ''#'') (strip_link link);
          (base, query) = cut (CHR ''?'') front
      in do { base \<leftarrow> canon base; ps \<leftarrow> form_parse query;
              Some \<lparr>u_base = base, u_params = ps, u_hash = fragment_text fragment\<rparr> })"

text \<open>\<open>searchParams.set\<close> replaces the first value of the name and removes the others.\<close>

fun params_set :: "(string \<times> string) list \<Rightarrow> string \<Rightarrow> string \<Rightarrow> (string \<times> string) list" where
  "params_set [] k v = [(k, v)]"
| "params_set (p # ps) k v = (if fst p = k then (k, v) # filter (\<lambda>q. fst q \<noteq> k) ps else p # params_set ps k v)"

text \<open>\<open>searchParams.get\<close>, and null for a name that is not there.\<close>

definition params_get :: "url \<Rightarrow> string \<Rightarrow> jsv" where
  "params_get u k = (case map_of (u_params u) k of Some v \<Rightarrow> JStr v | None \<Rightarrow> JNull)"

definition url_set :: "url \<Rightarrow> string \<Rightarrow> string \<Rightarrow> url" where
  "url_set u k v = u\<lparr>u_params := params_set (u_params u) k v\<rparr>"

text \<open>The getter \<open>url.hash\<close>, its setter for a text that does not start with a number sign, and \<open>toString\<close>.\<close>

definition url_hash :: "url \<Rightarrow> string" where
  "url_hash u = (if u_hash u = '''' then '''' else CHR ''#'' # u_hash u)"

definition url_set_hash :: "url \<Rightarrow> string \<Rightarrow> url" where
  "url_set_hash u s = u\<lparr>u_hash := fragment_text s\<rparr>"

definition url_text :: "url \<Rightarrow> string" where
  "url_text u = u_base u @ (if u_params u = [] then '''' else CHR ''?'' # form_text (u_params u)) @ url_hash u"

lemma unreserved_kept: "unreserved c \<Longrightarrow> fragment_keep c"
  by (auto simp: unreserved_def fragment_keep_def Let_def)

lemma percent_encode_kept: "(\<And>c. c \<in> set s \<Longrightarrow> keep c) \<Longrightarrow> percent_encode keep s = s"
  by (induction s) (auto simp: percent_encode_def)

lemma encoded_kept: "c \<in> set (encodeURIComponent s) \<Longrightarrow> fragment_keep c"
  using encoded_chars [of c s] unreserved_kept by (auto simp: fragment_keep_def)

lemma fragment_encoded [simp]: "fragment_text (encodeURIComponent s) = encodeURIComponent s"
  unfolding fragment_text_def by (rule percent_encode_kept) (rule encoded_kept)

text \<open>A text that \<open>new_URL\<close> takes apart again.\<close>

definition clean_base :: "string \<Rightarrow> bool" where
  "clean_base s \<longleftrightarrow> s \<noteq> '''' \<and> list_all (\<lambda>c. fragment_keep c \<and> c \<noteq> CHR ''?'' \<and> c \<noteq> CHR ''#'') s"

lemma kept_not_blank: "fragment_keep c \<Longrightarrow> \<not> blank c \<and> c \<noteq> CHR 0x09 \<and> c \<noteq> CHR 0x0A \<and> c \<noteq> CHR 0x0D"
  by (auto simp: fragment_keep_def blank_def Let_def)

lemma strip_clean: "list_all fragment_keep s \<Longrightarrow> strip_link s = s"
proof -
  assume s: "list_all fragment_keep s"
  have b: "dropWhile blank t = t" if "list_all fragment_keep t" for t
    using that by (cases t) (simp_all add: kept_not_blank)
  have "\<forall>c \<in> set s. c \<noteq> CHR 0x09 \<and> c \<noteq> CHR 0x0A \<and> c \<noteq> CHR 0x0D"
    using s kept_not_blank unfolding list_all_iff by blast
  moreover have "list_all fragment_keep (rev s)" using s by (simp add: list_all_iff)
  ultimately show ?thesis using b [OF s] b [of "rev s"] by (simp add: strip_link_def)
qed

definition query_char :: "char \<Rightarrow> bool" where
  "query_char c \<longleftrightarrow> form_keep c \<or> c = CHR ''%'' \<or> c = CHR ''+'' \<or> c = CHR ''='' \<or> c = CHR ''&''"

lemma form_text_chars: "c \<in> set (form_text ps) \<Longrightarrow> query_char c"
proof (induction ps)
  case (Cons q ps)
  have p: "c \<in> set (form_pair q) \<Longrightarrow> query_char c"
    using form_encode_chars [of c] by (auto simp: form_pair_def query_char_def)
  show ?case
  proof (cases "ps = []")
    case True
    with Cons.prems p show ?thesis by (simp add: form_text_def)
  next
    case False
    then have "form_text (q # ps) = form_pair q @ ''&'' @ form_text ps"
      by (simp add: form_text_def join_Cons)
    with Cons p show ?thesis by (auto simp: query_char_def)
  qed
qed (simp add: form_text_def)

lemma query_char_facts:
  "query_char c \<Longrightarrow> fragment_keep c \<and> c \<noteq> CHR ''#'' \<and> c \<noteq> CHR ''?'' \<and> c \<noteq> CHR '':'' \<and> c \<noteq> CHR ''@''"
  by (auto simp: query_char_def form_keep_def fragment_keep_def Let_def)

lemma url_again:
  assumes base: "clean_base (u_base u)" "canon (u_base u) = Some (u_base u)"
    and hash: "u_hash u = encodeURIComponent r"
  shows "new_URL canon (url_text u) = Some u"
proof -
  let ?q = "if u_params u = [] then '''' else CHR ''?'' # form_text (u_params u)"
  let ?h = "url_hash u"
  have b: "list_all fragment_keep (u_base u)" "CHR ''?'' \<notin> set (u_base u)" "CHR ''#'' \<notin> set (u_base u)"
    using base(1) by (auto simp: clean_base_def list_all_iff)
  have kq: "fragment_keep (CHR ''?'')" "fragment_keep (CHR ''#'')" by (simp_all add: fragment_keep_def)
  have t: "\<forall>c \<in> set (form_text (u_params u)). fragment_keep c \<and> c \<noteq> CHR ''#''"
    using form_text_chars query_char_facts by blast
  have q: "list_all fragment_keep ?q" "CHR ''#'' \<notin> set ?q"
    using t kq(1) by (auto simp: list_all_iff)
  have h: "list_all fragment_keep ?h"
    using encoded_kept kq by (auto simp: list_all_iff url_hash_def hash)
  have s: "strip_link (url_text u) = url_text u"
    by (rule strip_clean) (use b q h in \<open>simp add: url_text_def\<close>)
  have f: "cut (CHR ''#'') (url_text u) = (u_base u @ ?q, u_hash u)"
    using b(3) q(2) cut_at [of "CHR ''#''" "u_base u @ ?q" "u_hash u"] cut_none [of "CHR ''#''" "u_base u @ ?q"]
    by (cases "u_params u = []"; cases "u_hash u = []") (simp_all add: url_text_def url_hash_def)
  have g: "cut (CHR ''?'') (u_base u @ ?q) = (u_base u, if u_params u = [] then '''' else form_text (u_params u))"
    using b(2) cut_at [of "CHR ''?''" "u_base u" "form_text (u_params u)"] cut_none [of "CHR ''?''" "u_base u"] by simp
  have p: "form_parse (if u_params u = [] then '''' else form_text (u_params u)) = Some (u_params u)"
    by (cases "u_params u = []") (simp_all only: if_True if_False refl form_parse_text, simp add: form_parse_def)
  show ?thesis by (simp add: new_URL_def s f g p base(2) Let_def, simp add: hash)
qed

end
