(* ===== verification/OutLinks.thy ===== *)
theory OutLinks
  imports OutBound Url
begin

text \<open>
  Reading share links into outbounds (class Outbound of web/assets/js/model/outbound.js). A
  result None is an exception and Some None is null, the answer for a text that is no link. The parameter \<open>canon\<close> is the
  browser's reading of the text of a URL before the query.
\<close>

section \<open>The extra object of xHTTP\<close>

definition is_text :: "jsv \<Rightarrow> bool" where
  "is_text v \<longleftrightarrow> (case v of JStr s \<Rightarrow> s \<noteq> '''' | _ \<Rightarrow> False)"

definition is_obj :: "jsv \<Rightarrow> bool" where
  "is_obj v \<longleftrightarrow> truthy v \<and> js_typeof v = ''object''"

text \<open>
  The fields the class owns are routed one by one, each looking at its own old value only. A mode, path
  or host that is set stays; the properties of xmux are merged into the old ones.
\<close>

definition applyXhttpExtra :: "OutXhttp \<Rightarrow> jsv \<Rightarrow> bool \<Rightarrow> OutXhttp" where
  "applyXhttpExtra xh extra collectUnknown =
     (if \<not> is_obj extra then xh
      else let get = js_get_opt extra in
        xh\<lparr>ox_mode := (if \<not> truthy (ox_mode xh) \<and> is_text (get ''mode'') then get ''mode'' else ox_mode xh),
           ox_path := (if \<not> truthy (ox_path xh) \<and> is_text (get ''path'') then get ''path'' else ox_path xh),
           ox_host := (if \<not> truthy (ox_host xh) \<and> is_text (get ''host'') then get ''host'' else ox_host xh),
           ox_noGRPCHeader :=
             (if js_typeof (get ''noGRPCHeader'') = ''boolean'' then get ''noGRPCHeader'' else ox_noGRPCHeader xh),
           ox_scMaxEachPostBytes :=
             (if get ''scMaxEachPostBytes'' \<noteq> JUndef \<and> get ''scMaxEachPostBytes'' \<noteq> JStr ''''
              then get ''scMaxEachPostBytes'' else ox_scMaxEachPostBytes xh),
           ox_scMinPostsIntervalMs :=
             (if get ''scMinPostsIntervalMs'' \<noteq> JUndef \<and> get ''scMinPostsIntervalMs'' \<noteq> JStr ''''
              then get ''scMinPostsIntervalMs'' else ox_scMinPostsIntervalMs xh),
           ox_xPaddingBytes := (if is_text (get ''xPaddingBytes'') then get ''xPaddingBytes'' else ox_xPaddingBytes xh),
           ox_xmux :=
             (if is_obj (get ''xmux'')
              then JObj (obj_assign (obj_assign [] (own_entries (ox_xmux xh))) (own_entries (get ''xmux'')))
              else ox_xmux xh),
           ox_downloadSettings :=
             (if get ''downloadSettings'' \<noteq> JUndef \<and> get ''downloadSettings'' \<noteq> JNull
              then get ''downloadSettings'' else ox_downloadSettings xh),
           ox_extra := (if collectUnknown then collect_unknown (ox_extra xh) (own_entries extra) else ox_extra xh)\<rparr>)"

section \<open>VMess links\<close>

text \<open>\<open>const n = Number(v); if (Number.isFinite(n) && n > 0) ...\<close>: the numbers of a mKCP link.\<close>

definition positive_number :: "jsv \<Rightarrow> jsv \<Rightarrow> jsv" where
  "positive_number v old =
     (case js_to_number v of Fin q \<Rightarrow> if q > 0 then JNum (Fin q) else old | _ \<Rightarrow> old)"

definition set_kcp :: "jsv \<Rightarrow> jsv \<Rightarrow> OutKcp \<Rightarrow> OutKcp" where
  "set_kcp mtu tti k = k\<lparr>okcp_mtu := positive_number mtu (okcp_mtu k), okcp_tti := positive_number tti (okcp_tti k)\<rparr>"

text \<open>\<open>v ? v.split(',') : []\<close>\<close>

definition split_alpn :: "jsv \<Rightarrow> jsv option" where
  "split_alpn v = (if truthy v then js_split (CHR '','') v else Some (JArr []))"

text \<open>The extra of a VMess link may be a text; one that cannot be parsed is ignored.\<close>

definition parsed_extra :: "jsv \<Rightarrow> jsv" where
  "parsed_extra v =
     (case v of JStr s \<Rightarrow> (case json_parse s of Some p \<Rightarrow> p | None \<Rightarrow> JUndef) | _ \<Rightarrow> v)"

definition vmess_xhttp :: "jsv \<Rightarrow> OutXhttp" where
  "vmess_xhttp json =
     (let get = js_get_opt json;
          xh = new_OutXhttp (get ''path'') (get ''host'') JUndef JUndef JUndef JUndef JUndef JUndef JUndef [];
          xh = (if truthy (get ''mode'') then xh\<lparr>ox_mode := get ''mode''\<rparr> else xh);
          extra = parsed_extra (get ''extra'')
      in if is_obj extra then applyXhttpExtra xh extra True else applyXhttpExtra xh json False)"

text \<open>
  The code sets type and seed of a mKCP stream on the stream object, where nothing reads them:
  they are no part of the state.
\<close>

definition vmess_stream :: "jsv \<Rightarrow> OutStreamSettings" where
  "vmess_stream json =
     (let get = js_get_opt json; network = get ''net''; s = plain_stream network (get ''tls'') in
      if network = JStr ''tcp''
      then s\<lparr>os_tcp := new_OutTcp (get ''type'') (nullish (get ''host'') (JStr '''')) (nullish (get ''path'') (JStr ''''))\<rparr>
      else if network = JStr ''kcp'' then s\<lparr>os_kcp := set_kcp (get ''mtu'') (get ''tti'') default_OutKcp\<rparr>
      else if network = JStr ''ws'' then s\<lparr>os_ws := new_OutWs (get ''path'') (get ''host'') JUndef\<rparr>
      else if network = JStr ''grpc''
      then s\<lparr>os_grpc := new_OutGrpc (get ''path'') (get ''authority'') (JBool (loose_text (get ''type'') ''multi''))\<rparr>
      else if network = JStr ''httpupgrade'' then s\<lparr>os_httpupgrade := new_OutHttpUpgrade (get ''path'') (get ''host'')\<rparr>
      else if network = JStr ''xhttp'' then s\<lparr>os_xhttp := vmess_xhttp json\<rparr>
      else s)"

text \<open>Reading a property of null throws; undefined is replaced by the empty object.\<close>

definition fromVmessLink :: "jsv \<Rightarrow> Outbound option" where
  "fromVmessLink json =
     (let json = dflt json (JObj []); get = js_get_opt json; s = vmess_stream json in
      if json = JNull then None
      else do { s \<leftarrow> (if truthy (get ''tls'') \<and> loose_text (get ''tls'') ''tls''
                      then do { alpn \<leftarrow> split_alpn (get ''alpn'');
                                Some (s\<lparr>os_tls := new_OutTls (get ''sni'') alpn (get ''fp'') JUndef JUndef JUndef\<rparr>) }
                      else Some s);
                (let port = JNum (js_to_number (get ''port'')) in
                 new_Outbound (get ''ps'') (JStr ''vmess'')
                   (Some (OVmess (new_OutVmess (get ''add'') port (get ''id'') (get ''scy'')))) (Some s) JUndef None) })"

section \<open>Links with parameters\<close>

definition param :: "url \<Rightarrow> string \<Rightarrow> jsv \<Rightarrow> jsv" where
  "param url k d = nullish (params_get url k) d"

definition param_xhttp :: "url \<Rightarrow> jsv \<Rightarrow> jsv \<Rightarrow> jsv \<Rightarrow> OutXhttp" where
  "param_xhttp url path host mode =
     (let xh = new_OutXhttp path host JUndef JUndef JUndef JUndef JUndef JUndef JUndef [];
          xh = (if truthy mode then xh\<lparr>ox_mode := mode\<rparr> else xh);
          xpb = params_get url ''x_padding_bytes'';
          xh = (if truthy xpb then xh\<lparr>ox_xPaddingBytes := xpb\<rparr> else xh)
      in case params_get url ''extra'' of
           JStr s \<Rightarrow> (if s = '''' then xh
                      else case json_parse s of Some extra \<Rightarrow> applyXhttpExtra xh extra True | None \<Rightarrow> xh)
         | _ \<Rightarrow> xh)"

text \<open>Type and seed of a mKCP stream are set on the settings object, where nothing reads them.\<close>

definition param_network :: "url \<Rightarrow> OutStreamSettings \<Rightarrow> OutStreamSettings" where
  "param_network url s =
     (let type_v = param url ''type'' (JStr ''tcp''); headerType = param url ''headerType'' JUndef;
          host = param url ''host'' JUndef; path = param url ''path'' JUndef; mode = param url ''mode'' JUndef in
      if type_v = JStr ''tcp'' \<or> type_v = JStr ''none''
      then s\<lparr>os_tcp := new_OutTcp (nullish headerType (JStr ''none'')) host path\<rparr>
      else if type_v = JStr ''kcp''
      then s\<lparr>os_kcp := set_kcp (params_get url ''mtu'') (params_get url ''tti'') default_OutKcp\<rparr>
      else if type_v = JStr ''ws'' then s\<lparr>os_ws := new_OutWs path host JUndef\<rparr>
      else if type_v = JStr ''grpc''
      then s\<lparr>os_grpc := new_OutGrpc (param url ''serviceName'' (JStr '''')) (param url ''authority'' (JStr ''''))
             (JBool (loose_text (params_get url ''mode'') ''multi''))\<rparr>
      else if type_v = JStr ''httpupgrade'' then s\<lparr>os_httpupgrade := new_OutHttpUpgrade path host\<rparr>
      else if type_v = JStr ''xhttp'' then s\<lparr>os_xhttp := param_xhttp url path host mode\<rparr>
      else s)"

definition param_security :: "url \<Rightarrow> OutStreamSettings \<Rightarrow> OutStreamSettings" where
  "param_security url s =
     (let security = param url ''security'' (JStr ''none'') in
      if security = JStr ''tls''
      then s\<lparr>os_tls := new_OutTls (param url ''sni'' (JStr ''''))
               (case split_alpn (params_get url ''alpn'') of Some a \<Rightarrow> a | None \<Rightarrow> JArr [])
               (param url ''fp'' (JStr '''')) (param url ''ech'' (JStr '''')) JUndef JUndef\<rparr>
      else if security = JStr ''reality''
      then s\<lparr>os_reality := new_OutReality (params_get url ''pbk'') (params_get url ''fp'') (param url ''sni'' (JStr ''''))
               (param url ''sid'' (JStr '''')) (param url ''spx'' (JStr '''')) (param url ''pqv'' (JStr ''''))\<rparr>
      else s)"

subsection \<open>Taking a link apart\<close>

text \<open>\<open>s.split(sep)\<close> for a separator of several characters.\<close>

function split_seq :: "string \<Rightarrow> string \<Rightarrow> string list" where
  "split_seq sep s =
     (if s = '''' then ['''']
      else if sep \<noteq> '''' \<and> take (length sep) s = sep then '''' # split_seq sep (drop (length sep) s)
      else case split_seq sep (tl s) of p # ps \<Rightarrow> (hd s # p) # ps | [] \<Rightarrow> [])"
  by pat_completeness auto
termination by (relation "measure (length \<circ> snd)") auto

declare split_seq.simps [simp del]

text \<open>
  The regular expression of the parameter links, \<open>([^@]+):\/\/([^@]+)@(.+):(\d+)(.*)$\<close>, on a link with one
  separator \<open>://\<close>: the user is the text up to the first at sign, the port the digits after the last
  colon that has a digit behind it, and a dot matches no line break.
\<close>

definition line_break :: "char \<Rightarrow> bool" where
  "line_break c \<longleftrightarrow> c = CHR 0x0A \<or> c = CHR 0x0D"

definition port_places :: "string \<Rightarrow> nat list" where
  "port_places s = filter (\<lambda>i. s ! i = CHR '':'' \<and> is_digit (s ! Suc i)) [1..<length s - 1]"

definition match_address :: "string \<Rightarrow> (string \<times> string) option" where
  "match_address s =
     (if port_places s = [] \<or> list_ex line_break s then None
      else let i = last (port_places s) in Some (take i s, takeWhile is_digit (drop (Suc i) s)))"

definition match_link :: "string \<Rightarrow> (string \<times> string \<times> string \<times> string) option" where
  "match_link link =
     (case split_seq ''://'' link of
        [scheme, rest] \<Rightarrow>
          (let (user, r) = cut (CHR ''@'') rest in
           if scheme = '''' \<or> user = '''' \<or> CHR ''@'' \<in> set scheme then None
           else do { (address, port) \<leftarrow> match_address r; Some (scheme, user, address, port) })
      | _ \<Rightarrow> None)"

text \<open>\<open>out-<protocol>-<port>\<close>, the name of an outbound whose link has none.\<close>

definition default_name :: "string \<Rightarrow> jnum \<Rightarrow> string" where
  "default_name protocol port = ''out-'' @ protocol @ ''-'' @ show_num port"

definition link_settings :: "url \<Rightarrow> string \<Rightarrow> string \<Rightarrow> string \<Rightarrow> jnum \<Rightarrow> (string \<times> osettings) option option" where
  "link_settings url scheme user address port =
     (if scheme = ''vless''
      then Some (Some (scheme, OVless (new_OutVless (JStr address) (JNum port) (JStr user) (param url ''flow'' (JStr ''''))
             (param url ''encryption'' (JStr ''none'')) JUndef JUndef)))
      else if scheme = ''trojan''
      then Some (Some (scheme, OTrojan (new_OutTrojan (JStr address) (JNum port) (JStr user))))
      else if scheme = ''ss''
      then do { text \<leftarrow> atob user;
                (let parts = split_on (CHR '':'') text in
                 Some (Some (''shadowsocks'',
                   OShadowsocks (new_OutShadowsocks (JStr address) (JNum port) (JStr (join '':'' (tl parts)))
                     (JStr (hd parts)) (JBool True) JUndef)))) }
      else if scheme = ''shadowsocks'' then None
      else Some None)"

definition fromParamLink :: "(string \<Rightarrow> string option) \<Rightarrow> string \<Rightarrow> Outbound option option" where
  "fromParamLink canon link =
     do { url \<leftarrow> new_URL canon link;
          (let stream = param_security url (param_network url
                 (plain_stream (param url ''type'' (JStr ''tcp'')) (param url ''security'' (JStr ''none'')))) in
           case match_link link of
             None \<Rightarrow> Some None
           | Some (scheme, user, address, port) \<Rightarrow>
               do { settings \<leftarrow> link_settings url scheme user address (str_to_number port);
                    case settings of
                      None \<Rightarrow> Some None
                    | Some (protocol, settings) \<Rightarrow>
                        do { remark \<leftarrow> decodeURIComponent (url_hash url);
                             (let remark = (if remark \<noteq> '''' then tl remark
                                            else default_name protocol (str_to_number port)) in
                              map_option Some
                                (new_Outbound (JStr remark) (JStr protocol) (Some settings) (Some stream) JUndef None)) } }) }"

section \<open>Hysteria links\<close>

text \<open>\<open>parseInt(s)\<close>: blanks, a sign, and the longest run of digits, hexadecimal after 0x.\<close>

definition parse_int :: "string \<Rightarrow> jnum" where
  "parse_int s =
     (let (sign, t) = read_sign (trim_left s) in
      if lower (take 2 t) = ''0x'' \<and> takeWhile (\<lambda>c. hex_val c \<noteq> None) (drop 2 t) \<noteq> ''''
      then (case read_radix 16 (takeWhile (\<lambda>c. hex_val c \<noteq> None) (drop 2 t)) of Some q \<Rightarrow> Fin (sign * q) | None \<Rightarrow> NaN)
      else if lower (take 2 t) = ''0x'' then NaN
      else let ds = takeWhile is_digit t in if ds = '''' then NaN else Fin (sign * of_nat (read_nat ds)))"

text \<open>\<open>/^hysteria2?:\/\/([^@]+)@([^:?#]+):(\d+)([^#]*)(#.*)?$/\<close>\<close>

definition strip_scheme :: "string \<Rightarrow> string option" where
  "strip_scheme link =
     (if take 12 link = ''hysteria2://'' then Some (drop 12 link)
      else if take 11 link = ''hysteria://'' then Some (drop 11 link) else None)"

definition match_hysteria :: "string \<Rightarrow> (string \<times> string \<times> string \<times> string \<times> string option) option" where
  "match_hysteria link =
     do { rest \<leftarrow> strip_scheme link;
          (let (password, r) = cut (CHR ''@'') rest;
               address = takeWhile (\<lambda>c. c \<noteq> CHR '':'' \<and> c \<noteq> CHR ''?'' \<and> c \<noteq> CHR ''#'') r;
               q = drop (length address) r;
               port = takeWhile is_digit (tl q);
               (params, hash) = (takeWhile (\<lambda>c. c \<noteq> CHR ''#'') (drop (length port) (tl q)),
                                 dropWhile (\<lambda>c. c \<noteq> CHR ''#'') (drop (length port) (tl q)))
           in if password = '''' \<or> CHR ''@'' \<notin> set rest \<or> address = '''' \<or> take 1 q \<noteq> '':'' \<or> port = ''''
                 \<or> list_ex line_break hash then None
              else Some (password, address, port, params, if hash = '''' then None else Some hash)) }"

text \<open>\<open>new URLSearchParams(text)\<close> and its \<open>get\<close>.\<close>

definition search_params :: "string \<Rightarrow> (string \<times> string) list option" where
  "search_params s = form_parse (if take 1 s = ''?'' then tl s else s)"

definition sp_get :: "(string \<times> string) list \<Rightarrow> string \<Rightarrow> string \<Rightarrow> string" where
  "sp_get ps k d = (case map_of ps k of Some v \<Rightarrow> v | None \<Rightarrow> d)"

definition sp_int :: "(string \<times> string) list \<Rightarrow> string \<Rightarrow> jsv \<Rightarrow> jsv" where
  "sp_int ps k old = (case map_of ps k of Some v \<Rightarrow> JNum (parse_int v) | None \<Rightarrow> old)"

definition hysteria_stream :: "string \<Rightarrow> (string \<times> string) list \<Rightarrow> OutHysteria \<Rightarrow> OutHysteria" where
  "hysteria_stream password ps h =
     (let interval = map_of ps ''udphopInterval'' in
      h\<lparr>ohy_auth := JStr password,
        ohy_congestion := JStr (sp_get ps ''congestion'' ''''),
        ohy_up := JStr (sp_get ps ''up'' ''0''),
        ohy_down := JStr (sp_get ps ''down'' ''0''),
        ohy_udphopPort := JStr (sp_get ps ''udphopPort'' ''''),
        ohy_udphopIntervalMin := JNum (parse_int (case interval of Some v \<Rightarrow> v | None \<Rightarrow> sp_get ps ''udphopIntervalMin'' ''30'')),
        ohy_udphopIntervalMax := JNum (parse_int (case interval of Some v \<Rightarrow> v | None \<Rightarrow> sp_get ps ''udphopIntervalMax'' ''30'')),
        ohy_initStreamReceiveWindow := sp_int ps ''initStreamReceiveWindow'' (ohy_initStreamReceiveWindow h),
        ohy_maxStreamReceiveWindow := sp_int ps ''maxStreamReceiveWindow'' (ohy_maxStreamReceiveWindow h),
        ohy_initConnectionReceiveWindow := sp_int ps ''initConnectionReceiveWindow'' (ohy_initConnectionReceiveWindow h),
        ohy_maxConnectionReceiveWindow := sp_int ps ''maxConnectionReceiveWindow'' (ohy_maxConnectionReceiveWindow h),
        ohy_maxIdleTimeout := sp_int ps ''maxIdleTimeout'' (ohy_maxIdleTimeout h),
        ohy_keepAlivePeriod := sp_int ps ''keepAlivePeriod'' (ohy_keepAlivePeriod h),
        ohy_disablePathMTUDiscovery :=
          (case map_of ps ''disablePathMTUDiscovery'' of Some v \<Rightarrow> JBool (v = ''true'') | None \<Rightarrow> ohy_disablePathMTUDiscovery h)\<rparr>)"

definition fromHysteriaLink :: "string \<Rightarrow> Outbound option option" where
  "fromHysteriaLink link =
     (case match_hysteria link of
        None \<Rightarrow> Some None
      | Some (password, address, port, params, hash) \<Rightarrow>
          do { ps \<leftarrow> search_params params;
               (let port = parse_int port; s = plain_stream (JStr ''hysteria'') (JStr ''none'');
                    s = s\<lparr>os_hysteria := hysteria_stream password ps (os_hysteria s)\<rparr>;
                    settings = OHysteria (new_OutHysteriaSettings (JStr address) (JNum port) (jint 2))
                in do { remark \<leftarrow> (case hash of Some h \<Rightarrow> decodeURIComponent (tl h)
                                    | None \<Rightarrow> Some (default_name ''hysteria'' port));
                        map_option Some (new_Outbound (JStr remark) (JStr ''hysteria'') (Some settings) (Some s) JUndef None) }) })"

section \<open>fromLink\<close>

definition fromLink :: "(string \<Rightarrow> string option) \<Rightarrow> string \<Rightarrow> Outbound option option" where
  "fromLink canon link =
     (case split_seq ''://'' link of
        [scheme, body] \<Rightarrow>
          (let scheme = lower scheme in
           if scheme = ''vmess''
           then do { text \<leftarrow> Base64_decode body; json \<leftarrow> json_parse text; map_option Some (fromVmessLink json) }
           else if scheme \<in> {''vless'', ''trojan'', ''ss''} then fromParamLink canon link
           else if scheme \<in> {''hysteria2'', ''hysteria''} then fromHysteriaLink link
           else Some None)
      | _ \<Rightarrow> Some None)"

end
