(* ===== verification/InLinks.thy ===== *)
theory InLinks
  imports InInbound Json Url
begin

text \<open>
  The share links of an inbound (class Inbound of web/assets/js/model/inbound.js): the URL or the
  encoded JSON of VMess, VLESS, Shadowsocks, Trojan and Hysteria clients, the WireGuard texts, and the
  lists of all links. The stream settings of a link are collected in a map first. None is an
  exception; \<open>canon\<close> is the browser's reading of the text of a URL before the query, \<open>user\<close> its
  setter of the user name, and \<open>hostname\<close> that of the page.
\<close>

section \<open>What is shared of the masks and of the padding\<close>

function hasShareableFinalMaskValue :: "jsv \<Rightarrow> bool" where
  "hasShareableFinalMaskValue JUndef = False"
| "hasShareableFinalMaskValue JNull = False"
| "hasShareableFinalMaskValue (JArr vs) = list_ex hasShareableFinalMaskValue vs"
| "hasShareableFinalMaskValue (JObj kvs) = list_ex (\<lambda>e. hasShareableFinalMaskValue (snd e)) kvs"
| "hasShareableFinalMaskValue (JStr s) = (s \<noteq> '''')"
| "hasShareableFinalMaskValue (JBool b) = True"
| "hasShareableFinalMaskValue (JNum n) = True"
  by pat_completeness auto
termination
  by (relation "measure size") (auto dest: size_arr_elem size_obj_entry)

definition json_or_empty :: "jsv \<Rightarrow> string" where
  "json_or_empty v = (case stringify 0 v of Some s \<Rightarrow> s | None \<Rightarrow> '''')"

definition serializeFinalMask :: "FinalMask \<Rightarrow> string" where
  "serializeFinalMask finalmask =
     (let value = FinalMask_toJson finalmask
      in if hasShareableFinalMaskValue value then json_or_empty value else '''')"

text \<open>An object or map that is being filled is the list of its entries.\<close>

definition applyFinalMaskToParams :: "FinalMask \<Rightarrow> entries \<Rightarrow> entries" where
  "applyFinalMaskToParams finalmask params =
     (let payload = serializeFinalMask finalmask
      in set_if (payload \<noteq> '''') ''fm'' (JStr payload) params)"

definition applyFinalMaskToObj :: "FinalMask \<Rightarrow> entries \<Rightarrow> entries" where
  "applyFinalMaskToObj finalmask ob =
     (let payload = serializeFinalMask finalmask
      in set_if (payload \<noteq> '''') ''fm'' (JStr payload) ob)"

text \<open>\<open>typeof v === 'string' && v.length > 0\<close>\<close>

definition filled_string :: "jsv \<Rightarrow> bool" where
  "filled_string v \<longleftrightarrow> (\<exists>s. v = JStr s \<and> s \<noteq> '''')"

lemma filled_string_simps [simp]:
  "filled_string (JStr s) \<longleftrightarrow> s \<noteq> ''''" "\<not> filled_string JUndef" "\<not> filled_string JNull" "\<not> filled_string (JBool b)"
  "\<not> filled_string (JNum n)" "\<not> filled_string (JArr vs)" "\<not> filled_string (JObj kvs)"
  by (auto simp: filled_string_def)

definition padding_fields :: "xHTTPStreamSettings \<Rightarrow> (string \<times> jsv) list" where
  "padding_fields x =
     [(''xPaddingKey'', xh_xPaddingKey x), (''xPaddingHeader'', xh_xPaddingHeader x),
      (''xPaddingPlacement'', xh_xPaddingPlacement x), (''xPaddingMethod'', xh_xPaddingMethod x)]"

definition set_padding_fields :: "xHTTPStreamSettings \<Rightarrow> entries \<Rightarrow> entries" where
  "set_padding_fields x ob =
     (if xh_xPaddingObfsMode x = JBool True
      then foldl (\<lambda>ob (k, v). set_if (filled_string v) k v ob) (obj_set ob ''xPaddingObfsMode'' (JBool True)) (padding_fields x)
      else ob)"

definition applyXhttpPaddingToParams :: "xHTTPStreamSettings \<Rightarrow> entries \<Rightarrow> entries" where
  "applyXhttpPaddingToParams x params =
     (let params = set_if (filled_string (xh_xPaddingBytes x)) ''x_padding_bytes'' (xh_xPaddingBytes x) params;
          extra = set_if (filled_string (xh_xPaddingBytes x)) ''xPaddingBytes'' (xh_xPaddingBytes x) [];
          extra = set_padding_fields x extra
      in set_if (extra \<noteq> []) ''extra'' (JStr (json_or_empty (JObj extra))) params)"

definition applyXhttpPaddingToObj :: "xHTTPStreamSettings \<Rightarrow> entries \<Rightarrow> entries" where
  "applyXhttpPaddingToObj x ob =
     (let ob = set_if (filled_string (xh_xPaddingBytes x)) ''x_padding_bytes'' (xh_xPaddingBytes x) ob
      in set_padding_fields x ob)"

section \<open>VMess\<close>

text \<open>\<open>forceTls == 'same' ? this.stream.security : forceTls\<close>\<close>

definition link_security :: "Inbound \<Rightarrow> jsv \<Rightarrow> jsv" where
  "link_security i forceTls = (if loose_text forceTls ''same'' then ss_security (ib_stream i) else forceTls)"

definition vmess_transport :: "StreamSettings \<Rightarrow> entries \<Rightarrow> entries option" where
  "vmess_transport s ob =
     (if ss_network s = JStr ''tcp''
      then (let tcp = ss_tcp s; ob = obj_set ob ''type'' (tcp_type tcp) in
            if tcp_type tcp = JStr ''http''
            then do { path \<leftarrow> js_join '','' (treq_path (tcp_request tcp));
                      (let host = getHeader (treq_headers (tcp_request tcp)) ''host''
                       in Some (set_if (truthy host) ''host'' host (obj_set ob ''path'' path))) }
            else Some ob)
      else if ss_network s = JStr ''kcp''
      then Some (obj_set (obj_set ob ''mtu'' (kcp_mtu (ss_kcp s))) ''tti'' (kcp_tti (ss_kcp s)))
      else if ss_network s = JStr ''ws''
      then Some (obj_set (obj_set ob ''path'' (ws_path (ss_ws s)))
                   ''host'' (host_or_header (ws_host (ss_ws s)) (ws_headers (ss_ws s))))
      else if ss_network s = JStr ''grpc''
      then Some (set_if (truthy (grpc_multiMode (ss_grpc s))) ''type'' (JStr ''multi'')
                   (obj_set (obj_set ob ''path'' (grpc_serviceName (ss_grpc s)))
                      ''authority'' (grpc_authority (ss_grpc s))))
      else if ss_network s = JStr ''httpupgrade''
      then Some (obj_set (obj_set ob ''path'' (hu_path (ss_httpupgrade s)))
                   ''host'' (host_or_header (hu_host (ss_httpupgrade s)) (hu_headers (ss_httpupgrade s))))
      else if ss_network s = JStr ''xhttp''
      then (let x = ss_xhttp s in
            Some (applyXhttpPaddingToObj x
                    (obj_set (obj_set (obj_set ob ''path'' (xh_path x)) ''host'' (host_or_header (xh_host x) (xh_headers x)))
                       ''type'' (xh_mode x))))
      else Some ob)"

text \<open>\<open>v.length > 0\<close>\<close>

definition longer_than_0 :: "jsv \<Rightarrow> bool option" where
  "longer_than_0 v = do { n \<leftarrow> js_get v ''length''; Some (js_gt n (jint 0)) }"

definition vmess_tls :: "TlsStreamSettings \<Rightarrow> entries \<Rightarrow> entries option" where
  "vmess_tls t ob =
     (let ob = set_if (\<not> isEmpty (tls_sni t)) ''sni'' (tls_sni t) ob;
          ob = set_if (\<not> isEmpty (tlss_fingerprint (tls_settings t))) ''fp'' (tlss_fingerprint (tls_settings t)) ob
      in do { some_alpn \<leftarrow> longer_than_0 (tls_alpn t);
              if some_alpn then do { a \<leftarrow> js_join '','' (tls_alpn t); Some (obj_set ob ''alpn'' a) } else Some ob })"

definition vmess_object :: "Inbound \<Rightarrow> jsv \<Rightarrow> jsv \<Rightarrow> jsv \<Rightarrow> jsv \<Rightarrow> jsv \<Rightarrow> jsv \<Rightarrow> entries option" where
  "vmess_object i address port forceTls remark clientId security =
     (let tls = link_security i forceTls; s = ib_stream i;
          ob = [(''v'', JStr ''2''), (''ps'', remark), (''add'', address), (''port'', port), (''id'', clientId),
                (''scy'', security), (''net'', ss_network s), (''tls'', tls)]
      in do { ob \<leftarrow> vmess_transport s ob;
              (let ob = applyFinalMaskToObj (ss_finalmask s) ob
               in if tls = JStr ''tls'' then vmess_tls (ss_tls s) ob else Some ob) })"

definition genVmessLink :: "Inbound \<Rightarrow> jsv \<Rightarrow> jsv \<Rightarrow> jsv \<Rightarrow> jsv \<Rightarrow> jsv \<Rightarrow> jsv \<Rightarrow> string option" where
  "genVmessLink i address port forceTls remark clientId security =
     (let address = dflt address (JStr ''''); port = dflt port (ib_port i); remark = dflt remark (JStr '''') in
      if ib_protocol i \<noteq> JStr ''vmess'' then Some ''''
      else do { ob \<leftarrow> vmess_object i address port forceTls remark clientId security;
                json \<leftarrow> stringify 2 (JObj ob);
                Some (''vmess://'' @ Base64_encode json False) })"

section \<open>Links that are URLs\<close>

text \<open>
  The transport parameters, which VLESS, Shadowsocks and Trojan write alike. The host of a TCP
  request is the value of its first header of that name.
\<close>

definition find_header :: "string \<Rightarrow> header list \<Rightarrow> header option" where
  "find_header name hs = find (\<lambda>h. lower (h_name h) = name) hs"

definition link_transport :: "StreamSettings \<Rightarrow> entries \<Rightarrow> entries option" where
  "link_transport s params =
     (if ss_network s = JStr ''tcp''
      then (if tcp_type (ss_tcp s) = JStr ''http''
            then (let request = tcp_request (ss_tcp s) in
                  do { path \<leftarrow> js_join '','' (treq_path request);
                       (let params = obj_set params ''path'' path;
                            params = (case find_header ''host'' (treq_headers request) of
                                        Some h \<Rightarrow> obj_set params ''host'' (h_value h) | None \<Rightarrow> params)
                        in Some (obj_set params ''headerType'' (JStr ''http''))) })
            else Some params)
      else if ss_network s = JStr ''kcp''
      then Some (obj_set (obj_set params ''mtu'' (kcp_mtu (ss_kcp s))) ''tti'' (kcp_tti (ss_kcp s)))
      else if ss_network s = JStr ''ws''
      then Some (obj_set (obj_set params ''path'' (ws_path (ss_ws s)))
                   ''host'' (host_or_header (ws_host (ss_ws s)) (ws_headers (ss_ws s))))
      else if ss_network s = JStr ''grpc''
      then Some (set_if (truthy (grpc_multiMode (ss_grpc s))) ''mode'' (JStr ''multi'')
                   (obj_set (obj_set params ''serviceName'' (grpc_serviceName (ss_grpc s)))
                      ''authority'' (grpc_authority (ss_grpc s))))
      else if ss_network s = JStr ''httpupgrade''
      then Some (obj_set (obj_set params ''path'' (hu_path (ss_httpupgrade s)))
                   ''host'' (host_or_header (hu_host (ss_httpupgrade s)) (hu_headers (ss_httpupgrade s))))
      else if ss_network s = JStr ''xhttp''
      then (let x = ss_xhttp s in
            Some (applyXhttpPaddingToParams x
                    (obj_set (obj_set (obj_set params ''path'' (xh_path x)) ''host'' (host_or_header (xh_host x) (xh_headers x)))
                       ''mode'' (xh_mode x))))
      else Some params)"

text \<open>The TLS and Reality parameters; VLESS adds its flow for TCP, when there is one.\<close>

definition set_flow :: "StreamSettings \<Rightarrow> jsv \<Rightarrow> entries \<Rightarrow> entries" where
  "set_flow s flow params = set_if (ss_network s = JStr ''tcp'' \<and> \<not> isEmpty flow) ''flow'' flow params"

definition vless_tls :: "StreamSettings \<Rightarrow> jsv \<Rightarrow> entries \<Rightarrow> entries" where
  "vless_tls s flow params =
     (let params = obj_set params ''security'' (JStr ''tls''); t = ss_tls s in
      if ss_isTls s
      then (let params = obj_set params ''fp'' (tlss_fingerprint (tls_settings t));
                params = obj_set params ''alpn'' (tls_alpn t);
                params = set_if (\<not> isEmpty (tls_sni t)) ''sni'' (tls_sni t) params;
                params = set_if (has_length (tlss_echConfigList (tls_settings t))) ''ech''
                  (tlss_echConfigList (tls_settings t)) params
            in set_flow s flow params)
      else params)"

definition plain_tls :: "StreamSettings \<Rightarrow> entries \<Rightarrow> entries" where
  "plain_tls s params =
     (let params = obj_set params ''security'' (JStr ''tls''); t = ss_tls s in
      if ss_isTls s
      then (let params = obj_set params ''fp'' (tlss_fingerprint (tls_settings t));
                params = obj_set params ''alpn'' (tls_alpn t);
                params = set_if (has_length (tlss_echConfigList (tls_settings t))) ''ech''
                  (tlss_echConfigList (tls_settings t)) params
            in set_if (\<not> isEmpty (tls_sni t)) ''sni'' (tls_sni t) params)
      else params)"

text \<open>\<open>v.split(',')[0]\<close>\<close>

definition first_part :: "jsv \<Rightarrow> jsv option" where
  "first_part v = do { parts \<leftarrow> js_split (CHR '','') v; js_index parts 0 }"

definition link_reality :: "RealityStreamSettings \<Rightarrow> entries \<Rightarrow> entries option" where
  "link_reality r params =
     (let params = obj_set params ''security'' (JStr ''reality'');
          params = obj_set params ''pbk'' (reals_publicKey (real_settings r));
          params = obj_set params ''fp'' (reals_fingerprint (real_settings r))
      in do { params \<leftarrow> (if \<not> isArrEmpty (real_serverNames r)
                          then do { sni \<leftarrow> first_part (real_serverNames r); Some (obj_set params ''sni'' sni) }
                          else Some params);
              some_ids \<leftarrow> longer_than_0 (real_shortIds r);
              params \<leftarrow> (if some_ids
                          then do { sid \<leftarrow> first_part (real_shortIds r); Some (obj_set params ''sid'' sid) }
                          else Some params);
              (let params = set_if (\<not> isEmpty (reals_spiderX (real_settings r))) ''spx'' (reals_spiderX (real_settings r)) params
               in Some (set_if (\<not> isEmpty (reals_mldsa65Verify (real_settings r))) ''pqv''
                          (reals_mldsa65Verify (real_settings r)) params)) })"

text \<open>\<open>new URL(link)\<close>, the parameters in turn as texts, and the remark as the fragment.\<close>

definition link_text :: "(string \<Rightarrow> string option) \<Rightarrow> string \<Rightarrow> entries \<Rightarrow> jsv \<Rightarrow> string option" where
  "link_text canon link params remark =
     do { u \<leftarrow> new_URL canon link;
          (let u = foldl (\<lambda>u (k, v). url_set u k (js_to_string v)) u params
           in Some (url_text (url_set_hash u (encodeURIComponent (js_to_string remark))))) }"

text \<open>The text \<open>scheme://user@address:port\<close>.\<close>

definition link_base :: "string \<Rightarrow> jsv \<Rightarrow> jsv \<Rightarrow> jsv \<Rightarrow> string" where
  "link_base scheme who address port =
     scheme @ ''://'' @ js_to_string who @ ''@'' @ js_to_string address @ '':'' @ js_to_string port"

definition settings_encryption :: "settings \<Rightarrow> jsv option" where
  "settings_encryption s = (case s of VlessSet x \<Rightarrow> Some (vls_encryption x) | NoSettings \<Rightarrow> None | _ \<Rightarrow> Some JUndef)"

definition vless_params :: "Inbound \<Rightarrow> jsv \<Rightarrow> jsv \<Rightarrow> entries option" where
  "vless_params i forceTls flow =
     (let s = ib_stream i; security = link_security i forceTls in
      do { encryption \<leftarrow> settings_encryption (ib_settings i);
           params \<leftarrow> link_transport s [(''type'', ss_network s), (''encryption'', encryption)];
           (let params = applyFinalMaskToParams (ss_finalmask s) params
            in if security = JStr ''tls'' then Some (vless_tls s flow params)
               else if security = JStr ''reality''
               then do { params \<leftarrow> link_reality (ss_reality s) params; Some (set_flow s flow params) }
               else Some (obj_set params ''security'' (JStr ''none''))) })"

definition genVLESSLink ::
  "(string \<Rightarrow> string option) \<Rightarrow> Inbound \<Rightarrow> jsv \<Rightarrow> jsv \<Rightarrow> jsv \<Rightarrow> jsv \<Rightarrow> jsv \<Rightarrow> jsv \<Rightarrow> string option" where
  "genVLESSLink canon i address port forceTls remark clientId flow =
     (let address = dflt address (JStr ''''); port = dflt port (ib_port i); remark = dflt remark (JStr '''') in
      do { params \<leftarrow> vless_params i forceTls flow;
           link_text canon (link_base ''vless'' clientId address port) params remark })"

definition ss_params :: "Inbound \<Rightarrow> jsv \<Rightarrow> entries option" where
  "ss_params i forceTls =
     (let s = ib_stream i in
      do { params \<leftarrow> link_transport s [(''type'', ss_network s)];
           (let params = applyFinalMaskToParams (ss_finalmask s) params
            in Some (if link_security i forceTls = JStr ''tls'' then plain_tls s params else params)) })"

text \<open>The method and the passwords: the server's with a 2022 method, the client's with several users.\<close>

definition ss_user_info :: "Inbound \<Rightarrow> jsv \<Rightarrow> string option" where
  "ss_user_info i clientPassword =
     (case ib_settings i of
        ShadowsocksSet s \<Rightarrow>
          do { new_kind \<leftarrow> ib_isSS2022 i;
               (let password = (if new_kind then [sss_password s] else []) @
                               (if ib_isSSMultiUser i then [clientPassword] else [])
                in do { joined \<leftarrow> js_join '':'' (JArr password);
                        Some (js_to_string (sss_method s) @ '':'' @ js_to_string joined) }) }
      | _ \<Rightarrow> None)"

definition genSSLink ::
  "(string \<Rightarrow> string option) \<Rightarrow> Inbound \<Rightarrow> jsv \<Rightarrow> jsv \<Rightarrow> jsv \<Rightarrow> jsv \<Rightarrow> jsv \<Rightarrow> string option" where
  "genSSLink canon i address port forceTls remark clientPassword =
     (let address = dflt address (JStr ''''); port = dflt port (ib_port i); remark = dflt remark (JStr '''') in
      do { params \<leftarrow> ss_params i forceTls;
           info \<leftarrow> ss_user_info i clientPassword;
           link_text canon (link_base ''ss'' (JStr (Base64_encode info True)) address port) params remark })"

definition trojan_params :: "Inbound \<Rightarrow> jsv \<Rightarrow> entries option" where
  "trojan_params i forceTls =
     (let s = ib_stream i; security = link_security i forceTls in
      do { params \<leftarrow> link_transport s [(''type'', ss_network s)];
           (let params = applyFinalMaskToParams (ss_finalmask s) params
            in if security = JStr ''tls'' then Some (plain_tls s params)
               else if security = JStr ''reality'' then link_reality (ss_reality s) params
               else Some (obj_set params ''security'' (JStr ''none''))) })"

definition genTrojanLink ::
  "(string \<Rightarrow> string option) \<Rightarrow> Inbound \<Rightarrow> jsv \<Rightarrow> jsv \<Rightarrow> jsv \<Rightarrow> jsv \<Rightarrow> jsv \<Rightarrow> string option" where
  "genTrojanLink canon i address port forceTls remark clientPassword =
     (let address = dflt address (JStr ''''); port = dflt port (ib_port i); remark = dflt remark (JStr '''') in
      do { params \<leftarrow> trojan_params i forceTls;
           link_text canon (link_base ''trojan'' clientPassword address port) params remark })"

section \<open>Hysteria\<close>

text \<open>
  The settings of the TLS layer have no property allowInsecure, so the link never says insecure.
\<close>

definition settings_version :: "settings \<Rightarrow> jsv option" where
  "settings_version s = (case s of HysteriaSet x \<Rightarrow> Some (hyst_version x) | NoSettings \<Rightarrow> None | _ \<Rightarrow> Some JUndef)"

definition salamander_password :: "FinalMask \<Rightarrow> jsv" where
  "salamander_password fm =
     (case find (\<lambda>m. udp_type m = JStr ''salamander'') (fm_udp fm) of
        Some m \<Rightarrow> js_get_opt (udp_settings m) ''password'' | None \<Rightarrow> JUndef)"

definition hysteria_params :: "StreamSettings \<Rightarrow> entries" where
  "hysteria_params s =
     (let t = ss_tls s; ts = tls_settings t; obfsPassword = salamander_password (ss_finalmask s);
          params = [(''security'', JStr ''tls'')];
          params = set_if (has_length (tlss_fingerprint ts)) ''fp'' (tlss_fingerprint ts) params;
          params = set_if (has_length (tls_alpn t)) ''alpn'' (tls_alpn t) params;
          params = set_if (has_length (tlss_echConfigList ts)) ''ech'' (tlss_echConfigList ts) params;
          params = set_if (has_length (tls_sni t)) ''sni'' (tls_sni t) params;
          params = (if filled_string obfsPassword
                    then obj_set (obj_set params ''obfs'' (JStr ''salamander'')) ''obfs-password'' obfsPassword else params)
      in applyFinalMaskToParams (ss_finalmask s) params)"

definition genHysteriaLink ::
  "(string \<Rightarrow> string option) \<Rightarrow> Inbound \<Rightarrow> jsv \<Rightarrow> jsv \<Rightarrow> jsv \<Rightarrow> jsv \<Rightarrow> string option" where
  "genHysteriaLink canon i address port remark clientAuth =
     (let address = dflt address (JStr ''''); port = dflt port (ib_port i); remark = dflt remark (JStr '''') in
      do { version \<leftarrow> settings_version (ib_settings i);
           (let scheme = (if version \<noteq> JNull \<and> js_to_number version = Fin 2 then ''hysteria2'' else ''hysteria'')
            in link_text canon (link_base scheme clientAuth address port) (hysteria_params (ib_stream i)) remark) })"

section \<open>WireGuard\<close>

definition wg_settings :: "Inbound \<Rightarrow> WireguardSettings option" where
  "wg_settings i = (case ib_settings i of WireguardSet x \<Rightarrow> Some x | _ \<Rightarrow> None)"

definition nth_opt :: "'a list \<Rightarrow> nat \<Rightarrow> 'a option" where
  "nth_opt xs n = (if n < length xs then Some (xs ! n) else None)"

definition first_or_undef :: "jsv list \<Rightarrow> jsv" where
  "first_or_undef vs = (case vs of v # _ \<Rightarrow> v | [] \<Rightarrow> JUndef)"

text \<open>Without a peer of that number the code reads a property of undefined.\<close>

definition getWireguardTxt :: "Inbound \<Rightarrow> jsv \<Rightarrow> jsv \<Rightarrow> jsv \<Rightarrow> nat \<Rightarrow> string option" where
  "getWireguardTxt i address port remark peerId =
     do { x \<leftarrow> wg_settings i;
          p \<leftarrow> nth_opt (wg_peers x) peerId;
          (let txt = ''[Interface]'' @ [newline];
               txt = txt @ ''PrivateKey = '' @ js_to_string (wp_privateKey p) @ [newline];
               txt = txt @ ''Address = '' @ js_to_string (first_or_undef (wp_allowedIPs p)) @ [newline];
               txt = txt @ ''DNS = 1.1.1.1, 1.0.0.1'' @ [newline];
               txt = (if truthy (wg_mtu x) then txt @ ''MTU = '' @ js_to_string (wg_mtu x) @ [newline] else txt);
               txt = txt @ newline # ''# '' @ js_to_string remark @ [newline];
               txt = txt @ ''[Peer]'' @ [newline];
               txt = txt @ ''PublicKey = '' @ js_to_string (wg_pubKey x) @ [newline];
               txt = txt @ ''AllowedIPs = 0.0.0.0/0, ::/0'' @ [newline];
               txt = txt @ ''Endpoint = '' @ js_to_string address @ '':'' @ js_to_string port;
               txt = (if truthy (wp_psk p) then txt @ newline # ''PresharedKey = '' @ js_to_string (wp_psk p) else txt)
           in Some (if truthy (wp_keepAlive p)
                    then txt @ newline # ''PersistentKeepalive = '' @ js_to_string (wp_keepAlive p) @ [newline] else txt)) }"

definition getWireguardLink ::
  "(string \<Rightarrow> string option) \<Rightarrow> (string \<Rightarrow> string \<Rightarrow> string) \<Rightarrow> Inbound \<Rightarrow> jsv \<Rightarrow> jsv \<Rightarrow> jsv \<Rightarrow> nat \<Rightarrow> string option" where
  "getWireguardLink canon user i address port remark peerId =
     (case wg_settings i of None \<Rightarrow> Some ''''
      | Some x \<Rightarrow>
         (case nth_opt (wg_peers x) peerId of None \<Rightarrow> Some ''''
          | Some p \<Rightarrow>
             do { u \<leftarrow> new_URL canon (''wireguard://'' @ js_to_string address @ '':'' @ js_to_string port);
                  (let u = u\<lparr>u_base := user (js_to_string (js_or (wp_privateKey p) (JStr ''''))) (u_base u)\<rparr>;
                       a = first_or_undef (wp_allowedIPs p);
                       u = (if truthy (wg_pubKey x) then url_set u ''publickey'' (js_to_string (wg_pubKey x)) else u);
                       u = (if truthy a then url_set u ''address'' (js_to_string a) else u);
                       u = (if truthy (wg_mtu x) then url_set u ''mtu'' (js_to_string (wg_mtu x)) else u)
                   in Some (url_text (url_set_hash u (encodeURIComponent (js_to_string remark))))) }))"

text \<open>The address in a link: that the inbound listens on, or the host of the page.\<close>

definition link_address :: "string \<Rightarrow> Inbound \<Rightarrow> jsv" where
  "link_address hostname i =
     (if \<not> isEmpty (ib_listen i) \<and> ib_listen i \<noteq> JStr ''0.0.0.0'' then ib_listen i else JStr hostname)"

definition crlf :: string where
  "crlf = [CHR 0x0D, CHR 0x0A]"

definition numbered_remark :: "jsv \<Rightarrow> string \<Rightarrow> nat \<Rightarrow> jsv" where
  "numbered_remark remark remarkModel index = JStr (js_to_string remark @ take 1 remarkModel @ show_nat (index + 1))"

definition genWireguardLinks ::
  "(string \<Rightarrow> string option) \<Rightarrow> (string \<Rightarrow> string \<Rightarrow> string) \<Rightarrow> string \<Rightarrow> Inbound \<Rightarrow> jsv \<Rightarrow> string \<Rightarrow> string option" where
  "genWireguardLinks canon user hostname i remark remarkModel =
     (let addr = link_address hostname i; remark = dflt remark (JStr '''') in
      do { x \<leftarrow> wg_settings i;
           links \<leftarrow> mapM (\<lambda>index. getWireguardLink canon user i addr (ib_port i) (numbered_remark remark remarkModel index) index)
                      [0..<length (wg_peers x)];
           Some (join crlf links) })"

definition genWireguardConfigs :: "string \<Rightarrow> Inbound \<Rightarrow> jsv \<Rightarrow> string \<Rightarrow> string option" where
  "genWireguardConfigs hostname i remark remarkModel =
     (let addr = link_address hostname i; remark = dflt remark (JStr '''') in
      do { x \<leftarrow> wg_settings i;
           links \<leftarrow> mapM (\<lambda>index. getWireguardTxt i addr (ib_port i) (numbered_remark remark remarkModel index) index)
                      [0..<length (wg_peers x)];
           Some (join crlf links) })"

section \<open>The links of a client and of an inbound\<close>

text \<open>The properties of a client that links use; a class without the property has it undefined.\<close>

definition client_id :: "client \<Rightarrow> jsv" where
  "client_id c = (case c of CVmess x \<Rightarrow> vm_id x | CVless x \<Rightarrow> vl_id x | CVpn x \<Rightarrow> vu_id x | _ \<Rightarrow> JUndef)"

definition client_security :: "client \<Rightarrow> jsv" where
  "client_security c = (case c of CVmess x \<Rightarrow> vm_security x | _ \<Rightarrow> JUndef)"

definition client_flow :: "client \<Rightarrow> jsv" where
  "client_flow c = (case c of CVless x \<Rightarrow> vl_flow x | _ \<Rightarrow> JUndef)"

definition client_password :: "client \<Rightarrow> jsv" where
  "client_password c =
     (case c of CTrojan x \<Rightarrow> tj_password x | CShadowsocks x \<Rightarrow> shs_password x | CVpn x \<Rightarrow> vu_password x | _ \<Rightarrow> JUndef)"

definition client_auth :: "client \<Rightarrow> jsv" where
  "client_auth c = (case c of CHysteria x \<Rightarrow> hya_auth x | _ \<Rightarrow> JUndef)"

definition client_email :: "client \<Rightarrow> jsv" where
  "client_email c =
     (case c of CVmess x \<Rightarrow> cb_email (vm_base x) | CVless x \<Rightarrow> cb_email (vl_base x) | CTrojan x \<Rightarrow> cb_email (tj_base x)
      | CShadowsocks x \<Rightarrow> cb_email (shs_base x) | CHysteria x \<Rightarrow> cb_email (hya_base x) | CVpn x \<Rightarrow> vu_email x)"

text \<open>A client that is null throws when one of its properties is read.\<close>

definition genLink ::
  "(string \<Rightarrow> string option) \<Rightarrow> Inbound \<Rightarrow> jsv \<Rightarrow> jsv \<Rightarrow> jsv \<Rightarrow> jsv \<Rightarrow> client option \<Rightarrow> string option" where
  "genLink canon i address port forceTls remark client =
     (let address = dflt address (JStr ''''); port = dflt port (ib_port i);
          forceTls = dflt forceTls (JStr ''same''); remark = dflt remark (JStr '''')
      in if ib_protocol i = JStr ''vmess''
         then do { c \<leftarrow> client; genVmessLink i address port forceTls remark (client_id c) (client_security c) }
         else if ib_protocol i = JStr ''vless''
         then do { c \<leftarrow> client; genVLESSLink canon i address port forceTls remark (client_id c) (client_flow c) }
         else if ib_protocol i = JStr ''shadowsocks''
         then do { pw \<leftarrow> (if ib_isSSMultiUser i then map_option client_password client else Some (JStr ''''));
                   genSSLink canon i address port forceTls remark pw }
         else if ib_protocol i = JStr ''trojan''
         then do { c \<leftarrow> client; genTrojanLink canon i address port forceTls remark (client_password c) }
         else if ib_protocol i = JStr ''hysteria''
         then do { c \<leftarrow> client; has_auth \<leftarrow> longer_than_0 (client_auth c);
                   genHysteriaLink canon i address port remark
                     (if has_auth then client_auth c else hys_auth (ss_hysteria (ib_stream i))) }
         else Some '''')"

text \<open>
  The remark of a link: the parts that the letters of the model name, without the empty
  ones. An unknown letter names undefined, whose length throws.
\<close>

definition remark_part :: "jsv \<Rightarrow> jsv \<Rightarrow> jsv \<Rightarrow> char \<Rightarrow> jsv" where
  "remark_part remark email other c =
     (if c = CHR ''i'' then remark else if c = CHR ''e'' then email else if c = CHR ''o'' then other else JUndef)"

definition order_remark :: "string \<Rightarrow> jsv \<Rightarrow> jsv \<Rightarrow> jsv \<Rightarrow> jsv option" where
  "order_remark remarkModel remark email other =
     (let parts = map (remark_part remark email other) (drop 1 remarkModel) in
      do { fs \<leftarrow> mapM (\<lambda>p. map_option (\<lambda>b. (p, b)) (longer_than_0 p)) parts;
           js_join (take 1 remarkModel) (JArr (map fst (filter snd fs))) })"

record link =
  lk_remark :: jsv
  lk_link :: string

definition proxy_link ::
  "(string \<Rightarrow> string option) \<Rightarrow> Inbound \<Rightarrow> jsv \<Rightarrow> string \<Rightarrow> client option \<Rightarrow> jsv \<Rightarrow> jsv \<Rightarrow> link option" where
  "proxy_link canon i remark remarkModel client email ep =
     do { ep_remark \<leftarrow> js_get ep ''remark'';
          dest \<leftarrow> js_get ep ''dest''; port \<leftarrow> js_get ep ''port''; forceTls \<leftarrow> js_get ep ''forceTls'';
          r \<leftarrow> order_remark remarkModel remark email ep_remark;
          l \<leftarrow> genLink canon i dest port forceTls r client;
          Some \<lparr>lk_remark = r, lk_link = l\<rparr> }"

definition genAllLinks ::
  "(string \<Rightarrow> string option) \<Rightarrow> string \<Rightarrow> Inbound \<Rightarrow> jsv \<Rightarrow> string \<Rightarrow> client option \<Rightarrow> link list option" where
  "genAllLinks canon hostname i remark remarkModel client =
     (let remark = dflt remark (JStr '''');
          email = (case client of Some c \<Rightarrow> client_email c | None \<Rightarrow> JStr '''');
          externalProxy = ss_externalProxy (ib_stream i)
      in if isArrEmpty externalProxy
         then do { r \<leftarrow> order_remark remarkModel remark email (JStr '''');
                   l \<leftarrow> genLink canon i (link_address hostname i) (ib_port i) (JStr ''same'') r client;
                   Some [\<lparr>lk_remark = r, lk_link = l\<rparr>] }
         else case externalProxy of
           JArr eps \<Rightarrow> mapM (proxy_link canon i remark remarkModel client email) eps
         | _ \<Rightarrow> None)"

definition genInboundLinks :: "(string \<Rightarrow> string option) \<Rightarrow> string \<Rightarrow> Inbound \<Rightarrow> jsv \<Rightarrow> string \<Rightarrow> string option" where
  "genInboundLinks canon hostname i remark remarkModel =
     (let remark = dflt remark (JStr '''') in
      case ib_clients i of
        Some cs \<Rightarrow> do { ls \<leftarrow> mapM (\<lambda>c. genAllLinks canon hostname i remark remarkModel (Some c)) cs;
                        Some (join crlf (map lk_link (concat ls))) }
      | None \<Rightarrow>
         if loose_text (ib_protocol i) ''shadowsocks'' \<and> \<not> ib_isSSMultiUser i
         then genSSLink canon i (link_address hostname i) (ib_port i) (JStr ''same'') remark JUndef
         else if loose_text (ib_protocol i) ''wireguard'' then genWireguardConfigs hostname i remark remarkModel
         else Some '''')"

end
