(* ===== verification/LinkVmess.thy ===== *)
theory LinkVmess
  imports OutLinks InLinks
begin

text \<open>
  The links of the inbounds (web/assets/js/model/inbound.js) read as outbounds (web/assets/js/model/outbound.js): the
  two halves of the panel that meet in a share link. What an inbound writes, an outbound reads.
\<close>

section \<open>The scheme of a link\<close>

fun no_sep :: "string \<Rightarrow> bool" where
  "no_sep (c # d # cs) \<longleftrightarrow> \<not> (c = CHR '':'' \<and> d = CHR ''/'') \<and> no_sep (d # cs)"
| "no_sep [c] \<longleftrightarrow> True"
| "no_sep [] \<longleftrightarrow> True"

lemma split_seq_whole: "no_sep s \<Longrightarrow> split_seq ''://'' s = [s]"
proof (induction s rule: no_sep.induct)
  case (1 c d cs)
  then show ?case by (subst split_seq.simps) auto
next
  case (2 c)
  then show ?case by (subst split_seq.simps) (simp add: split_seq.simps [of _ "''''"])
next
  case 3
  then show ?case by (subst split_seq.simps) simp
qed

lemma split_seq_link:
  assumes "CHR '':'' \<notin> set a" and "no_sep b"
  shows "split_seq ''://'' (a @ ''://'' @ b) = [a, b]"
  using assms(1)
proof (induction a)
  case Nil
  then show ?case by (subst split_seq.simps) (simp add: split_seq_whole [OF assms(2)])
next
  case (Cons c a)
  then show ?case by (subst split_seq.simps) auto
qed

lemma no_sep_free: "CHR '':'' \<notin> set s \<Longrightarrow> no_sep s"
  by (induction s rule: no_sep.induct) auto

lemma no_sep_append: "no_sep s \<Longrightarrow> no_sep t \<Longrightarrow> (s = '''' \<or> last s \<noteq> CHR '':'' \<or> t = '''' \<or> hd t \<noteq> CHR ''/'') \<Longrightarrow> no_sep (s @ t)"
proof (induction s rule: no_sep.induct)
  case (2 c)
  then show ?case by (cases t) auto
qed auto

lemma base64_no_colon: "CHR '':'' \<notin> set (btoa s)"
proof
  assume "CHR '':'' \<in> set (btoa s)"
  then have "CHR '':'' \<in> set (map b64_char (sextets (map of_char s))) \<or> CHR '':'' \<in> set (padding (length (map of_char s :: nat list)))"
    by (simp add: btoa_def enc_bytes_sextets)
  moreover have "CHR '':'' \<notin> set (padding n)" for n by (auto simp: padding_def split: if_splits)
  ultimately obtain v where v: "v \<in> set (sextets (map of_char s))" "CHR '':'' = b64_char v" by auto
  then have "v < 64" using sextets_range byte_codes by blast
  then have "(of_char (CHR '':'') :: nat) = b64_code v" using of_b64_char v(2) by metis
  then show False by (simp add: b64_code_def split: if_splits)
qed

section \<open>VMess\<close>

lemma json_int_val: "json_int v \<Longrightarrow> json_val v"
  by (induction v rule: json_int.induct) (auto simp: list_all_iff)

lemma read_vmess_text:
  assumes "json_int (JObj ob)" and "stringify 2 (JObj ob) = Some text"
  shows "fromLink canon (''vmess://'' @ Base64_encode text False) = map_option Some (fromVmessLink (JObj ob))"
proof -
  have w: "wire (JObj ob) = JObj ob" by (rule json_val_wire [OF json_int_val [OF assms(1)]])
  have p: "json_parse text = Some (JObj ob)" using json_parse_stringify [of "JObj ob"] assms w by simp
  have "no_sep (Base64_encode text False)" by (simp add: Base64_encode_def no_sep_free base64_no_colon)
  then have "split_seq ''://'' (''vmess'' @ ''://'' @ Base64_encode text False) = [''vmess'', Base64_encode text False]"
    by (intro split_seq_link) simp_all
  moreover have "lower ''vmess'' = ''vmess''" by code_simp
  ultimately show ?thesis by (simp add: fromLink_def p)
qed

subsection \<open>What the object of a VMess link holds\<close>

definition vmess_base :: "Inbound \<Rightarrow> jsv \<Rightarrow> jsv \<Rightarrow> jsv \<Rightarrow> jsv \<Rightarrow> jsv \<Rightarrow> jsv \<Rightarrow> entries" where
  "vmess_base i address port tls remark clientId security =
     [(''v'', JStr ''2''), (''ps'', remark), (''add'', address), (''port'', port), (''id'', clientId),
      (''scy'', security), (''net'', ss_network (ib_stream i)), (''tls'', tls)]"

lemma look_set_all: "k \<notin> fst ` set fs \<Longrightarrow> look (foldl (\<lambda>ob (k, v). set_if (P v) k v ob) r fs) k = look r k"
  by (induction fs arbitrary: r) (auto simp: look_set_if)

lemma look_padding_fields:
  assumes "k \<notin> {''xPaddingObfsMode'', ''xPaddingKey'', ''xPaddingHeader'', ''xPaddingPlacement'', ''xPaddingMethod''}"
  shows "look (set_padding_fields x r) k = look r k"
proof -
  have "k \<notin> fst ` set (padding_fields x)" using assms by (simp add: padding_fields_def)
  then show ?thesis using assms by (simp add: set_padding_fields_def look_set_all look_obj_set)
qed

lemma look_padding:
  assumes "k \<notin> {''x_padding_bytes'', ''xPaddingObfsMode'', ''xPaddingKey'', ''xPaddingHeader'', ''xPaddingPlacement'',
    ''xPaddingMethod''}"
  shows "look (applyXhttpPaddingToObj x ob) k = look ob k"
  using assms by (simp add: applyXhttpPaddingToObj_def Let_def look_set_if look_padding_fields)

lemma look_padding_bytes:
  "filled_string (xh_xPaddingBytes x) \<Longrightarrow> look (applyXhttpPaddingToObj x ob) ''x_padding_bytes'' = xh_xPaddingBytes x"
  by (simp add: applyXhttpPaddingToObj_def Let_def look_set_if look_padding_fields)

lemma keys_set_if: "set (keys r) \<subseteq> set (keys (set_if c k v r))"
  by (auto simp: set_if_def keys_obj_set)

lemma keys_set_all: "set (keys r) \<subseteq> set (keys (foldl (\<lambda>ob (k, v). set_if (P v) k v ob) r fs))"
proof (induction fs arbitrary: r)
  case (Cons e fs)
  then show ?case using keys_set_if [of r "P (snd e)" "fst e" "snd e"] by (cases e) (auto simp del: keys_conv)
qed simp

lemma keys_padding: "set (keys ob) \<subseteq> set (keys (applyXhttpPaddingToObj x ob))"
proof -
  have "set (keys r) \<subseteq> set (keys (set_padding_fields x r))" for r
    using keys_set_all [of "obj_set r ''xPaddingObfsMode'' (JBool True)" filled_string "padding_fields x"]
    by (auto simp: set_padding_fields_def keys_obj_set)
  then show ?thesis using keys_set_if unfolding applyXhttpPaddingToObj_def Let_def by blast
qed

lemma vmess_parts:
  assumes "vmess_object i address port forceTls remark clientId security = Some ob"
  obtains t where
    "vmess_transport (ib_stream i) (vmess_base i address port (link_security i forceTls) remark clientId security) = Some t"
    "\<And>k. k \<notin> {''fm'', ''sni'', ''fp'', ''alpn''} \<Longrightarrow> look ob k = look t k"
    "set (keys t) \<subseteq> set (keys ob)"
    "link_security i forceTls = JStr ''tls'' \<Longrightarrow>
       vmess_tls (ss_tls (ib_stream i)) (applyFinalMaskToObj (ss_finalmask (ib_stream i)) t) = Some ob"
proof -
  let ?b = "vmess_base i address port (link_security i forceTls) remark clientId security"
  obtain t where t: "vmess_transport (ib_stream i) ?b = Some t"
    and rest: "(let ob = applyFinalMaskToObj (ss_finalmask (ib_stream i)) t
       in if link_security i forceTls = JStr ''tls'' then vmess_tls (ss_tls (ib_stream i)) ob else Some ob) = Some ob"
    using assms by (auto simp: vmess_object_def vmess_base_def Let_def split: bind_splits)
  have fm: "look (applyFinalMaskToObj m t) k = look t k" if "k \<noteq> ''fm''" for m k
    using that by (simp add: applyFinalMaskToObj_def Let_def look_set_if)
  have tls: "look ob k = look r k" if "vmess_tls s r = Some ob" "k \<notin> {''sni'', ''fp'', ''alpn''}" for s r k
    using that by (auto simp: vmess_tls_def Let_def look_set_if look_obj_set split: bind_splits if_splits)
  have l: "look ob k = look t k" if k: "k \<notin> {''fm'', ''sni'', ''fp'', ''alpn''}" for k
  proof (cases "link_security i forceTls = JStr ''tls''")
    case True
    then have "vmess_tls (ss_tls (ib_stream i)) (applyFinalMaskToObj (ss_finalmask (ib_stream i)) t) = Some ob"
      using rest by (simp add: Let_def)
    from tls [OF this, of k] fm [of k] k show ?thesis by simp
  next
    case False
    with rest fm [where k = k and m = "ss_finalmask (ib_stream i)"] k show ?thesis by (simp add: Let_def)
  qed
  have fk: "set (keys t) \<subseteq> set (keys (applyFinalMaskToObj m t))" for m
    unfolding applyFinalMaskToObj_def Let_def by (rule keys_set_if)
  have tk: "set (keys r) \<subseteq> set (keys ob)" if "vmess_tls s r = Some ob" for s r
  proof -
    define q where "q = set_if (\<not> isEmpty (tlss_fingerprint (tls_settings s))) ''fp'' (tlss_fingerprint (tls_settings s))
      (set_if (\<not> isEmpty (tls_sni s)) ''sni'' (tls_sni s) r)"
    have "set (keys r) \<subseteq> set (keys q)" unfolding q_def using keys_set_if by blast
    moreover have "set (keys q) \<subseteq> set (keys ob)"
      using that unfolding vmess_tls_def Let_def q_def [symmetric] by (auto simp: keys_obj_set split: bind_splits if_splits)
    ultimately show ?thesis by blast
  qed
  have k: "set (keys t) \<subseteq> set (keys ob)"
  proof (cases "link_security i forceTls = JStr ''tls''")
    case True
    then have "vmess_tls (ss_tls (ib_stream i)) (applyFinalMaskToObj (ss_finalmask (ib_stream i)) t) = Some ob"
      using rest by (simp add: Let_def)
    from tk [OF this] fk show ?thesis by blast
  next
    case False
    with rest fk [of "ss_finalmask (ib_stream i)"] show ?thesis by (simp add: Let_def)
  qed
  show thesis
    by (rule that [OF t l k]) (use rest in \<open>simp_all add: Let_def\<close>)
qed

text \<open>What the two sides share of a transport.\<close>

definition same_transport :: "StreamSettings \<Rightarrow> OutStreamSettings \<Rightarrow> bool" where
  "same_transport s t \<longleftrightarrow>
     (if ss_network s = JStr ''tcp''
      then otcp_type (os_tcp t) = tcp_type (ss_tcp s) \<and>
        (tcp_type (ss_tcp s) = JStr ''http'' \<longrightarrow>
           js_join '','' (treq_path (tcp_request (ss_tcp s))) = Some (otcp_path (os_tcp t)) \<and>
           (truthy (getHeader (treq_headers (tcp_request (ss_tcp s))) ''host'') \<longrightarrow>
              otcp_host (os_tcp t) = getHeader (treq_headers (tcp_request (ss_tcp s))) ''host''))
      else if ss_network s = JStr ''kcp''
      then (positive (kcp_mtu (ss_kcp s)) \<longrightarrow> okcp_mtu (os_kcp t) = kcp_mtu (ss_kcp s)) \<and>
        (positive (kcp_tti (ss_kcp s)) \<longrightarrow> okcp_tti (os_kcp t) = kcp_tti (ss_kcp s))
      else if ss_network s = JStr ''ws''
      then ows_path (os_ws t) = ws_path (ss_ws s) \<and>
        ows_host (os_ws t) = host_or_header (ws_host (ss_ws s)) (ws_headers (ss_ws s))
      else if ss_network s = JStr ''grpc''
      then ogrpc_serviceName (os_grpc t) = grpc_serviceName (ss_grpc s) \<and>
        ogrpc_authority (os_grpc t) = grpc_authority (ss_grpc s) \<and>
        ogrpc_multiMode (os_grpc t) = JBool (truthy (grpc_multiMode (ss_grpc s)))
      else if ss_network s = JStr ''httpupgrade''
      then ohu_path (os_httpupgrade t) = hu_path (ss_httpupgrade s) \<and>
        ohu_host (os_httpupgrade t) = host_or_header (hu_host (ss_httpupgrade s)) (hu_headers (ss_httpupgrade s))
      else ss_network s = JStr ''xhttp'' \<longrightarrow>
        ox_path (os_xhttp t) = xh_path (ss_xhttp s) \<and>
        ox_host (os_xhttp t) = host_or_header (xh_host (ss_xhttp s)) (xh_headers (ss_xhttp s)))"

text \<open>
  The code tells a given text from an absent one by undefined, which no JSON value is.
\<close>

lemma json_given: "json_int (JObj kvs) \<Longrightarrow> k \<in> set (keys kvs) \<Longrightarrow> look kvs k \<noteq> JUndef"
proof -
  assume j: "json_int (JObj kvs)" and k: "k \<in> set (keys kvs)"
  have "look kvs k \<in> snd ` set kvs" using k by (induction kvs) force+
  with j show ?thesis by auto
qed

lemma positive_kept: "positive v \<Longrightarrow> positive_number v d = v"
  by (induction v rule: positive.induct) (auto simp: positive_number_def)

text \<open>
  Of the xHTTP settings that a VMess link carries the reader takes the path and the host. The mode is
  written as type and the padding as \<open>x_padding_bytes\<close>, under which the reader does not look: these are
  the properties it looks for, none of which the link has.
\<close>

definition xhttp_read_keys :: "string list" where
  "xhttp_read_keys = [''mode'', ''extra'', ''noGRPCHeader'', ''scMaxEachPostBytes'', ''scMinPostsIntervalMs'',
     ''xPaddingBytes'', ''xmux'', ''downloadSettings'']"

definition vmess_read :: "entries \<Rightarrow> StreamSettings \<Rightarrow> OutStreamSettings \<Rightarrow> bool" where
  "vmess_read ob s t \<longleftrightarrow>
     same_transport s t \<and> os_finalmask t = default_OutFinalMask \<and>
     (if ss_network s = JStr ''xhttp''
      then os_xhttp t = default_OutXhttp
             \<lparr>ox_path := xh_path (ss_xhttp s), ox_host := host_or_header (xh_host (ss_xhttp s)) (xh_headers (ss_xhttp s))\<rparr> \<and>
           look ob ''type'' = xh_mode (ss_xhttp s) \<and>
           (filled_string (xh_xPaddingBytes (ss_xhttp s)) \<longrightarrow> look ob ''x_padding_bytes'' = xh_xPaddingBytes (ss_xhttp s))
      else True)"

lemma vmess_xhttp_kept:
  assumes "look ob ''path'' \<noteq> JUndef" "look ob ''host'' \<noteq> JUndef" and "\<And>k. k \<in> set xhttp_read_keys \<Longrightarrow> look ob k = JUndef"
  shows "vmess_xhttp (JObj ob) = default_OutXhttp\<lparr>ox_path := look ob ''path'', ox_host := look ob ''host''\<rparr>"
proof -
  have t: "is_text v \<Longrightarrow> truthy v" for v by (cases v) (auto simp: is_text_def)
  have u: "look ob ''mode'' = JUndef" "look ob ''extra'' = JUndef" "look ob ''noGRPCHeader'' = JUndef"
    "look ob ''scMaxEachPostBytes'' = JUndef" "look ob ''scMinPostsIntervalMs'' = JUndef" "look ob ''xPaddingBytes'' = JUndef"
    "look ob ''xmux'' = JUndef" "look ob ''downloadSettings'' = JUndef"
    using assms(3) by (simp_all add: xhttp_read_keys_def)
  show ?thesis
    using assms(1,2) t [of "look ob ''path''"] t [of "look ob ''host''"]
    by (auto simp add: vmess_xhttp_def parsed_extra_def is_obj_def applyXhttpExtra_def Let_def new_OutXhttp_def
        default_OutXhttp_def is_text_def [of JUndef] u)
qed

text \<open>The list of application protocols is read back when its names are not empty and hold no comma.\<close>

definition alpn_list :: "jsv \<Rightarrow> bool" where
  "alpn_list v \<longleftrightarrow>
     (case v of JArr vs \<Rightarrow> list_all (\<lambda>e. case e of JStr s \<Rightarrow> s \<noteq> '''' \<and> CHR '','' \<notin> set s | _ \<Rightarrow> False) vs | _ \<Rightarrow> False)"

definition same_tls :: "TlsStreamSettings \<Rightarrow> OutTls \<Rightarrow> bool" where
  "same_tls s t \<longleftrightarrow>
     otl_serverName t = (if isEmpty (tls_sni s) then JStr '''' else tls_sni s) \<and>
     otl_fingerprint t = (if isEmpty (tlss_fingerprint (tls_settings s)) then JStr '''' else tlss_fingerprint (tls_settings s)) \<and>
     otl_alpn t = tls_alpn s"

lemma alpn_texts: "alpn_list v \<Longrightarrow> \<exists>ss. v = JArr (map JStr ss) \<and> (\<forall>s \<in> set ss. s \<noteq> '''' \<and> CHR '','' \<notin> set s)"
proof -
  have "list_all (\<lambda>e. case e of JStr s \<Rightarrow> s \<noteq> '''' \<and> CHR '','' \<notin> set s | _ \<Rightarrow> False) vs \<Longrightarrow>
    \<exists>ss. vs = map JStr ss \<and> (\<forall>s \<in> set ss. s \<noteq> '''' \<and> CHR '','' \<notin> set s)" for vs
  proof (induction vs)
    case (Cons e vs)
    then obtain ss s where "vs = map JStr ss" "\<forall>s \<in> set ss. s \<noteq> '''' \<and> CHR '','' \<notin> set s" "e = JStr s" "s \<noteq> ''''" "CHR '','' \<notin> set s"
      by (auto split: jsv.splits)
    then show ?case by (intro exI [of _ "s # ss"]) simp
  qed simp
  moreover assume "alpn_list v"
  ultimately show ?thesis by (cases v) (auto simp: alpn_list_def)
qed

lemma alpn_again:
  assumes "alpn_list v"
  obtains s where "js_join '','' v = Some (JStr s)" "longer_than_0 v = Some (v \<noteq> JArr [])"
    "split_alpn (if v \<noteq> JArr [] then JStr s else JUndef) = Some v"
proof -
  obtain ss where v: "v = JArr (map JStr ss)" and ss: "\<forall>s \<in> set ss. s \<noteq> '''' \<and> CHR '','' \<notin> set s"
    using alpn_texts [OF assms] by blast
  have m: "map ((\<lambda>v. if v = JUndef \<or> v = JNull then '''' else js_to_string v) \<circ> JStr) ss = ss"
    by (intro map_idI) simp
  have "ss \<noteq> [] \<Longrightarrow> join '','' ss \<noteq> ''''" using join_ends [of ss] ss by blast
  moreover have "ss \<noteq> [] \<Longrightarrow> split_on (CHR '','') (join '','' ss) = ss" using ss by (intro split_join) auto
  ultimately show thesis
    by (intro that [of "join '','' ss"]) (auto simp: v m longer_than_0_def split_alpn_def)
qed

lemma vmess_tls_look:
  assumes "vmess_tls s r = Some ob" and "alpn_list (tls_alpn s)" and "look r ''sni'' = JUndef" "look r ''fp'' = JUndef" "look r ''alpn'' = JUndef"
  shows "look ob ''sni'' = (if isEmpty (tls_sni s) then JUndef else tls_sni s) \<and>
    look ob ''fp'' = (if isEmpty (tlss_fingerprint (tls_settings s)) then JUndef else tlss_fingerprint (tls_settings s)) \<and>
    split_alpn (look ob ''alpn'') = Some (tls_alpn s)"
proof -
  obtain a where a: "js_join '','' (tls_alpn s) = Some (JStr a)" "longer_than_0 (tls_alpn s) = Some (tls_alpn s \<noteq> JArr [])"
    "split_alpn (if tls_alpn s \<noteq> JArr [] then JStr a else JUndef) = Some (tls_alpn s)"
    using alpn_again [OF assms(2)] by blast
  define q where "q = set_if (\<not> isEmpty (tlss_fingerprint (tls_settings s))) ''fp'' (tlss_fingerprint (tls_settings s))
        (set_if (\<not> isEmpty (tls_sni s)) ''sni'' (tls_sni s) r)"
  have "vmess_tls s r = Some (set_if (tls_alpn s \<noteq> JArr []) ''alpn'' (JStr a) q)"
    unfolding vmess_tls_def Let_def q_def [symmetric] a(1,2) by (simp only: bind.bind_lunit) (simp add: set_if_def)
  with assms(1) have ob: "ob = set_if (tls_alpn s \<noteq> JArr []) ''alpn'' (JStr a) q" by simp
  have "look ob ''alpn'' = (if tls_alpn s \<noteq> JArr [] then JStr a else JUndef)"
    using assms(5) by (simp add: ob q_def look_set_if)
  with a(3) show ?thesis using assms(3,4) by (simp add: ob q_def look_set_if)
qed

text \<open>
  A list of entries that has those of t, and others under the keys of the masks and of TLS.
\<close>

definition extends :: "string set \<Rightarrow> entries \<Rightarrow> entries \<Rightarrow> bool" where
  "extends late ob t \<longleftrightarrow> set (keys t) \<subseteq> set (keys ob) \<and> (\<forall>k. k \<notin> late \<longrightarrow> look ob k = look t k)"

abbreviation vmess_late :: "string set" where
  "vmess_late \<equiv> {''fm'', ''sni'', ''fp'', ''alpn''}"

lemma extends_look: "extends late ob t \<Longrightarrow> k \<notin> late \<Longrightarrow> look ob k = look t k"
  by (simp add: extends_def)

lemma extends_given:
  "extends late ob t \<Longrightarrow> json_int (JObj ob) \<Longrightarrow> k \<notin> late \<Longrightarrow> k \<in> set (keys t) \<Longrightarrow> look t k \<noteq> JUndef"
  using json_given [of ob k] by (auto simp: extends_def)

lemma get_entry [simp]: "js_get_opt (JObj kvs) k = look kvs k"
  by simp

lemma look_vmess_base:
  "look (vmess_base i a p sc r c sec) ''net'' = ss_network (ib_stream i)" "look (vmess_base i a p sc r c sec) ''tls'' = sc"
  "look (vmess_base i a p sc r c sec) ''type'' = JUndef" "look (vmess_base i a p sc r c sec) ''host'' = JUndef"
  "look (vmess_base i a p sc r c sec) ''path'' = JUndef" "look (vmess_base i a p sc r c sec) ''mode'' = JUndef"
  "look (vmess_base i a p sc r c sec) ''extra'' = JUndef" "look (vmess_base i a p sc r c sec) ''ps'' = r"
  "look (vmess_base i a p sc r c sec) ''add'' = a" "look (vmess_base i a p sc r c sec) ''port'' = p"
  "look (vmess_base i a p sc r c sec) ''id'' = c" "look (vmess_base i a p sc r c sec) ''scy'' = sec"
  "look (vmess_base i a p sc r c sec) ''sni'' = JUndef" "look (vmess_base i a p sc r c sec) ''fp'' = JUndef"
  "look (vmess_base i a p sc r c sec) ''alpn'' = JUndef" "look (vmess_base i a p sc r c sec) ''noGRPCHeader'' = JUndef"
  "look (vmess_base i a p sc r c sec) ''scMaxEachPostBytes'' = JUndef"
  "look (vmess_base i a p sc r c sec) ''scMinPostsIntervalMs'' = JUndef"
  "look (vmess_base i a p sc r c sec) ''xPaddingBytes'' = JUndef" "look (vmess_base i a p sc r c sec) ''xmux'' = JUndef"
  "look (vmess_base i a p sc r c sec) ''downloadSettings'' = JUndef"
  by (simp_all add: vmess_base_def)

text \<open>The transports write under seven keys only.\<close>

lemma transport_other:
  assumes "vmess_transport s b = Some t" and "k \<notin> {''type'', ''host'', ''path'', ''authority'', ''mtu'', ''tti''}"
    and "k \<notin> {''x_padding_bytes'', ''xPaddingObfsMode'', ''xPaddingKey'', ''xPaddingHeader'', ''xPaddingPlacement'', ''xPaddingMethod''}"
  shows "look t k = look b k"
proof -
  have k: "k \<noteq> ''type''" "k \<noteq> ''host''" "k \<noteq> ''path''" "k \<noteq> ''authority''" "k \<noteq> ''mtu''" "k \<noteq> ''tti''"
    using assms(2) by simp_all
  show ?thesis
    using assms(1) unfolding vmess_transport_def Let_def
    by (auto simp: k look_obj_set look_set_if look_padding [OF assms(3)] split: if_splits bind_splits)
qed

lemma transport_keys: "vmess_transport s b = Some t \<Longrightarrow> set (keys b) \<subseteq> set (keys t)"
  unfolding vmess_transport_def Let_def
  by (auto simp: keys_obj_set dest: subsetD [OF keys_set_if, rotated] split: if_splits bind_splits
      intro!: subsetD [OF keys_set_if] subsetD [OF keys_padding])

lemma read_path_host:
  assumes "t = obj_set (obj_set b ''path'' p) ''host'' h" and "extends vmess_late ob t" and "json_int (JObj ob)"
  shows "look ob ''path'' = p" "look ob ''host'' = h" "p \<noteq> JUndef" "h \<noteq> JUndef"
proof -
  show "look ob ''path'' = p" "look ob ''host'' = h"
    using extends_look [OF assms(2)] by (simp_all add: assms(1) look_obj_set)
  show "p \<noteq> JUndef" "h \<noteq> JUndef"
    using extends_given [OF assms(2,3), of "''path''"] extends_given [OF assms(2,3), of "''host''"]
    by (simp_all add: assms(1) look_obj_set keys_obj_set)
qed

lemma read_ws:
  assumes "ss_network s = JStr ''ws''" and "vmess_transport s b = Some t" and "extends vmess_late ob t" and "json_int (JObj ob)"
    and "look ob ''net'' = JStr ''ws''"
  shows "same_transport s (vmess_stream (JObj ob))"
proof -
  have "t = obj_set (obj_set b ''path'' (ws_path (ss_ws s))) ''host'' (host_or_header (ws_host (ss_ws s)) (ws_headers (ss_ws s)))"
    using assms(1,2) by (simp add: vmess_transport_def)
  from read_path_host [OF this assms(3,4)] show ?thesis
    using assms(1,5) by (simp add: same_transport_def vmess_stream_def new_OutWs_def dflt_def)
qed

lemma read_httpupgrade:
  assumes "ss_network s = JStr ''httpupgrade''" and "vmess_transport s b = Some t" and "extends vmess_late ob t" and "json_int (JObj ob)"
    and "look ob ''net'' = JStr ''httpupgrade''"
  shows "same_transport s (vmess_stream (JObj ob))"
proof -
  have "t = obj_set (obj_set b ''path'' (hu_path (ss_httpupgrade s)))
      ''host'' (host_or_header (hu_host (ss_httpupgrade s)) (hu_headers (ss_httpupgrade s)))"
    using assms(1,2) by (simp add: vmess_transport_def)
  from read_path_host [OF this assms(3,4)] show ?thesis
    using assms(1,5) by (simp add: same_transport_def vmess_stream_def new_OutHttpUpgrade_def dflt_def)
qed

lemma read_grpc:
  assumes "ss_network s = JStr ''grpc''" and "vmess_transport s b = Some t" and "extends vmess_late ob t" and "json_int (JObj ob)"
    and "look ob ''net'' = JStr ''grpc''" and "look b ''type'' = JUndef"
  shows "same_transport s (vmess_stream (JObj ob))"
proof -
  let ?t = "obj_set (obj_set b ''path'' (grpc_serviceName (ss_grpc s))) ''authority'' (grpc_authority (ss_grpc s))"
  have t: "t = set_if (truthy (grpc_multiMode (ss_grpc s))) ''type'' (JStr ''multi'') ?t"
    using assms(1,2) by (simp add: vmess_transport_def)
  have k: "{''path'', ''authority''} \<subseteq> set (keys t)"
    using keys_set_if [of ?t] unfolding t by (auto simp: keys_obj_set)
  have "look ob ''path'' = grpc_serviceName (ss_grpc s)" "look ob ''authority'' = grpc_authority (ss_grpc s)"
    "look ob ''type'' = (if truthy (grpc_multiMode (ss_grpc s)) then JStr ''multi'' else JUndef)"
    using extends_look [OF assms(3)] assms(6) by (simp_all add: t look_set_if look_obj_set)
  moreover have "look t ''path'' \<noteq> JUndef" "look t ''authority'' \<noteq> JUndef"
    using extends_given [OF assms(3,4)] k by auto
  ultimately show ?thesis
    using assms(1,5) by (simp add: same_transport_def vmess_stream_def new_OutGrpc_def dflt_def t look_set_if look_obj_set)
qed

lemma read_kcp:
  assumes "ss_network s = JStr ''kcp''" and "vmess_transport s b = Some t" and "extends vmess_late ob t"
    and "look ob ''net'' = JStr ''kcp''"
  shows "same_transport s (vmess_stream (JObj ob))"
proof -
  have "t = obj_set (obj_set b ''mtu'' (kcp_mtu (ss_kcp s))) ''tti'' (kcp_tti (ss_kcp s))"
    using assms(1,2) by (simp add: vmess_transport_def)
  then have "look ob ''mtu'' = kcp_mtu (ss_kcp s)" "look ob ''tti'' = kcp_tti (ss_kcp s)"
    using extends_look [OF assms(3)] by (simp_all add: look_obj_set)
  then show ?thesis
    using assms(1,4) by (simp add: same_transport_def vmess_stream_def set_kcp_def positive_kept)
qed

lemma read_tcp:
  assumes "ss_network s = JStr ''tcp''" and "vmess_transport s b = Some t" and "extends vmess_late ob t" and "json_int (JObj ob)"
    and "look ob ''net'' = JStr ''tcp''" and "look b ''path'' = JUndef"
  shows "same_transport s (vmess_stream (JObj ob))"
proof (cases "tcp_type (ss_tcp s) = JStr ''http''")
  case True
  then obtain p where p: "js_join '','' (treq_path (tcp_request (ss_tcp s))) = Some p"
    and t: "t = set_if (truthy (getHeader (treq_headers (tcp_request (ss_tcp s))) ''host'')) ''host''
       (getHeader (treq_headers (tcp_request (ss_tcp s))) ''host'') (obj_set (obj_set b ''type'' (JStr ''http'')) ''path'' p)"
    using assms(1,2) by (auto simp: vmess_transport_def Let_def split: bind_splits)
  have "\<exists>q. p = JStr q" using p by (cases "treq_path (tcp_request (ss_tcp s))") auto
  moreover have "look ob ''type'' = JStr ''http''" "look ob ''path'' = p"
    "truthy (getHeader (treq_headers (tcp_request (ss_tcp s))) ''host'') \<Longrightarrow>
       look ob ''host'' = getHeader (treq_headers (tcp_request (ss_tcp s))) ''host''"
    using extends_look [OF assms(3)] by (simp_all add: t look_set_if look_obj_set)
  ultimately show ?thesis
    using assms(1,5) True p truthy_not_undef
    by (auto simp: same_transport_def vmess_stream_def new_OutTcp_def nullish_def)
next
  case False
  then have t: "t = obj_set b ''type'' (tcp_type (ss_tcp s))"
    using assms(1,2) by (simp add: vmess_transport_def Let_def)
  then have "look ob ''type'' = tcp_type (ss_tcp s)" using extends_look [OF assms(3)] by (simp add: look_obj_set)
  moreover have "look t ''type'' \<noteq> JUndef" using extends_given [OF assms(3,4)] t by (simp add: keys_obj_set)
  ultimately show ?thesis
    using assms(1,5) False by (simp add: same_transport_def vmess_stream_def new_OutTcp_def t look_obj_set dflt_def)
qed

lemma read_xhttp:
  assumes "ss_network s = JStr ''xhttp''" and "vmess_transport s b = Some t" and "extends vmess_late ob t" and "json_int (JObj ob)"
    and "look ob ''net'' = JStr ''xhttp''" and b: "\<And>k. k \<in> set xhttp_read_keys \<Longrightarrow> look b k = JUndef"
  shows "os_xhttp (vmess_stream (JObj ob)) = default_OutXhttp
      \<lparr>ox_path := xh_path (ss_xhttp s), ox_host := host_or_header (xh_host (ss_xhttp s)) (xh_headers (ss_xhttp s))\<rparr>"
    and "look ob ''type'' = xh_mode (ss_xhttp s)"
    and "filled_string (xh_xPaddingBytes (ss_xhttp s)) \<Longrightarrow> look ob ''x_padding_bytes'' = xh_xPaddingBytes (ss_xhttp s)"
proof -
  let ?x = "ss_xhttp s"
  let ?t = "obj_set (obj_set (obj_set b ''path'' (xh_path ?x)) ''host'' (host_or_header (xh_host ?x) (xh_headers ?x))) ''type'' (xh_mode ?x)"
  have t: "t = applyXhttpPaddingToObj ?x ?t" using assms(1,2) by (simp add: vmess_transport_def Let_def)
  have l: "look ob ''path'' = xh_path ?x" "look ob ''host'' = host_or_header (xh_host ?x) (xh_headers ?x)"
    "look ob ''type'' = xh_mode ?x"
    using extends_look [OF assms(3)] by (simp_all add: t look_padding look_obj_set)
  have u: "look ob k = JUndef" if "k \<in> set xhttp_read_keys" for k
    using extends_look [OF assms(3), of k] b [OF that] that
    by (auto simp: xhttp_read_keys_def t look_padding look_obj_set)
  have "{''path'', ''host''} \<subseteq> set (keys t)" using keys_padding [of ?t ?x] unfolding t by (auto simp: keys_obj_set)
  then have g: "look ob ''path'' \<noteq> JUndef" "look ob ''host'' \<noteq> JUndef"
    using extends_given [OF assms(3,4), of "''path''"] extends_given [OF assms(3,4), of "''host''"]
      extends_look [OF assms(3), of "''path''"] extends_look [OF assms(3), of "''host''"] by simp_all
  show "os_xhttp (vmess_stream (JObj ob)) = default_OutXhttp
      \<lparr>ox_path := xh_path ?x, ox_host := host_or_header (xh_host ?x) (xh_headers ?x)\<rparr>"
    using vmess_xhttp_kept [OF g u] assms(5) by (simp add: vmess_stream_def l(1,2))
  show "look ob ''type'' = xh_mode ?x" by (rule l(3))
  show "look ob ''x_padding_bytes'' = xh_xPaddingBytes ?x" if "filled_string (xh_xPaddingBytes ?x)"
    using extends_look [OF assms(3), of "''x_padding_bytes''"] look_padding_bytes [OF that] by (simp add: t)
qed

lemma read_transport:
  assumes "vmess_transport s b = Some t" and "extends vmess_late ob t" and "json_int (JObj ob)"
    and "look ob ''net'' = ss_network s" and "look b ''type'' = JUndef" "look b ''path'' = JUndef"
    and b: "\<And>k. k \<in> set xhttp_read_keys \<Longrightarrow> look b k = JUndef"
  shows "same_transport s (vmess_stream (JObj ob))"
proof -
  consider "ss_network s = JStr ''tcp''" | "ss_network s = JStr ''kcp''" | "ss_network s = JStr ''ws''"
    | "ss_network s = JStr ''grpc''" | "ss_network s = JStr ''httpupgrade''" | "ss_network s = JStr ''xhttp''"
    | "ss_network s \<noteq> JStr ''tcp''" "ss_network s \<noteq> JStr ''kcp''" "ss_network s \<noteq> JStr ''ws''"
      "ss_network s \<noteq> JStr ''grpc''" "ss_network s \<noteq> JStr ''httpupgrade''" "ss_network s \<noteq> JStr ''xhttp''"
    by metis
  then show ?thesis
  proof cases
    case 1 then show ?thesis using read_tcp assms by simp
  next
    case 2 then show ?thesis using read_kcp assms by simp
  next
    case 3 then show ?thesis using read_ws assms by simp
  next
    case 4 then show ?thesis using read_grpc assms by simp
  next
    case 5 then show ?thesis using read_httpupgrade assms by simp
  next
    case 6 then show ?thesis using read_xhttp(1) [OF 6 assms(1-3) _ b] assms(4) by (simp add: same_transport_def default_OutXhttp_def)
  next
    case 7 then show ?thesis by (simp add: same_transport_def)
  qed
qed

lemma read_finalmask: "os_finalmask (vmess_stream (JObj ob)) = default_OutFinalMask"
  by (simp add: vmess_stream_def Let_def plain_stream_def new_OutStreamSettings_def opt_new_def)

lemma read_vmess_stream:
  assumes "vmess_transport s b = Some t" and "extends vmess_late ob t" and "json_int (JObj ob)"
    and "look ob ''net'' = ss_network s" and "look b ''type'' = JUndef" "look b ''path'' = JUndef"
    and b: "\<And>k. k \<in> set xhttp_read_keys \<Longrightarrow> look b k = JUndef"
  shows "vmess_read ob s (vmess_stream (JObj ob))"
proof (cases "ss_network s = JStr ''xhttp''")
  case True
  from read_xhttp [OF this assms(1-3) _ b] read_transport [OF assms] show ?thesis
    using assms(4) True by (simp add: vmess_read_def read_finalmask)
next
  case False
  with read_transport [OF assms] show ?thesis by (simp add: vmess_read_def read_finalmask)
qed

lemma stream_names:
  "os_network (vmess_stream (JObj ob)) = dflt (look ob ''net'') (JStr ''tcp'')"
  "os_security (vmess_stream (JObj ob)) = dflt (look ob ''tls'') (JStr ''none'')"
  by (simp_all add: vmess_stream_def Let_def plain_stream_def new_OutStreamSettings_def)

lemma vmess_read_tls: "vmess_read ob s (t\<lparr>os_tls := v\<rparr>) = vmess_read ob s t"
  by (simp add: vmess_read_def same_transport_def)

text \<open>
  C8: what the outbound form understands of a VMess link. For every VMess inbound whose link holds
  texts, flags and whole numbers, the link is generated and reading it gives an outbound with
  the address, port, identifier, security, remark, network and security layer of the link, with its
  TLS server name, fingerprint and protocol list when the layer is TLS, and with all the parameters that
  the link carries of a TCP, mKCP (its MTU and TTI where they are positive), WebSocket, gRPC or HTTPUpgrade
  transport. Of an xHTTP transport only the path
  and the host arrive: the link carries the mode (as type) and the padding (as \<open>x_padding_bytes\<close>) too, and
  the form leaves both, like every other xHTTP parameter, at the empty defaults; nor does it read
  the final mask of the link, whatever the network is.
\<close>
theorem vmess_link_read:
  assumes "ib_protocol i = JStr ''vmess''"
    and "vmess_object i (JStr address) (jint port) forceTls (JStr remark) (JStr client) (JStr security) = Some ob"
    and "json_int (JObj ob)"
    and "link_security i forceTls = JStr ''tls'' \<Longrightarrow> alpn_list (tls_alpn (ss_tls (ib_stream i)))"
    and "is_string (link_security i forceTls)"
  shows "\<exists>link x.
    genVmessLink i (JStr address) (jint port) forceTls (JStr remark) (JStr client) (JStr security) = Some link \<and>
    fromLink canon link = Some (Some x) \<and>
    ob_protocol x = JStr ''vmess'' \<and> ob_tag x = JStr remark \<and>
    ob_settings x = Some (OVmess (new_OutVmess (JStr address) (jint port) (JStr client) (JStr security))) \<and>
    os_network (ob_stream x) = ss_network (ib_stream i) \<and> os_security (ob_stream x) = link_security i forceTls \<and>
    vmess_read ob (ib_stream i) (ob_stream x) \<and>
    (if link_security i forceTls = JStr ''tls'' then same_tls (ss_tls (ib_stream i)) (os_tls (ob_stream x)) else True)"
proof -
  define s where "s = ib_stream i"
  define tl where "tl = link_security i forceTls"
  define b where "b = vmess_base i (JStr address) (jint port) tl (JStr remark) (JStr client) (JStr security)"
  obtain t where t: "vmess_transport s b = Some t" "extends vmess_late ob t"
    "tl = JStr ''tls'' \<Longrightarrow> vmess_tls (ss_tls s) (applyFinalMaskToObj (ss_finalmask s) t) = Some ob"
    using vmess_parts [OF assms(2)] unfolding s_def b_def tl_def extends_def by metis
  note look_b = look_vmess_base [of i "JStr address" "jint port" tl "JStr remark" "JStr client" "JStr security",
      folded b_def s_def]
  have l: "look ob k = look b k"
    if "k \<notin> {''fm'', ''sni'', ''fp'', ''alpn''}" "k \<notin> {''type'', ''host'', ''path'', ''authority'', ''mtu'', ''tti''}"
      "k \<notin> {''x_padding_bytes'', ''xPaddingObfsMode'', ''xPaddingKey'', ''xPaddingHeader'', ''xPaddingPlacement'', ''xPaddingMethod''}" for k
    using extends_look [OF t(2) that(1)] transport_other [OF t(1) that(2,3)] by simp
  have v: "look ob ''net'' = ss_network s" "look ob ''tls'' = tl" "look ob ''ps'' = JStr remark" "look ob ''add'' = JStr address"
    "look ob ''port'' = jint port" "look ob ''id'' = JStr client" "look ob ''scy'' = JStr security"
    by (simp_all add: l look_b)
  have "set (keys b) \<subseteq> set (keys ob)" using transport_keys [OF t(1)] t(2) unfolding extends_def by blast
  then have g: "ss_network s \<noteq> JUndef" "tl \<noteq> JUndef"
    using json_given [OF assms(3), of "''net''"] json_given [OF assms(3), of "''tls''"]
    by (simp_all add: b_def vmess_base_def v(1,2))
  obtain json where json: "stringify 2 (JObj ob) = Some json" by (simp add: stringify_def)
  have gen: "genVmessLink i (JStr address) (jint port) forceTls (JStr remark) (JStr client) (JStr security) =
      Some (''vmess://'' @ Base64_encode json False)"
    by (simp add: genVmessLink_def assms(1,2) json)
  have tr: "vmess_read ob s (vmess_stream (JObj ob))"
    by (rule read_vmess_stream [OF t(1,2) assms(3) v(1)]) (auto simp: look_b xhttp_read_keys_def)
  have names: "os_network (vmess_stream (JObj ob)) = ss_network s" "os_security (vmess_stream (JObj ob)) = tl"
    using g by (simp_all add: stream_names v dflt_def)
  show ?thesis
  proof (cases "tl = JStr ''tls''")
    case True
    define r where "r = applyFinalMaskToObj (ss_finalmask s) t"
    have r: "look r k = look b k"
      if "k \<notin> {''type'', ''host'', ''path'', ''authority'', ''mtu'', ''tti''}"
        "k \<notin> {''x_padding_bytes'', ''xPaddingObfsMode'', ''xPaddingKey'', ''xPaddingHeader'', ''xPaddingPlacement'', ''xPaddingMethod''}"
        "k \<noteq> ''fm''" for k
      using transport_other [OF t(1) that(1,2)] that(3) by (simp add: r_def applyFinalMaskToObj_def Let_def look_set_if)
    have tls: "look ob ''sni'' = (if isEmpty (tls_sni (ss_tls s)) then JUndef else tls_sni (ss_tls s))"
      "look ob ''fp'' = (if isEmpty (tlss_fingerprint (tls_settings (ss_tls s))) then JUndef else tlss_fingerprint (tls_settings (ss_tls s)))"
      "split_alpn (look ob ''alpn'') = Some (tls_alpn (ss_tls s))"
      using vmess_tls_look [OF t(3) [OF True, folded r_def]] assms(4) True by (simp_all add: r look_b s_def tl_def)
    define o_tls where "o_tls = new_OutTls (look ob ''sni'') (tls_alpn (ss_tls s)) (look ob ''fp'') JUndef JUndef JUndef"
    have a: "tls_alpn (ss_tls s) \<noteq> JUndef" using assms(4) True by (auto simp: alpn_list_def s_def tl_def)
    have e: "isEmpty w \<or> w \<noteq> JUndef" for w by (auto simp: isEmpty_def)
    have "same_tls (ss_tls s) o_tls"
      using a e [of "tls_sni (ss_tls s)"] e [of "tlss_fingerprint (tls_settings (ss_tls s))"]
      by (auto simp: same_tls_def o_tls_def new_OutTls_def tls(1,2) dflt_def)
    moreover have "fromVmessLink (JObj ob) = new_Outbound (JStr remark) (JStr ''vmess'')
        (Some (OVmess (new_OutVmess (JStr address) (jint port) (JStr client) (JStr security))))
        (Some (vmess_stream (JObj ob)\<lparr>os_tls := o_tls\<rparr>)) JUndef None"
      using True by (simp add: fromVmessLink_def v tls(3) o_tls_def)
    ultimately show ?thesis
      using gen read_vmess_text [OF assms(3) json] tr names True
      by (simp add: new_Outbound_def vmess_read_tls s_def tl_def)
  next
    case False
    obtain u where "tl = JStr u" using assms(5) by (auto simp: tl_def is_string_iff)
    with False have "fromVmessLink (JObj ob) = new_Outbound (JStr remark) (JStr ''vmess'')
        (Some (OVmess (new_OutVmess (JStr address) (jint port) (JStr client) (JStr security))))
        (Some (vmess_stream (JObj ob))) JUndef None"
      by (simp add: fromVmessLink_def v)
    then show ?thesis
      using gen read_vmess_text [OF assms(3) json] tr names False
      by (simp add: new_Outbound_def s_def tl_def)
  qed
qed

end
