(* ===== verification/LinkUrl.thy ===== *)
theory LinkUrl
  imports LinkVmess
begin

text \<open>
  The links that are URLs: VLESS, Trojan and Shadowsocks (web/assets/js/model/inbound.js) read by
  fromParamLink (web/assets/js/model/outbound.js).
\<close>

section \<open>The parameters of a link\<close>

definition as_text :: "jsv \<Rightarrow> jsv" where
  "as_text v = JStr (js_to_string v)"

definition link_params :: "entries \<Rightarrow> (string \<times> string) list" where
  "link_params ps = map (\<lambda>e. (fst e, js_to_string (snd e))) ps"

lemma params_set_fresh: "k \<notin> fst ` set ps \<Longrightarrow> params_set ps k v = ps @ [(k, v)]"
  by (induction ps) auto

lemma url_set_all:
  assumes "distinct (keys ps)" and "fst ` set (u_params u) \<inter> set (keys ps) = {}"
  shows "foldl (\<lambda>u (k, v). url_set u k (js_to_string v)) u ps = u\<lparr>u_params := u_params u @ link_params ps\<rparr>"
  using assms
proof (induction ps arbitrary: u)
  case (Cons e ps)
  obtain k v where e: "e = (k, v)" by (cases e)
  have "url_set u k (js_to_string v) = u\<lparr>u_params := u_params u @ [(k, js_to_string v)]\<rparr>"
    using Cons.prems(2) by (simp add: url_set_def params_set_fresh e)
  with Cons show ?case by (simp add: e link_params_def)
qed (simp add: link_params_def)

lemma params_get_link:
  assumes "json_int (JObj ps)" and "u_params u = link_params ps"
  shows "params_get u k = (if look ps k = JUndef then JNull else as_text (look ps k))"
proof -
  have "map_of (link_params ps) k = (if k \<in> set (keys ps) then Some (js_to_string (look ps k)) else None)"
    by (induction ps) (auto simp: link_params_def)
  moreover have "k \<in> set (keys ps) \<longleftrightarrow> look ps k \<noteq> JUndef" using json_given [OF assms(1)] look_notin by blast
  ultimately show ?thesis by (auto simp: params_get_def assms(2) as_text_def)
qed

lemma link_text_read:
  assumes "clean_base base" and "canon base = Some base" and "json_int (JObj ps)"
    and u_def: "u = \<lparr>u_base = base, u_params = link_params ps, u_hash = encodeURIComponent remark\<rparr>"
  shows "link_text canon base ps (JStr remark) = Some (url_text u)" "new_URL canon (url_text u) = Some u"
proof -
  have c: "list_all fragment_keep base" "CHR ''?'' \<notin> set base" "CHR ''#'' \<notin> set base"
    using assms(1) by (auto simp: clean_base_def list_all_iff)
  have "new_URL canon base = Some \<lparr>u_base = base, u_params = [], u_hash = ''''\<rparr>"
    by (simp add: new_URL_def strip_clean [OF c(1)] cut_none c(2,3) assms(2) form_parse_def fragment_text_def percent_encode_def)
  moreover have "distinct (keys ps)" using assms(3) by simp
  ultimately show "link_text canon base ps (JStr remark) = Some (url_text u)"
    by (simp add: link_text_def url_set_all url_set_hash_def u_def)
  show "new_URL canon (url_text u) = Some u"
    by (rule url_again) (simp_all add: u_def assms(1,2))
qed

section \<open>Taking the link apart\<close>

lemma last_filter_upt:
  assumes "a \<le> k" "k < n" "P k" "\<And>j. k < j \<Longrightarrow> j < n \<Longrightarrow> \<not> P j"
  shows "filter P [a..<n] \<noteq> [] \<and> last (filter P [a..<n]) = k"
proof -
  have s: "[a..<n] = [a..<k] @ [k] @ [Suc k..<n]"
    using assms(1,2) upt_add_eq_append [of a k "n - k"] upt_conv_Cons [of k n] by simp
  have "filter P [Suc k..<n] = []" using assms(4) by (simp add: filter_empty_conv)
  then show ?thesis by (simp add: s assms(3))
qed

lemma match_address_at:
  assumes "address \<noteq> ''''" and "port = show_nat n" and "CHR '':'' \<notin> set rest" and "rest = '''' \<or> \<not> is_digit (hd rest)"
    and "list_all (\<lambda>c. \<not> line_break c) (address @ rest)"
  shows "match_address (address @ CHR '':'' # port @ rest) = Some (address, port)"
proof -
  let ?s = "address @ CHR '':'' # port @ rest"
  have d: "list_all is_digit port" "port \<noteq> ''''" using digits_all assms(2) by simp_all
  have dc: "\<not> is_digit (CHR '':'')" by (simp add: is_digit_def)
  have np: "CHR '':'' \<notin> set (port @ rest)" using d(1) dc assms(3) by (auto simp: list_all_iff)
  have "filter (\<lambda>i. ?s ! i = CHR '':'' \<and> is_digit (?s ! Suc i)) [1..<length ?s - 1] \<noteq> [] \<and>
      last (filter (\<lambda>i. ?s ! i = CHR '':'' \<and> is_digit (?s ! Suc i)) [1..<length ?s - 1]) = length address"
  proof (rule last_filter_upt)
    show "1 \<le> length address" using assms(1) by (cases address) auto
    show "length address < length ?s - 1" using d(2) by (cases port) auto
    show "?s ! length address = CHR '':'' \<and> is_digit (?s ! Suc (length address))"
      using d by (cases port) (auto simp: nth_append)
    show "\<not> (?s ! j = CHR '':'' \<and> is_digit (?s ! Suc j))" if "length address < j" "j < length ?s - 1" for j
    proof -
      have "?s ! j = (port @ rest) ! (j - Suc (length address))" using that by (simp add: nth_append nth_Cons')
      moreover have "j - Suc (length address) < length (port @ rest)" using that by auto
      ultimately have "?s ! j \<in> set (port @ rest)" by (metis nth_mem)
      with np show ?thesis by metis
    qed
  qed
  moreover have "takeWhile is_digit (port @ rest) = port"
    using d(1) assms(4) by (induction port) (auto simp: takeWhile_eq_Nil_iff)
  moreover have "\<not> list_ex line_break ?s"
  proof -
    have "\<not> is_digit c" if "line_break c" for c using that by (auto simp: line_break_def is_digit_def)
    then have "list_all (\<lambda>c. \<not> line_break c) port" using d(1) by (auto simp: list_all_iff)
    with assms(5) show ?thesis by (auto simp: list_all_iff list_ex_iff line_break_def)
  qed
  ultimately show ?thesis by (simp add: match_address_def port_places_def)
qed

text \<open>A user or an address that the link keeps apart from what follows it.\<close>

definition link_word :: "string \<Rightarrow> bool" where
  "link_word s \<longleftrightarrow> s \<noteq> '''' \<and> list_all (\<lambda>c. fragment_keep c \<and> c \<notin> {CHR ''?'', CHR ''#'', CHR ''/'', CHR ''@''}) s"

lemma no_slash: "CHR ''/'' \<notin> set s \<Longrightarrow> no_sep s"
  by (induction s rule: no_sep.induct) auto

lemma kept_no_break: "fragment_keep c \<Longrightarrow> \<not> line_break c"
  by (auto simp: fragment_keep_def line_break_def Let_def)

lemma url_tail:
  assumes "u_hash u = encodeURIComponent remark" and "c \<in> set (url_text u)" and "u_base u = ''''"
  shows "c \<noteq> CHR ''/'' \<and> c \<noteq> CHR '':'' \<and> c \<noteq> CHR ''@'' \<and> \<not> line_break c"
proof -
  have q: "query_char c \<Longrightarrow> c \<noteq> CHR ''/'' \<and> c \<noteq> CHR '':'' \<and> c \<noteq> CHR ''@'' \<and> \<not> line_break c"
    by (auto simp: query_char_def form_keep_def line_break_def)
  have h: "c \<in> set (encodeURIComponent remark) \<Longrightarrow> c \<noteq> CHR ''/'' \<and> c \<noteq> CHR '':'' \<and> c \<noteq> CHR ''@'' \<and> \<not> line_break c"
    using encoded_chars [of c remark] by (auto simp: unreserved_def line_break_def)
  have "c \<in> set (form_text (u_params u)) \<or> c \<in> set (encodeURIComponent remark) \<or> c = CHR ''?'' \<or> c = CHR ''#''"
    using assms by (auto simp: url_text_def url_hash_def split: if_splits)
  then show ?thesis using q h form_text_chars by (auto simp: line_break_def)
qed

definition url_rest :: "url \<Rightarrow> string" where
  "url_rest u = url_text (u\<lparr>u_base := ''''\<rparr>)"

lemma url_text_rest: "url_text u = u_base u @ url_rest u"
  by (simp add: url_rest_def url_text_def url_hash_def)

lemma url_rest_chars:
  "u_hash u = encodeURIComponent remark \<Longrightarrow> c \<in> set (url_rest u) \<Longrightarrow>
   c \<noteq> CHR ''/'' \<and> c \<noteq> CHR '':'' \<and> c \<noteq> CHR ''@'' \<and> \<not> line_break c"
  unfolding url_rest_def by (rule url_tail [of "u\<lparr>u_base := ''''\<rparr>" remark]) simp_all

lemma url_rest_head: "url_rest u = '''' \<or> \<not> is_digit (hd (url_rest u))"
  by (simp add: url_rest_def url_text_def url_hash_def is_digit_def)

lemma link_base_read:
  assumes scheme: "scheme \<noteq> ''''" "CHR '':'' \<notin> set scheme" "CHR ''@'' \<notin> set scheme"
    and words: "link_word user" "link_word address" and u: "u_hash u = encodeURIComponent remark"
    and base: "u_base u = scheme @ ''://'' @ user @ ''@'' @ address @ '':'' @ show_nat n"
  shows "split_seq ''://'' (url_text u) = [scheme, user @ ''@'' @ address @ '':'' @ show_nat n @ url_rest u]"
    and "match_link (url_text u) = Some (scheme, user, address, show_nat n)"
proof -
  let ?r = "user @ ''@'' @ address @ '':'' @ show_nat n @ url_rest u"
  have t: "url_text u = scheme @ ''://'' @ ?r" by (simp add: url_text_rest base)
  have w: "CHR ''/'' \<notin> set user" "CHR ''/'' \<notin> set address" "CHR ''@'' \<notin> set user"
    using words by (auto simp: link_word_def list_all_iff)
  have s: "CHR ''/'' \<notin> set ?r"
    using w digits_no_slash url_rest_chars [OF u] by auto
  show split: "split_seq ''://'' (url_text u) = [scheme, ?r]"
    unfolding t by (rule split_seq_link [OF scheme(2) no_slash [OF s]])
  have c: "cut (CHR ''@'') (user @ CHR ''@'' # address @ CHR '':'' # show_nat n @ url_rest u) =
      (user, address @ CHR '':'' # show_nat n @ url_rest u)"
    by (rule cut_at [OF w(3)])
  have "match_address (address @ CHR '':'' # show_nat n @ url_rest u) = Some (address, show_nat n)"
  proof (rule match_address_at [OF _ refl])
    show "address \<noteq> ''''" using words(2) by (simp add: link_word_def)
    show "CHR '':'' \<notin> set (url_rest u)" using url_rest_chars [OF u] by blast
    show "url_rest u = '''' \<or> \<not> is_digit (hd (url_rest u))" by (rule url_rest_head)
    show "list_all (\<lambda>c. \<not> line_break c) (address @ url_rest u)"
      using words(2) kept_no_break url_rest_chars [OF u] by (auto simp: link_word_def list_all_iff)
  qed
  then show "match_link (url_text u) = Some (scheme, user, address, show_nat n)"
    using scheme words(1) by (simp add: match_link_def split c link_word_def)
qed

lemma link_base_clean:
  assumes "link_word user" "link_word address" "scheme \<in> {''vless'', ''trojan'', ''ss''}"
  shows "clean_base (scheme @ ''://'' @ user @ ''@'' @ address @ '':'' @ show_nat n)"
proof -
  have d: "fragment_keep c \<and> c \<noteq> CHR ''?'' \<and> c \<noteq> CHR ''#''" if "is_digit c" for c
    using that by (auto simp: is_digit_def fragment_keep_def Let_def)
  have "list_all (\<lambda>c. fragment_keep c \<and> c \<noteq> CHR ''?'' \<and> c \<noteq> CHR ''#'') (show_nat n)"
    using digits_all [of n] d by (auto simp: list_all_iff)
  moreover have "list_all (\<lambda>c. fragment_keep c \<and> c \<noteq> CHR ''?'' \<and> c \<noteq> CHR ''#'') (scheme @ ''://'')"
    using assms(3) by (auto simp: fragment_keep_def)
  moreover have "list_all (\<lambda>c. fragment_keep c \<and> c \<noteq> CHR ''?'' \<and> c \<noteq> CHR ''#'') (user @ ''@'' @ address @ '':'')"
    using assms(1,2) by (auto simp: link_word_def list_all_iff fragment_keep_def)
  ultimately show ?thesis by (simp add: clean_base_def)
qed

section \<open>Transport and security\<close>

text \<open>What the two sides share of a transport when the values travel as texts.\<close>

definition same_by_text :: "StreamSettings \<Rightarrow> OutStreamSettings \<Rightarrow> bool" where
  "same_by_text s t \<longleftrightarrow>
     (if ss_network s = JStr ''tcp''
      then (if tcp_type (ss_tcp s) = JStr ''http''
            then otcp_type (os_tcp t) = JStr ''http'' \<and>
              js_join '','' (treq_path (tcp_request (ss_tcp s))) = Some (otcp_path (os_tcp t)) \<and>
              (case find_header ''host'' (treq_headers (tcp_request (ss_tcp s))) of
                 Some h \<Rightarrow> otcp_host (os_tcp t) = as_text (h_value h) | None \<Rightarrow> otcp_host (os_tcp t) = JUndef)
            else otcp_type (os_tcp t) = JStr ''none'')
      else if ss_network s = JStr ''kcp''
      then (\<forall>n \<in> {n. 0 < n \<and> kcp_mtu (ss_kcp s) = jint (int n)}. okcp_mtu (os_kcp t) = jint (int n)) \<and>
        (\<forall>n \<in> {n. 0 < n \<and> kcp_tti (ss_kcp s) = jint (int n)}. okcp_tti (os_kcp t) = jint (int n))
      else if ss_network s = JStr ''ws''
      then ows_path (os_ws t) = as_text (ws_path (ss_ws s)) \<and>
        ows_host (os_ws t) = as_text (host_or_header (ws_host (ss_ws s)) (ws_headers (ss_ws s)))
      else if ss_network s = JStr ''grpc''
      then ogrpc_serviceName (os_grpc t) = as_text (grpc_serviceName (ss_grpc s)) \<and>
        ogrpc_authority (os_grpc t) = as_text (grpc_authority (ss_grpc s)) \<and>
        ogrpc_multiMode (os_grpc t) = JBool (truthy (grpc_multiMode (ss_grpc s)))
      else if ss_network s = JStr ''httpupgrade''
      then ohu_path (os_httpupgrade t) = as_text (hu_path (ss_httpupgrade s)) \<and>
        ohu_host (os_httpupgrade t) = as_text (host_or_header (hu_host (ss_httpupgrade s)) (hu_headers (ss_httpupgrade s)))
      else ss_network s = JStr ''xhttp'' \<longrightarrow>
        ox_path (os_xhttp t) = as_text (xh_path (ss_xhttp s)) \<and>
        ox_host (os_xhttp t) = as_text (host_or_header (xh_host (ss_xhttp s)) (xh_headers (ss_xhttp s))) \<and>
        ox_mode (os_xhttp t) = as_text (xh_mode (ss_xhttp s)) \<and>
        (filled_string (xh_xPaddingBytes (ss_xhttp s)) \<longrightarrow>
           ox_xPaddingBytes (os_xhttp t) = xh_xPaddingBytes (ss_xhttp s)))"

text \<open>The keys that a link writes after its transport.\<close>

abbreviation url_late :: "string set" where
  "url_late \<equiv> {''fm'', ''security'', ''fp'', ''alpn'', ''sni'', ''ech'', ''flow'', ''pbk'', ''sid'', ''spx'', ''pqv''}"

text \<open>A link whose parameters are those of ps.\<close>

definition reads :: "url \<Rightarrow> entries \<Rightarrow> bool" where
  "reads u ps \<longleftrightarrow> (\<forall>k. params_get u k = (if look ps k = JUndef then JNull else as_text (look ps k)))"

lemma readsD: "reads u ps \<Longrightarrow> params_get u k = (if look ps k = JUndef then JNull else as_text (look ps k))"
  by (simp add: reads_def)

lemma param_reads: "reads u ps \<Longrightarrow> param u k d = (if look ps k = JUndef then d else as_text (look ps k))"
  by (simp add: param_def readsD as_text_def)

lemma as_text_text [simp]: "as_text (JStr s) = JStr s"
  by (simp add: as_text_def)

lemma as_text_simps [simp]: "as_text v \<noteq> JUndef" "as_text v \<noteq> JNull"
  by (simp_all add: as_text_def)

lemma number_by_text: "0 < n \<Longrightarrow> positive_number (as_text (JNum (Fin (of_nat n)))) d = JNum (Fin (of_nat n))"
  using str_to_number_digits [of n] show_rat_int [of "int n"]
  by (simp add: positive_number_def as_text_def)

lemma look_padding_params:
  assumes "k \<notin> {''x_padding_bytes'', ''extra''}"
  shows "look (applyXhttpPaddingToParams x ps) k = look ps k"
  using assms by (simp add: applyXhttpPaddingToParams_def Let_def look_set_if)

lemma keys_padding_params: "set (keys ps) \<subseteq> set (keys (applyXhttpPaddingToParams x ps))"
  using keys_set_if unfolding applyXhttpPaddingToParams_def Let_def by blast

subsection \<open>The padding of xHTTP\<close>

definition padding_extra :: "xHTTPStreamSettings \<Rightarrow> entries" where
  "padding_extra x =
     set_padding_fields x (set_if (filled_string (xh_xPaddingBytes x)) ''xPaddingBytes'' (xh_xPaddingBytes x) [])"

definition scalar_entries :: "entries \<Rightarrow> bool" where
  "scalar_entries kvs \<longleftrightarrow> distinct (keys kvs) \<and> list_all (\<lambda>e. filled_string (snd e) \<or> snd e = JBool True) kvs"

lemma scalar_set: "scalar_entries kvs \<Longrightarrow> filled_string v \<or> v = JBool True \<Longrightarrow> scalar_entries (obj_set kvs k v)"
  unfolding scalar_entries_def
  by (auto intro!: entries_set [of "\<lambda>v. filled_string v \<or> v = JBool True"] distinct_obj_set)

lemma scalar_set_all: "scalar_entries kvs \<Longrightarrow> scalar_entries (foldl (\<lambda>ob (k, v). set_if (filled_string v) k v ob) kvs fs)"
  by (induction fs arbitrary: kvs) (auto simp: set_if_def scalar_set)

lemma scalar_padding: "scalar_entries (padding_extra x)"
proof -
  have "scalar_entries (set_if (filled_string v) k v [])" for k v
    by (simp add: scalar_entries_def set_if_def)
  then show ?thesis
    by (cases "xh_xPaddingObfsMode x = JBool True")
       (simp_all add: padding_extra_def set_padding_fields_def scalar_set scalar_set_all)
qed

lemma scalar_json: "scalar_entries kvs \<Longrightarrow> json_int (JObj kvs)"
  by (auto simp: scalar_entries_def list_all_iff filled_string_def)

lemma look_padding_extra:
  assumes "k \<notin> {''xPaddingObfsMode'', ''xPaddingKey'', ''xPaddingHeader'', ''xPaddingPlacement'', ''xPaddingMethod''}"
  shows "look (padding_extra x) k = (if k = ''xPaddingBytes'' \<and> filled_string (xh_xPaddingBytes x) then xh_xPaddingBytes x else JUndef)"
proof -
  have "k \<notin> fst ` set (padding_fields x)" using assms by (simp add: padding_fields_def)
  then have "look (set_padding_fields x r) k = look r k" for r
    using assms by (simp add: set_padding_fields_def look_set_all look_obj_set)
  then show ?thesis by (simp add: padding_extra_def look_set_if)
qed

lemma parsed_padding: "json_parse (json_or_empty (JObj (padding_extra x))) = Some (JObj (padding_extra x))"
proof -
  have j: "json_int (JObj (padding_extra x))" by (rule scalar_json [OF scalar_padding])
  have w: "wire (JObj (padding_extra x)) = JObj (padding_extra x)" by (rule json_val_wire [OF json_int_val [OF j]])
  show ?thesis using json_parse_text [OF j, of 0] by (simp add: json_or_empty_def stringify_def w del: json_int.simps wire.simps)
qed

lemma read_padding:
  assumes "ox_xPaddingBytes xh = (if filled_string (xh_xPaddingBytes x) then xh_xPaddingBytes x else JStr '''')"
  shows "ox_path (applyXhttpExtra xh (JObj (padding_extra x)) True) = ox_path xh"
    "ox_host (applyXhttpExtra xh (JObj (padding_extra x)) True) = ox_host xh"
    "ox_mode (applyXhttpExtra xh (JObj (padding_extra x)) True) = ox_mode xh"
    "ox_xPaddingBytes (applyXhttpExtra xh (JObj (padding_extra x)) True) = ox_xPaddingBytes xh"
proof -
  have "look (padding_extra x) ''path'' = JUndef" "look (padding_extra x) ''host'' = JUndef"
    "look (padding_extra x) ''mode'' = JUndef"
    "look (padding_extra x) ''xPaddingBytes'' = (if filled_string (xh_xPaddingBytes x) then xh_xPaddingBytes x else JUndef)"
    by (simp_all add: look_padding_extra)
  moreover have "\<not> is_text JUndef" by (simp add: is_text_def)
  ultimately show "ox_path (applyXhttpExtra xh (JObj (padding_extra x)) True) = ox_path xh"
    "ox_host (applyXhttpExtra xh (JObj (padding_extra x)) True) = ox_host xh"
    "ox_mode (applyXhttpExtra xh (JObj (padding_extra x)) True) = ox_mode xh"
    "ox_xPaddingBytes (applyXhttpExtra xh (JObj (padding_extra x)) True) = ox_xPaddingBytes xh"
    using assms by (simp_all add: applyXhttpExtra_def Let_def)
qed

lemma read_url_xhttp:
  assumes "reads u ps" and "extends url_late ps (applyXhttpPaddingToParams x b)" and "json_int (JObj ps)"
    and b: "b = obj_set (obj_set (obj_set c ''path'' p) ''host'' h) ''mode'' m"
    and c: "look c ''x_padding_bytes'' = JUndef" "look c ''extra'' = JUndef"
  defines "t \<equiv> param_xhttp u (param u ''path'' JUndef) (param u ''host'' JUndef) (param u ''mode'' JUndef)"
  shows "ox_path t = as_text p \<and> ox_host t = as_text h \<and> ox_mode t = as_text m \<and>
    (filled_string (xh_xPaddingBytes x) \<longrightarrow> ox_xPaddingBytes t = xh_xPaddingBytes x)"
proof -
  have l: "look ps ''path'' = p" "look ps ''host'' = h" "look ps ''mode'' = m"
    using extends_look [OF assms(2)] by (simp_all add: look_padding_params b look_obj_set)
  have k: "{''path'', ''host'', ''mode''} \<subseteq> set (keys (applyXhttpPaddingToParams x b))"
    using keys_padding_params [of b x] by (auto simp: b keys_obj_set)
  have g: "look ps ''path'' \<noteq> JUndef" "look ps ''host'' \<noteq> JUndef" "look ps ''mode'' \<noteq> JUndef"
    using extends_given [OF assms(2,3), of "''path''"] extends_given [OF assms(2,3), of "''host''"]
      extends_given [OF assms(2,3), of "''mode''"] k extends_look [OF assms(2)] by simp_all
  have params: "param u ''path'' JUndef = as_text p" "param u ''host'' JUndef = as_text h" "param u ''mode'' JUndef = as_text m"
    using g by (simp_all add: param_reads [OF assms(1)] l)
  have pb: "params_get u ''x_padding_bytes'' = (if filled_string (xh_xPaddingBytes x) then xh_xPaddingBytes x else JNull)"
    using extends_look [OF assms(2), of "''x_padding_bytes''"] c(1)
    by (auto simp: readsD [OF assms(1)] applyXhttpPaddingToParams_def Let_def look_set_if look_obj_set b filled_string_def)
  have ex: "params_get u ''extra'' =
      (if padding_extra x \<noteq> [] then JStr (json_or_empty (JObj (padding_extra x))) else JNull)"
    using extends_look [OF assms(2), of "''extra''"] c(2)
    by (auto simp: readsD [OF assms(1)] applyXhttpPaddingToParams_def padding_extra_def Let_def look_set_if look_obj_set b)
  define xh where "xh = (let xh = new_OutXhttp (as_text p) (as_text h) JUndef JUndef JUndef JUndef JUndef JUndef JUndef [];
      xh = (if truthy (as_text m) then xh\<lparr>ox_mode := as_text m\<rparr> else xh)
      in if filled_string (xh_xPaddingBytes x) then xh\<lparr>ox_xPaddingBytes := xh_xPaddingBytes x\<rparr> else xh)"
  have f: "ox_path xh = as_text p" "ox_host xh = as_text h" "ox_mode xh = as_text m"
    "ox_xPaddingBytes xh = (if filled_string (xh_xPaddingBytes x) then xh_xPaddingBytes x else JStr '''')"
    by (auto simp: xh_def Let_def new_OutXhttp_def as_text_def dflt_def)
  have ft: "filled_string v \<Longrightarrow> truthy v" for v by (auto simp: filled_string_def)
  have ne: "json_or_empty (JObj (padding_extra x)) \<noteq> ''''"
    using parsed_padding [of x] by (auto simp: json_parse_def)
  have "t = (if padding_extra x \<noteq> [] then applyXhttpExtra xh (JObj (padding_extra x)) True else xh)"
    unfolding t_def param_xhttp_def params pb ex xh_def Let_def using ft [of "xh_xPaddingBytes x"] ne
    by (simp add: parsed_padding)
  then show ?thesis using f read_padding [OF f(4)] by simp
qed

subsection \<open>The other transports\<close>

text \<open>Nothing that a transport writes is set before it.\<close>

definition fresh :: "entries \<Rightarrow> bool" where
  "fresh b \<longleftrightarrow> look b ''path'' = JUndef \<and> look b ''host'' = JUndef \<and> look b ''headerType'' = JUndef \<and>
     look b ''mode'' = JUndef \<and> look b ''x_padding_bytes'' = JUndef \<and> look b ''extra'' = JUndef"

lemma url_pair:
  assumes "t = obj_set (obj_set b j p) k h" and "extends url_late ps t" and "json_int (JObj ps)"
    and "j \<notin> url_late" "k \<notin> url_late" "j \<noteq> k"
  shows "look ps j = p" "look ps k = h" "p \<noteq> JUndef" "h \<noteq> JUndef"
proof -
  show "look ps j = p" "look ps k = h"
    using extends_look [OF assms(2,4)] extends_look [OF assms(2,5)] assms(6) by (simp_all add: assms(1) look_obj_set)
  show "p \<noteq> JUndef" "h \<noteq> JUndef"
    using extends_given [OF assms(2,3,4)] extends_given [OF assms(2,3,5)] assms(6)
    by (simp_all add: assms(1) look_obj_set keys_obj_set)
qed

text \<open>A link with the parameters ps, which add to the transport's t, which add to b.\<close>

definition url_link :: "url \<Rightarrow> entries \<Rightarrow> StreamSettings \<Rightarrow> entries \<Rightarrow> entries \<Rightarrow> bool" where
  "url_link u ps s b t \<longleftrightarrow> reads u ps \<and> link_transport s b = Some t \<and> extends url_late ps t \<and> json_int (JObj ps) \<and>
     fresh b \<and> param u ''type'' (JStr ''tcp'') = ss_network s"

lemma url_linkD:
  "url_link u ps s b t \<Longrightarrow> reads u ps" "url_link u ps s b t \<Longrightarrow> link_transport s b = Some t"
  "url_link u ps s b t \<Longrightarrow> extends url_late ps t" "url_link u ps s b t \<Longrightarrow> json_int (JObj ps)"
  "url_link u ps s b t \<Longrightarrow> fresh b" "url_link u ps s b t \<Longrightarrow> param u ''type'' (JStr ''tcp'') = ss_network s"
  by (simp_all add: url_link_def)

lemma url_param_pair:
  assumes "url_link u ps s b t" and "t = obj_set (obj_set c x p) y h" and "x \<notin> url_late" "y \<notin> url_late" "x \<noteq> y"
  shows "param u x d = as_text p" "param u y d = as_text h" "params_get u x = as_text p" "params_get u y = as_text h"
  using url_pair [OF assms(2) url_linkD(3,4) [OF assms(1)] assms(3,4,5)]
  by (simp_all add: param_reads [OF url_linkD(1) [OF assms(1)]] readsD [OF url_linkD(1) [OF assms(1)]])

lemma read_url_ws: "url_link u ps s b t \<Longrightarrow> ss_network s = JStr ''ws'' \<Longrightarrow> same_by_text s (param_network u st)"
proof -
  assume l: "url_link u ps s b t" and s: "ss_network s = JStr ''ws''"
  then have "t = obj_set (obj_set b ''path'' (ws_path (ss_ws s))) ''host'' (host_or_header (ws_host (ss_ws s)) (ws_headers (ss_ws s)))"
    using url_linkD(2) [OF l] by (simp add: link_transport_def)
  from url_param_pair(1,2) [OF l this] show ?thesis
    using s url_linkD(6) [OF l] by (simp add: same_by_text_def param_network_def new_OutWs_def dflt_def)
qed

lemma read_url_httpupgrade:
  "url_link u ps s b t \<Longrightarrow> ss_network s = JStr ''httpupgrade'' \<Longrightarrow> same_by_text s (param_network u st)"
proof -
  assume l: "url_link u ps s b t" and s: "ss_network s = JStr ''httpupgrade''"
  then have "t = obj_set (obj_set b ''path'' (hu_path (ss_httpupgrade s)))
      ''host'' (host_or_header (hu_host (ss_httpupgrade s)) (hu_headers (ss_httpupgrade s)))"
    using url_linkD(2) [OF l] by (simp add: link_transport_def)
  from url_param_pair(1,2) [OF l this] show ?thesis
    using s url_linkD(6) [OF l] by (simp add: same_by_text_def param_network_def new_OutHttpUpgrade_def dflt_def)
qed

lemma read_url_kcp: "url_link u ps s b t \<Longrightarrow> ss_network s = JStr ''kcp'' \<Longrightarrow> same_by_text s (param_network u st)"
proof -
  assume l: "url_link u ps s b t" and s: "ss_network s = JStr ''kcp''"
  then have "t = obj_set (obj_set b ''mtu'' (kcp_mtu (ss_kcp s))) ''tti'' (kcp_tti (ss_kcp s))"
    using url_linkD(2) [OF l] by (simp add: link_transport_def)
  from url_param_pair(3,4) [OF l this] show ?thesis
    using s url_linkD(6) [OF l] by (simp add: same_by_text_def param_network_def set_kcp_def number_by_text)
qed

lemma read_url_grpc: "url_link u ps s b t \<Longrightarrow> ss_network s = JStr ''grpc'' \<Longrightarrow> same_by_text s (param_network u st)"
proof -
  assume l: "url_link u ps s b t" and s: "ss_network s = JStr ''grpc''"
  let ?c = "obj_set (obj_set b ''serviceName'' (grpc_serviceName (ss_grpc s))) ''authority'' (grpc_authority (ss_grpc s))"
  have t: "t = set_if (truthy (grpc_multiMode (ss_grpc s))) ''mode'' (JStr ''multi'') ?c"
    using url_linkD(2) [OF l] s by (simp add: link_transport_def)
  have look_t: "look ps k = look t k" if "k \<notin> url_late" for k using extends_look [OF url_linkD(3) [OF l] that] .
  have k: "{''serviceName'', ''authority''} \<subseteq> set (keys t)"
    using keys_set_if [of ?c] unfolding t by (auto simp: keys_obj_set)
  have "look t ''serviceName'' \<noteq> JUndef" "look t ''authority'' \<noteq> JUndef"
    using extends_given [OF url_linkD(3,4) [OF l], of "''serviceName''"]
      extends_given [OF url_linkD(3,4) [OF l], of "''authority''"] k by simp_all
  then have "param u ''serviceName'' d = as_text (grpc_serviceName (ss_grpc s))"
    "param u ''authority'' d = as_text (grpc_authority (ss_grpc s))" for d
    by (simp_all add: param_reads [OF url_linkD(1) [OF l]] look_t t look_set_if look_obj_set)
  moreover have "params_get u ''mode'' = (if truthy (grpc_multiMode (ss_grpc s)) then JStr ''multi'' else JNull)"
    using url_linkD(5) [OF l] by (simp add: readsD [OF url_linkD(1) [OF l]] look_t t look_set_if look_obj_set fresh_def)
  ultimately show ?thesis
    using s url_linkD(6) [OF l] by (simp add: same_by_text_def param_network_def new_OutGrpc_def dflt_def)
qed

lemma read_url_tcp: "url_link u ps s b t \<Longrightarrow> ss_network s = JStr ''tcp'' \<Longrightarrow> same_by_text s (param_network u st)"
proof -
  assume l: "url_link u ps s b t" and s: "ss_network s = JStr ''tcp''"
  have look_t: "look ps k = look t k" if "k \<notin> url_late" for k using extends_look [OF url_linkD(3) [OF l] that] .
  note get = param_reads [OF url_linkD(1) [OF l]]
  show ?thesis
  proof (cases "tcp_type (ss_tcp s) = JStr ''http''")
    case True
    let ?q = "tcp_request (ss_tcp s)"
    obtain p where p: "js_join '','' (treq_path ?q) = Some p"
      and t: "t = obj_set (case find_header ''host'' (treq_headers ?q) of
          Some h \<Rightarrow> obj_set (obj_set b ''path'' p) ''host'' (h_value h) | None \<Rightarrow> obj_set b ''path'' p) ''headerType'' (JStr ''http'')"
      using url_linkD(2) [OF l] s True by (auto simp: link_transport_def Let_def split: bind_splits)
    obtain q where q: "p = JStr q" using p by (cases "treq_path ?q") auto
    have "param u ''headerType'' JUndef = JStr ''http''" "param u ''path'' JUndef = p"
      by (simp_all add: get look_t t look_obj_set q split: option.splits)
    moreover have "param u ''host'' JUndef =
        (case find_header ''host'' (treq_headers ?q) of Some h \<Rightarrow> as_text (h_value h) | None \<Rightarrow> JUndef)"
    proof (cases "find_header ''host'' (treq_headers ?q)")
      case None
      then show ?thesis using url_linkD(5) [OF l] by (simp add: get look_t t look_obj_set fresh_def)
    next
      case (Some h)
      then have "look t ''host'' \<noteq> JUndef"
        using extends_given [OF url_linkD(3,4) [OF l], of "''host''"] by (simp add: t keys_obj_set)
      with Some show ?thesis by (simp add: get look_t t look_obj_set)
    qed
    ultimately show ?thesis
      using s True p url_linkD(6) [OF l]
      by (simp add: same_by_text_def param_network_def new_OutTcp_def dflt_def split: option.splits)
  next
    case False
    then have "t = b" using url_linkD(2) [OF l] s by (simp add: link_transport_def)
    then have "param u ''headerType'' JUndef = JUndef"
      using url_linkD(5) [OF l] by (simp add: get look_t fresh_def)
    then show ?thesis
      using s False url_linkD(6) [OF l] by (simp add: same_by_text_def param_network_def new_OutTcp_def dflt_def)
  qed
qed

lemma read_url_xhttp_link: "url_link u ps s b t \<Longrightarrow> ss_network s = JStr ''xhttp'' \<Longrightarrow> same_by_text s (param_network u st)"
proof -
  assume l: "url_link u ps s b t" and s: "ss_network s = JStr ''xhttp''"
  let ?x = "ss_xhttp s"
  define c where "c = obj_set (obj_set (obj_set b ''path'' (xh_path ?x)) ''host'' (host_or_header (xh_host ?x) (xh_headers ?x)))
    ''mode'' (xh_mode ?x)"
  have "t = applyXhttpPaddingToParams ?x c"
    using url_linkD(2) [OF l] s by (simp add: link_transport_def Let_def c_def)
  then have "extends url_late ps (applyXhttpPaddingToParams ?x c)" using url_linkD(3) [OF l] by simp
  moreover have "look b ''x_padding_bytes'' = JUndef" "look b ''extra'' = JUndef"
    using url_linkD(5) [OF l] by (simp_all add: fresh_def)
  ultimately show ?thesis
    using read_url_xhttp [OF url_linkD(1) [OF l] _ url_linkD(4) [OF l] c_def] s url_linkD(6) [OF l]
    by (simp add: same_by_text_def param_network_def)
qed

lemma read_url_transport:
  assumes "url_link u ps s b t"
  shows "same_by_text s (param_network u st)"
proof -
  consider "ss_network s = JStr ''tcp''" | "ss_network s = JStr ''kcp''" | "ss_network s = JStr ''ws''"
    | "ss_network s = JStr ''grpc''" | "ss_network s = JStr ''httpupgrade''" | "ss_network s = JStr ''xhttp''"
    | "ss_network s \<noteq> JStr ''tcp''" "ss_network s \<noteq> JStr ''kcp''" "ss_network s \<noteq> JStr ''ws''"
      "ss_network s \<noteq> JStr ''grpc''" "ss_network s \<noteq> JStr ''httpupgrade''" "ss_network s \<noteq> JStr ''xhttp''"
    by metis
  then show ?thesis
    by cases (use read_url_tcp read_url_kcp read_url_ws read_url_grpc read_url_httpupgrade read_url_xhttp_link assms
      in \<open>simp_all add: same_by_text_def\<close>)
qed

end
