(* ===== verification/LinkRead.thy ===== *)
theory LinkRead
  imports LinkUrl
begin

text \<open>
  The round trips of the links that are URLs: what an inbound's VLESS, Trojan or Shadowsocks link says, the outbound
  form reads (web/assets/js/model/inbound.js and outbound.js).
\<close>

section \<open>What is written after the transport\<close>

lemma extends_refl: "extends late t t"
  by (simp add: extends_def)

lemma extends_set: "k \<in> late \<Longrightarrow> extends late r t \<Longrightarrow> extends late (obj_set r k v) t"
  by (auto simp: extends_def look_obj_set keys_obj_set)

lemma extends_set_if: "k \<in> late \<Longrightarrow> extends late r t \<Longrightarrow> extends late (set_if c k v r) t"
  by (simp add: set_if_def extends_set)

lemmas extends_intros = extends_refl extends_set extends_set_if

lemma extends_mask: "extends url_late (applyFinalMaskToParams m t) t"
  unfolding applyFinalMaskToParams_def Let_def by (intro extends_intros) simp

lemma extends_trans: "extends late r s \<Longrightarrow> extends late s t \<Longrightarrow> extends late r t"
  by (auto simp: extends_def)

lemma extends_vless_tls: "extends url_late (vless_tls s flow r) r"
  unfolding vless_tls_def set_flow_def Let_def by (simp add: extends_intros)

lemma extends_plain_tls: "extends url_late (plain_tls s r) r"
  unfolding plain_tls_def Let_def by (simp add: extends_intros)

lemma extends_reality: "link_reality c r = Some ps \<Longrightarrow> extends url_late ps r"
  by (auto simp: link_reality_def Let_def split: bind_splits if_splits intro!: extends_intros)

lemma url_transport_other:
  assumes "link_transport s b = Some t"
    and "k \<notin> {''path'', ''host'', ''headerType'', ''mtu'', ''tti'', ''serviceName'', ''authority'', ''mode'', ''x_padding_bytes'', ''extra''}"
  shows "look t k = look b k"
proof -
  have k: "k \<noteq> ''path''" "k \<noteq> ''host''" "k \<noteq> ''headerType''" "k \<noteq> ''mtu''" "k \<noteq> ''tti''" "k \<noteq> ''serviceName''"
    "k \<noteq> ''authority''" "k \<noteq> ''mode''" "k \<notin> {''x_padding_bytes'', ''extra''}"
    using assms(2) by simp_all
  show ?thesis
    using assms(1) unfolding link_transport_def Let_def
    by (auto simp: k(1-8) look_obj_set look_set_if look_padding_params [OF k(9)] split: if_splits bind_splits option.splits)
qed

lemma url_transport_keys: "link_transport s b = Some t \<Longrightarrow> set (keys b) \<subseteq> set (keys t)"
  unfolding link_transport_def Let_def
  by (auto simp: keys_obj_set split: if_splits bind_splits option.splits
      intro!: subsetD [OF keys_set_if] subsetD [OF keys_padding_params])

section \<open>The outbound of a link\<close>

lemma decode_hash: "decodeURIComponent (CHR ''#'' # encodeURIComponent s) = Some (CHR ''#'' # s)"
  using decode_encode [of s] by (simp add: decodeURIComponent_def)

lemma encoded_empty: "encodeURIComponent s = '''' \<longleftrightarrow> s = ''''"
proof
  assume "encodeURIComponent s = ''''"
  then show "s = ''''" using decode_encode [of s] by (simp add: decodeURIComponent_def)
qed (simp add: encodeURIComponent_def percent_encode_def)

text \<open>A link whose base the browser leaves as it is.\<close>

definition plain_link :: "(string \<Rightarrow> string option) \<Rightarrow> string \<Rightarrow> string \<Rightarrow> string \<Rightarrow> nat \<Rightarrow> bool" where
  "plain_link canon scheme user address n \<longleftrightarrow>
     link_word user \<and> link_word address \<and>
     (let base = scheme @ ''://'' @ user @ ''@'' @ address @ '':'' @ show_nat n in canon base = Some base)"

lemma schemes:
  assumes "scheme \<in> {''vless'', ''trojan'', ''ss''}"
  shows "scheme \<noteq> ''''" "CHR '':'' \<notin> set scheme" "CHR ''@'' \<notin> set scheme" "lower scheme = scheme" "scheme \<noteq> ''vmess''"
proof -
  have "lower ''vless'' = ''vless''" "lower ''trojan'' = ''trojan''" "lower ''ss'' = ''ss''" by code_simp+
  then show "scheme \<noteq> ''''" "CHR '':'' \<notin> set scheme" "CHR ''@'' \<notin> set scheme" "lower scheme = scheme" "scheme \<noteq> ''vmess''"
    using assms by auto
qed

text \<open>The outbound of a link: its stream from the parameters, no sending address, and the default multiplexer.\<close>

definition link_stream :: "url \<Rightarrow> OutStreamSettings" where
  "link_stream u =
     param_security u (param_network u (plain_stream (param u ''type'' (JStr ''tcp'')) (param u ''security'' (JStr ''none''))))"

definition link_outbound :: "url \<Rightarrow> string \<Rightarrow> string \<times> osettings \<Rightarrow> Outbound" where
  "link_outbound u remark r =
     \<lparr>ob_tag = JStr remark, ob_protocol = JStr (fst r), ob_settings = Some (snd r), ob_stream = link_stream u,
      ob_sendThrough = JUndef, ob_mux = default_OutMux\<rparr>"

lemma generic_link:
  assumes scheme: "scheme \<in> {''vless'', ''trojan'', ''ss''}"
    and base: "plain_link canon scheme user address n" and ps: "json_int (JObj ps)" and remark: "remark \<noteq> ''''"
  shows "\<exists>u. link_text canon (link_base scheme (JStr user) (JStr address) (jint (int n))) ps (JStr remark) = Some (url_text u) \<and>
    reads u ps \<and>
    (\<forall>r. link_settings u scheme user address (Fin (of_nat n)) = Some (Some r) \<longrightarrow>
       fromLink canon (url_text u) = Some (Some (link_outbound u remark r))) \<and>
    (link_settings u scheme user address (Fin (of_nat n)) = None \<longrightarrow> fromLink canon (url_text u) = None)"
proof -
  note s = schemes [OF scheme]
  have w: "link_word user" "link_word address" using base by (simp_all add: plain_link_def)
  let ?base = "scheme @ ''://'' @ user @ ''@'' @ address @ '':'' @ show_nat n"
  have c: "canon ?base = Some ?base" using base by (simp add: plain_link_def Let_def)
  have lb: "link_base scheme (JStr user) (JStr address) (jint (int n)) = ?base"
    using show_rat_int [of "int n"] by (simp add: link_base_def)
  define u where "u = \<lparr>u_base = ?base, u_params = link_params ps, u_hash = encodeURIComponent remark\<rparr>"
  note t = link_text_read [where canon = canon, OF link_base_clean [OF w scheme, of n] c ps u_def]
  have p: "u_params u = link_params ps" "u_hash u = encodeURIComponent remark" "u_base u = ?base" by (simp_all add: u_def)
  have r: "reads u ps" using params_get_link [OF ps p(1)] by (simp add: reads_def)
  note m = link_base_read [OF s(1,2,3) w p(2,3)]
  have h: "decodeURIComponent (url_hash u) = Some (CHR ''#'' # remark)"
    using remark by (simp add: url_hash_def p(2) encoded_empty decode_hash)
  have n: "str_to_number (show_nat n) = Fin (of_nat n)" by (rule str_to_number_digits)
  have to_param: "fromLink canon (url_text u) = fromParamLink canon (url_text u)"
    using scheme s(5) by (simp add: fromLink_def m(1) s(4))
  have "fromLink canon (url_text u) = Some (Some (link_outbound u remark q))"
    if "link_settings u scheme user address (Fin (of_nat n)) = Some (Some q)" for q
    by (cases q) (use that in \<open>simp add: to_param fromParamLink_def t(2) m(2) n h new_Outbound_def link_outbound_def link_stream_def\<close>)
  moreover have "fromLink canon (url_text u) = None" if "link_settings u scheme user address (Fin (of_nat n)) = None"
    by (simp add: to_param fromParamLink_def t(2) m(2) n that)
  ultimately show ?thesis using r t(1) unfolding lb by (intro exI [of _ u] conjI allI impI)
qed

section \<open>Security\<close>

definition tls_by_text :: "TlsStreamSettings \<Rightarrow> OutTls \<Rightarrow> bool" where
  "tls_by_text s t \<longleftrightarrow>
     otl_serverName t = (if isEmpty (tls_sni s) then JStr '''' else as_text (tls_sni s)) \<and>
     otl_fingerprint t = as_text (tlss_fingerprint (tls_settings s)) \<and>
     otl_alpn t = tls_alpn s \<and>
     otl_echConfigList t =
       (if has_length (tlss_echConfigList (tls_settings s)) then as_text (tlss_echConfigList (tls_settings s)) else JStr '''')"

definition reality_by_text :: "RealityStreamSettings \<Rightarrow> OutReality \<Rightarrow> bool" where
  "reality_by_text s t \<longleftrightarrow>
     ore_publicKey t = as_text (reals_publicKey (real_settings s)) \<and>
     ore_fingerprint t = as_text (reals_fingerprint (real_settings s)) \<and>
     (if isArrEmpty (real_serverNames s) then ore_serverName t = JStr ''''
      else first_part (real_serverNames s) = Some (ore_serverName t)) \<and>
     (if longer_than_0 (real_shortIds s) = Some True then first_part (real_shortIds s) = Some (ore_shortId t)
      else ore_shortId t = JStr '''') \<and>
     ore_spiderX t = (if isEmpty (reals_spiderX (real_settings s)) then JStr '''' else as_text (reals_spiderX (real_settings s))) \<and>
     ore_mldsa65Verify t =
       (if isEmpty (reals_mldsa65Verify (real_settings s)) then JStr '''' else as_text (reals_mldsa65Verify (real_settings s)))"

lemma alpn_by_text: "alpn_list v \<Longrightarrow> split_alpn (as_text v) = Some v"
proof -
  assume "alpn_list v"
  then obtain s where s: "js_join '','' v = Some (JStr s)" "split_alpn (if v \<noteq> JArr [] then JStr s else JUndef) = Some v"
    using alpn_again by blast
  have "js_to_string v = s" using s(1) by (cases v) simp_all
  with s(2) show ?thesis by (cases "v = JArr []") (simp_all add: as_text_def split_alpn_def)
qed

lemma first_part_text: "first_part v = Some w \<Longrightarrow> as_text w = w"
  by (cases v) (auto simp: first_part_def split: if_splits)

text \<open>Nothing that the security writes is set before it.\<close>

definition bare :: "entries \<Rightarrow> bool" where
  "bare r \<longleftrightarrow> look r ''security'' = JUndef \<and> look r ''sni'' = JUndef \<and> look r ''ech'' = JUndef \<and> look r ''flow'' = JUndef \<and>
     look r ''sid'' = JUndef \<and> look r ''spx'' = JUndef \<and> look r ''pqv'' = JUndef"

lemma look_flow: "k \<noteq> ''flow'' \<Longrightarrow> look (set_flow s flow r) k = look r k"
  by (simp add: set_flow_def look_set_if)

lemma tls_looks:
  assumes "bare r" and "ss_isTls s" and "ps = vless_tls s flow r \<or> ps = plain_tls s r"
  shows "look ps ''security'' = JStr ''tls''" "look ps ''fp'' = tlss_fingerprint (tls_settings (ss_tls s))"
    "look ps ''alpn'' = tls_alpn (ss_tls s)"
    "look ps ''sni'' = (if isEmpty (tls_sni (ss_tls s)) then JUndef else tls_sni (ss_tls s))"
    "look ps ''ech'' = (if has_length (tlss_echConfigList (tls_settings (ss_tls s)))
       then tlss_echConfigList (tls_settings (ss_tls s)) else JUndef)"
proof -
  have b: "look r ''sni'' = JUndef" "look r ''ech'' = JUndef" using assms(1) by (simp_all add: bare_def)
  show "look ps ''security'' = JStr ''tls''"
    using assms(2,3) by (elim disjE) (simp_all add: vless_tls_def plain_tls_def Let_def look_flow look_set_if look_obj_set)
  show "look ps ''fp'' = tlss_fingerprint (tls_settings (ss_tls s))"
    using assms(2,3) by (elim disjE) (simp_all add: vless_tls_def plain_tls_def Let_def look_flow look_set_if look_obj_set)
  show "look ps ''alpn'' = tls_alpn (ss_tls s)"
    using assms(2,3) by (elim disjE) (simp_all add: vless_tls_def plain_tls_def Let_def look_flow look_set_if look_obj_set)
  show "look ps ''sni'' = (if isEmpty (tls_sni (ss_tls s)) then JUndef else tls_sni (ss_tls s))"
    using assms(2,3) by (elim disjE) (simp_all add: vless_tls_def plain_tls_def Let_def look_flow look_set_if look_obj_set b)
  show "look ps ''ech'' = (if has_length (tlss_echConfigList (tls_settings (ss_tls s)))
       then tlss_echConfigList (tls_settings (ss_tls s)) else JUndef)"
    using assms(2,3) by (elim disjE) (simp_all add: vless_tls_def plain_tls_def Let_def look_flow look_set_if look_obj_set b)
qed

lemma tls_keys:
  assumes "ss_isTls s" and "ps = vless_tls s flow r \<or> ps = plain_tls s r"
  shows "{''fp'', ''alpn''} \<subseteq> set (keys ps)"
proof -
  have k: "k \<in> set (keys q) \<Longrightarrow> k \<in> set (keys (set_if c j v q))" for k c j v q using keys_set_if by blast
  show ?thesis
    using assms by (elim disjE) (simp_all add: vless_tls_def plain_tls_def set_flow_def Let_def k keys_obj_set)
qed

lemma read_tls:
  assumes "reads u ps" and "json_int (JObj ps)" and "bare r" and "ss_isTls s" and "alpn_list (tls_alpn (ss_tls s))"
    and "ps = vless_tls s flow r \<or> ps = plain_tls s r"
  shows "param u ''security'' d = JStr ''tls''" "tls_by_text (ss_tls s) (os_tls (param_security u st))"
proof -
  note l = tls_looks [OF assms(3,4,6)]
  note get = param_reads [OF assms(1)]
  have g: "tlss_fingerprint (tls_settings (ss_tls s)) \<noteq> JUndef" "tls_alpn (ss_tls s) \<noteq> JUndef"
    using tls_keys [OF assms(4,6)] json_given [OF assms(2), of "''fp''"] json_given [OF assms(2), of "''alpn''"]
    by (simp_all add: l)
  show sec: "param u ''security'' d = JStr ''tls''" for d by (simp add: get l)
  have e: "isEmpty JUndef" "\<not> has_length JUndef" by (simp_all add: isEmpty_def has_length_def js_gt_def js_lt_def)
  have "params_get u ''alpn'' = as_text (tls_alpn (ss_tls s))" using g by (simp add: readsD [OF assms(1)] l)
  then have "split_alpn (params_get u ''alpn'') = Some (tls_alpn (ss_tls s))" using alpn_by_text [OF assms(5)] by simp
  moreover have "param u ''sni'' (JStr '''') = (if isEmpty (tls_sni (ss_tls s)) then JStr '''' else as_text (tls_sni (ss_tls s)))"
    using e by (auto simp: get l)
  moreover have "param u ''ech'' (JStr '''') = (if has_length (tlss_echConfigList (tls_settings (ss_tls s)))
      then as_text (tlss_echConfigList (tls_settings (ss_tls s))) else JStr '''')"
    using e by (auto simp: get l)
  moreover have "param u ''fp'' (JStr '''') = as_text (tlss_fingerprint (tls_settings (ss_tls s)))" using g by (simp add: get l)
  ultimately show "tls_by_text (ss_tls s) (os_tls (param_security u st))"
    using g(2) by (auto simp: tls_by_text_def param_security_def sec new_OutTls_def dflt_def)
qed

text \<open>Reality: the link takes the first of the server names and of the short identifiers.\<close>

lemma reality_looks:
  assumes "link_reality c r = Some ps" and "bare r"
  shows "look ps ''security'' = JStr ''reality''" "look ps ''pbk'' = reals_publicKey (real_settings c)"
    "look ps ''fp'' = reals_fingerprint (real_settings c)"
    "if isArrEmpty (real_serverNames c) then look ps ''sni'' = JUndef else first_part (real_serverNames c) = Some (look ps ''sni'')"
    "if longer_than_0 (real_shortIds c) = Some True then first_part (real_shortIds c) = Some (look ps ''sid'')
     else look ps ''sid'' = JUndef"
    "look ps ''spx'' = (if isEmpty (reals_spiderX (real_settings c)) then JUndef else reals_spiderX (real_settings c))"
    "look ps ''pqv'' = (if isEmpty (reals_mldsa65Verify (real_settings c)) then JUndef else reals_mldsa65Verify (real_settings c))"
    "{''pbk'', ''fp''} \<subseteq> set (keys ps)"
proof -
  define q where "q = obj_set (obj_set (obj_set r ''security'' (JStr ''reality'')) ''pbk'' (reals_publicKey (real_settings c)))
    ''fp'' (reals_fingerprint (real_settings c))"
  define h where "h = (\<lambda>p. set_if (\<not> isEmpty (reals_mldsa65Verify (real_settings c))) ''pqv'' (reals_mldsa65Verify (real_settings c))
    (set_if (\<not> isEmpty (reals_spiderX (real_settings c))) ''spx'' (reals_spiderX (real_settings c)) p))"
  obtain q1 where q1: "(if \<not> isArrEmpty (real_serverNames c)
      then do { sni \<leftarrow> first_part (real_serverNames c); Some (obj_set q ''sni'' sni) } else Some q) = Some q1"
    and rest: "do { some_ids \<leftarrow> longer_than_0 (real_shortIds c);
              params \<leftarrow> (if some_ids
                          then do { sid \<leftarrow> first_part (real_shortIds c); Some (obj_set q1 ''sid'' sid) }
                          else Some q1);
              Some (h params) } = Some ps"
    using assms(1) unfolding link_reality_def Let_def q_def [symmetric] h_def by (auto split: bind_splits)
  obtain some_ids q2 where ids: "longer_than_0 (real_shortIds c) = Some some_ids"
    and q2: "(if some_ids then do { sid \<leftarrow> first_part (real_shortIds c); Some (obj_set q1 ''sid'' sid) } else Some q1) = Some q2"
    and ps: "ps = h q2"
    using rest by (auto split: bind_splits)
  have h: "look (h p) k = look p k" if "k \<noteq> ''spx''" "k \<noteq> ''pqv''" for p k
    using that by (simp add: h_def look_set_if)
  have two: "look q2 k = look q1 k" if "k \<noteq> ''sid''" for k
    using q2 that by (auto simp: look_obj_set split: if_splits bind_splits)
  have one: "look q1 k = look q k" if "k \<noteq> ''sni''" for k
    using q1 that by (auto simp: look_obj_set split: if_splits bind_splits)
  show "look ps ''security'' = JStr ''reality''" "look ps ''pbk'' = reals_publicKey (real_settings c)"
    "look ps ''fp'' = reals_fingerprint (real_settings c)"
    by (simp_all add: ps h two one q_def look_obj_set)
  have b: "look q ''sni'' = JUndef" "look q ''sid'' = JUndef" "look q ''spx'' = JUndef" "look q ''pqv'' = JUndef"
    using assms(2) by (simp_all add: bare_def q_def look_obj_set)
  show "if isArrEmpty (real_serverNames c) then look ps ''sni'' = JUndef else first_part (real_serverNames c) = Some (look ps ''sni'')"
    using q1 b(1) by (auto simp: ps h two look_obj_set split: if_splits bind_splits)
  show "if longer_than_0 (real_shortIds c) = Some True then first_part (real_shortIds c) = Some (look ps ''sid'')
     else look ps ''sid'' = JUndef"
    using q2 b(2) one [of "''sid''"] by (auto simp: ps h ids look_obj_set split: if_splits bind_splits)
  have l: "look q2 ''spx'' = JUndef" "look q2 ''pqv'' = JUndef" by (simp_all add: two one b)
  show "look ps ''spx'' = (if isEmpty (reals_spiderX (real_settings c)) then JUndef else reals_spiderX (real_settings c))"
    "look ps ''pqv'' = (if isEmpty (reals_mldsa65Verify (real_settings c)) then JUndef else reals_mldsa65Verify (real_settings c))"
    by (simp_all add: ps h_def look_set_if l)
  have k1: "set (keys q) \<subseteq> set (keys q1)" using q1 by (auto simp: keys_obj_set split: if_splits bind_splits)
  have k2: "set (keys q1) \<subseteq> set (keys q2)" using q2 by (auto simp: keys_obj_set split: if_splits bind_splits)
  have k3: "set (keys q2) \<subseteq> set (keys ps)" unfolding ps h_def using keys_set_if by blast
  have "{''pbk'', ''fp''} \<subseteq> set (keys q)" by (simp add: q_def keys_obj_set)
  then show "{''pbk'', ''fp''} \<subseteq> set (keys ps)" using k1 k2 k3 by blast
qed

lemma read_reality:
  assumes "reads u ps" and "json_int (JObj ps)" and "bare r" and "link_reality c r = Some q" and "ps = set_flow s flow q \<or> ps = q"
  shows "param u ''security'' d = JStr ''reality''" "reality_by_text c (os_reality (param_security u st))"
proof -
  have p: "look ps k = look q k" if "k \<noteq> ''flow''" for k using assms(5) that by (auto simp: look_flow)
  have kp: "set (keys q) \<subseteq> set (keys ps)" using assms(5) keys_set_if unfolding set_flow_def by blast
  note l = reality_looks [OF assms(4,3)]
  note get = param_reads [OF assms(1)]
  have g: "reals_publicKey (real_settings c) \<noteq> JUndef" "reals_fingerprint (real_settings c) \<noteq> JUndef"
    using l(8) kp json_given [OF assms(2), of "''pbk''"] json_given [OF assms(2), of "''fp''"] by (auto simp: p l(2,3))
  show sec: "param u ''security'' d = JStr ''reality''" for d by (simp add: get p l(1))
  have e: "isEmpty JUndef" by (simp add: isEmpty_def)
  have t: "first_part v = Some JUndef \<Longrightarrow> False" for v using first_part_text [of v JUndef] by simp
  have sni: "if isArrEmpty (real_serverNames c) then param u ''sni'' (JStr '''') = JStr ''''
      else first_part (real_serverNames c) = Some (param u ''sni'' (JStr ''''))"
    using l(4) t first_part_text by (cases "isArrEmpty (real_serverNames c)") (auto simp: get p)
  have sid: "if longer_than_0 (real_shortIds c) = Some True then first_part (real_shortIds c) = Some (param u ''sid'' (JStr ''''))
      else param u ''sid'' (JStr '''') = JStr ''''"
    using l(5) t first_part_text by (cases "longer_than_0 (real_shortIds c) = Some True") (auto simp: get p)
  have rest: "params_get u ''pbk'' = as_text (reals_publicKey (real_settings c))"
    "params_get u ''fp'' = as_text (reals_fingerprint (real_settings c))"
    "param u ''spx'' (JStr '''') = (if isEmpty (reals_spiderX (real_settings c)) then JStr '''' else as_text (reals_spiderX (real_settings c)))"
    "param u ''pqv'' (JStr '''') =
      (if isEmpty (reals_mldsa65Verify (real_settings c)) then JStr '''' else as_text (reals_mldsa65Verify (real_settings c)))"
    using g e by (auto simp: readsD [OF assms(1)] get p l(2,3,6,7))
  have nu: "param u k (JStr '''') \<noteq> JUndef" for k by (simp add: get)
  show "reality_by_text c (os_reality (param_security u st))"
    using sni sid rest nu
    by (simp add: reality_by_text_def param_security_def sec new_OutReality_def dflt_def)
qed

section \<open>The stream that is read\<close>

definition link_read :: "jsv \<Rightarrow> StreamSettings \<Rightarrow> OutStreamSettings \<Rightarrow> bool" where
  "link_read security s t \<longleftrightarrow>
     os_network t = ss_network s \<and> same_by_text s t \<and>
     (if security = JStr ''tls'' then os_security t = JStr ''tls'' \<and> (ss_isTls s \<longrightarrow> tls_by_text (ss_tls s) (os_tls t))
      else if security = JStr ''reality'' then os_security t = JStr ''reality'' \<and> reality_by_text (ss_reality s) (os_reality t)
      else os_security t = JStr ''none'')"

text \<open>The parameters ps that a link adds to r for its security.\<close>

definition secured :: "jsv \<Rightarrow> StreamSettings \<Rightarrow> jsv \<Rightarrow> entries \<Rightarrow> entries \<Rightarrow> bool" where
  "secured security s flow r ps \<longleftrightarrow>
     (if security = JStr ''tls'' then ps = vless_tls s flow r \<or> ps = plain_tls s r
      else if security = JStr ''reality''
      then (\<exists>q. link_reality (ss_reality s) r = Some q \<and> (ps = set_flow s flow q \<or> ps = q))
      else ps = obj_set r ''security'' (JStr ''none'') \<or> ps = r)"

lemma extends_secured: "secured security s flow r ps \<Longrightarrow> extends url_late ps r"
proof -
  assume a: "secured security s flow r ps"
  have f: "extends url_late q r \<Longrightarrow> extends url_late (set_flow s flow q) r" for q
    unfolding set_flow_def by (rule extends_set_if) simp_all
  consider "ps = vless_tls s flow r \<or> ps = plain_tls s r"
    | q where "link_reality (ss_reality s) r = Some q" "ps = set_flow s flow q \<or> ps = q"
    | "ps = obj_set r ''security'' (JStr ''none'') \<or> ps = r"
    using a by (auto simp: secured_def split: if_splits)
  then show ?thesis
  proof cases
    case 1
    then show ?thesis using extends_vless_tls extends_plain_tls by blast
  next
    case 2
    then show ?thesis using f extends_reality by blast
  next
    case 3
    then show ?thesis using extends_refl extends_set [of "''security''"] by auto
  qed
qed

lemma stream_parts:
  "os_network (param_security u st) = os_network st" "os_security (param_security u st) = os_security st"
  "same_by_text s (param_security u st) = same_by_text s st"
  "os_network (param_network u st) = os_network st" "os_security (param_network u st) = os_security st"
proof -
  have k: "os_tcp (param_security u st) = os_tcp st" "os_kcp (param_security u st) = os_kcp st"
    "os_ws (param_security u st) = os_ws st" "os_grpc (param_security u st) = os_grpc st"
    "os_httpupgrade (param_security u st) = os_httpupgrade st" "os_xhttp (param_security u st) = os_xhttp st"
    by (simp_all add: param_security_def Let_def)
  show "same_by_text s (param_security u st) = same_by_text s st" unfolding same_by_text_def k ..
qed (simp_all add: param_security_def param_network_def Let_def)

lemma tls_without: "\<not> ss_isTls s \<Longrightarrow> ps = vless_tls s flow r \<or> ps = plain_tls s r \<Longrightarrow> look ps ''security'' = JStr ''tls''"
  by (auto simp: vless_tls_def plain_tls_def look_obj_set)

lemma read_link_stream:
  assumes r: "reads u ps" and j: "json_int (JObj ps)" and t: "link_transport s b = Some t"
    and ps: "secured security s flow (applyFinalMaskToParams m t) ps"
    and b: "fresh b" "bare b" "look b ''type'' = ss_network s" "''type'' \<in> set (keys b)" and n: "is_string (ss_network s)"
    and alpn: "security = JStr ''tls'' \<Longrightarrow> ss_isTls s \<Longrightarrow> alpn_list (tls_alpn (ss_tls s))"
  shows "link_read security s
    (param_security u (param_network u (plain_stream (param u ''type'' (JStr ''tcp'')) (param u ''security'' (JStr ''none'')))))"
proof -
  let ?r = "applyFinalMaskToParams m t"
  have e: "extends url_late ps t" using extends_trans [OF extends_secured [OF ps] extends_mask] .
  have mask: "look ?r k = look t k" if "k \<noteq> ''fm''" for k
    using that by (simp add: applyFinalMaskToParams_def Let_def look_set_if)
  have bare: "bare ?r"
    using b(2) by (simp add: bare_def mask url_transport_other [OF t])
  have ty: "look ps ''type'' = ss_network s"
    using extends_look [OF e, of "''type''"] url_transport_other [OF t, of "''type''"] b(3) by simp
  have type: "param u ''type'' d = ss_network s" for d
    using n by (auto simp: param_reads [OF r] ty is_string_iff)
  have "url_link u ps s b t" using r j t e b(1) type by (simp add: url_link_def)
  from read_url_transport [OF this] have tr: "same_by_text s (param_network u st)" for st .
  have names: "os_network (plain_stream (ss_network s) v) = ss_network s" "os_security (plain_stream (ss_network s) (JStr w)) = JStr w" for v w
    using n by (auto simp: plain_stream_def new_OutStreamSettings_def is_string_iff)
  define st where "st = param_network u (plain_stream (param u ''type'' (JStr ''tcp'')) (param u ''security'' (JStr ''none'')))"
  have net: "os_network st = ss_network s" by (simp add: st_def stream_parts type names)
  have sec: "os_security st = (if param u ''security'' (JStr ''none'') = JUndef then JStr ''none'' else param u ''security'' (JStr ''none''))"
    by (simp add: st_def stream_parts plain_stream_def new_OutStreamSettings_def dflt_def)
  have same: "same_by_text s st" by (simp add: st_def tr)
  show ?thesis
  proof (cases "security = JStr ''tls''")
    case True
    then have p: "ps = vless_tls s flow ?r \<or> ps = plain_tls s ?r" using ps by (simp add: secured_def)
    show ?thesis
    proof (cases "ss_isTls s")
      case tls: True
      note k = read_tls [OF r j bare tls alpn [OF True tls] p]
      show ?thesis using True net same sec k(1) k(2) [of st] tls unfolding st_def [symmetric] link_read_def stream_parts by simp
    next
      case False
      have "param u ''security'' d = JStr ''tls''" for d by (simp add: param_reads [OF r] tls_without [OF False p])
      then show ?thesis using True False net same sec unfolding st_def [symmetric] link_read_def stream_parts by simp
    qed
  next
    case no_tls: False
    show ?thesis
    proof (cases "security = JStr ''reality''")
      case True
      then obtain q where q: "link_reality (ss_reality s) ?r = Some q" "ps = set_flow s flow q \<or> ps = q"
        using ps by (auto simp: secured_def)
      note k = read_reality [OF r j bare q]
      show ?thesis using True net same sec k(1) k(2) [of st] unfolding st_def [symmetric] link_read_def stream_parts by simp
    next
      case False
      then have "look ps ''security'' = JUndef \<or> look ps ''security'' = JStr ''none''"
        using ps no_tls bare by (auto simp: secured_def look_obj_set bare_def)
      then have "param u ''security'' (JStr ''none'') = JStr ''none''" by (auto simp: param_reads [OF r])
      then show ?thesis using no_tls False net same sec unfolding st_def [symmetric] link_read_def stream_parts by simp
    qed
  qed
qed

section \<open>VLESS, Trojan and Shadowsocks\<close>

definition has_flow :: "jsv \<Rightarrow> StreamSettings \<Rightarrow> jsv \<Rightarrow> bool" where
  "has_flow security s flow \<longleftrightarrow> ss_network s = JStr ''tcp'' \<and> \<not> isEmpty flow \<and>
     (security = JStr ''tls'' \<and> ss_isTls s \<or> security = JStr ''reality'')"

definition link_flow :: "jsv \<Rightarrow> StreamSettings \<Rightarrow> jsv \<Rightarrow> jsv" where
  "link_flow security s flow = (if has_flow security s flow then as_text flow else JStr '''')"

lemma flow_looks:
  assumes "vless_params i forceTls flow = Some ps" and "security = link_security i forceTls" and "s = ib_stream i"
  obtains e t where "settings_encryption (ib_settings i) = Some e"
    "link_transport s [(''type'', ss_network s), (''encryption'', e)] = Some t"
    "secured security s flow (applyFinalMaskToParams (ss_finalmask s) t) ps"
    "look ps ''flow'' = (if has_flow security s flow then flow else JUndef)"
proof -
  obtain e t where e: "settings_encryption (ib_settings i) = Some e"
    and t: "link_transport s [(''type'', ss_network s), (''encryption'', e)] = Some t"
    and rest: "(let params = applyFinalMaskToParams (ss_finalmask s) t
            in if security = JStr ''tls'' then Some (vless_tls s flow params)
               else if security = JStr ''reality''
               then do { params \<leftarrow> link_reality (ss_reality s) params; Some (set_flow s flow params) }
               else Some (obj_set params ''security'' (JStr ''none''))) = Some ps"
    using assms(1) unfolding vless_params_def Let_def assms(2,3) by (auto split: bind_splits)
  let ?r = "applyFinalMaskToParams (ss_finalmask s) t"
  have no: "look ?r ''flow'' = JUndef"
    using url_transport_other [OF t, of "''flow''"] by (simp add: applyFinalMaskToParams_def Let_def look_set_if)
  have sec: "secured security s flow ?r ps"
    using rest by (auto simp: secured_def Let_def split: if_splits bind_splits)
  have real: "look q ''flow'' = look r ''flow''" if "link_reality c r = Some q" for c r q
    using that by (auto simp: link_reality_def Let_def look_set_if look_obj_set split: if_splits bind_splits)
  have fl: "look (set_flow s flow q) ''flow'' = (if ss_network s = JStr ''tcp'' \<and> \<not> isEmpty flow then flow else look q ''flow'')" for q
    by (simp add: set_flow_def look_set_if)
  have "look ps ''flow'' = (if has_flow security s flow then flow else JUndef)"
  proof (cases "security = JStr ''tls''")
    case True
    then have "ps = vless_tls s flow ?r" using rest by (simp add: Let_def)
    with True no show ?thesis
      by (cases "ss_isTls s") (simp_all add: has_flow_def vless_tls_def Let_def fl look_obj_set look_set_if)
  next
    case no_tls: False
    show ?thesis
    proof (cases "security = JStr ''reality''")
      case True
      then obtain q where "link_reality (ss_reality s) ?r = Some q" "ps = set_flow s flow q"
        using rest by (auto simp: Let_def split: bind_splits)
      with True no no_tls real show ?thesis by (simp add: has_flow_def fl)
    next
      case False
      with no_tls no rest show ?thesis by (auto simp: has_flow_def Let_def look_obj_set)
    qed
  qed
  then show thesis by (rule that [OF e t sec])
qed

text \<open>
  C7: a VLESS link is understood by the outbound form. For every VLESS inbound whose parameters
  are texts, flags and whole numbers, with a user and an address that need no escaping, the link is
  generated, and reading it gives an outbound with the address, port, user, flow, encryption and
  remark of the link, the inbound's transport for every network (the xHTTP mode and padding
  included), and its TLS or Reality parameters.
\<close>
theorem vless_link_read:
  assumes "vless_params i forceTls flow = Some ps" and "json_int (JObj ps)"
    and "plain_link canon ''vless'' user address n" and "remark \<noteq> ''''" and "is_string (ss_network (ib_stream i))"
    and "link_security i forceTls = JStr ''tls'' \<Longrightarrow> ss_isTls (ib_stream i) \<Longrightarrow> alpn_list (tls_alpn (ss_tls (ib_stream i)))"
  shows "\<exists>link x e.
    genVLESSLink canon i (JStr address) (jint (int n)) forceTls (JStr remark) (JStr user) flow = Some link \<and>
    fromLink canon link = Some (Some x) \<and> ob_protocol x = JStr ''vless'' \<and> ob_tag x = JStr remark \<and>
    settings_encryption (ib_settings i) = Some e \<and>
    ob_settings x = Some (OVless (new_OutVless (JStr address) (jint (int n)) (JStr user)
      (link_flow (link_security i forceTls) (ib_stream i) flow) (as_text e) JUndef JUndef)) \<and>
    link_read (link_security i forceTls) (ib_stream i) (ob_stream x)"
proof -
  let ?s = "ib_stream i" and ?sec = "link_security i forceTls"
  obtain e t where e: "settings_encryption (ib_settings i) = Some e"
    and t: "link_transport ?s [(''type'', ss_network ?s), (''encryption'', e)] = Some t"
    and sec: "secured ?sec ?s flow (applyFinalMaskToParams (ss_finalmask ?s) t) ps"
    and fl: "look ps ''flow'' = (if has_flow ?sec ?s flow then flow else JUndef)"
    using flow_looks [OF assms(1) refl refl] by blast
  obtain u where u: "link_text canon (link_base ''vless'' (JStr user) (JStr address) (jint (int n))) ps (JStr remark) = Some (url_text u)"
    "reads u ps"
    and from_link: "link_settings u ''vless'' user address (Fin (of_nat n)) = Some (Some r) \<Longrightarrow>
       fromLink canon (url_text u) = Some (Some (link_outbound u remark r))" for r
    using generic_link [OF _ assms(3,2,4)] by blast
  have b: "fresh [(''type'', ss_network ?s), (''encryption'', e)]" "bare [(''type'', ss_network ?s), (''encryption'', e)]"
    by (simp_all add: fresh_def bare_def)
  have enc: "look ps ''encryption'' = e" "look ps ''encryption'' \<noteq> JUndef"
  proof -
    have x: "extends url_late ps t" using extends_trans [OF extends_secured [OF sec] extends_mask] .
    show l: "look ps ''encryption'' = e"
      using extends_look [OF x, of "''encryption''"] url_transport_other [OF t, of "''encryption''"] by simp
    have "''encryption'' \<in> set (keys ps)" using x url_transport_keys [OF t] by (auto simp: extends_def)
    then show "look ps ''encryption'' \<noteq> JUndef" by (rule json_given [OF assms(2)])
  qed
  have par: "param u ''encryption'' (JStr ''none'') = as_text e" "param u ''flow'' (JStr '''') = link_flow ?sec ?s flow"
  proof -
    have "has_flow ?sec ?s flow \<Longrightarrow> flow \<noteq> JUndef" by (auto simp: has_flow_def isEmpty_def)
    then show "param u ''encryption'' (JStr ''none'') = as_text e" "param u ''flow'' (JStr '''') = link_flow ?sec ?s flow"
      using enc fl by (simp_all add: param_reads [OF u(2)] link_flow_def)
  qed
  have "link_read ?sec ?s (link_stream u)"
    unfolding link_stream_def by (rule read_link_stream [OF u(2) assms(2) t sec b _ _ assms(5,6)]) simp_all
  moreover have "link_settings u ''vless'' user address (Fin (of_nat n)) = Some (Some (''vless'',
      OVless (new_OutVless (JStr address) (jint (int n)) (JStr user) (link_flow ?sec ?s flow) (as_text e) JUndef JUndef)))"
    by (simp add: link_settings_def par)
  moreover have "genVLESSLink canon i (JStr address) (jint (int n)) forceTls (JStr remark) (JStr user) flow = Some (url_text u)"
    using u(1) assms(1) by (simp add: genVLESSLink_def)
  ultimately show ?thesis
    using e from_link by (intro exI [of _ "url_text u"] exI [of _ "link_outbound u remark (''vless'',
      OVless (new_OutVless (JStr address) (jint (int n)) (JStr user) (link_flow ?sec ?s flow) (as_text e) JUndef JUndef))"]
      exI [of _ e]) (simp add: link_outbound_def)
qed

text \<open>
  A Trojan link is understood by the outbound form: address, port, password, remark, transport and TLS or
  Reality parameters are those of the inbound, under the conditions of the VLESS link.
\<close>
theorem trojan_link_read:
  assumes "trojan_params i forceTls = Some ps" and "json_int (JObj ps)"
    and "plain_link canon ''trojan'' password address n" and "remark \<noteq> ''''" and "is_string (ss_network (ib_stream i))"
    and "link_security i forceTls = JStr ''tls'' \<Longrightarrow> ss_isTls (ib_stream i) \<Longrightarrow> alpn_list (tls_alpn (ss_tls (ib_stream i)))"
  shows "\<exists>link x.
    genTrojanLink canon i (JStr address) (jint (int n)) forceTls (JStr remark) (JStr password) = Some link \<and>
    fromLink canon link = Some (Some x) \<and> ob_protocol x = JStr ''trojan'' \<and> ob_tag x = JStr remark \<and>
    ob_settings x = Some (OTrojan (new_OutTrojan (JStr address) (jint (int n)) (JStr password))) \<and>
    link_read (link_security i forceTls) (ib_stream i) (ob_stream x)"
proof -
  let ?s = "ib_stream i" and ?sec = "link_security i forceTls"
  obtain t where t: "link_transport ?s [(''type'', ss_network ?s)] = Some t"
    and rest: "(let params = applyFinalMaskToParams (ss_finalmask ?s) t
            in if ?sec = JStr ''tls'' then Some (plain_tls ?s params)
               else if ?sec = JStr ''reality'' then link_reality (ss_reality ?s) params
               else Some (obj_set params ''security'' (JStr ''none''))) = Some ps"
    using assms(1) unfolding trojan_params_def Let_def by (auto split: bind_splits)
  have sec: "secured ?sec ?s JUndef (applyFinalMaskToParams (ss_finalmask ?s) t) ps"
    using rest by (auto simp: secured_def Let_def split: if_splits)
  obtain u where u: "link_text canon (link_base ''trojan'' (JStr password) (JStr address) (jint (int n))) ps (JStr remark) = Some (url_text u)"
    "reads u ps"
    and from_link: "link_settings u ''trojan'' password address (Fin (of_nat n)) = Some (Some r) \<Longrightarrow>
       fromLink canon (url_text u) = Some (Some (link_outbound u remark r))" for r
    using generic_link [OF _ assms(3,2,4)] by blast
  have b: "fresh [(''type'', ss_network ?s)]" "bare [(''type'', ss_network ?s)]"
    by (simp_all add: fresh_def bare_def)
  have "link_read ?sec ?s (link_stream u)"
    unfolding link_stream_def by (rule read_link_stream [OF u(2) assms(2) t sec b _ _ assms(5,6)]) simp_all
  moreover have "link_settings u ''trojan'' password address (Fin (of_nat n)) = Some (Some (''trojan'',
      OTrojan (new_OutTrojan (JStr address) (jint (int n)) (JStr password))))"
    by (simp add: link_settings_def)
  moreover have "genTrojanLink canon i (JStr address) (jint (int n)) forceTls (JStr remark) (JStr password) = Some (url_text u)"
    using u(1) assms(1) by (simp add: genTrojanLink_def)
  ultimately show ?thesis
    using from_link by (intro exI [of _ "url_text u"] exI [of _ "link_outbound u remark (''trojan'',
      OTrojan (new_OutTrojan (JStr address) (jint (int n)) (JStr password)))"]) (simp add: link_outbound_def)
qed

subsection \<open>Shadowsocks\<close>

lemma atob_unsafe:
  assumes "CHR ''='' \<notin> set s" and "CHR ''-'' \<in> set s \<or> CHR ''_'' \<in> set s"
  shows "atob s = None"
proof -
  let ?t = "filter (\<lambda>c. \<not> b64_space c) s"
  have no: "CHR ''='' \<notin> set ?t" using assms(1) by simp
  have "?t = [] \<or> last ?t \<noteq> CHR ''=''" using no last_in_set [of ?t] by fastforce
  moreover have "drop (length ?t - 2) ?t \<noteq> ''==''" using no by (metis in_set_dropD list.set_intros(1))
  ultimately have p: "strip_pad ?t = ?t" by (auto simp: strip_pad_def)
  have v: "b64_val (CHR ''-'') = None" "b64_val (CHR ''_'') = None" by code_simp+
  have "\<exists>c \<in> set ?t. b64_val c = None" using assms(2) v by (auto simp: b64_space_def)
  then have "mapM b64_val ?t = None" by (simp only: mapM_None_iff)
  then show ?thesis by (simp only: atob_def p Let_def) simp
qed

lemma atob_safe:
  assumes "CHR ''-'' \<notin> set (to_url_safe (btoa s))" "CHR ''_'' \<notin> set (to_url_safe (btoa s))"
  shows "atob (to_url_safe (btoa s)) = Some s"
proof -
  have "from_url_safe (to_url_safe (btoa s)) = to_url_safe (btoa s)"
    unfolding from_url_safe_def using assms by (intro map_idI) auto
  then have "to_url_safe (btoa s) = map b64_char (sextets (map of_char s))" using url_safe_btoa(1) [of s] by simp
  then show ?thesis by (simp add: atob_unpadded byte_codes comp_def)
qed

lemma utf8_ascii: "list_all (\<lambda>c. (of_char c :: nat) < 128) s \<Longrightarrow> utf8_encode s = s"
  by (induction s) auto

text \<open>
  C28: a Shadowsocks link is written with the URL-safe alphabet and read with the plain one. When the
  encoded method and password have a minus or underscore sign, reading the link throws an exception;
  otherwise, and for a method and password in ASCII with no colon in the method, reading gives the
  address, port, method, password and remark of the inbound's link, its transport and its TLS parameters.
\<close>
theorem ss_link_read:
  assumes "ss_params i forceTls = Some ps" and "json_int (JObj ps)"
    and "ss_user_info i clientPassword = Some (method @ '':'' @ password)" and "CHR '':'' \<notin> set method"
    and "list_all (\<lambda>c. (of_char c :: nat) < 128) (method @ '':'' @ password)"
    and "plain_link canon ''ss'' (Base64_encode (method @ '':'' @ password) True) address n"
    and "remark \<noteq> ''''" and "is_string (ss_network (ib_stream i))" and "link_security i forceTls \<noteq> JStr ''reality''"
    and "link_security i forceTls = JStr ''tls'' \<Longrightarrow> ss_isTls (ib_stream i) \<Longrightarrow> alpn_list (tls_alpn (ss_tls (ib_stream i)))"
  shows "\<exists>link.
    genSSLink canon i (JStr address) (jint (int n)) forceTls (JStr remark) clientPassword = Some link \<and>
    (if CHR ''-'' \<in> set (Base64_encode (method @ '':'' @ password) True) \<or>
        CHR ''_'' \<in> set (Base64_encode (method @ '':'' @ password) True)
     then fromLink canon link = None
     else \<exists>x. fromLink canon link = Some (Some x) \<and> ob_protocol x = JStr ''shadowsocks'' \<and> ob_tag x = JStr remark \<and>
       ob_settings x = Some (OShadowsocks (new_OutShadowsocks (JStr address) (jint (int n)) (JStr password) (JStr method)
         (JBool True) JUndef)) \<and>
       link_read (link_security i forceTls) (ib_stream i) (ob_stream x))"
proof -
  let ?s = "ib_stream i" and ?sec = "link_security i forceTls"
  let ?info = "method @ '':'' @ password"
  let ?e = "Base64_encode ?info True"
  obtain t where t: "link_transport ?s [(''type'', ss_network ?s)] = Some t"
    and ps: "ps = (if ?sec = JStr ''tls'' then plain_tls ?s (applyFinalMaskToParams (ss_finalmask ?s) t)
                   else applyFinalMaskToParams (ss_finalmask ?s) t)"
    using assms(1) by (auto simp: ss_params_def Let_def split: bind_splits)
  have sec: "secured ?sec ?s JUndef (applyFinalMaskToParams (ss_finalmask ?s) t) ps"
    using assms(9) by (auto simp: secured_def ps)
  have e: "?e = to_url_safe (btoa ?info)"
    using utf8_ascii [OF assms(5)] by (simp add: Base64_encode_def)
  have sc: "''ss'' \<in> {''vless'', ''trojan'', ''ss''}" by simp
  obtain u where u: "link_text canon (link_base ''ss'' (JStr ?e) (JStr address) (jint (int n))) ps (JStr remark) = Some (url_text u)"
    "reads u ps"
    and from_link: "\<forall>r. link_settings u ''ss'' ?e address (Fin (of_nat n)) = Some (Some r) \<longrightarrow>
       fromLink canon (url_text u) = Some (Some (link_outbound u remark r))"
    and no_link: "link_settings u ''ss'' ?e address (Fin (of_nat n)) = None \<longrightarrow> fromLink canon (url_text u) = None"
    using generic_link [OF sc assms(6,2,7)] by (elim exE conjE) (rule that)
  have gen: "genSSLink canon i (JStr address) (jint (int n)) forceTls (JStr remark) clientPassword = Some (url_text u)"
    using u(1) assms(1,3) by (simp add: genSSLink_def)
  have b: "fresh [(''type'', ss_network ?s)]" "bare [(''type'', ss_network ?s)]"
    by (simp_all add: fresh_def bare_def)
  have st: "link_read ?sec ?s (link_stream u)"
    unfolding link_stream_def by (rule read_link_stream [OF u(2) assms(2) t sec b _ _ assms(8,10)]) simp_all
  show ?thesis
  proof (cases "CHR ''-'' \<in> set ?e \<or> CHR ''_'' \<in> set ?e")
    case True
    have "CHR ''='' \<notin> set ?e" unfolding e using url_safe_btoa(2) [of ?info] by auto
    then have "atob ?e = None" using True by (rule atob_unsafe)
    then have "link_settings u ''ss'' ?e address (Fin (of_nat n)) = None" by (simp add: link_settings_def)
    with True gen no_link show ?thesis by (intro exI [of _ "url_text u"]) simp
  next
    case False
    then have a: "atob ?e = Some ?info" unfolding e using atob_safe [of ?info] by blast
    have parts: "split_on (CHR '':'') ?info = method # split_on (CHR '':'') password"
      using split_on_append_sep [OF assms(4)] by simp
    let ?r = "(''shadowsocks'', OShadowsocks (new_OutShadowsocks (JStr address) (jint (int n)) (JStr password) (JStr method)
         (JBool True) JUndef))"
    have "link_settings u ''ss'' ?e address (Fin (of_nat n)) = Some (Some ?r)"
      using a parts by (simp add: link_settings_def)
    from from_link [rule_format, OF this] st False gen show ?thesis
      by (intro exI [of _ "url_text u"]) (auto simp: link_outbound_def)
  qed
qed

section \<open>Concrete links\<close>

definition link_inbound :: "string \<Rightarrow> settings \<Rightarrow> Inbound" where
  "link_inbound protocol s =
     \<lparr>ib_port = jint 443, ib_listen = JStr '''', ib_protocol = JStr protocol, ib_settings = s,
      ib_stream = (fst (default_StreamSettings sample_world))\<lparr>ss_network := JStr ''grpc''\<rparr>,
      ib_tag = JStr '''', ib_sniffing = default_Sniffing, ib_clientStats = JStr ''''\<rparr>"

lemma link_inbound_parts:
  "ib_protocol (link_inbound p s) = JStr p" "ib_settings (link_inbound p s) = s"
  "ss_network (ib_stream (link_inbound p s)) = JStr ''grpc''" "ss_security (ib_stream (link_inbound p s)) = JStr ''none''"
  "ss_grpc (ib_stream (link_inbound p s)) = default_GrpcStreamSettings"
  "ss_finalmask (ib_stream (link_inbound p s)) = default_FinalMask"
  by (simp_all add: link_inbound_def default_StreamSettings_def new_StreamSettings_def split_def Let_def)

lemma no_link_mask: "serializeFinalMask default_FinalMask = ''''"
  by (simp add: serializeFinalMask_def default_FinalMask_def FinalMask_toJson_def fm_entries_def set_if_def)

lemma grpc_defaults: "default_GrpcStreamSettings = \<lparr>grpc_serviceName = JStr '''', grpc_authority = JStr '''', grpc_multiMode = JBool False\<rparr>"
  by (simp add: default_GrpcStreamSettings_def new_GrpcStreamSettings_def)

definition sample_user :: string where
  "sample_user = ''6ba7b810-9dad''"

lemma sample_words: "link_word sample_user" "link_word ''a.example''" "plain_link Some s sample_user ''a.example'' 443"
  by (simp_all add: plain_link_def link_word_def sample_user_def fragment_keep_def)

theorem vless_link_read_witness:
  "let i = link_inbound ''vless'' (VlessSet \<lparr>vls_vlesses = [], vls_decryption = JStr ''none'', vls_encryption = JStr ''none'',
       vls_fallbacks = [], vls_selectedAuth = JUndef, vls_testseed = JUndef\<rparr>) in
   \<exists>link x e.
    genVLESSLink Some i (JStr ''a.example'') (jint (int 443)) (JStr ''same'') (JStr ''home'') (JStr sample_user) JUndef = Some link \<and>
    fromLink Some link = Some (Some x) \<and> ob_protocol x = JStr ''vless'' \<and> ob_tag x = JStr ''home'' \<and>
    settings_encryption (ib_settings i) = Some e \<and>
    ob_settings x = Some (OVless (new_OutVless (JStr ''a.example'') (jint (int 443)) (JStr sample_user)
      (link_flow (link_security i (JStr ''same'')) (ib_stream i) JUndef) (as_text e) JUndef JUndef)) \<and>
    link_read (link_security i (JStr ''same'')) (ib_stream i) (ob_stream x)"
proof -
  define i where "i = link_inbound ''vless'' (VlessSet \<lparr>vls_vlesses = [], vls_decryption = JStr ''none'', vls_encryption = JStr ''none'',
       vls_fallbacks = [], vls_selectedAuth = JUndef, vls_testseed = JUndef\<rparr>)"
  have s: "link_security i (JStr ''same'') = JStr ''none''" by (simp add: link_security_def i_def link_inbound_parts)
  have n: "ss_network (ib_stream i) = JStr ''grpc''" by (simp add: i_def link_inbound_parts)
  have p: "vless_params i (JStr ''same'') JUndef = Some
      [(''type'', JStr ''grpc''), (''encryption'', JStr ''none''), (''serviceName'', JStr ''''), (''authority'', JStr ''''),
       (''security'', JStr ''none'')]"
    by (simp add: vless_params_def s)
       (simp add: i_def link_inbound_parts settings_encryption_def link_transport_def grpc_defaults applyFinalMaskToParams_def no_link_mask set_if_def)
  show ?thesis
    unfolding Let_def i_def [symmetric]
    by (rule vless_link_read [OF p _ sample_words(3)]) (simp_all add: s n)
qed

theorem trojan_link_read_witness:
  "let i = link_inbound ''trojan'' NoSettings in
   \<exists>link x.
    genTrojanLink Some i (JStr ''a.example'') (jint (int 443)) (JStr ''same'') (JStr ''home'') (JStr sample_user) = Some link \<and>
    fromLink Some link = Some (Some x) \<and> ob_protocol x = JStr ''trojan'' \<and> ob_tag x = JStr ''home'' \<and>
    ob_settings x = Some (OTrojan (new_OutTrojan (JStr ''a.example'') (jint (int 443)) (JStr sample_user))) \<and>
    link_read (link_security i (JStr ''same'')) (ib_stream i) (ob_stream x)"
proof -
  define i where "i = link_inbound ''trojan'' NoSettings"
  have s: "link_security i (JStr ''same'') = JStr ''none''" by (simp add: link_security_def i_def link_inbound_parts)
  have n: "ss_network (ib_stream i) = JStr ''grpc''" by (simp add: i_def link_inbound_parts)
  have p: "trojan_params i (JStr ''same'') = Some
      [(''type'', JStr ''grpc''), (''serviceName'', JStr ''''), (''authority'', JStr ''''), (''security'', JStr ''none'')]"
    by (simp add: trojan_params_def s)
       (simp add: i_def link_inbound_parts link_transport_def grpc_defaults applyFinalMaskToParams_def no_link_mask set_if_def)
  show ?thesis
    unfolding Let_def i_def [symmetric]
    by (rule trojan_link_read [OF p _ sample_words(3)]) (simp_all add: s n)
qed

text \<open>An xHTTP inbound whose link carries a mode and a padding.\<close>

definition xhttp_inbound :: Inbound where
  "xhttp_inbound =
     (let i = link_inbound ''vmess'' NoSettings
      in i\<lparr>ib_stream := (ib_stream i)\<lparr>ss_network := JStr ''xhttp'',
           ss_xhttp := default_xHTTPStreamSettings\<lparr>xh_mode := JStr ''stream-one''\<rparr>\<rparr>\<rparr>)"

lemma xhttp_inbound_parts:
  "ib_protocol xhttp_inbound = JStr ''vmess''" "ss_network (ib_stream xhttp_inbound) = JStr ''xhttp''"
  "ss_security (ib_stream xhttp_inbound) = JStr ''none''" "ss_finalmask (ib_stream xhttp_inbound) = default_FinalMask"
  "ss_xhttp (ib_stream xhttp_inbound) = default_xHTTPStreamSettings\<lparr>xh_mode := JStr ''stream-one''\<rparr>"
  by (simp_all add: xhttp_inbound_def link_inbound_parts Let_def)

theorem vmess_link_read_witness:
  "let i = xhttp_inbound;
       ob = [(''v'', JStr ''2''), (''ps'', JStr ''home''), (''add'', JStr ''a.example''), (''port'', jint 443),
         (''id'', JStr sample_user), (''scy'', JStr ''auto''), (''net'', JStr ''xhttp''), (''tls'', JStr ''none''),
         (''path'', JStr ''/''), (''host'', JStr ''''), (''type'', JStr ''stream-one''), (''x_padding_bytes'', JStr ''100-1000'')] in
   \<exists>link x.
    genVmessLink i (JStr ''a.example'') (jint 443) (JStr ''same'') (JStr ''home'') (JStr sample_user) (JStr ''auto'') = Some link \<and>
    fromLink Some link = Some (Some x) \<and>
    ob_protocol x = JStr ''vmess'' \<and> ob_tag x = JStr ''home'' \<and>
    ob_settings x = Some (OVmess (new_OutVmess (JStr ''a.example'') (jint 443) (JStr sample_user) (JStr ''auto''))) \<and>
    os_network (ob_stream x) = ss_network (ib_stream i) \<and> os_security (ob_stream x) = link_security i (JStr ''same'') \<and>
    vmess_read ob (ib_stream i) (ob_stream x) \<and>
    (if link_security i (JStr ''same'') = JStr ''tls'' then same_tls (ss_tls (ib_stream i)) (os_tls (ob_stream x)) else True)"
proof -
  have s: "link_security xhttp_inbound (JStr ''same'') = JStr ''none''"
    by (simp add: link_security_def xhttp_inbound_parts)
  have p: "vmess_object xhttp_inbound (JStr ''a.example'') (jint 443) (JStr ''same'') (JStr ''home'') (JStr sample_user) (JStr ''auto'') = Some
      [(''v'', JStr ''2''), (''ps'', JStr ''home''), (''add'', JStr ''a.example''), (''port'', jint 443),
       (''id'', JStr sample_user), (''scy'', JStr ''auto''), (''net'', JStr ''xhttp''), (''tls'', JStr ''none''),
       (''path'', JStr ''/''), (''host'', JStr ''''), (''type'', JStr ''stream-one''), (''x_padding_bytes'', JStr ''100-1000'')]"
    by (simp add: vmess_object_def s)
       (simp add: xhttp_inbound_parts vmess_transport_def default_xHTTPStreamSettings_def new_xHTTPStreamSettings_def
          host_or_header_def applyXhttpPaddingToObj_def set_padding_fields_def applyFinalMaskToObj_def
          no_link_mask set_if_def opt_new_def has_length_def Let_def)
  show ?thesis
    unfolding Let_def by (rule vmess_link_read [OF xhttp_inbound_parts(1) p]) (simp_all add: s)
qed

theorem ss_link_read_witness:
  "let i = link_inbound ''shadowsocks'' (ShadowsocksSet \<lparr>sss_method = JStr ''aes-256-gcm'', sss_password = JStr ''server'',
       sss_network = JStr ''tcp'', sss_shadowsockses = [], sss_ivCheck = JBool False\<rparr>) in
   \<exists>link. genSSLink Some i (JStr ''a.example'') (jint (int 443)) (JStr ''same'') (JStr ''home'') (JStr ''??>'') = Some link \<and>
     fromLink Some link = None"
proof -
  define i where "i = link_inbound ''shadowsocks'' (ShadowsocksSet \<lparr>sss_method = JStr ''aes-256-gcm'', sss_password = JStr ''server'',
       sss_network = JStr ''tcp'', sss_shadowsockses = [], sss_ivCheck = JBool False\<rparr>)"
  have s: "link_security i (JStr ''same'') = JStr ''none''" by (simp add: link_security_def i_def link_inbound_parts)
  have n: "ss_network (ib_stream i) = JStr ''grpc''" by (simp add: i_def link_inbound_parts)
  have p: "ss_params i (JStr ''same'') = Some
      [(''type'', JStr ''grpc''), (''serviceName'', JStr ''''), (''authority'', JStr '''')]"
    by (simp add: ss_params_def s)
       (simp add: i_def link_inbound_parts link_transport_def grpc_defaults applyFinalMaskToParams_def no_link_mask set_if_def)
  have info: "ss_user_info i (JStr ''??>'') = Some (''aes-256-gcm'' @ '':'' @ ''??>'')"
    by (simp add: ss_user_info_def i_def link_inbound_parts ib_isSS2022_def ib_isSSMultiUser_def ib_method_def)
  have e: "Base64_encode (''aes-256-gcm'' @ '':'' @ ''??>'') True = ''YWVzLTI1Ni1nY206Pz8-''" by code_simp
  have w: "plain_link Some ''ss'' (Base64_encode (''aes-256-gcm'' @ '':'' @ ''??>'') True) ''a.example'' 443"
    unfolding e by (simp add: plain_link_def link_word_def fragment_keep_def)
  have "\<exists>link. genSSLink Some i (JStr ''a.example'') (jint (int 443)) (JStr ''same'') (JStr ''home'') (JStr ''??>'') = Some link \<and>
     (if CHR ''-'' \<in> set (Base64_encode (''aes-256-gcm'' @ '':'' @ ''??>'') True) \<or>
        CHR ''_'' \<in> set (Base64_encode (''aes-256-gcm'' @ '':'' @ ''??>'') True)
     then fromLink Some link = None
     else \<exists>x. fromLink Some link = Some (Some x) \<and> ob_protocol x = JStr ''shadowsocks'' \<and> ob_tag x = JStr ''home'' \<and>
       ob_settings x = Some (OShadowsocks (new_OutShadowsocks (JStr ''a.example'') (jint (int 443)) (JStr ''??>'') (JStr ''aes-256-gcm'')
         (JBool True) JUndef)) \<and>
       link_read (link_security i (JStr ''same'')) (ib_stream i) (ob_stream x))"
    by (rule ss_link_read [OF p _ info _ _ w]) (simp_all add: s n)
  then show ?thesis unfolding Let_def i_def [symmetric] e by simp
qed

end
