(* ===== verification/SubPage.thy ===== *)
theory SubPage
  imports LinkRead ObjectUtil
begin

text \<open>
  The subscription page (web/assets/js/subscription.js): the numbers it reads from its element, the names it
  gives to links, whether the subscription is active, and the addresses that open other programs. The
  element's attributes are a function from names, the browser's time and width are parameters.
\<close>

section \<open>The data of the page\<close>

record sub_data =
  sub_sId :: string
  sub_subUrl :: string
  sub_subJsonUrl :: string
  sub_subClashUrl :: string
  sub_download :: string
  sub_upload :: string
  sub_used :: string
  sub_total :: string
  sub_remained :: string
  sub_expireMs :: rat
  sub_lastOnlineMs :: rat
  sub_downloadByte :: rat
  sub_uploadByte :: rat
  sub_totalByte :: rat
  sub_datepicker :: string

text \<open>\<open>el.getAttribute(name) || d\<close>, and \<open>parseInt(..., 10) || 0\<close>.\<close>

definition attribute :: "(string \<Rightarrow> string option) \<Rightarrow> string \<Rightarrow> string \<Rightarrow> string" where
  "attribute el name d = (case el name of Some s \<Rightarrow> (if s = '''' then d else s) | None \<Rightarrow> d)"

definition decimal :: "string \<Rightarrow> rat" where
  "decimal s =
     (let (sign, t) = read_sign (trim_left s); ds = takeWhile is_digit t
      in if ds = '''' then 0 else sign * of_nat (read_nat ds))"

definition number_attribute :: "(string \<Rightarrow> string option) \<Rightarrow> string \<Rightarrow> rat" where
  "number_attribute el name = decimal (attribute el name ''0'')"

text \<open>A time of the last contact that looks like seconds is made milliseconds.\<close>

definition in_milliseconds :: "rat \<Rightarrow> rat" where
  "in_milliseconds t = (if t \<noteq> 0 \<and> t < 10000000000 then t * 1000 else t)"

definition read_data :: "(string \<Rightarrow> string option) \<Rightarrow> sub_data" where
  "read_data el =
     \<lparr>sub_sId = attribute el ''data-sid'' '''', sub_subUrl = attribute el ''data-sub-url'' '''',
      sub_subJsonUrl = attribute el ''data-subjson-url'' '''', sub_subClashUrl = attribute el ''data-subclash-url'' '''',
      sub_download = attribute el ''data-download'' '''', sub_upload = attribute el ''data-upload'' '''',
      sub_used = attribute el ''data-used'' '''', sub_total = attribute el ''data-total'' '''',
      sub_remained = attribute el ''data-remained'' '''',
      sub_expireMs = number_attribute el ''data-expire'' * 1000,
      sub_lastOnlineMs = in_milliseconds (number_attribute el ''data-lastonline''),
      sub_downloadByte = number_attribute el ''data-downloadbyte'',
      sub_uploadByte = number_attribute el ''data-uploadbyte'',
      sub_totalByte = number_attribute el ''data-totalbyte'',
      sub_datepicker = attribute el ''data-datepicker'' ''gregorian''\<rparr>"

definition rawLinks :: "string \<Rightarrow> string list" where
  "rawLinks v = filter (\<lambda>s. s \<noteq> '''') (split_on (CHR 0x0A) v)"

section \<open>The computed properties\<close>

definition isMobile :: "int \<Rightarrow> bool" where
  "isMobile viewportWidth \<longleftrightarrow> viewportWidth < 576"

definition isUnlimited :: "sub_data \<Rightarrow> bool" where
  "isUnlimited d \<longleftrightarrow> sub_totalByte d = 0"

definition isActive :: "rat \<Rightarrow> sub_data \<Rightarrow> bool" where
  "isActive now d \<longleftrightarrow>
     (sub_expireMs d = 0 \<or> now \<le> sub_expireMs d) \<and>
     (sub_totalByte d = 0 \<or> sub_uploadByte d + sub_downloadByte d \<le> sub_totalByte d)"

definition shadowrocketUrl :: "sub_data \<Rightarrow> string" where
  "shadowrocketUrl d =
     ''shadowrocket://add/sub/'' @ btoa (sub_subUrl d @ ''?flag=shadowrocket'') @ ''?remark='' @
     encodeURIComponent (if sub_sId d = '''' then ''Subscription'' else sub_sId d)"

definition v2boxUrl :: "sub_data \<Rightarrow> string" where
  "v2boxUrl d = ''v2box://install-sub?url='' @ encodeURIComponent (sub_subUrl d) @ ''&name='' @ encodeURIComponent (sub_sId d)"

definition streisandUrl :: "sub_data \<Rightarrow> string" where
  "streisandUrl d = ''streisand://import/'' @ encodeURIComponent (sub_subUrl d)"

definition v2raytunUrl :: "sub_data \<Rightarrow> string" where
  "v2raytunUrl d = sub_subUrl d"

definition npvtunUrl :: "sub_data \<Rightarrow> string" where
  "npvtunUrl d = sub_subUrl d"

definition happUrl :: "sub_data \<Rightarrow> string" where
  "happUrl d = ''happ://add/'' @ sub_subUrl d"

section \<open>The name of a link\<close>

text \<open>
  What follows the first of a character, if there is one. The parameters are read by the URL class, which
  escapes what a query may not hold before it decodes the query.
\<close>

definition after_first :: "char \<Rightarrow> string \<Rightarrow> string option" where
  "after_first c s = (if c \<in> set s then Some (snd (cut c s)) else None)"

definition query_url :: "string \<Rightarrow> url option" where
  "query_url query = new_URL (\<lambda>s. Some s) (fragment_text (strip_link (''http://x/?'' @ query)))"

text \<open>None is an exception, or no name: both end in the number of the link.\<close>

definition vmess_name :: "string \<Rightarrow> jsv option" where
  "vmess_name payload =
     do { text_v \<leftarrow> atob payload;
          json \<leftarrow> json_parse text_v;
          ps \<leftarrow> js_get json ''ps'';
          (if truthy ps then Some ps
           else do { host \<leftarrow> js_get json ''add''; client \<leftarrow> js_get json ''id'';
                     if truthy host \<and> truthy client then Some host else None }) }"

definition user_name :: "string \<Rightarrow> string option" where
  "user_name link =
     (if CHR ''@'' \<in> set link
      then Some (drop (length (hd (split_seq ''://'' link)) + 3) (fst (cut (CHR ''@'') link))) else None)"

definition url_name :: "string \<Rightarrow> jsv option" where
  "url_name link =
     (case after_first (CHR ''#'') link of
        Some hash \<Rightarrow> map_option JStr (decodeURIComponent hash)
      | None \<Rightarrow>
          do { q \<leftarrow> (case after_first (CHR ''?'') link of
                       None \<Rightarrow> Some None
                     | Some query \<Rightarrow> do { u \<leftarrow> query_url query;
                         Some (if truthy (params_get u ''remark'') then Some (params_get u ''remark'')
                               else if truthy (params_get u ''email'') then Some (params_get u ''email'') else None) });
               (case q of Some name \<Rightarrow> Some name | None \<Rightarrow> map_option JStr (user_name link)) })"

definition linkName :: "string \<Rightarrow> nat \<Rightarrow> jsv" where
  "linkName link idx =
     (let name =
        (if starts_with ''vmess://'' link then vmess_name (drop 8 link)
         else if starts_with ''vless://'' link \<or> starts_with ''trojan://'' link then url_name link
         else if starts_with ''ss://'' link
         then (case after_first (CHR ''#'') link of Some hash \<Rightarrow> map_option JStr (decodeURIComponent hash) | None \<Rightarrow> None)
         else None)
      in case name of Some v \<Rightarrow> v | None \<Rightarrow> JStr (''Link '' @ show_nat (idx + 1)))"

section \<open>The names of generated links\<close>

lemma starts_append: "starts_with p (p @ s)"
  by (induction p) auto

lemma url_hash_found:
  assumes "clean_base base" and "remark \<noteq> ''''"
    and u_def: "u = \<lparr>u_base = base, u_params = ps, u_hash = encodeURIComponent remark\<rparr>"
  shows "after_first (CHR ''#'') (url_text u) = Some (encodeURIComponent remark)"
proof -
  define front where "front = base @ (if ps = [] then [] else CHR ''?'' # form_text ps)"
  have "CHR ''#'' \<notin> set base" using assms(1) by (auto simp: clean_base_def list_all_iff)
  moreover have "CHR ''#'' \<notin> set (form_text ps)" using form_text_chars query_char_facts by blast
  ultimately have f: "CHR ''#'' \<notin> set front" by (simp add: front_def)
  have "url_text u = front @ CHR ''#'' # encodeURIComponent remark"
    using assms(2) by (simp add: url_text_def url_hash_def u_def encoded_empty front_def)
  then show ?thesis using cut_at [OF f] by (simp add: after_first_def)
qed

lemma url_link_name:
  assumes scheme: "scheme \<in> {''vless'', ''trojan'', ''ss''}" and base: "plain_link canon scheme user address n"
    and ps: "json_int (JObj ps)" and remark: "remark \<noteq> ''''"
  shows "\<exists>link. link_text canon (link_base scheme (JStr user) (JStr address) (jint (int n))) ps (JStr remark) = Some link \<and>
    linkName link idx = JStr remark"
proof -
  let ?base = "scheme @ ''://'' @ user @ ''@'' @ address @ '':'' @ show_nat n"
  have w: "link_word user" "link_word address" and c: "canon ?base = Some ?base"
    using base by (simp_all add: plain_link_def Let_def)
  have lb: "link_base scheme (JStr user) (JStr address) (jint (int n)) = ?base"
    using show_rat_int [of "int n"] by (simp add: link_base_def)
  define u where "u = \<lparr>u_base = ?base, u_params = link_params ps, u_hash = encodeURIComponent remark\<rparr>"
  note clean = link_base_clean [OF w scheme, of n]
  note t = link_text_read(1) [where canon = canon, OF clean c ps u_def]
  have h: "after_first (CHR ''#'') (url_text u) = Some (encodeURIComponent remark)"
    by (rule url_hash_found [OF clean remark u_def])
  have name: "url_name (url_text u) = Some (JStr remark)" by (simp add: url_name_def h)
  obtain rest where rest: "url_text u = scheme @ ''://'' @ rest" by (simp add: url_text_def u_def)
  have "linkName (url_text u) idx = JStr remark"
    using scheme starts_append by (auto simp: linkName_def Let_def name h) (simp_all add: rest)
  with t show ?thesis unfolding lb by blast
qed

lemma vmess_remark:
  assumes "vmess_object i address port forceTls remark clientId security = Some ob"
  shows "look ob ''ps'' = remark"
proof -
  obtain t where t: "vmess_transport (ib_stream i) (vmess_base i address port (link_security i forceTls) remark clientId security) = Some t"
    "\<And>k. k \<notin> {''fm'', ''sni'', ''fp'', ''alpn''} \<Longrightarrow> look ob k = look t k"
    using vmess_parts [OF assms] by metis
  have "look ob ''ps'' = look t ''ps''" by (rule t(2)) simp
  also have "\<dots> = look (vmess_base i address port (link_security i forceTls) remark clientId security) ''ps''"
    by (rule transport_other [OF t(1)]) simp_all
  finally show ?thesis by (simp add: look_vmess_base)
qed

lemma vmess_link_name:
  assumes "json_int (JObj ob)" and "stringify 2 (JObj ob) = Some json" and "list_all (\<lambda>c. (of_char c :: nat) < 128) json"
    and "look ob ''ps'' = JStr remark" and "remark \<noteq> ''''"
  shows "linkName (''vmess://'' @ Base64_encode json False) idx = JStr remark"
proof -
  have w: "wire (JObj ob) = JObj ob" by (rule json_val_wire [OF json_int_val [OF assms(1)]])
  have p: "json_parse json = Some (JObj ob)" using json_parse_stringify [of "JObj ob"] assms(1,2) w by simp
  have a: "atob (Base64_encode json False) = Some json" using utf8_ascii [OF assms(3)] by (simp add: Base64_encode_def)
  have "vmess_name (Base64_encode json False) = Some (JStr remark)" by (simp add: vmess_name_def a p assms(4,5))
  then show ?thesis by (simp add: linkName_def)
qed

text \<open>
  A link whose parameters are texts, flags and whole numbers and whose user and address need no
  escaping; a VMess link whose object is ASCII.
\<close>

definition plain_client :: "(string \<Rightarrow> string option) \<Rightarrow> Inbound \<Rightarrow> jsv \<Rightarrow> string \<Rightarrow> client \<Rightarrow> string \<Rightarrow> nat \<Rightarrow> bool" where
  "plain_client canon i forceTls remark c address n \<longleftrightarrow>
     (if ib_protocol i = JStr ''vmess''
      then \<exists>ob json. vmess_object i (JStr address) (jint (int n)) forceTls (JStr remark) (client_id c) (client_security c) = Some ob \<and>
             json_int (JObj ob) \<and> stringify 2 (JObj ob) = Some json \<and> list_all (\<lambda>c. (of_char c :: nat) < 128) json
      else if ib_protocol i = JStr ''vless''
      then \<exists>ps u. vless_params i forceTls (client_flow c) = Some ps \<and> json_int (JObj ps) \<and> client_id c = JStr u \<and>
             plain_link canon ''vless'' u address n
      else if ib_protocol i = JStr ''trojan''
      then \<exists>ps u. trojan_params i forceTls = Some ps \<and> json_int (JObj ps) \<and> client_password c = JStr u \<and>
             plain_link canon ''trojan'' u address n
      else ib_protocol i = JStr ''shadowsocks'' \<and>
           (\<exists>ps info. ss_params i forceTls = Some ps \<and> json_int (JObj ps) \<and>
             ss_user_info i (if ib_isSSMultiUser i then client_password c else JStr '''') = Some info \<and>
             plain_link canon ''ss'' (Base64_encode info True) address n))"

lemma four_ways: "(if a then A else if b then B else if c then C else d \<and> D) \<Longrightarrow> a \<or> b \<or> c \<or> d"
  by (simp split: if_splits)

text \<open>
  C9: the subscription page shows the remark of a generated link. For a VMess, VLESS, Trojan or Shadowsocks
  client with plain data and a remark that is not empty, the inbound generates a link, and the name
  that the page finds in it is the remark, whatever characters the remark of a URL has.
\<close>
theorem link_name_remark:
  assumes "plain_client canon i forceTls remark c address n" and "remark \<noteq> ''''" and "forceTls \<noteq> JUndef"
  shows "\<exists>link. genLink canon i (JStr address) (jint (int n)) forceTls (JStr remark) (Some c) = Some link \<and>
    linkName link idx = JStr remark"
proof -
  let ?P = "ib_protocol i"
  consider "?P = JStr ''vmess''" | "?P = JStr ''vless''" | "?P = JStr ''trojan''" | "?P = JStr ''shadowsocks''"
    using four_ways [OF assms(1) [unfolded plain_client_def]] by blast
  then show ?thesis
  proof cases
    case 1
    then obtain ob json where ob: "vmess_object i (JStr address) (jint (int n)) forceTls (JStr remark) (client_id c) (client_security c) = Some ob"
      "json_int (JObj ob)" "stringify 2 (JObj ob) = Some json" "list_all (\<lambda>c. (of_char c :: nat) < 128) json"
      using assms(1) by (auto simp: plain_client_def)
    have "genVmessLink i (JStr address) (jint (int n)) forceTls (JStr remark) (client_id c) (client_security c) =
        Some (''vmess://'' @ Base64_encode json False)"
      by (simp add: genVmessLink_def 1 ob(1,3) del: of_int_of_nat_eq)
    with vmess_link_name [OF ob(2,3,4) vmess_remark [OF ob(1)] assms(2)] show ?thesis by (simp add: genLink_def 1 assms(3))
  next
    case 2
    then obtain ps u where ps: "vless_params i forceTls (client_flow c) = Some ps" "json_int (JObj ps)" "client_id c = JStr u"
      "plain_link canon ''vless'' u address n"
      using assms(1) by (auto simp: plain_client_def)
    then show ?thesis
      using url_link_name [OF _ ps(4,2) assms(2), of idx] by (simp add: genLink_def 2 assms(3) genVLESSLink_def)
  next
    case 3
    then obtain ps u where ps: "trojan_params i forceTls = Some ps" "json_int (JObj ps)" "client_password c = JStr u"
      "plain_link canon ''trojan'' u address n"
      using assms(1) by (auto simp: plain_client_def)
    then show ?thesis
      using url_link_name [OF _ ps(4,2) assms(2), of idx] by (simp add: genLink_def 3 assms(3) genTrojanLink_def)
  next
    case 4
    then obtain ps info where ps: "ss_params i forceTls = Some ps" "json_int (JObj ps)"
      "ss_user_info i (if ib_isSSMultiUser i then client_password c else JStr '''') = Some info"
      "plain_link canon ''ss'' (Base64_encode info True) address n"
      using assms(1) by (auto simp: plain_client_def)
    then show ?thesis
      using url_link_name [OF _ ps(4,2) assms(2), of idx]
      by (cases "ib_isSSMultiUser i") (simp_all add: genLink_def 4 assms(3) genSSLink_def)
  qed
qed

definition sample_trojan :: client where
  "sample_trojan = CTrojan \<lparr>tj_password = JStr sample_user,
     tj_base = \<lparr>cb_email = JStr ''alice'', cb_limitIp = jint 0, cb_totalGB = jint 0, cb_expiryTime = jint 0, cb_enable = JBool True,
       cb_tgId = JStr '''', cb_subId = JStr '''', cb_comment = JStr '''', cb_reset = jint 0, cb_created_at = JUndef,
       cb_updated_at = JUndef\<rparr>\<rparr>"

theorem link_name_remark_witness:
  "\<exists>link. genLink Some (link_inbound ''trojan'' NoSettings) (JStr ''a.example'') (jint (int 443)) (JStr ''same'') (JStr ''home & away'')
      (Some sample_trojan) = Some link \<and> linkName link 0 = JStr ''home & away''"
proof -
  define i where "i = link_inbound ''trojan'' NoSettings"
  have s: "link_security i (JStr ''same'') = JStr ''none''" by (simp add: link_security_def i_def link_inbound_parts)
  have p: "trojan_params i (JStr ''same'') = Some
      [(''type'', JStr ''grpc''), (''serviceName'', JStr ''''), (''authority'', JStr ''''), (''security'', JStr ''none'')]"
    by (simp add: trojan_params_def s)
       (simp add: i_def link_inbound_parts link_transport_def grpc_defaults applyFinalMaskToParams_def no_link_mask set_if_def)
  have "plain_client Some i (JStr ''same'') ''home & away'' sample_trojan ''a.example'' 443"
    using sample_words(3) p
    by (simp add: plain_client_def client_password_def sample_trojan_def i_def link_inbound_parts)
  from link_name_remark [OF this, of 0] show ?thesis unfolding i_def by simp
qed

end
