(* ===== verification/Formatters.thy ===== *)
theory Formatters
  imports JsConvert
begin

text \<open>
  The formatters, colours and the debouncer of web/assets/js/util/index.js. Numbers are
  rationals, so a quotient is exact where the code has the nearest double.
\<close>

section \<open>Number.prototype.toFixed\<close>

text \<open>The integer nearest to x * 10^f, the larger of two, with the point put into its digits.\<close>

definition fixed_digits :: "nat \<Rightarrow> rat \<Rightarrow> string" where
  "fixed_digits f x =
     (let m = show_nat (nat (rat_floor (x * 10 ^ f + 1 / 2))) in
      if f = 0 then m
      else (let m = replicate (Suc f - length m) (CHR ''0'') @ m; k = length m - f
            in take k m @ ''.'' @ drop k m))"

definition toFixed :: "nat \<Rightarrow> rat \<Rightarrow> string" where
  "toFixed f x =
     (let a = \<bar>x\<bar>; s = (if a < 10 ^ 21 then fixed_digits f a else show_rat a)
      in if x < 0 then CHR ''-'' # s else s)"

section \<open>SizeFormatter and CPUFormatter\<close>

definition ONE_KB :: rat where "ONE_KB = 1024"
definition ONE_MB :: rat where "ONE_MB = ONE_KB * 1024"
definition ONE_GB :: rat where "ONE_GB = ONE_MB * 1024"
definition ONE_TB :: rat where "ONE_TB = ONE_GB * 1024"
definition ONE_PB :: rat where "ONE_PB = ONE_TB * 1024"

lemmas size_units = ONE_KB_def ONE_MB_def ONE_GB_def ONE_TB_def ONE_PB_def

definition sizeFormat :: "rat \<Rightarrow> string" where
  "sizeFormat sz =
     (if sz \<le> 0 then ''0 B''
      else if sz < ONE_KB then toFixed 0 sz @ '' B''
      else if sz < ONE_MB then toFixed 2 (sz / ONE_KB) @ '' KB''
      else if sz < ONE_GB then toFixed 2 (sz / ONE_MB) @ '' MB''
      else if sz < ONE_TB then toFixed 2 (sz / ONE_GB) @ '' GB''
      else if sz < ONE_PB then toFixed 2 (sz / ONE_TB) @ '' TB''
      else toFixed 2 (sz / ONE_PB) @ '' PB'')"

text \<open>The unit behind a suffix, and the number of decimals shown with it.\<close>

definition unit_table :: "(string \<times> rat \<times> nat) list" where
  "unit_table = [('' B'', 1, 0), ('' KB'', ONE_KB, 2), ('' MB'', ONE_MB, 2), ('' GB'', ONE_GB, 2), ('' TB'', ONE_TB, 2),
     ('' PB'', ONE_PB, 2)]"

lemma sizeFormat_unit:
  assumes "0 < sz"
  shows "\<exists>x u c f. (u, c, f) \<in> set unit_table \<and> sizeFormat sz = toFixed f x @ u \<and> x * c = sz \<and>
    (u \<noteq> '' PB'' \<longrightarrow> x < 1024) \<and> (u \<noteq> '' B'' \<longrightarrow> 1 \<le> x)"
proof -
  have "\<not> sz \<le> 0" using assms by simp
  then consider "sz < ONE_KB" | "ONE_KB \<le> sz" "sz < ONE_MB" | "ONE_MB \<le> sz" "sz < ONE_GB"
    | "ONE_GB \<le> sz" "sz < ONE_TB" | "ONE_TB \<le> sz" "sz < ONE_PB" | "ONE_PB \<le> sz"
    by linarith
  then show ?thesis
  proof cases
    case 1
    with assms show ?thesis
      by (intro exI [of _ sz] exI [of _ "'' B''"] exI [of _ 1] exI [of _ 0])
        (simp add: sizeFormat_def unit_table_def size_units)
  next
    case 2
    with assms show ?thesis
      by (intro exI [of _ "sz / ONE_KB"] exI [of _ "'' KB''"] exI [of _ ONE_KB] exI [of _ 2])
        (simp add: sizeFormat_def unit_table_def size_units)
  next
    case 3
    with assms show ?thesis
      by (intro exI [of _ "sz / ONE_MB"] exI [of _ "'' MB''"] exI [of _ ONE_MB] exI [of _ 2])
        (simp add: sizeFormat_def unit_table_def size_units)
  next
    case 4
    with assms show ?thesis
      by (intro exI [of _ "sz / ONE_GB"] exI [of _ "'' GB''"] exI [of _ ONE_GB] exI [of _ 2])
        (simp add: sizeFormat_def unit_table_def size_units)
  next
    case 5
    with assms show ?thesis
      by (intro exI [of _ "sz / ONE_TB"] exI [of _ "'' TB''"] exI [of _ ONE_TB] exI [of _ 2])
        (simp add: sizeFormat_def unit_table_def size_units)
  next
    case 6
    with assms show ?thesis
      by (intro exI [of _ "sz / ONE_PB"] exI [of _ "'' PB''"] exI [of _ ONE_PB] exI [of _ 2])
        (simp add: sizeFormat_def unit_table_def size_units)
  qed
qed

definition cpuSpeedFormat :: "rat \<Rightarrow> string" where
  "cpuSpeedFormat speed =
     (if 1000 < speed then toFixed 2 (speed / 1000) @ '' GHz'' else toFixed 2 speed @ '' MHz'')"

definition cpuCoreFormat :: "jsv \<Rightarrow> string" where
  "cpuCoreFormat cores = (if cores = jint 1 then ''1 Core'' else js_to_string cores @ '' Cores'')"

section \<open>TimeFormatter and NumberFormatter\<close>

text \<open>Days, and the hours that remain, which \<open>toFixed\<close> rounds.\<close>

definition second_days :: "rat \<Rightarrow> int" where
  "second_days second = rat_floor (second / 3600 / 24)"

definition remain_hours :: "rat \<Rightarrow> rat" where
  "remain_hours second = second / 3600 - of_int (second_days second) * 24"

definition formatSecond :: "rat \<Rightarrow> string" where
  "formatSecond second =
     (if second < 60 then toFixed 0 second @ ''s''
      else if second < 3600 then toFixed 0 (second / 60) @ ''m''
      else if second < 3600 * 24 then toFixed 0 (second / 3600) @ ''h''
      else (let day = second_days second; remain = toFixed 0 (remain_hours second)
            in show_rat (of_int day) @ ''d'' @
               (if js_gt (JStr remain) (jint 0) then '' '' @ remain @ ''h'' else '''')))"

lemma remain_hours_range: "0 \<le> remain_hours second" "remain_hours second < 24"
proof -
  define d where "d = second / 3600 / 24"
  have "of_int \<lfloor>d\<rfloor> \<le> d" "d < of_int \<lfloor>d\<rfloor> + 1" using floor_correct [of d] by simp_all
  then show "0 \<le> remain_hours second" "remain_hours second < 24"
    unfolding remain_hours_def second_days_def rat_floor_floor d_def by (simp_all add: field_simps)
qed

definition addZero :: "jsv \<Rightarrow> jsv" where
  "addZero num = (if js_lt num (jint 10) then JStr (CHR ''0'' # js_to_string num) else num)"

section \<open>ColorUtils\<close>

text \<open>The traffic of a client against its limit; None is the null for no data.\<close>

definition usageColor :: "rat option \<Rightarrow> rat \<Rightarrow> rat \<Rightarrow> string" where
  "usageColor data threshold tot =
     (case data of None \<Rightarrow> ''purple''
      | Some d \<Rightarrow>
         if tot < 0 then ''green''
         else if tot = 0 then ''purple''
         else if d < tot - threshold then ''green''
         else if d < tot then ''orange''
         else ''red'')"

record client_stats =
  cst_up :: rat
  cst_down :: rat
  cst_total :: rat

definition clientUsageColor :: "client_stats option \<Rightarrow> rat \<Rightarrow> string" where
  "clientUsageColor clientStats trafficDiff =
     (case clientStats of None \<Rightarrow> ''#7a316f''
      | Some s \<Rightarrow>
         if cst_total s = 0 then ''#7a316f''
         else if cst_up s + cst_down s < cst_total s - trafficDiff then ''#008771''
         else if cst_up s + cst_down s < cst_total s then ''#f37b24''
         else ''#cf3c3c'')"

text \<open>The expiry of a client at the time \<open>now\<close>; a negative one has not started, zero is none.\<close>

definition userExpiryColor :: "rat \<Rightarrow> rat \<Rightarrow> bool \<Rightarrow> rat option \<Rightarrow> bool \<Rightarrow> string" where
  "userExpiryColor now threshold enable expiryTime isDark =
     (if \<not> enable then (if isDark then ''#2c3950'' else ''#bcbcbc'')
      else case expiryTime of None \<Rightarrow> ''#7a316f''
      | Some e \<Rightarrow>
         if e < 0 then ''#008771''
         else if e = 0 then ''#7a316f''
         else if now < e - threshold then ''#008771''
         else if now < e then ''#f37b24''
         else ''#cf3c3c'')"

text \<open>How alarming a colour is.\<close>

definition severity :: "string \<Rightarrow> nat" where
  "severity c = (if c = ''orange'' \<or> c = ''#f37b24'' then 1 else if c = ''red'' \<or> c = ''#cf3c3c'' then 2 else 0)"

lemma usage_severity:
  "0 < tot \<Longrightarrow> 0 \<le> threshold \<Longrightarrow>
   severity (usageColor (Some d) threshold tot) = (if d < tot - threshold then 0 else if d < tot then 1 else 2)"
  by (simp add: usageColor_def severity_def)

section \<open>Utils.debounce\<close>

text \<open>
  The closure keeps one timer. A call cancels the timer that is running and starts a new one
  with its own arguments; when a timer runs out, the function is called with those.
\<close>

record 'a debounced =
  db_pending :: "'a option"
  db_calls :: "'a list"

datatype 'a db_event = Call 'a | Timeout

fun debounce_step :: "'a debounced \<Rightarrow> 'a db_event \<Rightarrow> 'a debounced" where
  "debounce_step s (Call args) = s\<lparr>db_pending := Some args\<rparr>"
| "debounce_step s Timeout =
     (case db_pending s of None \<Rightarrow> s
      | Some args \<Rightarrow> s\<lparr>db_pending := None, db_calls := db_calls s @ [args]\<rparr>)"

definition debounce_run :: "'a debounced \<Rightarrow> 'a db_event list \<Rightarrow> 'a debounced" where
  "debounce_run s es = foldl debounce_step s es"

definition debounce :: "'a debounced" where
  "debounce = \<lparr>db_pending = None, db_calls = []\<rparr>"

lemma debounce_burst:
  "args \<noteq> [] \<Longrightarrow> debounce_run s (map Call args) = s\<lparr>db_pending := Some (last args)\<rparr>"
proof (induction args rule: rev_induct)
  case (snoc a args)
  then show ?case by (cases "args = []") (simp_all add: debounce_run_def)
qed simp

lemma debounce_calls_bound:
  "length (db_calls (debounce_run s es)) + (if db_pending (debounce_run s es) = None then 0 else 1) \<le>
   length (db_calls s) + (if db_pending s = None then 0 else 1) + length (filter (\<lambda>e. e \<noteq> Timeout) es)"
proof (induction es arbitrary: s)
  case (Cons e es)
  show ?case
    using Cons [of "debounce_step s e"] by (cases e) (auto simp: debounce_run_def split: option.splits if_splits)
qed (simp add: debounce_run_def)

text \<open>
  A size is shown in the unit that fits it. For a positive size \<open>sizeFormat\<close> prints a
  quotient by one of its units whose product with the unit is the size; it is below 1024
  except in the largest unit, and at least 1 except in the smallest.
\<close>
theorem sizeFormat_fitting_unit:
  assumes "0 < sz"
  shows "\<exists>x u c f. (u, c, f) \<in> set unit_table \<and> sizeFormat sz = toFixed f x @ u \<and> x * c = sz \<and>
    (u \<noteq> '' PB'' \<longrightarrow> x < 1024) \<and> (u \<noteq> '' B'' \<longrightarrow> 1 \<le> x)"
  by (rule sizeFormat_unit [OF assms])

theorem sizeFormat_fitting_unit_witness:
  "sizeFormat 1536 = ''1.50 KB'' \<and>
   (\<exists>x u c f. (u, c, f) \<in> set unit_table \<and> sizeFormat 1536 = toFixed f x @ u \<and> x * c = 1536 \<and>
      (u \<noteq> '' PB'' \<longrightarrow> x < 1024) \<and> (u \<noteq> '' B'' \<longrightarrow> 1 \<le> x))"
  by (rule conjI, code_simp, rule sizeFormat_fitting_unit) simp

lemma formatSecond_last: "formatSecond 172799 = ''1d 24h''"
  by code_simp

text \<open>
  A duration of a day or more is split without loss into whole days and a rest of less
  than a day. The rest is rounded only when it is printed, so the last half hour of a day
  reads as 24 hours: 172799 seconds are shown as one day and 24 hours.
\<close>
theorem formatSecond_days:
  assumes "86400 \<le> second"
  shows "\<exists>h. 0 \<le> h \<and> h < 24 \<and> (of_int (second_days second) * 24 + h) * 3600 = second \<and>
    1 \<le> second_days second \<and>
    formatSecond second = show_rat (of_int (second_days second)) @ ''d'' @
      (if js_gt (JStr (toFixed 0 h)) (jint 0) then '' '' @ toFixed 0 h @ ''h'' else '''') \<and>
    formatSecond 172799 = ''1d 24h''"
proof -
  have "1 \<le> second_days second"
    using assms by (simp add: second_days_def rat_floor_floor le_floor_iff)
  moreover have "(of_int (second_days second) * 24 + remain_hours second) * 3600 = second"
    by (simp add: remain_hours_def)
  moreover have "formatSecond second = show_rat (of_int (second_days second)) @ ''d'' @
      (if js_gt (JStr (toFixed 0 (remain_hours second))) (jint 0) then '' '' @ toFixed 0 (remain_hours second) @ ''h''
       else '''')"
    using assms by (simp add: formatSecond_def Let_def)
  ultimately show ?thesis
    using remain_hours_range [of second] formatSecond_last by (intro exI [of _ "remain_hours second"]) simp
qed

theorem formatSecond_days_witness:
  "\<exists>h. 0 \<le> h \<and> h < 24 \<and> (of_int (second_days 90000) * 24 + h) * 3600 = 90000 \<and>
    1 \<le> second_days 90000 \<and>
    formatSecond 90000 = show_rat (of_int (second_days 90000)) @ ''d'' @
      (if js_gt (JStr (toFixed 0 h)) (jint 0) then '' '' @ toFixed 0 h @ ''h'' else '''') \<and>
    formatSecond 172799 = ''1d 24h''"
  by (rule formatSecond_days) simp

text \<open>
  A debounced function is called once for a burst, with the arguments of its last call.
  However calls and the running out of the timer follow each other, the function is called
  at most once for every call of the wrapper.
\<close>
theorem debounce_last_call:
  "db_calls (debounce_run s (map Call (args @ [a]) @ [Timeout])) = db_calls s @ [a] \<and>
   length (db_calls (debounce_run debounce es)) \<le> length (filter (\<lambda>e. e \<noteq> Timeout) es)"
proof -
  have "debounce_run s (map Call (args @ [a]) @ [Timeout]) = debounce_step (debounce_run s (map Call (args @ [a]))) Timeout"
    by (simp add: debounce_run_def)
  moreover have "debounce_run s (map Call (args @ [a])) = s\<lparr>db_pending := Some a\<rparr>"
    using debounce_burst [of "args @ [a]" s] by simp
  ultimately show ?thesis using debounce_calls_bound [of debounce es] by (simp add: debounce_def)
qed

text \<open>
  The colours of a client get no milder as its traffic grows, and the two functions that
  colour it agree: for a limit that is not negative \<open>clientUsageColor\<close> and \<open>usageColor\<close> of the
  sum of both directions are equally alarming.
\<close>
lemma usage_colours_agree:
  assumes "0 \<le> cst_total s" and "0 \<le> threshold" and "d \<le> d'"
  shows "severity (usageColor (Some d) threshold tot) \<le> severity (usageColor (Some d') threshold tot) \<and>
    severity (clientUsageColor (Some s) threshold) =
      severity (usageColor (Some (cst_up s + cst_down s)) threshold (cst_total s))"
  using assms by (auto simp: usageColor_def clientUsageColor_def severity_def)

end
