(* ===== verification/DbInbound.thy ===== *)
theory DbInbound
  imports InLinks ObjectUtil Formatters
begin

text \<open>
  DBInbound (web/assets/js/model/dbinbound.js), the row that the server sends for an inbound: its
  settings, stream settings and sniffing are texts, from which an Inbound is made when it is needed and
  kept until the row changes. AllSetting (web/assets/js/model/setting.js) is the form of the panel's own
  settings.
\<close>

section \<open>The row\<close>

text \<open>
  The properties that the constructor gives a row, as an object; the two caches are properties too,
  which are only written by methods.
\<close>

definition db_defaults :: entries where
  "db_defaults =
     [(''id'', jint 0), (''userId'', jint 0), (''up'', jint 0), (''down'', jint 0), (''total'', jint 0), (''allTime'', jint 0),
      (''remark'', JStr ''''), (''enable'', JBool True), (''expiryTime'', jint 0), (''trafficReset'', JStr ''never''),
      (''lastTrafficResetTime'', jint 0), (''listen'', JStr ''''), (''port'', jint 0), (''protocol'', JStr ''''),
      (''settings'', JStr ''''), (''streamSettings'', JStr ''''), (''tag'', JStr ''''), (''sniffing'', JStr ''''),
      (''clientStats'', JStr '''')]"

record DBInbound =
  db_props :: entries
  db_cachedInbound :: "Inbound option"
  db_clientStatsMap :: "(jsv \<times> jsv) list option"

definition new_DBInbound :: "jsv \<Rightarrow> DBInbound" where
  "new_DBInbound data =
     \<lparr>db_props = (if is_nullish data then db_defaults else own_entries (cloneProps (JObj db_defaults) data [])),
      db_cachedInbound = None, db_clientStatsMap = None\<rparr>"

definition db_get :: "DBInbound \<Rightarrow> string \<Rightarrow> jsv" where
  "db_get x k = look (db_props x) k"

definition db_set :: "DBInbound \<Rightarrow> string \<Rightarrow> jsv \<Rightarrow> DBInbound" where
  "db_set x k v = x\<lparr>db_props := obj_set (db_props x) k v\<rparr>"

subsection \<open>Accessors\<close>

text \<open>\<open>NumberFormatter.toFixed\<close>, and arithmetic with a number of bytes.\<close>

definition NumberFormatter_toFixed :: "jnum \<Rightarrow> nat \<Rightarrow> jnum" where
  "NumberFormatter_toFixed num n =
     (case num of Fin q \<Rightarrow> Fin (of_int (rat_floor (q * 10 ^ n)) / 10 ^ n) | v \<Rightarrow> v)"

definition scaled :: "rat \<Rightarrow> jnum \<Rightarrow> jnum" where
  "scaled c num = (case num of Fin q \<Rightarrow> Fin (c * q) | v \<Rightarrow> v)"

definition db_totalGB :: "DBInbound \<Rightarrow> jsv" where
  "db_totalGB x = JNum (NumberFormatter_toFixed (scaled (1 / ONE_GB) (js_to_number (db_get x ''total''))) 2)"

definition db_set_totalGB :: "jsv \<Rightarrow> DBInbound \<Rightarrow> DBInbound" where
  "db_set_totalGB gb x = db_set x ''total'' (JNum (NumberFormatter_toFixed (scaled ONE_GB (js_to_number gb)) 0))"

definition db_isVMess :: "DBInbound \<Rightarrow> bool" where "db_isVMess x \<longleftrightarrow> db_get x ''protocol'' = JStr ''vmess''"
definition db_isVLess :: "DBInbound \<Rightarrow> bool" where "db_isVLess x \<longleftrightarrow> db_get x ''protocol'' = JStr ''vless''"
definition db_isTrojan :: "DBInbound \<Rightarrow> bool" where "db_isTrojan x \<longleftrightarrow> db_get x ''protocol'' = JStr ''trojan''"
definition db_isSS :: "DBInbound \<Rightarrow> bool" where "db_isSS x \<longleftrightarrow> db_get x ''protocol'' = JStr ''shadowsocks''"
definition db_isMixed :: "DBInbound \<Rightarrow> bool" where "db_isMixed x \<longleftrightarrow> db_get x ''protocol'' = JStr ''mixed''"
definition db_isHTTP :: "DBInbound \<Rightarrow> bool" where "db_isHTTP x \<longleftrightarrow> db_get x ''protocol'' = JStr ''http''"
definition db_isWireguard :: "DBInbound \<Rightarrow> bool" where "db_isWireguard x \<longleftrightarrow> db_get x ''protocol'' = JStr ''wireguard''"
definition db_isL2tp :: "DBInbound \<Rightarrow> bool" where "db_isL2tp x \<longleftrightarrow> db_get x ''protocol'' = JStr ''l2tp''"
definition db_isPptp :: "DBInbound \<Rightarrow> bool" where "db_isPptp x \<longleftrightarrow> db_get x ''protocol'' = JStr ''pptp''"
definition db_isOpenvpn :: "DBInbound \<Rightarrow> bool" where "db_isOpenvpn x \<longleftrightarrow> db_get x ''protocol'' = JStr ''openvpn''"

definition db_address :: "string \<Rightarrow> DBInbound \<Rightarrow> jsv" where
  "db_address hostname x =
     (if \<not> isEmpty (db_get x ''listen'') \<and> db_get x ''listen'' \<noteq> JStr ''0.0.0.0'' then db_get x ''listen'' else JStr hostname)"

text \<open>A moment of the moment library is kept as the value it was made of.\<close>

definition db_expiry :: "DBInbound \<Rightarrow> expiry_view" where
  "db_expiry x = (if db_get x ''expiryTime'' = jint 0 then NoExpiry else OnDate (db_get x ''expiryTime''))"

definition db_set_expiry :: "jsv \<Rightarrow> DBInbound \<Rightarrow> DBInbound" where
  "db_set_expiry t x = db_set x ''expiryTime'' (if is_nullish t then jint 0 else t)"

definition db_isExpiry :: "rat \<Rightarrow> DBInbound \<Rightarrow> bool" where
  "db_isExpiry now x \<longleftrightarrow> js_lt (db_get x ''expiryTime'') (JNum (Fin now))"

subsection \<open>The inbound of a row\<close>

definition invalidateCache :: "DBInbound \<Rightarrow> DBInbound" where
  "invalidateCache x = x\<lparr>db_cachedInbound := None, db_clientStatsMap := None\<rparr>"

text \<open>\<open>if (!isEmpty(text)) v = JSON.parse(text)\<close>, with the empty object otherwise.\<close>

definition parsed_part :: "jsv \<Rightarrow> jsv option" where
  "parsed_part v = (if isEmpty v then Some (JObj []) else json_parse (js_to_string v))"

definition db_config :: "DBInbound \<Rightarrow> jsv option" where
  "db_config x =
     do { settings \<leftarrow> parsed_part (db_get x ''settings'');
          streamSettings \<leftarrow> parsed_part (db_get x ''streamSettings'');
          sniffing \<leftarrow> parsed_part (db_get x ''sniffing'');
          Some (JObj [(''port'', db_get x ''port''), (''listen'', db_get x ''listen''), (''protocol'', db_get x ''protocol''),
            (''settings'', settings), (''streamSettings'', streamSettings), (''tag'', db_get x ''tag''),
            (''sniffing'', sniffing), (''clientStats'', db_get x ''clientStats'')]) }"

definition toInbound :: "DBInbound \<Rightarrow> world \<Rightarrow> (Inbound \<times> DBInbound \<times> world) option" where
  "toInbound x w =
     (case db_cachedInbound x of
        Some i \<Rightarrow> Some (i, x, w)
      | None \<Rightarrow>
          do { config \<leftarrow> db_config x;
               (i, w) \<leftarrow> Inbound_fromJson config w;
               Some (i, x\<lparr>db_cachedInbound := Some i\<rparr>, w) })"

text \<open>A Map, as a list of its pairs: \<open>set\<close> overwrites the value of the same key.\<close>

fun map_set :: "(jsv \<times> jsv) list \<Rightarrow> jsv \<Rightarrow> jsv \<Rightarrow> (jsv \<times> jsv) list" where
  "map_set [] k v = [(k, v)]"
| "map_set ((k', v') # m) k v = (if same_value k' k then (k', v) # m else (k', v') # map_set m k v)"

definition map_get :: "(jsv \<times> jsv) list \<Rightarrow> jsv \<Rightarrow> jsv" where
  "map_get m k = (case find (\<lambda>e. same_value (fst e) k) m of Some e \<Rightarrow> snd e | None \<Rightarrow> JUndef)"

text \<open>The entries before one that throws, which is null or undefined, are in the map already.\<close>

fun stats_map :: "jsv list \<Rightarrow> (jsv \<times> jsv) list \<Rightarrow> (jsv \<times> jsv) list \<times> bool" where
  "stats_map [] m = (m, True)"
| "stats_map (s # ss) m =
     (case js_get s ''email'' of Some email \<Rightarrow> stats_map ss (map_set m email s) | None \<Rightarrow> (m, False))"

definition getClientStats :: "DBInbound \<Rightarrow> jsv \<Rightarrow> jsv option \<times> DBInbound" where
  "getClientStats x email =
     (case db_clientStatsMap x of
        Some m \<Rightarrow> (Some (map_get m email), x)
      | None \<Rightarrow>
          (let (m, all_read) = (case db_get x ''clientStats'' of JArr ss \<Rightarrow> stats_map ss [] | _ \<Rightarrow> ([], True))
           in (if all_read then Some (map_get m email) else None, x\<lparr>db_clientStatsMap := Some m\<rparr>)))"

definition db_isMultiUser :: "DBInbound \<Rightarrow> world \<Rightarrow> (bool \<times> DBInbound \<times> world) option" where
  "db_isMultiUser x w =
     (if one_of (db_get x ''protocol'')
           [''vmess'', ''vless'', ''trojan'', ''hysteria'', ''l2tp'', ''pptp'', ''openvpn'', ''openconnect'', ''sstp'']
      then Some (True, x, w)
      else if db_get x ''protocol'' = JStr ''shadowsocks''
      then do { (i, x, w) \<leftarrow> toInbound x w; Some (ib_isSSMultiUser i, x, w) }
      else Some (False, x, w))"

definition db_hasLink :: "DBInbound \<Rightarrow> bool" where
  "db_hasLink x \<longleftrightarrow> one_of (db_get x ''protocol'') [''vmess'', ''vless'', ''trojan'', ''shadowsocks'', ''hysteria'']"

definition db_genInboundLinks ::
  "(string \<Rightarrow> string option) \<Rightarrow> string \<Rightarrow> DBInbound \<Rightarrow> string \<Rightarrow> world \<Rightarrow> (string \<times> DBInbound \<times> world) option" where
  "db_genInboundLinks canon hostname x remarkModel w =
     do { (i, x, w) \<leftarrow> toInbound x w;
          links \<leftarrow> genInboundLinks canon hostname i (db_get x ''remark'') remarkModel;
          Some (links, x, w) }"


section \<open>A saved inbound comes back from its row\<close>

text \<open>
  The row that the server keeps of a saved inbound: five properties as they are and three as
  texts, which are empty where the inbound sends nothing.
\<close>

definition part_text :: "bool \<Rightarrow> jsv \<Rightarrow> string \<Rightarrow> jsv" where
  "part_text format v k = (case xray_toString format (js_get_opt v k) of Some s \<Rightarrow> JStr s | None \<Rightarrow> JStr '''')"

definition row_of :: "bool \<Rightarrow> jsv \<Rightarrow> entries \<Rightarrow> bool" where
  "row_of format v data \<longleftrightarrow> distinct (keys data) \<and>
     list_all (\<lambda>k. look data k = js_get_opt v k) [''port'', ''listen'', ''protocol'', ''tag'', ''clientStats''] \<and>
     list_all (\<lambda>k. look data k = part_text format v k) [''settings'', ''streamSettings'', ''sniffing'']"

lemma row_get:
  "distinct (keys data) \<Longrightarrow> k \<in> set (keys db_defaults) \<Longrightarrow> look data k \<noteq> JUndef \<Longrightarrow>
     db_get (new_DBInbound (JObj data)) k = look data k"
  by (auto simp: db_get_def new_DBInbound_def cloneProps_look look_notin)

lemma parsed_text:
  assumes "json_int (wire v)" and "v \<noteq> JUndef"
  shows "\<exists>s. xray_toString format v = Some s \<and> parsed_part (JStr s) = Some (wire v)"
proof -
  obtain s where s: "xray_toString format v = Some s" using assms(2) by (simp add: xray_toString_def stringify_def)
  have p: "json_parse s = Some (wire v)" by (rule xray_toString_parse [OF assms(1) s])
  have "json_parse '''' = None" by code_simp
  with p have "s \<noteq> ''''" by auto
  with s p show ?thesis by (simp add: parsed_part_def isEmpty_def)
qed

lemma parsed_part_text:
  assumes "js_get_opt v k \<noteq> JUndef \<Longrightarrow> json_int (wire (js_get_opt v k))"
  shows "parsed_part (part_text format v k) = Some (if js_get_opt v k = JUndef then JObj [] else wire (js_get_opt v k))"
proof (cases "js_get_opt v k = JUndef")
  case True
  then show ?thesis by (simp add: part_text_def xray_toString_def stringify_def parsed_part_def isEmpty_def)
next
  case False
  then show ?thesis using parsed_text [OF assms [OF False] False, of format] by (auto simp: part_text_def)
qed

lemma stream_from_empty: "StreamSettings_fromJson (JObj []) w = StreamSettings_fromJson JUndef w"
  by (simp add: StreamSettings_fromJson_def)


lemma json_int_part:
  assumes "json_int (JObj es)" and "look es k = wire p" and "p \<noteq> JUndef"
  shows "json_int (wire p)"
proof -
  have "look es k \<noteq> JUndef" using assms by simp
  then have "map_of es k = Some (wire p)" using assms(2) by (cases "map_of es k") (simp_all add: look_def)
  then show ?thesis using assms(1) map_of_SomeD by fastforce
qed

text \<open>What loading an inbound reads of its configuration.\<close>

lemma Inbound_fromJson_cong:
  assumes "list_all (\<lambda>k. js_get a k = js_get b k)
      [''port'', ''listen'', ''protocol'', ''settings'', ''tag'', ''sniffing'', ''clientStats'']"
    and "js_get a ''streamSettings'' = js_get b ''streamSettings'' \<or>
      js_get a ''streamSettings'' = Some (JObj []) \<and> js_get b ''streamSettings'' = Some JUndef"
    and "a \<noteq> JUndef" and "b \<noteq> JUndef"
  shows "Inbound_fromJson a w = Inbound_fromJson b w"
proof -
  have e: "js_get a ''port'' = js_get b ''port''" "js_get a ''listen'' = js_get b ''listen''"
    "js_get a ''protocol'' = js_get b ''protocol''" "js_get a ''settings'' = js_get b ''settings''"
    "js_get a ''tag'' = js_get b ''tag''" "js_get a ''sniffing'' = js_get b ''sniffing''"
    "js_get a ''clientStats'' = js_get b ''clientStats''"
    using assms(1) by simp_all
  show ?thesis
  proof (cases "js_get a ''streamSettings'' = js_get b ''streamSettings''")
    case True
    show ?thesis unfolding Inbound_fromJson_def Let_def dflt_simps(2) [OF assms(3)] dflt_simps(2) [OF assms(4)] e True by (rule refl)
  next
    case False
    then have st: "js_get a ''streamSettings'' = Some (JObj [])" "js_get b ''streamSettings'' = Some JUndef"
      using assms(2) by auto
    show ?thesis
      unfolding Inbound_fromJson_def Let_def dflt_simps(2) [OF assms(3)] dflt_simps(2) [OF assms(4)] e st
        bind.bind_lunit stream_from_empty
      by (rule refl)
  qed
qed


lemma row_config:
  assumes ok: "Inbound_ok i" and enc: "Inbound_toJson i = Some (v, j)" and int: "json_int (wire v)" and row: "row_of format v data"
  shows "\<exists>config. db_config (new_DBInbound (JObj data)) = Some config \<and> Inbound_fromJson config w = Some (inbound_loaded i w)"
proof -
  obtain u where u: "Inbound_toJson i = Some (u, i)" "Inbound_fromJson (wire u) w = Some (inbound_loaded i w)"
    using inbound_load [OF ok] by blast
  with enc have load: "Inbound_fromJson (wire v) w = Some (inbound_loaded i w)" by simp
  obtain se st sn where v: "v = JObj [(''port'', ib_port i), (''listen'', ib_listen i), (''protocol'', ib_protocol i),
      (''settings'', se), (''streamSettings'', st), (''tag'', ib_tag i), (''sniffing'', sn), (''clientStats'', ib_clientStats i)]"
    and sent: "settings_toJson (ib_settings i) = Some (se, ib_settings i)" "Sniffing_toJson (ib_sniffing i) = Some sn"
    using enc settings_saved [of "ib_settings i"] ok by (auto simp: Inbound_toJson_def Inbound_ok_def split: bind_splits)
  have "se \<noteq> JUndef" using settings_saved [of "ib_settings i"] sent(1) ok by (auto simp: Inbound_ok_def)
  moreover have "sn \<noteq> JUndef" using sent(2) by (auto simp: Sniffing_toJson_def split: bind_splits)
  ultimately have known: "js_get_opt v ''settings'' \<noteq> JUndef" "js_get_opt v ''sniffing'' \<noteq> JUndef" by (simp_all add: v)
  have get: "js_get (wire v) k = Some (wire (js_get_opt v k))" for k
    unfolding v by (subst js_get_wire) simp_all
  obtain es where es: "wire v = JObj es" unfolding v by (simp only: wire.simps jsv.inject)
  have l: "look es k = wire (js_get_opt v k)" for k using get [of k] by (simp add: es)
  have int_part: "json_int (wire (js_get_opt v k))" if "js_get_opt v k \<noteq> JUndef" for k
    using json_int_part [OF int [unfolded es] l that] .
  have f: "field_ok (ib_port i)" "field_ok (ib_listen i)" "field_ok (ib_protocol i)" "field_ok (ib_tag i)" "field_ok (ib_clientStats i)"
    using ok by (auto simp: Inbound_ok_def field_ok_def)
  let ?x = "new_DBInbound (JObj data)"
  have d: "distinct (keys data)" using row by (simp add: row_of_def)
  have plain: "db_get ?x k = js_get_opt v k \<and> wire (js_get_opt v k) = js_get_opt v k"
    if "k \<in> set [''port'', ''listen'', ''protocol'', ''tag'', ''clientStats'']" for k
  proof -
    have "look data k = js_get_opt v k" using row that unfolding row_of_def list_all_iff by blast
    moreover have "field_ok (js_get_opt v k)" using that f by (auto simp: v)
    moreover have "k \<in> set (keys db_defaults)" using that by (auto simp: db_defaults_def)
    ultimately show ?thesis using row_get [OF d, of k] by (simp add: field_ok_def)
  qed
  have parsed: "parsed_part (db_get ?x k) = Some (if js_get_opt v k = JUndef then JObj [] else wire (js_get_opt v k))"
    if "k \<in> set [''settings'', ''streamSettings'', ''sniffing'']" for k
  proof -
    have "look data k = part_text format v k" using row that unfolding row_of_def list_all_iff by blast
    moreover have "part_text format v k \<noteq> JUndef" by (simp add: part_text_def split: option.splits)
    moreover have "k \<in> set (keys db_defaults)" using that by (auto simp: db_defaults_def)
    ultimately have "db_get ?x k = part_text format v k" using row_get [OF d, of k] by simp
    then show ?thesis using parsed_part_text [OF int_part, of k format] by simp
  qed
  note pl = plain [of "''port''", simplified] plain [of "''listen''", simplified] plain [of "''protocol''", simplified]
    plain [of "''tag''", simplified] plain [of "''clientStats''", simplified]
  note pa = parsed [of "''settings''", simplified] parsed [of "''streamSettings''", simplified] parsed [of "''sniffing''", simplified]
  define config where "config = JObj [(''port'', db_get ?x ''port''), (''listen'', db_get ?x ''listen''),
    (''protocol'', db_get ?x ''protocol''), (''settings'', wire (js_get_opt v ''settings'')),
    (''streamSettings'', if js_get_opt v ''streamSettings'' = JUndef then JObj [] else wire (js_get_opt v ''streamSettings'')),
    (''tag'', db_get ?x ''tag''), (''sniffing'', wire (js_get_opt v ''sniffing'')), (''clientStats'', db_get ?x ''clientStats'')]"
  have "db_config ?x = Some config"
    unfolding db_config_def pa bind.bind_lunit config_def by (simp add: known)
  moreover have "Inbound_fromJson config w = Inbound_fromJson (wire v) w"
  proof (rule Inbound_fromJson_cong)
    show "list_all (\<lambda>k. js_get config k = js_get (wire v) k)
        [''port'', ''listen'', ''protocol'', ''settings'', ''tag'', ''sniffing'', ''clientStats'']"
      unfolding get by (simp add: config_def pl)
    show "js_get config ''streamSettings'' = js_get (wire v) ''streamSettings'' \<or>
        js_get config ''streamSettings'' = Some (JObj []) \<and> js_get (wire v) ''streamSettings'' = Some JUndef"
      unfolding get by (simp add: config_def)
    show "config \<noteq> JUndef" "wire v \<noteq> JUndef" by (simp_all add: config_def v)
  qed
  ultimately show ?thesis using load by simp
qed


lemma row_exists: "\<exists>data. row_of format v data"
  by (rule exI [of _ "map (\<lambda>k. (k, js_get_opt v k)) [''port'', ''listen'', ''protocol'', ''tag'', ''clientStats''] @
        map (\<lambda>k. (k, part_text format v k)) [''settings'', ''streamSettings'', ''sniffing'']"])
     (simp add: row_of_def)

text \<open>
  C2: a saved inbound comes back from the row that the server keeps of it. When the row holds the
  port, address, protocol, tag and statistics of the saved object and its settings, stream settings
  and sniffing as texts (empty where it has none), the row gives the inbound that was saved, with an
  unsent stream at its defaults. The row makes it once: until its cache is invalidated it gives the
  same inbound and draws no random values, and afterwards it makes it again from its texts.
\<close>
theorem dbinbound_loads:
  assumes "Inbound_ok i" and "Inbound_toJson i = Some (v, j)" and "json_int (wire v)" and "row_of format v data"
  shows "\<exists>k w' y. inbound_loaded i w = (k, w') \<and> toInbound (new_DBInbound (JObj data)) w = Some (k, y, w') \<and>
    ib_settings k = ib_settings i \<and> ib_sniffing k = ib_sniffing i \<and>
    (\<forall>w2. toInbound y w2 = Some (k, y, w2)) \<and>
    (\<forall>w2. \<exists>z. toInbound (invalidateCache y) w2 = Some (fst (inbound_loaded i w2), z, snd (inbound_loaded i w2)))"
proof -
  let ?x = "new_DBInbound (JObj data)"
  obtain k w' where k: "inbound_loaded i w = (k, w')" by (cases "inbound_loaded i w")
  define y where "y = ?x\<lparr>db_cachedInbound := Some k\<rparr>"
  have fresh: "db_cachedInbound ?x = None" by (simp add: new_DBInbound_def)
  have load: "\<exists>config. db_config ?x = Some config \<and> Inbound_fromJson config w = Some (inbound_loaded i w)" for w
    by (rule row_config [OF assms])
  have "toInbound ?x w = Some (k, y, w')" using load [of w] fresh by (auto simp: toInbound_def k y_def)
  moreover have "toInbound y w2 = Some (k, y, w2)" for w2 by (simp add: toInbound_def y_def)
  moreover have "db_config (invalidateCache y) = db_config ?x"
    by (simp add: db_config_def db_get_def invalidateCache_def y_def)
  then have "\<exists>z. toInbound (invalidateCache y) w2 = Some (fst (inbound_loaded i w2), z, snd (inbound_loaded i w2))" for w2
    using load [of w2] by (cases "inbound_loaded i w2") (auto simp: toInbound_def invalidateCache_def)
  ultimately show ?thesis using k loaded_fields [of i w] by auto
qed


section \<open>The statistics of a client\<close>

text \<open>What a client of a map relies on: keys that count as the same have one value, the last that was put.\<close>

locale key_map =
  fixes empty_map :: 'm
    and put :: "'m \<Rightarrow> 'k \<Rightarrow> 'v \<Rightarrow> 'm"
    and get :: "'m \<Rightarrow> 'k \<Rightarrow> 'v option"
    and same :: "'k \<Rightarrow> 'k \<Rightarrow> bool"
  assumes get_empty: "get empty_map k = None"
    and get_put: "get (put m k v) k' = (if same k k' then Some v else get m k')"
begin

lemma get_filled:
  "get (foldl (\<lambda>m v. put m (key v) v) m vs) k =
     (case find (\<lambda>v. same (key v) k) (rev vs) of Some v \<Rightarrow> Some v | None \<Rightarrow> get m k)"
proof (induction vs arbitrary: m)
  case (Cons v vs)
  have "find P (xs @ [v]) = (case find P xs of Some y \<Rightarrow> Some y | None \<Rightarrow> if P v then Some v else None)" for P and xs :: "'v list"
    by (induction xs) auto
  then show ?case by (auto simp: Cons.IH get_put split: option.splits)
qed simp

lemma get_built: "get (foldl (\<lambda>m v. put m (key v) v) empty_map vs) k = find (\<lambda>v. same (key v) k) (rev vs)"
  by (auto simp: get_filled get_empty split: option.splits)

end

definition map_lookup :: "(jsv \<times> jsv) list \<Rightarrow> jsv \<Rightarrow> jsv option" where
  "map_lookup m k = map_option snd (find (\<lambda>e. same_value (fst e) k) m)"

lemma map_get_lookup: "map_get m k = (case map_lookup m k of Some v \<Rightarrow> v | None \<Rightarrow> JUndef)"
  by (simp add: map_get_def map_lookup_def split: option.splits)

lemma same_value_iff: "same_value a b \<longleftrightarrow> a = b \<and> is_prim a"
proof (cases "\<exists>m n. a = JNum m \<and> b = JNum n")
  case True
  then obtain m n where "a = JNum m" "b = JNum n" by blast
  then show ?thesis by (cases m; cases n) (simp_all add: same_value_def)
next
  case False
  then show ?thesis by (cases a; cases b) (auto simp: same_value_def)
qed

lemma map_lookup_set: "map_lookup (map_set m k v) k' = (if same_value k k' then Some v else map_lookup m k')"
  by (induction m k v rule: map_set.induct) (auto simp: map_lookup_def same_value_iff)

interpretation stats: key_map "[]" map_set map_lookup same_value
  by unfold_locales (simp add: map_lookup_def, rule map_lookup_set)

definition stat_email :: "jsv \<Rightarrow> jsv" where
  "stat_email s = js_get_opt s ''email''"

lemma js_get_given: "\<not> is_nullish s \<Longrightarrow> js_get s k = Some (js_get_opt s k)"
  by (cases s) (auto simp: is_nullish_def)

lemma stats_map_fold:
  "list_all (\<lambda>s. \<not> is_nullish s) ss \<Longrightarrow> stats_map ss m = (foldl (\<lambda>m s. map_set m (stat_email s) s) m ss, True)"
  by (induction ss arbitrary: m) (simp_all add: js_get_given stat_email_def)

text \<open>
  C25: the statistics of a client are the last entry with its email. For a row whose statistics are a list of
  objects and whose map is not made yet, every sequence of lookups gives for each of the emails the last entry of the list
  that has this email, or undefined if there is none: the map that the first lookup makes changes no answer.
\<close>
theorem client_stats_last:
  assumes "db_clientStatsMap x = None" and "db_get x ''clientStats'' = JArr ss" and "list_all (\<lambda>s. \<not> is_nullish s) ss"
  shows "let y = foldl (\<lambda>y e. snd (getClientStats y e)) x emails in
    fst (getClientStats y email) =
      Some (case find (\<lambda>s. same_value (stat_email s) email) (rev ss) of Some s \<Rightarrow> s | None \<Rightarrow> JUndef)"
proof -
  define m where "m = foldl (\<lambda>m s. map_set m (stat_email s) s) [] ss"
  define y where "y = foldl (\<lambda>y e. snd (getClientStats y e)) x emails"
  have fresh: "getClientStats x e = (Some (map_get m e), x\<lparr>db_clientStatsMap := Some m\<rparr>)" for e
    using assms by (simp add: getClientStats_def stats_map_fold m_def)
  have filled: "getClientStats (x\<lparr>db_clientStatsMap := Some m\<rparr>) e = (Some (map_get m e), x\<lparr>db_clientStatsMap := Some m\<rparr>)" for e
    by (simp add: getClientStats_def)
  have "foldl (\<lambda>y e. snd (getClientStats y e)) (x\<lparr>db_clientStatsMap := Some m\<rparr>) es = x\<lparr>db_clientStatsMap := Some m\<rparr>" for es
    by (induction es) (simp_all add: filled)
  then have "y = x \<or> y = x\<lparr>db_clientStatsMap := Some m\<rparr>"
    unfolding y_def by (cases emails) (simp_all add: fresh)
  then have "fst (getClientStats y email) = Some (map_get m email)"
    using fresh filled by auto
  moreover have "map_get m email =
      (case find (\<lambda>s. same_value (stat_email s) email) (rev ss) of Some s \<Rightarrow> s | None \<Rightarrow> JUndef)"
    by (simp add: map_get_lookup m_def stats.get_built)
  ultimately show ?thesis by (simp add: y_def)
qed

definition sample_stat :: "string \<Rightarrow> int \<Rightarrow> jsv" where
  "sample_stat email up = JObj [(''email'', JStr email), (''up'', jint up), (''down'', jint 1)]"

theorem client_stats_last_witness:
  "let ss = [sample_stat ''a'' 1, sample_stat ''b'' 2, sample_stat ''a'' 3]; x = new_DBInbound (JObj [(''clientStats'', JArr ss)]) in
    fst (getClientStats (snd (getClientStats x (JStr ''b''))) (JStr ''a'')) = Some (sample_stat ''a'' 3) \<and>
    fst (getClientStats x (JStr ''c'')) = Some JUndef"
proof -
  let ?ss = "[sample_stat ''a'' 1, sample_stat ''b'' 2, sample_stat ''a'' 3]"
  let ?x = "new_DBInbound (JObj [(''clientStats'', JArr ?ss)])"
  have x: "db_clientStatsMap ?x = None" "db_get ?x ''clientStats'' = JArr ?ss" "list_all (\<lambda>s. \<not> is_nullish s) ?ss"
    by (simp_all add: row_get db_defaults_def sample_stat_def) (simp add: new_DBInbound_def)
  show ?thesis
    using client_stats_last [OF x, of "[JStr ''b'']" "JStr ''a''"] client_stats_last [OF x, of "[]" "JStr ''c''"]
    by (simp add: Let_def) (simp add: sample_stat_def stat_email_def same_value_iff)
qed

section \<open>AllSetting\<close>

definition setting_defaults :: entries where
  "setting_defaults =
     [(''webListen'', JStr ''''), (''webDomain'', JStr ''''), (''webPort'', jint 2053), (''webCertFile'', JStr ''''),
      (''webKeyFile'', JStr ''''), (''webBasePath'', JStr ''/''), (''sessionMaxAge'', jint 360),
      (''pageSize'', jint 25), (''expireDiff'', jint 0), (''trafficDiff'', jint 0), (''remarkModel'', JStr ''-ieo''),
      (''datepicker'', JStr ''gregorian''), (''tgBotEnable'', JBool False), (''tgBotToken'', JStr ''''),
      (''tgBotProxy'', JStr ''''), (''tgBotAPIServer'', JStr ''''), (''tgBotChatId'', JStr ''''),
      (''tgRunTime'', JStr ''@daily''), (''tgBotBackup'', JBool False), (''tgBotLoginNotify'', JBool True),
      (''tgCpu'', jint 80), (''tgLang'', JStr ''en-US''), (''twoFactorEnable'', JBool False),
      (''twoFactorToken'', JStr ''''), (''xrayTemplateConfig'', JStr ''''), (''subEnable'', JBool True),
      (''subJsonEnable'', JBool False), (''subTitle'', JStr ''''), (''subSupportUrl'', JStr ''''),
      (''subProfileUrl'', JStr ''''), (''subAnnounce'', JStr ''''), (''subEnableRouting'', JBool True),
      (''subRoutingRules'', JStr ''''), (''subListen'', JStr ''''), (''subPort'', jint 2096),
      (''subPath'', JStr ''/sub/''), (''subJsonPath'', JStr ''/json/''), (''subClashEnable'', JBool True),
      (''subClashPath'', JStr ''/clash/''), (''subDomain'', JStr ''''),
      (''externalTrafficInformEnable'', JBool False), (''externalTrafficInformURI'', JStr ''''),
      (''subCertFile'', JStr ''''), (''subKeyFile'', JStr ''''), (''subUpdates'', jint 12),
      (''subEncrypt'', JBool True), (''subShowInfo'', JBool True), (''subURI'', JStr ''''),
      (''subJsonURI'', JStr ''''), (''subClashURI'', JStr ''''), (''subJsonFragment'', JStr ''''),
      (''subJsonNoises'', JStr ''''), (''subJsonMux'', JStr ''''), (''subJsonRules'', JStr ''''),
      (''timeLocation'', JStr ''Local''), (''ldapEnable'', JBool False), (''ldapHost'', JStr ''''),
      (''ldapPort'', jint 389), (''ldapUseTLS'', JBool False), (''ldapBindDN'', JStr ''''),
      (''ldapPassword'', JStr ''''), (''ldapBaseDN'', JStr ''''),
      (''ldapUserFilter'', JStr ''(objectClass=person)''), (''ldapUserAttr'', JStr ''mail''),
      (''ldapVlessField'', JStr ''vless_enabled''), (''ldapSyncCron'', JStr ''@every 1m''),
      (''ldapFlagField'', JStr ''''), (''ldapTruthyValues'', JStr ''true,1,yes,on''),
      (''ldapInvertFlag'', JBool False), (''ldapInboundTags'', JStr ''''), (''ldapAutoCreate'', JBool False),
      (''ldapAutoDelete'', JBool False), (''ldapDefaultTotalGB'', jint 0), (''ldapDefaultExpiryDays'', jint 0),
      (''ldapDefaultLimitIP'', jint 0)]"

definition new_AllSetting :: "jsv \<Rightarrow> jsv" where
  "new_AllSetting data =
     (if is_nullish data then JObj setting_defaults else cloneProps (JObj setting_defaults) data [])"

definition setting_equals :: "jsv \<Rightarrow> jsv \<Rightarrow> bool option" where
  "setting_equals a b = equals a b"

lemma new_AllSetting_keys: "\<exists>es. new_AllSetting data = JObj es \<and> keys es = keys setting_defaults"
  by (simp add: new_AllSetting_def cloneProps_keys)

text \<open>
  The form compares its settings with those it loaded. Whatever the server sent, two forms have the same
  properties, so the comparison is that of all their values.
\<close>
theorem settings_compared:
  "setting_equals (new_AllSetting c) (new_AllSetting d) =
     Some (list_all (\<lambda>k. strict_eq (js_get_opt (new_AllSetting c) k) (js_get_opt (new_AllSetting d) k)) (keys setting_defaults))"
proof -
  obtain es fs where es: "new_AllSetting c = JObj es" "keys es = keys setting_defaults"
    and fs: "new_AllSetting d = JObj fs" "keys fs = keys setting_defaults"
    using new_AllSetting_keys by blast
  then show ?thesis by (auto simp: setting_equals_def equals_def object_keys_def list_all_iff)
qed

end
