(* ===== verification/AccountExport.thy ===== *)
theory AccountExport
  imports DbInbound
begin

text \<open>
  The export of accounts (web/assets/js/util/export.js): a card for each selected account, and the cards
  as a text file and as a PDF. The text file is its content; the PDF is the sequence of the calls
  that draw it, with the measuring of texts and the QR code as functions of the two libraries. Five
  characters that Latin-1 has not, and the texts that the browser makes of dates, are parameters.
\<close>

record glyphs =
  infinity :: string
  double_bar :: string
  single_bar :: string
  em_dash :: string
  ellipsis :: string

record card =
  cd_remark :: jsv
  cd_protocol :: string
  cd_network :: string
  cd_server :: jsv
  cd_port :: string
  cd_email :: jsv
  cd_password :: jsv
  cd_uuid :: jsv
  cd_psk :: jsv
  cd_expiry :: string
  cd_used :: string
  cd_total :: string
  cd_enable :: bool
  cd_link :: string

section \<open>The parts of a card\<close>

text \<open>The properties of OpenVPN and L2TP settings that a card reads; other settings do not have them.\<close>

definition openvpn_part :: "settings \<Rightarrow> string \<Rightarrow> jsv" where
  "openvpn_part s k =
     (case s of
        OpenvpnSet x \<Rightarrow>
          look [(''udpEnable'', ov_udpEnable x), (''tcpEnable'', ov_tcpEnable x), (''separatePorts'', ov_separatePorts x),
                (''tcpPort'', ov_tcpPort x)] k
      | _ \<Rightarrow> JUndef)"

definition l2tp_part :: "settings \<Rightarrow> string \<Rightarrow> jsv" where
  "l2tp_part s k =
     (case s of
        L2tpSet x \<Rightarrow>
          look [(''ipsecEnable'', l2_ipsecEnable x), (''ipsecPsk'', l2_ipsecPsk x), (''allowRaw'', l2_allowRaw x),
                (''clientToClient'', l2_clientToClient x), (''crossInbound'', l2_crossInbound x), (''ipRanges'', l2_ipRanges x),
                (''dns1'', l2_dns1 x), (''dns2'', l2_dns2 x), (''mtu'', l2_mtu x), (''userLimit'', l2_userLimit x),
                (''userLimitStrategy'', l2_userLimitStrategy x)] k
      | _ \<Rightarrow> JUndef)"

definition nonempty_or :: "string \<Rightarrow> string \<Rightarrow> string" where
  "nonempty_or s d = (if s = '''' then d else s)"

definition export_network :: "DBInbound \<Rightarrow> Inbound \<Rightarrow> string" where
  "export_network x i =
     (if db_isOpenvpn x
      then nonempty_or (join ''/''
             ((if truthy (openvpn_part (ib_settings i) ''udpEnable'') then [''UDP''] else []) @
              (if truthy (openvpn_part (ib_settings i) ''tcpEnable'') then [''TCP''] else []))) ''UDP''
      else if db_isL2tp x then (if truthy (l2tp_part (ib_settings i) ''ipsec'') then ''IPsec/PSK'' else ''raw'')
      else if db_isPptp x then ''MPPE''
      else (let s = ib_stream i in
            join ''/'' ((if truthy (ss_network s) then [js_to_string (ss_network s)] else []) @
              (if ss_isTls s then [''TLS''] else []) @ (if ss_isReality s then [''Reality''] else []))))"

definition export_portText :: "DBInbound \<Rightarrow> Inbound \<Rightarrow> string" where
  "export_portText x i =
     (if db_isOpenvpn x
      then nonempty_or (join ''  ''
             ((if truthy (openvpn_part (ib_settings i) ''udpEnable'') then [''UDP '' @ js_to_string (ib_port i)] else []) @
              (if truthy (openvpn_part (ib_settings i) ''tcpEnable'')
               then [''TCP '' @ js_to_string (if truthy (openvpn_part (ib_settings i) ''separatePorts'')
                       then js_or (openvpn_part (ib_settings i) ''tcpPort'') (jint 443) else ib_port i)]
               else []))) (js_to_string (ib_port i))
      else js_to_string (ib_port i))"

definition export_psk :: "DBInbound \<Rightarrow> Inbound \<Rightarrow> jsv" where
  "export_psk x i =
     (if db_isL2tp x \<and> truthy (l2tp_part (ib_settings i) ''ipsec'')
      then js_or (l2tp_part (ib_settings i) ''psk'') (JStr '''') else JStr '''')"

text \<open>\<open>formatDate\<close> may throw; then the text of \<open>toLocaleString\<close> is shown.\<close>

definition export_expiryText :: "glyphs \<Rightarrow> (jsv \<Rightarrow> string option) \<Rightarrow> (jsv \<Rightarrow> string) \<Rightarrow> jsv \<Rightarrow> string" where
  "export_expiryText g formatDate toLocaleString expiryTime =
     (if \<not> truthy expiryTime then infinity g
      else if js_lt expiryTime (jint 0)
      then ''delayed start ('' @
        show_num (case js_to_number expiryTime of
            Fin q \<Rightarrow> Fin (of_int (rat_floor (\<bar>q\<bar> / 86400000 + 1 / 2))) | Inf _ \<Rightarrow> Inf True | NaN \<Rightarrow> NaN) @ ''d)''
      else case formatDate expiryTime of Some s \<Rightarrow> s | None \<Rightarrow> toLocaleString expiryTime)"

text \<open>
  \<open>SizeFormatter.sizeFormat\<close> of any value: comparisons and divisions convert it, and below a kilobyte only
  a number has the method \<open>toFixed\<close>.
\<close>

definition size_text :: "jsv \<Rightarrow> string option" where
  "size_text v =
     (case js_to_number v of
        Fin q \<Rightarrow> (if 0 < q \<and> q < ONE_KB \<and> js_typeof v \<noteq> ''number'' then None else Some (sizeFormat q))
      | NaN \<Rightarrow> Some ''NaN PB''
      | Inf pos \<Rightarrow> Some (if pos then ''Infinity PB'' else ''0 B''))"

text \<open>\<open>a + b\<close>: texts, arrays and objects are joined as texts, the other values are added as numbers.\<close>

fun num_add :: "jnum \<Rightarrow> jnum \<Rightarrow> jnum" where
  "num_add (Fin a) (Fin b) = Fin (a + b)"
| "num_add (Inf a) (Inf b) = (if a = b then Inf a else NaN)"
| "num_add (Inf a) (Fin _) = Inf a"
| "num_add (Fin _) (Inf b) = Inf b"
| "num_add _ _ = NaN"

fun joins :: "jsv \<Rightarrow> bool" where
  "joins (JStr _) = True"
| "joins (JArr _) = True"
| "joins (JObj _) = True"
| "joins _ = False"

definition js_add :: "jsv \<Rightarrow> jsv \<Rightarrow> jsv" where
  "js_add a b = (if joins a \<or> joins b then JStr (js_to_string a @ js_to_string b)
                 else JNum (num_add (js_to_number a) (js_to_number b)))"

text \<open>
  \<open>getSumStats\<close> of the page (web/html/inbounds.html), which reads the statistics as DBInbound does. An
  exception leaves the row's map as far as it was filled.
\<close>

definition getSumStats :: "DBInbound \<Rightarrow> jsv \<Rightarrow> jsv option \<times> DBInbound" where
  "getSumStats x email =
     (if \<not> truthy email \<or> js_get_opt email ''length'' = jint 0 then (Some (jint 0), x)
      else case getClientStats x email of
        (None, x) \<Rightarrow> (None, x)
      | (Some stats, x) \<Rightarrow>
          (Some (if truthy stats then js_add (js_get_opt stats ''up'') (js_get_opt stats ''down'') else jint 0), x))"

definition export_used :: "jsv option \<Rightarrow> string" where
  "export_used sum_v = (case sum_v of None \<Rightarrow> ''0''
     | Some v \<Rightarrow> (case size_text (js_or v (jint 0)) of Some s \<Rightarrow> s | None \<Rightarrow> ''0''))"

definition client_totalGB :: "client \<Rightarrow> jsv" where
  "client_totalGB c =
     (case c of CVmess x \<Rightarrow> cb_totalGB (vm_base x) | CVless x \<Rightarrow> cb_totalGB (vl_base x)
      | CTrojan x \<Rightarrow> cb_totalGB (tj_base x) | CShadowsocks x \<Rightarrow> cb_totalGB (shs_base x)
      | CHysteria x \<Rightarrow> cb_totalGB (hya_base x) | CVpn x \<Rightarrow> vu_totalGB x)"

definition client_enable :: "client \<Rightarrow> jsv" where
  "client_enable c =
     (case c of CVmess x \<Rightarrow> cb_enable (vm_base x) | CVless x \<Rightarrow> cb_enable (vl_base x)
      | CTrojan x \<Rightarrow> cb_enable (tj_base x) | CShadowsocks x \<Rightarrow> cb_enable (shs_base x)
      | CHysteria x \<Rightarrow> cb_enable (hya_base x) | CVpn x \<Rightarrow> vu_enable x)"

section \<open>Building the cards\<close>

text \<open>The letters of protocol names are ASCII.\<close>

definition upper_char :: "char \<Rightarrow> char" where
  "upper_char c = (let n = (of_char c :: nat) in if 97 \<le> n \<and> n \<le> 122 then char_of (n - 32) else c)"

definition upper :: "jsv \<Rightarrow> string option" where
  "upper v = (case v of JStr s \<Rightarrow> Some (map upper_char s) | _ \<Rightarrow> None)"

record export_env =
  ee_glyphs :: glyphs
  ee_canon :: "string \<Rightarrow> string option"
  ee_hostname :: string
  ee_remarkModel :: string
  ee_formatDate :: "jsv \<Rightarrow> string option"
  ee_toLocaleString :: "jsv \<Rightarrow> string"

definition export_server :: "export_env \<Rightarrow> Inbound \<Rightarrow> jsv" where
  "export_server env i =
     (if truthy (ib_listen i) \<and> ib_listen i \<noteq> JStr ''0.0.0.0'' then ib_listen i else JStr (ee_hostname env))"

definition export_link :: "export_env \<Rightarrow> Inbound \<Rightarrow> client \<Rightarrow> string" where
  "export_link env i c =
     (case genAllLinks (ee_canon env) (ee_hostname env) i (JStr '''') (nonempty_or (ee_remarkModel env) ''-ieo'') (Some c) of
        Some (l # _) \<Rightarrow> lk_link l | _ \<Rightarrow> '''')"

definition make_card :: "export_env \<Rightarrow> DBInbound \<Rightarrow> Inbound \<Rightarrow> client \<Rightarrow> string \<Rightarrow> card option" where
  "make_card env x i c used =
     do { protocol \<leftarrow> upper (js_or (db_get x ''protocol'') (JStr ''''));
          total_text \<leftarrow> (if js_gt (client_totalGB c) (jint 0) then size_text (client_totalGB c)
                          else Some (infinity (ee_glyphs env)));
          Some \<lparr>cd_remark = js_or (db_get x ''remark'') (JStr ''''), cd_protocol = protocol,
            cd_network = export_network x i, cd_server = export_server env i, cd_port = export_portText x i,
            cd_email = js_or (client_email c) (JStr ''''), cd_password = js_or (client_password c) (JStr ''''),
            cd_uuid = (if truthy (client_id c) \<and> \<not> strict_eq (client_id c) (client_password c) then client_id c else JStr ''''),
            cd_psk = export_psk x i,
            cd_expiry = export_expiryText (ee_glyphs env) (ee_formatDate env) (ee_toLocaleString env) (client_expiryTime c),
            cd_used = used, cd_total = total_text, cd_enable = truthy (client_enable c), cd_link = export_link env i c\<rparr> }"

text \<open>
  One target: the card, if there is one, and the rows, whose caches the lookups fill. A row whose
  inbound cannot be made, and a card that throws, are skipped.
\<close>

fun find_row :: "DBInbound list \<Rightarrow> jsv \<Rightarrow> nat option" where
  "find_row [] v = None"
| "find_row (x # xs) v = (if strict_eq (db_get x ''id'') v then Some 0 else map_option Suc (find_row xs v))"

definition card_step ::
  "export_env \<Rightarrow> DBInbound list \<Rightarrow> world \<Rightarrow> jsv \<Rightarrow> jsv \<Rightarrow> card option \<times> DBInbound list \<times> world" where
  "card_step env rows w inboundId email =
     (case find_row rows inboundId of
        None \<Rightarrow> (None, rows, w)
      | Some n \<Rightarrow>
          (case toInbound (rows ! n) w of
             None \<Rightarrow> (None, rows, w)
           | Some (i, x, w) \<Rightarrow>
               (case find (\<lambda>c. strict_eq (client_email c) email) (case ib_clients i of Some cs \<Rightarrow> cs | None \<Rightarrow> []) of
                  None \<Rightarrow> (None, rows[n := x], w)
                | Some c \<Rightarrow>
                    (let (sum_v, x) = getSumStats x (client_email c)
                     in (make_card env x i c (export_used sum_v), rows[n := x], w)))))"

fun buildCards ::
  "export_env \<Rightarrow> DBInbound list \<Rightarrow> world \<Rightarrow> (jsv \<times> jsv) list \<Rightarrow> card list \<times> DBInbound list \<times> world" where
  "buildCards env rows w [] = ([], rows, w)"
| "buildCards env rows w ((inboundId, email) # ts) =
     (let (c, rows, w) = card_step env rows w inboundId email; (cs, rows, w) = buildCards env rows w ts
      in ((case c of Some c \<Rightarrow> c # cs | None \<Rightarrow> cs), rows, w))"

section \<open>The text file\<close>

definition padEnd :: "nat \<Rightarrow> string \<Rightarrow> string" where
  "padEnd n s = s @ replicate (n - length s) (CHR '' '')"

definition txt_line :: "string \<Rightarrow> jsv \<Rightarrow> string list" where
  "txt_line label val =
     (if val = JStr '''' \<or> is_nullish val then []
      else [''  '' @ padEnd 12 (label @ '' :'') @ '' '' @ js_to_string val])"

definition line_feed :: string where
  "line_feed = [CHR 0x0A]"

definition txt_rows :: "card \<Rightarrow> string list" where
  "txt_rows c =
     txt_line ''Server'' (JStr (js_to_string (cd_server c) @ '':'' @ cd_port c)) @
     txt_line ''Protocol'' (JStr (cd_protocol c @ (if cd_network c = '''' then '''' else '' / '' @ cd_network c))) @
     txt_line ''Username'' (cd_email c) @
     txt_line ''Password'' (cd_password c) @
     txt_line ''UUID'' (cd_uuid c) @
     txt_line ''PSK'' (cd_psk c) @
     txt_line ''Expiry'' (JStr (cd_expiry c)) @
     txt_line ''Traffic'' (JStr (cd_used c @ '' / '' @ cd_total c)) @
     txt_line ''Status'' (JStr (if cd_enable c then ''Enabled'' else ''Disabled'')) @
     txt_line ''Link'' (JStr (cd_link c))"

definition txt_block :: "glyphs \<Rightarrow> card \<Rightarrow> string" where
  "txt_block g c =
     (let bars = concat (replicate 52 (double_bar g)); dash = concat (replicate 52 (single_bar g));
          title = padEnd 52 (''  '' @ js_to_string (js_or (cd_remark c) (cd_email c)))
      in join line_feed [bars, title, dash, join line_feed (txt_rows c), bars])"

text \<open>The content and the name of the file.\<close>

definition export_txt :: "glyphs \<Rightarrow> string \<Rightarrow> card list \<Rightarrow> string \<Rightarrow> string \<times> string" where
  "export_txt g now cards filename =
     (let header = ''VPN Accounts '' @ em_dash g @ '' '' @ show_nat (length cards) @ '' account(s)'' @ line_feed @
            ''Generated '' @ now @ line_feed @ line_feed
      in (header @ join (line_feed @ line_feed) (map (txt_block g) cards) @ line_feed, nonempty_or filename ''accounts'' @ ''.txt''))"

section \<open>The PDF\<close>

text \<open>The calls on the document, each with its arguments.\<close>

datatype doc_op =
    SetFont string
  | SetFontSize nat
  | SetTextColor nat nat nat
  | SetDrawColor nat nat nat
  | SetFillColor nat nat nat
  | RoundedRect rat rat rat rat rat string
  | FilledRect rat rat rat rat
  | TextAt string rat rat
  | TextRight string rat rat
  | AddImage string rat rat rat
  | AddPage
  | SaveAs string
  | Alert string

text \<open>The two libraries: text widths by font style and size, the page, and the picture of a QR code (empty on failure).\<close>

record pdf_lib =
  pl_width :: "string \<Rightarrow> nat \<Rightarrow> string \<Rightarrow> rat"
  pl_pageW :: rat
  pl_pageH :: rat
  pl_qr :: "string \<Rightarrow> string option"

definition qrDataUrl :: "pdf_lib \<Rightarrow> string \<Rightarrow> string" where
  "qrDataUrl lib s = (case pl_qr lib s of Some url \<Rightarrow> url | None \<Rightarrow> '''')"

function clip_loop :: "(string \<Rightarrow> rat) \<Rightarrow> string \<Rightarrow> rat \<Rightarrow> string \<Rightarrow> string" where
  "clip_loop width dots maxW t =
     (if 1 < length t \<and> maxW < width (t @ dots) then clip_loop width dots maxW (butlast t) else t)"
  by auto
termination
  by (relation "measure (\<lambda>(width, dots, maxW, t). length t)") auto

declare clip_loop.simps [simp del]

definition clip :: "(string \<Rightarrow> rat) \<Rightarrow> string \<Rightarrow> string \<Rightarrow> rat \<Rightarrow> string" where
  "clip width dots s maxW =
     (if s = '''' then '''' else if width s \<le> maxW then s else clip_loop width dots maxW s @ dots)"

definition margin :: rat where "margin = 32"
definition pad :: rat where "pad = 14"
definition lineH :: rat where "lineH = 16"
definition qr_edge :: rat where "qr_edge = 96"

definition row_if :: "string \<Rightarrow> jsv \<Rightarrow> (string \<times> string) list" where
  "row_if label v = (if truthy v then [(label, js_to_string v)] else [])"

definition pdf_rows :: "card \<Rightarrow> (string \<times> string) list" where
  "pdf_rows c =
     [(''Server'', js_to_string (cd_server c) @ '':'' @ cd_port c),
      (''Protocol'', cd_protocol c @ (if cd_network c = '''' then '''' else ''  /  '' @ cd_network c)),
      (''Username'', js_to_string (cd_email c))] @
     row_if ''Password'' (cd_password c) @ row_if ''UUID'' (cd_uuid c) @ row_if ''PSK'' (cd_psk c) @
     [(''Expiry'', cd_expiry c), (''Traffic'', cd_used c @ ''  /  '' @ cd_total c),
      (''Status'', if cd_enable c then ''Enabled'' else ''Disabled'')]"

definition card_qr :: "pdf_lib \<Rightarrow> card \<Rightarrow> string" where
  "card_qr lib c = (if cd_link c = '''' then '''' else qrDataUrl lib (cd_link c))"

definition cardH :: "pdf_lib \<Rightarrow> card \<Rightarrow> rat" where
  "cardH lib c =
     (let qrSize = (if card_qr lib c = '''' then 0 else qr_edge);
          bodyRows = length (pdf_rows c) + (if cd_link c = '''' then 0 else 1);
          bodyH = max (of_nat bodyRows * lineH) qrSize
      in 30 + pad + bodyH + pad)"

fun body_rows :: "pdf_lib \<Rightarrow> string \<Rightarrow> rat \<Rightarrow> rat \<Rightarrow> (string \<times> string) list \<Rightarrow> doc_op list" where
  "body_rows lib dots valMaxW ry [] = []"
| "body_rows lib dots valMaxW ry ((label, val) # rows) =
     [SetTextColor 140 140 140, SetFont ''normal'', TextAt label (margin + pad) ry,
      SetTextColor 40 40 40, SetFont ''bold'',
      TextAt (clip (pl_width lib ''bold'' 10) dots val valMaxW) (margin + pad + 78) ry] @
     body_rows lib dots valMaxW (ry + lineH) rows"

definition link_row :: "pdf_lib \<Rightarrow> string \<Rightarrow> rat \<Rightarrow> rat \<Rightarrow> string \<Rightarrow> doc_op list" where
  "link_row lib dots valMaxW ry link =
     (if link = '''' then []
      else [SetTextColor 140 140 140, SetFont ''normal'', TextAt ''Link'' (margin + pad) ry,
            SetTextColor 90 90 90, SetFontSize 7,
            TextAt (clip (pl_width lib ''normal'' 7) dots link valMaxW) (margin + pad + 78) ry, SetFontSize 10])"

definition middle_dot :: string where
  "middle_dot = [CHR '' '', CHR 0xB7, CHR '' '']"

definition pdf_card :: "pdf_lib \<Rightarrow> string \<Rightarrow> card \<Rightarrow> rat \<Rightarrow> doc_op list" where
  "pdf_card lib dots c y =
     (let cardW = pl_pageW lib - margin * 2; h = cardH lib c; rows = pdf_rows c; qr = card_qr lib c;
          qrSize = (if qr = '''' then 0 else qr_edge);
          ry = y + 30 + pad + 4;
          valMaxW = cardW - pad * 2 - 78 - (if qr = '''' then 0 else qrSize + 12)
      in [SetDrawColor 224 224 224, SetFillColor 250 250 250, RoundedRect margin y cardW h 6 ''FD'',
          (if cd_enable c then SetFillColor 124 77 255 else SetFillColor 176 176 176),
          RoundedRect margin y cardW 30 6 ''F'', FilledRect margin (y + 16) cardW 14,
          SetTextColor 255 255 255, SetFont ''bold'', SetFontSize 11,
          TextAt (clip (pl_width lib ''bold'' 11) dots (js_to_string (js_or (cd_remark c) (cd_email c))) (cardW - pad * 2 - 90))
            (margin + pad) (y + 20),
          SetFont ''normal'', SetFontSize 9,
          TextRight (cd_protocol c @ (if cd_network c = '''' then '''' else middle_dot @ cd_network c))
            (margin + cardW - pad) (y + 20),
          SetFontSize 10] @
         body_rows lib dots valMaxW ry rows @
         link_row lib dots valMaxW (ry + of_nat (length rows) * lineH) (cd_link c) @
         (if qr = '''' then [] else [AddImage qr (margin + cardW - pad - qrSize) (y + 30 + pad) qrSize]))"

text \<open>A card that does not fit any more starts a new page.\<close>

fun pdf_cards :: "pdf_lib \<Rightarrow> string \<Rightarrow> rat \<Rightarrow> card list \<Rightarrow> doc_op list" where
  "pdf_cards lib dots y [] = []"
| "pdf_cards lib dots y (c # cs) =
     (let full = (y + cardH lib c > pl_pageH lib - margin); y = (if full then margin else y)
      in (if full then [AddPage] else []) @ pdf_card lib dots c y @ pdf_cards lib dots (y + cardH lib c + 16) cs)"

text \<open>Without the library there is only an alert.\<close>

definition export_pdf :: "pdf_lib option \<Rightarrow> glyphs \<Rightarrow> string \<Rightarrow> card list \<Rightarrow> string \<Rightarrow> doc_op list" where
  "export_pdf jspdf g now cards filename =
     (case jspdf of
        None \<Rightarrow> [Alert ''PDF library not loaded'']
      | Some lib \<Rightarrow>
          [SetFont ''bold'', SetFontSize 16, SetTextColor 40 40 40, TextAt ''VPN Accounts'' margin (margin + 6),
           SetFont ''normal'', SetFontSize 9, SetTextColor 130 130 130,
           TextAt (show_nat (length cards) @ '' account(s) '' @ em_dash g @ '' '' @ now) margin (margin + 22)] @
          pdf_cards lib (ellipsis g) (margin + 44) cards @ [SaveAs (nonempty_or filename ''accounts'' @ ''.pdf'')])"

section \<open>The layout of the PDF\<close>

text \<open>The frames that a trace draws: the page, the top edge and the height.\<close>

fun frames :: "nat \<Rightarrow> doc_op list \<Rightarrow> (nat \<times> rat \<times> rat) list" where
  "frames p [] = []"
| "frames p (AddPage # ops) = frames (Suc p) ops"
| "frames p (RoundedRect x y w h r style # ops) = (if style = ''FD'' then (p, y, h) # frames p ops else frames p ops)"
| "frames p (_ # ops) = frames p ops"

lemma frames_body: "frames p (body_rows lib dots m ry rows @ ops) = frames p ops"
  by (induction lib dots m ry rows rule: body_rows.induct) auto

lemma frames_link: "frames p (link_row lib dots m ry link @ ops) = frames p ops"
  by (simp add: link_row_def)

lemma frames_card: "frames p (pdf_card lib dots c y @ ops) = (p, y, cardH lib c) # frames p ops"
  by (simp add: pdf_card_def Let_def frames_body frames_link)

lemma cardH_bounds: "0 < cardH lib c" "cardH lib c \<le> 218"
proof -
  have n: "length (pdf_rows c) \<le> 9" by (simp add: pdf_rows_def row_if_def)
  have "of_nat (length (pdf_rows c) + (if cd_link c = '''' then 0 else 1)) * lineH \<le> 10 * lineH"
    using n by (simp add: lineH_def)
  then show "cardH lib c \<le> 218" "0 < cardH lib c"
    by (simp_all add: cardH_def Let_def lineH_def pad_def qr_edge_def)
qed

definition below :: "nat \<times> rat \<times> rat \<Rightarrow> nat \<times> rat \<times> rat \<Rightarrow> bool" where
  "below a b = (case a of (p, y, h) \<Rightarrow> case b of (p', y', h') \<Rightarrow> p < p' \<or> p = p' \<and> y + h + 16 \<le> y')"

definition on_page :: "rat \<Rightarrow> nat \<times> rat \<times> rat \<Rightarrow> bool" where
  "on_page pageH a = (case a of (p, y, h) \<Rightarrow> margin \<le> y \<and> y + h \<le> pageH - margin)"

lemma on_page_pair: "on_page pageH (p, y, h) \<longleftrightarrow> margin \<le> y \<and> y + h \<le> pageH - margin"
  by (simp add: on_page_def)

lemma frames_cards:
  assumes "282 \<le> pl_pageH lib" and "margin \<le> y" and "\<And>q. frames q rest = []"
  shows "map (\<lambda>(p, y, h). h) (frames p (pdf_cards lib dots y cards @ rest)) = map (cardH lib) cards \<and>
    list_all (on_page (pl_pageH lib)) (frames p (pdf_cards lib dots y cards @ rest)) \<and>
    list_all (\<lambda>(p', y', h). p < p' \<or> p = p' \<and> y \<le> y') (frames p (pdf_cards lib dots y cards @ rest)) \<and>
    sorted_wrt below (frames p (pdf_cards lib dots y cards @ rest))"
  using assms(2)
proof (induction cards arbitrary: y p)
  case Nil
  then show ?case using assms(3) by simp
next
  case (Cons c cs)
  define full where "full \<longleftrightarrow> y + cardH lib c > pl_pageH lib - margin"
  define y' where "y' = (if full then margin else y)"
  define q where "q = (if full then Suc p else p)"
  have h: "0 < cardH lib c" "cardH lib c \<le> 218" by (rule cardH_bounds)+
  have y': "margin \<le> y'" "y' + cardH lib c \<le> pl_pageH lib - margin"
    using Cons.prems assms(1) h by (auto simp: y'_def full_def margin_def)
  have e: "frames p (pdf_cards lib dots y (c # cs) @ rest) =
      (q, y', cardH lib c) # frames q (pdf_cards lib dots (y' + cardH lib c + 16) cs @ rest)"
    by (simp add: Let_def full_def [symmetric] y'_def [symmetric] q_def frames_card)
  have IH: "map (\<lambda>(p, y, h). h) (frames q (pdf_cards lib dots (y' + cardH lib c + 16) cs @ rest)) = map (cardH lib) cs \<and>
    list_all (on_page (pl_pageH lib)) (frames q (pdf_cards lib dots (y' + cardH lib c + 16) cs @ rest)) \<and>
    list_all (\<lambda>(p', z, h). q < p' \<or> q = p' \<and> y' + cardH lib c + 16 \<le> z) (frames q (pdf_cards lib dots (y' + cardH lib c + 16) cs @ rest)) \<and>
    sorted_wrt below (frames q (pdf_cards lib dots (y' + cardH lib c + 16) cs @ rest))"
    using y' h by (intro Cons.IH) simp
  have later: "p < p' \<or> p = p' \<and> y \<le> z" if "q < p' \<or> q = p' \<and> y' + cardH lib c + 16 \<le> z" for p' z
    using that h by (auto simp: q_def y'_def split: if_splits)
  let ?F = "frames q (pdf_cards lib dots (y' + cardH lib c + 16) cs @ rest)"
  have own: "p < q \<or> p = q \<and> y \<le> y'" by (auto simp: q_def y'_def)
  have after: "list_all (\<lambda>(p', z, h). p < p' \<or> p = p' \<and> y \<le> z) ?F"
    using IH later unfolding list_all_iff by fast
  have apart: "\<forall>b \<in> set ?F. below (q, y', cardH lib c) b"
    using IH by (auto simp: list_all_iff below_def)
  show ?case
    unfolding e using IH y' own after apart by (simp add: on_page_pair)
qed

text \<open>
  C24: the cards of the PDF are laid out without overlap. On every page of at least 282 points, such as A4, the
  document draws exactly one frame for each card, of the height of the card and in the order of the
  cards; every frame lies between the upper and the lower margin of its page, and a later frame is
  on a later page or at least sixteen points below.
\<close>
theorem pdf_layout:
  assumes "282 \<le> pl_pageH lib"
  shows "let fs = frames 1 (export_pdf (Some lib) g now cards filename) in
    map (\<lambda>(page, y, h). h) fs = map (cardH lib) cards \<and>
    list_all (\<lambda>(page, y, h). margin \<le> y \<and> y + h \<le> pl_pageH lib - margin) fs \<and>
    sorted_wrt (\<lambda>(page, y, h) (page', y', h'). page < page' \<or> page = page' \<and> y + h + 16 \<le> y') fs"
proof -
  have m: "margin \<le> margin + 44" by simp
  note f = frames_cards [OF assms m, of "[SaveAs (nonempty_or filename ''accounts'' @ ''.pdf'')]" 1 "ellipsis g" cards]
  have b: "below = (\<lambda>(page, y, h) (page', y', h'). page < page' \<or> page = page' \<and> y + h + 16 \<le> y')"
    by (intro ext) (simp add: below_def split: prod.splits)
  have o: "on_page (pl_pageH lib) = (\<lambda>(page, y, h). margin \<le> y \<and> y + h \<le> pl_pageH lib - margin)"
    by (intro ext) (simp add: on_page_def)
  show ?thesis using f by (simp add: export_pdf_def b o)
qed


text \<open>
  A clipped text fits the width it is given, or is a single character with the ellipsis; what is kept is
  the longest beginning that fits.
\<close>

lemma clip_loop_result:
  "\<exists>n \<le> length t. clip_loop width dots maxW t = take n t \<and>
     (width (take n t @ dots) \<le> maxW \<or> n \<le> 1) \<and> (\<forall>m. n < m \<and> m \<le> length t \<longrightarrow> maxW < width (take m t @ dots))"
proof (induction width dots maxW t rule: clip_loop.induct)
  case (1 width dots maxW t)
  show ?case
  proof (cases "1 < length t \<and> maxW < width (t @ dots)")
    case True
    obtain n where n: "n \<le> length (butlast t)" "clip_loop width dots maxW (butlast t) = take n (butlast t)"
      "width (take n (butlast t) @ dots) \<le> maxW \<or> n \<le> 1"
      "\<forall>m. n < m \<and> m \<le> length (butlast t) \<longrightarrow> maxW < width (take m (butlast t) @ dots)"
      using "1.IH" [OF True] by blast
    have sub: "take m (butlast t) = take m t" if "m \<le> length (butlast t)" for m
      using that by (simp add: butlast_conv_take min_absorb1)
    have "maxW < width (take m t @ dots)" if "n < m" "m \<le> length t" for m
      using n(4) sub [of m] that True by (cases "m = length t") auto
    with n sub [OF n(1)] True show ?thesis by (intro exI [of _ n]) (auto simp: clip_loop.simps [of width dots maxW t])
  next
    case False
    then show ?thesis by (intro exI [of _ "length t"]) (auto simp: clip_loop.simps [of width dots maxW t])
  qed
qed

text \<open>
  Whatever the fonts: a text that fits is drawn as it is; a longer one as its longest beginning that fits with the
  ellipsis, and never less than one character.
\<close>
theorem clip_longest:
  "if s = '''' \<or> width s \<le> maxW then clip width dots s maxW = s
   else \<exists>n. clip width dots s maxW = take n s @ dots \<and> (width (take n s @ dots) \<le> maxW \<or> n \<le> 1) \<and>
     (\<forall>m. n < m \<and> m \<le> length s \<longrightarrow> maxW < width (take m s @ dots))"
  using clip_loop_result [of s width dots maxW] by (auto simp: clip_def)

section \<open>What the cards show\<close>

text \<open>
  C26: no exported L2TP account shows its pre-shared key. The card reads properties of the settings that L2TP
  settings do not have: whatever the settings of an L2TP inbound are, also with IPsec enabled and a key
  set, the card has no key and calls the network raw, and the text file has no line for the key.
\<close>
theorem l2tp_psk_lost:
  assumes "db_get x ''protocol'' = JStr ''l2tp''" and "ib_settings i = L2tpSet s" and "make_card env x i c used = Some cd"
  shows "cd_psk cd = JStr '''' \<and> cd_network cd = ''raw'' \<and> txt_line ''PSK'' (cd_psk cd) = [] \<and>
    row_if ''PSK'' (cd_psk cd) = []"
proof -
  have p: "db_isL2tp x" "\<not> db_isOpenvpn x" "\<not> db_isPptp x"
    using assms(1) by (simp_all add: db_isL2tp_def db_isOpenvpn_def db_isPptp_def)
  have none: "l2tp_part (ib_settings i) ''ipsec'' = JUndef" by (simp add: assms(2) l2tp_part_def)
  have "cd_psk cd = JStr ''''" "cd_network cd = ''raw''"
    using assms(3) p none by (auto simp: make_card_def export_psk_def export_network_def split: bind_splits)
  then show ?thesis by (simp add: txt_line_def row_if_def)
qed

text \<open>The protocols without share links have cards without a link, so without a QR code.\<close>

lemma no_link_protocol:
  assumes "\<not> one_of (ib_protocol i) [''vmess'', ''vless'', ''shadowsocks'', ''trojan'', ''hysteria'']"
  shows "genLink canon i address port forceTls remark client = Some ''''"
  using assms by (simp add: genLink_def one_of_def Let_def)

theorem vpn_card_no_qr:
  assumes "\<not> one_of (ib_protocol i) [''vmess'', ''vless'', ''shadowsocks'', ''trojan'', ''hysteria'']"
    and "make_card env x i c used = Some cd"
  shows "cd_link cd = '''' \<and> card_qr lib cd = ''''"
proof -
  have "lk_link l = ''''" if "proxy_link canon i r m cl e ep = Some l" for canon r m cl e ep l
    using that by (auto simp: proxy_link_def no_link_protocol [OF assms(1)] split: bind_splits)
  moreover have "\<exists>ep. f ep = Some l" if "mapM f eps = Some (l # ls)" for f :: "jsv \<Rightarrow> link option" and eps l ls
    using that by (cases eps) (auto split: bind_splits)
  ultimately have "export_link env i c = ''''"
    by (fastforce simp: export_link_def genAllLinks_def Let_def no_link_protocol [OF assms(1)]
        split: option.splits list.splits bind_splits jsv.splits if_splits)
  then show ?thesis using assms(2) by (auto simp: make_card_def card_qr_def split: bind_splits)
qed

section \<open>Concrete cards\<close>

definition sample_glyphs :: glyphs where
  "sample_glyphs = \<lparr>infinity = ''oo'', double_bar = ''='', single_bar = ''-'', em_dash = ''-'', ellipsis = ''...''\<rparr>"

definition sample_env :: export_env where
  "sample_env = \<lparr>ee_glyphs = sample_glyphs, ee_canon = (\<lambda>s. Some s), ee_hostname = ''panel'', ee_remarkModel = ''-ieo'',
     ee_formatDate = (\<lambda>d. None), ee_toLocaleString = (\<lambda>d. ''later'')\<rparr>"

definition sample_card :: card where
  "sample_card = \<lparr>cd_remark = JStr ''home'', cd_protocol = ''VLESS'', cd_network = ''tcp'', cd_server = JStr ''panel'',
     cd_port = ''443'', cd_email = JStr ''alice'', cd_password = JStr '''', cd_uuid = JStr ''1-2'', cd_psk = JStr '''',
     cd_expiry = ''oo'', cd_used = ''0 B'', cd_total = ''oo'', cd_enable = True, cd_link = ''vless://1-2@panel:443''\<rparr>"

definition sample_lib :: pdf_lib where
  "sample_lib = \<lparr>pl_width = (\<lambda>style points s. of_nat (points * length s) / 2), pl_pageW = 595, pl_pageH = 842, pl_qr = (\<lambda>s. Some s)\<rparr>"

theorem pdf_layout_witness:
  "let fs = frames 1 (export_pdf (Some sample_lib) sample_glyphs ''today'' (replicate 5 sample_card) '''') in
    length fs = 5 \<and> list_all (\<lambda>(page, y, h). 32 \<le> y \<and> y + h \<le> 810) fs \<and>
    sorted_wrt (\<lambda>(page, y, h) (page', y', h'). page < page' \<or> page = page' \<and> y + h + 16 \<le> y') fs"
proof -
  have p: "282 \<le> pl_pageH sample_lib" by (simp add: sample_lib_def)
  let ?fs = "frames 1 (export_pdf (Some sample_lib) sample_glyphs ''today'' (replicate 5 sample_card) '''')"
  note f = pdf_layout [OF p, of sample_glyphs "''today''" "replicate 5 sample_card" "''''", unfolded Let_def]
  have "length ?fs = 5" using arg_cong [OF f [THEN conjunct1], of length] by simp
  then show ?thesis using f by (simp add: Let_def margin_def sample_lib_def)
qed

definition sample_l2tp_user :: L2tpUser where
  "sample_l2tp_user = \<lparr>vu_id = JStr ''bob'', vu_password = JStr ''pw'', vu_email = JStr ''bob'', vu_enable = JBool True,
     vu_expiryTime = jint 0, vu_tgId = JStr '''', vu_subId = JStr '''', vu_comment = JStr '''', vu_totalGB = jint 0,
     vu_limitIp = jint 0, vu_reset = jint 0, vu_created_at = JUndef, vu_updated_at = JUndef\<rparr>"

definition sample_l2tp :: L2tpSettings where
  "sample_l2tp = fst (new_L2tpSettings (JBool True) (JStr ''secret'') JUndef JUndef JUndef JUndef JUndef JUndef JUndef
     JUndef JUndef (Some [sample_l2tp_user]) sample_world)"

definition sample_l2tp_inbound :: Inbound where
  "sample_l2tp_inbound = \<lparr>ib_port = jint 1701, ib_listen = JStr '''', ib_protocol = JStr ''l2tp'',
     ib_settings = L2tpSet sample_l2tp, ib_stream = fst (default_StreamSettings sample_world), ib_tag = JStr '''',
     ib_sniffing = default_Sniffing, ib_clientStats = JStr ''''\<rparr>"

definition sample_l2tp_row :: DBInbound where
  "sample_l2tp_row = new_DBInbound (JObj [(''remark'', JStr ''home''), (''protocol'', JStr ''l2tp'')])"

theorem l2tp_psk_lost_witness:
  "l2_ipsecPsk sample_l2tp = JStr ''secret'' \<and>
   (\<exists>cd. make_card sample_env sample_l2tp_row sample_l2tp_inbound (CVpn sample_l2tp_user) ''0 B'' = Some cd \<and>
     cd_email cd = JStr ''bob'' \<and> cd_psk cd = JStr '''' \<and> txt_line ''PSK'' (cd_psk cd) = [])"
proof -
  have s: "l2_ipsecPsk sample_l2tp = JStr ''secret''"
    by (simp add: sample_l2tp_def new_L2tpSettings_def split_beta)
  have r: "db_get sample_l2tp_row ''protocol'' = JStr ''l2tp''" "db_get sample_l2tp_row ''remark'' = JStr ''home''"
    by (simp_all add: sample_l2tp_row_def row_get db_defaults_def)
  obtain cd where cd: "make_card sample_env sample_l2tp_row sample_l2tp_inbound (CVpn sample_l2tp_user) ''0 B'' = Some cd"
      "cd_email cd = JStr ''bob''"
    using r by (simp add: make_card_def upper_def js_or_def client_totalGB_def sample_l2tp_user_def client_email_def)
  have i: "ib_settings sample_l2tp_inbound = L2tpSet sample_l2tp" by (simp add: sample_l2tp_inbound_def)
  show ?thesis using s cd l2tp_psk_lost [OF r(1) i cd(1)] by blast
qed

end
