(* ===== verification/PageUtil.thy ===== *)
theory PageUtil
  imports Browser
begin

text \<open>
  What the panel does through the browser: the interceptors of requests (web/assets/js/axios-init.js) with
  the HttpUtil that sees their results, and the helpers of web/assets/js/util/index.js for the clipboard,
  files, dates and the width of the screen. The calls on the browser are recorded; its answers are parameters.
\<close>

section \<open>Requests and responses\<close>

text \<open>
  What the server and the network do: a response, a refusal with its status, the data of the response and
  the text of the error, or no answer at all.
\<close>

datatype net_result = Accepted "jsv option" | Refused int "jsv option" jsv | NoAnswer jsv

text \<open>
  The response interceptor: an unauthorized request reloads the page, and the caller gets what the reload
  returns, which is undefined.
\<close>

definition response_interceptor :: "net_result \<Rightarrow> axios_result \<times> bool" where
  "response_interceptor r =
     (case r of
        Accepted resp \<Rightarrow> (Response resp, False)
      | Refused statusCode data message \<Rightarrow>
          if statusCode = 401 then (Response None, True) else (Failure data message, False)
      | NoAnswer message \<Rightarrow> (Failure None message, False))"

text \<open>The request interceptor; \<open>Qs.stringify\<close> with repeated keys for arrays is a parameter.\<close>

datatype request_data = FormData jsv | PlainData jsv | Encoded string

record request_config =
  rq_data :: request_data
  rq_headers :: entries

definition default_headers :: entries where
  "default_headers =
     [(''Content-Type'', JStr ''application/x-www-form-urlencoded; charset=UTF-8''), (''X-Requested-With'', JStr ''XMLHttpRequest'')]"

definition request_interceptor :: "(jsv \<Rightarrow> string) \<Rightarrow> request_config \<Rightarrow> request_config" where
  "request_interceptor qs config =
     (case rq_data config of
        FormData _ \<Rightarrow> config\<lparr>rq_headers := obj_set (rq_headers config) ''Content-Type'' (JStr ''multipart/form-data'')\<rparr>
      | PlainData v \<Rightarrow> config\<lparr>rq_data := Encoded (qs v)\<rparr>
      | Encoded s \<Rightarrow> config\<lparr>rq_data := Encoded (qs (JStr s))\<rparr>)"

text \<open>A request of the panel: the reply, the toast and whether the page is loaded again.\<close>

definition panel_request :: "net_result \<Rightarrow> (reply \<times> (string \<times> jsv) option) \<times> bool" where
  "panel_request r = (let (result, reload) = response_interceptor r in (HttpUtil_post result, reload))"

text \<open>
  C27: the panel tells every request that fails. The page is loaded again exactly for a refusal with status 401,
  and then the caller gets an unsuccessful message that there is no data; any other refusal, and
  no answer, is an unsuccessful message with a text. Each of these shows that text as an error, and a
  modal of the request stays open.
\<close>
theorem unauthorized_reload:
  "let ((reply, toast), reload) = panel_request r; modal = postWithModal True (fst (response_interceptor r)) in
    (reload \<longleftrightarrow> (case r of Refused statusCode _ _ \<Rightarrow> statusCode = 401 | _ \<Rightarrow> False)) \<and>
    (case r of Accepted resp \<Rightarrow> reply = respToMsg resp
     | Refused statusCode data message \<Rightarrow>
         (\<exists>m. reply = AsMsg m \<and> m_success m = JBool False \<and> truthy (m_msg m) \<and> toast = Some (''error'', m_msg m) \<and>
           (if statusCode = 401 then m_msg m = JStr ''No response data'' else m_msg m = error_text data message) \<and>
           modal = (reply, [Loading True, Loading False]))
     | NoAnswer message \<Rightarrow>
         (\<exists>m. reply = AsMsg m \<and> m_success m = JBool False \<and> toast = Some (''error'', m_msg m) \<and>
           m_msg m = error_text None message \<and> modal = (reply, [Loading True, Loading False])))"
proof -
  have t: "truthy (error_text d m)" for d m using error_text_truthy [of d m JUndef] by (simp add: error_text_def js_or_def)
  have u: "error_text d m \<noteq> JUndef" "error_text d m \<noteq> JStr ''''" for d m
    using t [of d m] by auto
  show ?thesis
    by (cases r)
       (auto simp: panel_request_def response_interceptor_def HttpUtil_post_def http_request_def handleMsg_def respToMsg_def
          new_Msg_def postWithModal_def Let_def u t)
qed

section \<open>Dates\<close>

text \<open>\<open>Math.round\<close>; the number of days that a relative time is given in. A negative date is a delay.\<close>

definition js_round :: "rat \<Rightarrow> int" where
  "js_round x = rat_floor (x + 1 / 2)"

definition relative_days :: "rat \<Rightarrow> rat \<Rightarrow> int" where
  "relative_days now date = (if date < 0 then js_round (date / (1000 * 60 * 60 * 24)) else js_round ((date - now) / (1000 * 60 * 60 * 24)))"

text \<open>Both formatters ask for the language, which may set the cookie and reload the page.\<close>

definition formatDate :: "(string \<Rightarrow> rat \<Rightarrow> string) \<Rightarrow> string \<Rightarrow> string option \<Rightarrow> rat \<Rightarrow> string \<times> page_effect" where
  "formatDate intl cookie navigator date = (let (language, e) = getLanguage cookie navigator in (intl language date, e))"

definition formatRelativeTime ::
  "(string \<Rightarrow> int \<Rightarrow> string) \<Rightarrow> string \<Rightarrow> string option \<Rightarrow> rat \<Rightarrow> rat \<Rightarrow> string \<times> page_effect" where
  "formatRelativeTime intl cookie navigator now date =
     (let (language, e) = getLanguage cookie navigator in (intl language (relative_days now date), e))"

text \<open>The days shown differ from the exact time by half a day at most.\<close>
theorem relative_days_nearest:
  "\<bar>of_int (relative_days now date) * 86400000 - (if date < 0 then date else date - now)\<bar> \<le> 43200000"
proof -
  have "\<bar>of_int (js_round (t / 86400000)) * 86400000 - t\<bar> \<le> 43200000" for t :: rat
  proof -
    define x where "x = t / 86400000"
    have "of_int (js_round x) \<le> x + 1 / 2" "x + 1 / 2 < of_int (js_round x) + 1"
      unfolding js_round_def rat_floor_floor by linarith+
    moreover have "t = x * 86400000" by (simp add: x_def)
    ultimately show ?thesis unfolding x_def [symmetric] by linarith
  qed
  from this [of "if date < 0 then date else date - now"] show ?thesis by (simp add: relative_days_def split: if_splits)
qed

section \<open>The clipboard and files\<close>

datatype dom_op =
    CreateElement string
  | SetStyle string string
  | SetTop
  | SetReadonly
  | SetValue string
  | AppendToBody
  | SelectText
  | ExecCopy
  | RemoveFromBody
  | SetDownload string
  | SetHref string jsv
  | Click
  | RevokeURL
  | RemoveElement

text \<open>Calls in order, up to the first that throws.\<close>

fun run_dom :: "(dom_op \<Rightarrow> bool) \<Rightarrow> dom_op list \<Rightarrow> dom_op list \<times> bool" where
  "run_dom throws [] = ([], True)"
| "run_dom throws (x # xs) =
     (if throws x then ([], False) else let (done_ops, ok) = run_dom throws xs in (x # done_ops, ok))"

definition hidden_style :: "dom_op list" where
  "hidden_style =
     [SetStyle ''border'' ''0'', SetStyle ''padding'' ''0'', SetStyle ''margin'' ''0'', SetStyle ''position'' ''absolute'',
      SetStyle ''left'' ''-9999px'', SetTop]"

text \<open>The calls made and the value that the promise resolves to.\<close>

definition copyText :: "(dom_op \<Rightarrow> bool) \<Rightarrow> string \<Rightarrow> dom_op list \<times> bool" where
  "copyText throws content =
     run_dom throws ([CreateElement ''textarea'', SetStyle ''fontSize'' ''12pt''] @ hidden_style @
       [SetReadonly, SetValue content, AppendToBody, SelectText, ExecCopy, RemoveFromBody])"

text \<open>The options of a download: a text names the type, and anything that is no object is replaced.\<close>

definition blob_options :: "jsv \<Rightarrow> jsv" where
  "blob_options options =
     (let options = dflt options (JObj [(''type'', JStr ''text/plain'')]);
          options = (case options of JStr s \<Rightarrow> JObj [(''type'', JStr s)] | v \<Rightarrow> v)
      in if \<not> truthy options \<or> js_typeof options \<noteq> ''object'' then JObj [(''type'', JStr ''text/plain'')] else options)"

definition downloadTextFile :: "(dom_op \<Rightarrow> bool) \<Rightarrow> string \<Rightarrow> string option \<Rightarrow> jsv \<Rightarrow> dom_op list \<times> bool" where
  "downloadTextFile throws content filename options =
     run_dom throws ([CreateElement ''a'', SetDownload (case filename of Some f \<Rightarrow> f | None \<Rightarrow> ''file.txt'')] @ hidden_style @
       [SetHref content (blob_options options), Click, RevokeURL, RemoveElement])"

lemma run_dom_append:
  "run_dom throws (xs @ ys) =
     (case run_dom throws xs of (d, True) \<Rightarrow> (let (e, ok) = run_dom throws ys in (d @ e, ok)) | (d, False) \<Rightarrow> (d, False))"
  by (induction xs) (auto simp: Let_def split: prod.splits bool.splits)

text \<open>
  The promise never rejects, and it is true exactly when no call throws. When the copy command itself throws, the
  text area stays in the page.
\<close>
theorem copyText_leaves_element:
  "(snd (copyText throws content) \<longleftrightarrow> RemoveFromBody \<in> set (fst (copyText throws content))) \<and>
   (throws ExecCopy \<and> AppendToBody \<in> set (fst (copyText throws content)) \<longrightarrow>
      RemoveFromBody \<notin> set (fst (copyText throws content)) \<and> \<not> snd (copyText throws content))"
  by (simp add: copyText_def hidden_style_def Let_def split_beta)

lemma blob_options_object: "js_typeof (blob_options v) = ''object'' \<and> truthy (blob_options v)"
  by (cases v) (auto simp: blob_options_def Let_def dflt_def)

section \<open>The width of the screen\<close>

text \<open>The mixin: its data, and its life from mounting to destruction with the resizes of the window between.\<close>

record media_mixin =
  mq_isMobile :: bool
  mq_listening :: bool

datatype window_event = Mounted | Resized | BeforeDestroy

definition mixin_data :: "int \<Rightarrow> media_mixin" where
  "mixin_data innerWidth = \<lparr>mq_isMobile = (innerWidth \<le> 768), mq_listening = False\<rparr>"

definition updateDeviceType :: "int \<Rightarrow> media_mixin \<Rightarrow> media_mixin" where
  "updateDeviceType innerWidth m = m\<lparr>mq_isMobile := (innerWidth \<le> 768)\<rparr>"

fun mixin_step :: "media_mixin \<Rightarrow> window_event \<times> int \<Rightarrow> media_mixin" where
  "mixin_step m (Mounted, width) = m\<lparr>mq_listening := True\<rparr>"
| "mixin_step m (Resized, width) = (if mq_listening m then updateDeviceType width m else m)"
| "mixin_step m (BeforeDestroy, width) = m\<lparr>mq_listening := False\<rparr>"

lemma mixin_follows:
  "mq_listening m \<Longrightarrow> list_all (\<lambda>e. fst e = Resized) es \<Longrightarrow> es \<noteq> [] \<Longrightarrow>
     mq_isMobile (foldl mixin_step m es) \<longleftrightarrow> snd (last es) \<le> 768"
proof (induction es arbitrary: m)
  case (Cons e es)
  obtain w where e: "e = (Resized, w)" using Cons.prems(2) by (cases e) simp
  show ?case
  proof (cases "es = []")
    case True
    with Cons.prems(1) show ?thesis by (simp add: e updateDeviceType_def)
  next
    case False
    have "mq_listening (mixin_step m e)" using Cons.prems(1) by (simp add: e updateDeviceType_def)
    from Cons.IH [OF this _ False] Cons.prems(2) False show ?thesis by simp
  qed
qed simp

end
