(* ===== verification/Tables.thy ===== *)
theory Tables
  imports InInbound OutBound
begin

text \<open>
  The tables of constants of web/assets/js/model/inbound.js and outbound.js, as lists of names and values, and
  what the classes need of them: the two files give the same names to different protocols, so each has
  its own table.
\<close>

section \<open>Inbound\<close>

definition ProtocolNames :: "(string \<times> string) list" where
  "ProtocolNames =
     [(''VMESS'', ''vmess''), (''VLESS'', ''vless''), (''TROJAN'', ''trojan''),
      (''SHADOWSOCKS'', ''shadowsocks''), (''WIREGUARD'', ''wireguard''), (''HYSTERIA'', ''hysteria''),
      (''MIXED'', ''mixed''), (''HTTP'', ''http''), (''TUNNEL'', ''tunnel''), (''TUN'', ''tun''),
      (''L2TP'', ''l2tp''), (''PPTP'', ''pptp''), (''OPENVPN'', ''openvpn''),
      (''OPENCONNECT'', ''openconnect''), (''SSTP'', ''sstp'')]"

definition ProtocolLabels :: "(string \<times> string) list" where
  "ProtocolLabels =
     [(''vmess'', ''VMess''), (''vless'', ''VLESS''), (''trojan'', ''Trojan''),
      (''shadowsocks'', ''Shadowsocks''), (''wireguard'', ''WireGuard''), (''hysteria'', ''Hysteria''),
      (''mixed'', ''Mixed''), (''http'', ''HTTP''), (''tunnel'', ''Tunnel''), (''tun'', ''TUN''),
      (''l2tp'', ''L2TP''), (''pptp'', ''PPTP''), (''openvpn'', ''OpenVPN''),
      (''openconnect'', ''OpenConnect (cisco)''), (''sstp'', ''SSTP'')]"

definition SSMethods :: "(string \<times> string) list" where
  "SSMethods =
     [(''AES_256_GCM'', ''aes-256-gcm''), (''AES_128_GCM'', ''aes-128-gcm''),
      (''CHACHA20_POLY1305'', ''chacha20-poly1305''), (''CHACHA20_IETF_POLY1305'', ''chacha20-ietf-poly1305''),
      (''XCHACHA20_IETF_POLY1305'', ''xchacha20-ietf-poly1305''),
      (''BLAKE3_AES_128_GCM'', ''2022-blake3-aes-128-gcm''),
      (''BLAKE3_AES_256_GCM'', ''2022-blake3-aes-256-gcm''),
      (''BLAKE3_CHACHA20_POLY1305'', ''2022-blake3-chacha20-poly1305'')]"

definition TLS_FLOW_CONTROL :: "(string \<times> string) list" where
  "TLS_FLOW_CONTROL =
     [(''VISION'', ''xtls-rprx-vision''), (''VISION_UDP443'', ''xtls-rprx-vision-udp443'')]"

definition TLS_VERSION_OPTION :: "(string \<times> string) list" where
  "TLS_VERSION_OPTION =
     [(''TLS10'', ''1.0''), (''TLS11'', ''1.1''), (''TLS12'', ''1.2''), (''TLS13'', ''1.3'')]"

definition TLS_CIPHER_OPTION :: "(string \<times> string) list" where
  "TLS_CIPHER_OPTION =
     [(''AES_128_GCM'', ''TLS_AES_128_GCM_SHA256''), (''AES_256_GCM'', ''TLS_AES_256_GCM_SHA384''),
      (''CHACHA20_POLY1305'', ''TLS_CHACHA20_POLY1305_SHA256''),
      (''ECDHE_ECDSA_AES_128_CBC'', ''TLS_ECDHE_ECDSA_WITH_AES_128_CBC_SHA''),
      (''ECDHE_ECDSA_AES_256_CBC'', ''TLS_ECDHE_ECDSA_WITH_AES_256_CBC_SHA''),
      (''ECDHE_RSA_AES_128_CBC'', ''TLS_ECDHE_RSA_WITH_AES_128_CBC_SHA''),
      (''ECDHE_RSA_AES_256_CBC'', ''TLS_ECDHE_RSA_WITH_AES_256_CBC_SHA''),
      (''ECDHE_ECDSA_AES_128_GCM'', ''TLS_ECDHE_ECDSA_WITH_AES_128_GCM_SHA256''),
      (''ECDHE_ECDSA_AES_256_GCM'', ''TLS_ECDHE_ECDSA_WITH_AES_256_GCM_SHA384''),
      (''ECDHE_RSA_AES_128_GCM'', ''TLS_ECDHE_RSA_WITH_AES_128_GCM_SHA256''),
      (''ECDHE_RSA_AES_256_GCM'', ''TLS_ECDHE_RSA_WITH_AES_256_GCM_SHA384''),
      (''ECDHE_ECDSA_CHACHA20_POLY1305'', ''TLS_ECDHE_ECDSA_WITH_CHACHA20_POLY1305_SHA256''),
      (''ECDHE_RSA_CHACHA20_POLY1305'', ''TLS_ECDHE_RSA_WITH_CHACHA20_POLY1305_SHA256'')]"

definition UTLS_FINGERPRINT :: "(string \<times> string) list" where
  "UTLS_FINGERPRINT =
     [(''UTLS_CHROME'', ''chrome''), (''UTLS_FIREFOX'', ''firefox''), (''UTLS_SAFARI'', ''safari''),
      (''UTLS_IOS'', ''ios''), (''UTLS_android'', ''android''), (''UTLS_EDGE'', ''edge''),
      (''UTLS_360'', ''360''), (''UTLS_QQ'', ''qq''), (''UTLS_RANDOM'', ''random''),
      (''UTLS_RANDOMIZED'', ''randomized''), (''UTLS_RONDOMIZEDNOALPN'', ''randomizednoalpn''),
      (''UTLS_UNSAFE'', ''unsafe'')]"

definition ALPN_OPTION :: "(string \<times> string) list" where
  "ALPN_OPTION =
     [(''H3'', ''h3''), (''H2'', ''h2''), (''HTTP1'', ''http/1.1'')]"

definition SNIFFING_OPTION :: "(string \<times> string) list" where
  "SNIFFING_OPTION =
     [(''HTTP'', ''http''), (''TLS'', ''tls''), (''QUIC'', ''quic''), (''FAKEDNS'', ''fakedns'')]"

definition USAGE_OPTION :: "(string \<times> string) list" where
  "USAGE_OPTION =
     [(''ENCIPHERMENT'', ''encipherment''), (''VERIFY'', ''verify''), (''ISSUE'', ''issue'')]"

definition DOMAIN_STRATEGY_OPTION :: "(string \<times> string) list" where
  "DOMAIN_STRATEGY_OPTION =
     [(''AS_IS'', ''AsIs''), (''USE_IP'', ''UseIP''), (''USE_IPV6V4'', ''UseIPv6v4''),
      (''USE_IPV6'', ''UseIPv6''), (''USE_IPV4V6'', ''UseIPv4v6''), (''USE_IPV4'', ''UseIPv4''),
      (''FORCE_IP'', ''ForceIP''), (''FORCE_IPV6V4'', ''ForceIPv6v4''), (''FORCE_IPV6'', ''ForceIPv6''),
      (''FORCE_IPV4V6'', ''ForceIPv4v6''), (''FORCE_IPV4'', ''ForceIPv4'')]"

definition TCP_CONGESTION_OPTION :: "(string \<times> string) list" where
  "TCP_CONGESTION_OPTION =
     [(''BBR'', ''bbr''), (''CUBIC'', ''cubic''), (''RENO'', ''reno'')]"

definition USERS_SECURITY :: "(string \<times> string) list" where
  "USERS_SECURITY =
     [(''AES_128_GCM'', ''aes-128-gcm''), (''CHACHA20_POLY1305'', ''chacha20-poly1305''), (''AUTO'', ''auto''),
      (''NONE'', ''none''), (''ZERO'', ''zero'')]"

definition MODE_OPTION :: "(string \<times> string) list" where
  "MODE_OPTION =
     [(''AUTO'', ''auto''), (''PACKET_UP'', ''packet-up''), (''STREAM_UP'', ''stream-up''),
      (''STREAM_ONE'', ''stream-one'')]"

section \<open>Outbound\<close>

definition Out_Protocols :: "(string \<times> string) list" where
  "Out_Protocols =
     [(''Freedom'', ''freedom''), (''Blackhole'', ''blackhole''), (''DNS'', ''dns''), (''VMess'', ''vmess''),
      (''VLESS'', ''vless''), (''Trojan'', ''trojan''), (''Shadowsocks'', ''shadowsocks''),
      (''Socks'', ''socks''), (''HTTP'', ''http''), (''Wireguard'', ''wireguard''),
      (''Hysteria'', ''hysteria'')]"

definition Out_SSMethods :: "(string \<times> string) list" where
  "Out_SSMethods =
     [(''AES_256_GCM'', ''aes-256-gcm''), (''AES_128_GCM'', ''aes-128-gcm''),
      (''CHACHA20_POLY1305'', ''chacha20-poly1305''), (''CHACHA20_IETF_POLY1305'', ''chacha20-ietf-poly1305''),
      (''XCHACHA20_POLY1305'', ''xchacha20-poly1305''),
      (''XCHACHA20_IETF_POLY1305'', ''xchacha20-ietf-poly1305''),
      (''BLAKE3_AES_128_GCM'', ''2022-blake3-aes-128-gcm''),
      (''BLAKE3_AES_256_GCM'', ''2022-blake3-aes-256-gcm''),
      (''BLAKE3_CHACHA20_POLY1305'', ''2022-blake3-chacha20-poly1305'')]"

definition Out_TLS_FLOW_CONTROL :: "(string \<times> string) list" where
  "Out_TLS_FLOW_CONTROL =
     [(''VISION'', ''xtls-rprx-vision''), (''VISION_UDP443'', ''xtls-rprx-vision-udp443'')]"

definition Out_UTLS_FINGERPRINT :: "(string \<times> string) list" where
  "Out_UTLS_FINGERPRINT =
     [(''UTLS_CHROME'', ''chrome''), (''UTLS_FIREFOX'', ''firefox''), (''UTLS_SAFARI'', ''safari''),
      (''UTLS_IOS'', ''ios''), (''UTLS_android'', ''android''), (''UTLS_EDGE'', ''edge''),
      (''UTLS_360'', ''360''), (''UTLS_QQ'', ''qq''), (''UTLS_RANDOM'', ''random''),
      (''UTLS_RANDOMIZED'', ''randomized''), (''UTLS_RONDOMIZEDNOALPN'', ''randomizednoalpn''),
      (''UTLS_UNSAFE'', ''unsafe'')]"

definition Out_ALPN_OPTION :: "(string \<times> string) list" where
  "Out_ALPN_OPTION =
     [(''H3'', ''h3''), (''H2'', ''h2''), (''HTTP1'', ''http/1.1'')]"

definition OutboundDomainStrategies :: "string list" where
  "OutboundDomainStrategies =
     [''AsIs'', ''UseIP'', ''UseIPv4'', ''UseIPv6'', ''UseIPv6v4'', ''UseIPv4v6'', ''ForceIP'',
      ''ForceIPv6v4'', ''ForceIPv6'', ''ForceIPv4v6'', ''ForceIPv4'']"

definition Out_USERS_SECURITY :: "(string \<times> string) list" where
  "Out_USERS_SECURITY =
     [(''AES_128_GCM'', ''aes-128-gcm''), (''CHACHA20_POLY1305'', ''chacha20-poly1305''), (''AUTO'', ''auto''),
      (''NONE'', ''none''), (''ZERO'', ''zero'')]"

definition Out_MODE_OPTION :: "(string \<times> string) list" where
  "Out_MODE_OPTION =
     [(''AUTO'', ''auto''), (''PACKET_UP'', ''packet-up''), (''STREAM_UP'', ''stream-up''),
      (''STREAM_ONE'', ''stream-one'')]"

definition Out_Address_Port_Strategy :: "(string \<times> string) list" where
  "Out_Address_Port_Strategy =
     [(''NONE'', ''none''), (''SrvPortOnly'', ''srvportonly''), (''SrvAddressOnly'', ''srvaddressonly''),
      (''SrvPortAndAddress'', ''srvportandaddress''), (''TxtPortOnly'', ''txtportonly''),
      (''TxtAddressOnly'', ''txtaddressonly''), (''TxtPortAndAddress'', ''txtportandaddress'')]"

section \<open>What the classes need\<close>

text \<open>The values of a table.\<close>

definition values_of :: "(string \<times> string) list \<Rightarrow> string list" where
  "values_of t = map snd t"

text \<open>Every protocol has exactly one label, and the protocols of the dispatch are those of the table.\<close>
theorem protocol_labels:
  "map fst ProtocolLabels = values_of ProtocolNames \<and> distinct (values_of ProtocolNames) \<and>
   set (values_of ProtocolNames) = set Protocols"
proof -
  have "map fst ProtocolLabels = values_of ProtocolNames" "distinct (values_of ProtocolNames)"
    by (simp_all add: ProtocolLabels_def ProtocolNames_def values_of_def)
  moreover have "list_all (\<lambda>p. p \<in> set Protocols) (values_of ProtocolNames)" "list_all (\<lambda>p. p \<in> set (values_of ProtocolNames)) Protocols"
    by (simp_all add: ProtocolNames_def values_of_def Protocols_def)
  ultimately show ?thesis by (auto simp: list_all_iff)
qed

text \<open>An inbound or an outbound has settings exactly for the protocols of its own table.\<close>
theorem inbound_protocols_known:
  assumes "getSettings (JStr p) w = Some (s, w')"
  shows "s = NoSettings \<longleftrightarrow> p \<notin> set (values_of ProtocolNames)"
proof -
  have "protocol_of s = p" if "p \<in> set Protocols" using getSettings_protocol [OF assms] that by simp
  moreover have "p \<noteq> ''''" if "p \<in> set Protocols" using that by (auto simp: Protocols_def)
  ultimately show ?thesis using getSettings_protocol [OF assms] protocol_labels by (auto split: if_splits)
qed

theorem outbound_protocols_known:
  assumes "out_getSettings (JStr p) = Some r"
  shows "r = None \<longleftrightarrow> p \<notin> set (values_of Out_Protocols)"
  using assms by (auto simp: out_getSettings_def values_of_def Out_Protocols_def split: if_splits)

text \<open>Defaults are values of their tables.\<close>
theorem defaults_in_tables:
  "default_destOverride = JArr (map JStr (values_of SNIFFING_OPTION))"
  by (simp add: default_destOverride_def SNIFFING_OPTION_def values_of_def)

end
