(* ===== verification/WsClient.thy ===== *)
theory WsClient
  imports Browser
begin

text \<open>
  WebSocketClient of web/assets/js/websocket.js. The browser's part is the list of sockets
  that were ever made, each with its ready state, and the timers that run; the client's part
  is its fields. What the handlers of a socket do is written on the client state, also for a
  socket that the client has already dropped: the code never detaches them.
\<close>

section \<open>State\<close>

datatype ready = Connecting | Open | Closing | Closed

record wsc =
  wc_ws :: "nat option"
  wc_sockets :: "ready list"
  wc_attempts :: nat
  wc_connected :: bool
  wc_shouldReconnect :: bool
  wc_timers :: "nat list"
  wc_emitted :: "string list"

definition maxReconnectAttempts :: nat where
  "maxReconnectAttempts = 10"

definition reconnectDelay :: nat where
  "reconnectDelay = 1000"

definition new_client :: wsc where
  "new_client = \<lparr>wc_ws = None, wc_sockets = [], wc_attempts = 0, wc_connected = False,
     wc_shouldReconnect = True, wc_timers = [], wc_emitted = []\<rparr>"

definition emitted :: "string \<Rightarrow> wsc \<Rightarrow> wsc" where
  "emitted ev c = c\<lparr>wc_emitted := wc_emitted c @ [ev]\<rparr>"

section \<open>Listeners\<close>

text \<open>
  The callbacks of an event, each a number here, in the order they were added, and what each
  of them does is whether it throws. An exception is caught around every single call.
\<close>

type_synonym listeners = "string \<rightharpoonup> nat list"

definition callbacks :: "listeners \<Rightarrow> string \<Rightarrow> nat list" where
  "callbacks ls ev = (case ls ev of None \<Rightarrow> [] | Some cbs \<Rightarrow> cbs)"

definition ws_on :: "string \<Rightarrow> nat \<Rightarrow> listeners \<Rightarrow> listeners" where
  "ws_on ev cb ls =
     (let cbs = callbacks ls ev in ls(ev \<mapsto> (if cb \<in> set cbs then cbs else cbs @ [cb])))"

definition ws_off :: "string \<Rightarrow> nat \<Rightarrow> listeners \<Rightarrow> listeners" where
  "ws_off ev cb ls = (case ls ev of None \<Rightarrow> ls | Some cbs \<Rightarrow> ls(ev \<mapsto> remove1 cb cbs))"

text \<open>
  The calls that \<open>emit\<close> makes, each with whether it threw. The array that \<open>forEach\<close> walks is the live one: a
  callback may add and remove listeners, \<open>run cb\<close> being what it does to them. The walk goes over as many
  positions as the array had at the start and takes what is there when it comes to them.
\<close>

fun emit_from :: "(nat \<Rightarrow> listeners \<Rightarrow> listeners \<times> bool) \<Rightarrow> string \<Rightarrow> nat list \<Rightarrow> listeners \<Rightarrow> (nat \<times> bool) list \<times> listeners" where
  "emit_from run ev [] ls = ([], ls)"
| "emit_from run ev (k # ks) ls =
     (let cbs = callbacks ls ev in
      if k < length cbs
      then (let (ls', threw) = run (cbs ! k) ls; (calls, ls'') = emit_from run ev ks ls' in ((cbs ! k, threw) # calls, ls''))
      else emit_from run ev ks ls)"

definition ws_emit :: "(nat \<Rightarrow> listeners \<Rightarrow> listeners \<times> bool) \<Rightarrow> string \<Rightarrow> listeners \<Rightarrow> (nat \<times> bool) list \<times> listeners" where
  "ws_emit run ev ls = emit_from run ev [0..<length (callbacks ls ev)] ls"

text \<open>Callbacks that leave the listeners alone are all called, in their order, whichever of them throw.\<close>

lemma emit_from_quiet:
  assumes "\<And>cb. run cb ls = (ls, throws cb)" and "\<forall>k \<in> set ks. k < length (callbacks ls ev)"
  shows "emit_from run ev ks ls = (map (\<lambda>k. (callbacks ls ev ! k, throws (callbacks ls ev ! k))) ks, ls)"
  using assms(2) by (induction ks) (simp_all add: assms(1) Let_def)

lemma ws_emit_quiet:
  assumes "\<And>cb. run cb ls = (ls, throws cb)"
  shows "ws_emit run ev ls = (map (\<lambda>cb. (cb, throws cb)) (callbacks ls ev), ls)"
proof -
  have "map (\<lambda>k. (callbacks ls ev ! k, throws (callbacks ls ev ! k))) [0..<length (callbacks ls ev)] =
      map (\<lambda>cb. (cb, throws cb)) (callbacks ls ev)"
    by (intro nth_equalityI) simp_all
  then show ?thesis using emit_from_quiet [of run ls throws "[0..<length (callbacks ls ev)]" ev] assms by (simp add: ws_emit_def)
qed

text \<open>A listener that removes itself makes the next one miss the event.\<close>

lemma ws_emit_skips:
  assumes "ls ev = Some [a, b]" and "run a ls = (ws_off ev a ls, threw)"
  shows "fst (ws_emit run ev ls) = [(a, threw)]"
  using assms by (simp add: ws_emit_def callbacks_def numeral_2_eq_2 ws_off_def)

definition listeners_ok :: "listeners \<Rightarrow> bool" where
  "listeners_ok ls \<longleftrightarrow> (\<forall>ev. distinct (callbacks ls ev))"

lemma ws_on_ok: "listeners_ok ls \<Longrightarrow> listeners_ok (ws_on ev cb ls)"
  by (auto simp: listeners_ok_def ws_on_def callbacks_def Let_def)

lemma ws_off_ok: "listeners_ok ls \<Longrightarrow> listeners_ok (ws_off ev cb ls)"
  by (auto simp: listeners_ok_def ws_off_def callbacks_def split: option.splits)

lemma ws_off_callbacks:
  "listeners_ok ls \<Longrightarrow> set (callbacks (ws_off ev cb ls) ev) = set (callbacks ls ev) - {cb}"
  by (auto simp: listeners_ok_def ws_off_def callbacks_def split: option.splits)

section \<open>Operations of the page\<close>

text \<open>\<open>wsUrl\<close>: the socket's address under the base path of the panel.\<close>

fun ends_with :: "string \<Rightarrow> char \<Rightarrow> bool" where
  "ends_with s c = (s \<noteq> '''' \<and> last s = c)"

definition wsUrl :: "bool \<Rightarrow> string \<Rightarrow> string \<Rightarrow> string" where
  "wsUrl https host basePath =
     (let protocol = (if https then ''wss:'' else ''ws:'');
          basePath = (if basePath \<noteq> '''' \<and> \<not> ends_with basePath (CHR ''/'') then basePath @ ''/'' else basePath)
      in protocol @ ''//'' @ host @ basePath @ ''ws'')"

definition current_state :: "wsc \<Rightarrow> ready option" where
  "current_state c = (case wc_ws c of None \<Rightarrow> None | Some i \<Rightarrow> Some (wc_sockets c ! i))"

text \<open>The constructor of the socket may throw; that is an event for the listeners, and no retry.\<close>

definition connect :: "bool \<Rightarrow> wsc \<Rightarrow> wsc" where
  "connect throws c =
     (if current_state c = Some Open \<or> current_state c = Some Connecting then c
      else (let c = c\<lparr>wc_shouldReconnect := True\<rparr> in
            if throws then emitted ''error'' c
            else c\<lparr>wc_ws := Some (length (wc_sockets c)), wc_sockets := wc_sockets c @ [Connecting]\<rparr>))"

definition closing :: "ready \<Rightarrow> ready" where
  "closing r = (if r = Closed then Closed else Closing)"

definition close_socket :: "nat \<Rightarrow> wsc \<Rightarrow> wsc" where
  "close_socket i c = c\<lparr>wc_sockets := (wc_sockets c)[i := closing (wc_sockets c ! i)]\<rparr>"

definition disconnect :: "wsc \<Rightarrow> wsc" where
  "disconnect c =
     (let c = c\<lparr>wc_shouldReconnect := False\<rparr> in
      case wc_ws c of None \<Rightarrow> c | Some i \<Rightarrow> (close_socket i c)\<lparr>wc_ws := None\<rparr>)"

text \<open>Whether \<open>send\<close> passes its data to the socket; otherwise it only warns.\<close>

definition sends :: "wsc \<Rightarrow> bool" where
  "sends c \<longleftrightarrow> current_state c = Some Open"

section \<open>Handlers of a socket\<close>

definition onopen :: "wsc \<Rightarrow> wsc" where
  "onopen c = emitted ''connected'' (c\<lparr>wc_connected := True, wc_attempts := 0\<rparr>)"

definition onerror :: "wsc \<Rightarrow> wsc" where
  "onerror c = emitted ''error'' c"

definition onclose :: "wsc \<Rightarrow> wsc" where
  "onclose c =
     (let c = emitted ''disconnected'' (c\<lparr>wc_connected := False\<rparr>) in
      if wc_shouldReconnect c \<and> wc_attempts c < maxReconnectAttempts
      then (let c = c\<lparr>wc_attempts := wc_attempts c + 1\<rparr>
            in c\<lparr>wc_timers := wc_timers c @ [reconnectDelay * 2 ^ (wc_attempts c - 1)]\<rparr>)
      else c)"

text \<open>
  A message: too large a one closes the current socket (an exception is caught when there is
  none); text that is no JSON object is dropped; otherwise the listeners of its type and those
  of all messages are called. The parsed message is given, None for text that does not parse.
\<close>

fun message_type :: "jsv \<Rightarrow> jsv" where
  "message_type (JObj kvs) = look kvs ''type''"
| "message_type _ = JUndef"

definition handleMessage :: "jsv \<Rightarrow> wsc \<Rightarrow> wsc" where
  "handleMessage message c = emitted ''message'' (emitted (js_to_string (message_type message)) c)"

definition maxMessageSize :: nat where
  "maxMessageSize = 10 * 1024 * 1024"

definition onmessage :: "nat \<Rightarrow> jsv option \<Rightarrow> wsc \<Rightarrow> wsc" where
  "onmessage len parsed c =
     (if maxMessageSize < len then (case wc_ws c of None \<Rightarrow> c | Some i \<Rightarrow> close_socket i c)
      else case parsed of
        None \<Rightarrow> c
      | Some m \<Rightarrow> if \<not> truthy m \<or> \<not> is_object m then c else handleMessage m c)"

section \<open>Steps\<close>

text \<open>
  A step is a call of the page, an event of a socket, or a timer that runs out. A socket opens
  once, from Connecting, and closes once; messages come while it is open. The constructor of a
  socket throws only where \<open>may\<close> allows it.
\<close>

inductive ws_step :: "bool \<Rightarrow> wsc \<Rightarrow> wsc \<Rightarrow> bool" for may :: bool where
  step_connect: "(throws \<longrightarrow> may) \<Longrightarrow> ws_step may c (connect throws c)"
| step_disconnect: "ws_step may c (disconnect c)"
| step_open: "i < length (wc_sockets c) \<Longrightarrow> wc_sockets c ! i = Connecting \<Longrightarrow>
    ws_step may c (onopen (c\<lparr>wc_sockets := (wc_sockets c)[i := Open]\<rparr>))"
| step_message: "i < length (wc_sockets c) \<Longrightarrow> wc_sockets c ! i = Open \<Longrightarrow> ws_step may c (onmessage len parsed c)"
| step_error: "i < length (wc_sockets c) \<Longrightarrow> wc_sockets c ! i \<noteq> Closed \<Longrightarrow> ws_step may c (onerror c)"
| step_close: "i < length (wc_sockets c) \<Longrightarrow> wc_sockets c ! i \<noteq> Closed \<Longrightarrow>
    ws_step may c (onclose (c\<lparr>wc_sockets := (wc_sockets c)[i := Closed]\<rparr>))"
| step_timer: "k < length (wc_timers c) \<Longrightarrow> (throws \<longrightarrow> may) \<Longrightarrow>
    ws_step may c (connect throws (c\<lparr>wc_timers := splice1 k (wc_timers c)\<rparr>))"

inductive ws_reach :: "bool \<Rightarrow> wsc \<Rightarrow> bool" for may :: bool where
  reach_new: "ws_reach may new_client"
| reach_step: "ws_reach may c \<Longrightarrow> ws_step may c d \<Longrightarrow> ws_reach may d"

inductive_cases ws_stepE: "ws_step may c d"

section \<open>What holds of every reachable state\<close>

text \<open>
  The client never has two live connections: a socket that is connecting or open is the
  current one. The attempts stay within the limit, and so do the delays of the timers.
\<close>

definition live :: "ready \<Rightarrow> bool" where
  "live r \<longleftrightarrow> r = Connecting \<or> r = Open"

definition one_live :: "nat option \<Rightarrow> ready list \<Rightarrow> bool" where
  "one_live ws ss \<longleftrightarrow>
     (\<forall>i < length ss. live (ss ! i) \<longrightarrow> ws = Some i) \<and> (\<forall>i. ws = Some i \<longrightarrow> i < length ss)"

definition delay_ok :: "nat \<Rightarrow> bool" where
  "delay_ok d \<longleftrightarrow> (\<exists>k < maxReconnectAttempts. d = reconnectDelay * 2 ^ k)"

definition ws_inv :: "wsc \<Rightarrow> bool" where
  "ws_inv c \<longleftrightarrow> one_live (wc_ws c) (wc_sockets c) \<and> wc_attempts c \<le> maxReconnectAttempts \<and>
     list_all delay_ok (wc_timers c)"

lemma one_live_new: "\<forall>i < length ss. \<not> live (ss ! i) \<Longrightarrow> one_live (Some (length ss)) (ss @ [r])"
  unfolding one_live_def by (metis length_append_singleton less_Suc_eq lessI nth_append option.inject)

lemma one_live_update:
  assumes "one_live ws ss" and "live r \<Longrightarrow> live (ss ! i)"
  shows "one_live ws (ss[i := r])"
proof -
  have "live (ss[i := r] ! j) \<Longrightarrow> live (ss ! j)" if "j < length ss" for j
    using that assms(2) by (cases "j = i") simp_all
  with assms(1) show ?thesis unfolding one_live_def length_list_update by blast
qed

lemma one_live_drop:
  assumes "one_live (Some i) ss" and "\<not> live r"
  shows "one_live None (ss[i := r])"
proof -
  have "\<not> live (ss[i := r] ! j)" if "j < length ss" for j
    using that assms unfolding one_live_def by (cases "j = i") auto
  then show ?thesis unfolding one_live_def length_list_update by blast
qed

lemma emitted_fields [simp]:
  "wc_ws (emitted ev c) = wc_ws c" "wc_sockets (emitted ev c) = wc_sockets c"
  "wc_attempts (emitted ev c) = wc_attempts c" "wc_timers (emitted ev c) = wc_timers c"
  "wc_shouldReconnect (emitted ev c) = wc_shouldReconnect c" "wc_connected (emitted ev c) = wc_connected c"
  by (simp_all add: emitted_def)

lemma live_simps [simp]: "live Connecting" "live Open" "\<not> live Closing" "\<not> live Closed" "\<not> live (closing r)"
  by (simp_all add: live_def closing_def)

lemma ws_inv_new: "ws_inv new_client"
  by (simp add: ws_inv_def new_client_def one_live_def)

lemma ws_inv_emitted [simp]: "ws_inv (emitted ev c) = ws_inv c"
  by (simp add: ws_inv_def)

lemma no_live:
  assumes "one_live ws ss" and "case ws of None \<Rightarrow> True | Some i \<Rightarrow> \<not> live (ss ! i)"
  shows "\<forall>i < length ss. \<not> live (ss ! i)"
  using assms unfolding one_live_def by (cases ws) auto

lemma connect_dead:
  assumes "ws_inv c" and "current_state c \<noteq> Some Open" and "current_state c \<noteq> Some Connecting"
  shows "\<forall>i < length (wc_sockets c). \<not> live (wc_sockets c ! i)"
proof (rule no_live)
  show "one_live (wc_ws c) (wc_sockets c)" using assms(1) by (simp add: ws_inv_def)
  show "case wc_ws c of None \<Rightarrow> True | Some i \<Rightarrow> \<not> live (wc_sockets c ! i)"
    using assms(2,3) by (cases "wc_ws c") (simp_all add: current_state_def live_def)
qed

lemma ws_inv_connect: "ws_inv c \<Longrightarrow> ws_inv (connect throws c)"
  using connect_dead [of c] by (simp add: connect_def Let_def ws_inv_def one_live_new)

lemma ws_inv_close_socket: "ws_inv c \<Longrightarrow> ws_inv (close_socket i c)"
  using one_live_update [of "wc_ws c" "wc_sockets c" "closing (wc_sockets c ! i)" i]
  by (simp add: ws_inv_def close_socket_def)

lemma ws_inv_disconnect: "ws_inv c \<Longrightarrow> ws_inv (disconnect c)"
  by (cases "wc_ws c") (simp_all add: disconnect_def ws_inv_def close_socket_def one_live_drop)

lemma ws_inv_open:
  "ws_inv c \<Longrightarrow> wc_sockets c ! i = Connecting \<Longrightarrow> ws_inv (onopen (c\<lparr>wc_sockets := (wc_sockets c)[i := Open]\<rparr>))"
  using one_live_update [of "wc_ws c" "wc_sockets c" Open i] by (simp add: ws_inv_def onopen_def)

lemma ws_inv_closed: "ws_inv c \<Longrightarrow> ws_inv (c\<lparr>wc_sockets := (wc_sockets c)[i := Closed]\<rparr>)"
  using one_live_update [of "wc_ws c" "wc_sockets c" Closed i] by (simp add: ws_inv_def)

lemma delay_next: "n < maxReconnectAttempts \<Longrightarrow> delay_ok (reconnectDelay * 2 ^ n)"
  by (auto simp: delay_ok_def)

lemma ws_inv_onclose: "ws_inv c \<Longrightarrow> ws_inv (onclose c)"
  by (simp add: ws_inv_def onclose_def Let_def delay_next)

lemma ws_inv_message: "ws_inv c \<Longrightarrow> ws_inv (onmessage len parsed c)"
  by (simp add: onmessage_def handleMessage_def ws_inv_close_socket split: option.splits)

lemma ws_inv_timer: "ws_inv c \<Longrightarrow> ws_inv (c\<lparr>wc_timers := splice1 k (wc_timers c)\<rparr>)"
  by (simp add: ws_inv_def list_all_iff splice1_def) (blast dest: in_set_takeD in_set_dropD)

lemma ws_inv_step: "ws_step may c d \<Longrightarrow> ws_inv c \<Longrightarrow> ws_inv d"
  by (induction rule: ws_step.induct)
    (simp_all add: ws_inv_connect ws_inv_disconnect ws_inv_open ws_inv_message ws_inv_onclose ws_inv_closed
       ws_inv_timer onerror_def)

lemma ws_reach_inv: "ws_reach may c \<Longrightarrow> ws_inv c"
  by (induction rule: ws_reach.induct) (simp_all add: ws_inv_new ws_inv_step)

section \<open>Reconnecting\<close>

text \<open>
  A client that was not told to disconnect is waiting for a timer whenever its socket has
  closed and it has attempts left, as long as no constructor throws.
\<close>

definition retry_inv :: "wsc \<Rightarrow> bool" where
  "retry_inv c \<longleftrightarrow>
     (wc_ws c \<noteq> None \<longrightarrow> wc_shouldReconnect c) \<and>
     (current_state c = Some Closed \<and> wc_attempts c < maxReconnectAttempts \<longrightarrow> wc_timers c \<noteq> [])"

lemma current_state_emitted [simp]: "current_state (emitted ev c) = current_state c"
  by (simp add: current_state_def split: option.split)

lemma retry_inv_emitted [simp]: "retry_inv (emitted ev c) = retry_inv c"
  by (simp add: retry_inv_def)

lemma retry_new: "retry_inv new_client"
  by (simp add: retry_inv_def new_client_def current_state_def)

lemma retry_connect: "retry_inv c \<Longrightarrow> retry_inv (connect False c)"
  by (simp add: connect_def Let_def retry_inv_def current_state_def)

text \<open>A timer that runs out is spent on a new socket, or the current socket is live.\<close>

lemma retry_timer:
  assumes "wc_ws c \<noteq> None \<longrightarrow> wc_shouldReconnect c"
  shows "retry_inv (connect False c)"
  using assms by (auto simp: connect_def Let_def retry_inv_def current_state_def)

lemma retry_disconnect: "retry_inv c \<Longrightarrow> retry_inv (disconnect c)"
  by (cases "wc_ws c") (simp_all add: disconnect_def Let_def retry_inv_def current_state_def close_socket_def)

lemma current_update:
  "current_state (c\<lparr>wc_sockets := (wc_sockets c)[i := r]\<rparr>) =
     (if wc_ws c = Some i \<and> i < length (wc_sockets c) then Some r else current_state c)"
  by (cases "wc_ws c"; cases "i < length (wc_sockets c)")
    (simp_all add: current_state_def nth_list_update list_update_beyond)

lemma retry_open:
  assumes "retry_inv c" and "ws_inv c" and "i < length (wc_sockets c)" and "wc_sockets c ! i = Connecting"
  shows "retry_inv (onopen (c\<lparr>wc_sockets := (wc_sockets c)[i := Open]\<rparr>))"
proof -
  have "live (wc_sockets c ! i)" using assms(4) by simp
  then have "wc_ws c = Some i" using assms(2,3) unfolding ws_inv_def one_live_def by blast
  with assms(1,3) show ?thesis
    by (simp add: onopen_def retry_inv_def current_state_def)
qed

lemma retry_message: "retry_inv c \<Longrightarrow> retry_inv (onmessage len parsed c)"
proof -
  assume c: "retry_inv c"
  have "retry_inv (close_socket i c)" if "wc_ws c = Some i" for i
    using c that by (cases "i < length (wc_sockets c)")
      (simp_all add: retry_inv_def close_socket_def current_state_def closing_def list_update_beyond)
  with c show ?thesis by (simp add: onmessage_def handleMessage_def split: option.splits)
qed

lemma retry_close:
  assumes "retry_inv c"
  shows "retry_inv (onclose (c\<lparr>wc_sockets := (wc_sockets c)[i := Closed]\<rparr>))"
proof (cases "wc_shouldReconnect c \<and> wc_attempts c < maxReconnectAttempts")
  case True
  then show ?thesis using assms by (simp add: onclose_def Let_def retry_inv_def)
next
  case False
  with assms show ?thesis
    by (auto simp: onclose_def Let_def retry_inv_def current_state_def split: option.splits)
qed

lemma retry_step: "ws_step False c d \<Longrightarrow> ws_inv c \<Longrightarrow> retry_inv c \<Longrightarrow> retry_inv d"
proof (induction rule: ws_step.induct)
  case (step_timer k c throws)
  then show ?case using retry_timer [of "c\<lparr>wc_timers := splice1 k (wc_timers c)\<rparr>"] by (simp add: retry_inv_def)
qed (simp_all add: retry_connect retry_disconnect retry_open retry_message retry_close onerror_def)

lemma ws_reach_retry: "ws_reach False c \<Longrightarrow> retry_inv c"
  by (induction rule: ws_reach.induct) (auto simp: retry_new intro: retry_step dest: ws_reach_inv)

text \<open>
  While no socket opens and the page does not call, the client spends an attempt for every
  timer it starts: the connections it still makes are bounded by the attempts left, the
  timers that run and the sockets that are live.
\<close>

inductive ws_fail :: "wsc \<Rightarrow> wsc \<Rightarrow> bool" where
  fail_close: "i < length (wc_sockets c) \<Longrightarrow> wc_sockets c ! i \<noteq> Closed \<Longrightarrow>
    ws_fail c (onclose (c\<lparr>wc_sockets := (wc_sockets c)[i := Closed]\<rparr>))"
| fail_timer: "k < length (wc_timers c) \<Longrightarrow>
    ws_fail c (connect throws (c\<lparr>wc_timers := splice1 k (wc_timers c)\<rparr>))"

definition open_ends :: "ready list \<Rightarrow> nat" where
  "open_ends ss = length (filter (\<lambda>r. r \<noteq> Closed) ss)"

definition ws_measure :: "wsc \<Rightarrow> nat" where
  "ws_measure c = 3 * (maxReconnectAttempts - wc_attempts c) + 2 * length (wc_timers c) + open_ends (wc_sockets c)"

lemma open_ends_close:
  "i < length ss \<Longrightarrow> ss ! i \<noteq> Closed \<Longrightarrow> Suc (open_ends (ss[i := Closed])) = open_ends ss"
proof (induction ss arbitrary: i)
  case (Cons r ss)
  then show ?case by (cases i) (auto simp: open_ends_def)
qed (simp add: open_ends_def)

lemma ws_fail_measure: "ws_fail c d \<Longrightarrow> ws_measure d < ws_measure c"
proof (induction rule: ws_fail.induct)
  case (fail_close i c)
  with open_ends_close [of i "wc_sockets c"] show ?case
    by (auto simp: ws_measure_def onclose_def Let_def)
next
  case (fail_timer k c throws)
  then show ?case
    by (auto simp: ws_measure_def connect_def Let_def open_ends_def length_splice1)
qed

lemma ws_fail_terminates: "wfP (\<lambda>d c. ws_fail c d)"
  using ws_fail_measure by (intro wfp_if_convertible_to_nat [where f = ws_measure]) blast

section \<open>What the page can rely on\<close>

text \<open>
  C10: the client never has two live connections. In every state that any interleaving of page
  calls, socket events and timers can reach (constructors that throw and late events of old
  sockets included), sockets that are connecting or open are the current one, the attempts stay
  within the limit of ten, and every running timer waits between one and 512 seconds, a
  power of two times a second.
\<close>
theorem ws_one_connection:
  assumes "ws_reach may c"
  shows "(\<forall>i < length (wc_sockets c). live (wc_sockets c ! i) \<longrightarrow> wc_ws c = Some i) \<and>
    wc_attempts c \<le> 10 \<and> (\<forall>d \<in> set (wc_timers c). 1000 \<le> d \<and> d \<le> 512000 \<and> (\<exists>k. d = 1000 * 2 ^ k))"
proof -
  have inv: "ws_inv c" by (rule ws_reach_inv [OF assms])
  have "1000 \<le> d \<and> d \<le> 512000 \<and> (\<exists>k. d = 1000 * 2 ^ k)" if del: "delay_ok d" for d
  proof -
    obtain k where k: "k < 10" "d = 1000 * 2 ^ k"
      using del unfolding delay_ok_def maxReconnectAttempts_def reconnectDelay_def by blast
    then have "(2 :: nat) ^ k \<le> 2 ^ 9" by (intro power_increasing) simp_all
    with k show ?thesis by simp
  qed
  then have "\<forall>d \<in> set (wc_timers c). 1000 \<le> d \<and> d \<le> 512000 \<and> (\<exists>k. d = 1000 * 2 ^ k)"
    using inv unfolding ws_inv_def list_all_iff by blast
  moreover have "\<forall>i < length (wc_sockets c). live (wc_sockets c ! i) \<longrightarrow> wc_ws c = Some i"
    using inv unfolding ws_inv_def one_live_def by blast
  moreover have "wc_attempts c \<le> 10" using inv unfolding ws_inv_def maxReconnectAttempts_def by blast
  ultimately show ?thesis by blast
qed

definition after_failure :: wsc where
  "after_failure = (let c = connect False new_client in onclose (c\<lparr>wc_sockets := (wc_sockets c)[0 := Closed]\<rparr>))"

lemma after_failure_fields:
  "wc_ws after_failure = Some 0" "wc_sockets after_failure = [Closed]" "wc_attempts after_failure = 1"
  "wc_timers after_failure = [1000]" "wc_shouldReconnect after_failure"
  by (simp_all add: after_failure_def Let_def connect_def new_client_def current_state_def onclose_def
      maxReconnectAttempts_def reconnectDelay_def)

lemma after_failure_reach: "ws_reach False after_failure"
proof -
  let ?c = "connect False new_client"
  have "ws_reach False ?c" by (rule reach_step [OF reach_new step_connect]) simp
  moreover have "ws_step False ?c (onclose (?c\<lparr>wc_sockets := (wc_sockets ?c)[0 := Closed]\<rparr>))"
    by (rule step_close) (simp_all add: connect_def new_client_def current_state_def)
  ultimately show ?thesis unfolding after_failure_def Let_def by (rule reach_step)
qed

theorem ws_one_connection_witness:
  "let c = after_failure in
    (\<forall>i < length (wc_sockets c). live (wc_sockets c ! i) \<longrightarrow> wc_ws c = Some i) \<and>
    wc_attempts c \<le> 10 \<and> (\<forall>d \<in> set (wc_timers c). 1000 \<le> d \<and> d \<le> 512000 \<and> (\<exists>k. d = 1000 * 2 ^ k))"
  unfolding Let_def by (rule ws_one_connection [OF after_failure_reach])

text \<open>
  C12: a lost connection is always retried. Where constructors do not throw, whenever the current
  socket has closed and fewer than ten attempts were made, a timer is running, and when it
  runs out the client has a new current socket that is connecting.
\<close>
theorem ws_retries:
  assumes "ws_reach False c" and "current_state c = Some Closed" and "wc_attempts c < 10"
  shows "wc_timers c \<noteq> [] \<and>
    current_state (connect False (c\<lparr>wc_timers := splice1 0 (wc_timers c)\<rparr>)) = Some Connecting \<and>
    ws_step False c (connect False (c\<lparr>wc_timers := splice1 0 (wc_timers c)\<rparr>))"
proof -
  have t: "wc_timers c \<noteq> []"
    using ws_reach_retry [OF assms(1)] assms(2,3) by (simp add: retry_inv_def maxReconnectAttempts_def)
  then have "ws_step False c (connect False (c\<lparr>wc_timers := splice1 0 (wc_timers c)\<rparr>))"
    by (intro step_timer) simp_all
  moreover have "current_state (c\<lparr>wc_timers := splice1 0 (wc_timers c)\<rparr>) = Some Closed"
    using assms(2) by (simp add: current_state_def split: option.splits)
  ultimately show ?thesis using t by (simp add: connect_def Let_def, simp add: current_state_def)
qed

theorem ws_retries_witness:
  "wc_timers after_failure \<noteq> [] \<and>
    current_state (connect False (after_failure\<lparr>wc_timers := splice1 0 (wc_timers after_failure)\<rparr>)) = Some Connecting \<and>
    ws_step False after_failure (connect False (after_failure\<lparr>wc_timers := splice1 0 (wc_timers after_failure)\<rparr>))"
  by (rule ws_retries [OF after_failure_reach]) (simp_all add: current_state_def after_failure_fields)

lemma ws_fail_steps: "(ws_fail ^^ n) c d \<Longrightarrow> n + ws_measure d \<le> ws_measure c"
proof (induction n arbitrary: d)
  case (Suc n)
  then obtain e where "(ws_fail ^^ n) c e" "ws_fail e d" by auto
  with Suc.IH [of e] ws_fail_measure [of e d] show ?case by linarith
qed simp

text \<open>
  C13: reconnecting ends. While every connection fails and the page does not call, the client
  takes at most \<open>ws_measure\<close> steps (three for every attempt left, two for every timer, one for
  every open end); no infinite sequence of failures exists, in any order of timers and events.
\<close>
theorem ws_reconnect_ends:
  assumes "(ws_fail ^^ n) c d"
  shows "n \<le> 3 * (10 - wc_attempts c) + 2 * length (wc_timers c) + open_ends (wc_sockets c) \<and>
    wfP (\<lambda>d c. ws_fail c d)"
  using ws_fail_steps [OF assms] ws_fail_terminates by (simp add: ws_measure_def maxReconnectAttempts_def)

theorem ws_reconnect_ends_witness:
  "(1 :: nat) \<le> 3 * (10 - wc_attempts after_failure) + 2 * length (wc_timers after_failure) +
     open_ends (wc_sockets after_failure) \<and> wfP (\<lambda>d c. ws_fail c d)"
proof -
  have "ws_fail after_failure (connect False (after_failure\<lparr>wc_timers := splice1 0 (wc_timers after_failure)\<rparr>))"
    by (rule fail_timer) (simp add: after_failure_fields)
  then have "(ws_fail ^^ 1) after_failure (connect False (after_failure\<lparr>wc_timers := splice1 0 (wc_timers after_failure)\<rparr>))"
    by auto
  then show ?thesis by (rule ws_reconnect_ends)
qed

lemma step_lost:
  assumes "i < length (wc_sockets c)" and "wc_sockets c ! i \<noteq> Closed" and "wc_shouldReconnect c" and "wc_attempts c < 10"
  defines "lost \<equiv> onclose (c\<lparr>wc_sockets := (wc_sockets c)[i := Closed]\<rparr>)"
  shows "ws_step may c lost" "wc_timers lost = wc_timers c @ [1000 * 2 ^ wc_attempts c]" "wc_ws lost = wc_ws c"
    "length (wc_sockets lost) = length (wc_sockets c)"
  using step_close [OF assms(1,2)] assms(3,4)
  by (simp_all add: lost_def onclose_def Let_def maxReconnectAttempts_def reconnectDelay_def)

text \<open>
  C40: \<open>disconnect\<close> does not stop a reconnect that is waiting. Whenever a connection is lost while the
  client may retry, the timer that the loss starts is still running after the page has
  disconnected, and when that timer runs out, with no call of the page in between, the client opens a
  new connection and turns reconnecting on again. The last step is the one of the timer: the state it
  starts from is disconnected, and the new state has this timer removed.
\<close>
theorem disconnect_not_final:
  assumes "i < length (wc_sockets c)" and "wc_sockets c ! i \<noteq> Closed" and "wc_shouldReconnect c" and "wc_attempts c < 10"
  shows "let lost = onclose (c\<lparr>wc_sockets := (wc_sockets c)[i := Closed]\<rparr>);
             gone = disconnect lost;
             k = length (wc_timers c);
             late = connect False (gone\<lparr>wc_timers := splice1 k (wc_timers gone)\<rparr>)
         in ws_step False c lost \<and>
            ws_step False lost gone \<and> wc_ws gone = None \<and> \<not> wc_shouldReconnect gone \<and>
            k < length (wc_timers gone) \<and> wc_timers gone ! k = 1000 * 2 ^ wc_attempts c \<and>
            ws_step False gone late \<and> current_state late = Some Connecting \<and> wc_shouldReconnect late \<and>
            wc_timers late = wc_timers c"
proof -
  define lost where "lost = onclose (c\<lparr>wc_sockets := (wc_sockets c)[i := Closed]\<rparr>)"
  define gone where "gone = disconnect lost"
  define late where "late = connect False (gone\<lparr>wc_timers := splice1 (length (wc_timers c)) (wc_timers gone)\<rparr>)"
  note l = step_lost [OF assms, folded lost_def]
  have g: "wc_ws gone = None" "\<not> wc_shouldReconnect gone" "wc_timers gone = wc_timers c @ [1000 * 2 ^ wc_attempts c]"
    using l(2) by (simp_all add: gone_def disconnect_def Let_def close_socket_def split: option.split)
  have "ws_step False lost gone" unfolding gone_def by (rule step_disconnect)
  moreover have "ws_step False gone late" unfolding late_def by (rule step_timer) (simp_all add: g(3))
  moreover have "current_state late = Some Connecting" "wc_shouldReconnect late" "wc_timers late = wc_timers c"
    by (simp_all add: late_def connect_def Let_def current_state_def g splice1_def)
  ultimately show ?thesis
    using l(1) g unfolding Let_def lost_def [symmetric] gone_def [symmetric] late_def [symmetric]
    by simp
qed

theorem disconnect_not_final_witness:
  "let c = connect False new_client; lost = onclose (c\<lparr>wc_sockets := (wc_sockets c)[0 := Closed]\<rparr>);
       gone = disconnect lost; late = connect False (gone\<lparr>wc_timers := splice1 0 (wc_timers gone)\<rparr>)
   in ws_reach False c \<and> wc_timers gone = [1000] \<and> ws_step False gone late \<and> current_state late = Some Connecting"
proof -
  define c where "c = connect False new_client"
  have c: "wc_sockets c = [Connecting]" "wc_shouldReconnect c" "wc_attempts c = 0" "wc_timers c = []" "wc_ws c = Some 0"
    by (simp_all add: c_def connect_def new_client_def current_state_def)
  have "ws_reach False c" unfolding c_def by (rule reach_step [OF reach_new step_connect]) simp
  moreover have "wc_timers (disconnect (onclose (c\<lparr>wc_sockets := (wc_sockets c)[0 := Closed]\<rparr>))) = [1000]"
    by (simp add: disconnect_def onclose_def Let_def close_socket_def c maxReconnectAttempts_def reconnectDelay_def)
  ultimately show ?thesis
    using disconnect_not_final [of 0 c] unfolding Let_def c_def [symmetric] by (simp add: c)
qed

end
