(* ===== verification/Spec2Isabelle.thy ===== *)
theory Spec2Isabelle
  imports SubPage AccountExport PageUtil Tables Json WsClient Formatters WgKeys
begin

text \<open>
  The browser side of a VPN panel: the JavaScript under src/web/assets/js that models the
  configuration of the servers (inbounds), makes keys and identifiers, talks to the panel's
  server and shows what it answers. This library models that code over a small embedding of
  JavaScript values and proves what the rest of the panel relies on.

  The parts of the program. A form of the panel edits an Inbound object (model/inbound.js). It
  holds the settings of one protocol out of fifteen and, for the Xray protocols, the settings
  of the stream (transport, security, masks, socket options), and the sniffing of traffic.
  Every class has a constructor with default values, a static fromJson and a toJson; the panel
  stores what toString of the whole object writes. The helpers of util/index.js make keys,
  passwords and identifiers for the constructors, format numbers for the tables, and wrap
  requests, cookies and languages. websocket.js keeps one connection to the server. The list of
  inbounds consists of rows (model/dbinbound.js) that hold the saved texts; cards and links are made
  from the inbounds of the rows.

  The embedding.
    Prelude: lists, texts, options, digits. JsValue, JsConvert: JavaScript values as a datatype
    (undefined, null, booleans, numbers, texts, arrays, objects as entry lists with distinct
    keys in insertion order), truthiness, strict equality, the operators || and ?? and default
    parameters, conversion to texts and numbers. JsInt: the 32-bit operators and the rounding
    of doubles on integers. Wire: what JSON.stringify followed by JSON.parse makes of a value,
    and the locale json_codec, the contract of a class with toJson and fromJson. Clients has the
    locale world_codec, the same contract where fromJson may draw random values. Each class of
    the model interprets one of them; the lemmas for lists of objects are proved in the locales.
    Json: the text that JSON.stringify writes and a parser of JSON texts.

  The components.
    Wireguard (class Wireguard of util/index.js): field elements as sixteen limbs, the ladder,
    packing and clamping, as the code computes them in doubles and 32-bit integers. WgLimbs,
    WgMul, WgField, WgPack and WgLadder show that no limb leaves the range in which doubles are
    exact and that the result is X25519 of RFC 7748. WgKeys: key generation and the encoder of
    keys. Base64 (class Base64, with atob, btoa and UTF-8). RandomUtil (class RandomUtil and
    reality_targets.js): the generators as functions of an explicit source of random words, a
    record that is passed along.
    XrayCommon (XrayCommonClass): header lists and header objects. InTransport, InTcp: the
    stream settings of each transport. InTls: TLS, Reality and socket options. InMask, InFinal:
    UDP and TCP masks, QUIC parameters. InStream: StreamSettings and the editing of masks.
    Clients, InClients, InXray: the client classes and the settings of VMess, VLESS, Trojan,
    Shadowsocks and Hysteria. InVpn: L2TP, PPTP, OpenVPN, ocserv and SSTP with their users.
    InMisc: Tunnel, Mixed and HTTP. InWg, InTun: WireGuard and TUN. InSniff: Sniffing.
    InSettings: the dispatch Inbound.Settings over the sum of all settings. InInbound: the
    Inbound class, its predicates and its own step relation ib_reach.
    Url: the URL and URLSearchParams classes of the browser, for the links the code writes and
    reads. InLinks: the share links of an inbound. The outbound form (model/outbound.js) has its own
    classes: OutTransport, OutSecurity, OutMask and OutStream for the stream, OutDns, OutProxy and
    OutSettings for the settings of the protocols, OutBound for the Outbound class and its dispatch,
    OutLinks for the reading of share links. LinkVmess, LinkUrl and LinkRead show what becomes of a
    link that the panel writes when the outbound form reads it.
    DbInbound: the row that the server sends of an inbound (model/dbinbound.js), which makes and
    keeps the Inbound, and the panel's own settings (model/setting.js); the locale key_map is the
    contract of the Map of client statistics. AccountExport (util/export.js): the cards of accounts,
    as a text and as the calls that draw a PDF. SubPage (subscription.js): the subscription page.
    PageUtil: the interceptors of axios-init.js in front of HttpUtil, the clipboard, files and dates.
    Tables: the constants of both models.
    ObjectUtil (ObjectUtil, ArrayUtils), Formatters (the formatters, colours and debounce),
    Browser (HttpUtil, cookies, languages, URLs), WsClient (WebSocketClient with the step
    relations ws_step and ws_fail over its sockets and timers).

  Correspondence. A JavaScript class is a record with one field for each property and a prefix
  of its own; new_C is its constructor, C_fromJson, C_toJson and the other names are its
  methods. An exception is None. A default parameter is dflt, applied to undefined only.
  Methods that change their object return it; a save that completes its object (WireGuard)
  returns both. Random values come from the record world, whose words are arbitrary, so that
  what is proved holds for every source.

  What is shown. Every class loads what it saved, under a predicate C_ok that says which field
  values JSON keeps; the dispatch and the Inbound class lift this to whole inbounds, and this
  theory to their text. Outside the predicates the properties say what happens instead: masks
  settle after one save from any document, QUIC parameters that are not sent come back as the defaults,
  blank header rows and the blank address ranges of L2TP and PPTP are dropped, missing lists throw or are
  replaced, and a VMess link loses the mode, the padding and the final mask on its way to the outbound form. The invariants (settings of the protocol, addresses of peers, ids of clients,
  mask lists, the single live socket) are proved over all sequences of operations. The
  reference definitions are independent of the code: X25519, base64 and base32 by their
  standards, sets for the cipher modes and client ids, a map for the cookies.

  Bounds and fuel. json_parse runs on fuel twice the length of the text, which cost_length shows
  to be enough for every text that is written. All other recursions are structural or have a
  termination proof. The connection client has ten attempts and delays of at most 512 s; the
  bound on failing steps is ws_measure.

  Idealisations. Numbers are rationals with infinities and NaN, exact where a double would
  round (the keys are modelled with rounding, in JsInt); the product of randomInteger is
  exact as long as its range stays below 2^21. A character is a byte, so texts are those of
  Latin-1. Values have no identity: two references to one object are not distinguished, and
  the objects of the model are changed through one reference only. How the URL class rewrites
  the scheme, user and host of a link is a parameter of the model (canon); the link theorems are about
  links it leaves as they are. An object's keys stay in
  insertion order, also where they look like array indices, which JavaScript would put first.

  Not modelled. What the subscription page renders, and the timer of PromiseUtil, only call Vue and
  the browser. The editors under codemirror are third-party. The outbound's TcpMask, HttpSettings and
  CommonClass repeat code that is modelled for the inbound or for SocksSettings.
\<close>

section \<open>An inbound as text\<close>

text \<open>
  C1: an inbound survives being written and read as text. \<open>toString\<close> writes a well-formed
  inbound (here with whole numbers) as JSON; parsing the text and loading it gives an inbound
  with the same port, protocol, settings, tag and sniffing, the same network, security and
  masks where stream settings are sent, and writing that inbound gives the same text again.
\<close>
theorem inbound_text_roundtrip:
  assumes "Inbound_ok i" and "Inbound_toJson i = Some (v, j)" and "json_int (wire v)" and "xray_toString format v = Some s"
  shows "\<exists>json k w' v' j'. json_parse s = Some json \<and> Inbound_fromJson json w = Some (k, w') \<and> j = i \<and>
    ib_port k = ib_port i \<and> ib_protocol k = ib_protocol i \<and> ib_settings k = ib_settings i \<and>
    ib_tag k = ib_tag i \<and> ib_sniffing k = ib_sniffing i \<and>
    (sends_stream i \<longrightarrow> ib_network k = ib_network i \<and> ss_security (ib_stream k) = ss_security (ib_stream i) \<and>
       ss_finalmask (ib_stream k) = ss_finalmask (ib_stream i)) \<and>
    Inbound_toJson k = Some (v', j') \<and> xray_toString format v' = Some s"
proof -
  obtain u where u: "Inbound_toJson i = Some (u, i)" "Inbound_fromJson (wire u) w = Some (inbound_loaded i w)"
    using inbound_load [OF assms(1)] by blast
  with assms(2) have v: "v = u" "j = i" by simp_all
  have p: "json_parse s = Some (wire v)" by (rule xray_toString_parse [OF assms(3,4)])
  obtain k w' where k: "inbound_loaded i w = (k, w')" by (cases "inbound_loaded i w")
  obtain j' where j': "Inbound_toJson k = Some (v, j')"
    using inbound_resave_loaded [OF assms(1), of w] assms(2) k by auto
  note f = loaded_fields [of i w, unfolded k fst_conv] loaded_stream [of i w, unfolded k fst_conv]
  show ?thesis
    using p u(2) k j' f assms(4) v stream_loaded_same [of "ib_stream i" w] by (auto simp: ib_network_def)
qed

definition sample_inbound :: Inbound where
  "sample_inbound = \<lparr>ib_port = jint 8080, ib_listen = JStr '''', ib_protocol = JStr ''tunnel'',
     ib_settings = TunnelSet (new_TunnelSettings (JStr ''1.1.1.1'') (jint 53) None JUndef JUndef),
     ib_stream = fst (default_StreamSettings sample_world), ib_tag = JStr ''in-8080'',
     ib_sniffing = default_Sniffing, ib_clientStats = JStr ''''\<rparr>"

lemma sample_inbound_stream: "\<not> sends_stream sample_inbound"
  using default_no_sockopt by (simp add: sends_stream_def sample_inbound_def canEnableStream_def)

lemma sample_inbound_saved:
  "\<exists>v. Inbound_toJson sample_inbound = Some (v, sample_inbound) \<and> json_int (wire v)"
proof -
  have s: "sent_if (sends_stream sample_inbound) x = Some JUndef" for x
    using sample_inbound_stream by (simp add: sent_if_def)
  have t: "\<exists>v. TunnelSettings_toJson (new_TunnelSettings (JStr ''1.1.1.1'') (jint 53) None JUndef JUndef) = Some v \<and>
      v \<noteq> JUndef \<and> json_int (wire v)"
    by (simp add: TunnelSettings_toJson_def new_TunnelSettings_def opt_new_def wire.simps)
  have n: "\<exists>v. Sniffing_toJson default_Sniffing = Some v \<and> v \<noteq> JUndef \<and> json_int (wire v)"
    by (simp add: Sniffing_toJson_def default_Sniffing_def new_Sniffing_def Let_def default_destOverride_def
        nonempty_or_undef_def slice_or_empty_def opt_val_def wire.simps)
  obtain a b where a: "TunnelSettings_toJson (new_TunnelSettings (JStr ''1.1.1.1'') (jint 53) None JUndef JUndef) = Some a"
      "a \<noteq> JUndef" "json_int (wire a)"
    and b: "Sniffing_toJson default_Sniffing = Some b" "b \<noteq> JUndef" "json_int (wire b)"
    using t n by blast
  have f: "ib_settings sample_inbound = TunnelSet (new_TunnelSettings (JStr ''1.1.1.1'') (jint 53) None JUndef JUndef)"
    "ib_sniffing sample_inbound = default_Sniffing" "ib_port sample_inbound = jint 8080"
    "ib_listen sample_inbound = JStr ''''" "ib_protocol sample_inbound = JStr ''tunnel''"
    "ib_tag sample_inbound = JStr ''in-8080''" "ib_clientStats sample_inbound = JStr ''''"
    by (simp_all add: sample_inbound_def)
  have same: "sample_inbound\<lparr>ib_settings := ib_settings sample_inbound\<rparr> = sample_inbound" by simp
  show ?thesis
    using a b same by (simp add: Inbound_toJson_def s f wire.simps)
qed

lemma sample_inbound_ok: "Inbound_ok sample_inbound"
  using sample_inbound_stream
  by (simp add: Inbound_ok_def)
     (simp add: sample_inbound_def TunnelSettings_ok_def new_TunnelSettings_def opt_new_def opt_field_ok_def
        single_headers_ok_def Sniffing_ok_def default_Sniffing_def new_Sniffing_def Let_def default_destOverride_def
        slice_or_empty_def array_ok_def dest_missing_def isEmpty_def isArrEmpty_def)

theorem inbound_text_roundtrip_witness:
  "\<exists>v s json k w' v' j'. Inbound_toJson sample_inbound = Some (v, sample_inbound) \<and> xray_toString True v = Some s \<and>
    json_parse s = Some json \<and> Inbound_fromJson json sample_world = Some (k, w') \<and>
    ib_protocol k = JStr ''tunnel'' \<and> ib_port k = jint 8080 \<and> ib_settings k = ib_settings sample_inbound \<and>
    Inbound_toJson k = Some (v', j') \<and> xray_toString True v' = Some s"
proof -
  obtain v where v: "Inbound_toJson sample_inbound = Some (v, sample_inbound)" "json_int (wire v)"
    using sample_inbound_saved by blast
  then have "v \<noteq> JUndef" using inbound_load [OF sample_inbound_ok] by auto
  then obtain s where s: "xray_toString True v = Some s" by (simp add: xray_toString_def stringify_def)
  have "ib_protocol sample_inbound = JStr ''tunnel''" "ib_port sample_inbound = jint 8080"
    by (simp_all add: sample_inbound_def)
  with inbound_text_roundtrip [OF sample_inbound_ok v s, of sample_world] v(1) s show ?thesis by metis
qed

section \<open>The row of a saved inbound\<close>

theorem dbinbound_loads_witness:
  "\<exists>v data k w' y. Inbound_toJson sample_inbound = Some (v, sample_inbound) \<and> row_of True v data \<and>
    toInbound (new_DBInbound (JObj data)) sample_world = Some (k, y, w') \<and>
    ib_settings k = ib_settings sample_inbound \<and> toInbound y w' = Some (k, y, w')"
proof -
  obtain v where v: "Inbound_toJson sample_inbound = Some (v, sample_inbound)" "json_int (wire v)"
    using sample_inbound_saved by blast
  obtain data where data: "row_of True v data" using row_exists by blast
  from dbinbound_loads [OF sample_inbound_ok v data, of sample_world] v(1) data show ?thesis by blast
qed

end
